(* ===== verification/Paths.thy ===== *)
theory Paths
  imports Prelude
begin

text \<open>
  The lexical path functions of Go's \<open>path/filepath\<close> on Unix, as the sources use them:
  \<open>Clean\<close>, \<open>Join\<close>, \<open>Rel\<close>, \<open>Dir\<close>, \<open>IsAbs\<close>. A path is cut into its components at the slashes;
  \<open>Clean\<close> is a left-to-right pass over them with a stack, and the other functions are written
  over \<open>Clean\<close>, as the library documents them.
\<close>

fun split_slash :: "string \<Rightarrow> string list" where
  "split_slash [] = [[]]"
| "split_slash (c # s) =
     (if c = CHR ''/'' then [] # split_slash s
      else case split_slash s of [] \<Rightarrow> [[c]] | w # ws \<Rightarrow> (c # w) # ws)"

fun join_slash :: "string list \<Rightarrow> string" where
  "join_slash [] = []"
| "join_slash [w] = w"
| "join_slash (w # v # ws) = w @ ''/'' @ join_slash (v # ws)"

fun clean_comps :: "bool \<Rightarrow> string list \<Rightarrow> string list \<Rightarrow> string list" where
  "clean_comps rooted stack [] = rev stack"
| "clean_comps rooted stack (w # ws) =
     (if w = '''' \<or> w = ''.'' then clean_comps rooted stack ws
      else if w = ''..'' then
        (case stack of
           [] \<Rightarrow> clean_comps rooted (if rooted then [] else [''..'']) ws
         | t # ts \<Rightarrow>
             if t = ''..'' then clean_comps rooted (''..'' # stack) ws
             else clean_comps rooted ts ws)
      else clean_comps rooted (w # stack) ws)"

definition IsAbs :: "string \<Rightarrow> bool" where
  "IsAbs p = prefix ''/'' p"

definition path_comps :: "string \<Rightarrow> string list" where
  "path_comps p = clean_comps (IsAbs p) [] (split_slash p)"

definition render_path :: "bool \<Rightarrow> string list \<Rightarrow> string" where
  "render_path rooted cs =
     (if rooted then ''/'' @ join_slash cs else if cs = [] then ''.'' else join_slash cs)"

definition Clean :: "string \<Rightarrow> string" where
  "Clean p = render_path (IsAbs p) (path_comps p)"

text \<open>\<open>Join\<close> drops empty elements, joins the rest with slashes and cleans the result.\<close>

definition Join :: "string list \<Rightarrow> string" where
  "Join es = (case filter (\<lambda>e. e \<noteq> []) es of [] \<Rightarrow> [] | ws \<Rightarrow> Clean (join_slash ws))"

text \<open>
  \<open>Rel base targ\<close>: the common components are dropped, one \<open>..\<close> is emitted for every component
  left in the base, and what is left of the target follows. It fails when exactly one of the two
  is rooted, or when the base would have to be left through a \<open>..\<close> component.
\<close>

fun drop_common :: "string list \<Rightarrow> string list \<Rightarrow> string list \<times> string list" where
  "drop_common (b # bs) (t # ts) = (if b = t then drop_common bs ts else (b # bs, t # ts))"
| "drop_common bs ts = (bs, ts)"

definition Rel :: "string \<Rightarrow> string \<Rightarrow> string option" where
  "Rel base targ =
     (if Clean base = Clean targ then Some ''.''
      else if IsAbs base \<noteq> IsAbs targ then None
      else case drop_common (path_comps base) (path_comps targ) of
        (bs, ts) \<Rightarrow>
          if bs \<noteq> [] \<and> hd bs = ''..'' then None
          else Some (join_slash (map (\<lambda>_. ''..'') bs @ ts)))"

definition Dir :: "string \<Rightarrow> string" where
  "Dir p = Clean (rev (dropWhile (\<lambda>c. c \<noteq> CHR ''/'') (rev p)))"

subsection \<open>Components\<close>

text \<open>A component as \<open>Clean\<close> leaves it behind: not empty, no slash, not a dot element.\<close>

definition plain_comp :: "string \<Rightarrow> bool" where
  "plain_comp w \<longleftrightarrow> w \<noteq> '''' \<and> CHR ''/'' \<notin> set w \<and> w \<noteq> ''.'' \<and> w \<noteq> ''..''"

lemma split_slash_nonempty [simp]: "split_slash s \<noteq> []"
  by (induction s) (auto split: list.splits)

lemma split_slash_no_slash: "w \<in> set (split_slash s) \<Longrightarrow> CHR ''/'' \<notin> set w"
proof (induction s arbitrary: w)
  case Nil
  then show ?case by simp
next
  case (Cons c s)
  then show ?case by (auto split: list.splits if_splits)
qed

lemma split_slash_plain: "CHR ''/'' \<notin> set w \<Longrightarrow> split_slash w = [w]"
  by (induction w) auto

lemma split_slash_append:
  "CHR ''/'' \<notin> set w \<Longrightarrow> split_slash (w @ CHR ''/'' # s) = w # split_slash s"
  by (induction w) auto

lemma split_join:
  "cs \<noteq> [] \<Longrightarrow> \<forall>w \<in> set cs. CHR ''/'' \<notin> set w \<Longrightarrow> split_slash (join_slash cs) = cs"
proof (induction cs rule: join_slash.induct)
  case (3 w v ws)
  then show ?case by (simp add: split_slash_append)
qed (auto simp: split_slash_plain)

lemma clean_comps_rooted_plain:
  "\<forall>w \<in> set stack. plain_comp w \<Longrightarrow> \<forall>w \<in> set ws. CHR ''/'' \<notin> set w \<Longrightarrow>
     \<forall>w \<in> set (clean_comps True stack ws). plain_comp w"
proof (induction ws arbitrary: stack)
  case Nil
  then show ?case by simp
next
  case step: (Cons w ws)
  have rest: "\<forall>v \<in> set ws. CHR ''/'' \<notin> set v" using step.prems by simp
  consider "w = '''' \<or> w = ''.''" | "w = ''..''" | "plain_comp w"
    using step.prems by (auto simp: plain_comp_def)
  then show ?case
  proof cases
    case 1
    then show ?thesis using step.IH [OF step.prems(1) rest] by auto
  next
    case 2
    show ?thesis
    proof (cases stack)
      case Nil
      then show ?thesis using 2 step.IH [of "[]"] rest by simp
    next
      case (Cons t ts)
      then have "plain_comp t" and ts: "\<forall>v \<in> set ts. plain_comp v"
        using step.prems(1) by simp_all
      then have "t \<noteq> ''..''" by (simp add: plain_comp_def)
      then show ?thesis using 2 Cons step.IH [OF ts rest] by simp
    qed
  next
    case 3
    then have "\<forall>v \<in> set (w # stack). plain_comp v" using step.prems(1) by simp
    from step.IH [OF this rest] 3 show ?thesis by (simp add: plain_comp_def)
  qed
qed

lemma path_comps_rooted_plain: "IsAbs p \<Longrightarrow> w \<in> set (path_comps p) \<Longrightarrow> plain_comp w"
  unfolding path_comps_def
  using clean_comps_rooted_plain [of "[]" "split_slash p"] split_slash_no_slash by auto

lemma clean_comps_id:
  "\<forall>w \<in> set ws. plain_comp w \<Longrightarrow> clean_comps rooted stack ws = rev stack @ ws"
  by (induction ws arbitrary: stack) (auto simp: plain_comp_def)

lemma IsAbs_render [simp]: "IsAbs (render_path True cs)"
  by (simp add: render_path_def IsAbs_def)

lemma path_comps_render:
  assumes "\<forall>w \<in> set cs. plain_comp w"
  shows "path_comps (render_path True cs) = cs"
proof (cases cs)
  case Nil
  then show ?thesis by (simp add: path_comps_def render_path_def IsAbs_def)
next
  case (Cons c ds)
  then have "split_slash (join_slash cs) = cs"
    using assms by (intro split_join) (auto simp: plain_comp_def)
  moreover have "clean_comps True [] cs = cs"
    using assms by (simp add: clean_comps_id)
  ultimately show ?thesis
    by (simp add: path_comps_def render_path_def IsAbs_def)
qed

lemma Clean_rooted: "IsAbs p \<Longrightarrow> Clean p = render_path True (path_comps p)"
  by (simp add: Clean_def)

lemma path_comps_Clean: "IsAbs p \<Longrightarrow> path_comps (Clean p) = path_comps p"
  by (simp add: Clean_rooted path_comps_render path_comps_rooted_plain)

lemma Clean_IsAbs: "IsAbs p \<Longrightarrow> IsAbs (Clean p)"
  by (simp add: Clean_rooted)

lemma Clean_idem: "IsAbs p \<Longrightarrow> Clean (Clean p) = Clean p"
  by (simp add: Clean_rooted path_comps_render path_comps_rooted_plain)

lemma render_inject:
  assumes "\<forall>w \<in> set cs. plain_comp w" and "\<forall>w \<in> set ds. plain_comp w"
  shows "render_path True cs = render_path True ds \<longleftrightarrow> cs = ds"
  using assms path_comps_render by metis

lemma drop_common_prefix: "drop_common bs (bs @ ts) = ([], ts)"
  by (induction bs) (cases ts; auto)+

lemma drop_common_spec: "drop_common bs ts = (bs', ts') \<Longrightarrow> \<exists>cs. bs = cs @ bs' \<and> ts = cs @ ts'"
proof (induction bs ts rule: drop_common.induct)
  case (1 b bs t ts)
  show ?case
  proof (cases "b = t")
    case True
    with 1 obtain cs where "bs = cs @ bs' \<and> ts = cs @ ts'" by auto
    with True show ?thesis by (intro exI [of _ "t # cs"]) simp
  next
    case False
    with 1(2) show ?thesis by auto
  qed
qed auto

end
