(* ===== verification/Identity.thy ===== *)
theory Identity
  imports Paths
begin

text \<open>
  The identity primitives: \<open>internal/machineid\<close> (the canonical host identity), \<open>internal/identity\<close>
  (observation statuses, resource identities, the strict systemd unit-name boundary) and the
  spec-hash codec of \<open>internal/ownership/spec_hex.go\<close>, with its bytes kept at their width.
\<close>

unbundle bit_operations_syntax

subsection \<open>internal/machineid\<close>

datatype machineid_error = MachineIdEmpty | MachineIdMalformed nat

abbreviation HostIdentityPrefix :: string where
  "HostIdentityPrefix \<equiv> ''machine-id:''"

text \<open>The regular expression \<open>^[0-9a-f]{32}$\<close>.\<close>

definition formatRe :: "string \<Rightarrow> bool" where
  "formatRe s \<longleftrightarrow> length s = 32 \<and> list_all is_lower_hex s"

definition Normalize :: "string \<Rightarrow> (machineid_error, string) result" where
  "Normalize raw =
     (let i = ToLower (TrimSpace raw) in
      if i = '''' then Inl MachineIdEmpty
      else if \<not> formatRe i then Inl (MachineIdMalformed (length i))
      else Inr i)"

definition HostIdentity :: "string \<Rightarrow> (machineid_error, string) result" where
  "HostIdentity raw = (case Normalize raw of Inl e \<Rightarrow> Inl e | Inr i \<Rightarrow> Inr (HostIdentityPrefix @ i))"

subsection \<open>internal/identity\<close>

datatype FieldStatus =
    FieldStatusPresent | FieldStatusAbsent | FieldStatusAmbiguous | FieldStatusConflict
  | FieldStatusUnknownUnsupported | FieldStatusUnknownPermission | FieldStatusUnknownParse
  | FieldStatusOther string

fun FieldStatus_Valid :: "FieldStatus \<Rightarrow> bool" where
  "FieldStatus_Valid (FieldStatusOther _) = False"
| "FieldStatus_Valid _ = True"

datatype IdClass =
    IdClassFile | IdClassService | IdClassSSH | IdClassSysctl | IdClassRoute | IdClassRule
  | IdClassFirewallRule | IdClassFirewallChain | IdClassOther string

fun IdClass_Valid :: "IdClass \<Rightarrow> bool" where
  "IdClass_Valid (IdClassOther _) = False"
| "IdClass_Valid _ = True"

record IdResource =
  idr_Class :: IdClass
  idr_Key :: string

datatype unit_error =
    UnitEmpty | UnitTooLong nat | UnitOptionLike | UnitNotIdentifier | UnitUnsupportedType string
  | UnitPathLike | UnitBadChar char

datatype id_error =
    IdInvalidClass IdClass | IdEmptyKey | IdEmptyPath | IdRelativePath string | IdUnit unit_error

definition NewResourceIdentity :: "IdClass \<Rightarrow> string \<Rightarrow> (id_error, IdResource) result" where
  "NewResourceIdentity cls key =
     (if \<not> IdClass_Valid cls then Inl (IdInvalidClass cls)
      else if key = '''' then Inl IdEmptyKey
      else Inr \<lparr>idr_Class = cls, idr_Key = key\<rparr>)"

definition IdResource_Valid :: "IdResource \<Rightarrow> bool" where
  "IdResource_Valid i \<longleftrightarrow> IdClass_Valid (idr_Class i) \<and> idr_Key i \<noteq> ''''"

definition FileIdentity :: "string \<Rightarrow> (id_error, IdResource) result" where
  "FileIdentity path =
     (if path = '''' then Inl IdEmptyPath
      else if \<not> IsAbs path then Inl (IdRelativePath path)
      else NewResourceIdentity IdClassFile (Clean path))"

text \<open>\<open>strings.Cut(name, ".")\<close>: the text before and after the first dot.\<close>

fun cut_dot :: "string \<Rightarrow> (string \<times> string) option" where
  "cut_dot [] = None"
| "cut_dot (c # s) =
     (if c = CHR ''.'' then Some ([], s)
      else case cut_dot s of None \<Rightarrow> None | Some (a, b) \<Rightarrow> Some (c # a, b))"

definition unit_char :: "char \<Rightarrow> bool" where
  "unit_char c \<longleftrightarrow>
     (let n = (of_char c :: nat) in
       97 \<le> n \<and> n \<le> 122 \<or> 65 \<le> n \<and> n \<le> 90 \<or> 48 \<le> n \<and> n \<le> 57)
     \<or> c = CHR ''_'' \<or> c = CHR ''-'' \<or> c = CHR ''.'' \<or> c = CHR '':''"

definition ValidUnitName :: "string \<Rightarrow> unit_error option" where
  "ValidUnitName name =
     (if name = '''' then Some UnitEmpty
      else if 255 < length name then Some (UnitTooLong (length name))
      else if hd name = CHR ''-'' then Some UnitOptionLike
      else case cut_dot name of
        None \<Rightarrow> Some UnitNotIdentifier
      | Some (pre, unitType) \<Rightarrow>
          if CHR ''.'' \<in> set unitType then Some UnitNotIdentifier
          else if unitType \<noteq> ''service'' \<and> unitType \<noteq> ''socket'' then Some (UnitUnsupportedType unitType)
          else if pre = '''' \<or> pre = ''.'' \<or> pre = ''..'' then Some UnitPathLike
          else case find (\<lambda>c. \<not> unit_char c) name of
            Some c \<Rightarrow> Some (UnitBadChar c)
          | None \<Rightarrow> None)"

definition ServiceIdentity :: "string \<Rightarrow> (id_error, IdResource) result" where
  "ServiceIdentity unitname =
     (case ValidUnitName unitname of Some e \<Rightarrow> Inl (IdUnit e)
      | None \<Rightarrow> NewResourceIdentity IdClassService unitname)"

definition SSHUnitIdentity :: "string \<Rightarrow> (id_error, IdResource) result" where
  "SSHUnitIdentity unitname =
     (case ValidUnitName unitname of Some e \<Rightarrow> Inl (IdUnit e)
      | None \<Rightarrow> NewResourceIdentity IdClassSSH unitname)"

subsection \<open>The spec-hash codec of internal/ownership\<close>

text \<open>\<open>SpecHash [32]byte\<close>: the list of its bytes; \<open>wf_hash\<close> is the array length Go's type fixes.\<close>

type_synonym SpecHash = "8 word list"

definition wf_hash :: "SpecHash \<Rightarrow> bool" where
  "wf_hash h \<longleftrightarrow> length h = 32"

definition SpecHash_IsZero :: "SpecHash \<Rightarrow> bool" where
  "SpecHash_IsZero h \<longleftrightarrow> h = replicate 32 0"

datatype hash_error = HashLength nat | HashChar nat

definition hex_val :: "char \<Rightarrow> 8 word option" where
  "hex_val c =
     (let n = (of_char c :: nat) in
      if 48 \<le> n \<and> n \<le> 57 then Some (of_nat (n - 48))
      else if 97 \<le> n \<and> n \<le> 102 then Some (of_nat (n - 97) + 10)
      else None)"

text \<open>The loop over the positions \<open>i\<close>, two characters to a byte.\<close>

fun parse_hex_pairs :: "nat \<Rightarrow> string \<Rightarrow> (hash_error, SpecHash) result" where
  "parse_hex_pairs i (hi # lo # s) =
     (case hex_val hi of None \<Rightarrow> Inl (HashChar i)
      | Some v \<Rightarrow> (case hex_val lo of None \<Rightarrow> Inl (HashChar (Suc i))
        | Some w \<Rightarrow> (case parse_hex_pairs (i + 2) s of Inl e \<Rightarrow> Inl e
          | Inr bs \<Rightarrow> Inr ((push_bit 4 v OR w) # bs))))"
| "parse_hex_pairs i s = Inr []"

definition ParseSpecHashHex :: "string \<Rightarrow> (hash_error, SpecHash) result" where
  "ParseSpecHashHex s = (if length s \<noteq> 64 then Inl (HashLength (length s)) else parse_hex_pairs 0 s)"

definition hex_digit :: "8 word \<Rightarrow> char" where
  "hex_digit b = ''0123456789abcdef'' ! unat b"

fun Hex :: "SpecHash \<Rightarrow> string" where
  "Hex [] = []"
| "Hex (b # bs) = hex_digit (drop_bit 4 b) # hex_digit (b AND 15) # Hex bs"

subsection \<open>The host identity is canonical\<close>

lemma dropWhile_none: "list_all (\<lambda>c. \<not> P c) s \<Longrightarrow> dropWhile P s = s"
  by (cases s) auto

lemma lower_hex_not_space: "is_lower_hex c \<Longrightarrow> \<not> is_space c"
  by (auto simp: is_lower_hex_def is_digit_def is_space_def)

lemma lower_hex_lower: "is_lower_hex c \<Longrightarrow> lower_char c = c"
  by (auto simp: is_lower_hex_def is_digit_def lower_char_def Let_def)

lemma TrimSpace_hex: "list_all is_lower_hex s \<Longrightarrow> TrimSpace s = s"
  by (simp add: TrimSpace_def dropWhile_none list_all_iff lower_hex_not_space)

lemma ToLower_hex: "list_all is_lower_hex s \<Longrightarrow> ToLower s = s"
  by (simp add: ToLower_def list_all_iff lower_hex_lower map_idI)

lemma Normalize_canonical:
  assumes "Normalize raw = Inr i"
  shows "formatRe i" and "Normalize i = Inr i"
proof -
  show f: "formatRe i"
    using assms by (auto simp: Normalize_def Let_def split: if_splits)
  then have "i \<noteq> ''''" by (auto simp: formatRe_def)
  with f show "Normalize i = Inr i"
    by (auto simp: Normalize_def Let_def formatRe_def TrimSpace_hex ToLower_hex)
qed

subsection \<open>Unit names\<close>

lemma cut_dot_Some: "cut_dot s = Some (a, b) \<Longrightarrow> s = a @ CHR ''.'' # b \<and> CHR ''.'' \<notin> set a"
  by (induction s arbitrary: a) (auto split: if_splits option.splits)

lemma cut_dot_append: "CHR ''.'' \<notin> set a \<Longrightarrow> cut_dot (a @ CHR ''.'' # b) = Some (a, b)"
  by (induction a) auto

lemma ValidUnitName_None_iff:
  "ValidUnitName name = None \<longleftrightarrow>
     (\<exists>pre ty. name = pre @ CHR ''.'' # ty \<and> CHR ''.'' \<notin> set pre \<and> pre \<noteq> ''''
        \<and> (ty = ''service'' \<or> ty = ''socket''))
     \<and> length name \<le> 255 \<and> hd name \<noteq> CHR ''-'' \<and> list_all unit_char name"
  (is "?L \<longleftrightarrow> ?R")
proof
  assume ?L
  then obtain pre ty where c: "cut_dot name = Some (pre, ty)"
    by (auto simp: ValidUnitName_def split: if_splits option.splits)
  from \<open>?L\<close> c have "pre \<noteq> ''''" "ty = ''service'' \<or> ty = ''socket''"
    "length name \<le> 255" "hd name \<noteq> CHR ''-''" "find (\<lambda>c. \<not> unit_char c) name = None"
    by (auto simp: ValidUnitName_def split: if_splits option.splits)
  with cut_dot_Some [OF c] show ?R
    by (auto simp: find_None_iff list_all_iff)
next
  assume R: ?R
  then obtain pre ty where n: "name = pre @ CHR ''.'' # ty" "CHR ''.'' \<notin> set pre" "pre \<noteq> ''''"
    and ty: "ty = ''service'' \<or> ty = ''socket''" by blast
  have c: "cut_dot name = Some (pre, ty)" using n cut_dot_append by simp
  have "find (\<lambda>c. \<not> unit_char c) name = None"
    using R by (simp add: find_None_iff list_all_iff)
  with R c n ty show ?L
    by (auto simp: ValidUnitName_def)
qed

subsection \<open>Spec hashes round-trip\<close>

lemma hex_val_Some_bound: "hex_val c = Some v \<Longrightarrow> unat v < 16 \<and> hex_digit v = c"
proof -
  assume h: "hex_val c = Some v"
  define n where "n = (of_char c :: nat)"
  have c: "c = char_of n" by (simp add: n_def)
  have "48 \<le> n \<and> n < 58 \<or> 97 \<le> n \<and> n < 103"
    using h by (auto simp: hex_val_def n_def [symmetric] Let_def split: if_splits)
  then have "n \<in> set [48..<58] \<union> set [97..<103]"
    by (simp only: set_upt Un_iff atLeastLessThan_iff)
  moreover have "[48..<58] = [48,49,50,51,52,53,54,55,56,57::nat]"
    and "[97..<103] = [97,98,99,100,101,102::nat]" by code_simp+
  ultimately have "n \<in> {48,49,50,51,52,53,54,55,56,57,97,98,99,100,101,102}"
    by (simp del: set_upt) blast
  moreover have "(if 48 \<le> n \<and> n \<le> 57 then Some (of_nat (n - 48))
      else if 97 \<le> n \<and> n \<le> 102 then Some (of_nat (n - 97) + 10) else None) = Some v"
    using h unfolding hex_val_def Let_def n_def [symmetric] .
  ultimately show ?thesis unfolding c by (auto simp: hex_digit_def char_of_def bit_0)
qed

lemma hex_val_hex_digit: "unat x < 16 \<Longrightarrow> hex_val (hex_digit x) = Some x"
proof -
  assume "unat x < 16"
  then have "unat x \<in> set [0..<16]" by simp
  moreover have "[0..<16] = [0,1,2,3,4,5,6,7,8,9,10,11,12,13,14,15::nat]" by code_simp
  ultimately have "unat x \<in> {0,1,2,3,4,5,6,7,8,9,10,11,12,13,14,15}" by (simp del: set_upt)
  then show ?thesis
    by (auto simp: hex_val_def hex_digit_def Let_def word_unat_eq_iff)
qed

lemma low_nibble: "(b :: 8 word) AND 15 = take_bit 4 b"
  by (simp add: take_bit_eq_mask mask_numeral)

lemma nibble_bounds: "unat (drop_bit 4 (b :: 8 word)) < 16" "unat (b AND 15) < 16"
proof -
  have "unat b < 256" using unsigned_less [of b] by simp
  moreover have "unat (drop_bit 4 b) = unat b div 16"
    by (simp add: unat_drop_bit_eq drop_bit_eq_div [of 4 "unat b"])
  ultimately show "unat (drop_bit 4 b) < 16" by simp
  have "unat (b AND 15) = unat b mod 16"
    by (simp add: low_nibble unsigned_take_bit_eq take_bit_eq_mod [of 4 "unat b"])
  then show "unat (b AND 15) < 16" by simp
qed

lemma nibbles_join: "push_bit 4 (drop_bit 4 (b :: 8 word)) OR (b AND 15) = b"
  unfolding low_nibble by (rule bit_eqI) (auto simp: bit_simps)

lemma nibble_bit: "unat (v :: 8 word) < 16 \<Longrightarrow> take_bit 4 v = v"
  by (simp add: word_unat_eq_iff unsigned_take_bit_eq take_bit_eq_mod [of 4 "unat v"])

lemma nibbles_split:
  assumes "unat (v :: 8 word) < 16" and "unat (w :: 8 word) < 16"
  shows "drop_bit 4 (push_bit 4 v OR w) = v" and "(push_bit 4 v OR w) AND 15 = w"
proof -
  have v: "take_bit 4 v = v" and w: "take_bit 4 w = w" using assms by (simp_all add: nibble_bit)
  have "drop_bit 4 (push_bit 4 (take_bit 4 v) OR take_bit 4 w) = take_bit 4 v"
    by (rule bit_eqI) (auto simp: bit_simps)
  then show "drop_bit 4 (push_bit 4 v OR w) = v" by (simp add: v w)
  have "take_bit 4 (push_bit 4 (take_bit 4 v) OR take_bit 4 w) = take_bit 4 w"
    by (rule bit_eqI) (auto simp: bit_simps)
  then show "(push_bit 4 v OR w) AND 15 = w" unfolding low_nibble by (simp add: v w)
qed

lemma parse_hex_pairs_Hex: "parse_hex_pairs i (Hex bs) = Inr bs"
  by (induction bs arbitrary: i) (auto simp: hex_val_hex_digit nibble_bounds nibbles_join)

lemma length_Hex [simp]: "length (Hex bs) = 2 * length bs"
  by (induction bs) auto

lemma Hex_parse_hex_pairs: "parse_hex_pairs i s = Inr bs \<Longrightarrow> even (length s) \<Longrightarrow> Hex bs = s"
proof (induction i s arbitrary: bs rule: parse_hex_pairs.induct)
  case (1 i hi lo s)
  then obtain v w cs where v: "hex_val hi = Some v" and w: "hex_val lo = Some w"
    and cs: "parse_hex_pairs (i + 2) s = Inr cs" and bs: "bs = (push_bit 4 v OR w) # cs"
    by (auto split: option.splits sum.splits)
  with "1.IH" [of v w cs] "1.prems" have "Hex cs = s" by simp
  with hex_val_Some_bound [OF v] hex_val_Some_bound [OF w] show ?case
    unfolding bs Hex.simps by (simp only: nibbles_split)
qed auto

lemma ParseSpecHashHex_wf: "ParseSpecHashHex s = Inr h \<Longrightarrow> wf_hash h"
proof -
  assume p: "ParseSpecHashHex s = Inr h"
  then have "length s = 64" and "parse_hex_pairs 0 s = Inr h"
    by (auto simp: ParseSpecHashHex_def split: if_splits)
  then have "Hex h = s" by (simp add: Hex_parse_hex_pairs)
  with \<open>length s = 64\<close> length_Hex [of h] show ?thesis by (simp add: wf_hash_def)
qed

end
