(* ===== verification/Ownership_Evidence.thy ===== *)
theory Ownership_Evidence
  imports Identity
begin

text \<open>
  \<open>internal/ownership\<close>, first half: resource identities and their per-class validation, birthright
  eligibility, evidence claims, and \<open>Corroborate\<close> (\<open>evidence.go\<close>), which decides whether a claim is
  backed by the durable transaction history. Go's error texts are constructors of \<open>own_error\<close>, its
  reason texts constructors of \<open>v_reason\<close>. The iteration order of the two Go maps of
  \<open>ResourceIdentity.Validate\<close> only decides which field an error names, so the error names none.
\<close>

subsection \<open>Resource identities (ownership.go)\<close>

datatype ResourceClass =
    ClassFile | ClassSysctlDropIn | ClassRouteRule | ClassRoute | ClassFirewallChain
  | ClassFirewallRule | ClassMSSRule | ClassOther string

abbreviation ProjectFileNamespace :: string where
  "ProjectFileNamespace \<equiv> ''/etc/vps-gateway/''"
abbreviation ProjectSysctlDropInPath :: string where
  "ProjectSysctlDropInPath \<equiv> ''/etc/sysctl.d/99-vps-gateway.conf''"
abbreviation ReservedRoutingTable :: "32 word" where
  "ReservedRoutingTable \<equiv> 100"
abbreviation ProjectChainPrefix :: string where
  "ProjectChainPrefix \<equiv> ''vpsgw_''"
abbreviation ProjectTagPrefix :: string where
  "ProjectTagPrefix \<equiv> ''muvg''"

record ResourceIdentity =
  ri_Class :: ResourceClass
  ri_Path :: string
  ri_Table :: "32 word"
  ri_Priority :: int
  ri_From :: string
  ri_Destination :: string
  ri_Chain :: string
  ri_Tag :: string

datatype ri_field = FPath | FTable | FPriority | FFrom | FDestination | FChain | FTag

datatype own_error =
    IdentUnknownClass | IdentNotApplicable | IdentMissingField | IdentNotAbsolute | IdentNotCanonical
  | IdentKernelTable | IdentNegativePriority
  | EvNoTxID | EvNoFingerprint | EvHostNamespace | EvHostMalformed machineid_error
  | EvNoSpec | EvNoTimestamp
  | EvUnknownOutcome string | EvUnknownRollback string | EvActionNoResource nat
  | EvActionUnknownStatus nat | EvActionZeroSpec nat | EvActionZeroObserved nat
  | EvActionContradicts nat | ErrConflictingCorroboration string
  | ErrInvalidVerdict | ErrUnknownOperation
  | LiveInvalidState | LiveZeroSpec | LiveSpecNotPresent | LiveOwnerNotPresent
  | ClaimOtherIdentity

fun identityApplicableFields :: "ResourceClass \<Rightarrow> ri_field list option" where
  "identityApplicableFields ClassFile = Some [FPath]"
| "identityApplicableFields ClassSysctlDropIn = Some [FPath]"
| "identityApplicableFields ClassRouteRule = Some [FTable, FPriority, FFrom]"
| "identityApplicableFields ClassRoute = Some [FTable, FDestination]"
| "identityApplicableFields ClassFirewallChain = Some [FChain]"
| "identityApplicableFields ClassFirewallRule = Some [FChain, FTag]"
| "identityApplicableFields ClassMSSRule = Some [FChain, FTag]"
| "identityApplicableFields (ClassOther _) = None"

definition identity_set_fields :: "ResourceIdentity \<Rightarrow> ri_field list" where
  "identity_set_fields r =
     (if ri_Path r \<noteq> '''' then [FPath] else []) @
     (if ri_Table r \<noteq> 0 then [FTable] else []) @
     (if ri_Priority r \<noteq> 0 then [FPriority] else []) @
     (if ri_From r \<noteq> '''' then [FFrom] else []) @
     (if ri_Destination r \<noteq> '''' then [FDestination] else []) @
     (if ri_Chain r \<noteq> '''' then [FChain] else []) @
     (if ri_Tag r \<noteq> '''' then [FTag] else [])"

definition validateIdentityTable :: "32 word \<Rightarrow> own_error option" where
  "validateIdentityTable t = (if t = 253 \<or> t = 254 \<or> t = 255 then Some IdentKernelTable else None)"

definition identity_class_error :: "ResourceIdentity \<Rightarrow> own_error option" where
  "identity_class_error r =
     (case ri_Class r of
        ClassFile \<Rightarrow> (if \<not> HasPrefix (ri_Path r) ''/'' then Some IdentNotAbsolute
                      else if Clean (ri_Path r) \<noteq> ri_Path r then Some IdentNotCanonical else None)
      | ClassSysctlDropIn \<Rightarrow> (if \<not> HasPrefix (ri_Path r) ''/'' then Some IdentNotAbsolute
                      else if Clean (ri_Path r) \<noteq> ri_Path r then Some IdentNotCanonical else None)
      | ClassRouteRule \<Rightarrow> (case validateIdentityTable (ri_Table r) of Some e \<Rightarrow> Some e
                      | None \<Rightarrow> if ri_Priority r < 0 then Some IdentNegativePriority else None)
      | ClassRoute \<Rightarrow> validateIdentityTable (ri_Table r)
      | _ \<Rightarrow> None)"

definition identity_error :: "ResourceIdentity \<Rightarrow> own_error option" where
  "identity_error r =
     (case identityApplicableFields (ri_Class r) of
        None \<Rightarrow> Some IdentUnknownClass
      | Some app \<Rightarrow>
          if \<not> list_all (\<lambda>f. f \<in> set app) (identity_set_fields r) then Some IdentNotApplicable
          else if \<not> list_all (\<lambda>f. f \<in> set (identity_set_fields r)) app then Some IdentMissingField
          else identity_class_error r)"

definition BirthrightEligible :: "ResourceIdentity \<Rightarrow> (own_error, bool) result" where
  "BirthrightEligible r =
     (case identity_error r of
        Some e \<Rightarrow> Inl e
      | None \<Rightarrow> Inr (case ri_Class r of
            ClassFile \<Rightarrow> HasPrefix (ri_Path r) ProjectFileNamespace
          | ClassSysctlDropIn \<Rightarrow> ri_Path r = ProjectSysctlDropInPath
          | ClassRouteRule \<Rightarrow> ri_Table r = ReservedRoutingTable
          | ClassRoute \<Rightarrow> ri_Table r = ReservedRoutingTable
          | ClassFirewallChain \<Rightarrow> HasPrefix (ri_Chain r) ProjectChainPrefix
          | ClassFirewallRule \<Rightarrow> HasPrefix (ri_Chain r) ProjectChainPrefix \<and> HasPrefix (ri_Tag r) ProjectTagPrefix
          | ClassMSSRule \<Rightarrow> HasPrefix (ri_Chain r) ProjectChainPrefix \<and> HasPrefix (ri_Tag r) ProjectTagPrefix
          | ClassOther _ \<Rightarrow> False))"

subsection \<open>Evidence claims (ownership.go)\<close>

record EvidenceRef =
  er_TxID :: string
  er_PlanFingerprint :: string
  er_HostIdentity :: string

definition host_identity_error :: "string \<Rightarrow> own_error option" where
  "host_identity_error h =
     (if \<not> HasPrefix h HostIdentityPrefix then Some EvHostNamespace
      else case Normalize (TrimPrefix h HostIdentityPrefix) of
        Inl e \<Rightarrow> Some (EvHostMalformed e) | Inr _ \<Rightarrow> None)"

definition evidence_ref_error :: "EvidenceRef \<Rightarrow> own_error option" where
  "evidence_ref_error r =
     (if er_TxID r = '''' then Some EvNoTxID
      else if er_PlanFingerprint r = '''' then Some EvNoFingerprint
      else host_identity_error (er_HostIdentity r))"

record StateEvidence =
  se_Identity :: ResourceIdentity
  se_Spec :: SpecHash
  se_Ref :: EvidenceRef
  se_MintedAt :: time

definition state_evidence_error :: "StateEvidence \<Rightarrow> own_error option" where
  "state_evidence_error e =
     (case identity_error (se_Identity e) of Some x \<Rightarrow> Some x
      | None \<Rightarrow>
          if SpecHash_IsZero (se_Spec e) then Some EvNoSpec
          else case evidence_ref_error (se_Ref e) of Some x \<Rightarrow> Some x
          | None \<Rightarrow> if se_MintedAt e = 0 then Some EvNoTimestamp else None)"

end
