(* ===== verification/Corroboration.thy ===== *)
theory Corroboration
  imports Ownership_Evidence
begin

text \<open>
  \<open>Corroborate\<close> of \<open>internal/ownership/evidence.go\<close>: transaction facts (the mirror of a durable
  journal record), their validation and canonical form, and the verification of one claim against
  a list of candidate facts. The results show that a VERIFIED answer needs a durably COMPLETED,
  never rolled back transaction of this host that applied the claimed resource with the claimed
  specification, and that neither the order nor the multiplicity of the candidates matters.
\<close>

subsection \<open>Transaction facts\<close>

record TransactionAction =
  ta_Resource :: string
  ta_Status :: string
  ta_SpecHash :: "SpecHash option"
  ta_ObservedSpecHash :: "SpecHash option"

record TransactionFact =
  tf_TxID :: string
  tf_PlanFingerprint :: string
  tf_HostIdentity :: string
  tf_Outcome :: string
  tf_RecoveryRequired :: bool
  tf_RollbackAttempted :: bool
  tf_RollbackResult :: string
  tf_Actions :: "TransactionAction list"

definition known_outcome :: "string \<Rightarrow> bool" where
  "known_outcome s \<longleftrightarrow> s \<in> {'''', ''COMPLETED'', ''FAILED'', ''RECOVERY_REQUIRED''}"

definition known_rollback :: "string \<Rightarrow> bool" where
  "known_rollback s \<longleftrightarrow> s \<in> {'''', ''ROLLED_BACK'', ''ROLLBACK_FAILED''}"

definition fact_action_status :: "string \<Rightarrow> bool" where
  "fact_action_status s \<longleftrightarrow>
     s \<in> {''APPLIED'', ''PENDING'', ''BACKUP_FAILED'', ''APPLY_FAILED'', ''VALIDATION_FAILED'',
          ''ROLLED_BACK'', ''ROLLBACK_FAILED''}"

definition hash_zero_opt :: "SpecHash option \<Rightarrow> bool" where
  "hash_zero_opt h = (case h of None \<Rightarrow> False | Some x \<Rightarrow> SpecHash_IsZero x)"

text \<open>
  The loop of \<open>TransactionFact.Validate\<close> with its map \<open>seen\<close>. \<open>TransactionAction.equal\<close> compares
  all four fields, the hashes by value, which is equality of the records.
\<close>

fun fact_actions_error :: "(string \<rightharpoonup> TransactionAction) \<Rightarrow> nat \<Rightarrow> TransactionAction list \<Rightarrow> own_error option" where
  "fact_actions_error seen i [] = None"
| "fact_actions_error seen i (a # as) =
     (if ta_Resource a = '''' then Some (EvActionNoResource i)
      else if \<not> fact_action_status (ta_Status a) then Some (EvActionUnknownStatus i)
      else if hash_zero_opt (ta_SpecHash a) then Some (EvActionZeroSpec i)
      else if hash_zero_opt (ta_ObservedSpecHash a) then Some (EvActionZeroObserved i)
      else if (case seen (ta_Resource a) of None \<Rightarrow> False | Some prev \<Rightarrow> prev \<noteq> a)
        then Some (EvActionContradicts i)
      else fact_actions_error (seen(ta_Resource a \<mapsto> a)) (Suc i) as)"

definition fact_error :: "TransactionFact \<Rightarrow> own_error option" where
  "fact_error f =
     (if tf_TxID f = '''' then Some EvNoTxID
      else if tf_PlanFingerprint f = '''' then Some EvNoFingerprint
      else case host_identity_error (tf_HostIdentity f) of Some e \<Rightarrow> Some e
      | None \<Rightarrow>
          if \<not> known_outcome (tf_Outcome f) then Some (EvUnknownOutcome (tf_Outcome f))
          else if \<not> known_rollback (tf_RollbackResult f) then Some (EvUnknownRollback (tf_RollbackResult f))
          else fact_actions_error Map.empty 0 (tf_Actions f))"

text \<open>\<open>normalized\<close>: a stable sort by resource, then adjacent entries of one resource collapse.\<close>

fun dedup_adjacent :: "TransactionAction list \<Rightarrow> TransactionAction list \<Rightarrow> TransactionAction list" where
  "dedup_adjacent acc [] = rev acc"
| "dedup_adjacent acc (a # as) =
     (case acc of
        [] \<Rightarrow> dedup_adjacent [a] as
      | l # _ \<Rightarrow> if ta_Resource a = ta_Resource l then dedup_adjacent acc as
                 else dedup_adjacent (a # acc) as)"

definition fact_normalized :: "TransactionFact \<Rightarrow> TransactionFact" where
  "fact_normalized f = f\<lparr>tf_Actions := dedup_adjacent [] (sort_key ta_Resource (tf_Actions f))\<rparr>"

subsection \<open>Corroborate\<close>

datatype VerificationStatus = VerificationVerified | VerificationMismatch | VerificationIncomplete

datatype v_reason =
    RNoRecord | RNoCoordinate | RInProgress | RFailed | RRecovery | RLatch | RRollback | RTxID
  | RFingerprint | RHostClaim | RHostCurrent | RNoResource | RNotApplied string | RNoSpec
  | RObservedContradicts | RSpecDiffers
  | RClaimValid | RCompleted string | RBinds | RApplied | RObservedMatches | RNotAuthority

record Verification =
  vf_Status :: VerificationStatus
  vf_Reasons :: "v_reason list"

definition mismatch :: "v_reason \<Rightarrow> Verification" where
  "mismatch r = \<lparr>vf_Status = VerificationMismatch, vf_Reasons = [r]\<rparr>"

definition incomplete :: "v_reason \<Rightarrow> Verification" where
  "incomplete r = \<lparr>vf_Status = VerificationIncomplete, vf_Reasons = [r]\<rparr>"

record VerificationInput =
  vi_Claim :: StateEvidence
  vi_JournalResource :: string
  vi_Candidates :: "TransactionFact list"
  vi_CurrentHost :: string

definition parseCurrentHost :: "string \<Rightarrow> (own_error, string) result" where
  "parseCurrentHost v =
     (if \<not> HasPrefix v HostIdentityPrefix then Inl EvHostNamespace
      else case Normalize (TrimPrefix v HostIdentityPrefix) of
        Inl e \<Rightarrow> Inl (EvHostMalformed e) | Inr i \<Rightarrow> Inr (HostIdentityPrefix @ i))"

fun selectCorroboration ::
  "string \<Rightarrow> TransactionFact option \<Rightarrow> TransactionFact list \<Rightarrow> (own_error, TransactionFact option) result" where
  "selectCorroboration tx m [] = Inr m"
| "selectCorroboration tx m (c # cs) =
     (case fact_error c of Some e \<Rightarrow> Inl e
      | None \<Rightarrow>
          if tf_TxID c \<noteq> tx then selectCorroboration tx m cs
          else (case m of
              None \<Rightarrow> selectCorroboration tx (Some (fact_normalized c)) cs
            | Some f \<Rightarrow> if f = fact_normalized c then selectCorroboration tx m cs
                        else Inl (ErrConflictingCorroboration tx)))"

definition applied_action :: "string \<Rightarrow> TransactionFact \<Rightarrow> TransactionAction option" where
  "applied_action res f = find (\<lambda>a. ta_Resource a = res) (tf_Actions f)"

text \<open>The legs of \<open>Corroborate\<close> after the record has been selected, in the order of the source.\<close>

definition corroborate_fact :: "StateEvidence \<Rightarrow> string \<Rightarrow> string \<Rightarrow> TransactionFact \<Rightarrow> Verification" where
  "corroborate_fact claim res host f =
     (if res = '''' then incomplete RNoCoordinate
      else if tf_Outcome f = '''' then incomplete RInProgress
      else if tf_Outcome f = ''FAILED'' then mismatch RFailed
      else if tf_Outcome f = ''RECOVERY_REQUIRED'' then mismatch RRecovery
      else if tf_RecoveryRequired f then mismatch RLatch
      else if tf_RollbackAttempted f \<or> tf_RollbackResult f \<noteq> '''' then mismatch RRollback
      else if tf_TxID f \<noteq> er_TxID (se_Ref claim) then mismatch RTxID
      else if tf_PlanFingerprint f \<noteq> er_PlanFingerprint (se_Ref claim) then mismatch RFingerprint
      else if tf_HostIdentity f \<noteq> er_HostIdentity (se_Ref claim) then mismatch RHostClaim
      else if tf_HostIdentity f \<noteq> host then mismatch RHostCurrent
      else case applied_action res f of
        None \<Rightarrow> mismatch RNoResource
      | Some a \<Rightarrow>
          if ta_Status a \<noteq> ''APPLIED'' then mismatch (RNotApplied (ta_Status a))
          else (case ta_SpecHash a of
              None \<Rightarrow> incomplete RNoSpec
            | Some h \<Rightarrow>
                if ta_ObservedSpecHash a \<noteq> None \<and> ta_ObservedSpecHash a \<noteq> Some h then mismatch RObservedContradicts
                else if h \<noteq> se_Spec claim then mismatch RSpecDiffers
                else \<lparr>vf_Status = VerificationVerified,
                      vf_Reasons = [RClaimValid, RCompleted (tf_TxID f), RBinds, RApplied]
                        @ (if ta_ObservedSpecHash a \<noteq> None then [RObservedMatches] else [])
                        @ [RNotAuthority]\<rparr>))"

definition Corroborate :: "VerificationInput \<Rightarrow> (own_error, Verification) result" where
  "Corroborate inp =
     (case state_evidence_error (vi_Claim inp) of Some e \<Rightarrow> Inl e
      | None \<Rightarrow> (case parseCurrentHost (vi_CurrentHost inp) of Inl e \<Rightarrow> Inl e
        | Inr host \<Rightarrow> (case selectCorroboration (er_TxID (se_Ref (vi_Claim inp))) None (vi_Candidates inp) of
              Inl e \<Rightarrow> Inl e
            | Inr None \<Rightarrow> Inr (incomplete RNoRecord)
            | Inr (Some f) \<Rightarrow> Inr (corroborate_fact (vi_Claim inp) (vi_JournalResource inp) host f))))"

subsection \<open>The canonical form\<close>

lemma dedup_adjacent_subset: "set (dedup_adjacent acc as) \<subseteq> set acc \<union> set as"
  by (induction acc as rule: dedup_adjacent.induct) (auto split: list.splits if_splits)

lemma fact_normalized_fields [simp]:
  "tf_TxID (fact_normalized f) = tf_TxID f"
  "tf_PlanFingerprint (fact_normalized f) = tf_PlanFingerprint f"
  "tf_HostIdentity (fact_normalized f) = tf_HostIdentity f"
  "tf_Outcome (fact_normalized f) = tf_Outcome f"
  "tf_RecoveryRequired (fact_normalized f) = tf_RecoveryRequired f"
  "tf_RollbackAttempted (fact_normalized f) = tf_RollbackAttempted f"
  "tf_RollbackResult (fact_normalized f) = tf_RollbackResult f"
  by (simp_all add: fact_normalized_def)

lemma fact_normalized_actions: "set (tf_Actions (fact_normalized f)) \<subseteq> set (tf_Actions f)"
  using dedup_adjacent_subset [of "[]" "sort_key ta_Resource (tf_Actions f)"]
  by (simp add: fact_normalized_def)

subsection \<open>Selection of the record\<close>

text \<open>What the selection loop computes: every candidate is valid, and those of the transaction share
  one canonical form, which is the result.\<close>

lemma selectCorroboration_Some_acc:
  "selectCorroboration tx (Some f) cs = Inr r \<longleftrightarrow>
     (\<forall>c \<in> set cs. fact_error c = None) \<and>
     (\<forall>c \<in> set cs. tf_TxID c = tx \<longrightarrow> fact_normalized c = f) \<and> r = Some f"
  by (induction cs) (auto split: option.splits)

lemma selectCorroboration_Inr_iff:
  "selectCorroboration tx None cs = Inr r \<longleftrightarrow>
     (\<forall>c \<in> set cs. fact_error c = None) \<and>
     (case r of
        None \<Rightarrow> \<forall>c \<in> set cs. tf_TxID c \<noteq> tx
      | Some f \<Rightarrow> (\<exists>c \<in> set cs. tf_TxID c = tx) \<and>
                  (\<forall>c \<in> set cs. tf_TxID c = tx \<longrightarrow> fact_normalized c = f))"
proof (induction cs)
  case Nil
  then show ?case by (auto split: option.splits)
next
  case (Cons c cs)
  show ?case
  proof (cases "fact_error c")
    case None
    show ?thesis
    proof (cases "tf_TxID c = tx")
      case True
      with None show ?thesis
        by (auto simp: selectCorroboration_Some_acc split: option.splits)
    next
      case False
      with None Cons show ?thesis by (auto split: option.splits)
    qed
  next
    case (Some e)
    then show ?thesis by simp
  qed
qed

lemma corroborate_fact_verified:
  assumes "vf_Status (corroborate_fact claim res host f) = VerificationVerified"
    and "known_outcome (tf_Outcome f)"
  shows "tf_Outcome f = ''COMPLETED''" and "\<not> tf_RecoveryRequired f" and "\<not> tf_RollbackAttempted f"
    and "tf_RollbackResult f = ''''" and "tf_TxID f = er_TxID (se_Ref claim)"
    and "tf_PlanFingerprint f = er_PlanFingerprint (se_Ref claim)"
    and "tf_HostIdentity f = er_HostIdentity (se_Ref claim)" and "tf_HostIdentity f = host"
    and "\<exists>a \<in> set (tf_Actions f). ta_Resource a = res \<and> ta_Status a = ''APPLIED'' \<and>
           ta_SpecHash a = Some (se_Spec claim) \<and>
           (ta_ObservedSpecHash a = None \<or> ta_ObservedSpecHash a = Some (se_Spec claim))"
proof -
  note defs = corroborate_fact_def incomplete_def mismatch_def known_outcome_def
  show "tf_Outcome f = ''COMPLETED''" "\<not> tf_RecoveryRequired f" "\<not> tf_RollbackAttempted f"
    "tf_RollbackResult f = ''''" "tf_TxID f = er_TxID (se_Ref claim)"
    "tf_PlanFingerprint f = er_PlanFingerprint (se_Ref claim)"
    "tf_HostIdentity f = er_HostIdentity (se_Ref claim)" "tf_HostIdentity f = host"
    using assms by (auto simp: defs split: if_splits)
  from assms obtain a where a: "applied_action res f = Some a"
    and rest: "ta_Status a = ''APPLIED''" "ta_SpecHash a = Some (se_Spec claim)"
      "ta_ObservedSpecHash a = None \<or> ta_ObservedSpecHash a = Some (se_Spec claim)"
    by (auto simp: defs split: if_splits option.splits)
  from a have "a \<in> set (tf_Actions f)" "ta_Resource a = res"
    by (auto simp: applied_action_def find_Some_iff)
  with rest show "\<exists>a \<in> set (tf_Actions f). ta_Resource a = res \<and> ta_Status a = ''APPLIED'' \<and>
      ta_SpecHash a = Some (se_Spec claim) \<and>
      (ta_ObservedSpecHash a = None \<or> ta_ObservedSpecHash a = Some (se_Spec claim))"
    by blast
qed

lemma Corroborate_Inr_iff:
  "Corroborate inp = Inr v \<longleftrightarrow>
     state_evidence_error (vi_Claim inp) = None \<and>
     (\<exists>host r. parseCurrentHost (vi_CurrentHost inp) = Inr host \<and>
        selectCorroboration (er_TxID (se_Ref (vi_Claim inp))) None (vi_Candidates inp) = Inr r \<and>
        v = (case r of None \<Rightarrow> incomplete RNoRecord
             | Some f \<Rightarrow> corroborate_fact (vi_Claim inp) (vi_JournalResource inp) host f))"
  by (auto simp: Corroborate_def split: option.splits sum.splits)

lemma corroborate_verified_core:
  assumes "Corroborate inp = Inr v" and "vf_Status v = VerificationVerified"
  shows "\<exists>c \<in> set (vi_Candidates inp). \<exists>a \<in> set (tf_Actions c).
      tf_TxID c = er_TxID (se_Ref (vi_Claim inp)) \<and>
      tf_PlanFingerprint c = er_PlanFingerprint (se_Ref (vi_Claim inp)) \<and>
      tf_HostIdentity c = er_HostIdentity (se_Ref (vi_Claim inp)) \<and>
      parseCurrentHost (vi_CurrentHost inp) = Inr (tf_HostIdentity c) \<and>
      tf_Outcome c = ''COMPLETED'' \<and> \<not> tf_RecoveryRequired c \<and>
      \<not> tf_RollbackAttempted c \<and> tf_RollbackResult c = '''' \<and>
      ta_Resource a = vi_JournalResource inp \<and> ta_Status a = ''APPLIED'' \<and>
      ta_SpecHash a = Some (se_Spec (vi_Claim inp)) \<and>
      (ta_ObservedSpecHash a = None \<or> ta_ObservedSpecHash a = Some (se_Spec (vi_Claim inp))) \<and>
      (\<forall>c' \<in> set (vi_Candidates inp). tf_TxID c' = tf_TxID c \<longrightarrow> fact_normalized c' = fact_normalized c)"
proof -
  let ?claim = "vi_Claim inp" and ?tx = "er_TxID (se_Ref (vi_Claim inp))"
  from assms obtain host f where host: "parseCurrentHost (vi_CurrentHost inp) = Inr host"
    and sel: "selectCorroboration ?tx None (vi_Candidates inp) = Inr (Some f)"
    and st: "vf_Status (corroborate_fact ?claim (vi_JournalResource inp) host f) = VerificationVerified"
    by (auto simp: Corroborate_def incomplete_def split: option.splits sum.splits)
  from sel obtain c where c: "c \<in> set (vi_Candidates inp)" "tf_TxID c = ?tx" "fact_error c = None"
    and all: "\<forall>c' \<in> set (vi_Candidates inp). tf_TxID c' = ?tx \<longrightarrow> fact_normalized c' = f"
    unfolding selectCorroboration_Inr_iff by auto
  have f: "f = fact_normalized c" using c all by simp
  have "known_outcome (tf_Outcome f)"
    using c(3) by (simp add: f fact_error_def split: if_splits option.splits)
  note legs = corroborate_fact_verified [OF st this]
  from legs(9) fact_normalized_actions [of c] obtain a where a: "a \<in> set (tf_Actions c)"
    "ta_Resource a = vi_JournalResource inp" "ta_Status a = ''APPLIED''"
    "ta_SpecHash a = Some (se_Spec ?claim)"
    "ta_ObservedSpecHash a = None \<or> ta_ObservedSpecHash a = Some (se_Spec ?claim)"
    unfolding f by blast
  note l = legs(1-8) [unfolded f fact_normalized_fields]
  have h: "parseCurrentHost (vi_CurrentHost inp) = Inr (tf_HostIdentity c)" using host l(8) by simp
  have n: "\<forall>c' \<in> set (vi_Candidates inp). tf_TxID c' = tf_TxID c \<longrightarrow> fact_normalized c' = fact_normalized c"
    using all c(2) f by simp
  show ?thesis
    by (intro bexI [OF _ c(1)] bexI [OF _ a(1)] conjI c(2) a(2-5) l h n)
qed

subsection \<open>Results\<close>

text \<open>
  A VERIFIED corroboration is backed by the durable history: some supplied transaction fact
  carries the claim's transaction id, plan fingerprint and host identity, was recorded on the
  current host, is COMPLETED with no recovery latch and no rollback, and durably APPLIED the
  claimed resource with exactly the claimed spec hash, any independently observed postcondition
  being equal to it; every other fact for that transaction has the same canonical form.
\<close>

lemma corroborate_verified_sound:
  assumes "Corroborate inp = Inr v" and "vf_Status v = VerificationVerified"
  shows "\<exists>c \<in> set (vi_Candidates inp). \<exists>a \<in> set (tf_Actions c).
      tf_TxID c = er_TxID (se_Ref (vi_Claim inp)) \<and>
      tf_PlanFingerprint c = er_PlanFingerprint (se_Ref (vi_Claim inp)) \<and>
      tf_HostIdentity c = er_HostIdentity (se_Ref (vi_Claim inp)) \<and>
      parseCurrentHost (vi_CurrentHost inp) = Inr (tf_HostIdentity c) \<and>
      tf_Outcome c = ''COMPLETED'' \<and> \<not> tf_RecoveryRequired c \<and>
      \<not> tf_RollbackAttempted c \<and> tf_RollbackResult c = '''' \<and>
      ta_Resource a = vi_JournalResource inp \<and> ta_Status a = ''APPLIED'' \<and>
      ta_SpecHash a = Some (se_Spec (vi_Claim inp)) \<and>
      (ta_ObservedSpecHash a = None \<or> ta_ObservedSpecHash a = Some (se_Spec (vi_Claim inp))) \<and>
      (\<forall>c' \<in> set (vi_Candidates inp). tf_TxID c' = tf_TxID c \<longrightarrow> fact_normalized c' = fact_normalized c)"
  using assms by (rule corroborate_verified_core)

text \<open>
  The answer depends only on the set of supplied facts: reordering the candidates or repeating
  some of them changes no successful corroboration.
\<close>

lemma corroborate_candidate_set:
  assumes "set cs = set cs'"
  shows "Corroborate (inp\<lparr>vi_Candidates := cs\<rparr>) = Inr v \<longleftrightarrow> Corroborate (inp\<lparr>vi_Candidates := cs'\<rparr>) = Inr v"
  unfolding Corroborate_Inr_iff
  by (simp add: selectCorroboration_Inr_iff assms cong: option.case_cong)

subsection \<open>A concrete history\<close>

definition ex_hash :: SpecHash where
  "ex_hash = 7 # replicate 31 0"

definition ex_host :: string where
  "ex_host = ''machine-id:0123456789abcdef0123456789abcdef''"

definition ex_identity :: ResourceIdentity where
  "ex_identity = \<lparr>ri_Class = ClassFile, ri_Path = ''/etc/vps-gateway/x.conf'', ri_Table = 0,
     ri_Priority = 0, ri_From = '''', ri_Destination = '''', ri_Chain = '''', ri_Tag = ''''\<rparr>"

definition ex_claim :: StateEvidence where
  "ex_claim = \<lparr>se_Identity = ex_identity, se_Spec = ex_hash,
     se_Ref = \<lparr>er_TxID = ''tx-1'', er_PlanFingerprint = ''fp'', er_HostIdentity = ex_host\<rparr>,
     se_MintedAt = 5\<rparr>"

definition ex_fact :: TransactionFact where
  "ex_fact = \<lparr>tf_TxID = ''tx-1'', tf_PlanFingerprint = ''fp'', tf_HostIdentity = ex_host,
     tf_Outcome = ''COMPLETED'', tf_RecoveryRequired = False, tf_RollbackAttempted = False,
     tf_RollbackResult = '''',
     tf_Actions = [\<lparr>ta_Resource = ''file./etc/vps-gateway/x.conf'', ta_Status = ''APPLIED'',
        ta_SpecHash = Some ex_hash, ta_ObservedSpecHash = Some ex_hash\<rparr>]\<rparr>"

definition ex_input :: VerificationInput where
  "ex_input = \<lparr>vi_Claim = ex_claim, vi_JournalResource = ''file./etc/vps-gateway/x.conf'',
     vi_Candidates = [ex_fact], vi_CurrentHost = ex_host\<rparr>"

lemma ex_claim_valid: "state_evidence_error ex_claim = None"
  by code_simp

lemma ex_fact_valid: "fact_error ex_fact = None"
  by code_simp

lemma ex_host_parsed: "parseCurrentHost ex_host = Inr ex_host"
  by code_simp

definition ex_verified :: Verification where
  "ex_verified = \<lparr>vf_Status = VerificationVerified,
     vf_Reasons = [RClaimValid, RCompleted ''tx-1'', RBinds, RApplied, RObservedMatches, RNotAuthority]\<rparr>"

lemma ex_corroborate: "Corroborate ex_input = Inr ex_verified"
proof -
  have "selectCorroboration ''tx-1'' None [ex_fact] = Inr (Some ex_fact)" by code_simp
  moreover have "corroborate_fact ex_claim ''file./etc/vps-gateway/x.conf'' ex_host ex_fact = ex_verified"
    by code_simp
  ultimately show ?thesis
    unfolding Corroborate_Inr_iff using ex_claim_valid ex_host_parsed
    by (intro conjI exI [of _ ex_host] exI [of _ "Some ex_fact"]) (simp_all add: ex_input_def ex_claim_def)
qed

lemma corroborate_verified_sound_witness:
  "Corroborate ex_input = Inr ex_verified \<and> vf_Status ex_verified = VerificationVerified \<and>
   (\<exists>c \<in> set (vi_Candidates ex_input). \<exists>a \<in> set (tf_Actions c).
      tf_Outcome c = ''COMPLETED'' \<and> ta_SpecHash a = Some ex_hash)"
proof -
  have v: "vf_Status ex_verified = VerificationVerified" by (simp add: ex_verified_def)
  have "se_Spec (vi_Claim ex_input) = ex_hash" by (simp add: ex_input_def ex_claim_def)
  with corroborate_verified_sound [OF ex_corroborate v] ex_corroborate v show ?thesis by force
qed

lemma corroborate_candidate_set_witness:
  "set [ex_fact] = set [ex_fact, ex_fact] \<and>
   (Corroborate (ex_input\<lparr>vi_Candidates := [ex_fact]\<rparr>) = Inr ex_verified) =
   (Corroborate (ex_input\<lparr>vi_Candidates := [ex_fact, ex_fact]\<rparr>) = Inr ex_verified)"
proof -
  have s: "set [ex_fact] = set [ex_fact, ex_fact]" by simp
  from corroborate_candidate_set [OF s, of ex_input ex_verified] s show ?thesis by blast
qed

end
