(* ===== verification/Ownership.thy ===== *)
theory Ownership
  imports Corroboration
begin

text \<open>
  \<open>internal/ownership\<close>, second half: the verdict vocabulary and its conservative aggregation
  (\<open>ownership.go\<close>), verdict derivation from a live fact and a claim (\<open>derive.go\<close>), the strict
  observed-evidence classification (\<open>sufficiency.go\<close>) and the admission table (\<open>admission.go\<close>).
  The results give the exact conditions of OWNED_VERIFIED and of every ALLOW decision.
\<close>

subsection \<open>Verdicts\<close>

datatype Verdict =
    OwnedVerified | OwnedDrift | Unproven | Collision | Conflict | Absent | Gone | Undetermined
  | VerdictOther string

fun Verdict_Valid :: "Verdict \<Rightarrow> bool" where
  "Verdict_Valid (VerdictOther _) = False"
| "Verdict_Valid _ = True"

fun precedenceRank :: "Verdict \<Rightarrow> (own_error, int) result" where
  "precedenceRank Undetermined = Inr 8"
| "precedenceRank Conflict = Inr 7"
| "precedenceRank Collision = Inr 6"
| "precedenceRank Gone = Inr 5"
| "precedenceRank OwnedDrift = Inr 4"
| "precedenceRank Unproven = Inr 3"
| "precedenceRank OwnedVerified = Inr 2"
| "precedenceRank Absent = Inr 1"
| "precedenceRank (VerdictOther _) = Inl ErrInvalidVerdict"

fun aggregate_loop :: "Verdict \<Rightarrow> int \<Rightarrow> Verdict list \<Rightarrow> (own_error, Verdict) result" where
  "aggregate_loop worst rank [] = Inr worst"
| "aggregate_loop worst rank (v # vs) =
     (case precedenceRank v of Inl e \<Rightarrow> Inl e
      | Inr r \<Rightarrow> if rank < r then aggregate_loop v r vs else aggregate_loop worst rank vs)"

definition AggregateVerdicts :: "Verdict list \<Rightarrow> (own_error, Verdict) result" where
  "AggregateVerdicts vs = (if vs = [] then Inl ErrInvalidVerdict else aggregate_loop (VerdictOther '''') (- 1) vs)"

subsection \<open>Live facts and verdict derivation (derive.go)\<close>

datatype LiveState = LivePresent | LiveAbsent | LiveUnknown | LiveOther string

fun LiveState_Valid :: "LiveState \<Rightarrow> bool" where
  "LiveState_Valid (LiveOther _) = False"
| "LiveState_Valid _ = True"

record LiveFact =
  lf_State :: LiveState
  lf_SpecHash :: "SpecHash option"
  lf_ExternalOwner :: "string option"

definition live_error :: "LiveFact \<Rightarrow> own_error option" where
  "live_error f =
     (if \<not> LiveState_Valid (lf_State f) then Some LiveInvalidState
      else if hash_zero_opt (lf_SpecHash f) then Some LiveZeroSpec
      else if lf_SpecHash f \<noteq> None \<and> lf_State f \<noteq> LivePresent then Some LiveSpecNotPresent
      else if lf_ExternalOwner f \<noteq> None \<and> lf_State f \<noteq> LivePresent then Some LiveOwnerNotPresent
      else None)"

record DerivationInput =
  di_Identity :: ResourceIdentity
  di_Live :: LiveFact
  di_Claim :: "StateEvidence option"
  di_JournalResource :: string
  di_Candidates :: "TransactionFact list"
  di_CurrentHost :: string

definition verification_input :: "DerivationInput \<Rightarrow> StateEvidence \<Rightarrow> VerificationInput" where
  "verification_input inp c =
     \<lparr>vi_Claim = c, vi_JournalResource = di_JournalResource inp,
      vi_Candidates = di_Candidates inp, vi_CurrentHost = di_CurrentHost inp\<rparr>"

definition claim_error :: "DerivationInput \<Rightarrow> own_error option" where
  "claim_error inp =
     (case di_Claim inp of None \<Rightarrow> None
      | Some c \<Rightarrow> (case state_evidence_error c of Some e \<Rightarrow> Some e
          | None \<Rightarrow> if se_Identity c \<noteq> di_Identity inp then Some ClaimOtherIdentity else None))"

text \<open>The \<open>verified\<close> flag of \<open>DeriveVerdict\<close>: no claim is not verified, a claim is corroborated.\<close>

definition derive_verified :: "DerivationInput \<Rightarrow> (own_error, bool) result" where
  "derive_verified inp =
     (case di_Claim inp of None \<Rightarrow> Inr False
      | Some c \<Rightarrow> (case Corroborate (verification_input inp c) of Inl e \<Rightarrow> Inl e
          | Inr v \<Rightarrow> Inr (vf_Status v = VerificationVerified)))"

definition unprovenLike :: "ResourceIdentity \<Rightarrow> Verdict" where
  "unprovenLike r =
     (case BirthrightEligible r of Inl _ \<Rightarrow> Undetermined
      | Inr True \<Rightarrow> Collision | Inr False \<Rightarrow> Unproven)"

definition present_verified_verdict :: "DerivationInput \<Rightarrow> Verdict" where
  "present_verified_verdict inp =
     (if lf_ExternalOwner (di_Live inp) \<noteq> None then Conflict
      else case lf_SpecHash (di_Live inp) of
        None \<Rightarrow> Undetermined
      | Some h \<Rightarrow>
          if Some h = map_option se_Spec (di_Claim inp) then OwnedVerified
          else (case ri_Class (di_Identity inp) of
              ClassFile \<Rightarrow> OwnedDrift | ClassSysctlDropIn \<Rightarrow> OwnedDrift | _ \<Rightarrow> Conflict))"

definition DeriveVerdict :: "DerivationInput \<Rightarrow> (own_error, Verdict) result" where
  "DeriveVerdict inp =
     (case identity_error (di_Identity inp) of Some e \<Rightarrow> Inl e
      | None \<Rightarrow> (case live_error (di_Live inp) of Some e \<Rightarrow> Inl e
        | None \<Rightarrow> (case claim_error inp of Some e \<Rightarrow> Inl e
          | None \<Rightarrow>
              if lf_State (di_Live inp) = LiveUnknown then Inr Undetermined
              else (case derive_verified inp of Inl e \<Rightarrow> Inl e
                | Inr verified \<Rightarrow>
                    Inr (if lf_State (di_Live inp) = LiveAbsent then (if verified then Gone else Absent)
                         else if verified then present_verified_verdict inp
                         else unprovenLike (di_Identity inp))))))"

subsection \<open>Strict observed evidence (sufficiency.go)\<close>

datatype EvidenceSufficiency = EvidenceSufficient | EvidenceInsufficient | EvidenceContradictory

definition observed_in :: "DerivationInput \<Rightarrow> StateEvidence \<Rightarrow> bool" where
  "observed_in inp c \<longleftrightarrow>
     (\<exists>f \<in> set (di_Candidates inp). tf_TxID f = er_TxID (se_Ref c) \<and>
        (\<exists>a \<in> set (tf_Actions f). ta_Resource a = di_JournalResource inp \<and>
            ta_ObservedSpecHash a = Some (se_Spec c)))"

definition ClassifyObservedEvidence :: "DerivationInput \<Rightarrow> (own_error, EvidenceSufficiency \<times> Verdict) result" where
  "ClassifyObservedEvidence inp =
     (case DeriveVerdict inp of Inl e \<Rightarrow> Inl e
      | Inr d \<Rightarrow> (case di_Claim inp of
            None \<Rightarrow> Inr (EvidenceInsufficient, d)
          | Some c \<Rightarrow> (case Corroborate (verification_input inp c) of Inl e \<Rightarrow> Inl e
              | Inr v \<Rightarrow> Inr (case vf_Status v of
                    VerificationMismatch \<Rightarrow> (EvidenceContradictory, d)
                  | VerificationIncomplete \<Rightarrow> (EvidenceInsufficient, d)
                  | VerificationVerified \<Rightarrow>
                      if observed_in inp c then (EvidenceSufficient, d) else (EvidenceInsufficient, d)))))"

subsection \<open>Admission (admission.go)\<close>

datatype Operation = OperationCreate | OperationModify | OperationDelete | OperationOther string

datatype Decision = DecisionAllow | DecisionDeny | DecisionUndetermined

datatype AdmissionReason =
    ReasonVerifiedOwner | ReasonDriftRepairOwned | ReasonBirthrightFirstCreation | ReasonTargetAbsent
  | ReasonUnprovenOccupant | ReasonCollisionReserved | ReasonConflictEvidence
  | ReasonUndeterminedOwnership | ReasonGoneNotAuthorizing | ReasonAlreadyPresent
  | ReasonNothingToModify | ReasonDeletionNotModeled

type_synonym AdmissionDecision = "Decision \<times> AdmissionReason list"

fun Operation_Valid :: "Operation \<Rightarrow> bool" where
  "Operation_Valid (OperationOther _) = False"
| "Operation_Valid _ = True"

fun admit_create :: "Verdict \<Rightarrow> ResourceIdentity \<Rightarrow> (own_error, AdmissionDecision) result" where
  "admit_create Absent r =
     (case BirthrightEligible r of Inl e \<Rightarrow> Inl e
      | Inr el \<Rightarrow> Inr (if el then (DecisionAllow, [ReasonBirthrightFirstCreation, ReasonTargetAbsent])
                       else (DecisionDeny, [ReasonTargetAbsent])))"
| "admit_create Unproven r = Inr (DecisionDeny, [ReasonUnprovenOccupant])"
| "admit_create Collision r = Inr (DecisionDeny, [ReasonCollisionReserved])"
| "admit_create Conflict r = Inr (DecisionDeny, [ReasonConflictEvidence])"
| "admit_create Undetermined r = Inr (DecisionUndetermined, [ReasonUndeterminedOwnership])"
| "admit_create Gone r = Inr (DecisionDeny, [ReasonGoneNotAuthorizing])"
| "admit_create OwnedVerified r = Inr (DecisionDeny, [ReasonAlreadyPresent])"
| "admit_create OwnedDrift r = Inr (DecisionDeny, [ReasonAlreadyPresent])"
| "admit_create (VerdictOther _) r = Inl ErrInvalidVerdict"

fun admit_modify :: "Verdict \<Rightarrow> (own_error, AdmissionDecision) result" where
  "admit_modify OwnedVerified = Inr (DecisionAllow, [ReasonVerifiedOwner])"
| "admit_modify OwnedDrift = Inr (DecisionAllow, [ReasonDriftRepairOwned])"
| "admit_modify Unproven = Inr (DecisionDeny, [ReasonUnprovenOccupant])"
| "admit_modify Collision = Inr (DecisionDeny, [ReasonCollisionReserved])"
| "admit_modify Conflict = Inr (DecisionDeny, [ReasonConflictEvidence])"
| "admit_modify Undetermined = Inr (DecisionUndetermined, [ReasonUndeterminedOwnership])"
| "admit_modify Gone = Inr (DecisionDeny, [ReasonGoneNotAuthorizing])"
| "admit_modify Absent = Inr (DecisionDeny, [ReasonNothingToModify])"
| "admit_modify (VerdictOther _) = Inl ErrInvalidVerdict"

definition Admit :: "Operation \<Rightarrow> Verdict \<Rightarrow> ResourceIdentity \<Rightarrow> (own_error, AdmissionDecision) result" where
  "Admit oper v r =
     (if \<not> Operation_Valid oper then Inl ErrUnknownOperation
      else if \<not> Verdict_Valid v then Inl ErrInvalidVerdict
      else if oper = OperationDelete then Inr (DecisionDeny, [ReasonDeletionNotModeled])
      else case identity_error r of Some e \<Rightarrow> Inl e
        | None \<Rightarrow> if oper = OperationCreate then admit_create v r else admit_modify v)"

subsection \<open>Facts about the tables\<close>

fun verdict_rank :: "Verdict \<Rightarrow> int" where
  "verdict_rank v = (case precedenceRank v of Inl _ \<Rightarrow> 0 | Inr r \<Rightarrow> r)"

lemma precedenceRank_valid: "Verdict_Valid v \<Longrightarrow> precedenceRank v = Inr (verdict_rank v) \<and> 0 < verdict_rank v"
  by (cases v) auto

lemma precedenceRank_Inl: "precedenceRank v = Inl e \<longleftrightarrow> \<not> Verdict_Valid v \<and> e = ErrInvalidVerdict"
  by (cases v) auto

lemma verdict_rank_inj: "Verdict_Valid v \<Longrightarrow> Verdict_Valid w \<Longrightarrow> verdict_rank v = verdict_rank w \<Longrightarrow> v = w"
  by (cases v; cases w) auto

lemma aggregate_loop_Inr_iff:
  "aggregate_loop w r vs = Inr v \<longleftrightarrow>
     (\<forall>x \<in> set vs. Verdict_Valid x) \<and>
     (if \<exists>x \<in> set vs. r < verdict_rank x
      then v \<in> set vs \<and> (\<forall>x \<in> set vs. verdict_rank x \<le> verdict_rank v)
      else v = w)"
proof (induction vs arbitrary: w r)
  case Nil
  then show ?case by auto
next
  case (Cons y vs)
  show ?case
  proof (cases "Verdict_Valid y")
    case True
    then have y: "precedenceRank y = Inr (verdict_rank y)" using precedenceRank_valid by blast
    show ?thesis
    proof (cases "r < verdict_rank y")
      case True
      have "aggregate_loop w r (y # vs) = aggregate_loop y (verdict_rank y) vs"
        using y True by (simp del: verdict_rank.simps)
      then show ?thesis using Cons [of y "verdict_rank y"] True \<open>Verdict_Valid y\<close> verdict_rank_inj
        by (auto simp del: verdict_rank.simps)
    next
      case False
      have "aggregate_loop w r (y # vs) = aggregate_loop w r vs"
        using y False by (simp del: verdict_rank.simps)
      then show ?thesis using Cons [of w r] False \<open>Verdict_Valid y\<close>
        by (auto simp del: verdict_rank.simps)
    qed
  next
    case False
    then obtain e where "precedenceRank y = Inl e" by (cases y) auto
    with False show ?thesis by simp
  qed
qed

lemma BirthrightEligible_Inl: "BirthrightEligible r = Inl e \<longleftrightarrow> identity_error r = Some e"
  by (simp add: BirthrightEligible_def split: option.splits)

lemma unprovenLike_cases: "identity_error r = None \<Longrightarrow>
    unprovenLike r = (if BirthrightEligible r = Inr True then Collision else Unproven)"
  by (cases "BirthrightEligible r") (auto simp: unprovenLike_def BirthrightEligible_Inl split: bool.splits)

lemma admit_create_allow:
  "admit_create v r = Inr (DecisionAllow, rs) \<Longrightarrow> v = Absent \<and> BirthrightEligible r = Inr True"
  by (cases v) (auto split: sum.splits if_splits)

lemma admit_modify_allow:
  "admit_modify v = Inr (DecisionAllow, rs) \<Longrightarrow> v = OwnedVerified \<or> v = OwnedDrift"
  by (cases v) auto

lemma present_verified_cases:
  "present_verified_verdict inp = OwnedVerified \<longleftrightarrow>
     lf_ExternalOwner (di_Live inp) = None \<and> lf_SpecHash (di_Live inp) \<noteq> None \<and>
     lf_SpecHash (di_Live inp) = map_option se_Spec (di_Claim inp)"
  "present_verified_verdict inp = OwnedDrift \<longleftrightarrow>
     lf_ExternalOwner (di_Live inp) = None \<and> lf_SpecHash (di_Live inp) \<noteq> None \<and>
     lf_SpecHash (di_Live inp) \<noteq> map_option se_Spec (di_Claim inp) \<and>
     ri_Class (di_Identity inp) \<in> {ClassFile, ClassSysctlDropIn}"
  "present_verified_verdict inp \<noteq> Absent"
  by (auto simp: present_verified_verdict_def split: option.splits ResourceClass.splits)

lemma DeriveVerdict_Inr:
  "DeriveVerdict inp = Inr d \<longleftrightarrow>
     identity_error (di_Identity inp) = None \<and> live_error (di_Live inp) = None \<and>
     claim_error inp = None \<and>
     (lf_State (di_Live inp) = LiveUnknown \<and> d = Undetermined \<or>
      lf_State (di_Live inp) \<noteq> LiveUnknown \<and>
      (\<exists>verified. derive_verified inp = Inr verified \<and>
         d = (if lf_State (di_Live inp) = LiveAbsent then (if verified then Gone else Absent)
              else if verified then present_verified_verdict inp
              else unprovenLike (di_Identity inp))))"
  by (auto simp: DeriveVerdict_def split: option.splits sum.splits)

lemma live_error_None_state: "live_error f = None \<Longrightarrow> lf_State f \<in> {LivePresent, LiveAbsent, LiveUnknown}"
  by (cases "lf_State f") (auto simp: live_error_def split: if_splits)

lemma derive_verified_True:
  "derive_verified inp = Inr True \<longleftrightarrow>
     (\<exists>c v. di_Claim inp = Some c \<and> Corroborate (verification_input inp c) = Inr v \<and>
        vf_Status v = VerificationVerified)"
  by (auto simp: derive_verified_def split: option.splits sum.splits)

text \<open>An owned verdict always rests on a verified claim about a present, unmanaged resource.\<close>

lemma derive_owned:
  assumes "DeriveVerdict inp = Inr d" and "d = OwnedVerified \<or> d = OwnedDrift"
  shows "lf_State (di_Live inp) = LivePresent" and "lf_ExternalOwner (di_Live inp) = None"
    and "\<exists>c v. di_Claim inp = Some c \<and> Corroborate (verification_input inp c) = Inr v \<and>
           vf_Status v = VerificationVerified \<and>
           (d = OwnedVerified \<longrightarrow> lf_SpecHash (di_Live inp) = Some (se_Spec c)) \<and>
           (d = OwnedDrift \<longrightarrow> ri_Class (di_Identity inp) \<in> {ClassFile, ClassSysctlDropIn})"
proof -
  have valid: "identity_error (di_Identity inp) = None" "live_error (di_Live inp) = None"
    using assms(1) unfolding DeriveVerdict_Inr by auto
  have nu: "unprovenLike (di_Identity inp) \<notin> {OwnedVerified, OwnedDrift}"
    using unprovenLike_cases [OF valid(1)] by simp
  from assms nu have st: "lf_State (di_Live inp) \<noteq> LiveUnknown" "lf_State (di_Live inp) \<noteq> LiveAbsent"
    and v: "derive_verified inp = Inr True" and d: "d = present_verified_verdict inp"
    unfolding DeriveVerdict_Inr by (auto split: if_splits)
  show "lf_State (di_Live inp) = LivePresent"
    using live_error_None_state [OF valid(2)] st by auto
  show "lf_ExternalOwner (di_Live inp) = None"
    using assms(2) d present_verified_cases by metis
  from v obtain c w where c: "di_Claim inp = Some c" "Corroborate (verification_input inp c) = Inr w"
    "vf_Status w = VerificationVerified" unfolding derive_verified_True by blast
  have "d = OwnedVerified \<longrightarrow> lf_SpecHash (di_Live inp) = Some (se_Spec c)"
    using d present_verified_cases(1) [of inp] c(1) by simp
  moreover have "d = OwnedDrift \<longrightarrow> ri_Class (di_Identity inp) \<in> {ClassFile, ClassSysctlDropIn}"
    using d present_verified_cases(2) [of inp] by simp
  ultimately show "\<exists>c v. di_Claim inp = Some c \<and> Corroborate (verification_input inp c) = Inr v \<and>
      vf_Status v = VerificationVerified \<and>
      (d = OwnedVerified \<longrightarrow> lf_SpecHash (di_Live inp) = Some (se_Spec c)) \<and>
      (d = OwnedDrift \<longrightarrow> ri_Class (di_Identity inp) \<in> {ClassFile, ClassSysctlDropIn})"
    using c by blast
qed

subsection \<open>Results\<close>

text \<open>
  Aggregation is conservative and order-independent: on a non-empty list of known verdicts the
  result is the one verdict of the list whose severity rank is highest, so one uncertain or
  dangerous verdict dominates; an empty list or an unknown verdict has no result.
\<close>

lemma aggregate_verdicts_worst:
  "AggregateVerdicts vs = Inr v \<longleftrightarrow>
     vs \<noteq> [] \<and> (\<forall>x \<in> set vs. Verdict_Valid x) \<and>
     v \<in> set vs \<and> (\<forall>x \<in> set vs. verdict_rank x \<le> verdict_rank v)"
proof -
  have pos: "Verdict_Valid x \<Longrightarrow> -1 < verdict_rank x" for x
    using precedenceRank_valid [of x] by simp
  show ?thesis
    using pos by (auto simp: AggregateVerdicts_def aggregate_loop_Inr_iff neq_Nil_conv
        simp del: verdict_rank.simps)
qed

text \<open>
  OWNED_VERIFIED is derived exactly when the identity and the live fact are well formed, a
  well-formed claim for this very identity corroborates as VERIFIED, and the resource is present,
  not externally managed and observed with the claimed specification. Nothing else, in particular
  no label, name or matching content without a claim, yields it.
\<close>

lemma derive_owned_verified_iff:
  "DeriveVerdict inp = Inr OwnedVerified \<longleftrightarrow>
     identity_error (di_Identity inp) = None \<and> live_error (di_Live inp) = None \<and>
     lf_State (di_Live inp) = LivePresent \<and> lf_ExternalOwner (di_Live inp) = None \<and>
     (\<exists>c v. di_Claim inp = Some c \<and> state_evidence_error c = None \<and> se_Identity c = di_Identity inp \<and>
        Corroborate (verification_input inp c) = Inr v \<and> vf_Status v = VerificationVerified \<and>
        lf_SpecHash (di_Live inp) = Some (se_Spec c))"
  (is "?L \<longleftrightarrow> ?R")
proof
  assume L: ?L
  then have "claim_error inp = None" "identity_error (di_Identity inp) = None" "live_error (di_Live inp) = None"
    unfolding DeriveVerdict_Inr by auto
  with derive_owned [OF L] show ?R
    by (auto simp: claim_error_def split: option.splits if_splits)
next
  assume R: ?R
  then obtain c v where c: "di_Claim inp = Some c" "state_evidence_error c = None"
      "se_Identity c = di_Identity inp" "Corroborate (verification_input inp c) = Inr v"
      "vf_Status v = VerificationVerified" "lf_SpecHash (di_Live inp) = Some (se_Spec c)" by blast
  have "claim_error inp = None" using c by (simp add: claim_error_def)
  moreover have "derive_verified inp = Inr True" using c by (simp add: derive_verified_def)
  moreover have "present_verified_verdict inp = OwnedVerified"
    using R c by (simp add: present_verified_cases)
  ultimately show ?L using R by (simp add: DeriveVerdict_def)
qed

text \<open>
  C11. Admission end to end. If the verdict derived for a resource admits an operation, the operation
  is never DELETE; a CREATE was admitted for a positively absent resource inside the compiled
  birthright namespace and without verified history; a MODIFY for a present resource with no
  external owner whose claim is corroborated by a durably COMPLETED transaction of this host, and
  which still has the claimed specification or is file-shaped drift.
\<close>

theorem admission_end_to_end:
  assumes "DeriveVerdict inp = Inr d" and "Admit oper d (di_Identity inp) = Inr (DecisionAllow, rs)"
  shows "oper = OperationCreate \<and> lf_State (di_Live inp) = LiveAbsent \<and>
           BirthrightEligible (di_Identity inp) = Inr True \<and> derive_verified inp = Inr False
       \<or> oper = OperationModify \<and> lf_State (di_Live inp) = LivePresent \<and>
           lf_ExternalOwner (di_Live inp) = None \<and>
           (\<exists>c. di_Claim inp = Some c \<and>
              (\<exists>f \<in> set (di_Candidates inp). tf_TxID f = er_TxID (se_Ref c) \<and>
                 tf_Outcome f = ''COMPLETED'' \<and> \<not> tf_RollbackAttempted f \<and>
                 parseCurrentHost (di_CurrentHost inp) = Inr (tf_HostIdentity f)) \<and>
              (lf_SpecHash (di_Live inp) = Some (se_Spec c) \<or>
               ri_Class (di_Identity inp) \<in> {ClassFile, ClassSysctlDropIn}))"
proof -
  from assms(2) have cases: "oper = OperationCreate \<and> admit_create d (di_Identity inp) = Inr (DecisionAllow, rs)
      \<or> oper = OperationModify \<and> admit_modify d = Inr (DecisionAllow, rs)"
    by (cases oper) (auto simp: Admit_def split: if_splits option.splits)
  then show ?thesis
  proof (elim disjE conjE)
    assume c: "oper = OperationCreate" "admit_create d (di_Identity inp) = Inr (DecisionAllow, rs)"
    from admit_create_allow [OF c(2)] have d: "d = Absent" and e: "BirthrightEligible (di_Identity inp) = Inr True"
      by auto
    have "identity_error (di_Identity inp) = None" using assms(1) unfolding DeriveVerdict_Inr by auto
    from unprovenLike_cases [OF this] e have "unprovenLike (di_Identity inp) \<noteq> Absent" by simp
    with assms(1) d have "lf_State (di_Live inp) = LiveAbsent \<and> derive_verified inp = Inr False"
      unfolding DeriveVerdict_Inr using present_verified_cases(3) [of inp]
      by (auto split: if_splits)
    with c(1) e show ?thesis by blast
  next
    assume m: "oper = OperationModify" "admit_modify d = Inr (DecisionAllow, rs)"
    note own = derive_owned [OF assms(1) admit_modify_allow [OF m(2)]]
    from own(3) obtain c v where c: "di_Claim inp = Some c"
      and v: "Corroborate (verification_input inp c) = Inr v" "vf_Status v = VerificationVerified"
      and spec: "d = OwnedVerified \<longrightarrow> lf_SpecHash (di_Live inp) = Some (se_Spec c)"
        "d = OwnedDrift \<longrightarrow> ri_Class (di_Identity inp) \<in> {ClassFile, ClassSysctlDropIn}" by blast
    from corroborate_verified_core [OF v] have "\<exists>f \<in> set (di_Candidates inp). tf_TxID f = er_TxID (se_Ref c) \<and>
        tf_Outcome f = ''COMPLETED'' \<and> \<not> tf_RollbackAttempted f \<and>
        parseCurrentHost (di_CurrentHost inp) = Inr (tf_HostIdentity f)"
      by (simp add: verification_input_def) blast
    with m(1) own(1,2) c spec admit_modify_allow [OF m(2)] show ?thesis by blast
  qed
qed

text \<open>
  The strict classification answers SUFFICIENT only for a claim that corroborates as VERIFIED and
  whose transaction durably carries, for the claimed resource, an independently observed
  postcondition hash equal to the claimed one: intent alone is never sufficient.
\<close>

lemma sufficient_needs_observation:
  "ClassifyObservedEvidence inp = Inr (EvidenceSufficient, d) \<longleftrightarrow>
     DeriveVerdict inp = Inr d \<and>
     (\<exists>c v. di_Claim inp = Some c \<and> Corroborate (verification_input inp c) = Inr v \<and>
        vf_Status v = VerificationVerified \<and>
        (\<exists>f \<in> set (di_Candidates inp). tf_TxID f = er_TxID (se_Ref c) \<and>
           (\<exists>a \<in> set (tf_Actions f). ta_Resource a = di_JournalResource inp \<and>
              ta_ObservedSpecHash a = Some (se_Spec c))))"
  by (auto simp: ClassifyObservedEvidence_def observed_in_def
      split: sum.splits option.splits VerificationStatus.splits if_splits)

text \<open>
  A policy rule with priority 0, which the field comment of \<open>ResourceIdentity\<close> allows
  (\<open>rule priority (>= 0)\<close>), has no valid identity: \<open>Validate\<close> treats the zero as a missing field,
  whatever the other fields are.
\<close>

lemma route_rule_priority_zero_refused:
  "ri_Class r = ClassRouteRule \<Longrightarrow> ri_Priority r = 0 \<Longrightarrow>
     identity_error r = Some IdentNotApplicable \<or> identity_error r = Some IdentMissingField"
  by (auto simp: identity_error_def identity_set_fields_def)

lemma route_rule_priority_zero_refused_witness:
  "identity_error \<lparr>ri_Class = ClassRouteRule, ri_Path = '''', ri_Table = 100, ri_Priority = 0,
      ri_From = ''10.8.0.0/24'', ri_Destination = '''', ri_Chain = '''', ri_Tag = ''''\<rparr>
     \<in> {Some IdentNotApplicable, Some IdentMissingField}"
  using route_rule_priority_zero_refused
    [of "\<lparr>ri_Class = ClassRouteRule, ri_Path = '''', ri_Table = 100, ri_Priority = 0,
          ri_From = ''10.8.0.0/24'', ri_Destination = '''', ri_Chain = '''', ri_Tag = ''''\<rparr>"]
  by simp

subsection \<open>Instances\<close>

lemma aggregate_verdicts_worst_witness:
  "AggregateVerdicts [OwnedVerified, Conflict, Absent] = Inr Conflict"
  using aggregate_verdicts_worst [of "[OwnedVerified, Conflict, Absent]" Conflict] by simp

definition ex_create :: DerivationInput where
  "ex_create =
     \<lparr>di_Identity = ex_identity, di_Live = \<lparr>lf_State = LiveAbsent, lf_SpecHash = None, lf_ExternalOwner = None\<rparr>,
      di_Claim = None, di_JournalResource = '''', di_Candidates = [], di_CurrentHost = ex_host\<rparr>"

theorem admission_end_to_end_witness:
  "BirthrightEligible (di_Identity ex_create) = Inr True \<and> derive_verified ex_create = Inr False"
proof -
  have "DeriveVerdict ex_create = Inr Absent" by code_simp
  moreover have "Admit OperationCreate Absent (di_Identity ex_create) =
      Inr (DecisionAllow, [ReasonBirthrightFirstCreation, ReasonTargetAbsent])" by code_simp
  ultimately show ?thesis
    using admission_end_to_end [of ex_create Absent OperationCreate] by auto
qed

lemma sufficient_needs_observation_witness:
  "\<not> (\<exists>d. ClassifyObservedEvidence ex_create = Inr (EvidenceSufficient, d))"
  using sufficient_needs_observation [of ex_create] by (simp add: ex_create_def)

end
