(* ===== verification/MSS_Spec.thy ===== *)
theory MSS_Spec
  imports Ownership_Evidence
begin

text \<open>
  \<open>internal/mssspec\<close>, the typed intent half: the semantic spec of the project MSS clamp rule with its
  validation and equality (\<open>mssspec.go\<close>), the domain-separated fingerprint (\<open>fingerprint.go\<close>), the
  project namespace checks (\<open>desired.go\<close>), the mutation intent \<open>MSSActionSpec\<close> (\<open>action.go\<close>), and the
  argv derivation (\<open>command.go\<close>). The hash \<open>sha256(domain, 0, json payload)\<close> is the parameter
  \<open>digest\<close>, applied to the canonical payload.
\<close>

subsection \<open>The spec (mssspec.go)\<close>

datatype Backend = BackendIPTables | BackendOther string
datatype MssAction = ActionClampToPMTU | MssActionOther string

record Spec =
  ms_Backend :: Backend
  ms_Table :: string
  ms_Chain :: string
  ms_Protocol :: string
  ms_Source :: string
  ms_Destination :: string
  ms_InInterface :: string
  ms_OutInterface :: string
  ms_CtStates :: "string list"
  ms_MarkValue :: string
  ms_MarkMask :: string
  ms_TCPFlagsMask :: string
  ms_TCPFlagsComp :: string
  ms_Action :: MssAction

datatype mss_error =
    ErrSpecBackendUnsupported | ErrSpecTableEmpty | ErrSpecChainEmpty | ErrSpecProtocolUnsupported
  | ErrSpecActionUnsupported | ErrSpecFlagsInconsistent | ErrSpecMarkInconsistent
  | ErrNotMSSRule | ErrRuleUnsupported | ErrIdentityUndetermined
  | ErrSpecIdentityInvalidInput
  | ErrDesiredChainNamespace | ErrDesiredTagNamespace | ErrDesiredSourceInvalid
  | ErrDesiredInterfaceInvalid | ErrDesiredIdentity own_error
  | ErrMSSActionIdentityInvalid | ErrMSSActionSpecInvalid | ErrMSSActionHashMismatch
  | ErrJournalResourceClass | ErrJournalResourceIdentity own_error
  | ErrNoTypedSpec | ErrNoDecisionAction
  | ErrCoordinateMismatch | ErrPresentWithoutSpec | ErrStatusOutsideVocabulary
  | ErrChainTable | ErrObserveIdentity

definition Spec_Validate :: "Spec \<Rightarrow> mss_error option" where
  "Spec_Validate s =
     (if ms_Backend s \<noteq> BackendIPTables then Some ErrSpecBackendUnsupported
      else if TrimSpace (ms_Table s) = '''' then Some ErrSpecTableEmpty
      else if TrimSpace (ms_Chain s) = '''' then Some ErrSpecChainEmpty
      else if ms_Protocol s \<noteq> ''tcp'' then Some ErrSpecProtocolUnsupported
      else if ms_Action s \<noteq> ActionClampToPMTU then Some ErrSpecActionUnsupported
      else if (ms_TCPFlagsMask s = '''') \<noteq> (ms_TCPFlagsComp s = '''') then Some ErrSpecFlagsInconsistent
      else if ms_MarkMask s \<noteq> '''' \<and> ms_MarkValue s = '''' then Some ErrSpecMarkInconsistent
      else None)"

text \<open>Sorted and deduplicated: adjacent duplicates of the sorted copy are dropped.\<close>

definition canonicalCtStates :: "string list \<Rightarrow> string list" where
  "canonicalCtStates states = remdups_adj (sort states)"

definition Spec_Equal :: "Spec \<Rightarrow> Spec \<Rightarrow> bool" where
  "Spec_Equal a b =
     (if ms_Backend a \<noteq> ms_Backend b \<or> ms_Table a \<noteq> ms_Table b \<or> ms_Chain a \<noteq> ms_Chain b
         \<or> ms_Protocol a \<noteq> ms_Protocol b \<or> ms_Source a \<noteq> ms_Source b
         \<or> ms_Destination a \<noteq> ms_Destination b \<or> ms_InInterface a \<noteq> ms_InInterface b
         \<or> ms_OutInterface a \<noteq> ms_OutInterface b \<or> ms_MarkValue a \<noteq> ms_MarkValue b
         \<or> ms_MarkMask a \<noteq> ms_MarkMask b \<or> ms_TCPFlagsMask a \<noteq> ms_TCPFlagsMask b
         \<or> ms_TCPFlagsComp a \<noteq> ms_TCPFlagsComp b \<or> ms_Action a \<noteq> ms_Action b
      then False
      else let ca = canonicalCtStates (ms_CtStates a); cb = canonicalCtStates (ms_CtStates b) in
        length ca = length cb \<and> list_all (\<lambda>i. ca ! i = cb ! i) [0 ..< length ca])"

subsection \<open>The fingerprint (fingerprint.go)\<close>

text \<open>The payload has the fields of the spec, in order, with the canonical state list.\<close>

definition mssSpecPayload :: "Spec \<Rightarrow> Spec" where
  "mssSpecPayload s = s\<lparr>ms_CtStates := canonicalCtStates (ms_CtStates s)\<rparr>"

definition SpecFingerprint :: "(Spec \<Rightarrow> SpecHash) \<Rightarrow> Spec \<Rightarrow> (mss_error, SpecHash) result" where
  "SpecFingerprint digest s =
     (case Spec_Validate s of Some e \<Rightarrow> Inl e | None \<Rightarrow> Inr (digest (mssSpecPayload s)))"

subsection \<open>The project namespace (desired.go)\<close>

definition is_lower :: "char \<Rightarrow> bool" where
  "is_lower c \<longleftrightarrow> 97 \<le> (of_char c :: nat) \<and> (of_char c :: nat) \<le> 122"

definition chain_char :: "char \<Rightarrow> bool" where
  "chain_char c \<longleftrightarrow> is_lower c \<or> is_digit c \<or> c = CHR ''_'' \<or> c = CHR ''-''"

definition tag_char :: "char \<Rightarrow> bool" where
  "tag_char c \<longleftrightarrow> is_lower c \<or> is_digit c \<or> c = CHR ''-''"

definition validateProjectChain :: "string \<Rightarrow> mss_error option" where
  "validateProjectChain chain =
     (if length chain < 1 \<or> 27 < length chain \<or> \<not> HasPrefix chain ProjectChainPrefix
      then Some ErrDesiredChainNamespace
      else if last chain = CHR ''-'' \<or> last chain = CHR ''_'' then Some ErrDesiredChainNamespace
      else if \<not> list_all chain_char chain then Some ErrDesiredChainNamespace
      else None)"

definition validateProjectTag :: "string \<Rightarrow> mss_error option" where
  "validateProjectTag tag =
     (if length tag < 1 \<or> 32 < length tag \<or> \<not> HasPrefix tag ProjectTagPrefix
      then Some ErrDesiredTagNamespace
      else if \<not> list_all tag_char tag then Some ErrDesiredTagNamespace
      else None)"

subsection \<open>The mutation intent (action.go, desired.go, command.go)\<close>

record MSSActionSpec =
  mas_Identity :: ResourceIdentity
  mas_Spec :: Spec
  mas_SpecHash :: SpecHash

type_synonym DesiredMSSRule = MSSActionSpec

definition BuildMSSAction ::
  "(Spec \<Rightarrow> SpecHash) \<Rightarrow> DesiredMSSRule \<Rightarrow> (mss_error, MSSActionSpec) result" where
  "BuildMSSAction digest rule =
     (case identity_error (mas_Identity rule) of Some _ \<Rightarrow> Inl ErrMSSActionIdentityInvalid | None \<Rightarrow>
      if ri_Class (mas_Identity rule) \<noteq> ClassMSSRule then Inl ErrMSSActionIdentityInvalid
      else case validateProjectChain (ri_Chain (mas_Identity rule)) of
        Some _ \<Rightarrow> Inl ErrMSSActionIdentityInvalid | None \<Rightarrow>
      case validateProjectTag (ri_Tag (mas_Identity rule)) of
        Some _ \<Rightarrow> Inl ErrMSSActionIdentityInvalid | None \<Rightarrow>
      case Spec_Validate (mas_Spec rule) of Some _ \<Rightarrow> Inl ErrMSSActionSpecInvalid | None \<Rightarrow>
      if ms_Table (mas_Spec rule) \<noteq> ''mangle'' then Inl ErrMSSActionSpecInvalid
      else if ri_Chain (mas_Identity rule) \<noteq> ms_Chain (mas_Spec rule) then Inl ErrMSSActionIdentityInvalid
      else case SpecFingerprint digest (mas_Spec rule) of
        Inl _ \<Rightarrow> Inl ErrMSSActionSpecInvalid
      | Inr recomputed \<Rightarrow>
          if recomputed \<noteq> mas_SpecHash rule then Inl ErrMSSActionHashMismatch
          else Inr \<lparr>mas_Identity = mas_Identity rule, mas_Spec = mas_Spec rule, mas_SpecHash = recomputed\<rparr>)"

definition JournalResource :: "ResourceIdentity \<Rightarrow> (mss_error, string) result" where
  "JournalResource i =
     (if ri_Class i \<noteq> ClassMSSRule then Inl ErrJournalResourceClass
      else case identity_error i of Some e \<Rightarrow> Inl (ErrJournalResourceIdentity e)
      | None \<Rightarrow> Inr (''mss-rule.'' @ ri_Chain i @ ''/'' @ ri_Tag i))"

definition InsertCommand :: "(Spec \<Rightarrow> SpecHash) \<Rightarrow> MSSActionSpec \<Rightarrow> (mss_error, string list) result" where
  "InsertCommand digest a =
     (case BuildMSSAction digest a of
        Inl e \<Rightarrow> Inl e
      | Inr _ \<Rightarrow> Inr ([''iptables'', ''-t'', ''mangle'', ''-A'', ms_Chain (mas_Spec a),
                       ''-s'', ms_Source (mas_Spec a)]
           @ (if ms_OutInterface (mas_Spec a) \<noteq> '''' then [''-o'', ms_OutInterface (mas_Spec a)] else [])
           @ [''-p'', ''tcp'', ''-m'', ''tcp'', ''--tcp-flags'', ''SYN,RST'', ''SYN'',
              ''-j'', ''TCPMSS'', ''--clamp-mss-to-pmtu'', ''-m'', ''comment'',
              ''--comment'', ri_Tag (mas_Identity a)]))"

subsection \<open>Facts\<close>

lemma sorted_distinct_remdups_adj: "sorted (xs :: 'a :: linorder list) \<Longrightarrow> distinct (remdups_adj xs)"
  by (induction xs rule: remdups_adj.induct) (auto simp: order_antisym)

lemma canonicalCtStates_set: "canonicalCtStates xs = canonicalCtStates ys \<longleftrightarrow> set xs = set ys"
proof
  assume eq: "canonicalCtStates xs = canonicalCtStates ys"
  have "set xs = set (canonicalCtStates xs)" by (simp add: canonicalCtStates_def)
  also have "\<dots> = set ys" by (simp add: eq) (simp add: canonicalCtStates_def)
  finally show "set xs = set ys" .
next
  have canon: "canonicalCtStates zs = sorted_list_of_set (set zs)" for zs :: "string list"
  proof -
    have "sorted (remdups_adj (sort zs))" by (simp add: sorted_remdups_adj)
    moreover have "distinct (remdups_adj (sort zs))"
      by (simp add: sorted_distinct_remdups_adj)
    ultimately show ?thesis
      unfolding canonicalCtStates_def
      by (metis remdups_adj_set set_sort sorted_list_of_set.idem_if_sorted_distinct)
  qed
  assume "set xs = set ys"
  then show "canonicalCtStates xs = canonicalCtStates ys" by (simp add: canon)
qed

lemma list_all_nth_eq:
  "length xs = length ys \<and> list_all (\<lambda>i. xs ! i = ys ! i) [0 ..< length xs] \<longleftrightarrow> xs = ys"
  by (auto simp: list_all_iff intro: nth_equalityI)

lemma Spec_Equal_payload: "Spec_Equal a b \<longleftrightarrow> mssSpecPayload a = mssSpecPayload b"
proof -
  have guard: "(if c then False else q) \<longleftrightarrow> \<not> c \<and> q" for c q by simp
  show ?thesis
    unfolding Spec_Equal_def Let_def list_all_nth_eq mssSpecPayload_def guard de_Morgan_disj not_not
    by (cases a; cases b) (simp only: Spec.simps Spec.ext_inject; blast)
qed

lemma BuildMSSAction_Inr_iff:
  "BuildMSSAction digest r = Inr a \<longleftrightarrow>
     a = r \<and> identity_error (mas_Identity r) = None \<and> ri_Class (mas_Identity r) = ClassMSSRule
     \<and> validateProjectChain (ri_Chain (mas_Identity r)) = None
     \<and> validateProjectTag (ri_Tag (mas_Identity r)) = None
     \<and> Spec_Validate (mas_Spec r) = None \<and> ms_Table (mas_Spec r) = ''mangle''
     \<and> ri_Chain (mas_Identity r) = ms_Chain (mas_Spec r)
     \<and> mas_SpecHash r = digest (mssSpecPayload (mas_Spec r))"
  by (cases r) (auto simp: BuildMSSAction_def SpecFingerprint_def split: option.splits if_splits sum.splits)

lemma validateProjectChain_no_slash:
  "validateProjectChain c = None \<Longrightarrow> CHR ''/'' \<notin> set c"
  by (auto simp: validateProjectChain_def chain_char_def is_lower_def is_digit_def list_all_iff
      split: if_splits)

lemma InsertCommand_Inr:
  assumes "InsertCommand digest a = Inr argv"
  shows "BuildMSSAction digest a = Inr a"
  using assms by (auto simp: InsertCommand_def BuildMSSAction_Inr_iff split: sum.splits)

end
