(* ===== verification/State_Model.thy ===== *)
theory State_Model
  imports Prelude
begin

text \<open>
  \<open>internal/state\<close>, the data model and the diff: \<open>model.go\<close>, \<open>diff.go\<close>, \<open>from_discovery.go\<close>. The Go
  string enumerations become datatypes with the source's constants and one constructor for any other
  text a document may carry. \<open>any\<close>-typed diff values are the datatype \<open>diff_value\<close>; the SHA-256 hex
  digest of a file content is the parameter \<open>sha\<close>.
  The one-field structs \<open>MihomoDesired\<close> and \<open>MieruDesired\<close> are their field, behind the pointer
  to the struct: \<open>None\<close> is the nil struct, \<open>Some None\<close> the nil field.
\<close>

subsection \<open>Vocabularies (model.go)\<close>

datatype StateStatus = StatusOK | StatusPartial | StatusConflict | StatusInconsistent | StatusUnknown
  | StatusOther string

datatype OwnershipTag = Owned | External | UnknownOwner | OtherOwner string

datatype DiffKind = NoChange | CreateDiff | UpdateDiff | RemoveDiff | Skip | UnknownDiff | ConflictDiff
  | Unsupported | ExternalDiff | OtherDiff string

subsection \<open>Actual and desired state (model.go)\<close>

record SystemActual =
  sys_OS :: string
  sys_Kernel :: string
  sys_Architecture :: string
  sys_MachineID :: string
  sys_MachineIDStatus :: string

record NetworkActual =
  net_ExternalInterface :: string
  net_DefaultGateway :: string
  net_IPv4 :: bool
  net_IPv6 :: bool

record SecurityActual =
  sec_SSHPorts :: "int list"
  sec_SSHArchitecture :: string
  sec_PasswordAuthentication :: "bool option"

record ContainersActual =
  con_DockerInstalled :: bool
  con_DockerActive :: bool

record ServiceActual =
  sva_Name :: string
  sva_Enabled :: bool
  sva_Active :: bool
  sva_SubState :: string

record GatewayActual =
  gw_MihomoInstalled :: bool
  gw_MihomoActive :: bool
  gw_MieruInstalled :: bool
  gw_MieruActive :: bool
  gw_WireGuardInstalled :: bool
  gw_AmneziaInstalled :: bool

record FileActual =
  fa_Path :: string
  fa_Exists :: bool
  fa_SHA256 :: string
  fa_Mode :: "32 word"

record Actual =
  act_System :: SystemActual
  act_Network :: NetworkActual
  act_Security :: SecurityActual
  act_Containers :: ContainersActual
  act_Services :: "ServiceActual list"
  act_Files :: "FileActual list"
  act_Gateway :: GatewayActual

record ServiceDesired =
  svd_Name :: string
  svd_Active :: "bool option"

record FileDesired =
  fd_Path :: string
  fd_Content :: string
  fd_Mode :: "32 word"

record SSHDesired =
  ssd_Port :: "int option"
  ssd_KeyAuthentication :: "bool option"
  ssd_PasswordAuthentication :: "bool option"

record FirewallDesired =
  fwd_Incoming :: string
  fwd_Outgoing :: string

record Desired =
  des_Profile :: string
  des_Forwarding :: "bool option"
  des_SwapPresent :: "bool option"
  des_BaselineSysctl :: "bool option"
  des_SSH :: "SSHDesired option"
  des_Firewall :: "FirewallDesired option"
  des_Mihomo :: "bool option option"
  des_Mieru :: "bool option option"
  des_Services :: "ServiceDesired list"
  des_Files :: "FileDesired list"

record Capabilities =
  cap_Systemd :: bool
  cap_Docker :: bool
  cap_NFTables :: bool
  cap_IPTables :: bool
  cap_UFW :: bool
  cap_WireGuard :: bool

record Constraint =
  con_Code :: string
  con_Component :: string
  con_Message :: string
  con_Blocking :: bool

datatype diff_value = VNil | VInt int | VInts "int list" | VBool bool | VString string

record DiffItem =
  di_Resource :: string
  di_Kind :: DiffKind
  di_Ownership :: OwnershipTag
  di_Current :: diff_value
  di_Desired :: diff_value
  di_Reason :: string

text \<open>The evidence plane has its own theory; the model carries its records as a type parameter.\<close>

record 'ev Model =
  m_SchemaVersion :: int
  m_BootstrapVersion :: string
  m_UpdatedAt :: time
  m_Profile :: string
  m_Actual :: Actual
  m_Desired :: Desired
  m_Ownership :: "string \<Rightarrow> OwnershipTag option"
  m_Capabilities :: Capabilities
  m_Constraints :: "Constraint list"
  m_Diff :: "DiffItem list"
  m_Status :: StateStatus
  m_Evidence :: "'ev list"

abbreviation SchemaVersion :: int where "SchemaVersion \<equiv> 2"

subsection \<open>The diff (diff.go)\<close>

definition effectiveMode :: "32 word \<Rightarrow> 32 word" where
  "effectiveMode desired = (if desired = 0 then 384 else desired)"

definition actualHash :: "FileActual option \<Rightarrow> diff_value" where
  "actualHash a = (case a of None \<Rightarrow> VNil | Some f \<Rightarrow> VString (fa_SHA256 f))"

definition ownershipOf :: "'ev Model \<Rightarrow> string \<Rightarrow> OwnershipTag" where
  "ownershipOf m resource = (case m_Ownership m resource of Some ow \<Rightarrow> ow | None \<Rightarrow> UnknownOwner)"

definition add_item ::
  "string \<Rightarrow> diff_value \<Rightarrow> diff_value \<Rightarrow> DiffKind \<Rightarrow> OwnershipTag \<Rightarrow> string \<Rightarrow> DiffItem" where
  "add_item resource current desired kind owner reason =
     \<lparr>di_Resource = resource, di_Kind = kind, di_Ownership = owner, di_Current = current,
      di_Desired = desired, di_Reason = reason\<rparr>"

definition diff_ssh_port :: "'ev Model \<Rightarrow> int \<Rightarrow> DiffItem" where
  "diff_ssh_port m port =
     (let owner = ownershipOf m ''ssh''; ports = sec_SSHPorts (act_Security (m_Actual m)) in
      if ports = [port] then
        add_item ''ssh.port'' (VInts ports) (VInt port) NoChange owner ''effective SSH port already matches''
      else if owner = UnknownOwner then
        add_item ''ssh.port'' (VInts ports) (VInt port) ConflictDiff owner ''SSH ownership is unknown''
      else add_item ''ssh.port'' (VInts ports) (VInt port) UpdateDiff owner ''effective SSH port differs'')"

definition diff_ssh_password :: "'ev Model \<Rightarrow> bool \<Rightarrow> bool \<Rightarrow> DiffItem" where
  "diff_ssh_password m want have =
     (let owner = ownershipOf m ''ssh''; r = ''ssh.password_authentication'' in
      if want = have then
        add_item r (VBool have) (VBool want) NoChange owner ''effective SSH setting already matches''
      else if owner = UnknownOwner then
        add_item r (VBool have) (VBool want) ConflictDiff owner ''SSH ownership is unknown''
      else add_item r (VBool have) (VBool want) UpdateDiff owner ''effective SSH setting differs'')"

definition diff_ssh :: "'ev Model \<Rightarrow> DiffItem list" where
  "diff_ssh m =
     (case des_SSH (m_Desired m) of None \<Rightarrow> []
      | Some s \<Rightarrow>
          (case ssd_Port s of None \<Rightarrow> [] | Some p \<Rightarrow> [diff_ssh_port m p]) @
          (case (ssd_PasswordAuthentication s, sec_PasswordAuthentication (act_Security (m_Actual m))) of
             (Some want, Some have) \<Rightarrow> [diff_ssh_password m want have]
           | _ \<Rightarrow> []))"

definition diff_mihomo :: "'ev Model \<Rightarrow> DiffItem list" where
  "diff_mihomo m =
     (case des_Mihomo (m_Desired m) of
        Some (Some integration) \<Rightarrow>
          (let owner = ownershipOf m ''mihomo.integration''; gw = act_Gateway (m_Actual m);
               r = ''mihomo.integration'' in
           if integration then
             if \<not> gw_MihomoInstalled gw then
               if owner = UnknownOwner then
                 [add_item r (VBool False) (VBool True) ConflictDiff owner ''Mihomo ownership is unknown'']
               else [add_item r (VBool False) (VBool True) CreateDiff owner ''Mihomo integration is requested'']
             else [add_item r (VBool (gw_MihomoActive gw)) (VBool True) UpdateDiff owner
                     ''integration requires effective runtime validation'']
           else if gw_MihomoInstalled gw then
             [add_item r (VBool True) (VBool False) ExternalDiff owner
                ''Mihomo runtime is present; removal is not implied'']
           else [])
      | _ \<Rightarrow> [])"

definition diff_mieru :: "'ev Model \<Rightarrow> DiffItem list" where
  "diff_mieru m =
     (case des_Mieru (m_Desired m) of
        Some (Some enabled) \<Rightarrow>
          (let owner = ownershipOf m ''mieru''; active = gw_MieruActive (act_Gateway (m_Actual m));
               r = ''mieru.enabled''; add = add_item r (VBool active) (VBool enabled) in
           if enabled = active then [add NoChange owner ''effective Mieru state already matches'']
           else if owner = External then [add ExternalDiff owner ''Mieru runtime is externally owned'']
           else if owner = UnknownOwner then [add ConflictDiff owner ''Mieru ownership is unknown'']
           else [add UpdateDiff owner ''effective Mieru state differs''])
      | _ \<Rightarrow> [])"

definition diff_service :: "'ev Model \<Rightarrow> ServiceDesired \<Rightarrow> DiffItem list" where
  "diff_service m sd =
     (case svd_Active sd of
        None \<Rightarrow> []
      | Some want \<Rightarrow>
          if svd_Name sd = '''' then []
          else
            (let r = ''service.'' @ svd_Name sd; owner = ownershipOf m r in
             case find (\<lambda>a. sva_Name a = svd_Name sd) (act_Services (m_Actual m)) of
               None \<Rightarrow> [add_item r VNil (VBool want) ConflictDiff owner ''unit was not discovered on the machine'']
             | Some a \<Rightarrow>
                 let add = add_item r (VBool (sva_Active a)) (VBool want) in
                 if want = sva_Active a then [add NoChange owner ''service state already matches'']
                 else if owner = UnknownOwner then [add ConflictDiff owner ''service ownership is unknown'']
                 else if owner = External then [add ExternalDiff owner ''service is externally owned'']
                 else [add UpdateDiff owner ''service state differs'']))"

definition diff_file :: "(string \<Rightarrow> string) \<Rightarrow> 'ev Model \<Rightarrow> FileDesired \<Rightarrow> DiffItem list" where
  "diff_file sha m fd =
     (if fd_Path fd = '''' \<or> fd_Content fd = '''' then []
      else
        (let r = ''file.'' @ fd_Path fd; owner = ownershipOf m r; want = sha (fd_Content fd);
             a = find (\<lambda>a. fa_Path a = fd_Path fd) (act_Files (m_Actual m)) in
         if owner = UnknownOwner then
           [add_item r (actualHash a) (VString want) ConflictDiff owner ''file ownership is unknown'']
         else if owner = External then
           [add_item r (actualHash a) (VString want) ExternalDiff owner ''file is externally owned'']
         else case a of
           None \<Rightarrow> [add_item r VNil (VString want) ConflictDiff owner ''file was not inspected before planning'']
         | Some f \<Rightarrow>
             if \<not> fa_Exists f then
               [add_item r VNil (VString want) CreateDiff owner ''file does not exist and is desired'']
             else if fa_SHA256 f \<noteq> want \<or> fa_Mode f \<noteq> effectiveMode (fd_Mode fd) then
               [add_item r (VString (fa_SHA256 f)) (VString want) UpdateDiff owner ''file content or mode differs'']
             else [add_item r (VString want) (VString want) NoChange owner ''file already matches desired content'']))"

definition BuildDiff :: "(string \<Rightarrow> string) \<Rightarrow> 'ev Model \<Rightarrow> DiffItem list" where
  "BuildDiff sha m =
     diff_ssh m @ diff_mihomo m @ diff_mieru m
     @ concat (map (diff_service m) (des_Services (m_Desired m)))
     @ concat (map (diff_file sha m) (des_Files (m_Desired m)))"

subsection \<open>From discovery (from_discovery.go)\<close>

text \<open>The part of \<open>discovery.Result\<close> the conversion reads.\<close>

record DiscService =
  dsv_Name :: string
  dsv_Exists :: bool
  dsv_Enabled :: bool
  dsv_Active :: bool
  dsv_SubState :: string

record DiscResult =
  dr_Timestamp :: time
  dr_OSID :: string
  dr_KernelRelease :: string
  dr_KernelArchitecture :: string
  dr_MachineID :: string
  dr_MachineIDStatus :: string
  dr_ExternalInterface :: string
  dr_DefaultGateway :: string
  dr_IPv4 :: bool
  dr_IPv6 :: bool
  dr_EffectivePorts :: "int list"
  dr_SSHArchitecture :: string
  dr_PasswordAuthentication :: "bool option"
  dr_DockerInstalled :: bool
  dr_DockerActive :: bool
  dr_Gateway :: GatewayActual
  dr_Services :: "DiscService list"
  dr_Capabilities :: Capabilities
  dr_Status :: StateStatus

definition servicesActual :: "DiscService list \<Rightarrow> ServiceActual list" where
  "servicesActual ss =
     map (\<lambda>s. \<lparr>sva_Name = dsv_Name s, sva_Enabled = dsv_Enabled s, sva_Active = dsv_Active s,
               sva_SubState = dsv_SubState s\<rparr>) (filter dsv_Exists ss)"

definition empty_Desired :: Desired where
  "empty_Desired =
     \<lparr>des_Profile = '''', des_Forwarding = None, des_SwapPresent = None, des_BaselineSysctl = None,
      des_SSH = None, des_Firewall = None, des_Mihomo = None, des_Mieru = None, des_Services = [],
      des_Files = []\<rparr>"

definition FromDiscovery :: "DiscResult \<Rightarrow> 'ev Model" where
  "FromDiscovery r =
     \<lparr>m_SchemaVersion = SchemaVersion, m_BootstrapVersion = '''', m_UpdatedAt = dr_Timestamp r,
      m_Profile = ''gateway'',
      m_Actual =
        \<lparr>act_System = \<lparr>sys_OS = dr_OSID r, sys_Kernel = dr_KernelRelease r,
           sys_Architecture = dr_KernelArchitecture r, sys_MachineID = dr_MachineID r,
           sys_MachineIDStatus = dr_MachineIDStatus r\<rparr>,
         act_Network = \<lparr>net_ExternalInterface = dr_ExternalInterface r,
           net_DefaultGateway = dr_DefaultGateway r, net_IPv4 = dr_IPv4 r, net_IPv6 = dr_IPv6 r\<rparr>,
         act_Security = \<lparr>sec_SSHPorts = dr_EffectivePorts r, sec_SSHArchitecture = dr_SSHArchitecture r,
           sec_PasswordAuthentication = dr_PasswordAuthentication r\<rparr>,
         act_Containers = \<lparr>con_DockerInstalled = dr_DockerInstalled r, con_DockerActive = dr_DockerActive r\<rparr>,
         act_Services = servicesActual (dr_Services r), act_Files = [], act_Gateway = dr_Gateway r\<rparr>,
      m_Desired = empty_Desired, m_Ownership = (\<lambda>_. None), m_Capabilities = dr_Capabilities r,
      m_Constraints = [], m_Diff = [], m_Status = dr_Status r, m_Evidence = []\<rparr>"

subsection \<open>Facts\<close>

lemmas diff_parts = diff_ssh_def diff_ssh_port_def diff_ssh_password_def diff_mihomo_def diff_mieru_def
  diff_service_def diff_file_def

definition mutating_kind :: "DiffKind \<Rightarrow> bool" where
  "mutating_kind k \<longleftrightarrow> k = CreateDiff \<or> k = UpdateDiff \<or> k = RemoveDiff"

lemma find_matches_name: "find P xs = Some x \<Longrightarrow> x \<in> set xs \<and> P x"
  by (auto simp: find_Some_iff)

end
