(* ===== verification/State_Plan.thy ===== *)
theory State_Plan
  imports State_Model MSS_Spec
begin

text \<open>
  \<open>internal/state\<close>, planning: \<open>plan.go\<close>, \<open>plan_contract.go\<close>, \<open>preflight.go\<close>, \<open>ssh_finalize.go\<close>,
  \<open>mss_action.go\<close> and \<open>canonical.go\<close>. A block reason is a constructor that carries the parts the
  source concatenates. \<open>json.Marshal\<close> of a typed spec followed by SHA-256 is the parameter of
  \<open>ActionSpecHash\<close>, applied to the domain, the kind and the spec.
\<close>

subsection \<open>Plans (plan.go)\<close>

datatype ActionKind =
    ActionCreateFile | ActionUpdateFile | ActionDeleteOwnedFile | ActionFirewall | ActionRouting
  | ActionService | ActionSSH | ActionInstaller | ActionValidate | ActionReboot
  | ActionSSHFinalize | ActionMSSRule | ActionOther string

datatype Risk = RiskLow | RiskMedium | RiskHigh | RiskCritical | RiskOther string

record FileActionSpec =
  fas_Path :: string
  fas_Content :: string
  fas_Mode :: "32 word"
  fas_Delete :: bool
  fas_ValidatePath :: string

record ServiceActionSpec =
  svs_Name :: string
  svs_Operation :: string
  svs_ExpectedState :: string
  svs_RollbackOperation :: string

record SSHActionSpec =
  ss_Unit :: string
  ss_NewPort :: int
  ss_OldPort :: int
  ss_RequireOldListener :: bool
  ss_RequireNewListener :: bool
  ss_ConfigPath :: string
  ss_ConfigContent :: string
  ss_ConfigMode :: "32 word"
  ss_SocketActivation :: bool

record ActionSpec =
  asp_File :: "FileActionSpec option"
  asp_Service :: "ServiceActionSpec option"
  asp_SSH :: "SSHActionSpec option"
  asp_MSS :: "MSSActionSpec option"

definition empty_ActionSpec :: ActionSpec where
  "empty_ActionSpec = \<lparr>asp_File = None, asp_Service = None, asp_SSH = None, asp_MSS = None\<rparr>"

record Action =
  a_ID :: string
  a_Resource :: string
  a_Kind :: ActionKind
  a_Ownership :: OwnershipTag
  a_Why :: string
  a_Dependencies :: "string list"
  a_Risk :: Risk
  a_Validation :: string
  a_Rollback :: string
  a_Spec :: "ActionSpec option"

datatype SpecField = SpecNone | SpecFile | SpecService | SpecSSH | SpecMSS

datatype typed_spec_error =
    UnknownActionKind ActionKind | ReservedKind ActionKind | ReadOnlyWithSpec ActionKind
  | MultipleSpecs ActionKind SpecField | MissingSpec ActionKind SpecField

datatype block_reason =
    NotOwned string | NoSafeTransition | NoTypedService string | NoTypedFile string
  | TypedSpecViolation string typed_spec_error | DiffBlocks string DiffKind string
  | OtherBlock string

record Plan =
  p_SchemaVersion :: int
  p_Profile :: string
  p_Actions :: "Action list"
  p_Blocked :: bool
  p_BlockReasons :: "block_reason list"
  p_Capabilities :: "string list"

subsection \<open>The typed-spec contract (plan_contract.go)\<close>

record ActionContract =
  ac_Mutating :: bool
  ac_SpecField :: SpecField
  ac_Defined :: bool

fun actionContracts :: "ActionKind \<Rightarrow> ActionContract option" where
  "actionContracts ActionCreateFile = Some \<lparr>ac_Mutating = True, ac_SpecField = SpecFile, ac_Defined = True\<rparr>"
| "actionContracts ActionUpdateFile = Some \<lparr>ac_Mutating = True, ac_SpecField = SpecFile, ac_Defined = True\<rparr>"
| "actionContracts ActionDeleteOwnedFile = Some \<lparr>ac_Mutating = True, ac_SpecField = SpecFile, ac_Defined = True\<rparr>"
| "actionContracts ActionService = Some \<lparr>ac_Mutating = True, ac_SpecField = SpecService, ac_Defined = True\<rparr>"
| "actionContracts ActionSSH = Some \<lparr>ac_Mutating = True, ac_SpecField = SpecSSH, ac_Defined = True\<rparr>"
| "actionContracts ActionSSHFinalize = Some \<lparr>ac_Mutating = True, ac_SpecField = SpecSSH, ac_Defined = True\<rparr>"
| "actionContracts ActionFirewall = Some \<lparr>ac_Mutating = True, ac_SpecField = SpecNone, ac_Defined = False\<rparr>"
| "actionContracts ActionRouting = Some \<lparr>ac_Mutating = True, ac_SpecField = SpecNone, ac_Defined = False\<rparr>"
| "actionContracts ActionInstaller = Some \<lparr>ac_Mutating = True, ac_SpecField = SpecNone, ac_Defined = False\<rparr>"
| "actionContracts ActionReboot = Some \<lparr>ac_Mutating = True, ac_SpecField = SpecNone, ac_Defined = False\<rparr>"
| "actionContracts ActionMSSRule = Some \<lparr>ac_Mutating = True, ac_SpecField = SpecMSS, ac_Defined = False\<rparr>"
| "actionContracts ActionValidate = Some \<lparr>ac_Mutating = False, ac_SpecField = SpecNone, ac_Defined = True\<rparr>"
| "actionContracts (ActionOther _) = None"

definition specPresent :: "Action \<Rightarrow> SpecField \<Rightarrow> bool" where
  "specPresent a f =
     (case a_Spec a of None \<Rightarrow> False
      | Some s \<Rightarrow> (case f of SpecFile \<Rightarrow> asp_File s \<noteq> None | SpecService \<Rightarrow> asp_Service s \<noteq> None
                   | SpecSSH \<Rightarrow> asp_SSH s \<noteq> None | SpecMSS \<Rightarrow> asp_MSS s \<noteq> None | SpecNone \<Rightarrow> False))"

definition spec_count :: "ActionSpec \<Rightarrow> nat" where
  "spec_count s =
     of_bool (asp_File s \<noteq> None) + of_bool (asp_Service s \<noteq> None) + of_bool (asp_SSH s \<noteq> None)
     + of_bool (asp_MSS s \<noteq> None)"

definition multipleSpecs :: "Action \<Rightarrow> bool" where
  "multipleSpecs a = (case a_Spec a of None \<Rightarrow> False | Some s \<Rightarrow> 1 < spec_count s)"

definition ValidateActionTypedSpec :: "Action \<Rightarrow> typed_spec_error option" where
  "ValidateActionTypedSpec a =
     (case actionContracts (a_Kind a) of
        None \<Rightarrow> Some (UnknownActionKind (a_Kind a))
      | Some c \<Rightarrow>
          if \<not> ac_Defined c then Some (ReservedKind (a_Kind a))
          else if \<not> ac_Mutating c then
            (if a_Spec a \<noteq> None then Some (ReadOnlyWithSpec (a_Kind a)) else None)
          else if multipleSpecs a then Some (MultipleSpecs (a_Kind a) (ac_SpecField c))
          else if \<not> specPresent a (ac_SpecField c) then Some (MissingSpec (a_Kind a) (ac_SpecField c))
          else None)"

definition ValidatePlanTypedSpecs :: "Plan \<Rightarrow> (nat \<times> string \<times> typed_spec_error) list" where
  "ValidatePlanTypedSpecs p =
     concat (map (\<lambda>(i, a). case ValidateActionTypedSpec a of None \<Rightarrow> [] | Some e \<Rightarrow> [(i, a_Resource a, e)])
       (enumerate 0 (p_Actions p)))"

subsection \<open>Building the plan (plan.go)\<close>

definition actionID :: "nat \<Rightarrow> string \<Rightarrow> string" where
  "actionID i resource = ''action-'' @ Itoa i @ ''-'' @ resource"

definition actionForResource :: "string \<Rightarrow> DiffKind \<Rightarrow> ActionKind" where
  "actionForResource resource diff =
     (if resource = ''ssh.port'' then ActionSSH
      else if resource = ''ssh.password_authentication'' then ActionUpdateFile
      else if HasPrefix resource ''file.'' then
        (if diff = CreateDiff then ActionCreateFile
         else if diff = RemoveDiff then ActionDeleteOwnedFile else ActionUpdateFile)
      else if HasPrefix resource ''service.'' then ActionService
      else if resource = ''mihomo.integration'' then
        (if diff = CreateDiff then ActionInstaller else ActionService)
      else if resource = ''mieru.enabled'' then ActionService
      else ActionValidate)"

definition riskForResource :: "string \<Rightarrow> Risk" where
  "riskForResource resource =
     (if resource = ''ssh.port'' then RiskCritical
      else if resource = ''ssh.password_authentication'' then RiskHigh else RiskMedium)"

text \<open>\<open>%d\<close> of a port; only positive ports are rendered.\<close>

definition nl :: string where "nl = [CHR 0x0A]"

definition sshPortSpec :: "'ev Model \<Rightarrow> DiffItem \<Rightarrow> ActionSpec option" where
  "sshPortSpec m d =
     (case di_Desired d of
        VInt newPort \<Rightarrow>
          if newPort \<le> 0 \<or> 65535 < newPort then None
          else
            (let oldPort = (case sec_SSHPorts (act_Security (m_Actual m)) of [p] \<Rightarrow> p | _ \<Rightarrow> 0);
                 socket = string_contains (ToLower (sec_SSHArchitecture (act_Security (m_Actual m)))) ''socket'';
                 word = (if socket then ''ListenStream='' else ''Port '');
                 header = ''# Managed by vps-gateway; do not edit.'' @ nl
                   @ (if socket then ''[Socket]'' @ nl @ ''ListenStream='' @ nl else '''');
                 old_line = (if 0 < oldPort \<and> oldPort \<noteq> newPort then word @ Itoa (nat oldPort) @ nl else '''');
                 content = header @ old_line @ word @ Itoa (nat newPort) @ nl in
             Some (empty_ActionSpec\<lparr>asp_SSH := Some
               \<lparr>ss_Unit = (if socket then ''ssh.socket'' else ''ssh.service''), ss_NewPort = newPort,
                ss_OldPort = oldPort, ss_RequireOldListener = 0 < oldPort, ss_RequireNewListener = True,
                ss_ConfigPath = (if socket then ''/etc/systemd/system/ssh.socket.d/99-vps-gateway.conf''
                                 else ''/etc/ssh/sshd_config.d/99-vps-gateway.conf''),
                ss_ConfigContent = content, ss_ConfigMode = 384, ss_SocketActivation = socket\<rparr>\<rparr>))
      | _ \<Rightarrow> None)"

definition fileSpec :: "'ev Model \<Rightarrow> string \<Rightarrow> ActionSpec option" where
  "fileSpec m resource =
     (case find (\<lambda>fd. fd_Path fd = TrimPrefix resource ''file.'') (des_Files (m_Desired m)) of
        None \<Rightarrow> None
      | Some fd \<Rightarrow> Some (empty_ActionSpec\<lparr>asp_File := Some
          \<lparr>fas_Path = fd_Path fd, fas_Content = fd_Content fd, fas_Mode = effectiveMode (fd_Mode fd),
           fas_Delete = False, fas_ValidatePath = ''''\<rparr>\<rparr>))"

definition serviceSpec :: "string \<Rightarrow> ActionSpec option" where
  "serviceSpec resource =
     (let unit = TrimPrefix resource ''service.'' in
      if unit = '''' then None
      else Some (empty_ActionSpec\<lparr>asp_Service := Some
        \<lparr>svs_Name = unit, svs_Operation = ''restart'', svs_ExpectedState = ''active'',
         svs_RollbackOperation = ''''\<rparr>\<rparr>))"

definition spec_field_missing :: "(ActionSpec \<Rightarrow> 'b option) \<Rightarrow> ActionSpec option \<Rightarrow> bool" where
  "spec_field_missing sel s \<longleftrightarrow> (case s of None \<Rightarrow> True | Some sp \<Rightarrow> sel sp = None)"

text \<open>One mutating diff item: the action it plans, or the reason it blocks the plan.\<close>

definition plan_mutation :: "'ev Model \<Rightarrow> nat \<Rightarrow> DiffItem \<Rightarrow> (block_reason, Action) result" where
  "plan_mutation m i d =
     (let r = di_Resource d in
      if di_Ownership d \<noteq> Owned then Inl (NotOwned r)
      else
        let a0 = \<lparr>a_ID = actionID i r, a_Resource = r, a_Kind = actionForResource r (di_Kind d),
              a_Ownership = di_Ownership d, a_Why = di_Reason d, a_Dependencies = [],
              a_Risk = riskForResource r, a_Validation = ''re-discover effective state and validate result'',
              a_Rollback = ''restore transaction backup and re-validate recovery'', a_Spec = None\<rparr>;
            a1 = (if r = ''ssh.port'' then a0\<lparr>a_Spec := sshPortSpec m d\<rparr> else a0);
            a2 = (if HasPrefix r ''service.'' then a1\<lparr>a_Spec := serviceSpec r\<rparr> else a1);
            a3 = (if HasPrefix r ''file.'' then a2\<lparr>a_Spec := fileSpec m r\<rparr> else a2) in
        if r = ''ssh.port'' \<and> spec_field_missing asp_SSH (a_Spec a1) then Inl NoSafeTransition
        else if HasPrefix r ''service.'' \<and> spec_field_missing asp_Service (a_Spec a2) then Inl (NoTypedService r)
        else if HasPrefix r ''file.'' \<and> spec_field_missing asp_File (a_Spec a3) then Inl (NoTypedFile r)
        else case ValidateActionTypedSpec a3 of
          Some e \<Rightarrow> Inl (TypedSpecViolation r e)
        | None \<Rightarrow> Inr a3)"

definition validate_action :: "nat \<Rightarrow> DiffItem \<Rightarrow> Action" where
  "validate_action i d =
     \<lparr>a_ID = actionID i (di_Resource d), a_Resource = di_Resource d, a_Kind = ActionValidate,
      a_Ownership = di_Ownership d, a_Why = di_Reason d, a_Dependencies = [], a_Risk = RiskLow,
      a_Validation = ''re-discover effective external state'',
      a_Rollback = ''none; external resource is not modified'', a_Spec = None\<rparr>"

definition block_plan :: "block_reason \<Rightarrow> Plan \<Rightarrow> Plan" where
  "block_plan b p = p\<lparr>p_Blocked := True, p_BlockReasons := p_BlockReasons p @ [b]\<rparr>"

definition plan_item :: "'ev Model \<Rightarrow> nat \<Rightarrow> DiffItem \<Rightarrow> Plan \<Rightarrow> Plan" where
  "plan_item m i d p =
     (case di_Kind d of
        NoChange \<Rightarrow> p
      | Skip \<Rightarrow> p
      | ExternalDiff \<Rightarrow> p\<lparr>p_Actions := p_Actions p @ [validate_action i d]\<rparr>
      | ConflictDiff \<Rightarrow> block_plan (DiffBlocks (di_Resource d) (di_Kind d) (di_Reason d)) p
      | UnknownDiff \<Rightarrow> block_plan (DiffBlocks (di_Resource d) (di_Kind d) (di_Reason d)) p
      | Unsupported \<Rightarrow> block_plan (DiffBlocks (di_Resource d) (di_Kind d) (di_Reason d)) p
      | OtherDiff _ \<Rightarrow> p
      | _ \<Rightarrow> (case plan_mutation m i d of
               Inl b \<Rightarrow> block_plan b p
             | Inr a \<Rightarrow> p\<lparr>p_Actions := p_Actions p @ [a]\<rparr>))"

definition empty_plan :: "'ev Model \<Rightarrow> Plan" where
  "empty_plan m = \<lparr>p_SchemaVersion = SchemaVersion, p_Profile = m_Profile m, p_Actions = [],
     p_Blocked = False, p_BlockReasons = [], p_Capabilities = []\<rparr>"

fun plan_items :: "'ev Model \<Rightarrow> nat \<Rightarrow> DiffItem list \<Rightarrow> Plan \<Rightarrow> Plan" where
  "plan_items m i [] p = p"
| "plan_items m i (d # ds) p = plan_items m (Suc i) ds (plan_item m i d p)"

definition BuildPlan :: "'ev Model \<Rightarrow> Plan" where
  "BuildPlan m = plan_items m 0 (m_Diff m) (empty_plan m)"

fun missing_kinds :: "(ActionKind \<Rightarrow> bool) \<Rightarrow> ActionKind list \<Rightarrow> Action list \<Rightarrow> ActionKind list" where
  "missing_kinds registered seen [] = []"
| "missing_kinds registered seen (a # as) =
     (if registered (a_Kind a) \<or> a_Kind a \<in> set seen then missing_kinds registered seen as
      else a_Kind a # missing_kinds registered (a_Kind a # seen) as)"

definition MissingExecutors :: "Plan \<Rightarrow> (ActionKind \<Rightarrow> bool) \<Rightarrow> ActionKind list" where
  "MissingExecutors p registered = missing_kinds registered [] (p_Actions p)"

subsection \<open>Preflight (preflight.go)\<close>

datatype PreflightStatus = PreflightReady | PreflightBlocked

record PreflightCheck =
  pfc_Name :: string
  pfc_OK :: bool
  pfc_Critical :: bool
  pfc_Reason :: string

record Preflight =
  pf_Status :: PreflightStatus
  pf_Checks :: "PreflightCheck list"
  pf_Blocking :: "string list"

definition capability_ok :: "Capabilities \<Rightarrow> DiffItem \<Rightarrow> bool" where
  "capability_ok c d =
     (if di_Kind d = NoChange \<or> di_Kind d = Skip \<or> di_Kind d = ExternalDiff then True
      else if di_Resource d = ''ssh.port'' \<or> di_Resource d = ''ssh.password_authentication''
        \<or> HasPrefix (di_Resource d) ''service.''
        \<or> di_Resource d = ''mihomo.integration'' \<or> di_Resource d = ''mieru.enabled'' then cap_Systemd c
      else True)"

definition capabilitiesForPlan :: "'ev Model \<Rightarrow> bool" where
  "capabilitiesForPlan m = list_all (capability_ok (m_Capabilities m)) (m_Diff m)"

definition hasBlockingConstraints :: "'ev Model \<Rightarrow> bool" where
  "hasBlockingConstraints m = list_ex con_Blocking (m_Constraints m)"

definition pf_check :: "PreflightCheck \<Rightarrow> Preflight \<Rightarrow> Preflight" where
  "pf_check c pf =
     (let pf1 = pf\<lparr>pf_Checks := pf_Checks pf @ [c]\<rparr> in
      if \<not> pfc_OK c \<and> pfc_Critical c
      then pf1\<lparr>pf_Status := PreflightBlocked, pf_Blocking := pf_Blocking pf1 @ [pfc_Name c @ '': '' @ pfc_Reason c]\<rparr>
      else pf1)"

definition preflight_checks :: "'ev Model \<Rightarrow> Plan \<Rightarrow> bool \<Rightarrow> PreflightCheck list" where
  "preflight_checks m p isRoot =
     (let chk = (\<lambda>n ok cr r. \<lparr>pfc_Name = n, pfc_OK = ok, pfc_Critical = cr, pfc_Reason = r\<rparr>) in
      [chk ''root'' isRoot True ''bootstrap must run as root'',
       chk ''supported-os'' (sys_OS (act_System (m_Actual m)) \<noteq> '''') True ''OS was not discovered'',
       chk ''default-route''
         (net_ExternalInterface (act_Network (m_Actual m)) \<noteq> '''' \<and> net_DefaultGateway (act_Network (m_Actual m)) \<noteq> '''')
         True ''external interface or default gateway is unknown'',
       chk ''ipv4'' (net_IPv4 (act_Network (m_Actual m))) False ''IPv4 is not currently discovered'',
       chk ''ssh-listener'' (sec_SSHPorts (act_Security (m_Actual m)) \<noteq> []) True
         ''no effective SSH listener was discovered'',
       chk ''plan'' (\<not> p_Blocked p) True ''plan is blocked'',
       chk ''capabilities'' (capabilitiesForPlan m) (\<not> p_Blocked p) ''required capability set cannot be established'',
       chk ''no-blocking-constraints'' (\<not> hasBlockingConstraints m) True
         ''state model contains blocking constraints''])"

definition BuildPreflightFor :: "'ev Model \<Rightarrow> Plan \<Rightarrow> bool \<Rightarrow> Preflight" where
  "BuildPreflightFor m p isRoot =
     fold pf_check (preflight_checks m p isRoot)
       \<lparr>pf_Status = PreflightReady, pf_Checks = [], pf_Blocking = []\<rparr>"

subsection \<open>SSH finalisation (ssh_finalize.go) and MSS actions (mss_action.go)\<close>

definition NewSSHFinalizeAction :: "string \<Rightarrow> string \<Rightarrow> OwnershipTag \<Rightarrow> SSHActionSpec \<Rightarrow> Action" where
  "NewSSHFinalizeAction i resource owner spec =
     \<lparr>a_ID = i, a_Resource = resource, a_Kind = ActionSSHFinalize, a_Ownership = owner,
      a_Why = ''remove the old SSH listener only after remote management connectivity is proven'',
      a_Dependencies = [], a_Risk = RiskCritical,
      a_Validation = ''remote probe succeeds; new listener remains; old listener is gone'',
      a_Rollback = ''restore the staged dual-listener configuration and re-validate recovery'',
      a_Spec = Some (empty_ActionSpec\<lparr>asp_SSH := Some spec\<rparr>)\<rparr>"

definition ValidateMSSActionSpec :: "(Spec \<Rightarrow> SpecHash) \<Rightarrow> Action \<Rightarrow> mss_error option" where
  "ValidateMSSActionSpec digest a =
     (case a_Spec a of None \<Rightarrow> Some ErrNoTypedSpec
      | Some s \<Rightarrow> (case asp_MSS s of None \<Rightarrow> Some ErrNoTypedSpec
         | Some mss \<Rightarrow> (case BuildMSSAction digest mss of Inl e \<Rightarrow> Some e | Inr _ \<Rightarrow> None)))"

datatype MSSPlannerOutcome =
    PlannerNoAction | PlannerCreateMSSRule | PlannerBlockedCollision | PlannerUnknown
  | PlannerBlockedPrerequisite | PlannerOther string

record 'r MSSPlanDecision =
  mpd_Outcome :: MSSPlannerOutcome
  mpd_Action :: "MSSActionSpec option"
  mpd_Reasons :: "'r list"

text \<open>\<open>(Action{}, false, nil)\<close> is \<open>Inr None\<close>.\<close>

definition StateActionFromMSSDecision ::
  "(Spec \<Rightarrow> SpecHash) \<Rightarrow> 'r MSSPlanDecision \<Rightarrow> (mss_error, Action option) result" where
  "StateActionFromMSSDecision digest dec =
     (if mpd_Outcome dec \<noteq> PlannerCreateMSSRule then Inr None
      else case mpd_Action dec of
        None \<Rightarrow> Inl ErrNoDecisionAction
      | Some act \<Rightarrow>
          (case BuildMSSAction digest act of
             Inl e \<Rightarrow> Inl e
           | Inr v \<Rightarrow>
               (case JournalResource (mas_Identity v) of
                  Inl e \<Rightarrow> Inl e
                | Inr resource \<Rightarrow>
                    let out = \<lparr>a_ID = ''mss-'' @ ri_Chain (mas_Identity v) @ ''-'' @ ri_Tag (mas_Identity v),
                          a_Resource = resource, a_Kind = ActionMSSRule, a_Ownership = OtherOwner '''',
                          a_Why = '''', a_Dependencies = [], a_Risk = RiskOther '''', a_Validation = '''',
                          a_Rollback = '''', a_Spec = Some (empty_ActionSpec\<lparr>asp_MSS := Some v\<rparr>)\<rparr> in
                    case ValidateMSSActionSpec digest out of Some e \<Rightarrow> Inl e | None \<Rightarrow> Inr (Some out))))"

subsection \<open>Specification hashes (canonical.go)\<close>

abbreviation actionSpecHashDomain :: string where
  "actionSpecHashDomain \<equiv> ''vps-gateway/action-spec/v1''"

definition ActionSpecHash ::
  "(string \<Rightarrow> ActionKind \<Rightarrow> ActionSpec \<Rightarrow> SpecHash) \<Rightarrow> Action \<Rightarrow> (string, SpecHash) result" where
  "ActionSpecHash digest a =
     (case a_Spec a of None \<Rightarrow> Inl (a_ID a)
      | Some s \<Rightarrow> Inr (digest actionSpecHashDomain (a_Kind a) s))"

subsection \<open>What the plan contains\<close>

text \<open>The actions and the block reasons one diff item contributes.\<close>

definition item_actions :: "'ev Model \<Rightarrow> nat \<Rightarrow> DiffItem \<Rightarrow> Action list" where
  "item_actions m i d = p_Actions (plan_item m i d (empty_plan m))"

definition item_blocks :: "'ev Model \<Rightarrow> nat \<Rightarrow> DiffItem \<Rightarrow> block_reason list" where
  "item_blocks m i d = p_BlockReasons (plan_item m i d (empty_plan m))"

lemma plan_item_contributes:
  "p_Actions (plan_item m i d p) = p_Actions p @ item_actions m i d"
  "p_BlockReasons (plan_item m i d p) = p_BlockReasons p @ item_blocks m i d"
  "p_Blocked (plan_item m i d p) \<longleftrightarrow> p_Blocked p \<or> item_blocks m i d \<noteq> []"
  "p_SchemaVersion (plan_item m i d p) = p_SchemaVersion p"
  "p_Profile (plan_item m i d p) = p_Profile p"
  "p_Capabilities (plan_item m i d p) = p_Capabilities p"
  by (auto simp: plan_item_def item_actions_def item_blocks_def block_plan_def empty_plan_def
      split: DiffKind.splits sum.splits)

lemma plan_items_contributes:
  "p_Actions (plan_items m i ds p) = p_Actions p @ concat (map (\<lambda>(j, d). item_actions m j d) (enumerate i ds))"
  "p_BlockReasons (plan_items m i ds p) =
     p_BlockReasons p @ concat (map (\<lambda>(j, d). item_blocks m j d) (enumerate i ds))"
  "p_Blocked (plan_items m i ds p) \<longleftrightarrow> p_Blocked p \<or> (\<exists>(j, d) \<in> set (enumerate i ds). item_blocks m j d \<noteq> [])"
  by (induction ds arbitrary: i p) (auto simp: plan_item_contributes)

lemma BuildPlan_Actions:
  "p_Actions (BuildPlan m) = concat (map (\<lambda>(j, d). item_actions m j d) (enumerate 0 (m_Diff m)))"
  by (simp add: BuildPlan_def plan_items_contributes empty_plan_def)

lemma BuildPlan_Blocked:
  "p_Blocked (BuildPlan m) \<longleftrightarrow> (\<exists>i < length (m_Diff m). item_blocks m i (m_Diff m ! i) \<noteq> [])"
  by (auto simp: BuildPlan_def plan_items_contributes empty_plan_def in_set_enumerate_eq)

lemma in_BuildPlan_Actions:
  "a \<in> set (p_Actions (BuildPlan m)) \<longleftrightarrow>
     (\<exists>i < length (m_Diff m). a \<in> set (item_actions m i (m_Diff m ! i)))"
  by (force simp: BuildPlan_Actions in_set_enumerate_eq)

lemma plan_mutation_Inr:
  assumes "plan_mutation m i d = Inr a"
  shows "di_Ownership d = Owned" "a_ID a = actionID i (di_Resource d)" "a_Resource a = di_Resource d"
    "a_Kind a = actionForResource (di_Resource d) (di_Kind d)" "a_Ownership a = Owned"
    "ValidateActionTypedSpec a = None"
  using assms
  by (auto simp: plan_mutation_def Let_def split: if_splits option.splits)

lemma item_actions_cases:
  "item_actions m i d =
     (if di_Kind d = ExternalDiff then [validate_action i d]
      else if mutating_kind (di_Kind d) then (case plan_mutation m i d of Inl _ \<Rightarrow> [] | Inr a \<Rightarrow> [a])
      else [])"
  by (cases "di_Kind d") (auto simp: item_actions_def plan_item_def empty_plan_def block_plan_def
      mutating_kind_def split: sum.splits)

lemma item_blocks_cases:
  "item_blocks m i d =
     (if di_Kind d \<in> {ConflictDiff, UnknownDiff, Unsupported}
      then [DiffBlocks (di_Resource d) (di_Kind d) (di_Reason d)]
      else if mutating_kind (di_Kind d) then (case plan_mutation m i d of Inl b \<Rightarrow> [b] | Inr _ \<Rightarrow> [])
      else [])"
  by (cases "di_Kind d") (auto simp: item_blocks_def plan_item_def empty_plan_def block_plan_def
      mutating_kind_def split: sum.splits)

lemma item_actions_short: "length (item_actions m i d) \<le> 1"
  by (auto simp: item_actions_cases split: sum.splits)

lemma in_item_actions:
  "a \<in> set (item_actions m i d) \<longleftrightarrow>
     di_Kind d = ExternalDiff \<and> a = validate_action i d
     \<or> mutating_kind (di_Kind d) \<and> plan_mutation m i d = Inr a"
  by (cases "plan_mutation m i d"; cases "di_Kind d = ExternalDiff"; cases "mutating_kind (di_Kind d)")
    (simp_all add: item_actions_cases mutating_kind_def eq_commute [of a])

lemma item_actions_ID: "a \<in> set (item_actions m i d) \<Longrightarrow> a_ID a = actionID i (di_Resource d)"
  unfolding in_item_actions using plan_mutation_Inr(2) [of m i d a] by (auto simp: validate_action_def)

lemma actionID_inject: "actionID i r = actionID j q \<longleftrightarrow> i = j \<and> r = q"
proof
  assume "actionID i r = actionID j q"
  then have "Itoa i @ CHR ''-'' # r = Itoa j @ CHR ''-'' # q" by (simp add: actionID_def)
  from separated_eq [OF this] show "i = j \<and> r = q" by simp
qed simp

lemma concat_singletons_distinct:
  assumes "\<And>j d. (j, d) \<in> set (enumerate i ds) \<Longrightarrow> distinct (map g (f j d))"
    and "\<And>j k d e x y. x \<in> set (f j d) \<Longrightarrow> y \<in> set (f k e) \<Longrightarrow> g x = g y \<Longrightarrow> j = k"
  shows "distinct (map g (concat (map (\<lambda>(j, d). f j d) (enumerate i ds))))"
  using assms(1)
proof (induction ds arbitrary: i)
  case (Cons d ds)
  have "distinct (map g (f i d))" using Cons.prems by simp
  moreover have "distinct (map g (concat (map (\<lambda>(j, d). f j d) (enumerate (Suc i) ds))))"
    using Cons by simp
  moreover have "set (map g (f i d)) \<inter> set (map g (concat (map (\<lambda>(j, d). f j d) (enumerate (Suc i) ds)))) = {}"
  proof -
    have False if xy: "x \<in> set (f i d)" "(j, e) \<in> set (enumerate (Suc i) ds)" "y \<in> set (f j e)" "g x = g y"
      for x y j e
      using assms(2) [OF xy(1) xy(3) xy(4)] xy(2) by (simp add: in_set_enumerate_eq)
    then show ?thesis by fastforce
  qed
  ultimately show ?case by simp
qed simp

text \<open>
  C9. Plan soundness. Every action of a plan stems from one diff item, carries that item's position
  and resource in its ID, and is either the read-only validation of an EXTERNAL item or a mutation
  of an OWNED resource that satisfies the typed-spec contract. So every planned action passes the
  contract, and nothing is planned for a resource that is not owned.
\<close>

theorem plan_actions_sound:
  assumes "a \<in> set (p_Actions (BuildPlan m))"
  shows "\<exists>i < length (m_Diff m).
           a_ID a = actionID i (di_Resource (m_Diff m ! i)) \<and> a_Resource a = di_Resource (m_Diff m ! i)
           \<and> ValidateActionTypedSpec a = None
           \<and> (di_Kind (m_Diff m ! i) = ExternalDiff \<and> a_Kind a = ActionValidate \<and> a_Spec a = None
              \<or> mutating_kind (di_Kind (m_Diff m ! i)) \<and> di_Ownership (m_Diff m ! i) = Owned
                \<and> a_Ownership a = Owned
                \<and> a_Kind a = actionForResource (a_Resource a) (di_Kind (m_Diff m ! i)))"
proof -
  from assms obtain i where i: "i < length (m_Diff m)" and a: "a \<in> set (item_actions m i (m_Diff m ! i))"
    by (auto simp: in_BuildPlan_Actions)
  consider "di_Kind (m_Diff m ! i) = ExternalDiff" "a = validate_action i (m_Diff m ! i)"
    | "mutating_kind (di_Kind (m_Diff m ! i))" "plan_mutation m i (m_Diff m ! i) = Inr a"
    using a unfolding in_item_actions by blast
  then show ?thesis
  proof cases
    case 1
    then show ?thesis
      using i by (intro exI [of _ i]) (simp add: validate_action_def ValidateActionTypedSpec_def)
  next
    case 2
    then show ?thesis
      using i by (intro exI [of _ i]) (simp add: plan_mutation_Inr [OF 2(2)])
  qed
qed

text \<open>
  The identifiers of a plan's actions are pairwise distinct, whatever the diff: no two actions
  share a backup slot, a journal record or a registry entry.
\<close>

lemma plan_action_ids_distinct: "distinct (map a_ID (p_Actions (BuildPlan m)))"
  unfolding BuildPlan_Actions
proof (rule concat_singletons_distinct)
  fix j d assume "(j, d) \<in> set (enumerate 0 (m_Diff m))"
  show "distinct (map a_ID (item_actions m j d))"
    using item_actions_short [of m j d] by (cases "item_actions m j d") auto
next
  fix j k d e x y
  assume "x \<in> set (item_actions m j d)" "y \<in> set (item_actions m k e)" "a_ID x = a_ID y"
  then show "j = k" by (simp add: item_actions_ID actionID_inject)
qed

text \<open>
  Plan completeness. A plan that is not blocked has left out no change: every CREATE, UPDATE or
  REMOVE item of the diff has its action in the plan, and no item is a conflict, unknown or
  unsupported.
\<close>

lemma plan_not_blocked_complete:
  assumes "\<not> p_Blocked (BuildPlan m)" and "d \<in> set (m_Diff m)"
  shows "di_Kind d \<notin> {ConflictDiff, UnknownDiff, Unsupported}
         \<and> (mutating_kind (di_Kind d) \<longrightarrow>
              (\<exists>a \<in> set (p_Actions (BuildPlan m)). a_Resource a = di_Resource d
                 \<and> a_Kind a = actionForResource (di_Resource d) (di_Kind d)))"
proof -
  from assms(2) obtain i where i: "i < length (m_Diff m)" "m_Diff m ! i = d"
    by (auto simp: in_set_conv_nth)
  with assms(1) have nb: "item_blocks m i d = []" by (auto simp: BuildPlan_Blocked)
  have "\<exists>a \<in> set (p_Actions (BuildPlan m)). a_Resource a = di_Resource d
          \<and> a_Kind a = actionForResource (di_Resource d) (di_Kind d)" if mut: "mutating_kind (di_Kind d)"
  proof -
    obtain a where a: "plan_mutation m i d = Inr a"
      using nb mut by (cases "plan_mutation m i d") (simp_all add: item_blocks_cases split: if_splits)
    have "di_Kind d \<noteq> ExternalDiff" using mut by (auto simp: mutating_kind_def)
    then have "a \<in> set (item_actions m i (m_Diff m ! i))"
      using a mut i by (simp add: item_actions_cases)
    then have "a \<in> set (p_Actions (BuildPlan m))" using i in_BuildPlan_Actions by blast
    with plan_mutation_Inr [OF a] show ?thesis by auto
  qed
  with nb show ?thesis by (auto simp: item_blocks_cases split: if_splits)
qed

subsection \<open>What the typed specs say\<close>

lemma file_prefix_facts:
  "HasPrefix (''file.'' @ p) ''file.''" "\<not> HasPrefix (''file.'' @ p) ''service.''"
  "''file.'' @ p \<noteq> ''ssh.port''" "''file.'' @ p \<noteq> ''ssh.password_authentication''"
  by simp_all

lemma plan_mutation_file:
  assumes "di_Resource d = ''file.'' @ p" and "mutating_kind (di_Kind d)"
  shows "plan_mutation m i d = Inr a \<Longrightarrow>
     \<exists>fd. find (\<lambda>fd. fd_Path fd = p) (des_Files (m_Desired m)) = Some fd
          \<and> a_Spec a = Some (empty_ActionSpec\<lparr>asp_File := Some
              \<lparr>fas_Path = p, fas_Content = fd_Content fd, fas_Mode = effectiveMode (fd_Mode fd),
               fas_Delete = False, fas_ValidatePath = ''''\<rparr>\<rparr>)"
  using assms
  by (auto simp: plan_mutation_def Let_def file_prefix_facts fileSpec_def spec_field_missing_def
      TrimPrefix_def dest: find_matches_name split: if_splits option.splits)

lemma diff_file_item:
  assumes "d \<in> set (diff_file sha m fd)" and "mutating_kind (di_Kind d)"
  shows "di_Resource d = ''file.'' @ fd_Path fd" "fd_Content fd \<noteq> ''''" "fd_Path fd \<noteq> ''''"
    "ownershipOf m (''file.'' @ fd_Path fd) \<noteq> UnknownOwner"
  using assms
  by (auto simp: diff_file_def Let_def add_item_def mutating_kind_def split: if_splits option.splits)

lemma other_diffs_not_file:
  assumes "d \<in> set (diff_ssh m @ diff_mihomo m @ diff_mieru m @ concat (map (diff_service m) sds))"
  shows "di_Resource d \<noteq> ''file.'' @ p"
  using assms
  by (auto simp: diff_parts Let_def add_item_def split: if_splits option.splits)

lemma find_distinct_key:
  assumes "distinct (map f xs)" and "x \<in> set xs"
  shows "find (\<lambda>y. f y = f x) xs = Some x"
  using assms by (induction xs) (auto simp: image_iff)

text \<open>
  What the operator declared is what a file action writes. If the declared files have pairwise
  distinct paths, every planned file action carries the content of the declaration of that path,
  with the declared mode or 0600, and never a deletion.
\<close>

lemma planned_file_content:
  assumes "distinct (map fd_Path (des_Files (m_Desired m)))"
    and "m_Diff m = BuildDiff sha m"
    and "a \<in> set (p_Actions (BuildPlan m))" and "a_Resource a = ''file.'' @ p"
    and "a_Kind a \<noteq> ActionValidate"
  shows "\<exists>fd \<in> set (des_Files (m_Desired m)). fd_Path fd = p \<and> fd_Content fd \<noteq> ''''
           \<and> a_Spec a = Some (empty_ActionSpec\<lparr>asp_File := Some
               \<lparr>fas_Path = p, fas_Content = fd_Content fd, fas_Mode = effectiveMode (fd_Mode fd),
                fas_Delete = False, fas_ValidatePath = ''''\<rparr>\<rparr>)"
proof -
  from assms(3) obtain i where i: "i < length (m_Diff m)" and a: "a \<in> set (item_actions m i (m_Diff m ! i))"
    by (auto simp: in_BuildPlan_Actions)
  let ?d = "m_Diff m ! i"
  from a assms(5) have mut: "mutating_kind (di_Kind ?d)" and pm: "plan_mutation m i ?d = Inr a"
    unfolding in_item_actions by (auto simp: validate_action_def)
  have res: "di_Resource ?d = ''file.'' @ p" using plan_mutation_Inr(3) [OF pm] assms(4) by simp
  have "?d \<in> set (BuildDiff sha m)" using i assms(2) by (metis nth_mem)
  then obtain fd where fd: "fd \<in> set (des_Files (m_Desired m))" and d: "?d \<in> set (diff_file sha m fd)"
    using other_diffs_not_file [of ?d m "des_Services (m_Desired m)" p] res
    by (auto simp: BuildDiff_def)
  have p: "fd_Path fd = p" using diff_file_item(1) [OF d mut] res by simp
  have "find (\<lambda>x. fd_Path x = p) (des_Files (m_Desired m)) = Some fd"
    using find_distinct_key [OF assms(1) fd] p by simp
  with plan_mutation_file [OF res mut pm] diff_file_item(2) [OF d mut] fd p
  show ?thesis by auto
qed

text \<open>
  A port migration never drops the listener in use. Whenever exactly one port is in use, the
  drop-in the plan writes names that port before the new one (in the socket unit after the reset
  line), the action requires both listeners afterwards, and the new port is a valid one.
\<close>

lemma ssh_transition_keeps_old_listener:
  assumes "sshPortSpec m d = Some s" and "sec_SSHPorts (act_Security (m_Actual m)) = [old]" and "0 < old"
  shows "\<exists>t. asp_SSH s = Some t \<and> ss_OldPort t = old \<and> ss_RequireOldListener t \<and> ss_RequireNewListener t
           \<and> di_Desired d = VInt (ss_NewPort t) \<and> 0 < ss_NewPort t \<and> ss_NewPort t \<le> 65535
           \<and> (old \<noteq> ss_NewPort t \<longrightarrow>
                suffix ((if ss_SocketActivation t then ''ListenStream='' else ''Port '') @ Itoa (nat old) @ nl
                        @ (if ss_SocketActivation t then ''ListenStream='' else ''Port '')
                        @ Itoa (nat (ss_NewPort t)) @ nl) (ss_ConfigContent t))"
  using assms
  by (auto simp: sshPortSpec_def Let_def suffix_def split: diff_value.splits if_splits)

text \<open>
  A request to stop a unit plans a restart. For an owned, discovered, active unit whose desired
  state is inactive, the plan's action restarts it and expects it active: the desired value never
  reaches the typed service action.
\<close>

lemma stop_request_plans_restart:
  assumes "svd_Name sd \<noteq> ''''" and "svd_Active sd = Some False"
    and "find (\<lambda>a. sva_Name a = svd_Name sd) (act_Services (m_Actual m)) = Some sva" and "sva_Active sva"
    and "ownershipOf m (''service.'' @ svd_Name sd) = Owned"
    and "m_Diff m = diff_service m sd"
  shows "\<exists>a t. p_Actions (BuildPlan m) = [a] \<and> \<not> p_Blocked (BuildPlan m)
           \<and> a_Spec a = Some (empty_ActionSpec\<lparr>asp_Service := Some t\<rparr>)
           \<and> svs_Name t = svd_Name sd \<and> svs_Operation t = ''restart'' \<and> svs_ExpectedState t = ''active''"
  using assms
  by (simp add: BuildPlan_def diff_service_def add_item_def plan_item_def plan_mutation_def Let_def
      spec_field_missing_def serviceSpec_def ValidateActionTypedSpec_def actionForResource_def
      multipleSpecs_def specPresent_def spec_count_def empty_ActionSpec_def empty_plan_def TrimPrefix_def)

subsection \<open>Convergence and preflight\<close>

text \<open>When a declaration asks nothing more of the machine, one predicate per section of the desired state.\<close>

definition file_converged :: "(string \<Rightarrow> string) \<Rightarrow> 'ev Model \<Rightarrow> FileDesired \<Rightarrow> bool" where
  "file_converged sha m fd \<longleftrightarrow>
     fd_Path fd = '''' \<or> fd_Content fd = ''''
     \<or> ownershipOf m (''file.'' @ fd_Path fd) \<notin> {UnknownOwner, External}
       \<and> (case find (\<lambda>a. fa_Path a = fd_Path fd) (act_Files (m_Actual m)) of
            None \<Rightarrow> False
          | Some f \<Rightarrow> fa_Exists f \<and> fa_SHA256 f = sha (fd_Content fd) \<and> fa_Mode f = effectiveMode (fd_Mode fd))"

definition service_converged :: "'ev Model \<Rightarrow> ServiceDesired \<Rightarrow> bool" where
  "service_converged m sd \<longleftrightarrow>
     svd_Name sd = '''' \<or> svd_Active sd = None
     \<or> (case find (\<lambda>a. sva_Name a = svd_Name sd) (act_Services (m_Actual m)) of
          None \<Rightarrow> False | Some a \<Rightarrow> svd_Active sd = Some (sva_Active a))"

definition ssh_converged :: "'ev Model \<Rightarrow> bool" where
  "ssh_converged m \<longleftrightarrow>
     (case des_SSH (m_Desired m) of None \<Rightarrow> True
      | Some s \<Rightarrow>
          (case ssd_Port s of None \<Rightarrow> True | Some p \<Rightarrow> sec_SSHPorts (act_Security (m_Actual m)) = [p])
          \<and> (case (ssd_PasswordAuthentication s, sec_PasswordAuthentication (act_Security (m_Actual m))) of
               (Some want, Some have) \<Rightarrow> want = have | _ \<Rightarrow> True))"

lemma quiet_item:
  "item_actions m i d = [] \<and> item_blocks m i d = [] \<longleftrightarrow>
     di_Kind d \<notin> {ExternalDiff, ConflictDiff, UnknownDiff, Unsupported} \<and> \<not> mutating_kind (di_Kind d)"
  by (auto simp: item_actions_cases item_blocks_cases mutating_kind_def split: sum.splits)

lemma quiet_plan:
  "p_Actions (BuildPlan m) = [] \<and> \<not> p_Blocked (BuildPlan m) \<longleftrightarrow>
     (\<forall>d \<in> set (m_Diff m).
        di_Kind d \<notin> {ExternalDiff, ConflictDiff, UnknownDiff, Unsupported} \<and> \<not> mutating_kind (di_Kind d))"
proof -
  have "p_Actions (BuildPlan m) = [] \<longleftrightarrow> (\<forall>i < length (m_Diff m). item_actions m i (m_Diff m ! i) = [])"
    using in_BuildPlan_Actions [of _ m] by (metis last_in_set list.set_intros(1) neq_Nil_conv empty_iff empty_set)
  then have "p_Actions (BuildPlan m) = [] \<and> \<not> p_Blocked (BuildPlan m) \<longleftrightarrow>
      (\<forall>i < length (m_Diff m). item_actions m i (m_Diff m ! i) = [] \<and> item_blocks m i (m_Diff m ! i) = [])"
    by (auto simp: BuildPlan_Blocked)
  then show ?thesis by (simp only: quiet_item all_set_conv_all_nth)
qed

abbreviation quiet_diff :: "DiffItem list \<Rightarrow> bool" where
  "quiet_diff ds \<equiv> \<forall>d \<in> set ds.
     di_Kind d \<notin> {ExternalDiff, ConflictDiff, UnknownDiff, Unsupported} \<and> \<not> mutating_kind (di_Kind d)"

lemma add_item_sel: "di_Kind (add_item r c w k own e) = k" "di_Resource (add_item r c w k own e) = r"
  by (simp_all add: add_item_def)

lemma quiet_file: "quiet_diff (diff_file sha m fd) \<longleftrightarrow> file_converged sha m fd"
  by (cases "find (\<lambda>a. fa_Path a = fd_Path fd) (act_Files (m_Actual m))")
    (simp_all add: diff_file_def file_converged_def Let_def add_item_sel mutating_kind_def)

lemma quiet_service: "quiet_diff (diff_service m sd) \<longleftrightarrow> service_converged m sd"
  by (cases "find (\<lambda>a. sva_Name a = svd_Name sd) (act_Services (m_Actual m))"; cases "svd_Active sd")
    (simp_all add: diff_service_def service_converged_def Let_def add_item_sel mutating_kind_def)

lemma quiet_ssh: "quiet_diff (diff_ssh m) \<longleftrightarrow> ssh_converged m"
proof (cases "des_SSH (m_Desired m)")
  case (Some s)
  then show ?thesis
    by (cases "ssd_Port s"; cases "ssd_PasswordAuthentication s";
        cases "sec_PasswordAuthentication (act_Security (m_Actual m))")
      (simp_all add: diff_ssh_def ssh_converged_def diff_ssh_port_def diff_ssh_password_def Let_def add_item_sel
        mutating_kind_def)
qed (simp add: diff_ssh_def ssh_converged_def)

lemma quiet_mihomo:
  "quiet_diff (diff_mihomo m) \<longleftrightarrow>
     (\<forall>b. des_Mihomo (m_Desired m) = Some (Some b) \<longrightarrow> \<not> b \<and> \<not> gw_MihomoInstalled (act_Gateway (m_Actual m)))"
  by (cases "des_Mihomo (m_Desired m)"; cases "the (des_Mihomo (m_Desired m))")
    (simp_all add: diff_mihomo_def Let_def add_item_sel mutating_kind_def)

lemma quiet_mieru:
  "quiet_diff (diff_mieru m) \<longleftrightarrow>
     (\<forall>b. des_Mieru (m_Desired m) = Some (Some b) \<longrightarrow> b = gw_MieruActive (act_Gateway (m_Actual m)))"
  by (cases "des_Mieru (m_Desired m)"; cases "the (des_Mieru (m_Desired m))")
    (simp_all add: diff_mieru_def Let_def add_item_sel mutating_kind_def)

text \<open>
  C10. Convergence, exactly. The plan for a freshly computed diff has no action and is not blocked if
  and only if: every declared file (with a path and a content; others are ignored) is known to be
  neither externally owned nor of unknown ownership and has the declared content and mode, every
  declared service was discovered in its declared state, the SSH port and, where it was discovered, the
  password setting match, Mieru is as declared, and no Mihomo integration is declared, or its absence
  is declared and Mihomo is not installed. A machine on which Mihomo is declared, installed and active
  is the exception to convergence: its plan is never empty and unblocked.
\<close>

theorem converged_plan_empty:
  assumes "m_Diff m = BuildDiff sha m"
  shows "p_Actions (BuildPlan m) = [] \<and> \<not> p_Blocked (BuildPlan m) \<longleftrightarrow>
           (\<forall>fd \<in> set (des_Files (m_Desired m)). file_converged sha m fd)
           \<and> (\<forall>sd \<in> set (des_Services (m_Desired m)). service_converged m sd)
           \<and> ssh_converged m
           \<and> (\<forall>b. des_Mieru (m_Desired m) = Some (Some b) \<longrightarrow> b = gw_MieruActive (act_Gateway (m_Actual m)))
           \<and> (\<forall>b. des_Mihomo (m_Desired m) = Some (Some b) \<longrightarrow>
                  \<not> b \<and> \<not> gw_MihomoInstalled (act_Gateway (m_Actual m)))"
proof -
  have "quiet_diff (m_Diff m) \<longleftrightarrow>
      quiet_diff (diff_ssh m) \<and> quiet_diff (diff_mihomo m) \<and> quiet_diff (diff_mieru m)
      \<and> (\<forall>sd \<in> set (des_Services (m_Desired m)). quiet_diff (diff_service m sd))
      \<and> (\<forall>fd \<in> set (des_Files (m_Desired m)). quiet_diff (diff_file sha m fd))"
    unfolding assms BuildDiff_def by (simp only: set_append set_concat set_map) blast
  then show ?thesis unfolding quiet_plan quiet_file quiet_service quiet_ssh quiet_mihomo quiet_mieru by blast
qed

text \<open>
  A declared Mihomo integration never converges: with Mihomo installed and active the diff still holds
  an UPDATE of \<open>mihomo.integration\<close>, which the planner has no typed action for, so the plan is blocked.
\<close>

lemma declared_mihomo_blocks:
  assumes "m_Diff m = BuildDiff sha m" and "des_Mihomo (m_Desired m) = Some (Some True)"
  shows "p_Blocked (BuildPlan m)"
proof -
  have "\<forall>d \<in> set (diff_mihomo m). di_Resource d = ''mihomo.integration''
      \<and> (di_Kind d = ConflictDiff \<or> di_Kind d = CreateDiff \<or> di_Kind d = UpdateDiff)" "diff_mihomo m \<noteq> []"
    using assms(2) by (simp_all add: diff_mihomo_def Let_def add_item_sel)
  then obtain d where d: "d \<in> set (diff_mihomo m)" "di_Resource d = ''mihomo.integration''"
    "di_Kind d = ConflictDiff \<or> di_Kind d = CreateDiff \<or> di_Kind d = UpdateDiff"
    by (meson last_in_set)
  then have "d \<in> set (m_Diff m)" using assms(1) by (auto simp: BuildDiff_def)
  then obtain i where i: "i < length (m_Diff m)" "m_Diff m ! i = d" by (auto simp: in_set_conv_nth)
  have "plan_mutation m i d \<noteq> Inr a" if "di_Kind d = CreateDiff \<or> di_Kind d = UpdateDiff" for a
    using that d(2)
    by (auto simp: plan_mutation_def Let_def actionForResource_def ValidateActionTypedSpec_def multipleSpecs_def
        specPresent_def)
  then have "item_blocks m i d \<noteq> []"
    using d(3) by (cases "plan_mutation m i d") (auto simp: item_blocks_cases mutating_kind_def)
  with i show ?thesis unfolding BuildPlan_Blocked by blast
qed

lemma pf_check_fold_status:
  "pf_Status (fold pf_check cs pf) = PreflightReady \<longleftrightarrow>
     pf_Status pf = PreflightReady \<and> (\<forall>c \<in> set cs. pfc_Critical c \<longrightarrow> pfc_OK c)"
  by (induction cs arbitrary: pf) (auto simp: pf_check_def Let_def)

text \<open>
  Preflight is READY exactly when the process is root, the OS, the default route and an SSH
  listener were discovered, the plan is not blocked, the capabilities its changes need are there and
  no constraint blocks. A missing IPv4 address alone never blocks.
\<close>

lemma preflight_ready_iff:
  "pf_Status (BuildPreflightFor m p isRoot) = PreflightReady \<longleftrightarrow>
     isRoot \<and> sys_OS (act_System (m_Actual m)) \<noteq> ''''
     \<and> net_ExternalInterface (act_Network (m_Actual m)) \<noteq> ''''
     \<and> net_DefaultGateway (act_Network (m_Actual m)) \<noteq> ''''
     \<and> sec_SSHPorts (act_Security (m_Actual m)) \<noteq> []
     \<and> \<not> p_Blocked p \<and> capabilitiesForPlan m \<and> \<not> hasBlockingConstraints m"
  unfolding BuildPreflightFor_def pf_check_fold_status by (auto simp: preflight_checks_def Let_def)

subsection \<open>A sample model\<close>

definition ex_Actual :: Actual where
  "ex_Actual =
     \<lparr>act_System = \<lparr>sys_OS = ''debian'', sys_Kernel = ''6.1'', sys_Architecture = ''x86_64'',
        sys_MachineID = ''0123456789abcdef0123456789abcdef'', sys_MachineIDStatus = ''present''\<rparr>,
      act_Network = \<lparr>net_ExternalInterface = ''eth0'', net_DefaultGateway = ''192.0.2.1'',
        net_IPv4 = True, net_IPv6 = False\<rparr>,
      act_Security = \<lparr>sec_SSHPorts = [22], sec_SSHArchitecture = ''service'', sec_PasswordAuthentication = None\<rparr>,
      act_Containers = \<lparr>con_DockerInstalled = False, con_DockerActive = False\<rparr>,
      act_Services = [\<lparr>sva_Name = ''mita.service'', sva_Enabled = True, sva_Active = True, sva_SubState = ''running''\<rparr>],
      act_Files = [\<lparr>fa_Path = ''/etc/vps-gateway/a'', fa_Exists = False, fa_SHA256 = '''', fa_Mode = 0\<rparr>,
                   \<lparr>fa_Path = ''/etc/vps-gateway/b'', fa_Exists = True, fa_SHA256 = ''on'', fa_Mode = 384\<rparr>],
      act_Gateway = \<lparr>gw_MihomoInstalled = False, gw_MihomoActive = False, gw_MieruInstalled = True,
        gw_MieruActive = True, gw_WireGuardInstalled = False, gw_AmneziaInstalled = False\<rparr>\<rparr>"

definition ex_model :: "FileDesired list \<Rightarrow> ServiceDesired list \<Rightarrow> unit Model" where
  "ex_model fds sds =
     \<lparr>m_SchemaVersion = SchemaVersion, m_BootstrapVersion = '''', m_UpdatedAt = 1, m_Profile = ''gateway'',
      m_Actual = ex_Actual,
      m_Desired = empty_Desired\<lparr>des_Files := fds, des_Services := sds\<rparr>,
      m_Ownership = (\<lambda>r. if HasPrefix r ''file.'' \<or> HasPrefix r ''service.'' then Some Owned else None),
      m_Capabilities = \<lparr>cap_Systemd = True, cap_Docker = False, cap_NFTables = True, cap_IPTables = True,
        cap_UFW = False, cap_WireGuard = False\<rparr>,
      m_Constraints = [], m_Diff = [], m_Status = StatusOK, m_Evidence = []\<rparr>"

abbreviation (input) ex_file_a :: FileDesired where
  "ex_file_a \<equiv> \<lparr>fd_Path = ''/etc/vps-gateway/a'', fd_Content = ''x'', fd_Mode = 0\<rparr>"
abbreviation (input) ex_file_b :: FileDesired where
  "ex_file_b \<equiv> \<lparr>fd_Path = ''/etc/vps-gateway/b'', fd_Content = ''on'', fd_Mode = 0\<rparr>"
abbreviation (input) ex_stop :: ServiceDesired where
  "ex_stop \<equiv> \<lparr>svd_Name = ''mita.service'', svd_Active = Some False\<rparr>"

lemmas ex_model_eval = ex_model_def ex_Actual_def empty_Desired_def BuildDiff_def diff_parts add_item_def
  ownershipOf_def effectiveMode_def BuildPlan_def plan_item_def plan_mutation_def spec_field_missing_def
  fileSpec_def serviceSpec_def ValidateActionTypedSpec_def actionForResource_def riskForResource_def
  multipleSpecs_def specPresent_def spec_count_def empty_ActionSpec_def empty_plan_def TrimPrefix_def
  Let_def

definition ex_planned :: "unit Model" where
  "ex_planned = (let m = ex_model [ex_file_a] [] in m\<lparr>m_Diff := BuildDiff (\<lambda>c. c) m\<rparr>)"

definition ex_action :: Action where
  "ex_action =
     \<lparr>a_ID = actionID 0 ''file./etc/vps-gateway/a'', a_Resource = ''file./etc/vps-gateway/a'',
      a_Kind = ActionCreateFile, a_Ownership = Owned, a_Why = ''file does not exist and is desired'',
      a_Dependencies = [], a_Risk = RiskMedium,
      a_Validation = ''re-discover effective state and validate result'',
      a_Rollback = ''restore transaction backup and re-validate recovery'',
      a_Spec = Some (empty_ActionSpec\<lparr>asp_File := Some \<lparr>fas_Path = ''/etc/vps-gateway/a'', fas_Content = ''x'',
        fas_Mode = 384, fas_Delete = False, fas_ValidatePath = ''''\<rparr>\<rparr>)\<rparr>"

lemma ex_planned_Actions: "p_Actions (BuildPlan ex_planned) = [ex_action]"
  by (simp add: ex_planned_def ex_action_def ex_model_eval)

lemma ex_planned_diff: "m_Diff ex_planned = BuildDiff (\<lambda>c. c) ex_planned"
  by (simp add: ex_planned_def ex_model_eval)

theorem plan_actions_sound_witness:
  "\<exists>i < length (m_Diff ex_planned). a_ID ex_action = actionID i (di_Resource (m_Diff ex_planned ! i))"
  using plan_actions_sound [of ex_action ex_planned] by (auto simp: ex_planned_Actions)

lemma plan_not_blocked_complete_witness:
  "\<exists>a \<in> set (p_Actions (BuildPlan ex_planned)). a_Kind a = ActionCreateFile"
proof -
  let ?d = "add_item ''file./etc/vps-gateway/a'' VNil (VString ''x'') CreateDiff Owned
              ''file does not exist and is desired''"
  have "\<not> p_Blocked (BuildPlan ex_planned)" "?d \<in> set (m_Diff ex_planned)"
    by (simp_all add: ex_planned_def ex_model_eval)
  from plan_not_blocked_complete [OF this] show ?thesis
    by (auto simp: add_item_def mutating_kind_def actionForResource_def)
qed

lemma planned_file_content_witness:
  "\<exists>fd \<in> set [ex_file_a]. a_Spec ex_action = Some (empty_ActionSpec\<lparr>asp_File := Some
     \<lparr>fas_Path = ''/etc/vps-gateway/a'', fas_Content = fd_Content fd, fas_Mode = effectiveMode (fd_Mode fd),
      fas_Delete = False, fas_ValidatePath = ''''\<rparr>\<rparr>)"
proof -
  have files: "des_Files (m_Desired ex_planned) = [ex_file_a]"
    by (simp add: ex_planned_def ex_model_def Let_def)
  have "distinct (map fd_Path (des_Files (m_Desired ex_planned)))" by (simp add: files)
  moreover have "ex_action \<in> set (p_Actions (BuildPlan ex_planned))" by (simp add: ex_planned_Actions)
  moreover have "a_Resource ex_action = ''file.'' @ ''/etc/vps-gateway/a''" "a_Kind ex_action \<noteq> ActionValidate"
    by (simp_all add: ex_action_def)
  ultimately show ?thesis
    using planned_file_content [of ex_planned "\<lambda>c. c" ex_action "''/etc/vps-gateway/a''"]
    by (simp add: ex_planned_diff files)
qed

lemma ssh_transition_keeps_old_listener_witness:
  "suffix (''Port 22'' @ nl @ ''Port 2222'' @ nl)
     (ss_ConfigContent (the (asp_SSH (the (sshPortSpec (ex_model [] [])
        (add_item ''ssh.port'' VNil (VInt 2222) UpdateDiff Owned ''''))))))"
proof -
  let ?d = "add_item ''ssh.port'' VNil (VInt 2222) UpdateDiff Owned ''''"
  have i: "Itoa 22 = ''22''" "Itoa 2222 = ''2222''" by code_simp+
  have ns: "string_contains (ToLower ''service'') ''socket'' = False" by code_simp
  have p: "sec_SSHPorts (act_Security (m_Actual (ex_model [] []))) = [22]"
    by (simp add: ex_model_def ex_Actual_def)
  have a: "sec_SSHArchitecture (act_Security (m_Actual (ex_model [] []))) = ''service''"
    by (simp add: ex_model_def ex_Actual_def)
  have "sshPortSpec (ex_model [] []) ?d \<noteq> None" by (simp add: sshPortSpec_def add_item_def Let_def)
  then obtain s where s: "sshPortSpec (ex_model [] []) ?d = Some s" by blast
  have "ss_SocketActivation (the (asp_SSH s)) = False" "ss_NewPort (the (asp_SSH s)) = 2222"
    using s by (auto simp: sshPortSpec_def add_item_def Let_def a ns)
  with ssh_transition_keeps_old_listener [OF s p] s show ?thesis by (auto simp: i)
qed

definition ex_stopping :: "unit Model" where
  "ex_stopping = (let m = ex_model [] [ex_stop] in m\<lparr>m_Diff := diff_service m ex_stop\<rparr>)"

lemma stop_request_plans_restart_witness:
  "\<exists>a t. p_Actions (BuildPlan ex_stopping) = [a]
     \<and> a_Spec a = Some (empty_ActionSpec\<lparr>asp_Service := Some t\<rparr>) \<and> svs_Operation t = ''restart''"
proof -
  have "find (\<lambda>a. sva_Name a = ''mita.service'') (act_Services (m_Actual ex_stopping)) =
      Some \<lparr>sva_Name = ''mita.service'', sva_Enabled = True, sva_Active = True, sva_SubState = ''running''\<rparr>"
    and "ownershipOf ex_stopping (''service.'' @ ''mita.service'') = Owned"
    and "m_Diff ex_stopping = diff_service ex_stopping ex_stop"
    by (simp_all add: ex_stopping_def ex_model_eval)
  then show ?thesis
    using stop_request_plans_restart [of ex_stop ex_stopping] by auto
qed

definition ex_converged :: "unit Model" where
  "ex_converged = (let m = ex_model [ex_file_b] [] in m\<lparr>m_Diff := BuildDiff (\<lambda>c. c) m\<rparr>)"

theorem converged_plan_empty_witness: "p_Actions (BuildPlan ex_converged) = []"
  using converged_plan_empty [of ex_converged "\<lambda>c. c"]
  by (simp add: ex_converged_def ex_model_eval file_converged_def ssh_converged_def)

end
