(* ===== verification/Apply_Engine.thy ===== *)
theory Apply_Engine
  imports State_Plan
begin

text \<open>
  The transaction engine of \<open>internal/apply\<close> (\<open>engine.go\<close>, \<open>model.go\<close>, \<open>progress.go\<close>). The machine is
  an arbitrary state type \<open>'s\<close>; an executor is a record of the four interface methods as
  state transformers that also return Go's \<open>error\<close> (\<open>None\<close> is \<open>nil\<close>). The progress sink, when there is
  one, is a state transformer too (it writes the journal), and the clock reads the state.
  \<open>string(a.Kind)\<close> is passed as the kind itself.
\<close>

subsection \<open>Data (model.go, progress.go)\<close>

datatype ApplyStatus = StatusReady | StatusApplied | StatusRolledBack | StatusFailed | StatusBlocked

record ActionResult =
  ar_ActionID :: string
  ar_Resource :: string
  ar_Status :: string
  ar_Error :: string
  ar_RolledBack :: bool

record Transaction =
  t_ID :: string
  t_StartedAt :: time
  t_EndedAt :: time
  t_Status :: ApplyStatus
  t_Actions :: "ActionResult list"
  t_Error :: string

type_synonym 's step = "'s \<Rightarrow> string option \<times> 's"

record 's Executor =
  ex_Backup :: "string \<Rightarrow> string \<Rightarrow> 's step"
  ex_Apply :: "string \<Rightarrow> string \<Rightarrow> ActionKind \<Rightarrow> 's step"
  ex_Validate :: "string \<Rightarrow> string \<Rightarrow> 's step"
  ex_Rollback :: "string \<Rightarrow> string \<Rightarrow> 's step"

datatype ProgressEvent = ProgressApplied | ProgressApplyFailed | ProgressBackupFailed
  | ProgressValidationFailed | ProgressRolledBack | ProgressRollbackFailed

record 's Engine =
  eng_Executor :: "'s Executor option"
  eng_Now :: "'s \<Rightarrow> time"
  eng_ID :: "(time \<Rightarrow> string) option"
  eng_Progress :: "(ProgressEvent \<Rightarrow> string \<Rightarrow> 's step) option"

text \<open>The preflight gate: readiness and reasons.\<close>

record PreflightGate =
  pg_Ready :: bool
  pg_Reasons :: "string list"

subsection \<open>Rendering of block reasons\<close>

fun kind_string :: "ActionKind \<Rightarrow> string" where
  "kind_string ActionCreateFile = ''CREATE_FILE''"
| "kind_string ActionUpdateFile = ''UPDATE_FILE''"
| "kind_string ActionDeleteOwnedFile = ''DELETE_OWNED_FILE''"
| "kind_string ActionFirewall = ''FIREWALL''"
| "kind_string ActionRouting = ''ROUTING''"
| "kind_string ActionService = ''SERVICE''"
| "kind_string ActionSSH = ''SSH''"
| "kind_string ActionInstaller = ''INSTALLER''"
| "kind_string ActionValidate = ''VALIDATE''"
| "kind_string ActionReboot = ''REBOOT''"
| "kind_string ActionSSHFinalize = ''SSH_FINALIZE''"
| "kind_string ActionMSSRule = ''MSS_RULE''"
| "kind_string (ActionOther s) = s"

fun diff_kind_string :: "DiffKind \<Rightarrow> string" where
  "diff_kind_string NoChange = ''NO_CHANGE''"
| "diff_kind_string CreateDiff = ''CREATE''"
| "diff_kind_string UpdateDiff = ''UPDATE''"
| "diff_kind_string RemoveDiff = ''REMOVE''"
| "diff_kind_string Skip = ''SKIP''"
| "diff_kind_string UnknownDiff = ''UNKNOWN''"
| "diff_kind_string ConflictDiff = ''CONFLICT''"
| "diff_kind_string Unsupported = ''UNSUPPORTED''"
| "diff_kind_string ExternalDiff = ''EXTERNAL''"
| "diff_kind_string (OtherDiff s) = s"

fun spec_field_string :: "SpecField \<Rightarrow> string" where
  "spec_field_string SpecNone = ''''"
| "spec_field_string SpecFile = ''file''"
| "spec_field_string SpecService = ''service''"
| "spec_field_string SpecSSH = ''ssh''"
| "spec_field_string SpecMSS = ''mss''"

fun typed_spec_error_string :: "typed_spec_error \<Rightarrow> string" where
  "typed_spec_error_string (UnknownActionKind k) =
     ''unknown action kind '' @ [CHR 0x22] @ kind_string k @ [CHR 0x22]"
| "typed_spec_error_string (ReservedKind k) =
     ''action kind '' @ kind_string k @ '' is reserved and has no typed spec in this build''"
| "typed_spec_error_string (ReadOnlyWithSpec k) =
     ''read-only action kind '' @ kind_string k @ '' must not carry a spec''"
| "typed_spec_error_string (MultipleSpecs k f) =
     ''action kind '' @ kind_string k @ '' carries multiple specs (want exactly one '' @ spec_field_string f @ '' spec)''"
| "typed_spec_error_string (MissingSpec k f) =
     ''action kind '' @ kind_string k @ '' requires a '' @ spec_field_string f @ '' spec''"

fun block_reason_string :: "block_reason \<Rightarrow> string" where
  "block_reason_string (NotOwned r) = r @ '': mutation requires OWNED resource''"
| "block_reason_string NoSafeTransition = ''ssh.port: unable to build safe typed transition''"
| "block_reason_string (NoTypedService r) = r @ '': unable to build typed service action''"
| "block_reason_string (NoTypedFile r) = r @ '': unable to build typed file action''"
| "block_reason_string (TypedSpecViolation r e) = r @ '': '' @ typed_spec_error_string e"
| "block_reason_string (DiffBlocks r k why) =
     r @ '': '' @ diff_kind_string k @ '' '' @ [CHR 0xE2, CHR 0x80, CHR 0x94] @ '' '' @ why"
| "block_reason_string (OtherBlock s) = s"

subsection \<open>The engine (engine.go)\<close>

definition progress :: "'s Engine \<Rightarrow> ProgressEvent \<Rightarrow> string \<Rightarrow> 's step" where
  "progress e ev i s = (case eng_Progress e of None \<Rightarrow> (None, s) | Some sink \<Rightarrow> sink ev i s)"

definition transactionID :: "time \<Rightarrow> (time \<Rightarrow> string) option \<Rightarrow> string" where
  "transactionID t custom = (case custom of Some f \<Rightarrow> f t | None \<Rightarrow> ''tx-'' @ Itoa (nat t))"

definition blocked :: "Transaction \<Rightarrow> string list \<Rightarrow> Transaction" where
  "blocked t reasons =
     (case reasons of [] \<Rightarrow> t\<lparr>t_Status := StatusBlocked\<rparr>
      | r # _ \<Rightarrow> t\<lparr>t_Status := StatusBlocked, t_Error := r\<rparr>)"

text \<open>The last index of an action result with the given ID.\<close>

fun actionIndex :: "ActionResult list \<Rightarrow> string \<Rightarrow> nat option" where
  "actionIndex [] i = None"
| "actionIndex (r # rs) i =
     (case actionIndex rs i of Some k \<Rightarrow> Some (Suc k)
      | None \<Rightarrow> if ar_ActionID r = i then Some 0 else None)"

text \<open>A result after its rollback succeeded: proven, or unproven when the durable event was lost.\<close>

definition rolled_back :: "ActionResult \<Rightarrow> string option \<Rightarrow> ActionResult" where
  "rolled_back r perr =
     (case perr of
        Some pmsg \<Rightarrow>
          r\<lparr>ar_RolledBack := False, ar_Status := ''ROLLBACK_FAILED'',
            ar_Error := ''rollback succeeded but journal progress persistence failed: '' @ pmsg\<rparr>
      | None \<Rightarrow> r\<lparr>ar_RolledBack := True, ar_Status := ''ROLLED_BACK''\<rparr>)"

definition rollback_one ::
  "'s Engine \<Rightarrow> 's Executor \<Rightarrow> string \<Rightarrow> ActionResult list \<times> 's \<Rightarrow> ActionResult list \<times> 's" where
  "rollback_one e ex i = (\<lambda>(rs, s).
     case actionIndex rs i of
       None \<Rightarrow> (rs, s)
     | Some k \<Rightarrow>
         let r = rs ! k; (err, s1) = ex_Rollback ex (ar_ActionID r) (ar_Resource r) s in
         case err of
           Some msg \<Rightarrow>
             (rs[k := r\<lparr>ar_Status := ''ROLLBACK_FAILED'', ar_Error := msg\<rparr>],
              snd (progress e ProgressRollbackFailed (ar_ActionID r) s1))
         | None \<Rightarrow>
             let (perr, s2) = progress e ProgressRolledBack (ar_ActionID r) s1 in
             (rs[k := rolled_back r perr], s2))"

definition rollback ::
  "'s Engine \<Rightarrow> 's Executor \<Rightarrow> ActionResult list \<Rightarrow> ActionResult list \<times> 's \<Rightarrow> ActionResult list \<times> 's" where
  "rollback e ex completed st = fold (\<lambda>c. rollback_one e ex (ar_ActionID c)) (rev completed) st"

text \<open>The rollback of the action whose apply failed, after the completed ones.\<close>

definition rollback_failed ::
  "'s Engine \<Rightarrow> 's Executor \<Rightarrow> Action \<Rightarrow> ActionResult \<Rightarrow> 's \<Rightarrow> ActionResult \<times> 's" where
  "rollback_failed e ex a result s =
     (let (rerr, s1) = ex_Rollback ex (a_ID a) (a_Resource a) s in
      case rerr of
        None \<Rightarrow>
          let (perr, s2) = progress e ProgressRolledBack (a_ID a) s1 in
          (rolled_back result perr, s2)
      | Some msg \<Rightarrow>
          (result\<lparr>ar_Error := ar_Error result @ ''; rollback: '' @ msg\<rparr>,
           snd (progress e ProgressRollbackFailed (a_ID a) s1)))"

text \<open>
  The loop over the plan's actions: \<open>rs\<close> is \<open>t.Actions\<close>, \<open>completed\<close> the list of the same name. The
  result is the final status, the error text, the action results and the machine.
\<close>

type_synonym 's outcome = "ApplyStatus \<times> string \<times> ActionResult list \<times> 's"

definition apply_step :: "'s Engine \<Rightarrow> 's Executor \<Rightarrow> Action \<Rightarrow> 's step" where
  "apply_step e ex a s =
     (let (err, s1) = ex_Apply ex (a_ID a) (a_Resource a) (a_Kind a) s in
      case err of
        Some m \<Rightarrow> (Some m, s1)
      | None \<Rightarrow>
          let (perr, s2) = progress e ProgressApplied (a_ID a) s1 in
          (case perr of
             Some m \<Rightarrow> (Some (''journal progress persistence failed after apply: '' @ m), s2)
           | None \<Rightarrow> (None, s2)))"

definition pending :: "Action \<Rightarrow> ActionResult" where
  "pending a = \<lparr>ar_ActionID = a_ID a, ar_Resource = a_Resource a, ar_Status = ''PENDING'', ar_Error = '''',
     ar_RolledBack = False\<rparr>"

definition fail_backup ::
  "'s Engine \<Rightarrow> 's Executor \<Rightarrow> Action \<Rightarrow> string \<Rightarrow> ActionResult list \<Rightarrow> ActionResult list \<Rightarrow> 's \<Rightarrow> 's outcome" where
  "fail_backup e ex a m rs completed s =
     (let s1 = snd (progress e ProgressBackupFailed (a_ID a) s);
          r = (pending a)\<lparr>ar_Status := ''BACKUP_FAILED'', ar_Error := m\<rparr>;
          (rs2, s2) = rollback e ex completed (rs @ [r], s1) in
      (StatusRolledBack, ''backup '' @ a_Resource a @ '': '' @ m, rs2, s2))"

definition fail_apply ::
  "'s Engine \<Rightarrow> 's Executor \<Rightarrow> Action \<Rightarrow> string \<Rightarrow> ActionResult list \<Rightarrow> ActionResult list \<Rightarrow> 's \<Rightarrow> 's outcome" where
  "fail_apply e ex a m rs completed s =
     (let s1 = snd (progress e ProgressApplyFailed (a_ID a) s);
          r = (pending a)\<lparr>ar_Status := ''APPLY_FAILED'', ar_Error := m\<rparr>;
          (rs2, s2) = rollback e ex completed (rs @ [r], s1);
          (r2, s3) = rollback_failed e ex a r s2 in
      (StatusRolledBack, ''apply '' @ a_Resource a @ '': '' @ m, rs2[length rs2 - 1 := r2], s3))"

definition fail_validate ::
  "'s Engine \<Rightarrow> 's Executor \<Rightarrow> Action \<Rightarrow> string \<Rightarrow> ActionResult list \<Rightarrow> ActionResult list \<Rightarrow> 's \<Rightarrow> 's outcome" where
  "fail_validate e ex a m rs completed s =
     (let r = (pending a)\<lparr>ar_Status := ''VALIDATION_FAILED'', ar_Error := m\<rparr>;
          s1 = snd (progress e ProgressValidationFailed (a_ID a) s);
          (rs2, s2) = rollback e ex (completed @ [r]) (rs @ [r], s1) in
      (StatusRolledBack, ''validate '' @ a_Resource a @ '': '' @ m, rs2, s2))"

fun run_actions ::
  "'s Engine \<Rightarrow> 's Executor \<Rightarrow> Action list \<Rightarrow> ActionResult list \<Rightarrow> ActionResult list \<Rightarrow> 's \<Rightarrow> 's outcome" where
  "run_actions e ex [] rs completed s = (StatusApplied, '''', rs, s)"
| "run_actions e ex (a # as) rs completed s =
     (case ex_Backup ex (a_ID a) (a_Resource a) s of
        (Some m, s1) \<Rightarrow> fail_backup e ex a m rs completed s1
      | (None, s1) \<Rightarrow>
          (case apply_step e ex a s1 of
             (Some m, s2) \<Rightarrow> fail_apply e ex a m rs completed s2
           | (None, s2) \<Rightarrow>
               (case ex_Validate ex (a_ID a) (a_Resource a) s2 of
                  (Some m, s3) \<Rightarrow> fail_validate e ex a m rs completed s3
                | (None, s3) \<Rightarrow>
                    let r = (pending a)\<lparr>ar_Status := ''APPLIED''\<rparr> in
                    run_actions e ex as (rs @ [r]) (completed @ [r]) s3)))"

definition Engine_Apply :: "'s Engine \<Rightarrow> Plan \<Rightarrow> PreflightGate option \<Rightarrow> 's \<Rightarrow> Transaction \<times> 's" where
  "Engine_Apply e p gate s =
     (let started = eng_Now e s;
          t = \<lparr>t_ID = transactionID started (eng_ID e), t_StartedAt = started, t_EndedAt = 0,
               t_Status = StatusReady, t_Actions = [], t_Error = ''''\<rparr> in
      if p_Blocked p then (blocked t (map block_reason_string (p_BlockReasons p)), s)
      else case gate of
        None \<Rightarrow> (blocked t [''no preflight gate configured''], s)
      | Some g \<Rightarrow>
          if \<not> pg_Ready g then (blocked t (pg_Reasons g), s)
          else case eng_Executor e of
            None \<Rightarrow> (t\<lparr>t_Status := StatusFailed, t_Error := ''no action executor configured'',
                       t_EndedAt := eng_Now e s\<rparr>, s)
          | Some ex \<Rightarrow>
              let (st, err, rs, s1) = run_actions e ex (p_Actions p) [] [] s in
              (t\<lparr>t_Status := st, t_Error := err, t_Actions := rs, t_EndedAt := eng_Now e s1\<rparr>, s1))"

subsection \<open>Facts about rollback\<close>

lemma rolled_back_frame [simp]:
  "ar_ActionID (rolled_back r perr) = ar_ActionID r" "ar_Resource (rolled_back r perr) = ar_Resource r"
  "ar_Status (rolled_back r perr) \<noteq> ''BACKUP_FAILED''"
  by (simp_all add: rolled_back_def split: option.split)

lemma actionIndex_Some: "actionIndex rs i = Some k \<Longrightarrow> k < length rs \<and> ar_ActionID (rs ! k) = i"
  by (induction rs arbitrary: k) (auto split: option.splits if_splits)

lemma actionIndex_None_iff: "actionIndex rs i = None \<longleftrightarrow> i \<notin> ar_ActionID ` set rs"
  by (induction rs) (auto split: option.splits)

lemma actionIndex_distinct:
  assumes "distinct (map ar_ActionID rs)" and "k < length rs"
  shows "actionIndex rs (ar_ActionID (rs ! k)) = Some k"
proof -
  obtain j where j: "actionIndex rs (ar_ActionID (rs ! k)) = Some j"
    using assms(2) by (cases "actionIndex rs (ar_ActionID (rs ! k))") (auto simp: actionIndex_None_iff)
  from actionIndex_Some [OF j] assms have "j = k" by (metis length_map nth_eq_iff_index_eq nth_map)
  with j show ?thesis by simp
qed

lemma map_update_same: "f x = f (xs ! k) \<Longrightarrow> map f (xs[k := x]) = map f xs"
  by (metis list_update_beyond list_update_id map_update not_le_imp_less nth_map)

lemma rollback_one_cases:
  obtains "actionIndex rs i = None" "rollback_one e ex i (rs, s) = (rs, s)"
  | k r' s' where "actionIndex rs i = Some k" "rollback_one e ex i (rs, s) = (rs[k := r'], s')"
      "ar_ActionID r' = ar_ActionID (rs ! k)" "ar_Resource r' = ar_Resource (rs ! k)"
proof (cases "actionIndex rs i")
  case None
  then show ?thesis using that(1) by (simp add: rollback_one_def)
next
  case (Some k)
  obtain err s1 where e1: "ex_Rollback ex (ar_ActionID (rs ! k)) (ar_Resource (rs ! k)) s = (err, s1)"
    by fastforce
  obtain perr s2 where e2: "progress e ProgressRolledBack (ar_ActionID (rs ! k)) s1 = (perr, s2)"
    by fastforce
  show ?thesis
  proof (cases err)
    case None
    then have "rollback_one e ex i (rs, s) = (rs[k := rolled_back (rs ! k) perr], s2)"
      by (simp add: rollback_one_def Some e1 e2 Let_def)
    then show ?thesis using that(2) [OF Some] by simp
  next
    case err: (Some m)
    then have "rollback_one e ex i (rs, s) =
        (rs[k := (rs ! k)\<lparr>ar_Status := ''ROLLBACK_FAILED'', ar_Error := m\<rparr>],
         snd (progress e ProgressRollbackFailed (ar_ActionID (rs ! k)) s1))"
      by (simp add: rollback_one_def Some e1 Let_def)
    then show ?thesis using that(2) [OF Some] by simp
  qed
qed

lemma rollback_one_frame [frame_simps]:
  "map ar_ActionID (fst (rollback_one e ex i st)) = map ar_ActionID (fst st)"
  "map ar_Resource (fst (rollback_one e ex i st)) = map ar_Resource (fst st)"
  "length (fst (rollback_one e ex i st)) = length (fst st)"
proof -
  obtain rs s where st: "st = (rs, s)" by (cases st)
  have "map ar_ActionID (fst (rollback_one e ex i (rs, s))) = map ar_ActionID rs
      \<and> map ar_Resource (fst (rollback_one e ex i (rs, s))) = map ar_Resource rs
      \<and> length (fst (rollback_one e ex i (rs, s))) = length rs"
  proof (cases rule: rollback_one_cases [where rs = rs and i = i and e = e and ex = ex and s = s])
    case 1
    then show ?thesis by simp
  next
    case (2 k r' s')
    then show ?thesis by (simp add: map_update_same)
  qed
  then show "map ar_ActionID (fst (rollback_one e ex i st)) = map ar_ActionID (fst st)"
    "map ar_Resource (fst (rollback_one e ex i st)) = map ar_Resource (fst st)"
    "length (fst (rollback_one e ex i st)) = length (fst st)"
    by (simp_all add: st)
qed

lemma rollback_Nil [simp]: "rollback e ex [] st = st"
  by (simp add: rollback_def)

lemma rollback_snoc:
  "rollback e ex (cs @ [c]) st = rollback e ex cs (rollback_one e ex (ar_ActionID c) st)"
  by (simp add: rollback_def)

lemma rollback_frame [frame_simps]:
  "map ar_ActionID (fst (rollback e ex cs st)) = map ar_ActionID (fst st)"
  "map ar_Resource (fst (rollback e ex cs st)) = map ar_Resource (fst st)"
  "length (fst (rollback e ex cs st)) = length (fst st)"
  by (induction cs arbitrary: st rule: rev_induct) (simp_all add: rollback_snoc frame_simps)

subsection \<open>Gates and clean runs\<close>

text \<open>
  C3. The fail-closed gates of the engine. A blocked plan, a missing preflight gate, a gate that is not
  ready or a missing executor leave the machine exactly as it was, report no action and never the
  status APPLIED.
\<close>

theorem engine_gates_fail_closed:
  assumes "p_Blocked p \<or> gate = None \<or> (\<exists>g. gate = Some g \<and> \<not> pg_Ready g) \<or> eng_Executor e = None"
  shows "snd (Engine_Apply e p gate s) = s \<and> t_Actions (fst (Engine_Apply e p gate s)) = []
         \<and> t_Status (fst (Engine_Apply e p gate s)) \<in> {StatusBlocked, StatusFailed}"
  using assms
  by (cases gate; cases "eng_Executor e")
    (auto simp: Engine_Apply_def Let_def blocked_def split: list.splits)

theorem engine_gates_fail_closed_witness:
  "snd (Engine_Apply \<lparr>eng_Executor = None, eng_Now = (\<lambda>s. s), eng_ID = None, eng_Progress = None\<rparr>
          (BuildPlan ex_planned) None (5 :: int)) = 5"
  by (rule engine_gates_fail_closed [THEN conjunct1]) simp

text \<open>The run in which every call of every action succeeds, as a plain fold over the actions.\<close>

fun clean_run :: "'s Engine \<Rightarrow> 's Executor \<Rightarrow> Action list \<Rightarrow> 's \<Rightarrow> 's option" where
  "clean_run e ex [] s = Some s"
| "clean_run e ex (a # as) s =
     (case ex_Backup ex (a_ID a) (a_Resource a) s of
        (Some _, _) \<Rightarrow> None
      | (None, s1) \<Rightarrow>
          (case apply_step e ex a s1 of
             (Some _, _) \<Rightarrow> None
           | (None, s2) \<Rightarrow>
               (case ex_Validate ex (a_ID a) (a_Resource a) s2 of
                  (Some _, _) \<Rightarrow> None | (None, s3) \<Rightarrow> clean_run e ex as s3)))"

lemma fail_status [simp]:
  "fst (fail_backup e ex a m rs c s) = StatusRolledBack"
  "fst (fail_apply e ex a m rs c s) = StatusRolledBack"
  "fst (fail_validate e ex a m rs c s) = StatusRolledBack"
  by (simp_all add: fail_backup_def fail_apply_def fail_validate_def Let_def split: prod.splits)

lemma run_actions_status:
  "fst (run_actions e ex as rs c s) = (if clean_run e ex as s = None then StatusRolledBack else StatusApplied)"
  by (induction as arbitrary: rs c s) (auto simp: Let_def split: prod.splits option.splits)

lemma run_actions_clean:
  assumes "clean_run e ex as s = Some s'"
  shows "run_actions e ex as rs c s =
           (StatusApplied, '''', rs @ map (\<lambda>a. (pending a)\<lparr>ar_Status := ''APPLIED''\<rparr>) as, s')"
  using assms by (induction as arbitrary: rs c s) (auto simp: Let_def split: prod.splits option.splits)

text \<open>
  C2. What APPLIED means. Behind open gates the transaction ends as APPLIED exactly when every
  action in plan order was backed up, applied (with its durable proof) and validated without error;
  the machine is then the one those calls produced, every result says APPLIED and no rollback ran.
  Otherwise the status is ROLLED_BACK; no third outcome exists.
\<close>

theorem applied_iff_clean_run:
  assumes "\<not> p_Blocked p" and "pg_Ready g" and "eng_Executor e = Some ex"
  shows "(case clean_run e ex (p_Actions p) s of
            Some s' \<Rightarrow>
              t_Status (fst (Engine_Apply e p (Some g) s)) = StatusApplied
              \<and> snd (Engine_Apply e p (Some g) s) = s'
              \<and> map (\<lambda>r. (ar_ActionID r, ar_Status r)) (t_Actions (fst (Engine_Apply e p (Some g) s)))
                  = map (\<lambda>a. (a_ID a, ''APPLIED'')) (p_Actions p)
          | None \<Rightarrow> t_Status (fst (Engine_Apply e p (Some g) s)) = StatusRolledBack)"
proof (cases "clean_run e ex (p_Actions p) s")
  case None
  with run_actions_status [of e ex "p_Actions p" "[]" "[]" s] assms show ?thesis
    by (auto simp: Engine_Apply_def Let_def split: prod.splits)
next
  case (Some s')
  with assms show ?thesis
    by (simp add: Engine_Apply_def Let_def run_actions_clean pending_def comp_def)
qed

subsection \<open>The call protocol\<close>

datatype exec_call = CBackup string | CApply string | CValidate string | CRollback string

text \<open>An executor and an engine that also log the calls the executor receives.\<close>

definition log_step :: "exec_call \<Rightarrow> 's step \<Rightarrow> ('s \<times> exec_call list) step" where
  "log_step c f = (\<lambda>(s, l). let (err, s1) = f s in (err, s1, l @ [c]))"

definition log_executor :: "'s Executor \<Rightarrow> ('s \<times> exec_call list) Executor" where
  "log_executor ex =
     \<lparr>ex_Backup = (\<lambda>i r. log_step (CBackup i) (ex_Backup ex i r)),
      ex_Apply = (\<lambda>i r k. log_step (CApply i) (ex_Apply ex i r k)),
      ex_Validate = (\<lambda>i r. log_step (CValidate i) (ex_Validate ex i r)),
      ex_Rollback = (\<lambda>i r. log_step (CRollback i) (ex_Rollback ex i r))\<rparr>"

definition log_engine :: "'s Engine \<Rightarrow> ('s \<times> exec_call list) Engine" where
  "log_engine e =
     \<lparr>eng_Executor = map_option log_executor (eng_Executor e), eng_Now = eng_Now e \<circ> fst, eng_ID = eng_ID e,
      eng_Progress = map_option (\<lambda>sink ev i (s, l). let (err, s1) = sink ev i s in (err, s1, l)) (eng_Progress e)\<rparr>"

lemma log_progress [simp]: "snd (snd (progress (log_engine e) ev i st)) = snd st"
  by (cases st) (auto simp: progress_def log_engine_def split: option.splits prod.splits)

lemma log_executor_simps [simp]:
  "snd (snd (ex_Backup (log_executor ex) i r st)) = snd st @ [CBackup i]"
  "snd (snd (ex_Apply (log_executor ex) i r k st)) = snd st @ [CApply i]"
  "snd (snd (ex_Validate (log_executor ex) i r st)) = snd st @ [CValidate i]"
  "snd (snd (ex_Rollback (log_executor ex) i r st)) = snd st @ [CRollback i]"
  by (cases st, simp add: log_executor_def log_step_def split: prod.splits)+

lemma log_rollback_one:
  assumes "i \<in> ar_ActionID ` set (fst st)"
  shows "snd (snd (rollback_one (log_engine e) (log_executor ex) i st)) = snd (snd st) @ [CRollback i]"
proof -
  obtain rs s where st: "st = (rs, s)" by (cases st)
  obtain k where k: "actionIndex rs i = Some k"
    using assms by (cases "actionIndex rs i") (auto simp: st actionIndex_None_iff)
  have ak: "ar_ActionID (rs ! k) = i" using actionIndex_Some [OF k] by simp
  obtain err s1 where e1: "ex_Rollback (log_executor ex) i (ar_Resource (rs ! k)) s = (err, s1)" by (metis prod.exhaust)
  obtain perr s2 where e2: "progress (log_engine e) ProgressRolledBack i s1 = (perr, s2)" by (metis prod.exhaust)
  have "snd s1 = snd s @ [CRollback i]" using log_executor_simps(4) [of ex i "ar_Resource (rs ! k)" s] e1 by simp
  moreover have "snd s2 = snd s1" using log_progress [of e ProgressRolledBack i s1] e2 by simp
  ultimately show ?thesis
    by (cases err; cases perr) (simp_all add: st rollback_one_def k ak e1 e2 Let_def)
qed

lemma log_rollback:
  assumes "ar_ActionID ` set cs \<subseteq> ar_ActionID ` set (fst st)"
  shows "snd (snd (rollback (log_engine e) (log_executor ex) cs st)) =
           snd (snd st) @ map (\<lambda>c. CRollback (ar_ActionID c)) (rev cs)"
  using assms
proof (induction cs arbitrary: st rule: rev_induct)
  case (snoc c cs)
  have ids: "ar_ActionID ` set (fst (rollback_one (log_engine e) (log_executor ex) (ar_ActionID c) st)) =
      ar_ActionID ` set (fst st)"
    using rollback_one_frame(1) by (metis list.set_map)
  from snoc.IH [of "rollback_one (log_engine e) (log_executor ex) (ar_ActionID c) st"] snoc.prems
  show ?case by (simp add: rollback_snoc ids log_rollback_one)
qed simp

lemma log_apply_step:
  "snd (snd (apply_step (log_engine e) (log_executor ex) a st)) = snd st @ [CApply (a_ID a)]"
proof -
  obtain err s1 where e1: "ex_Apply (log_executor ex) (a_ID a) (a_Resource a) (a_Kind a) st = (err, s1)"
    by (metis prod.exhaust)
  obtain perr s2 where e2: "progress (log_engine e) ProgressApplied (a_ID a) s1 = (perr, s2)" by (metis prod.exhaust)
  have "snd s1 = snd st @ [CApply (a_ID a)]"
    using log_executor_simps(2) [of ex "a_ID a" "a_Resource a" "a_Kind a" st] e1 by simp
  moreover have "snd s2 = snd s1" using log_progress [of e ProgressApplied "a_ID a" s1] e2 by simp
  ultimately show ?thesis by (cases err; cases perr) (simp_all add: apply_step_def e1 e2 Let_def)
qed

lemma log_rollback_failed:
  "snd (snd (rollback_failed (log_engine e) (log_executor ex) a r st)) = snd st @ [CRollback (a_ID a)]"
proof -
  obtain err s1 where e1: "ex_Rollback (log_executor ex) (a_ID a) (a_Resource a) st = (err, s1)" by (metis prod.exhaust)
  obtain perr s2 where e2: "progress (log_engine e) ProgressRolledBack (a_ID a) s1 = (perr, s2)" by (metis prod.exhaust)
  have "snd s1 = snd st @ [CRollback (a_ID a)]"
    using log_executor_simps(4) [of ex "a_ID a" "a_Resource a" st] e1 by simp
  moreover have "snd s2 = snd s1" using log_progress [of e ProgressRolledBack "a_ID a" s1] e2 by simp
  ultimately show ?thesis by (cases err; cases perr) (simp_all add: rollback_failed_def e1 e2 Let_def)
qed

abbreviation run_log :: "'s outcome \<Rightarrow> 's" where
  "run_log out \<equiv> snd (snd (snd out))"

lemma log_failures:
  assumes "ar_ActionID ` set cs \<subseteq> ar_ActionID ` set rs"
  defines "undo \<equiv> map (\<lambda>c. CRollback (ar_ActionID c)) (rev cs)"
  shows "snd (run_log (fail_backup (log_engine e) (log_executor ex) a m rs cs st)) = snd st @ undo"
    and "snd (run_log (fail_apply (log_engine e) (log_executor ex) a m rs cs st)) =
           snd st @ undo @ [CRollback (a_ID a)]"
    and "snd (run_log (fail_validate (log_engine e) (log_executor ex) a m rs cs st)) =
           snd st @ CRollback (a_ID a) # undo"
proof -
  have sub: "ar_ActionID ` set cs \<subseteq> ar_ActionID ` set (fst (rs @ [r], st'))" for r st'
    using assms(1) by auto
  note lr = log_rollback [OF sub, of e ex]
  show "snd (run_log (fail_backup (log_engine e) (log_executor ex) a m rs cs st)) = snd st @ undo"
    using lr [of "(pending a)\<lparr>ar_Status := ''BACKUP_FAILED'', ar_Error := m\<rparr>"
        "snd (progress (log_engine e) ProgressBackupFailed (a_ID a) st)"]
    by (simp add: fail_backup_def Let_def undo_def split: prod.splits)
  show "snd (run_log (fail_apply (log_engine e) (log_executor ex) a m rs cs st)) =
          snd st @ undo @ [CRollback (a_ID a)]"
    using lr [of "(pending a)\<lparr>ar_Status := ''APPLY_FAILED'', ar_Error := m\<rparr>"
        "snd (progress (log_engine e) ProgressApplyFailed (a_ID a) st)"]
      log_rollback_failed [of e ex a "(pending a)\<lparr>ar_Status := ''APPLY_FAILED'', ar_Error := m\<rparr>"]
    by (simp add: fail_apply_def Let_def undo_def split: prod.splits) (metis snd_conv append_assoc)
  let ?r = "(pending a)\<lparr>ar_Status := ''VALIDATION_FAILED'', ar_Error := m\<rparr>"
  have "ar_ActionID ` set (cs @ [?r]) \<subseteq>
      ar_ActionID ` set (fst (rs @ [?r], snd (progress (log_engine e) ProgressValidationFailed (a_ID a) st)))"
    using assms(1) by auto
  from log_rollback [OF this, of e ex]
  show "snd (run_log (fail_validate (log_engine e) (log_executor ex) a m rs cs st)) =
          snd st @ CRollback (a_ID a) # undo"
    by (simp add: fail_validate_def Let_def undo_def pending_def split: prod.splits)
qed

definition proto :: "string list \<Rightarrow> exec_call list" where
  "proto ids = concat (map (\<lambda>i. [CBackup i, CApply i, CValidate i]) ids)"

text \<open>The calls of a run that fails at action \<open>i\<close> after completing \<open>ids\<close>.\<close>

definition failed_protocols :: "string list \<Rightarrow> string \<Rightarrow> exec_call list set" where
  "failed_protocols ids i =
     {proto ids @ [CBackup i] @ map CRollback (rev ids),
      proto ids @ [CBackup i, CApply i] @ map CRollback (rev ids) @ [CRollback i],
      proto ids @ [CBackup i, CApply i, CValidate i] @ map CRollback (rev (ids @ [i]))}"

lemma run_actions_protocol:
  assumes "map ar_ActionID cs = ids" and "snd st = proto ids"
    and "run_actions (log_engine e) (log_executor ex) as cs cs st = out"
  shows "snd (run_log out) = proto (ids @ map a_ID as)
         \<or> (\<exists>done a rest. as = done @ a # rest
              \<and> snd (run_log out) \<in> failed_protocols (ids @ map a_ID done) (a_ID a))"
  using assms
proof (induction as arbitrary: cs ids st)
  case Nil
  then show ?case by auto
next
  case (Cons a as)
  obtain b s1 where b: "ex_Backup (log_executor ex) (a_ID a) (a_Resource a) st = (b, s1)" by (metis prod.exhaust)
  obtain p s2 where p: "apply_step (log_engine e) (log_executor ex) a s1 = (p, s2)" by (metis prod.exhaust)
  obtain v s3 where v: "ex_Validate (log_executor ex) (a_ID a) (a_Resource a) s2 = (v, s3)" by (metis prod.exhaust)
  have l1: "snd s1 = proto ids @ [CBackup (a_ID a)]"
    using log_executor_simps(1) [of ex "a_ID a" "a_Resource a" st] b Cons.prems(2) by simp
  have l2: "snd s2 = snd s1 @ [CApply (a_ID a)]" using log_apply_step [of e ex a s1] p by simp
  have l3: "snd s3 = snd s2 @ [CValidate (a_ID a)]"
    using log_executor_simps(3) [of ex "a_ID a" "a_Resource a" s2] v by simp
  have sub: "ar_ActionID ` set cs \<subseteq> ar_ActionID ` set cs" by simp
  have undo: "map (\<lambda>c. CRollback (ar_ActionID c)) (rev cs) = map CRollback (rev ids)"
    unfolding Cons.prems(1) [symmetric] rev_map by simp
  have here: "snd (run_log out) \<in> failed_protocols ids (a_ID a) \<Longrightarrow> ?case"
    by (intro disjI2 exI [of _ "[]"] exI [of _ a] exI [of _ as]) simp
  show ?case
  proof (cases b)
    case (Some m)
    then have "out = fail_backup (log_engine e) (log_executor ex) a m cs cs s1" using Cons.prems(3) b by simp
    then show ?thesis by (intro here) (simp add: log_failures(1) [OF sub] l1 undo failed_protocols_def)
  next
    case b0: None
    show ?thesis
    proof (cases p)
      case (Some m)
      then have "out = fail_apply (log_engine e) (log_executor ex) a m cs cs s2" using Cons.prems(3) b b0 p by simp
      then show ?thesis by (intro here) (simp add: log_failures(2) [OF sub] l1 l2 undo failed_protocols_def)
    next
      case p0: None
      show ?thesis
      proof (cases v)
        case (Some m)
        then have "out = fail_validate (log_engine e) (log_executor ex) a m cs cs s3"
          using Cons.prems(3) b b0 p p0 v by simp
        then show ?thesis by (intro here) (simp add: log_failures(3) [OF sub] l1 l2 l3 undo failed_protocols_def)
      next
        case None
        let ?r = "(pending a)\<lparr>ar_Status := ''APPLIED''\<rparr>"
        have "run_actions (log_engine e) (log_executor ex) as (cs @ [?r]) (cs @ [?r]) s3 = out"
          using Cons.prems(3) b b0 p p0 v None by (simp add: Let_def)
        moreover have "map ar_ActionID (cs @ [?r]) = ids @ [a_ID a]" using Cons.prems(1) by (simp add: pending_def)
        moreover have "snd s3 = proto (ids @ [a_ID a])" by (simp add: l1 l2 l3 proto_def)
        ultimately consider "snd (run_log out) = proto (ids @ a_ID a # map a_ID as)"
          | "done" c rest where "as = done @ c # rest"
              "snd (run_log out) \<in> failed_protocols (ids @ map a_ID (a # done)) (a_ID c)"
          using Cons.IH [of "cs @ [?r]" "ids @ [a_ID a]" s3] by auto
        then show ?thesis
        proof cases
          case 2
          then show ?thesis by (intro disjI2 exI [of _ "a # done"] exI [of _ c] exI [of _ rest]) simp
        qed simp
      qed
    qed
  qed
qed

text \<open>
  C1. The call protocol. Whatever the executor answers, the calls it receives are: backup, apply,
  validate for each action in plan order; and at the first failure, at some action, either a failed
  backup followed by the rollbacks of the completed actions in reverse order, or a failed apply
  followed by those rollbacks and then the rollback of the failed action itself, or a failed
  validation followed by the rollbacks of it and the completed actions in reverse order. So apply
  is never called without its backup having succeeded, and every action that was applied is rolled
  back exactly once.
\<close>

theorem engine_call_protocol:
  "snd (run_log (run_actions (log_engine e) (log_executor ex) as [] [] (s, []))) = proto (map a_ID as)
   \<or> (\<exists>done a rest. as = done @ a # rest
        \<and> snd (run_log (run_actions (log_engine e) (log_executor ex) as [] [] (s, [])))
            \<in> failed_protocols (map a_ID done) (a_ID a))"
  using run_actions_protocol [of "[]" "[]" "(s, [])" e ex as] by (simp add: proto_def)

subsection \<open>Reversible executors\<close>

text \<open>
  The contract the engine relies on. \<open>view\<close> is what of the machine counts, keyed by resource; \<open>foot\<close>
  names the keys an action may change; \<open>saved\<close> is what its backup holds. The laws speak about the
  registered actions only (\<open>good\<close>): a backup leaves the view alone and saves the footprint, apply and
  rollback stay inside the footprint, no call damages the backup of another action, and a rollback
  that reports success has restored the saved values.
\<close>

locale reversible_executor =
  fixes ex :: "'s Executor"
    and view :: "'s \<Rightarrow> 'k \<Rightarrow> 'v"
    and saved :: "'s \<Rightarrow> string \<Rightarrow> 'k \<Rightarrow> 'v"
    and foot :: "string \<Rightarrow> 'k set"
    and good :: "string \<Rightarrow> string \<Rightarrow> bool"
  assumes backup_view: "good i r \<Longrightarrow> view (snd (ex_Backup ex i r s)) = view s"
    and backup_saved: "good i r \<Longrightarrow> fst (ex_Backup ex i r s) = None \<Longrightarrow> k \<in> foot i \<Longrightarrow>
          saved (snd (ex_Backup ex i r s)) i k = view s k"
    and backup_other: "good i r \<Longrightarrow> good j q \<Longrightarrow> i \<noteq> j \<Longrightarrow> saved (snd (ex_Backup ex i r s)) j = saved s j"
    and apply_frame: "good i r \<Longrightarrow> k \<notin> foot i \<Longrightarrow> view (snd (ex_Apply ex i r kd s)) k = view s k"
    and apply_saved: "good i r \<Longrightarrow> good j q \<Longrightarrow> saved (snd (ex_Apply ex i r kd s)) j = saved s j"
    and validate_view: "good i r \<Longrightarrow> view (snd (ex_Validate ex i r s)) = view s"
    and validate_saved: "good i r \<Longrightarrow> good j q \<Longrightarrow> saved (snd (ex_Validate ex i r s)) j = saved s j"
    and rollback_restores: "good i r \<Longrightarrow> fst (ex_Rollback ex i r s) = None \<Longrightarrow> k \<in> foot i \<Longrightarrow>
          view (snd (ex_Rollback ex i r s)) k = saved s i k"
    and rollback_frame_law: "good i r \<Longrightarrow> k \<notin> foot i \<Longrightarrow> view (snd (ex_Rollback ex i r s)) k = view s k"
    and rollback_saved: "good i r \<Longrightarrow> good j q \<Longrightarrow> saved (snd (ex_Rollback ex i r s)) j = saved s j"
begin

definition sink_frames :: "'s Engine \<Rightarrow> bool" where
  "sink_frames e \<longleftrightarrow> (\<forall>ev i s. view (snd (progress e ev i s)) = view s \<and> saved (snd (progress e ev i s)) = saved s)"

text \<open>The actions whose effects may still be on the machine, by their results.\<close>

definition open_ids :: "ActionResult list \<Rightarrow> string set" where
  "open_ids rs = {ar_ActionID r | r. r \<in> set rs \<and> \<not> ar_RolledBack r \<and> ar_Status r \<noteq> ''BACKUP_FAILED''}"

definition contained :: "'s \<Rightarrow> ActionResult list \<Rightarrow> 's \<Rightarrow> bool" where
  "contained s0 rs s \<longleftrightarrow>
     (\<forall>k. (\<forall>i \<in> open_ids rs. k \<notin> foot i) \<longrightarrow> view s k = view s0 k)
     \<and> (\<forall>i \<in> open_ids rs. \<forall>k \<in> foot i. saved s i k = view s0 k)
     \<and> distinct (map ar_ActionID rs) \<and> (\<forall>r \<in> set rs. good (ar_ActionID r) (ar_Resource r))"

lemma contained_same:
  assumes "contained s0 rs s" and "view s' = view s" and "\<And>i r. good i r \<Longrightarrow> saved s' i = saved s i"
  shows "contained s0 rs s'"
  using assms unfolding contained_def open_ids_def by (auto 0 3)

lemma contained_progress:
  "contained s0 rs s \<Longrightarrow> sink_frames e \<Longrightarrow> contained s0 rs (snd (progress e ev i s))"
  by (rule contained_same) (auto simp: sink_frames_def)

lemma open_ids_update:
  assumes "distinct (map ar_ActionID rs)" and "k < length rs" and "ar_ActionID r' = ar_ActionID (rs ! k)"
  shows "open_ids (rs[k := r']) =
           (open_ids rs - {ar_ActionID (rs ! k)})
           \<union> (if \<not> ar_RolledBack r' \<and> ar_Status r' \<noteq> ''BACKUP_FAILED'' then {ar_ActionID (rs ! k)} else {})"
proof -
  have other: "ar_ActionID (rs ! j) \<noteq> ar_ActionID (rs ! k)" if "j < length rs" "j \<noteq> k" for j
    using assms(1,2) that by (simp add: distinct_conv_nth)
  have "open_ids (rs[k := r']) = {ar_ActionID (rs[k := r'] ! j) | j. j < length rs
      \<and> \<not> ar_RolledBack (rs[k := r'] ! j) \<and> ar_Status (rs[k := r'] ! j) \<noteq> ''BACKUP_FAILED''}"
    unfolding open_ids_def by (auto simp: in_set_conv_nth)
  moreover have "open_ids rs = {ar_ActionID (rs ! j) | j. j < length rs
      \<and> \<not> ar_RolledBack (rs ! j) \<and> ar_Status (rs ! j) \<noteq> ''BACKUP_FAILED''}"
    unfolding open_ids_def by (auto simp: in_set_conv_nth)
  ultimately show ?thesis
    using assms(2,3) other by (auto simp: nth_list_update split: if_splits)
qed

text \<open>One rollback: success closes the action, failure leaves its effects attributed to it.\<close>

lemma contained_undo:
  assumes c: "contained s0 rs s" and k: "k < length rs" and op: "ar_ActionID (rs ! k) \<in> open_ids rs"
    and r': "ar_ActionID r' = ar_ActionID (rs ! k)" "ar_Resource r' = ar_Resource (rs ! k)"
    and rb: "ex_Rollback ex (ar_ActionID (rs ! k)) (ar_Resource (rs ! k)) s = (err, s1)"
    and flag: "ar_RolledBack r' \<or> ar_Status r' = ''BACKUP_FAILED'' \<Longrightarrow> err = None"
  shows "contained s0 (rs[k := r']) s1"
proof -
  let ?i = "ar_ActionID (rs ! k)"
  have g: "good ?i (ar_Resource (rs ! k))" using c k by (simp add: contained_def)
  have d: "distinct (map ar_ActionID rs)" using c by (simp add: contained_def)
  note ids = open_ids_update [OF d k r'(1)]
  have frame: "view s1 x = view s x" if "x \<notin> foot ?i" for x
    using rollback_frame_law [OF g that, of s] rb by simp
  have restored: "view s1 x = view s0 x" if "x \<in> foot ?i" "err = None" for x
    using rollback_restores [OF g _ that(1), of s] that rb c op by (auto simp: contained_def)
  have keep: "saved s1 j = saved s j" if "good j q" for j q
    using rollback_saved [OF g that, of s] rb by simp
  have goodj: "\<exists>q. good j q" if "j \<in> open_ids rs" for j
    using that c unfolding open_ids_def contained_def by auto
  have sub: "open_ids (rs[k := r']) \<subseteq> open_ids rs" using ids op by auto
  have "view s1 x = view s0 x" if nx: "\<forall>i \<in> open_ids (rs[k := r']). x \<notin> foot i" for x
  proof (cases "x \<in> foot ?i")
    case True
    then have "?i \<notin> open_ids (rs[k := r'])" using nx by blast
    then have "err = None" using ids flag by (auto split: if_splits)
    with True restored show ?thesis by simp
  next
    case False
    then have "\<forall>i \<in> open_ids rs. x \<notin> foot i" using nx ids by auto
    then show ?thesis using frame [OF False] c by (simp add: contained_def)
  qed
  moreover have "saved s1 i x = view s0 x" if "i \<in> open_ids (rs[k := r'])" "x \<in> foot i" for i x
    using that sub goodj keep c unfolding contained_def by (metis subsetD)
  moreover have "distinct (map ar_ActionID (rs[k := r']))" using d r' by (simp add: map_update_same)
  moreover have "\<forall>r \<in> set (rs[k := r']). good (ar_ActionID r) (ar_Resource r)"
    using c g r' set_update_subset_insert [of rs k r'] unfolding contained_def by force
  ultimately show ?thesis unfolding contained_def by blast
qed

lemma open_ids_good:
  assumes "contained s0 rs s" and "j \<in> open_ids rs"
  obtains q where "good j q" "j \<in> ar_ActionID ` set rs"
  using assms unfolding contained_def open_ids_def by blast

lemma contained_rollback_one:
  assumes c: "contained s0 rs s" and sf: "sink_frames e" and op: "i \<in> open_ids rs"
    and out: "rollback_one e ex i (rs, s) = (rs', s')"
  shows "contained s0 rs' s' \<and> open_ids rs - {i} \<subseteq> open_ids rs'"
proof -
  have "i \<in> ar_ActionID ` set rs" using op by (auto simp: open_ids_def)
  then obtain k where k: "actionIndex rs i = Some k"
    by (cases "actionIndex rs i") (auto simp: actionIndex_None_iff)
  have kl: "k < length rs" and ki: "ar_ActionID (rs ! k) = i" using actionIndex_Some [OF k] by auto
  obtain err s1 where rb: "ex_Rollback ex i (ar_Resource (rs ! k)) s = (err, s1)" by (metis prod.exhaust)
  obtain perr s2 where pr: "progress e ProgressRolledBack i s1 = (perr, s2)" by (metis prod.exhaust)
  have d: "distinct (map ar_ActionID rs)" using c by (simp add: contained_def)
  let ?r = "rs ! k"
  have step: "\<exists>r' ev. rs' = rs[k := r'] \<and> ar_ActionID r' = ar_ActionID ?r \<and> ar_Resource r' = ar_Resource ?r
      \<and> (ar_RolledBack r' \<or> ar_Status r' = ''BACKUP_FAILED'' \<longrightarrow> err = None)
      \<and> s' = snd (progress e ev i s1)" if nr: "\<not> ar_RolledBack ?r"
  proof (cases err)
    case (Some m)
    have "rs' = rs[k := ?r\<lparr>ar_Status := ''ROLLBACK_FAILED'', ar_Error := m\<rparr>]"
      "s' = snd (progress e ProgressRollbackFailed i s1)"
      using out Some by (simp_all add: rollback_one_def k ki rb Let_def)
    then show ?thesis
      by (intro exI [of _ "?r\<lparr>ar_Status := ''ROLLBACK_FAILED'', ar_Error := m\<rparr>"]
          exI [of _ ProgressRollbackFailed]) (simp add: nr)
  next
    case None
    have "rs' = rs[k := rolled_back ?r perr]" "s' = snd (progress e ProgressRolledBack i s1)"
      using None out pr by (simp_all add: rollback_one_def k ki rb Let_def)
    then show ?thesis using None by (intro exI [of _ "rolled_back ?r perr"] exI [of _ ProgressRolledBack]) simp
  qed
  have "\<not> ar_RolledBack (rs ! k)"
  proof -
    obtain j where "j < length rs" "ar_ActionID (rs ! j) = i" "\<not> ar_RolledBack (rs ! j)"
      using op by (auto simp: open_ids_def in_set_conv_nth)
    moreover from this have "j = k" using d kl ki by (metis length_map nth_eq_iff_index_eq nth_map)
    ultimately show ?thesis by simp
  qed
  with step obtain r' ev where r': "rs' = rs[k := r']" "ar_ActionID r' = ar_ActionID (rs ! k)"
      "ar_Resource r' = ar_Resource (rs ! k)" "ar_RolledBack r' \<or> ar_Status r' = ''BACKUP_FAILED'' \<Longrightarrow> err = None"
      and s': "s' = snd (progress e ev i s1)" by blast
  have "contained s0 rs' s1" unfolding r'(1)
    by (rule contained_undo [OF c kl _ r'(2,3) _ r'(4)]) (simp_all add: ki op rb)
  then show ?thesis
    using contained_progress [OF _ sf] s' open_ids_update [OF d kl r'(2)] r'(1) ki by auto
qed

lemma subset_remove: "x \<notin> A \<Longrightarrow> A \<subseteq> B \<Longrightarrow> B - {x} \<subseteq> C \<Longrightarrow> A \<subseteq> C"
  by blast

lemma contained_rollback:
  assumes "contained s0 rs s" and "sink_frames e" and "distinct (map ar_ActionID cs)"
    and "ar_ActionID ` set cs \<subseteq> open_ids rs" and "rollback e ex cs (rs, s) = (rs', s')"
  shows "contained s0 rs' s' \<and> open_ids rs - ar_ActionID ` set cs \<subseteq> open_ids rs'"
  using assms
proof (induction cs arbitrary: rs s rule: rev_induct)
  case Nil
  then show ?case by simp
next
  case (snoc c cs)
  obtain rs1 s1 where one: "rollback_one e ex (ar_ActionID c) (rs, s) = (rs1, s1)" by (metis prod.exhaust)
  have "ar_ActionID c \<in> open_ids rs" using snoc.prems(4) by simp
  from contained_rollback_one [OF snoc.prems(1,2) this one]
  have c1: "contained s0 rs1 s1" and sub: "open_ids rs - {ar_ActionID c} \<subseteq> open_ids rs1" by auto
  have "rollback e ex cs (rs1, s1) = (rs', s')" using snoc.prems(5) one by (simp add: rollback_snoc)
  moreover have "ar_ActionID c \<notin> ar_ActionID ` set cs" "ar_ActionID ` set cs \<subseteq> open_ids rs"
    using snoc.prems(3,4) by simp_all
  then have sub1: "ar_ActionID ` set cs \<subseteq> open_ids rs1" by (rule subset_remove [OF _ _ sub])
  ultimately have "contained s0 rs' s' \<and> open_ids rs1 - ar_ActionID ` set cs \<subseteq> open_ids rs'"
    using snoc.IH [OF c1 snoc.prems(2) _ sub1] snoc.prems(3) by simp
  with sub show ?case by auto
qed

lemma open_ids_snoc:
  "open_ids (rs @ [r]) =
     open_ids rs \<union> (if \<not> ar_RolledBack r \<and> ar_Status r \<noteq> ''BACKUP_FAILED'' then {ar_ActionID r} else {})"
  by (auto simp: open_ids_def)

lemma pending_sel [simp]:
  "ar_ActionID (pending a) = a_ID a" "ar_Resource (pending a) = a_Resource a"
  "\<not> ar_RolledBack (pending a)"
  by (simp_all add: pending_def)

lemma contained_backup_failed:
  assumes c: "contained s0 rs s" and g: "good (a_ID a) (a_Resource a)" and new: "a_ID a \<notin> ar_ActionID ` set rs"
    and b: "ex_Backup ex (a_ID a) (a_Resource a) s = (err, s1)"
  shows "contained s0 (rs @ [(pending a)\<lparr>ar_Status := ''BACKUP_FAILED'', ar_Error := m\<rparr>]) s1"
proof -
  have v: "view s1 = view s" using backup_view [OF g, of s] b by simp
  have sv: "saved s1 j = saved s j" if "j \<in> open_ids rs" for j
  proof -
    from open_ids_good [OF c that] obtain q where "good j q" "a_ID a \<noteq> j" using new by metis
    then show ?thesis using backup_other [OF g, of j q s] b by simp
  qed
  have o: "open_ids (rs @ [(pending a)\<lparr>ar_Status := ''BACKUP_FAILED'', ar_Error := m\<rparr>]) = open_ids rs"
    by (simp add: open_ids_snoc)
  show ?thesis using c [unfolded contained_def] g new by (simp add: contained_def o v sv)
qed

lemma contained_applied:
  assumes c: "contained s0 rs s" and g: "good (a_ID a) (a_Resource a)" and new: "a_ID a \<notin> ar_ActionID ` set rs"
    and b: "ex_Backup ex (a_ID a) (a_Resource a) s = (None, s1)"
    and p: "apply_step e ex a s1 = (err, s2)" and sf: "sink_frames e"
    and disj: "\<forall>i \<in> open_ids rs. foot i \<inter> foot (a_ID a) = {}"
    and r: "ar_ActionID r = a_ID a" "ar_Resource r = a_Resource a"
    and op: "\<not> ar_RolledBack r" "ar_Status r \<noteq> ''BACKUP_FAILED''"
  shows "contained s0 (rs @ [r]) s2"
proof -
  have v1: "view s1 = view s" using backup_view [OF g, of s] b by simp
  have sa1: "saved s1 (a_ID a) k = view s k" if "k \<in> foot (a_ID a)" for k
    using backup_saved [OF g _ that, of s] b by simp
  have so1: "saved s1 j = saved s j" if "good j q" "a_ID a \<noteq> j" for j q
    using backup_other [OF g that, of s] b by simp
  obtain e1 t1 where ap: "ex_Apply ex (a_ID a) (a_Resource a) (a_Kind a) s1 = (e1, t1)" by (metis prod.exhaust)
  have "s2 = t1 \<or> (\<exists>ev. s2 = snd (progress e ev (a_ID a) t1))"
    using p by (auto simp: apply_step_def ap Let_def split: option.splits prod.splits) (metis snd_conv)+
  then have vs: "view s2 = view t1 \<and> saved s2 = saved t1" using sf by (auto simp: sink_frames_def)
  have v2: "view s2 k = view s k" if "k \<notin> foot (a_ID a)" for k
    using apply_frame [OF g that, of "a_Kind a" s1] ap vs v1 by simp
  have sv2: "saved s2 j = saved s1 j" if "good j q" for j q
    using apply_saved [OF g that, of "a_Kind a" s1] ap vs by simp
  have old: "\<exists>q. good j q \<and> a_ID a \<noteq> j" if "j \<in> open_ids rs" for j
    using open_ids_good [OF c that] new by metis
  have "saved s2 j k = view s0 k" if "j \<in> open_ids rs" "k \<in> foot j" for j k
    using old [OF that(1)] sv2 so1 c that by (metis contained_def)
  moreover have "saved s2 (a_ID a) k = view s0 k" if "k \<in> foot (a_ID a)" for k
  proof -
    have "\<forall>i \<in> open_ids rs. k \<notin> foot i" using disj that by blast
    then have "view s k = view s0 k" using c by (simp add: contained_def)
    then show ?thesis using sv2 [OF g] sa1 [OF that] by simp
  qed
  ultimately show ?thesis
    using c g new v2 r op by (auto simp: contained_def open_ids_snoc)
qed

lemma contained_rollback_failed:
  assumes c: "contained s0 rs s" and k: "rs \<noteq> []" "ar_ActionID (last rs) = a_ID a" "ar_Resource (last rs) = a_Resource a"
    and op: "a_ID a \<in> open_ids rs" and sf: "sink_frames e"
    and r: "ar_ActionID r = a_ID a" "ar_Resource r = a_Resource a" "\<not> ar_RolledBack r" "ar_Status r = ''APPLY_FAILED''"
    and out: "rollback_failed e ex a r s = (r', s')"
  shows "contained s0 (rs[length rs - 1 := r']) s'"
proof -
  obtain err s1 where rb: "ex_Rollback ex (a_ID a) (a_Resource a) s = (err, s1)" by (metis prod.exhaust)
  obtain perr s2 where pr: "progress e ProgressRolledBack (a_ID a) s1 = (perr, s2)" by (metis prod.exhaust)
  have "ar_ActionID r' = a_ID a \<and> ar_Resource r' = a_Resource a
      \<and> (ar_RolledBack r' \<or> ar_Status r' = ''BACKUP_FAILED'' \<longrightarrow> err = None)
      \<and> (\<exists>ev. s' = snd (progress e ev (a_ID a) s1))"
    using out pr r by (cases err; cases perr) (auto simp: rollback_failed_def rb Let_def intro: exI [of _ ProgressRolledBack])
  then obtain ev where r': "ar_ActionID r' = a_ID a" "ar_Resource r' = a_Resource a"
      "ar_RolledBack r' \<or> ar_Status r' = ''BACKUP_FAILED'' \<Longrightarrow> err = None"
      "s' = snd (progress e ev (a_ID a) s1)" by blast
  have l: "rs ! (length rs - 1) = last rs" using k(1) by (simp add: last_conv_nth)
  have "contained s0 (rs[length rs - 1 := r']) s1"
    by (rule contained_undo [OF c _ _ _ _ _ r'(3)]) (use k op r' rb l in auto)
  then show ?thesis unfolding r'(4) by (rule contained_progress [OF _ sf])
qed

text \<open>The results of completed actions: all open, none failed.\<close>

definition all_done :: "ActionResult list \<Rightarrow> bool" where
  "all_done rs \<longleftrightarrow> (\<forall>r \<in> set rs. \<not> ar_RolledBack r \<and> ar_Status r \<noteq> ''BACKUP_FAILED'')"

lemma all_done_open: "all_done rs \<Longrightarrow> open_ids rs = ar_ActionID ` set rs"
  by (auto simp: all_done_def open_ids_def)

lemma contained_fail_backup:
  assumes c: "contained s0 cs s" and dn: "all_done cs" and g: "good (a_ID a) (a_Resource a)"
    and new: "a_ID a \<notin> ar_ActionID ` set cs" and sf: "sink_frames e"
    and b: "ex_Backup ex (a_ID a) (a_Resource a) s = (Some m, s1)"
    and out: "fail_backup e ex a m cs cs s1 = (st, err, rs', s')"
  shows "contained s0 rs' s'"
proof -
  let ?r = "(pending a)\<lparr>ar_Status := ''BACKUP_FAILED'', ar_Error := m\<rparr>"
  let ?s = "snd (progress e ProgressBackupFailed (a_ID a) s1)"
  have c1: "contained s0 (cs @ [?r]) ?s"
    by (rule contained_progress [OF contained_backup_failed [OF c g new b] sf])
  have "rollback e ex cs (cs @ [?r], ?s) = (rs', s')"
    using out by (simp add: fail_backup_def Let_def split: prod.splits)
  moreover have "distinct (map ar_ActionID cs)" using c by (simp add: contained_def)
  moreover have "ar_ActionID ` set cs \<subseteq> open_ids (cs @ [?r])"
    by (simp add: open_ids_snoc all_done_open [OF dn])
  ultimately show ?thesis using contained_rollback [OF c1 sf] by blast
qed

lemma contained_fail_apply:
  assumes c: "contained s0 cs s" and dn: "all_done cs" and g: "good (a_ID a) (a_Resource a)"
    and new: "a_ID a \<notin> ar_ActionID ` set cs" and sf: "sink_frames e"
    and disj: "\<forall>i \<in> open_ids cs. foot i \<inter> foot (a_ID a) = {}"
    and b: "ex_Backup ex (a_ID a) (a_Resource a) s = (None, s1)"
    and p: "apply_step e ex a s1 = (Some m, s2)"
    and out: "fail_apply e ex a m cs cs s2 = (st, err, rs', s')"
  shows "contained s0 rs' s'"
proof -
  let ?r = "(pending a)\<lparr>ar_Status := ''APPLY_FAILED'', ar_Error := m\<rparr>"
  let ?s = "snd (progress e ProgressApplyFailed (a_ID a) s2)"
  have c1: "contained s0 (cs @ [?r]) ?s"
    by (rule contained_progress [OF contained_applied [OF c g new b p sf disj] sf]) simp_all
  obtain rs2 s3 where rb: "rollback e ex cs (cs @ [?r], ?s) = (rs2, s3)" by (metis prod.exhaust)
  obtain r2 s4 where rf: "rollback_failed e ex a ?r s3 = (r2, s4)" by (metis prod.exhaust)
  have d: "distinct (map ar_ActionID cs)" using c by (simp add: contained_def)
  have o: "open_ids (cs @ [?r]) = insert (a_ID a) (ar_ActionID ` set cs)"
    by (simp add: open_ids_snoc all_done_open [OF dn])
  have "contained s0 rs2 s3 \<and> open_ids (cs @ [?r]) - ar_ActionID ` set cs \<subseteq> open_ids rs2"
    by (rule contained_rollback [OF c1 sf d _ rb]) (auto simp: o)
  then have c2: "contained s0 rs2 s3" and op: "a_ID a \<in> open_ids rs2" using new by (auto simp: o)
  have ids: "map ar_ActionID rs2 = map ar_ActionID (cs @ [?r])" "map ar_Resource rs2 = map ar_Resource (cs @ [?r])"
    using rollback_frame(1,2) [of e ex cs "(cs @ [?r], ?s)"] rb by simp_all
  then have ne: "rs2 \<noteq> []" by auto
  have la: "ar_ActionID (last rs2) = a_ID a" "ar_Resource (last rs2) = a_Resource a"
    using arg_cong [OF ids(1), of last] arg_cong [OF ids(2), of last] ne by (simp_all add: last_map)
  have "contained s0 (rs2[length rs2 - 1 := r2]) s4"
    by (rule contained_rollback_failed [OF c2 ne la op sf _ _ _ _ rf]) simp_all
  then show ?thesis using out by (simp add: fail_apply_def Let_def rb rf)
qed

lemma contained_fail_validate:
  assumes c: "contained s0 (cs @ [(pending a)\<lparr>ar_Status := ''VALIDATION_FAILED'', ar_Error := m\<rparr>]) s3"
    and dn: "all_done cs" and sf: "sink_frames e"
    and out: "fail_validate e ex a m cs cs s3 = (st, err, rs', s')"
  shows "contained s0 rs' s'"
proof -
  let ?r = "(pending a)\<lparr>ar_Status := ''VALIDATION_FAILED'', ar_Error := m\<rparr>"
  let ?s = "snd (progress e ProgressValidationFailed (a_ID a) s3)"
  have c1: "contained s0 (cs @ [?r]) ?s" by (rule contained_progress [OF c sf])
  have "rollback e ex (cs @ [?r]) (cs @ [?r], ?s) = (rs', s')"
    using out by (simp add: fail_validate_def Let_def split: prod.splits)
  moreover have "distinct (map ar_ActionID (cs @ [?r]))" using c by (simp add: contained_def)
  moreover have "ar_ActionID ` set (cs @ [?r]) \<subseteq> open_ids (cs @ [?r])"
    by (simp add: open_ids_snoc all_done_open [OF dn])
  ultimately show ?thesis using contained_rollback [OF c1 sf] by blast
qed

lemma run_actions_contained:
  assumes "contained s0 cs s" and "all_done cs" and "sink_frames e"
    and "\<forall>a \<in> set as. good (a_ID a) (a_Resource a)"
    and "distinct (map ar_ActionID cs @ map a_ID as)"
    and "\<forall>a \<in> set as. \<forall>r \<in> set cs. foot (ar_ActionID r) \<inter> foot (a_ID a) = {}"
    and "pairwise (\<lambda>a b. foot (a_ID a) \<inter> foot (a_ID b) = {}) (set as)"
    and "run_actions e ex as cs cs s = (st, err, rs', s')"
  shows "contained s0 rs' s'"
  using assms
proof (induction as arbitrary: cs s)
  case Nil
  then show ?case by simp
next
  case (Cons a as)
  obtain b s1 where b: "ex_Backup ex (a_ID a) (a_Resource a) s = (b, s1)" by (metis prod.exhaust)
  obtain p s2 where p: "apply_step e ex a s1 = (p, s2)" by (metis prod.exhaust)
  obtain v s3 where v: "ex_Validate ex (a_ID a) (a_Resource a) s2 = (v, s3)" by (metis prod.exhaust)
  have g: "good (a_ID a) (a_Resource a)" using Cons.prems(4) by simp
  have new: "a_ID a \<notin> ar_ActionID ` set cs" using Cons.prems(5) by simp
  have disj: "\<forall>i \<in> open_ids cs. foot i \<inter> foot (a_ID a) = {}"
    using Cons.prems(6) by (simp add: all_done_open [OF Cons.prems(2)])
  show ?case
  proof (cases b)
    case (Some m)
    then have "fail_backup e ex a m cs cs s1 = (st, err, rs', s')" using Cons.prems(8) b by simp
    then show ?thesis
      using contained_fail_backup [OF Cons.prems(1,2) g new Cons.prems(3)] b Some by blast
  next
    case b0: None
    show ?thesis
    proof (cases p)
      case (Some m)
      then have "fail_apply e ex a m cs cs s2 = (st, err, rs', s')" using Cons.prems(8) b b0 p by simp
      then show ?thesis
        using contained_fail_apply [OF Cons.prems(1,2) g new Cons.prems(3) disj] b b0 p Some by blast
    next
      case p0: None
      have c3: "contained s0 (cs @ [r]) s3"
        if "ar_ActionID r = a_ID a" "ar_Resource r = a_Resource a" "\<not> ar_RolledBack r"
          "ar_Status r \<noteq> ''BACKUP_FAILED''" for r
      proof (rule contained_same)
        show "contained s0 (cs @ [r]) s2"
          using contained_applied [OF Cons.prems(1) g new _ p Cons.prems(3) disj that] b b0 by simp
        show "view s3 = view s2" using validate_view [OF g, of s2] v by simp
        show "saved s3 i = saved s2 i" if "good i q" for i q using validate_saved [OF g that, of s2] v by simp
      qed
      show ?thesis
      proof (cases v)
        case (Some m)
        then have "fail_validate e ex a m cs cs s3 = (st, err, rs', s')" using Cons.prems(8) b b0 p p0 v by simp
        then show ?thesis
          using contained_fail_validate [OF c3 Cons.prems(2,3)] by simp
      next
        case None
        let ?r = "(pending a)\<lparr>ar_Status := ''APPLIED''\<rparr>"
        have "run_actions e ex as (cs @ [?r]) (cs @ [?r]) s3 = (st, err, rs', s')"
          using Cons.prems(8) b b0 p p0 v None by (simp add: Let_def)
        moreover have "all_done (cs @ [?r])" using Cons.prems(2) by (simp add: all_done_def)
        moreover have "distinct (map ar_ActionID (cs @ [?r]) @ map a_ID as)" using Cons.prems(5) by auto
        moreover have "\<forall>b \<in> set as. \<forall>r \<in> set (cs @ [?r]). foot (ar_ActionID r) \<inter> foot (a_ID b) = {}"
          using Cons.prems(5,6,7) by (auto simp: pairwise_insert)
        moreover have "pairwise (\<lambda>a b. foot (a_ID a) \<inter> foot (a_ID b) = {}) (set as)"
          using Cons.prems(7) by (simp add: pairwise_insert)
        ultimately show ?thesis
          using Cons.IH [OF c3 [of ?r]] Cons.prems(3,4) by simp
      qed
    qed
  qed
qed

text \<open>
  Whatever happens, a key whose view changed lies in the footprint of an action whose result neither
  says that it was rolled back nor that its backup failed.
\<close>

lemma engine_effects_contained:
  assumes "sink_frames e" and "\<forall>a \<in> set as. good (a_ID a) (a_Resource a)"
    and "distinct (map a_ID as)" and "pairwise (\<lambda>a b. foot (a_ID a) \<inter> foot (a_ID b) = {}) (set as)"
    and "run_actions e ex as [] [] s = (st, err, rs, s')" and "view s' k \<noteq> view s k"
  shows "\<exists>r \<in> set rs. k \<in> foot (ar_ActionID r) \<and> \<not> ar_RolledBack r \<and> ar_Status r \<noteq> ''BACKUP_FAILED''"
proof -
  have "contained s [] s" by (simp add: contained_def open_ids_def)
  then have "contained s rs s'"
    by (rule run_actions_contained [OF _ _ assms(1,2)]) (use assms in \<open>auto simp: all_done_def\<close>)
  then show ?thesis using assms(6) by (auto simp: contained_def open_ids_def)
qed

end

subsection \<open>A sample run\<close>

text \<open>A machine that counts the applied actions and refuses to apply the action it is told to.\<close>

definition counting :: "string \<Rightarrow> nat Executor" where
  "counting bad =
     \<lparr>ex_Backup = (\<lambda>i r s. (None, s)), ex_Apply = (\<lambda>i r k s. if i = bad then (Some ''refused'', s) else (None, s + 1)),
      ex_Validate = (\<lambda>i r s. (None, s)), ex_Rollback = (\<lambda>i r s. (None, s - 1))\<rparr>"

definition counting_engine :: "string \<Rightarrow> nat Engine" where
  "counting_engine bad = \<lparr>eng_Executor = Some (counting bad), eng_Now = int, eng_ID = None, eng_Progress = None\<rparr>"

theorem applied_iff_clean_run_witness:
  "t_Status (fst (Engine_Apply (counting_engine '''') ((BuildPlan ex_planned)\<lparr>p_Blocked := False\<rparr>)
      (Some \<lparr>pg_Ready = True, pg_Reasons = []\<rparr>) 3)) = StatusApplied"
proof -
  let ?p = "(BuildPlan ex_planned)\<lparr>p_Blocked := False\<rparr>"
  let ?g = "\<lparr>pg_Ready = True, pg_Reasons = []\<rparr>"
  have "clean_run (counting_engine '''') (counting '''') [ex_action] 3 = Some 4"
    by (simp add: counting_engine_def counting_def apply_step_def progress_def ex_action_def actionID_def)
  then have c: "clean_run (counting_engine '''') (counting '''') (p_Actions ?p) 3 = Some 4"
    using ex_planned_Actions by simp
  have "\<not> p_Blocked ?p" "pg_Ready ?g" "eng_Executor (counting_engine '''') = Some (counting '''')"
    by (simp_all add: counting_engine_def)
  from applied_iff_clean_run [OF this, of 3] show ?thesis
    unfolding c option.case by (rule conjunct1)
qed

end
