(* ===== verification/File_Executor.thy ===== *)
theory File_Executor
  imports Apply_Engine Paths
begin

text \<open>
  The file executor of \<open>internal/apply\<close> (\<open>file_executor.go\<close>, \<open>backup_manifest.go\<close>, \<open>reservedpaths.go\<close>,
  the path policy of \<open>stage1_policy.go\<close>) over a file system, and the atomic writes of
  \<open>internal/fsatomic\<close>. The file system maps cleaned absolute paths to nodes; each system call first
  consumes one entry of a fault list, so every call may fail for an outside reason. A backup manifest
  document is kept decoded (\<open>Manifest\<close>); any other content is \<open>Bytes\<close>, and decoding it as a manifest
  fails. The executor root resolves to itself (or resolving it fails), and no symbolic link lies on
  the way to the backup directory or inside it; links below the root are modelled, and refused
  (\<open>safePath\<close> does so before any read, so reading through a link needs no model). The SHA-256 hex
  digest is the parameter \<open>sha\<close>.
\<close>

unbundle bit_operations_syntax

subsection \<open>The file system\<close>

text \<open>
  The mode of a file is Go's \<open>os.FileMode\<close>: the permission bits (\<open>0777\<close>) and, far above them, setuid,
  setgid and sticky (bits 23, 22 and 20). \<open>Perm\<close> keeps the permission bits only; \<open>File.Chmod\<close> passes on
  the permission bits and those three, and no other bit of its argument.
\<close>

definition Perm :: "32 word \<Rightarrow> 32 word" where
  "Perm m = m AND 511"

definition chmod_mode :: "32 word \<Rightarrow> 32 word" where
  "chmod_mode m = m AND 13631999"

record BackupManifest =
  bm_SchemaVersion :: int
  bm_TransactionID :: string
  bm_PlanFingerprint :: string
  bm_ActionID :: string
  bm_Resource :: string
  bm_State :: string
  bm_Mode :: "32 word"
  bm_SHA256 :: string

datatype file_data = Bytes string | Manifest BackupManifest
datatype node = NFile file_data "32 word" | NDir | NSymlink string | NOther

record FS =
  fs_nodes :: "(string \<times> node) list"
  fs_faults :: "string option list"
  fs_root_error :: "string option"

definition lookup :: "FS \<Rightarrow> string \<Rightarrow> node option" where
  "lookup fs p = map_of (fs_nodes fs) p"

definition fs_set :: "string \<Rightarrow> node \<Rightarrow> FS \<Rightarrow> FS" where
  "fs_set p n fs = fs\<lparr>fs_nodes := (p, n) # filter (\<lambda>(q, _). q \<noteq> p) (fs_nodes fs)\<rparr>"

definition fs_del :: "string \<Rightarrow> FS \<Rightarrow> FS" where
  "fs_del p fs = fs\<lparr>fs_nodes := filter (\<lambda>(q, _). q \<noteq> p) (fs_nodes fs)\<rparr>"

text \<open>Fallible computations on a state, with Go's early return on error.\<close>

type_synonym ('s, 'a) io = "'s \<Rightarrow> (string + 'a) \<times> 's"
type_synonym 'a fio = "(FS, 'a) io"

definition fret :: "'a \<Rightarrow> ('s, 'a) io" where
  "fret a s = (Inr a, s)"

definition ffail :: "string \<Rightarrow> ('s, 'a) io" where
  "ffail e s = (Inl e, s)"

definition flift :: "(string, 'a) result \<Rightarrow> ('s, 'a) io" where
  "flift r s = (r, s)"

definition fbind :: "('s, 'a) io \<Rightarrow> ('a \<Rightarrow> ('s, 'b) io) \<Rightarrow> ('s, 'b) io" where
  "fbind m f s = (case m s of (Inl e, s1) \<Rightarrow> (Inl e, s1) | (Inr a, s1) \<Rightarrow> f a s1)"

definition run_step :: "('s, unit) io \<Rightarrow> 's step" where
  "run_step m s = (case m s of (Inl e, s1) \<Rightarrow> (Some e, s1) | (Inr _, s1) \<Rightarrow> (None, s1))"

definition fault :: "unit fio" where
  "fault fs =
     (case fs_faults fs of
        [] \<Rightarrow> (Inr (), fs)
      | None # fl \<Rightarrow> (Inr (), fs\<lparr>fs_faults := fl\<rparr>)
      | Some e # fl \<Rightarrow> (Inl e, fs\<lparr>fs_faults := fl\<rparr>))"

text \<open>\<open>os.Lstat\<close>; the absent path is \<open>None\<close>, other errors are failures.\<close>

definition fs_lstat :: "string \<Rightarrow> node option fio" where
  "fs_lstat p = fbind fault (\<lambda>_ fs. (Inr (lookup fs p), fs))"

definition fs_read :: "string \<Rightarrow> file_data fio" where
  "fs_read p = fbind fault (\<lambda>_ fs.
     case lookup fs p of Some (NFile d _) \<Rightarrow> (Inr d, fs) | _ \<Rightarrow> (Inl (''open '' @ p), fs))"

definition fs_stat :: "string \<Rightarrow> node option fio" where
  "fs_stat p = fbind fault (\<lambda>_ fs. (Inr (lookup fs p), fs))"

text \<open>\<open>os.Remove\<close>; removing an absent path answers \<open>False\<close> (\<open>os.IsNotExist\<close>).\<close>

definition fs_remove :: "string \<Rightarrow> bool fio" where
  "fs_remove p = fbind fault (\<lambda>_ fs.
     if lookup fs p = None then (Inr False, fs)
     else if lookup fs p = Some NDir \<and> list_ex (\<lambda>(q, _). q \<noteq> p \<and> Dir q = p) (fs_nodes fs)
     then (Inl (''directory not empty: '' @ p), fs)
     else (Inr True, fs_del p fs))"

text \<open>\<open>os.MkdirAll\<close> creates the missing directories from the top; an existing non-directory fails it.\<close>

fun mkdir_levels :: "string list \<Rightarrow> string list \<Rightarrow> unit fio" where
  "mkdir_levels done [] = fret ()"
| "mkdir_levels done (c # cs) = (\<lambda>fs.
     let p = render_path True (done @ [c]) in
     case lookup fs p of
       None \<Rightarrow> mkdir_levels (done @ [c]) cs (fs_set p NDir fs)
     | Some NDir \<Rightarrow> mkdir_levels (done @ [c]) cs fs
     | Some _ \<Rightarrow> (Inl (''mkdir: not a directory: '' @ p), fs))"

definition fs_mkdir_all :: "string \<Rightarrow> unit fio" where
  "fs_mkdir_all dir = fbind fault (\<lambda>_. mkdir_levels [] (path_comps dir))"

subsection \<open>Atomic writes (fsatomic.go)\<close>

text \<open>
  \<open>WriteFile\<close>: everything before the rename works on a temporary file that is removed on failure, so
  the target changes exactly when the whole call succeeds.
\<close>

definition WriteFile :: "string \<Rightarrow> file_data \<Rightarrow> 32 word \<Rightarrow> unit fio" where
  "WriteFile p d mode = fbind fault (\<lambda>_ fs.
     if Dir p \<noteq> ''/'' \<and> lookup fs (Dir p) \<noteq> Some NDir then (Inl (''no such directory: '' @ Dir p), fs)
     else if lookup fs p = Some NDir then (Inl (''rename: is a directory: '' @ p), fs)
     else (Inr (), fs_set p (NFile d (chmod_mode mode)) fs))"

definition SyncDir :: "string \<Rightarrow> unit fio" where
  "SyncDir dir = fault"

definition WriteFileSyncDir :: "string \<Rightarrow> file_data \<Rightarrow> 32 word \<Rightarrow> unit fio" where
  "WriteFileSyncDir p d mode = fbind (WriteFile p d mode) (\<lambda>_. SyncDir (Dir p))"

subsection \<open>The path policy (reservedpaths.go, stage1_policy.go)\<close>

definition isReservedTrustPath :: "string \<Rightarrow> bool" where
  "isReservedTrustPath p \<longleftrightarrow>
     Clean p = ''/etc/vps-gateway/trust'' \<or> HasPrefix (Clean p) ''/etc/vps-gateway/trust/''"

definition managedFileNamespaces :: "string list" where
  "managedFileNamespaces = [''etc/vps-gateway/'']"

definition sshConfigNamespaces :: "string list" where
  "sshConfigNamespaces = [''etc/ssh/sshd_config.d/'']"

definition protectedCoreResources :: "string list" where
  "protectedCoreResources =
     [''etc/vps-gateway/journal'', ''etc/vps-gateway/backups'', ''etc/vps-gateway/state.json'',
      ''etc/vps-gateway/apply.lock'']"

definition relativeProtectedCore :: "string \<Rightarrow> bool" where
  "relativeProtectedCore rel = list_ex (\<lambda>p. rel = p \<or> HasPrefix rel (p @ ''/'')) protectedCoreResources"

definition relativeInNamespace :: "string \<Rightarrow> string list \<Rightarrow> bool" where
  "relativeInNamespace rel namespaces = list_ex (\<lambda>ns. HasPrefix rel ns) namespaces"

definition relativeReservedTrust :: "string \<Rightarrow> bool" where
  "relativeReservedTrust rel \<longleftrightarrow> rel = ''etc/vps-gateway/trust'' \<or> HasPrefix rel ''etc/vps-gateway/trust/''"

definition rel_escapes :: "string option \<Rightarrow> bool" where
  "rel_escapes rel = (case rel of None \<Rightarrow> True | Some r \<Rightarrow> r = ''..'' \<or> HasPrefix r ''../'')"

definition containedJoin :: "string \<Rightarrow> string list \<Rightarrow> (string, string) result" where
  "containedJoin base elems =
     (let cleanBase = Clean base; joined = Join (cleanBase # elems) in
      if rel_escapes (Rel cleanBase joined)
      then Inl ''backup path escapes the backup root: transaction or action identifier is not path-safe''
      else Inr joined)"

fun contain_walk :: "string \<Rightarrow> string list \<Rightarrow> unit fio" where
  "contain_walk cur [] = fret ()"
| "contain_walk cur (part # parts) =
     (let cur' = Join [cur, part] in
      fbind (fs_lstat cur') (\<lambda>st.
        case st of
          None \<Rightarrow> fret ()
        | Some (NSymlink _) \<Rightarrow> ffail ''path component is a symlink: refusing to operate through it''
        | Some n \<Rightarrow> if parts \<noteq> [] \<and> n \<noteq> NDir
                     then ffail ''path component is not a directory: refusing (fail-closed)''
                     else contain_walk cur' parts))"

definition verifyPhysicalContainment :: "string \<Rightarrow> string \<Rightarrow> unit fio" where
  "verifyPhysicalContainment root logicalPath = (\<lambda>fs.
     case fs_root_error fs of
       Some e \<Rightarrow> (Inl (''executor root is not accessible: '' @ e), fs)
     | None \<Rightarrow>
         (case Rel root logicalPath of
            None \<Rightarrow> (Inl ''path is not inside the executor root'', fs)
          | Some rel \<Rightarrow>
              if rel = ''.'' then (Inl ''path resolves to the executor root itself'', fs)
              else contain_walk root (split_slash rel) fs))"

subsection \<open>The executor (file_executor.go)\<close>

record FileExecutor =
  fe_Root :: string
  fe_Backups :: string
  fe_Actions :: "(string \<Rightarrow> Action option) option"
  fe_TransactionID :: string
  fe_PlanFingerprint :: string

definition fe_BindTransaction :: "string \<times> string \<Rightarrow> FileExecutor \<Rightarrow> FileExecutor" where
  [simp]: "fe_BindTransaction ctx e = e\<lparr>fe_TransactionID := fst ctx, fe_PlanFingerprint := snd ctx\<rparr>"

definition fe_BindActions :: "(string \<Rightarrow> Action option) \<Rightarrow> FileExecutor \<Rightarrow> FileExecutor" where
  [simp]: "fe_BindActions acts e = e\<lparr>fe_Actions := Some acts\<rparr>"

definition fe_root :: "FileExecutor \<Rightarrow> string" where
  "fe_root e = (if fe_Root e = '''' then ''/'' else Clean (fe_Root e))"

definition fe_backupRoot :: "FileExecutor \<Rightarrow> string" where
  "fe_backupRoot e =
     (if fe_Backups e \<noteq> '''' then Clean (fe_Backups e) else Join [fe_root e, ''etc/vps-gateway/backups''])"

definition fe_action :: "FileExecutor \<Rightarrow> string \<Rightarrow> string \<Rightarrow> (string, Action) result" where
  "fe_action e i resource =
     (case fe_Actions e of
        None \<Rightarrow> Inl ''no action registry configured''
      | Some acts \<Rightarrow>
          (case acts i of
             None \<Rightarrow> Inl (''unknown action '' @ i)
           | Some a \<Rightarrow>
               if a_Resource a \<noteq> resource then Inl (''unknown action '' @ i)
               else if a_Ownership a \<noteq> Owned then Inl ''file mutation requires OWNED resource''
               else Inr a))"

definition file_spec :: "Action \<Rightarrow> FileActionSpec option" where
  "file_spec a = (case a_Spec a of None \<Rightarrow> None | Some s \<Rightarrow> asp_File s)"

text \<open>\<open>safePath\<close> up to the physical check: the lexical policy.\<close>

definition lexical_path :: "FileExecutor \<Rightarrow> string \<Rightarrow> (string, string) result" where
  "lexical_path e p =
     (if p = '''' \<or> \<not> IsAbs p then Inl ''file path must be absolute''
      else if isReservedTrustPath p
      then Inl (''path is reserved trust-anchor material and cannot be managed: '' @ p)
      else case Rel (fe_root e) (Clean p) of
        None \<Rightarrow> Inl (''path outside executor root: '' @ p)
      | Some rel \<Rightarrow>
          if rel = ''..'' \<or> HasPrefix rel ''../'' then Inl (''path outside executor root: '' @ p)
          else if \<not> relativeInNamespace rel managedFileNamespaces
          then Inl (''path is outside the compiled Stage 1 file namespace (etc/vps-gateway/): '' @ p)
          else if relativeReservedTrust rel
          then Inl (''path is reserved trust-anchor material and cannot be managed: '' @ p)
          else if relativeProtectedCore rel
          then Inl (''path is Core-internal state (journal/backups/state/lock) and cannot be managed by a plan action: '' @ p)
          else if p \<noteq> Clean p
          then Inl (''file path must be canonical (no redundant ., .. or separator components): '' @ p)
          else Inr (Join [fe_root e, rel]))"

definition safePath :: "FileExecutor \<Rightarrow> string \<Rightarrow> string fio" where
  "safePath e p = fbind (flift (lexical_path e p)) (\<lambda>path.
     fbind (verifyPhysicalContainment (fe_root e) path) (\<lambda>_. fret path))"

definition backupDir :: "FileExecutor \<Rightarrow> string \<Rightarrow> (string, string) result" where
  "backupDir e i =
     (if fe_TransactionID e = '''' \<or> fe_PlanFingerprint e = ''''
      then Inl ''no transaction bound: backups are transaction-scoped and refuse to run without orchestration context''
      else containedJoin (fe_backupRoot e) [fe_TransactionID e, i])"

definition writeBackupManifest :: "string \<Rightarrow> BackupManifest \<Rightarrow> unit fio" where
  "writeBackupManifest p m = WriteFileSyncDir p (Manifest (m\<lparr>bm_SchemaVersion := 1\<rparr>)) 384"

definition loadBackupManifest :: "string \<Rightarrow> BackupManifest fio" where
  "loadBackupManifest p = fbind (fs_read p) (\<lambda>d.
     case d of
       Bytes _ \<Rightarrow> ffail (''backup manifest is corrupt: '' @ p)
     | Manifest m \<Rightarrow>
         if bm_SchemaVersion m \<noteq> 1 then ffail ''backup manifest: unsupported schema version''
         else if bm_State m \<noteq> ''PRESENT'' \<and> bm_State m \<noteq> ''ABSENT'' then ffail ''backup manifest: invalid state''
         else if bm_State m = ''PRESENT'' \<and> length (bm_SHA256 m) \<noteq> 64
         then ffail ''backup manifest: PRESENT state requires a sha256 checksum''
         else fret m)"

definition validateAgainst :: "BackupManifest \<Rightarrow> string \<Rightarrow> string \<Rightarrow> string \<Rightarrow> string \<Rightarrow> (string, unit) result" where
  "validateAgainst m tx fp i resource =
     (if bm_TransactionID m \<noteq> tx then Inl ''backup manifest belongs to another transaction''
      else if bm_PlanFingerprint m \<noteq> fp then Inl ''backup manifest binds a different plan fingerprint''
      else if bm_ActionID m \<noteq> i then Inl ''backup manifest binds another action''
      else if bm_Resource m \<noteq> resource then Inl ''backup manifest binds another resource''
      else Inr ())"

definition verifyRestoredFile :: "(file_data \<Rightarrow> string) \<Rightarrow> string \<Rightarrow> string \<Rightarrow> 32 word \<Rightarrow> unit fio" where
  "verifyRestoredFile sha p wantSHA wantMode = fbind (fs_stat p) (\<lambda>st.
     case st of
       Some (NFile _ mode) \<Rightarrow>
         if Perm mode \<noteq> wantMode then ffail ''restore verification failed: mode''
         else fbind (fs_read p) (\<lambda>d.
           if sha d \<noteq> wantSHA then ffail ''restore verification failed: restored content checksum mismatch''
           else fret ())
     | None \<Rightarrow> ffail ''restore verification failed: absent''
     | _ \<Rightarrow> ffail ''restore verification failed: not a regular file'')"

definition verifyRestoredAbsence :: "string \<Rightarrow> unit fio" where
  "verifyRestoredAbsence p = fbind (fs_lstat p) (\<lambda>st.
     case st of None \<Rightarrow> fret () | Some _ \<Rightarrow> ffail ''restore verification failed: still exists after ABSENT restore'')"

definition new_manifest :: "FileExecutor \<Rightarrow> string \<Rightarrow> string \<Rightarrow> BackupManifest" where
  "new_manifest e i resource =
     \<lparr>bm_SchemaVersion = 0, bm_TransactionID = fe_TransactionID e, bm_PlanFingerprint = fe_PlanFingerprint e,
      bm_ActionID = i, bm_Resource = resource, bm_State = '''', bm_Mode = 0, bm_SHA256 = ''''\<rparr>"

definition backup_node ::
  "(file_data \<Rightarrow> string) \<Rightarrow> string \<Rightarrow> string \<Rightarrow> BackupManifest \<Rightarrow> node option \<Rightarrow> unit fio" where
  "backup_node sha path dir manifest st =
     (case st of
        None \<Rightarrow> writeBackupManifest (Join [dir, ''manifest.json'']) (manifest\<lparr>bm_State := ''ABSENT''\<rparr>)
      | Some (NSymlink _) \<Rightarrow> ffail (''managed path is a symlink: refusing to back up through it: '' @ path)
      | Some (NFile _ mode) \<Rightarrow>
          fbind (fs_read path) (\<lambda>d.
            fbind (WriteFileSyncDir (Join [dir, ''content'']) d 384) (\<lambda>_.
              writeBackupManifest (Join [dir, ''manifest.json''])
                (manifest\<lparr>bm_State := ''PRESENT'', bm_Mode := Perm mode, bm_SHA256 := sha d\<rparr>)))
      | Some _ \<Rightarrow> ffail (''managed path is not a regular file: '' @ path))"

definition fe_Backup :: "(file_data \<Rightarrow> string) \<Rightarrow> FileExecutor \<Rightarrow> string \<Rightarrow> string \<Rightarrow> unit fio" where
  "fe_Backup sha e i resource = fbind (flift (fe_action e i resource)) (\<lambda>a.
     case file_spec a of
       None \<Rightarrow> fret ()
     | Some f \<Rightarrow>
         fbind (safePath e (fas_Path f)) (\<lambda>path.
           fbind (flift (backupDir e i)) (\<lambda>dir.
             fbind (fs_mkdir_all dir) (\<lambda>_.
               fbind (fs_lstat path) (backup_node sha path dir (new_manifest e i resource))))))"

definition fe_Apply :: "FileExecutor \<Rightarrow> string \<Rightarrow> string \<Rightarrow> ActionKind \<Rightarrow> unit fio" where
  "fe_Apply e i resource kind = fbind (flift (fe_action e i resource)) (\<lambda>a.
     case file_spec a of
       None \<Rightarrow> ffail ''missing file action specification''
     | Some f \<Rightarrow>
         fbind (safePath e (fas_Path f)) (\<lambda>path.
           if fas_Delete f \<or> kind = ActionDeleteOwnedFile then
             fbind (fs_remove path) (\<lambda>_. fret ())
           else
             fbind (fs_mkdir_all (Dir path)) (\<lambda>_.
               WriteFile path (Bytes (fas_Content f)) (if fas_Mode f = 0 then 384 else fas_Mode f))))"

definition fe_Validate :: "(file_data \<Rightarrow> string) \<Rightarrow> FileExecutor \<Rightarrow> string \<Rightarrow> string \<Rightarrow> unit fio" where
  "fe_Validate sha e i resource = fbind (flift (fe_action e i resource)) (\<lambda>a.
     case file_spec a of
       None \<Rightarrow> fret ()
     | Some f \<Rightarrow>
         fbind (safePath e (fas_Path f)) (\<lambda>path.
           if fas_Delete f then
             fbind (fs_stat path) (\<lambda>st. case st of None \<Rightarrow> fret () | Some _ \<Rightarrow> ffail (''file still exists: '' @ fas_Path f))
           else fbind (fs_read path) (\<lambda>d.
             if sha d \<noteq> sha (Bytes (fas_Content f)) then ffail ''effective file content checksum mismatch''
             else fret ())))"

definition restore ::
  "(file_data \<Rightarrow> string) \<Rightarrow> string \<Rightarrow> string \<Rightarrow> BackupManifest \<Rightarrow> unit fio" where
  "restore sha path dir m =
     (if bm_State m = ''ABSENT'' then
        fbind (fs_lstat path) (\<lambda>st.
          fbind (case st of
                   None \<Rightarrow> fret ()
                 | Some _ \<Rightarrow> fbind (fs_remove path) (\<lambda>gone. if gone then fret () else ffail (''remove '' @ path)))
            (\<lambda>_. verifyRestoredAbsence path))
      else if bm_State m = ''PRESENT'' then
        fbind (fs_read (Join [dir, ''content''])) (\<lambda>d.
          if sha d \<noteq> bm_SHA256 m then ffail ''backup integrity check failed: content checksum mismatch''
          else fbind (WriteFile path d (if bm_Mode m = 0 then 384 else bm_Mode m)) (\<lambda>_.
            verifyRestoredFile sha path (bm_SHA256 m) (bm_Mode m)))
      else ffail ''backup manifest state is invalid'')"

definition fe_Rollback :: "(file_data \<Rightarrow> string) \<Rightarrow> FileExecutor \<Rightarrow> string \<Rightarrow> string \<Rightarrow> unit fio" where
  "fe_Rollback sha e i resource = fbind (flift (fe_action e i resource)) (\<lambda>a.
     case file_spec a of
       None \<Rightarrow> fret ()
     | Some f \<Rightarrow>
         if fe_TransactionID e = ''''
         then ffail ''rollback requires a bound transaction: backups are transaction-scoped''
         else
           fbind (safePath e (fas_Path f)) (\<lambda>path.
             fbind (flift (containedJoin (fe_backupRoot e) [fe_TransactionID e, i])) (\<lambda>dir.
               fbind (loadBackupManifest (Join [dir, ''manifest.json''])) (\<lambda>m.
                 fbind (flift (validateAgainst m (fe_TransactionID e) (fe_PlanFingerprint e) i resource)) (\<lambda>_.
                   restore sha path dir m)))))"

definition file_executor :: "(file_data \<Rightarrow> string) \<Rightarrow> FileExecutor \<Rightarrow> FS Executor" where
  "file_executor sha e =
     \<lparr>ex_Backup = (\<lambda>i r. run_step (fe_Backup sha e i r)), ex_Apply = (\<lambda>i r k. run_step (fe_Apply e i r k)),
      ex_Validate = (\<lambda>i r. run_step (fe_Validate sha e i r)), ex_Rollback = (\<lambda>i r. run_step (fe_Rollback sha e i r))\<rparr>"

subsection \<open>Facts about paths\<close>

lemma split_slash_sep: "split_slash (a @ CHR ''/'' # b) = split_slash a @ split_slash b"
proof (induction a)
  case (Cons c a)
  then show ?case
    by (cases "split_slash a") (auto split: list.splits)
qed simp

lemma join_split: "join_slash (split_slash s) = s"
proof (induction s)
  case (Cons c s)
  then show ?case by (cases "split_slash s" rule: join_slash.cases) (auto split: list.splits)
qed simp

lemma split_slash_inject: "split_slash a = split_slash b \<longleftrightarrow> a = b"
  by (metis join_split)

lemma clean_comps_append:
  "clean_comps rooted stack (xs @ ys) = clean_comps rooted (rev (clean_comps rooted stack xs)) ys"
  by (induction xs arbitrary: stack) (auto split: list.splits)

definition plain_id :: "string \<Rightarrow> bool" where
  "plain_id i \<longleftrightarrow> (\<forall>w \<in> set (split_slash i). plain_comp w)"

lemma plain_id_nonempty: "plain_id i \<Longrightarrow> i \<noteq> []"
proof
  assume "plain_id i" and "i = []"
  then show False by (simp add: plain_id_def plain_comp_def)
qed

lemma plain_comp_id:
  assumes "plain_comp x"
  shows "plain_id x \<and> split_slash x = [x]"
proof -
  have "split_slash x = [x]" using assms by (simp add: plain_comp_def split_slash_plain)
  with assms show ?thesis by (simp add: plain_id_def)
qed

lemma IsAbs_nonempty: "IsAbs d \<Longrightarrow> d \<noteq> []"
  by (auto simp: IsAbs_def)

lemma Join_abs:
  assumes "IsAbs d" and "plain_id x"
  shows "Join [d, x] = render_path True (path_comps d @ split_slash x)"
proof -
  have "Join [d, x] = Clean (d @ CHR ''/'' # x)"
    using assms IsAbs_nonempty plain_id_nonempty by (simp add: Join_def)
  moreover have "IsAbs (d @ CHR ''/'' # x)" using assms(1) by (auto simp: IsAbs_def prefix_def)
  moreover have "path_comps (d @ CHR ''/'' # x) = path_comps d @ split_slash x"
    using assms calculation(2)
    by (simp add: path_comps_def split_slash_sep clean_comps_append clean_comps_id plain_id_def)
  ultimately show ?thesis by (simp add: Clean_rooted)
qed

lemma comps_Join_abs:
  assumes "IsAbs d" and "plain_id x"
  shows "path_comps (Join [d, x]) = path_comps d @ split_slash x" "IsAbs (Join [d, x])"
proof -
  have "\<forall>w \<in> set (path_comps d @ split_slash x). plain_comp w"
    using path_comps_rooted_plain [OF assms(1)] assms(2) by (auto simp: plain_id_def)
  then show "path_comps (Join [d, x]) = path_comps d @ split_slash x"
    unfolding Join_abs [OF assms] by (rule path_comps_render)
  show "IsAbs (Join [d, x])" unfolding Join_abs [OF assms] by simp
qed

text \<open>A join that stays below its base: the base's components are a prefix of the result's.\<close>

lemma join_slash_dotdot: "rel_escapes (Some (join_slash (''..'' # ws)))"
  by (cases ws) (auto simp: rel_escapes_def)

lemma containedJoin_Inr:
  assumes "containedJoin base es = Inr d" and "IsAbs base"
  shows "prefix (path_comps base) (path_comps d)" "IsAbs d"
proof -
  let ?b = "Clean base"
  have abs: "IsAbs ?b" using assms(2) by (rule Clean_IsAbs)
  have d: "d = Join (?b # es)" and ne: "\<not> rel_escapes (Rel ?b d)"
    using assms(1) by (auto simp: containedJoin_def Let_def split: if_splits)
  have f: "filter (\<lambda>e. e \<noteq> []) (?b # es) = ?b # filter (\<lambda>e. e \<noteq> []) es"
    using IsAbs_nonempty [OF abs] by simp
  have absj: "IsAbs (join_slash (?b # ws))" for ws
    using abs by (cases ws) (auto simp: IsAbs_def prefix_def)
  show absd: "IsAbs d" unfolding d Join_def f by (simp add: Clean_IsAbs absj)
  obtain bs ts where dc: "drop_common (path_comps base) (path_comps d) = (bs, ts)" by fastforce
  have cb: "path_comps ?b = path_comps base" by (rule path_comps_Clean [OF assms(2)])
  show "prefix (path_comps base) (path_comps d)"
  proof (cases "Clean ?b = Clean d")
    case True
    then have "path_comps ?b = path_comps d" using abs absd path_comps_Clean by metis
    then show ?thesis by (simp add: cb)
  next
    case False
    have "bs = []"
    proof (rule ccontr)
      assume b: "bs \<noteq> []"
      from drop_common_spec [OF dc] have "set bs \<subseteq> set (path_comps base)" by auto
      then have "hd bs \<noteq> ''..''"
        using path_comps_rooted_plain [OF assms(2)] b by (metis hd_in_set plain_comp_def subsetD)
      then have "Rel ?b d = Some (join_slash (map (\<lambda>_. ''..'') bs @ ts))"
        using False abs absd b by (simp add: Rel_def cb dc)
      then show False using ne join_slash_dotdot b by (cases bs) auto
    qed
    with drop_common_spec [OF dc] show ?thesis by auto
  qed
qed

lemma containedJoin_comps:
  assumes "containedJoin base [tx, i] = Inr d" and "IsAbs base" and "tx \<noteq> []" and "plain_id i"
  shows "path_comps d = clean_comps True [] (split_slash (Clean base) @ split_slash tx) @ split_slash i"
proof -
  let ?b = "Clean base"
  have abs: "IsAbs ?b" using assms(2) by (rule Clean_IsAbs)
  have "d = Join [?b, tx, i]" using assms(1) by (auto simp: containedJoin_def Let_def split: if_splits)
  also have "\<dots> = Clean (?b @ CHR ''/'' # tx @ CHR ''/'' # i)"
    using IsAbs_nonempty [OF abs] assms(3) plain_id_nonempty [OF assms(4)] by (simp add: Join_def)
  finally have d: "d = Clean (?b @ CHR ''/'' # tx @ CHR ''/'' # i)" .
  have ab: "IsAbs (?b @ CHR ''/'' # tx @ CHR ''/'' # i)" using abs by (auto simp: IsAbs_def prefix_def)
  have "path_comps d = path_comps (?b @ CHR ''/'' # tx @ CHR ''/'' # i)"
    unfolding d by (rule path_comps_Clean [OF ab])
  also have "\<dots> = clean_comps True [] (split_slash ?b @ split_slash tx @ split_slash i)"
    using ab by (simp add: path_comps_def split_slash_sep)
  also have "\<dots> = clean_comps True [] (split_slash ?b @ split_slash tx) @ split_slash i"
    using assms(4) by (simp add: clean_comps_append [of _ _ "split_slash ?b @ split_slash tx"] clean_comps_id
        plain_id_def flip: append_assoc)
  finally show ?thesis .
qed

subsection \<open>What the system calls change\<close>

text \<open>The files of the file system; directories do not count.\<close>

definition fview :: "FS \<Rightarrow> string \<Rightarrow> node option" where
  "fview fs p = (case lookup fs p of Some NDir \<Rightarrow> None | n \<Rightarrow> n)"

text \<open>What a backup can restore of a file: its existence, its content and its permission bits.\<close>

fun perm_node :: "node \<Rightarrow> node" where
  "perm_node (NFile d m) = NFile d (Perm m)"
| "perm_node n = n"

definition perm_view :: "FS \<Rightarrow> string \<Rightarrow> node option" where
  "perm_view fs p = map_option perm_node (fview fs p)"

lemma chmod_mode_384 [simp]: "chmod_mode 384 = 384"
  by (simp add: chmod_mode_def)

lemma Perm_chmod [simp]: "Perm (chmod_mode m) = Perm m"
  by (simp add: Perm_def chmod_mode_def and.assoc)

lemma chmod_Perm: "Perm m = m \<Longrightarrow> chmod_mode m = m"
  by (metis Perm_chmod Perm_def chmod_mode_def and.assoc and.commute)

definition touches :: "string set \<Rightarrow> 'a fio \<Rightarrow> bool" where
  "touches P m \<longleftrightarrow> (\<forall>fs q. q \<notin> P \<longrightarrow> fview (snd (m fs)) q = fview fs q)"

named_theorems touch_intros \<open>which paths a computation may change\<close>

lemma map_of_filter_key:
  "map_of (filter (\<lambda>(q, _). q \<noteq> p) xs) q = (if q = p then None else map_of xs q)"
  by (induction xs) auto

lemma lookup_set [simp]: "lookup (fs_set p n fs) q = (if q = p then Some n else lookup fs q)"
  by (simp add: lookup_def fs_set_def map_of_filter_key)

lemma lookup_del [simp]: "lookup (fs_del p fs) q = (if q = p then None else lookup fs q)"
  by (simp add: lookup_def fs_del_def map_of_filter_key)

lemma fault_lookup [simp]: "lookup (snd (fault fs)) = lookup fs"
  by (auto simp: fault_def lookup_def split: list.splits option.splits)

lemma touches_bind [touch_intros]:
  assumes "touches P m" and "\<And>a. touches P (f a)"
  shows "touches P (fbind m f)"
proof -
  have "fview (snd (fbind m f fs)) q = fview fs q" if "q \<notin> P" for fs q
  proof (cases "m fs")
    case (Pair r fs1)
    have "fview fs1 q = fview fs q" using assms(1) that Pair unfolding touches_def by (metis snd_conv)
    moreover have "fview (snd (f a fs1)) q = fview fs1 q" for a using assms(2) that unfolding touches_def by blast
    ultimately show ?thesis by (cases r) (simp_all add: fbind_def Pair)
  qed
  then show ?thesis by (simp add: touches_def)
qed

lemma touches_pure [touch_intros]: "touches P (fret a)" "touches P (ffail e)" "touches P (flift r)" "touches P fault"
  by (simp_all add: touches_def fret_def ffail_def flift_def fview_def)

lemma touches_if [touch_intros]:
  "touches P m \<Longrightarrow> touches P m' \<Longrightarrow> touches P (if b then m else m')"
  by simp

lemma touches_option [touch_intros]:
  "touches P m \<Longrightarrow> (\<And>a. touches P (f a)) \<Longrightarrow> touches P (case x of None \<Rightarrow> m | Some a \<Rightarrow> f a)"
  by (cases x) auto

lemma touches_node [touch_intros]:
  "(\<And>d m. touches P (f d m)) \<Longrightarrow> touches P g \<Longrightarrow> (\<And>q. touches P (h q)) \<Longrightarrow> touches P k \<Longrightarrow>
     touches P (case n of NFile d m \<Rightarrow> f d m | NDir \<Rightarrow> g | NSymlink q \<Rightarrow> h q | NOther \<Rightarrow> k)"
  by (cases n) auto

lemma touches_data [touch_intros]:
  "(\<And>b. touches P (f b)) \<Longrightarrow> (\<And>m. touches P (g m)) \<Longrightarrow>
     touches P (case d of Bytes b \<Rightarrow> f b | Manifest m \<Rightarrow> g m)"
  by (cases d) auto

lemma touches_reads [touch_intros]: "touches P (fs_lstat p)" "touches P (fs_read p)" "touches P (fs_stat p)"
  unfolding fs_lstat_def fs_read_def fs_stat_def
  by (rule touches_bind, rule touches_pure, simp add: touches_def split: option.splits node.splits)+

lemma touches_remove [touch_intros]: "p \<in> P \<Longrightarrow> touches P (fs_remove p)"
  unfolding fs_remove_def
  by (rule touches_bind, rule touches_pure)
    (auto simp: touches_def fview_def split: option.splits node.splits)

lemma touches_write [touch_intros]: "p \<in> P \<Longrightarrow> touches P (WriteFile p d m)"
  unfolding WriteFile_def by (rule touches_bind, rule touches_pure) (auto simp: touches_def fview_def)

lemma touches_mkdir [touch_intros]: "touches P (fs_mkdir_all dir)"
proof -
  have "fview (snd (mkdir_levels ds cs fs)) q = fview fs q" for ds cs fs q
  proof (induction cs arbitrary: ds fs)
    case Nil
    then show ?case by (simp add: fret_def)
  next
    case (Cons c cs)
    let ?p = "render_path True (ds @ [c])"
    have "fview (fs_set ?p NDir fs) q = fview fs q" if "lookup fs ?p = None"
      using that by (auto simp: fview_def)
    with Cons show ?case by (auto simp: Let_def split: option.splits node.splits)
  qed
  then have "touches P (mkdir_levels [] (path_comps dir))" by (simp add: touches_def)
  then show ?thesis unfolding fs_mkdir_all_def by (intro touch_intros)
qed

lemma touches_write_sync [touch_intros]: "p \<in> P \<Longrightarrow> touches P (WriteFileSyncDir p d m)"
  unfolding WriteFileSyncDir_def SyncDir_def by (intro touch_intros)

lemma touches_walk [touch_intros]: "touches P (contain_walk cur parts)"
proof (induction parts arbitrary: cur)
  case (Cons part parts)
  then show ?case unfolding contain_walk.simps Let_def by (intro touch_intros)
qed (simp add: touch_intros)

lemma touches_containment [touch_intros]: "touches P (verifyPhysicalContainment root p)"
  using touches_walk by (auto simp: touches_def verifyPhysicalContainment_def split: option.splits)

lemma touches_safePath [touch_intros]: "touches P (safePath e p)"
  unfolding safePath_def by (intro touch_intros)

lemma touches_manifest [touch_intros]:
  "p \<in> P \<Longrightarrow> touches P (writeBackupManifest p m)" "touches P (loadBackupManifest p)"
  "touches P (verifyRestoredFile sha p h md)" "touches P (verifyRestoredAbsence p)"
  unfolding writeBackupManifest_def loadBackupManifest_def verifyRestoredFile_def verifyRestoredAbsence_def
  by (intro touch_intros; assumption)+

subsection \<open>What the operations change\<close>

lemma touches_node_opt [touch_intros]:
  "touches P n \<Longrightarrow> (\<And>d m. touches P (f d m)) \<Longrightarrow> touches P g \<Longrightarrow> (\<And>q. touches P (h q)) \<Longrightarrow> touches P k \<Longrightarrow>
     touches P (case st of None \<Rightarrow> n | Some (NFile d m) \<Rightarrow> f d m | Some NDir \<Rightarrow> g | Some (NSymlink q) \<Rightarrow> h q
       | Some NOther \<Rightarrow> k)"
  by (cases st) (auto split: node.split)

definition action_foot :: "FileExecutor \<Rightarrow> string \<Rightarrow> string set" where
  "action_foot e i =
     (case fe_Actions e of
        None \<Rightarrow> {}
      | Some acts \<Rightarrow>
          (case acts i of
             None \<Rightarrow> {}
           | Some a \<Rightarrow>
               (case file_spec a of
                  None \<Rightarrow> {}
                | Some f \<Rightarrow> (case lexical_path e (fas_Path f) of Inl _ \<Rightarrow> {} | Inr q \<Rightarrow> {q}))))"

definition backup_paths :: "FileExecutor \<Rightarrow> string \<Rightarrow> string set" where
  "backup_paths e i =
     (case containedJoin (fe_backupRoot e) [fe_TransactionID e, i] of
        Inl _ \<Rightarrow> {} | Inr d \<Rightarrow> {Join [d, ''content''], Join [d, ''manifest.json'']})"

lemma touches_flift_bind:
  "(\<And>a. r = Inr a \<Longrightarrow> touches P (f a)) \<Longrightarrow> touches P (fbind (flift r) f)"
  by (cases r) (simp_all add: touches_def fbind_def flift_def)

lemma safePath_bind:
  assumes "\<And>path. lexical_path e p = Inr path \<Longrightarrow> touches P (f path)"
  shows "touches P (fbind (safePath e p) f)"
proof (cases "lexical_path e p")
  case (Inl x)
  then show ?thesis by (simp add: touches_def fbind_def safePath_def flift_def)
next
  case (Inr path)
  have eq: "fbind (safePath e p) f = fbind (verifyPhysicalContainment (fe_root e) path) (\<lambda>_. f path)"
    by (rule ext) (auto simp: fbind_def safePath_def flift_def fret_def Inr split: sum.splits prod.splits)
  show ?thesis unfolding eq by (intro touch_intros assms Inr)
qed

lemma fe_action_Inr:
  "fe_action e i r = Inr a \<Longrightarrow> \<exists>acts. fe_Actions e = Some acts \<and> acts i = Some a"
  by (auto simp: fe_action_def split: option.splits if_splits)

lemma touches_Backup: "touches (backup_paths e i) (fe_Backup sha e i r)"
  unfolding fe_Backup_def
proof (rule touches_flift_bind)
  fix a
  show "touches (backup_paths e i) (case file_spec a of None \<Rightarrow> fret () | Some f \<Rightarrow>
      fbind (safePath e (fas_Path f)) (\<lambda>path. fbind (flift (backupDir e i)) (\<lambda>dir.
        fbind (fs_mkdir_all dir) (\<lambda>_. fbind (fs_lstat path) (backup_node sha path dir (new_manifest e i r))))))"
  proof (intro touches_option touches_pure safePath_bind touches_flift_bind touches_bind touches_mkdir touches_reads)
    fix path dir st
    assume "backupDir e i = Inr dir"
    then have "containedJoin (fe_backupRoot e) [fe_TransactionID e, i] = Inr dir"
      by (auto simp: backupDir_def split: if_splits)
    then show "touches (backup_paths e i) (backup_node sha path dir (new_manifest e i r) st)"
      unfolding backup_node_def by (intro touch_intros) (simp_all add: backup_paths_def)
  qed
qed

lemma touches_foot:
  assumes "\<And>a f path. fe_action e i r = Inr a \<Longrightarrow> file_spec a = Some f \<Longrightarrow> lexical_path e (fas_Path f) = Inr path \<Longrightarrow>
     touches {path} (g a f path)"
    and "\<And>a. touches {} (h a)"
  shows "touches (action_foot e i) (fbind (flift (fe_action e i r)) (\<lambda>a.
     case file_spec a of None \<Rightarrow> h a | Some f \<Rightarrow> fbind (safePath e (fas_Path f)) (g a f)))"
proof (rule touches_flift_bind)
  fix a assume a: "fe_action e i r = Inr a"
  then obtain acts where acts: "fe_Actions e = Some acts" "acts i = Some a" using fe_action_Inr by blast
  show "touches (action_foot e i) (case file_spec a of None \<Rightarrow> h a | Some f \<Rightarrow> fbind (safePath e (fas_Path f)) (g a f))"
  proof (cases "file_spec a")
    case None
    then show ?thesis using assms(2) [of a] by (auto simp: touches_def)
  next
    case (Some f)
    show ?thesis unfolding Some option.case
    proof (rule safePath_bind)
      fix path assume p: "lexical_path e (fas_Path f) = Inr path"
      then have "action_foot e i = {path}" by (simp add: action_foot_def acts Some)
      with assms(1) [OF a Some p] show "touches (action_foot e i) (g a f path)" by simp
    qed
  qed
qed

lemma touches_Apply: "touches (action_foot e i) (fe_Apply e i r kd)"
  unfolding fe_Apply_def by (rule touches_foot) (intro touch_intros; simp)+

lemma touches_Validate: "touches {} (fe_Validate sha e i r)"
  unfolding fe_Validate_def by (intro touch_intros)

lemma touches_restore: "touches {path} (restore sha path dir m)"
  unfolding restore_def by (intro touch_intros) simp_all

lemma touches_Rollback: "touches (action_foot e i) (fe_Rollback sha e i r)"
proof (cases "fe_TransactionID e = ''''")
  case True
  have "touches {} (fe_Rollback sha e i r)" unfolding fe_Rollback_def if_P [OF True] by (intro touch_intros)
  then show ?thesis by (auto simp: touches_def)
next
  case False
  then show ?thesis unfolding fe_Rollback_def if_not_P [OF False]
    by (intro touches_foot touch_intros touches_restore)
qed

subsection \<open>What success means\<close>

lemma fbind_Inr: "fbind m f fs = (Inr b, fs') \<longleftrightarrow> (\<exists>a fs1. m fs = (Inr a, fs1) \<and> f a fs1 = (Inr b, fs'))"
  by (auto simp: fbind_def split: prod.splits sum.splits)

lemma pure_Inr [simp]:
  "fret a fs = (Inr b, fs') \<longleftrightarrow> b = a \<and> fs' = fs"
  "ffail e fs = (Inr b, fs') \<longleftrightarrow> False"
  "flift r fs = (Inr b, fs') \<longleftrightarrow> r = Inr b \<and> fs' = fs"
  by (auto simp: fret_def ffail_def flift_def)

lemma fault_Inr: "fault fs = (Inr u, fs') \<Longrightarrow> lookup fs' = lookup fs"
  using fault_lookup [of fs] by simp

lemma lstat_Inr: "fs_lstat p fs = (Inr n, fs') \<Longrightarrow> n = lookup fs p \<and> lookup fs' = lookup fs"
  by (auto simp: fs_lstat_def fbind_Inr dest: fault_Inr)

lemma read_Inr: "fs_read p fs = (Inr d, fs') \<Longrightarrow> (\<exists>m. lookup fs p = Some (NFile d m)) \<and> lookup fs' = lookup fs"
proof -
  assume "fs_read p fs = (Inr d, fs')"
  then obtain fs1 where f: "fault fs = (Inr (), fs1)"
    and c: "(case lookup fs1 p of Some (NFile d _) \<Rightarrow> (Inr d, fs1) | _ \<Rightarrow> (Inl (''open '' @ p), fs1)) = (Inr d, fs')"
    unfolding fs_read_def fbind_Inr by auto
  obtain n where n: "lookup fs1 p = Some n" using c by (cases "lookup fs1 p") auto
  obtain m where "n = NFile d m" "fs' = fs1" using c n by (cases n) auto
  with n fault_Inr [OF f] show ?thesis by auto
qed

lemma stat_Inr: "fs_stat p fs = (Inr n, fs') \<Longrightarrow> n = lookup fs p \<and> lookup fs' = lookup fs"
  by (auto simp: fs_stat_def fbind_Inr dest: fault_Inr)

lemma write_Inr:
  "WriteFile p d m fs = (Inr u, fs') \<Longrightarrow> lookup fs' = (lookup fs)(p := Some (NFile d (chmod_mode m)))"
  by (auto simp: WriteFile_def fbind_Inr fun_eq_iff dest!: fault_Inr split: if_splits)

lemma write_sync_Inr:
  "WriteFileSyncDir p d m fs = (Inr u, fs') \<Longrightarrow> lookup fs' = (lookup fs)(p := Some (NFile d (chmod_mode m)))"
  by (auto simp: WriteFileSyncDir_def SyncDir_def fbind_Inr dest!: fault_Inr write_Inr)

lemma remove_Inr:
  "fs_remove p fs = (Inr True, fs') \<Longrightarrow> lookup fs' = (lookup fs)(p := None)"
  by (auto simp: fs_remove_def fbind_Inr fun_eq_iff dest!: fault_Inr split: if_splits)

lemma walk_Inr: "contain_walk cur parts fs = (Inr u, fs') \<Longrightarrow> lookup fs' = lookup fs"
proof (induction parts arbitrary: cur fs)
  case (Cons part parts)
  let ?p = "Join [cur, part]"
  from Cons.prems obtain st fs1 where l: "fs_lstat ?p fs = (Inr st, fs1)"
    and c: "(case st of None \<Rightarrow> fret ()
        | Some (NSymlink _) \<Rightarrow> ffail ''path component is a symlink: refusing to operate through it''
        | Some n \<Rightarrow> if parts \<noteq> [] \<and> n \<noteq> NDir
                     then ffail ''path component is not a directory: refusing (fail-closed)''
                     else contain_walk ?p parts) fs1 = (Inr u, fs')"
    unfolding contain_walk.simps Let_def fbind_Inr by auto
  have "fs' = fs1 \<or> contain_walk ?p parts fs1 = (Inr u, fs')"
  proof (cases st)
    case (Some n)
    with c show ?thesis by (cases n) (simp_all split: if_splits)
  qed (use c in simp)
  with Cons.IH lstat_Inr [OF l] show ?case by auto
qed simp

lemma safePath_Inr:
  "safePath e p fs = (Inr q, fs') \<Longrightarrow> lexical_path e p = Inr q \<and> lookup fs' = lookup fs"
  by (auto simp: safePath_def fbind_Inr verifyPhysicalContainment_def dest: walk_Inr
      split: option.splits if_splits)

lemma load_Inr:
  "loadBackupManifest p fs = (Inr m, fs') \<Longrightarrow>
     (\<exists>md. lookup fs p = Some (NFile (Manifest m) md)) \<and> lookup fs' = lookup fs
     \<and> (bm_State m = ''PRESENT'' \<or> bm_State m = ''ABSENT'')"
proof -
  assume "loadBackupManifest p fs = (Inr m, fs')"
  then obtain d fs1 where r: "fs_read p fs = (Inr d, fs1)"
    and c: "(case d of Bytes _ \<Rightarrow> ffail (''backup manifest is corrupt: '' @ p)
       | Manifest m \<Rightarrow>
           if bm_SchemaVersion m \<noteq> 1 then ffail ''backup manifest: unsupported schema version''
           else if bm_State m \<noteq> ''PRESENT'' \<and> bm_State m \<noteq> ''ABSENT'' then ffail ''backup manifest: invalid state''
           else if bm_State m = ''PRESENT'' \<and> length (bm_SHA256 m) \<noteq> 64
           then ffail ''backup manifest: PRESENT state requires a sha256 checksum''
           else fret m) fs1 = (Inr m, fs')"
    unfolding loadBackupManifest_def fbind_Inr by blast
  from c have "d = Manifest m \<and> fs' = fs1 \<and> (bm_State m = ''PRESENT'' \<or> bm_State m = ''ABSENT'')"
    by (cases d) (simp_all split: if_splits)
  with read_Inr [OF r] show ?thesis by auto
qed

text \<open>What the backup of an action holds.\<close>

definition saved_of :: "node option \<Rightarrow> node option \<Rightarrow> node option" where
  "saved_of manifest content =
     (case manifest of
        Some (NFile (Manifest m) _) \<Rightarrow>
          if bm_State m = ''ABSENT'' then None
          else (case content of Some (NFile c _) \<Rightarrow> Some (NFile c (bm_Mode m)) | _ \<Rightarrow> None)
      | _ \<Rightarrow> None)"

definition saved_node :: "FileExecutor \<Rightarrow> FS \<Rightarrow> string \<Rightarrow> node option" where
  "saved_node e fs i =
     (case containedJoin (fe_backupRoot e) [fe_TransactionID e, i] of
        Inl _ \<Rightarrow> None
      | Inr d \<Rightarrow> saved_of (fview fs (Join [d, ''manifest.json''])) (fview fs (Join [d, ''content''])))"

lemma saved_node_cong:
  "\<forall>p \<in> backup_paths e i. fview fs' p = fview fs p \<Longrightarrow> saved_node e fs' i = saved_node e fs i"
  by (cases "containedJoin (fe_backupRoot e) [fe_TransactionID e, i]")
    (simp_all add: saved_node_def backup_paths_def)

lemma backup_node_saves:
  assumes "backup_node sha path d mf (lookup fs path) fs = (Inr u, fs')"
    and "containedJoin (fe_backupRoot e) [fe_TransactionID e, i] = Inr d"
    and "Join [d, ''content''] \<noteq> Join [d, ''manifest.json'']"
  shows "saved_node e fs' i = perm_view fs path"
proof (cases "lookup fs path")
  case None
  with assms(1) have "lookup fs' (Join [d, ''manifest.json'']) =
      Some (NFile (Manifest (mf\<lparr>bm_State := ''ABSENT'', bm_SchemaVersion := 1\<rparr>)) 384)"
    by (auto simp: backup_node_def writeBackupManifest_def dest!: write_sync_Inr)
  with None show ?thesis by (simp add: saved_node_def saved_of_def assms(2) fview_def perm_view_def)
next
  case (Some n)
  then obtain d0 mode where n: "n = NFile d0 mode"
    using assms(1) by (cases n) (simp_all add: backup_node_def)
  from assms(1) obtain d1 fs1 fs2 where r: "fs_read path fs = (Inr d1, fs1)"
    and w: "WriteFileSyncDir (Join [d, ''content'']) d1 384 fs1 = (Inr (), fs2)"
    and m: "writeBackupManifest (Join [d, ''manifest.json''])
       (mf\<lparr>bm_State := ''PRESENT'', bm_Mode := Perm mode, bm_SHA256 := sha d1\<rparr>) fs2 = (Inr u, fs')"
    unfolding backup_node_def Some n option.case node.case fbind_Inr by (metis old.unit.exhaust)
  have [simp]: "d1 = d0" using read_Inr [OF r] Some n by simp
  from write_sync_Inr [OF w] write_sync_Inr [OF m [unfolded writeBackupManifest_def]] assms(3)
  show ?thesis by (simp add: saved_node_def saved_of_def assms(2) fview_def perm_view_def Some n)
qed

lemma restore_Inr:
  assumes "restore sha path dir m fs = (Inr u, fs')"
  shows "bm_State m = ''ABSENT'' \<and> lookup fs' path = None
    \<or> bm_State m = ''PRESENT'' \<and> (\<exists>c md. lookup fs (Join [dir, ''content'']) = Some (NFile c md)
        \<and> sha c = bm_SHA256 m \<and> (\<exists>md'. lookup fs' path = Some (NFile c md') \<and> Perm md' = bm_Mode m))"
proof (cases "bm_State m = ''ABSENT''")
  case True
  with assms have "\<exists>fs1. verifyRestoredAbsence path fs1 = (Inr u, fs')"
    unfolding restore_def if_P [OF True] fbind_Inr by blast
  then obtain fs1 st fs2 where "fs_lstat path fs1 = (Inr st, fs2)"
    and c: "(case st of None \<Rightarrow> fret ()
       | Some _ \<Rightarrow> ffail ''restore verification failed: still exists after ABSENT restore'') fs2 = (Inr u, fs')"
    unfolding verifyRestoredAbsence_def fbind_Inr by blast
  moreover have "st = None" "fs' = fs2" using c by (cases st; simp)+
  ultimately show ?thesis using True lstat_Inr by metis
next
  case False
  with assms have st: "bm_State m = ''PRESENT''" by (auto simp: restore_def split: if_splits)
  let ?mode = "if bm_Mode m = 0 then 384 else bm_Mode m"
  from assms obtain d fs1 fs2 where r: "fs_read (Join [dir, ''content'']) fs = (Inr d, fs1)"
    and sh: "sha d = bm_SHA256 m" and w: "WriteFile path d ?mode fs1 = (Inr (), fs2)"
    and v: "verifyRestoredFile sha path (bm_SHA256 m) (bm_Mode m) fs2 = (Inr u, fs')"
    unfolding restore_def if_not_P [OF False] if_P [OF st] by (auto simp: fbind_Inr split: if_splits)
  have l2: "lookup fs2 path = Some (NFile d (chmod_mode ?mode))" using write_Inr [OF w] by simp
  from v obtain s3 fs3 where s3: "fs_stat path fs2 = (Inr s3, fs3)"
    and c: "(case s3 of
       Some (NFile _ mode) \<Rightarrow>
         if Perm mode \<noteq> bm_Mode m then ffail ''restore verification failed: mode''
         else fbind (fs_read path) (\<lambda>d.
           if sha d \<noteq> bm_SHA256 m then ffail ''restore verification failed: restored content checksum mismatch''
           else fret ())
     | None \<Rightarrow> ffail ''restore verification failed: absent''
     | _ \<Rightarrow> ffail ''restore verification failed: not a regular file'') fs3 = (Inr u, fs')"
    unfolding verifyRestoredFile_def fbind_Inr by blast
  have "s3 = Some (NFile d (chmod_mode ?mode))" and l3: "lookup fs3 = lookup fs2" using stat_Inr [OF s3] l2 by auto
  with c have md: "Perm (chmod_mode ?mode) = bm_Mode m" and "lookup fs' = lookup fs3"
    by (auto simp: fbind_Inr dest: read_Inr split: if_splits)
  with l2 l3 md have "\<exists>md'. lookup fs' path = Some (NFile d md') \<and> Perm md' = bm_Mode m" by auto
  with st sh read_Inr [OF r] show ?thesis by blast
qed

lemma foot_spec:
  assumes "q \<in> action_foot e i"
  obtains acts a f where "fe_Actions e = Some acts" "acts i = Some a" "file_spec a = Some f"
    "lexical_path e (fas_Path f) = Inr q"
  using assms by (auto simp: action_foot_def split: option.splits sum.splits)

lemma Backup_saves:
  assumes "fe_Backup sha e i r fs = (Inr u, fs')" and q: "q \<in> action_foot e i"
    and "\<And>d. containedJoin (fe_backupRoot e) [fe_TransactionID e, i] = Inr d \<Longrightarrow>
           Join [d, ''content''] \<noteq> Join [d, ''manifest.json'']"
  shows "saved_node e fs' i = perm_view fs q"
proof -
  from q obtain acts a f where acts: "fe_Actions e = Some acts" "acts i = Some a"
    and f: "file_spec a = Some f" and lp: "lexical_path e (fas_Path f) = Inr q" by (rule foot_spec)
  from assms(1) obtain a' fs0 where "fe_action e i r = Inr a'"
    and rest: "(case file_spec a' of None \<Rightarrow> fret () | Some f \<Rightarrow>
       fbind (safePath e (fas_Path f)) (\<lambda>path. fbind (flift (backupDir e i)) (\<lambda>dir.
         fbind (fs_mkdir_all dir) (\<lambda>_.
           fbind (fs_lstat path) (backup_node sha path dir (new_manifest e i r)))))) fs0 = (Inr u, fs')"
    and fs0: "fs0 = fs"
    unfolding fe_Backup_def fbind_Inr by auto
  moreover from this have a': "a' = a" using fe_action_Inr acts by fastforce
  ultimately obtain path fs1 d fs2 st fs3 where sp: "safePath e (fas_Path f) fs = (Inr path, fs1)"
    and d: "backupDir e i = Inr d" and mk: "fs_mkdir_all d fs1 = (Inr (), fs2)"
    and ls: "fs_lstat path fs2 = (Inr st, fs3)"
    and bn: "backup_node sha path d (new_manifest e i r) st fs3 = (Inr u, fs')"
    unfolding a' f option.case fbind_Inr by auto
  have path: "path = q" "lookup fs1 = lookup fs" using safePath_Inr [OF sp] lp by auto
  have "fview fs2 q = fview fs1 q" using touches_mkdir [of "{}" d] mk unfolding touches_def by (metis empty_iff snd_conv)
  then have v: "fview fs2 q = fview fs q" by (simp add: fview_def path(2))
  have st: "st = lookup fs3 q" "lookup fs3 = lookup fs2" using lstat_Inr [OF ls] path by auto
  have cj: "containedJoin (fe_backupRoot e) [fe_TransactionID e, i] = Inr d"
    using d by (auto simp: backupDir_def split: if_splits)
  have "saved_node e fs' i = perm_view fs3 q"
    using backup_node_saves [OF bn [unfolded st(1) path(1)] cj] assms(3) [OF cj] by simp
  with v st(2) show ?thesis by (simp add: fview_def perm_view_def)
qed

lemma Rollback_restores:
  assumes "fe_Rollback sha e i r fs = (Inr u, fs')" and q: "q \<in> action_foot e i"
  shows "perm_view fs' q = saved_node e fs i"
proof -
  from q obtain acts a f where acts: "fe_Actions e = Some acts" "acts i = Some a"
    and f: "file_spec a = Some f" and lp: "lexical_path e (fas_Path f) = Inr q" by (rule foot_spec)
  from assms(1) obtain a' fs0 where "fe_action e i r = Inr a'"
    and rest: "(case file_spec a' of None \<Rightarrow> fret () | Some f \<Rightarrow>
       if fe_TransactionID e = ''''
       then ffail ''rollback requires a bound transaction: backups are transaction-scoped''
       else fbind (safePath e (fas_Path f)) (\<lambda>path.
         fbind (flift (containedJoin (fe_backupRoot e) [fe_TransactionID e, i])) (\<lambda>dir.
           fbind (loadBackupManifest (Join [dir, ''manifest.json''])) (\<lambda>m.
             fbind (flift (validateAgainst m (fe_TransactionID e) (fe_PlanFingerprint e) i r)) (\<lambda>_.
               restore sha path dir m))))) fs0 = (Inr u, fs')"
    and fs0: "fs0 = fs"
    unfolding fe_Rollback_def fbind_Inr by auto
  moreover from this have a': "a' = a" using fe_action_Inr acts by fastforce
  ultimately obtain path fs1 d m fs2 where sp: "safePath e (fas_Path f) fs = (Inr path, fs1)"
    and d: "containedJoin (fe_backupRoot e) [fe_TransactionID e, i] = Inr d"
    and lm: "loadBackupManifest (Join [d, ''manifest.json'']) fs1 = (Inr m, fs2)"
    and re: "restore sha path d m fs2 = (Inr u, fs')"
    unfolding a' f option.case by (auto simp: fbind_Inr split: if_splits)
  have path: "path = q" "lookup fs1 = lookup fs" using safePath_Inr [OF sp] lp by auto
  from load_Inr [OF lm] obtain md where "lookup fs1 (Join [d, ''manifest.json'']) = Some (NFile (Manifest m) md)"
    and l2: "lookup fs2 = lookup fs1" by blast
  with restore_Inr [OF re] show ?thesis
    by (auto simp: saved_node_def saved_of_def d fview_def perm_view_def path)
qed

subsection \<open>The executor of the running host\<close>

text \<open>
  The production configuration: root \<open>/\<close> and the default backup directory, with the transaction and
  its actions bound before the run.
\<close>

definition host_executor :: "(string \<Rightarrow> Action option) \<Rightarrow> string \<Rightarrow> string \<Rightarrow> FileExecutor" where
  "host_executor acts tx fp =
     fe_BindTransaction (tx, fp) (fe_BindActions acts
       \<lparr>fe_Root = ''/'', fe_Backups = '''', fe_Actions = None, fe_TransactionID = '''', fe_PlanFingerprint = ''''\<rparr>)"

abbreviation backup_comps :: "string list" where
  "backup_comps \<equiv> [''etc'', ''vps-gateway'', ''backups'']"

definition in_backups :: "string \<Rightarrow> bool" where
  "in_backups p \<longleftrightarrow> prefix backup_comps (path_comps p)"

lemma host_paths [simp]:
  "fe_root (host_executor acts tx fp) = ''/''"
  "fe_backupRoot (host_executor acts tx fp) = ''/etc/vps-gateway/backups''"
  "fe_TransactionID (host_executor acts tx fp) = tx"
proof -
  have "Clean ''/'' = ''/''" by code_simp
  moreover have "Join [''/'', ''etc/vps-gateway/backups''] = ''/etc/vps-gateway/backups''" by code_simp
  ultimately show "fe_root (host_executor acts tx fp) = ''/''"
    "fe_backupRoot (host_executor acts tx fp) = ''/etc/vps-gateway/backups''"
    "fe_TransactionID (host_executor acts tx fp) = tx"
    by (simp_all add: fe_root_def fe_backupRoot_def host_executor_def)
qed

lemma root_facts: "path_comps ''/'' = []" "Clean ''/'' = ''/''" "IsAbs ''/''" "IsAbs ''/etc/vps-gateway/backups''"
  "path_comps ''/etc/vps-gateway/backups'' = backup_comps"
  by code_simp+

lemma join_slash_append:
  "xs \<noteq> [] \<Longrightarrow> ys \<noteq> [] \<Longrightarrow> join_slash (xs @ ys) = join_slash xs @ CHR ''/'' # join_slash ys"
proof (induction xs rule: join_slash.induct)
  case (2 w)
  then show ?case by (cases ys) auto
qed auto

lemma join_below:
  assumes "prefix bs cs" and "bs \<noteq> []"
  shows "join_slash cs = join_slash bs \<or> HasPrefix (join_slash cs) (join_slash bs @ ''/'')"
proof -
  obtain rest where cs: "cs = bs @ rest" using assms by (auto simp: prefix_def)
  show ?thesis
  proof (cases "rest = []")
    case False
    then have "join_slash cs = (join_slash bs @ ''/'') @ join_slash rest"
      unfolding cs using join_slash_append [OF assms(2) False] by simp
    then show ?thesis by (metis prefixI)
  qed (simp add: cs)
qed

lemma Rel_root:
  assumes "IsAbs p" and "Rel ''/'' (Clean p) = Some rel" and "rel \<noteq> ''.''"
  shows "rel = join_slash (path_comps p)" "path_comps p \<noteq> []"
proof -
  have ne: "Clean ''/'' \<noteq> Clean (Clean p)" using assms(2,3) by (auto simp: Rel_def)
  have "IsAbs (Clean p)" "path_comps (Clean p) = path_comps p"
    using assms(1) by (simp_all add: Clean_IsAbs path_comps_Clean)
  then show "rel = join_slash (path_comps p)"
    using assms(2) ne by (simp add: Rel_def root_facts)
  show "path_comps p \<noteq> []"
  proof
    assume "path_comps p = []"
    then have "Clean p = ''/''" using assms(1) by (simp add: Clean_rooted render_path_def)
    with ne show False by simp
  qed
qed

lemma split_join_abs:
  assumes "IsAbs p" and "path_comps p \<noteq> []"
  shows "split_slash (join_slash (path_comps p)) = path_comps p" "plain_id (join_slash (path_comps p))"
proof -
  have pl: "\<forall>w \<in> set (path_comps p). plain_comp w" using path_comps_rooted_plain [OF assms(1)] by blast
  show s: "split_slash (join_slash (path_comps p)) = path_comps p"
    by (rule split_join [OF assms(2)]) (use pl in \<open>auto simp: plain_comp_def\<close>)
  show "plain_id (join_slash (path_comps p))" using pl by (simp add: plain_id_def s)
qed

lemma lexical_path_host:
  assumes "lexical_path (host_executor acts tx fp) p = Inr q"
  shows "q = p \<and> IsAbs p \<and> Clean p = p \<and> prefix [''etc'', ''vps-gateway''] (path_comps p)
         \<and> (\<forall>n \<in> {''trust'', ''journal'', ''backups'', ''state.json'', ''apply.lock''}.
              \<not> prefix [''etc'', ''vps-gateway'', n] (path_comps p))"
proof -
  have abs: "IsAbs p" and can: "Clean p = p"
    using assms by (auto simp: lexical_path_def split: if_splits option.splits)
  from assms obtain rel where rel: "Rel ''/'' (Clean p) = Some rel"
    and ns: "relativeInNamespace rel managedFileNamespaces" and tr: "\<not> relativeReservedTrust rel"
    and pc: "\<not> relativeProtectedCore rel" and q: "q = Join [''/'', rel]"
    by (auto simp: lexical_path_def split: if_splits option.splits)
  have "rel \<noteq> ''.''" using ns by (auto simp: relativeInNamespace_def managedFileNamespaces_def)
  note r = Rel_root [OF abs rel this]
  note s = split_join_abs [OF abs r(2)]
  have "q = render_path True (path_comps p)"
    unfolding q r(1) by (simp add: Join_abs [OF root_facts(3) s(2)] root_facts(1) s(1))
  then have qp: "q = p" using can abs by (simp add: Clean_rooted)
  have "prefix [''etc'', ''vps-gateway''] (path_comps p)"
  proof -
    obtain x where "join_slash (path_comps p) = ''etc'' @ CHR ''/'' # ''vps-gateway'' @ CHR ''/'' # x"
      using ns r(1) by (auto simp: relativeInNamespace_def managedFileNamespaces_def prefix_def)
    then have "path_comps p = ''etc'' # ''vps-gateway'' # split_slash x"
      using s(1) by (simp add: split_slash_append del: append.simps split_slash.simps)
    then show ?thesis by simp
  qed
  moreover have "\<not> prefix [''etc'', ''vps-gateway'', n] (path_comps p)"
    if n: "n \<in> {''trust'', ''journal'', ''backups'', ''state.json'', ''apply.lock''}" for n
  proof
    assume "prefix [''etc'', ''vps-gateway'', n] (path_comps p)"
    from join_below [OF this] have "rel = ''etc/vps-gateway/'' @ n \<or> HasPrefix rel ((''etc/vps-gateway/'' @ n) @ ''/'')"
      by (simp add: r(1))
    with n tr pc show False
      by (auto simp: relativeReservedTrust_def relativeProtectedCore_def protectedCoreResources_def)
  qed
  ultimately show ?thesis using abs can qp by blast
qed

text \<open>
  C6. The compiled file policy. On the running host a path passes the lexical policy exactly as it was
  given, it is absolute and canonical, it lies below \<open>/etc/vps-gateway/\<close>, and it is neither trust
  material nor the journal, the backups, the state file or the lock, nor anything inside them: no
  plan can name the tool's own recovery material.
\<close>

theorem managed_path_policy:
  assumes "lexical_path (host_executor acts tx fp) p = Inr q"
  shows "q = p \<and> IsAbs p \<and> Clean p = p \<and> prefix [''etc'', ''vps-gateway''] (path_comps p)
         \<and> (\<forall>n \<in> {''trust'', ''journal'', ''backups'', ''state.json'', ''apply.lock''}.
              \<not> prefix [''etc'', ''vps-gateway'', n] (path_comps p))"
  by (rule lexical_path_host [OF assms])

lemma foot_host: "q \<in> action_foot (host_executor acts tx fp) i \<Longrightarrow> \<not> in_backups q"
  by (erule foot_spec) (use lexical_path_host in \<open>fastforce simp: in_backups_def\<close>)

lemma leaf_names: "plain_comp ''content''" "plain_comp ''manifest.json''"
  by (simp_all add: plain_comp_def)

lemma host_backup_dir:
  assumes "containedJoin ''/etc/vps-gateway/backups'' [tx, i] = Inr d" and "plain_comp x"
  shows "path_comps (Join [d, x]) = path_comps d @ [x]" "in_backups (Join [d, x])"
proof -
  note c = containedJoin_Inr [OF assms(1) root_facts(4)]
  show eq: "path_comps (Join [d, x]) = path_comps d @ [x]"
    using comps_Join_abs(1) [OF c(2)] plain_comp_id [OF assms(2)] by simp
  show "in_backups (Join [d, x])" using c(1) by (simp add: in_backups_def eq root_facts prefix_append)
qed

lemma in_backup_paths:
  assumes "p \<in> backup_paths (host_executor acts tx fp) i"
  obtains d x where "containedJoin ''/etc/vps-gateway/backups'' [tx, i] = Inr d" "plain_comp x" "p = Join [d, x]"
  using assms leaf_names by (auto simp: backup_paths_def split: sum.splits)

lemma backup_paths_host:
  "p \<in> backup_paths (host_executor acts tx fp) i \<Longrightarrow> in_backups p"
  using host_backup_dir(2) leaf_names by (auto simp: backup_paths_def split: sum.splits)

lemma leaves_differ:
  assumes "containedJoin ''/etc/vps-gateway/backups'' [tx, i] = Inr d"
  shows "Join [d, ''content''] \<noteq> Join [d, ''manifest.json'']"
proof
  assume "Join [d, ''content''] = Join [d, ''manifest.json'']"
  then have "path_comps d @ [''content''] = path_comps d @ [''manifest.json'']"
    using host_backup_dir(1) [OF assms leaf_names(1)] host_backup_dir(1) [OF assms leaf_names(2)] by simp
  then show False by simp
qed

lemma backup_paths_disjoint:
  assumes "plain_id i" and "plain_id j" and "i \<noteq> j" and "tx \<noteq> []"
  shows "backup_paths (host_executor acts tx fp) i \<inter> backup_paths (host_executor acts tx fp) j = {}"
proof -
  have False if "containedJoin ''/etc/vps-gateway/backups'' [tx, i] = Inr d"
      "containedJoin ''/etc/vps-gateway/backups'' [tx, j] = Inr d'" "plain_comp x" "plain_comp y"
      "Join [d, x] = Join [d', y]" for d d' x y
  proof -
    have "path_comps d @ [x] = path_comps d' @ [y]"
      using that host_backup_dir(1) by metis
    then have "path_comps d = path_comps d'" by simp
    then have "split_slash i = split_slash j"
      using containedJoin_comps [OF that(1) root_facts(4) assms(4,1)]
        containedJoin_comps [OF that(2) root_facts(4) assms(4,2)] by simp
    with assms(3) show False by (simp add: split_slash_inject)
  qed
  then show ?thesis by (metis in_backup_paths disjoint_iff)
qed

text \<open>
  What a transaction is held to, path by path: nothing inside the backup directory, all that a backup
  can restore of a file some action names, and every other file as it is.
\<close>

definition host_view :: "FileExecutor \<Rightarrow> FS \<Rightarrow> string \<Rightarrow> node option" where
  "host_view e fs p =
     (if in_backups p then None
      else if \<exists>i. p \<in> action_foot e i then perm_view fs p else fview fs p)"

lemma host_view_frame: "fview fs' p = fview fs p \<Longrightarrow> host_view e fs' p = host_view e fs p"
  by (simp add: host_view_def perm_view_def)

lemma host_view_foot:
  "p \<in> action_foot (host_executor acts tx fp) i \<Longrightarrow> host_view (host_executor acts tx fp) fs p = perm_view fs p"
  using foot_host by (auto simp: host_view_def)

lemma run_step_snd: "snd (run_step m fs) = snd (m fs)"
  by (auto simp: run_step_def split: prod.splits sum.splits)

lemma run_step_None: "fst (run_step m fs) = None \<Longrightarrow> m fs = (Inr (), snd (m fs))"
  by (auto simp: run_step_def split: prod.splits sum.splits)

lemma touches_view: "touches P m \<Longrightarrow> q \<notin> P \<Longrightarrow> fview (snd (m fs)) q = fview fs q"
  by (simp add: touches_def)

interpretation hostfs: reversible_executor "file_executor sha (host_executor acts tx fp)"
    "host_view (host_executor acts tx fp)"
    "\<lambda>fs i k. saved_node (host_executor acts tx fp) fs i" "action_foot (host_executor acts tx fp)"
    "\<lambda>i r. plain_id i \<and> tx \<noteq> []" for sha acts tx fp
proof (unfold_locales, goal_cases)
  case (1 i r s)
  have "fview (snd (fe_Backup sha (host_executor acts tx fp) i r s)) p = fview s p" if "\<not> in_backups p" for p
    using touches_view [OF touches_Backup] backup_paths_host that by blast
  then show ?case by (simp add: fun_eq_iff host_view_def perm_view_def file_executor_def run_step_snd)
next
  case (2 i r s k)
  have "saved_node (host_executor acts tx fp) (snd (fe_Backup sha (host_executor acts tx fp) i r s)) i = perm_view s k"
    by (rule Backup_saves [of sha _ i r s "()"]) (use 2 leaves_differ run_step_None in \<open>auto simp: file_executor_def\<close>)
  with host_view_foot [OF 2(3)] show ?case by (simp add: file_executor_def run_step_snd)
next
  case (3 i r j q s)
  have "saved_node (host_executor acts tx fp) (snd (fe_Backup sha (host_executor acts tx fp) i r s)) j =
      saved_node (host_executor acts tx fp) s j"
    by (rule saved_node_cong) (use 3 backup_paths_disjoint touches_view [OF touches_Backup] in blast)
  then show ?case by (simp add: file_executor_def run_step_snd)
next
  case (4 i r k kd s)
  then have "fview (snd (fe_Apply (host_executor acts tx fp) i r kd s)) k = fview s k"
    using touches_view [OF touches_Apply] by blast
  from host_view_frame [OF this] show ?case by (simp add: file_executor_def run_step_snd)
next
  case (5 i r j q kd s)
  have "saved_node (host_executor acts tx fp) (snd (fe_Apply (host_executor acts tx fp) i r kd s)) j =
      saved_node (host_executor acts tx fp) s j"
    by (rule saved_node_cong) (use foot_host backup_paths_host touches_view [OF touches_Apply] in blast)
  then show ?case by (simp add: file_executor_def run_step_snd)
next
  case (6 i r s)
  have "fview (snd (fe_Validate sha (host_executor acts tx fp) i r s)) p = fview s p" for p
    using touches_view [OF touches_Validate] by blast
  then show ?case by (simp add: fun_eq_iff host_view_def perm_view_def file_executor_def run_step_snd)
next
  case (7 i r j q s)
  have "saved_node (host_executor acts tx fp) (snd (fe_Validate sha (host_executor acts tx fp) i r s)) j =
      saved_node (host_executor acts tx fp) s j"
    by (rule saved_node_cong) (use touches_view [OF touches_Validate] in blast)
  then show ?case by (simp add: file_executor_def run_step_snd)
next
  case (8 i r s k)
  have "fe_Rollback sha (host_executor acts tx fp) i r s = (Inr (), snd (fe_Rollback sha (host_executor acts tx fp) i r s))"
    using 8(2) run_step_None by (simp add: file_executor_def)
  from Rollback_restores [OF this 8(3)] host_view_foot [OF 8(3)] show ?case
    by (simp add: file_executor_def run_step_snd)
next
  case (9 i r k s)
  then have "fview (snd (fe_Rollback sha (host_executor acts tx fp) i r s)) k = fview s k"
    using touches_view [OF touches_Rollback] by blast
  from host_view_frame [OF this] show ?case by (simp add: file_executor_def run_step_snd)
next
  case (10 i r j q s)
  have "saved_node (host_executor acts tx fp) (snd (fe_Rollback sha (host_executor acts tx fp) i r s)) j =
      saved_node (host_executor acts tx fp) s j"
    by (rule saved_node_cong) (use foot_host backup_paths_host touches_view [OF touches_Rollback] in blast)
  then show ?case by (simp add: file_executor_def run_step_snd)
qed

subsection \<open>Transactions on the host\<close>

definition registry :: "Action list \<Rightarrow> string \<Rightarrow> Action option" where
  "registry as = map_of (map (\<lambda>a. (a_ID a, a)) as)"

definition action_path :: "Action \<Rightarrow> string option" where
  "action_path a = map_option fas_Path (file_spec a)"

lemma registry_Some: "registry as i = Some a \<Longrightarrow> a \<in> set as \<and> a_ID a = i"
  by (auto simp: registry_def dest: map_of_SomeD)

lemma registry_in: "distinct (map a_ID as) \<Longrightarrow> a \<in> set as \<Longrightarrow> registry as (a_ID a) = Some a"
  by (simp add: registry_def map_of_map_key_distinct)

lemma registry_foot:
  assumes "q \<in> action_foot (host_executor (registry as) tx fp) i"
  obtains a where "a \<in> set as" "a_ID a = i" "action_path a = Some q"
proof -
  from assms obtain acts a f where "fe_Actions (host_executor (registry as) tx fp) = Some acts" "acts i = Some a"
    "file_spec a = Some f" and l: "lexical_path (host_executor (registry as) tx fp) (fas_Path f) = Inr q"
    by (rule foot_spec)
  moreover have "fas_Path f = q" using lexical_path_host [OF l] by simp
  ultimately show ?thesis
    using that registry_Some by (fastforce simp: host_executor_def action_path_def)
qed

lemma registry_disjoint:
  assumes "distinct (map a_ID as)" and "distinct (map action_path as)"
  shows "pairwise (\<lambda>a b. action_foot (host_executor (registry as) tx fp) (a_ID a)
            \<inter> action_foot (host_executor (registry as) tx fp) (a_ID b) = {}) (set as)"
proof (rule pairwiseI, rule equals0I)
  fix a b q
  let ?foot = "action_foot (host_executor (registry as) tx fp)"
  assume ab: "a \<in> set as" "b \<in> set as" "a \<noteq> b" and q: "q \<in> ?foot (a_ID a) \<inter> ?foot (a_ID b)"
  from q obtain a' b' where a': "a' \<in> set as" "a_ID a' = a_ID a" "action_path a' = Some q"
    and b': "b' \<in> set as" "a_ID b' = a_ID b" "action_path b' = Some q"
    by (meson IntD1 IntD2 registry_foot)
  have "a' = b'" using a' b' assms(2) by (metis distinct_map inj_onD)
  then have "a_ID a = a_ID b" using a' b' by simp
  with ab assms(1) show False by (metis distinct_map inj_onD)
qed

lemma sink_nodes_frames:
  assumes "\<forall>ev i fs. fs_nodes (snd (progress e ev i fs)) = fs_nodes fs"
  shows "hostfs.sink_frames acts tx fp e"
proof -
  have "fview (snd (progress e ev i fs)) = fview fs" for ev i fs
    using assms by (simp add: fview_def lookup_def fun_eq_iff)
  then show ?thesis
    by (auto simp: hostfs.sink_frames_def fun_eq_iff intro!: saved_node_cong host_view_frame)
qed


lemma Apply_writes:
  assumes "fe_Apply e i r kd fs = (Inr u, fs')" and "fe_Actions e = Some acts" "acts i = Some a" "file_spec a = Some f"
    and "\<not> fas_Delete f" and "kd \<noteq> ActionDeleteOwnedFile"
  shows "\<exists>q. lexical_path e (fas_Path f) = Inr q
           \<and> lookup fs' q = Some (NFile (Bytes (fas_Content f)) (chmod_mode (if fas_Mode f = 0 then 384 else fas_Mode f)))"
proof -
  obtain a' where "fe_action e i r = Inr a'"
    using assms(1) by (auto simp: fe_Apply_def fbind_Inr)
  with assms(2,3) have act: "fe_action e i r = Inr a" using fe_action_Inr by fastforce
  from assms(1) obtain q fs1 fs2 where "safePath e (fas_Path f) fs = (Inr q, fs1)"
    "WriteFile q (Bytes (fas_Content f)) (if fas_Mode f = 0 then 384 else fas_Mode f) fs2 = (Inr u, fs')"
    using assms(4-6) by (auto simp: fe_Apply_def fbind_Inr act)
  then show ?thesis using safePath_Inr write_Inr by (metis fun_upd_same)
qed

lemma fview_file: "fview fs p = Some (NFile d m) \<longleftrightarrow> lookup fs p = Some (NFile d m)"
  by (auto simp: fview_def split: option.splits node.splits)

lemma fview_nodes: "fs_nodes fs = fs_nodes fs' \<Longrightarrow> fview fs = fview fs'"
  by (simp add: fview_def lookup_def fun_eq_iff)

text \<open>One successful action: its file is written, every other file outside the backups stays.\<close>

lemma action_succeeds:
  assumes "\<forall>ev i fs. fs_nodes (snd (progress e ev i fs)) = fs_nodes fs"
    and "H = host_executor acts tx fp" and "acts (a_ID a) = Some a" and "file_spec a = Some f"
    and "\<not> fas_Delete f" and "a_Kind a \<noteq> ActionDeleteOwnedFile"
    and "ex_Backup (file_executor sha H) (a_ID a) (a_Resource a) fs = (None, fs1)"
    and "apply_step e (file_executor sha H) a fs1 = (None, fs2)"
    and "ex_Validate (file_executor sha H) (a_ID a) (a_Resource a) fs2 = (None, fs3)"
  shows "lookup fs3 (fas_Path f) = Some (NFile (Bytes (fas_Content f)) (chmod_mode (if fas_Mode f = 0 then 384 else fas_Mode f)))"
    and "\<not> in_backups q \<Longrightarrow> q \<noteq> fas_Path f \<Longrightarrow> fview fs3 q = fview fs q"
proof -
  have b: "fs1 = snd (fe_Backup sha H (a_ID a) (a_Resource a) fs)"
    using assms(7) run_step_snd by (metis Executor.select_convs(1) file_executor_def snd_conv)
  obtain fsa where ap: "fe_Apply H (a_ID a) (a_Resource a) (a_Kind a) fs1 = (Inr (), fsa)"
    and n2: "fs_nodes fs2 = fs_nodes fsa"
  proof -
    obtain err t1 where t1: "run_step (fe_Apply H (a_ID a) (a_Resource a) (a_Kind a)) fs1 = (err, t1)"
      by (metis prod.exhaust)
    have none: "err = None" and "\<exists>ev. fs2 = snd (progress e ev (a_ID a) t1)"
      using assms(8) t1
      by (auto simp: apply_step_def file_executor_def Let_def split: option.splits prod.splits) (metis snd_conv)
    then have "fs_nodes fs2 = fs_nodes t1" using assms(1) by auto
    moreover have "fe_Apply H (a_ID a) (a_Resource a) (a_Kind a) fs1 = (Inr (), t1)"
      using run_step_None [of "fe_Apply H (a_ID a) (a_Resource a) (a_Kind a)" fs1] run_step_snd t1 none
      by (metis fst_conv snd_conv)
    ultimately show ?thesis using that by blast
  qed
  have v: "fs3 = snd (fe_Validate sha H (a_ID a) (a_Resource a) fs2)"
    using assms(9) run_step_snd by (metis Executor.select_convs(3) file_executor_def snd_conv)
  have fv: "fview fs3 = fview fsa"
    using touches_view [OF touches_Validate] v fview_nodes [OF n2] by (auto simp: fun_eq_iff)
  have H: "fe_Actions H = Some acts" by (simp add: assms(2) host_executor_def)
  from Apply_writes [OF ap H assms(3,4,5,6)] obtain q0 where q0: "lexical_path H (fas_Path f) = Inr q0"
    and l: "lookup fsa q0 = Some (NFile (Bytes (fas_Content f)) (chmod_mode (if fas_Mode f = 0 then 384 else fas_Mode f)))"
    by blast
  have p0: "q0 = fas_Path f" using lexical_path_host q0 assms(2) by blast
  with l fv show "lookup fs3 (fas_Path f) =
      Some (NFile (Bytes (fas_Content f)) (chmod_mode (if fas_Mode f = 0 then 384 else fas_Mode f)))"
    by (metis fview_file)
  have foot: "action_foot H (a_ID a) = {fas_Path f}"
    using q0 p0 by (simp add: action_foot_def H assms(3,4))
  assume q: "\<not> in_backups q" "q \<noteq> fas_Path f"
  have "fview fsa q = fview fs1 q"
    using touches_view [OF touches_Apply, of q H "a_ID a" "a_Resource a" "a_Kind a" fs1] ap foot q by simp
  moreover have "fview fs1 q = fview fs q"
    using touches_view [OF touches_Backup] backup_paths_host q(1) b assms(2) by blast
  ultimately show "fview fs3 q = fview fs q" using fv by simp
qed

lemma clean_run_writes:
  assumes "\<forall>ev i fs. fs_nodes (snd (progress e ev i fs)) = fs_nodes fs"
    and "H = host_executor acts tx fp" and "\<forall>a \<in> set as. acts (a_ID a) = Some a"
    and "\<forall>a \<in> set as. \<exists>f. file_spec a = Some f \<and> \<not> fas_Delete f \<and> \<not> in_backups (fas_Path f)"
    and "\<forall>a \<in> set as. a_Kind a \<noteq> ActionDeleteOwnedFile"
    and "distinct (map action_path as)"
    and "clean_run e (file_executor sha H) as fs = Some fs'"
  shows "(\<forall>a \<in> set as. \<forall>f. file_spec a = Some f \<longrightarrow> lookup fs' (fas_Path f) =
            Some (NFile (Bytes (fas_Content f)) (chmod_mode (if fas_Mode f = 0 then 384 else fas_Mode f))))
         \<and> (\<forall>q. \<not> in_backups q \<longrightarrow> Some q \<notin> action_path ` set as \<longrightarrow> fview fs' q = fview fs q)"
  using assms
proof (induction as arbitrary: fs)
  case (Cons a as)
  from Cons.prems(7) obtain fs1 fs2 fs3
    where s1: "ex_Backup (file_executor sha H) (a_ID a) (a_Resource a) fs = (None, fs1)"
    and s2: "apply_step e (file_executor sha H) a fs1 = (None, fs2)"
    and s3: "ex_Validate (file_executor sha H) (a_ID a) (a_Resource a) fs2 = (None, fs3)"
    and rest: "clean_run e (file_executor sha H) as fs3 = Some fs'"
    by (auto split: prod.splits option.splits)
  obtain f where f: "file_spec a = Some f" "\<not> fas_Delete f" "\<not> in_backups (fas_Path f)" using Cons.prems(4) by auto
  have k: "a_Kind a \<noteq> ActionDeleteOwnedFile" and acts: "acts (a_ID a) = Some a" using Cons.prems(3,5) by auto
  note one = action_succeeds [OF Cons.prems(1,2) acts f(1,2) k s1 s2 s3]
  from Cons.IH [OF Cons.prems(1,2) _ _ _ _ rest] Cons.prems(3-6)
  have ih1: "\<forall>a \<in> set as. \<forall>f. file_spec a = Some f \<longrightarrow> lookup fs' (fas_Path f) =
            Some (NFile (Bytes (fas_Content f)) (chmod_mode (if fas_Mode f = 0 then 384 else fas_Mode f)))"
    and ih2: "\<forall>q. \<not> in_backups q \<longrightarrow> Some q \<notin> action_path ` set as \<longrightarrow> fview fs' q = fview fs3 q"
    by auto
  have ap: "action_path a = Some (fas_Path f)" using f by (simp add: action_path_def)
  then have "fview fs' (fas_Path f) = fview fs3 (fas_Path f)" using ih2 f(3) Cons.prems(6) by auto
  with one(1) have here: "lookup fs' (fas_Path f) =
      Some (NFile (Bytes (fas_Content f)) (chmod_mode (if fas_Mode f = 0 then 384 else fas_Mode f)))" by (metis fview_file)
  have "fview fs' q = fview fs q" if "\<not> in_backups q" "Some q \<notin> action_path ` set (a # as)" for q
    using ih2 one(2) [OF that(1)] that ap by auto
  with ih1 here f(1) show ?case by auto
qed auto


subsection \<open>Samples\<close>

definition ex_sha :: "file_data \<Rightarrow> string" where
  "ex_sha d = (case d of Bytes s \<Rightarrow> take 64 (s @ replicate 64 CHR ''0'') | Manifest _ \<Rightarrow> replicate 64 CHR ''f'')"

definition ex_write :: "nat \<Rightarrow> string \<Rightarrow> string \<Rightarrow> Action" where
  "ex_write n p content =
     \<lparr>a_ID = actionID n (''file.'' @ p), a_Resource = ''file.'' @ p, a_Kind = ActionUpdateFile, a_Ownership = Owned,
      a_Why = '''', a_Dependencies = [], a_Risk = RiskMedium, a_Validation = '''', a_Rollback = '''',
      a_Spec = Some (empty_ActionSpec\<lparr>asp_File := Some \<lparr>fas_Path = p, fas_Content = content, fas_Mode = 0,
        fas_Delete = False, fas_ValidatePath = ''''\<rparr>\<rparr>)\<rparr>"

definition ex_fs :: "string option list \<Rightarrow> FS" where
  "ex_fs faults =
     \<lparr>fs_nodes = [(''/etc'', NDir), (''/etc/vps-gateway'', NDir),
        (''/etc/vps-gateway/a'', NFile (Bytes ''old'') 384)], fs_faults = faults, fs_root_error = None\<rparr>"

definition plain_engine :: "'s Engine" where
  "plain_engine = \<lparr>eng_Executor = None, eng_Now = (\<lambda>_. 0), eng_ID = None, eng_Progress = None\<rparr>"

definition ex_run :: "Action list \<Rightarrow> string option list \<Rightarrow> FS outcome" where
  "ex_run as faults =
     run_actions plain_engine (file_executor ex_sha (host_executor (registry as) ''tx-1'' ''fp'')) as [] [] (ex_fs faults)"

definition ex_twice :: "Action list" where
  "ex_twice = [ex_write 0 ''/etc/vps-gateway/a'' ''one'', ex_write 1 ''/etc/vps-gateway/a'' ''two'']"


definition ex_one :: "Action list" where
  "ex_one = [ex_write 0 ''/etc/vps-gateway/a'' ''one'']"

theorem managed_path_policy_witness:
  "lexical_path (host_executor (registry ex_one) ''tx-1'' ''fp'') ''/etc/vps-gateway/a'' = Inr ''/etc/vps-gateway/a''
   \<and> IsAbs ''/etc/vps-gateway/a''"
proof -
  have "lexical_path (host_executor (registry ex_one) ''tx-1'' ''fp'') ''/etc/vps-gateway/a'' = Inr ''/etc/vps-gateway/a''"
    by code_simp
  with managed_path_policy [OF this] show ?thesis by blast
qed

lemma plain_engine_frames: "\<forall>ev i fs. fs_nodes (snd (progress plain_engine ev i fs)) = fs_nodes fs"
  by (simp add: progress_def plain_engine_def)

lemma ex_one_facts:
  "\<forall>a \<in> set ex_one. plain_id (a_ID a)" "distinct (map a_ID ex_one)" "distinct (map action_path ex_one)"
  "\<not> in_backups ''/etc/vps-gateway/a''"
  "\<forall>a \<in> set ex_one. a_Kind a \<noteq> ActionDeleteOwnedFile
     \<and> (case file_spec a of None \<Rightarrow> False | Some f \<Rightarrow> \<not> fas_Delete f \<and> \<not> in_backups (fas_Path f))"
  by code_simp+

lemma ex_one_run:
  "fst (ex_run ex_one []) = StatusApplied"
  "fview (snd (snd (snd (ex_run ex_one [])))) ''/etc/vps-gateway/a'' \<noteq> fview (ex_fs []) ''/etc/vps-gateway/a''"
  "perm_view (snd (snd (snd (ex_run ex_one [])))) ''/etc/vps-gateway/a'' \<noteq> perm_view (ex_fs []) ''/etc/vps-gateway/a''"
  by code_simp+

lemma ex_one_outcome:
  obtains err rs fs' where
    "run_actions plain_engine (file_executor ex_sha (host_executor (registry ex_one) ''tx-1'' ''fp'')) ex_one [] [] (ex_fs [])
       = (StatusApplied, err, rs, fs')"
    "fview fs' ''/etc/vps-gateway/a'' \<noteq> fview (ex_fs []) ''/etc/vps-gateway/a''"
    "(StatusApplied, err, rs, fs') = ex_run ex_one []"
    "perm_view fs' ''/etc/vps-gateway/a'' \<noteq> perm_view (ex_fs []) ''/etc/vps-gateway/a''"
  using ex_one_run by (cases "ex_run ex_one []") (auto simp: ex_run_def)



text \<open>
  Overlapping actions are not undone in reverse order. Two actions of one plan write the same file;
  the disk fills up while the second is being applied. The engine rolls the completed first action back
  before the failed second one, so the second action's backup, taken after the first write, is what
  stays: the transaction reports ROLLED_BACK with every result rolled back, while the file holds the
  first action's content instead of the original one. Distinct paths are needed for containment.
\<close>

lemma failed_action_rolled_back_last:
  "let (st, err, rs, fs') = ex_run ex_twice (replicate 29 None @ [Some ''disk full''])
   in st = StatusRolledBack \<and> list_all ar_RolledBack rs
      \<and> lookup (ex_fs []) ''/etc/vps-gateway/a'' = Some (NFile (Bytes ''old'') 384)
      \<and> lookup fs' ''/etc/vps-gateway/a'' = Some (NFile (Bytes ''one'') 384)"
  by code_simp

text \<open>
  A rollback loses the setuid, setgid and sticky bits. The backup records \<open>Mode().Perm()\<close> and the check
  after the restore compares \<open>Perm()\<close> again, so a setuid file whose update fails comes back without the
  bit, in a transaction that reports ROLLED_BACK with a verified restore.
\<close>

lemma rollback_loses_setuid:
  "let fs0 = (ex_fs (replicate 18 None @ [Some ''read error'']))
               \<lparr>fs_nodes := [(''/etc'', NDir), (''/etc/vps-gateway'', NDir),
                  (''/etc/vps-gateway/a'', NFile (Bytes ''old'') 8389101)]\<rparr>;
       (st, err, rs, fs') =
         run_actions plain_engine (file_executor ex_sha (host_executor (registry ex_one) ''tx-1'' ''fp'')) ex_one [] [] fs0
   in st = StatusRolledBack \<and> list_all ar_RolledBack rs
      \<and> lookup fs' ''/etc/vps-gateway/a'' = Some (NFile (Bytes ''old'') 493)"
  by code_simp

end
