(* ===== verification/Text.thy ===== *)
theory Text
  imports Prelude
begin

text \<open>
  Line and word splitting as the sources use it: \<open>strings.Split\<close> and \<open>strings.Join\<close> with a one-byte
  separator, and \<open>strings.Fields\<close> on ASCII white space.
\<close>

fun SplitBy :: "(char \<Rightarrow> bool) \<Rightarrow> string \<Rightarrow> string list" where
  "SplitBy p [] = [[]]"
| "SplitBy p (c # s) =
     (if p c then [] # SplitBy p s
      else case SplitBy p s of [] \<Rightarrow> [[c]] | w # ws \<Rightarrow> (c # w) # ws)"

definition Split :: "char \<Rightarrow> string \<Rightarrow> string list" where
  "Split c = SplitBy (\<lambda>x. x = c)"

definition Fields :: "string \<Rightarrow> string list" where
  "Fields s = filter (\<lambda>w. w \<noteq> []) (SplitBy is_space s)"

fun JoinWith :: "char \<Rightarrow> string list \<Rightarrow> string" where
  "JoinWith c [] = []"
| "JoinWith c [w] = w"
| "JoinWith c (w # ws) = w @ c # JoinWith c ws"

lemma SplitBy_nonempty [simp]: "SplitBy p s \<noteq> []"
  by (cases s) (auto split: list.splits)

lemma SplitBy_words: "\<forall>w \<in> set (SplitBy p s). \<forall>c \<in> set w. \<not> p c"
proof (induction s)
  case (Cons a s)
  then show ?case by (cases "SplitBy p s") auto
qed simp

lemma SplitBy_plain: "\<forall>c \<in> set w. \<not> p c \<Longrightarrow> SplitBy p w = [w]"
  by (induction w) auto

lemma SplitBy_append_sep: "p c \<Longrightarrow> SplitBy p (a @ c # b) = SplitBy p a @ SplitBy p b"
proof (induction a)
  case (Cons x a)
  then show ?case by (cases "SplitBy p a") auto
qed simp

lemma Split_sep: "c \<notin> set w \<Longrightarrow> Split c (w @ c # b) = w # Split c b"
  using SplitBy_plain [of w "\<lambda>x. x = c"] by (auto simp: Split_def SplitBy_append_sep)

lemma Split_plain: "c \<notin> set w \<Longrightarrow> Split c w = [w]"
  using SplitBy_plain [of w "\<lambda>x. x = c"] by (auto simp: Split_def)

lemma Split_nonempty [simp]: "Split c s \<noteq> []"
  by (simp add: Split_def)

lemma JoinWith_Cons: "ws \<noteq> [] \<Longrightarrow> JoinWith c (w # ws) = w @ c # JoinWith c ws"
  by (cases ws) auto

lemma JoinWith_Split [simp]: "JoinWith c (Split c s) = s"
proof (induction s)
  case (Cons x s)
  show ?case
  proof (cases "x = c")
    case True
    with Cons show ?thesis by (simp add: Split_def JoinWith_Cons)
  next
    case False
    obtain w ws where ws: "SplitBy (\<lambda>x. x = c) s = w # ws" using SplitBy_nonempty by (meson neq_Nil_conv)
    with Cons have "JoinWith c (w # ws) = s" by (simp add: Split_def)
    then show ?thesis using False ws by (cases ws) (auto simp: Split_def)
  qed
qed (simp add: Split_def)

lemma Split_JoinWith: "ws \<noteq> [] \<Longrightarrow> \<forall>w \<in> set ws. c \<notin> set w \<Longrightarrow> Split c (JoinWith c ws) = ws"
  by (induction ws rule: JoinWith.induct) (auto simp: Split_plain Split_sep)

end
