(* ===== verification/Executors.thy ===== *)
theory Executors
  imports File_Executor Text
begin

text \<open>
  The remaining executors of \<open>internal/apply\<close>: the registry that dispatches by action kind
  (\<open>registry.go\<close>), the service executor with its compiled unit policy (\<open>service_executor.go\<close>,
  \<open>service_preflight.go\<close>, \<open>stage1_policy.go\<close>), the SSH executor (\<open>ssh_executor.go\<close>) and the second phase of
  an SSH migration (\<open>ssh_finalize_executor.go\<close>, \<open>management.go\<close>). Machine commands go through a runner, a
  parameter: it takes a command line and may change the whole state. The service executor works on any
  state; the SSH executors work on a host, the file system of the file executor beside a part only
  commands touch.
\<close>

type_synonym 's runner = "string \<Rightarrow> string list \<Rightarrow> ('s, string) io"

subsection \<open>The registry (registry.go)\<close>

record 's Registry =
  reg_ByKind :: "(ActionKind \<Rightarrow> 's Executor option) option"
  reg_Actions :: "string \<Rightarrow> Action option"

definition reg_action :: "'s Registry \<Rightarrow> string \<Rightarrow> string \<Rightarrow> (string, Action) result" where
  "reg_action r i resource =
     (case reg_Actions r i of
        None \<Rightarrow> Inl (''unknown action '' @ i)
      | Some a \<Rightarrow> if a_Resource a \<noteq> resource then Inl (''unknown action '' @ i) else Inr a)"

definition reg_executor :: "'s Registry \<Rightarrow> ActionKind \<Rightarrow> (string, 's Executor) result" where
  "reg_executor r k =
     (case reg_ByKind r of
        None \<Rightarrow> Inl ''no action executors registered''
      | Some byKind \<Rightarrow>
          (case byKind k of
             None \<Rightarrow> Inl (''no executor registered for action kind '' @ kind_string k)
           | Some ex \<Rightarrow> Inr ex))"

definition forAction :: "'s Registry \<Rightarrow> string \<Rightarrow> string \<Rightarrow> (string, 's Executor \<times> Action) result" where
  "forAction r i resource =
     (case reg_action r i resource of
        Inl e \<Rightarrow> Inl e
      | Inr a \<Rightarrow> (case reg_executor r (a_Kind a) of Inl e \<Rightarrow> Inl e | Inr ex \<Rightarrow> Inr (ex, a)))"

definition reg_Backup :: "'s Registry \<Rightarrow> string \<Rightarrow> string \<Rightarrow> 's step" where
  "reg_Backup r i resource s =
     (case forAction r i resource of Inl e \<Rightarrow> (Some e, s) | Inr (ex, a) \<Rightarrow> ex_Backup ex i resource s)"

definition reg_Apply :: "'s Registry \<Rightarrow> string \<Rightarrow> string \<Rightarrow> ActionKind \<Rightarrow> 's step" where
  "reg_Apply r i resource kind s =
     (case forAction r i resource of
        Inl e \<Rightarrow> (Some e, s)
      | Inr (ex, a) \<Rightarrow>
          if a_Kind a \<noteq> kind
          then (Some (''action '' @ i @ '' kind mismatch: plan='' @ kind_string (a_Kind a)
                  @ '' requested='' @ kind_string kind), s)
          else ex_Apply ex i resource kind s)"

definition reg_Validate :: "'s Registry \<Rightarrow> string \<Rightarrow> string \<Rightarrow> 's step" where
  "reg_Validate r i resource s =
     (case forAction r i resource of Inl e \<Rightarrow> (Some e, s) | Inr (ex, a) \<Rightarrow> ex_Validate ex i resource s)"

definition reg_Rollback :: "'s Registry \<Rightarrow> string \<Rightarrow> string \<Rightarrow> 's step" where
  "reg_Rollback r i resource s =
     (case forAction r i resource of Inl e \<Rightarrow> (Some e, s) | Inr (ex, a) \<Rightarrow> ex_Rollback ex i resource s)"

definition registry_executor :: "'s Registry \<Rightarrow> 's Executor" where
  "registry_executor r =
     \<lparr>ex_Backup = reg_Backup r, ex_Apply = reg_Apply r, ex_Validate = reg_Validate r, ex_Rollback = reg_Rollback r\<rparr>"

subsection \<open>The service executor (service_executor.go, stage1_policy.go)\<close>

type_synonym unit_policy = "(string \<times> string list) list"

definition serviceUnitPolicy :: unit_policy where
  "serviceUnitPolicy = [(''fail2ban.service'', [''restart''])]"

definition sshUnitPolicy :: "string list" where
  "sshUnitPolicy = [''ssh.service'', ''ssh.socket'']"

definition allowedServiceOperation :: "unit_policy \<Rightarrow> string \<Rightarrow> string \<Rightarrow> bool" where
  "allowedServiceOperation policy unitname op =
     (case map_of policy unitname of None \<Rightarrow> False | Some ops \<Rightarrow> op \<in> set ops)"

definition validateUnitName :: "string \<Rightarrow> (string, unit) result" where
  "validateUnitName name =
     (case ValidUnitName name of None \<Rightarrow> Inr () | Some _ \<Rightarrow> Inl (''invalid systemd unit name '' @ name))"

record 's ServiceExecutor =
  se_Actions :: "(string \<Rightarrow> Action option) option"
  se_Runner :: "'s runner"
  se_unitPolicy :: "unit_policy option"

definition se_BindActions :: "(string \<Rightarrow> Action option) \<Rightarrow> 's ServiceExecutor \<Rightarrow> 's ServiceExecutor" where
  [simp]: "se_BindActions acts e = e\<lparr>se_Actions := Some acts\<rparr>"

definition servicePolicy :: "'s ServiceExecutor \<Rightarrow> unit_policy" where
  "servicePolicy e = (case se_unitPolicy e of Some p \<Rightarrow> p | None \<Rightarrow> serviceUnitPolicy)"

definition se_exec :: "'s ServiceExecutor \<Rightarrow> string \<Rightarrow> string list \<Rightarrow> ('s, unit) io" where
  "se_exec e name args = fbind (se_Runner e name args) (\<lambda>_. fret ())"

definition se_run :: "'s ServiceExecutor \<Rightarrow> string list \<Rightarrow> ('s, unit) io" where
  "se_run e args = se_exec e ''systemctl'' args"

definition service_spec :: "Action \<Rightarrow> ServiceActionSpec option" where
  "service_spec a = (case a_Spec a of None \<Rightarrow> None | Some s \<Rightarrow> asp_Service s)"

definition se_spec :: "'s ServiceExecutor \<Rightarrow> string \<Rightarrow> string \<Rightarrow> (string, ServiceActionSpec) result" where
  "se_spec e i resource =
     (case se_Actions e of
        None \<Rightarrow> Inl ''no action registry configured''
      | Some acts \<Rightarrow>
          (case acts i of
             None \<Rightarrow> Inl (''unknown action '' @ i)
           | Some a \<Rightarrow>
               if a_Resource a \<noteq> resource then Inl (''unknown action '' @ i)
               else if a_Ownership a \<noteq> Owned then Inl ''service mutation requires OWNED resource''
               else case service_spec a of
                 None \<Rightarrow> Inl ''missing service action specification''
               | Some s \<Rightarrow>
                   if svs_Name s = '''' then Inl ''missing service action specification''
                   else case validateUnitName (svs_Name s) of
                     Inl err \<Rightarrow> Inl err
                   | Inr _ \<Rightarrow>
                       if map_of (servicePolicy e) (svs_Name s) = None
                       then Inl (''unit '' @ svs_Name s @ '' is not in the compiled Stage 1 service policy: mutation refused'')
                       else Inr s))"

definition se_Backup :: "'s ServiceExecutor \<Rightarrow> string \<Rightarrow> string \<Rightarrow> ('s, unit) io" where
  "se_Backup e i resource = fbind (flift (se_spec e i resource)) (\<lambda>_. fret ())"

text \<open>The operation switch that \<open>Apply\<close> and \<open>Rollback\<close> share up to its error text.\<close>

definition se_operate :: "'s ServiceExecutor \<Rightarrow> string \<Rightarrow> string \<Rightarrow> string \<Rightarrow> ('s, unit) io" where
  "se_operate e op name unsupported =
     (if op \<in> set [''start'', ''stop'', ''restart'', ''reload'', ''enable'', ''disable''] then se_run e [op, name]
      else if op = ''enable-start'' then fbind (se_run e [''enable'', name]) (\<lambda>_. se_run e [''start'', name])
      else if op = ''disable-stop'' then fbind (se_run e [''stop'', name]) (\<lambda>_. se_run e [''disable'', name])
      else ffail (unsupported @ op))"

definition se_Apply :: "'s ServiceExecutor \<Rightarrow> string \<Rightarrow> string \<Rightarrow> ActionKind \<Rightarrow> ('s, unit) io" where
  "se_Apply e i resource kind = fbind (flift (se_spec e i resource)) (\<lambda>s.
     if \<not> allowedServiceOperation (servicePolicy e) (svs_Name s) (svs_Operation s)
     then ffail (''operation '' @ svs_Operation s @ '' is not permitted on unit '' @ svs_Name s)
     else se_operate e (svs_Operation s) (svs_Name s) ''unsupported service operation '')"

definition se_Validate :: "'s ServiceExecutor \<Rightarrow> string \<Rightarrow> string \<Rightarrow> ('s, unit) io" where
  "se_Validate e i resource = fbind (flift (se_spec e i resource)) (\<lambda>s.
     let expected = (if svs_ExpectedState s = '''' then ''active'' else svs_ExpectedState s) in
     if expected = ''active'' then se_run e [''is-active'', ''--quiet'', svs_Name s]
     else if expected = ''inactive'' then
       (\<lambda>st. case se_run e [''is-active'', ''--quiet'', svs_Name s] st of
                (Inr _, st1) \<Rightarrow> (Inl ''service is active'', st1)
              | (Inl _, st1) \<Rightarrow> (Inr (), st1))
     else ffail (''unsupported expected service state '' @ expected))"

definition se_Rollback :: "'s ServiceExecutor \<Rightarrow> string \<Rightarrow> string \<Rightarrow> ('s, unit) io" where
  "se_Rollback e i resource = fbind (flift (se_spec e i resource)) (\<lambda>s.
     if svs_RollbackOperation s = '''' then fret ()
     else if \<not> allowedServiceOperation (servicePolicy e) (svs_Name s) (svs_RollbackOperation s)
     then ffail (''rollback operation '' @ svs_RollbackOperation s @ '' is not permitted on unit '' @ svs_Name s)
     else se_operate e (svs_RollbackOperation s) (svs_Name s) ''unsupported rollback operation '')"

definition serviceConfigTests :: "(string \<times> (string \<times> string list)) list" where
  "serviceConfigTests = [(''fail2ban.service'', (''fail2ban-client'', [''-t'']))]"

definition PreflightCheck :: "'s ServiceExecutor \<Rightarrow> Action \<Rightarrow> ('s, unit) io" where
  "PreflightCheck e a =
     (case service_spec a of
        None \<Rightarrow> fret ()
      | Some s \<Rightarrow>
          (case map_of serviceConfigTests (svs_Name s) of
             None \<Rightarrow> fret ()
           | Some (name, args) \<Rightarrow> se_exec e name args))"

definition service_executor :: "'s ServiceExecutor \<Rightarrow> 's Executor" where
  "service_executor e =
     \<lparr>ex_Backup = (\<lambda>i r. run_step (se_Backup e i r)), ex_Apply = (\<lambda>i r k. run_step (se_Apply e i r k)),
      ex_Validate = (\<lambda>i r. run_step (se_Validate e i r)), ex_Rollback = (\<lambda>i r. run_step (se_Rollback e i r))\<rparr>"


subsection \<open>The SSH executor (ssh_executor.go)\<close>

record 'w Host =
  h_fs :: FS
  h_world :: 'w

definition on_fs :: "'a fio \<Rightarrow> ('w Host, 'a) io" where
  "on_fs m h = (let (r, fs) = m (h_fs h) in (r, h\<lparr>h_fs := fs\<rparr>))"

record 'w SSHExecutor =
  sx_Actions :: "string \<Rightarrow> Action option"
  sx_Runner :: "'w Host runner"
  sx_Root :: string
  sx_Backups :: string
  sx_TransactionID :: string
  sx_PlanFingerprint :: string

definition sx_BindTransaction :: "string \<times> string \<Rightarrow> 'w SSHExecutor \<Rightarrow> 'w SSHExecutor" where
  [simp]: "sx_BindTransaction ctx e = e\<lparr>sx_TransactionID := fst ctx, sx_PlanFingerprint := snd ctx\<rparr>"

definition sx_BindActions :: "(string \<Rightarrow> Action option) \<Rightarrow> 'w SSHExecutor \<Rightarrow> 'w SSHExecutor" where
  [simp]: "sx_BindActions acts e = e\<lparr>sx_Actions := acts\<rparr>"

text \<open>The fields the backup helpers of the file executor read.\<close>

definition sx_files :: "'w SSHExecutor \<Rightarrow> FileExecutor" where
  "sx_files e =
     \<lparr>fe_Root = sx_Root e, fe_Backups = sx_Backups e, fe_Actions = None, fe_TransactionID = sx_TransactionID e,
      fe_PlanFingerprint = sx_PlanFingerprint e\<rparr>"

definition ssh_spec :: "Action \<Rightarrow> SSHActionSpec option" where
  "ssh_spec a = (case a_Spec a of None \<Rightarrow> None | Some s \<Rightarrow> asp_SSH s)"

definition ssh_unit :: "SSHActionSpec \<Rightarrow> string" where
  "ssh_unit s = (if ss_Unit s = '''' then ''ssh.service'' else ss_Unit s)"

definition sx_action :: "'w SSHExecutor \<Rightarrow> string \<Rightarrow> string \<Rightarrow> (string, Action \<times> SSHActionSpec) result" where
  "sx_action e i resource =
     (case sx_Actions e i of
        None \<Rightarrow> Inl (''unknown action '' @ i)
      | Some a \<Rightarrow>
          if a_Resource a \<noteq> resource then Inl (''unknown action '' @ i)
          else if a_Ownership a \<noteq> Owned then Inl ''SSH mutation requires OWNED resource''
          else case ssh_spec a of
            None \<Rightarrow> Inl ''missing SSH action specification''
          | Some s \<Rightarrow>
              (case (if ss_Unit s \<noteq> '''' then validateUnitName (ss_Unit s) else Inr ()) of
                 Inl err \<Rightarrow> Inl err
               | Inr _ \<Rightarrow>
                   if ssh_unit s \<notin> set sshUnitPolicy
                   then Inl (''unit '' @ ssh_unit s @ '' is not in the compiled Stage 1 SSH policy: mutation refused'')
                   else Inr (a, s)))"

definition ssh_lexical_path :: "'w SSHExecutor \<Rightarrow> string \<Rightarrow> (string, string) result" where
  "ssh_lexical_path e p =
     (if p = '''' \<or> \<not> IsAbs p then Inl ''SSH config path must be absolute''
      else if isReservedTrustPath p
      then Inl (''path is reserved trust-anchor material and cannot be managed: '' @ p)
      else case Rel (fe_root (sx_files e)) (Clean p) of
        None \<Rightarrow> Inl (''SSH config path outside executor root: '' @ p)
      | Some rel \<Rightarrow>
          if rel = ''..'' \<or> HasPrefix rel ''../'' then Inl (''SSH config path outside executor root: '' @ p)
          else if \<not> relativeInNamespace rel sshConfigNamespaces
          then Inl (''SSH config path is outside the compiled Stage 1 fragment namespace (etc/ssh/sshd_config.d/): '' @ p)
          else if relativeReservedTrust rel
          then Inl (''path is reserved trust-anchor material and cannot be managed: '' @ p)
          else if p \<noteq> Clean p
          then Inl (''SSH config path must be canonical (no redundant ., .. or separator components): '' @ p)
          else Inr (Join [fe_root (sx_files e), rel]))"

definition sx_safePath :: "'w SSHExecutor \<Rightarrow> string \<Rightarrow> ('w Host, string) io" where
  "sx_safePath e p = fbind (flift (ssh_lexical_path e p)) (\<lambda>path.
     fbind (on_fs (verifyPhysicalContainment (fe_root (sx_files e)) path)) (\<lambda>_. fret path))"

definition sx_backupDir :: "'w SSHExecutor \<Rightarrow> string \<Rightarrow> (string, string) result" where
  "sx_backupDir e i = containedJoin (fe_backupRoot (sx_files e)) [sx_TransactionID e, i]"

definition sx_Backup :: "(file_data \<Rightarrow> string) \<Rightarrow> 'w SSHExecutor \<Rightarrow> string \<Rightarrow> string \<Rightarrow> ('w Host, unit) io" where
  "sx_Backup sha e i resource = fbind (flift (sx_action e i resource)) (\<lambda>(a, s).
     if ss_ConfigPath s = '''' then fret ()
     else
       fbind (sx_safePath e (ss_ConfigPath s)) (\<lambda>path.
         if sx_TransactionID e = ''''
         then ffail ''no transaction bound: backups are transaction-scoped and refuse to run without orchestration context''
         else
           fbind (flift (sx_backupDir e i)) (\<lambda>dir.
             on_fs (fbind (fs_mkdir_all dir) (\<lambda>_.
               fbind (fs_lstat path) (backup_node sha path dir (new_manifest (sx_files e) i resource)))))))"

text \<open>\<open>ss -H -lnt\<close> lists the listening sockets, the local address in the fourth column.\<close>

definition listens :: "int \<Rightarrow> string \<Rightarrow> bool" where
  "listens port out \<longleftrightarrow>
     (\<exists>line \<in> set (Split (CHR 0x0A) out).
        let fields = Fields line in 4 \<le> length fields \<and> suffix (CHR '':'' # Itoa (nat port)) (fields ! 3))"

definition listener :: "'w SSHExecutor \<Rightarrow> int \<Rightarrow> ('w Host, bool) io" where
  "listener e port h =
     (if port \<le> 0 \<or> 65535 < port then (Inr False, h)
      else case sx_Runner e ''ss'' [''-H'', ''-lnt''] h of
        (Inl _, h1) \<Rightarrow> (Inr False, h1)
      | (Inr out, h1) \<Rightarrow> (Inr (listens port out), h1))"

text \<open>A safety gate: \<open>if cond && !check { return error }\<close>.\<close>

definition gate :: "bool \<Rightarrow> ('s, bool) io \<Rightarrow> string \<Rightarrow> ('s, unit) io" where
  "gate cond check msg =
     (if cond then fbind check (\<lambda>ok. if ok then fret () else ffail msg) else fret ())"

definition writeConfig :: "'w SSHExecutor \<Rightarrow> SSHActionSpec \<Rightarrow> ('w Host, unit) io" where
  "writeConfig e s = fbind (sx_safePath e (ss_ConfigPath s)) (\<lambda>path.
     on_fs (fbind (fs_mkdir_all (Dir path)) (\<lambda>_.
       WriteFile path (Bytes (ss_ConfigContent s)) (if ss_ConfigMode s = 0 then 384 else ss_ConfigMode s))))"

definition sx_run :: "'w SSHExecutor \<Rightarrow> string \<Rightarrow> string list \<Rightarrow> ('w Host, unit) io" where
  "sx_run e name args = fbind (sx_Runner e name args) (\<lambda>_. fret ())"

definition validateConfig :: "'w SSHExecutor \<Rightarrow> SSHActionSpec \<Rightarrow> ('w Host, unit) io" where
  "validateConfig e s =
     (if ss_SocketActivation s then sx_run e ''systemd-analyze'' [''verify'', ''ssh.socket'']
      else sx_run e ''sshd'' [''-t''])"

definition sx_Apply :: "'w SSHExecutor \<Rightarrow> string \<Rightarrow> string \<Rightarrow> ActionKind \<Rightarrow> ('w Host, unit) io" where
  "sx_Apply e i resource kind = fbind (flift (sx_action e i resource)) (\<lambda>(a, s).
     fbind (gate (0 < ss_NewPort s \<and> ss_RequireOldListener s \<and> 0 < ss_OldPort s) (listener e (ss_OldPort s))
              ''SSH safety gate: old listener is not present'') (\<lambda>_.
     fbind (if ss_ConfigPath s \<noteq> '''' then fbind (writeConfig e s) (\<lambda>_. validateConfig e s) else fret ()) (\<lambda>_.
     fbind (if ss_SocketActivation s then sx_run e ''systemctl'' [''daemon-reload''] else fret ()) (\<lambda>_.
     fbind (sx_run e ''systemctl'' [''reload'', ssh_unit s]) (\<lambda>_.
     fbind (gate (0 < ss_NewPort s \<and> ss_RequireNewListener s) (listener e (ss_NewPort s))
              ''SSH safety gate: new listener is not present after reload'') (\<lambda>_.
     gate (0 < ss_OldPort s \<and> ss_RequireOldListener s) (listener e (ss_OldPort s))
       ''SSH safety gate: recovery listener disappeared after reload''))))))"

definition sx_Validate :: "'w SSHExecutor \<Rightarrow> string \<Rightarrow> string \<Rightarrow> ('w Host, unit) io" where
  "sx_Validate e i resource = fbind (flift (sx_action e i resource)) (\<lambda>(a, s).
     fbind (if ss_ConfigPath s \<noteq> '''' then validateConfig e s else fret ()) (\<lambda>_.
     fbind (gate (0 < ss_NewPort s \<and> ss_RequireNewListener s) (listener e (ss_NewPort s))
              ''expected SSH listener is not active'') (\<lambda>_.
     gate (0 < ss_OldPort s \<and> ss_RequireOldListener s) (listener e (ss_OldPort s))
       ''expected SSH recovery listener is not active'')))"

definition restoreConfigVerified ::
  "(file_data \<Rightarrow> string) \<Rightarrow> 'w SSHExecutor \<Rightarrow> string \<Rightarrow> string \<Rightarrow> SSHActionSpec \<Rightarrow> ('w Host, unit) io" where
  "restoreConfigVerified sha e i resource s =
     (if sx_TransactionID e = ''''
      then ffail ''rollback requires a bound transaction: backups are transaction-scoped''
      else
        fbind (sx_safePath e (ss_ConfigPath s)) (\<lambda>path.
          fbind (flift (sx_backupDir e i)) (\<lambda>dir.
            on_fs (fbind (loadBackupManifest (Join [dir, ''manifest.json''])) (\<lambda>m.
              fbind (flift (validateAgainst m (sx_TransactionID e) (sx_PlanFingerprint e) i resource)) (\<lambda>_.
                restore sha path dir m))))))"

definition sx_Rollback :: "(file_data \<Rightarrow> string) \<Rightarrow> 'w SSHExecutor \<Rightarrow> string \<Rightarrow> string \<Rightarrow> ('w Host, unit) io" where
  "sx_Rollback sha e i resource = fbind (flift (sx_action e i resource)) (\<lambda>(a, s).
     fbind (if ss_ConfigPath s \<noteq> '''' then
              fbind (restoreConfigVerified sha e i resource s) (\<lambda>_.
                if ss_SocketActivation s then sx_run e ''systemctl'' [''daemon-reload''] else fret ())
            else fret ()) (\<lambda>_.
     sx_run e ''systemctl'' [''reload'', ssh_unit s]))"

definition ssh_executor :: "(file_data \<Rightarrow> string) \<Rightarrow> 'w SSHExecutor \<Rightarrow> 'w Host Executor" where
  "ssh_executor sha e =
     \<lparr>ex_Backup = (\<lambda>i r. run_step (sx_Backup sha e i r)), ex_Apply = (\<lambda>i r k. run_step (sx_Apply e i r k)),
      ex_Validate = (\<lambda>i r. run_step (sx_Validate e i r)), ex_Rollback = (\<lambda>i r. run_step (sx_Rollback sha e i r))\<rparr>"

subsection \<open>The second phase of an SSH migration (ssh_finalize_executor.go, management.go)\<close>

type_synonym 's ManagementProbe = "string \<Rightarrow> int \<Rightarrow> int \<Rightarrow> ('s, unit) io"

definition ValidateManagementEndpoint :: "string \<Rightarrow> int \<Rightarrow> (string, unit) result" where
  "ValidateManagementEndpoint host port =
     (if host = '''' then Inl ''management host is empty''
      else if port \<le> 0 \<or> 65535 < port then Inl ''invalid management port''
      else Inr ())"

definition probeManagement :: "'s ManagementProbe option \<Rightarrow> string \<Rightarrow> int \<Rightarrow> int \<Rightarrow> ('s, unit) io" where
  "probeManagement probe host port timeout = fbind (flift (ValidateManagementEndpoint host port)) (\<lambda>_.
     case probe of
       None \<Rightarrow> ffail ''remote management probe is not configured''
     | Some pr \<Rightarrow> pr host port timeout)"

record 'w SSHFinalizeExecutor =
  fx_Base :: "'w SSHExecutor option"
  fx_Probe :: "'w Host ManagementProbe option"
  fx_ManagementHost :: string
  fx_ManagementPort :: int
  fx_Timeout :: int

definition fx_BindActions :: "(string \<Rightarrow> Action option) \<Rightarrow> 'w SSHFinalizeExecutor \<Rightarrow> 'w SSHFinalizeExecutor" where
  "fx_BindActions acts e = e\<lparr>fx_Base := map_option (sx_BindActions acts) (fx_Base e)\<rparr>"

definition fx_timeout :: "'w SSHFinalizeExecutor \<Rightarrow> int" where
  "fx_timeout e = (if 0 < fx_Timeout e then fx_Timeout e else 10000000000)"

definition fx_action ::
  "'w SSHFinalizeExecutor \<Rightarrow> string \<Rightarrow> string \<Rightarrow> (string, 'w SSHExecutor \<times> SSHActionSpec) result" where
  "fx_action e i resource =
     (case fx_Base e of
        None \<Rightarrow> Inl ''SSH finalizer requires a base SSH executor''
      | Some base \<Rightarrow>
          (case sx_action base i resource of
             Inl err \<Rightarrow> Inl err
           | Inr (a, s) \<Rightarrow>
               if a_Kind a \<noteq> ActionSSHFinalize then Inl (''action '' @ i @ '' is not SSH_FINALIZE'')
               else Inr (base, s)))"

definition removeSSHListener :: "string \<Rightarrow> int \<Rightarrow> bool \<Rightarrow> string" where
  "removeSSHListener content oldPort socket =
     JoinWith (CHR 0x0A)
       (filter (\<lambda>line. \<not> (TrimSpace line = (if socket then ''ListenStream='' else ''Port '') @ Itoa (nat oldPort)))
          (Split (CHR 0x0A) content))"

definition fx_Backup ::
  "(file_data \<Rightarrow> string) \<Rightarrow> 'w SSHFinalizeExecutor \<Rightarrow> string \<Rightarrow> string \<Rightarrow> ('w Host, unit) io" where
  "fx_Backup sha e i resource = fbind (flift (fx_action e i resource)) (\<lambda>(base, s). sx_Backup sha base i resource)"

definition fx_final :: "SSHActionSpec \<Rightarrow> SSHActionSpec" where
  "fx_final s =
     s\<lparr>ss_ConfigContent := removeSSHListener (ss_ConfigContent s) (ss_OldPort s) (ss_SocketActivation s),
       ss_RequireOldListener := False, ss_RequireNewListener := True\<rparr>"

text \<open>\<open>Apply\<close> after its gates: write, validate and reload the final configuration, then check the listeners.\<close>

definition fx_commit :: "'w SSHExecutor \<Rightarrow> SSHActionSpec \<Rightarrow> ('w Host, unit) io" where
  "fx_commit base s =
     (if ss_ConfigContent (fx_final s) = ss_ConfigContent s
      then ffail ''staged SSH configuration does not contain old listener''
      else
        fbind (writeConfig base (fx_final s)) (\<lambda>_.
        fbind (validateConfig base (fx_final s)) (\<lambda>_.
        fbind (if ss_SocketActivation s then sx_run base ''systemctl'' [''daemon-reload''] else fret ()) (\<lambda>_.
        fbind (sx_run base ''systemctl'' [''reload'', ssh_unit s]) (\<lambda>_.
        fbind (gate True (listener base (ss_NewPort s)) ''SSH safety gate: new listener disappeared after finalization'') (\<lambda>_.
        gate True (fbind (listener base (ss_OldPort s)) (\<lambda>on. fret (\<not> on)))
          ''SSH safety gate: old listener is still active after finalization''))))))"

definition fx_Apply :: "'w SSHFinalizeExecutor \<Rightarrow> string \<Rightarrow> string \<Rightarrow> ActionKind \<Rightarrow> ('w Host, unit) io" where
  "fx_Apply e i resource kind = fbind (flift (fx_action e i resource)) (\<lambda>(base, s).
     if kind \<noteq> ActionSSHFinalize then ffail (''unexpected action kind '' @ kind_string kind)
     else if ss_OldPort s \<le> 0 \<or> ss_NewPort s \<le> 0 \<or> ss_OldPort s = ss_NewPort s
     then ffail ''SSH finalization requires distinct old and new ports''
     else if ss_ConfigPath s = '''' \<or> ss_ConfigContent s = ''''
     then ffail ''SSH finalization requires the staged managed config''
     else
       fbind (gate True (listener base (ss_NewPort s)) ''SSH safety gate: new listener is not present'') (\<lambda>_.
       fbind (gate True (listener base (ss_OldPort s)) ''SSH finalization requires old listener to be present'') (\<lambda>_.
       fbind (probeManagement (fx_Probe e) (fx_ManagementHost e) (fx_ManagementPort e) (fx_timeout e)) (\<lambda>_.
       fx_commit base s))))"

definition fx_Validate :: "'w SSHFinalizeExecutor \<Rightarrow> string \<Rightarrow> string \<Rightarrow> ('w Host, unit) io" where
  "fx_Validate e i resource = fbind (flift (fx_action e i resource)) (\<lambda>(base, s).
     if ss_NewPort s \<le> 0 then ffail ''expected SSH listener is not active''
     else
       fbind (gate True (listener base (ss_NewPort s)) ''expected SSH listener is not active'') (\<lambda>_.
       gate (0 < ss_OldPort s) (fbind (listener base (ss_OldPort s)) (\<lambda>on. fret (\<not> on)))
         ''old SSH listener is still active''))"

text \<open>\<open>Rollback\<close> delegates without the nil check of \<open>action\<close>: a missing base executor panics there.\<close>

definition fx_Rollback ::
  "(file_data \<Rightarrow> string) \<Rightarrow> 'w SSHFinalizeExecutor \<Rightarrow> string \<Rightarrow> string \<Rightarrow> ('w Host, unit) io" where
  "fx_Rollback sha e i resource =
     (case fx_Base e of
        None \<Rightarrow> ffail ''panic: nil pointer dereference''
      | Some base \<Rightarrow> sx_Rollback sha base i resource)"


subsection \<open>Which commands an executor can run\<close>

definition cmd_rel :: "'s runner \<Rightarrow> (string \<times> string list) set \<Rightarrow> ('s \<times> 's) set" where
  "cmd_rel R C = {(s, snd (R name args s)) | s name args. (name, args) \<in> C}"

definition sink_rel :: "'s Engine \<Rightarrow> ('s \<times> 's) set" where
  "sink_rel e = {(s, snd (progress e ev i s)) | s ev i. True}"

text \<open>An executor all of whose steps stay inside a relation on states.\<close>

locale confined_executor =
  fixes ex :: "'s Executor"
    and Q :: "('s \<times> 's) set"
  assumes backup_in: "(s, snd (ex_Backup ex i r s)) \<in> Q\<^sup>*"
    and apply_in: "(s, snd (ex_Apply ex i r k s)) \<in> Q\<^sup>*"
    and validate_in: "(s, snd (ex_Validate ex i r s)) \<in> Q\<^sup>*"
    and rollback_in: "(s, snd (ex_Rollback ex i r s)) \<in> Q\<^sup>*"
begin

lemma with_sink: "(s, t) \<in> Q\<^sup>* \<Longrightarrow> (s, t) \<in> (Q \<union> sink_rel e)\<^sup>*"
  using in_rtrancl_UnI by blast

lemma sink_in: "(s, snd (progress e ev i s)) \<in> (Q \<union> sink_rel e)\<^sup>*"
  by (rule r_into_rtrancl) (auto simp: sink_rel_def)

lemma then_sink: "(s, t) \<in> (Q \<union> sink_rel e)\<^sup>* \<Longrightarrow> (s, snd (progress e ev i t)) \<in> (Q \<union> sink_rel e)\<^sup>*"
  by (rule rtrancl_trans [OF _ sink_in])

lemma rollback_one_in: "(s, snd (rollback_one e ex i (rs, s))) \<in> (Q \<union> sink_rel e)\<^sup>*"
proof (cases "actionIndex rs i")
  case (Some k)
  let ?r = "rs ! k"
  obtain err s1 where x: "ex_Rollback ex (ar_ActionID ?r) (ar_Resource ?r) s = (err, s1)" by fastforce
  have "(s, s1) \<in> (Q \<union> sink_rel e)\<^sup>*" using with_sink [OF rollback_in] x by (metis snd_conv)
  from then_sink [OF this] show ?thesis
    by (cases err) (auto simp: rollback_one_def Some x Let_def split: prod.split, metis snd_conv)
qed (simp add: rollback_one_def)

lemma rollback_rel_in: "(snd st, snd (rollback e ex completed st)) \<in> (Q \<union> sink_rel e)\<^sup>*"
proof -
  have "(snd st, snd (fold (\<lambda>c. rollback_one e ex (ar_ActionID c)) cs st)) \<in> (Q \<union> sink_rel e)\<^sup>*" for cs
  proof (induction cs arbitrary: st)
    case (Cons c cs)
    have "(snd st, snd (rollback_one e ex (ar_ActionID c) st)) \<in> (Q \<union> sink_rel e)\<^sup>*"
      using rollback_one_in [of "snd st" e "ar_ActionID c" "fst st"] by simp
    from rtrancl_trans [OF this Cons.IH] show ?case by simp
  qed simp
  then show ?thesis by (simp add: rollback_def)
qed

lemma sink_rollback_in: "(s, snd (rollback e ex completed (rs, snd (progress e ev i s)))) \<in> (Q \<union> sink_rel e)\<^sup>*"
  using rtrancl_trans [OF sink_in] rollback_rel_in [of "(rs, snd (progress e ev i s))" e completed] by simp

lemma rollback_failed_in: "(s, snd (rollback_failed e ex a r s)) \<in> (Q \<union> sink_rel e)\<^sup>*"
proof -
  obtain err s1 where x: "ex_Rollback ex (a_ID a) (a_Resource a) s = (err, s1)" by fastforce
  have "(s, s1) \<in> (Q \<union> sink_rel e)\<^sup>*" using with_sink [OF rollback_in] x by (metis snd_conv)
  from then_sink [OF this] show ?thesis
    by (cases err) (auto simp: rollback_failed_def x Let_def split: prod.split, metis snd_conv)
qed

lemma apply_step_in: "(s, snd (apply_step e ex a s)) \<in> (Q \<union> sink_rel e)\<^sup>*"
proof -
  obtain err s1 where x: "ex_Apply ex (a_ID a) (a_Resource a) (a_Kind a) s = (err, s1)" by fastforce
  have s1: "(s, s1) \<in> (Q \<union> sink_rel e)\<^sup>*" using with_sink [OF apply_in] x by (metis snd_conv)
  from then_sink [OF this, of ProgressApplied "a_ID a"] s1 show ?thesis
    by (cases err) (auto simp: apply_step_def x Let_def split: prod.split option.split)
qed

lemma fail_backup_in: "(s, snd (snd (snd (fail_backup e ex a m rs completed s)))) \<in> (Q \<union> sink_rel e)\<^sup>*"
  using sink_rollback_in
  by (auto simp: fail_backup_def Let_def split: prod.split)

lemma fail_validate_in: "(s, snd (snd (snd (fail_validate e ex a m rs completed s)))) \<in> (Q \<union> sink_rel e)\<^sup>*"
  using sink_rollback_in
  by (auto simp: fail_validate_def Let_def split: prod.split)

lemma fail_apply_in: "(s, snd (snd (snd (fail_apply e ex a m rs completed s)))) \<in> (Q \<union> sink_rel e)\<^sup>*"
proof -
  define r where "r = (pending a)\<lparr>ar_Status := ''APPLY_FAILED'', ar_Error := m\<rparr>"
  obtain rs2 s2 where 2: "rollback e ex completed (rs @ [r], snd (progress e ProgressApplyFailed (a_ID a) s)) = (rs2, s2)"
    by fastforce
  obtain r3 s3 where 3: "rollback_failed e ex a r s2 = (r3, s3)" by fastforce
  have "(s, s2) \<in> (Q \<union> sink_rel e)\<^sup>*" using sink_rollback_in 2 by (metis snd_conv)
  moreover have "(s2, s3) \<in> (Q \<union> sink_rel e)\<^sup>*" using rollback_failed_in 3 by (metis snd_conv)
  ultimately show ?thesis by (simp add: fail_apply_def Let_def 2 3 flip: r_def)
qed

lemma run_actions_in: "(s, snd (snd (snd (run_actions e ex as rs completed s)))) \<in> (Q \<union> sink_rel e)\<^sup>*"
proof (induction as arbitrary: rs completed s)
  case (Cons a as)
  obtain b s1 where b: "ex_Backup ex (a_ID a) (a_Resource a) s = (b, s1)" by fastforce
  obtain c s2 where c: "apply_step e ex a s1 = (c, s2)" by fastforce
  obtain d s3 where d: "ex_Validate ex (a_ID a) (a_Resource a) s2 = (d, s3)" by fastforce
  have "(s, s1) \<in> (Q \<union> sink_rel e)\<^sup>*" "(s1, s2) \<in> (Q \<union> sink_rel e)\<^sup>*" "(s2, s3) \<in> (Q \<union> sink_rel e)\<^sup>*"
    using with_sink [OF backup_in] with_sink [OF validate_in] apply_step_in b c d by (metis snd_conv)+
  then have s: "(s, s1) \<in> (Q \<union> sink_rel e)\<^sup>*" "(s, s2) \<in> (Q \<union> sink_rel e)\<^sup>*" "(s, s3) \<in> (Q \<union> sink_rel e)\<^sup>*"
    by (meson rtrancl_trans)+
  show ?case
    using rtrancl_trans [OF s(1) fail_backup_in] rtrancl_trans [OF s(2) fail_apply_in]
      rtrancl_trans [OF s(3) fail_validate_in] rtrancl_trans [OF s(3) Cons.IH]
    by (cases b; cases c; cases d) (simp_all add: b c d Let_def)
qed simp

lemma engine_in:
  "eng_Executor e = Some ex \<Longrightarrow> (s, snd (Engine_Apply e p pg s)) \<in> (Q \<union> sink_rel e)\<^sup>*"
  using run_actions_in [of s e "p_Actions p" "[]" "[]"]
  by (auto simp: Engine_Apply_def Let_def split: option.split prod.split)

end


text \<open>The commands a unit policy stands for.\<close>

definition operation_verbs :: "string \<Rightarrow> string set" where
  "operation_verbs op =
     (if op = ''enable-start'' then {''enable'', ''start''}
      else if op = ''disable-stop'' then {''stop'', ''disable''} else {op})"

definition policy_commands :: "unit_policy \<Rightarrow> (string \<times> string list) set" where
  "policy_commands P =
     {(''systemctl'', [verb, unitname]) | verb unitname op. allowedServiceOperation P unitname op \<and> verb \<in> operation_verbs op}
     \<union> {(''systemctl'', [''is-active'', ''--quiet'', unitname]) | unitname. unitname \<in> dom (map_of P)}"

definition stays :: "('s \<times> 's) set \<Rightarrow> ('s, 'a) io \<Rightarrow> bool" where
  "stays Q m \<longleftrightarrow> (\<forall>s. (s, snd (m s)) \<in> Q\<^sup>*)"

named_theorems stays_intros \<open>computations that stay inside a relation\<close>

lemma stays_basic [stays_intros]: "stays Q (fret a)" "stays Q (ffail e)" "stays Q (flift r)"
  by (simp_all add: stays_def fret_def ffail_def flift_def)

lemma stays_bind [stays_intros]:
  assumes "stays Q m" and "\<And>a. stays Q (f a)"
  shows "stays Q (fbind m f)"
  unfolding stays_def
proof
  fix s
  obtain r s1 where m: "m s = (r, s1)" by fastforce
  with assms(1) have "(s, s1) \<in> Q\<^sup>*" unfolding stays_def by (metis snd_conv)
  moreover have "(s1, snd (f a s1)) \<in> Q\<^sup>*" for a using assms(2) by (simp add: stays_def)
  ultimately show "(s, snd (fbind m f s)) \<in> Q\<^sup>*"
    by (cases r) (auto simp: fbind_def m intro: rtrancl_trans)
qed

lemma stays_lift:
  assumes "\<And>a. r = Inr a \<Longrightarrow> stays Q (f a)"
  shows "stays Q (fbind (flift r) f)"
  using assms by (cases r) (auto simp: stays_def fbind_def flift_def)

lemma stays_exec: "(name, args) \<in> C \<Longrightarrow> stays (cmd_rel (se_Runner e) C) (se_exec e name args)"
proof -
  assume "(name, args) \<in> C"
  then have "stays (cmd_rel (se_Runner e) C) (se_Runner e name args)"
    by (auto simp: stays_def cmd_rel_def)
  then show ?thesis by (auto simp: se_exec_def intro: stays_intros)
qed

lemma stays_operate:
  assumes "allowedServiceOperation P name op"
  shows "stays (cmd_rel (se_Runner e) (policy_commands P)) (se_operate e op name msg)"
proof -
  have "stays (cmd_rel (se_Runner e) (policy_commands P)) (se_run e [v, name])" if "v \<in> operation_verbs op" for v
    unfolding se_run_def by (rule stays_exec) (use that assms in \<open>auto simp: policy_commands_def\<close>)
  then show ?thesis by (auto simp: se_operate_def operation_verbs_def intro: stays_intros)
qed

lemma se_spec_Inr: "se_spec e i r = Inr s \<Longrightarrow> svs_Name s \<in> dom (map_of (servicePolicy e))"
  by (auto simp: se_spec_def split: option.splits if_splits sum.splits)

lemma stays_is_active:
  assumes "se_spec e i r = Inr s"
  shows "stays (cmd_rel (se_Runner e) (policy_commands (servicePolicy e))) (se_run e [''is-active'', ''--quiet'', svs_Name s])"
  unfolding se_run_def by (rule stays_exec) (use se_spec_Inr [OF assms] in \<open>auto simp: policy_commands_def\<close>)

lemma stays_inverted:
  assumes "stays Q m"
  shows "stays Q (\<lambda>st. case m st of (Inr _, st1) \<Rightarrow> (Inl e, st1) | (Inl _, st1) \<Rightarrow> (Inr (), st1))"
  using assms unfolding stays_def by (auto split: prod.split sum.split) (metis snd_conv)+

interpretation service: confined_executor "service_executor e" "cmd_rel (se_Runner e) (policy_commands (servicePolicy e))"
  for e :: "'s ServiceExecutor"
proof
  fix s i r k
  let ?Q = "cmd_rel (se_Runner e) (policy_commands (servicePolicy e))"
  have "stays ?Q (se_Backup e i r)"
    unfolding se_Backup_def by (intro stays_intros)
  then show "(s, snd (ex_Backup (service_executor e) i r s)) \<in> ?Q\<^sup>*"
    by (simp add: service_executor_def run_step_snd stays_def)
  have "stays ?Q (se_Apply e i r k)"
    unfolding se_Apply_def by (rule stays_lift) (auto intro: stays_intros stays_operate)
  then show "(s, snd (ex_Apply (service_executor e) i r k s)) \<in> ?Q\<^sup>*"
    by (simp add: service_executor_def run_step_snd stays_def)
  have "stays ?Q (se_Validate e i r)"
    unfolding se_Validate_def Let_def by (rule stays_lift) (auto intro: stays_intros stays_is_active stays_inverted)
  then show "(s, snd (ex_Validate (service_executor e) i r s)) \<in> ?Q\<^sup>*"
    by (simp add: service_executor_def run_step_snd stays_def)
  have "stays ?Q (se_Rollback e i r)"
    unfolding se_Rollback_def by (rule stays_lift) (auto intro: stays_intros stays_operate)
  then show "(s, snd (ex_Rollback (service_executor e) i r s)) \<in> ?Q\<^sup>*"
    by (simp add: service_executor_def run_step_snd stays_def)
qed

lemma registry_confined:
  assumes "\<And>byKind k ex. reg_ByKind r = Some byKind \<Longrightarrow> byKind k = Some ex \<Longrightarrow> confined_executor ex Q"
  shows "confined_executor (registry_executor r) Q"
proof -
  have ex: "confined_executor ex Q" if "forAction r i res = Inr (ex, a)" for i res ex a
    using that assms by (auto simp: forAction_def reg_executor_def split: sum.splits option.splits)
  show ?thesis
    by standard
      (auto simp: registry_executor_def reg_Backup_def reg_Apply_def reg_Validate_def reg_Rollback_def
        split: sum.split dest!: ex intro: confined_executor.backup_in confined_executor.apply_in
        confined_executor.validate_in confined_executor.rollback_in)
qed

text \<open>The registry the command-line tool wires: the service executor under the compiled policy.\<close>

definition production_registry :: "'s ServiceExecutor \<Rightarrow> (string \<Rightarrow> Action option) \<Rightarrow> 's Registry" where
  "production_registry e acts =
     \<lparr>reg_ByKind = Some [ActionService \<mapsto> service_executor (se_BindActions acts e)], reg_Actions = acts\<rparr>"

lemma compiled_commands:
  "policy_commands serviceUnitPolicy =
     {(''systemctl'', [''restart'', ''fail2ban.service'']), (''systemctl'', [''is-active'', ''--quiet'', ''fail2ban.service''])}"
  by (auto simp: policy_commands_def serviceUnitPolicy_def allowedServiceOperation_def operation_verbs_def
      split: if_splits option.splits)

text \<open>
  C7. The production wiring can run two commands only. Whatever the plan, its actions and the gate,
  an apply run with the registry of the command-line tool (the service executor under the compiled
  unit policy) changes the machine only by \<open>systemctl restart fail2ban.service\<close>, by
  \<open>systemctl is-active --quiet fail2ban.service\<close> and by the progress sink.
\<close>

theorem production_apply_commands:
  assumes "se_unitPolicy e = None" and "eng_Executor eng = Some (registry_executor (production_registry e acts))"
  shows "(s, snd (Engine_Apply eng p pg s)) \<in>
           (cmd_rel (se_Runner e) {(''systemctl'', [''restart'', ''fail2ban.service'']),
              (''systemctl'', [''is-active'', ''--quiet'', ''fail2ban.service''])} \<union> sink_rel eng)\<^sup>*"
proof -
  have "confined_executor (service_executor (se_BindActions acts e)) (cmd_rel (se_Runner e) (policy_commands serviceUnitPolicy))"
    using service.confined_executor_axioms [of "se_BindActions acts e"] assms(1) by (simp add: servicePolicy_def)
  then have "confined_executor (registry_executor (production_registry e acts))
      (cmd_rel (se_Runner e) (policy_commands serviceUnitPolicy))"
    by (intro registry_confined) (auto simp: production_registry_def split: if_splits)
  from confined_executor.engine_in [OF this assms(2)] show ?thesis by (simp only: compiled_commands)
qed


subsection \<open>Safety of the SSH migration\<close>

lemma gate_Inr [simp]:
  "gate c check msg h = (Inr (), h') \<longleftrightarrow> (if c then check h = (Inr True, h') else h' = h)"
  by (auto simp: gate_def fbind_Inr fret_def ffail_def split: if_splits)

lemma fbind_InrE:
  assumes "fbind m f s = (Inr b, s')"
  obtains a s1 where "m s = (Inr a, s1)" "f a s1 = (Inr b, s')"
  using assms by (auto simp: fbind_Inr)

lemma planned_ssh_spec:
  assumes "sshPortSpec m d = Some sp" and "sec_SSHPorts (act_Security (m_Actual m)) = [old]" and "0 < old"
  shows "\<exists>t. asp_SSH sp = Some t \<and> ss_OldPort t = old \<and> ss_RequireOldListener t \<and> ss_RequireNewListener t
           \<and> 0 < ss_NewPort t \<and> di_Desired d = VInt (ss_NewPort t) \<and> ss_ConfigPath t \<noteq> ''''"
  using assms by (auto simp: sshPortSpec_def Let_def split: diff_value.splits if_splits)

lemma sx_action_spec:
  assumes "sx_action e i r = Inr (a, s)"
  shows "sx_Actions e i = Some a \<and> ssh_spec a = Some s"
  using assms by (auto simp: sx_action_def split: option.splits if_splits sum.splits)

lemma sx_Apply_Inr:
  assumes "sx_Apply e i r k h = (Inr (), h')"
  obtains a s where "sx_action e i r = Inr (a, s)"
  using assms by (cases "sx_action e i r") (auto simp: sx_Apply_def fbind_Inr flift_def)

text \<open>
  The steps of an SSH migration with specification \<open>t\<close>, in their order: the old listener is seen, the
  configuration is written and checked, systemd re-reads its units where the port is socket-activated,
  the unit is reloaded, and in the states this reload leaves the new listener and then the old one are
  seen.
\<close>

definition migration_steps :: "'w SSHExecutor \<Rightarrow> SSHActionSpec \<Rightarrow> 'w Host \<Rightarrow> 'w Host \<Rightarrow> bool" where
  "migration_steps e t h h' \<longleftrightarrow>
     (\<exists>h0 h1 h2 h3 h4 h5. listener e (ss_OldPort t) h = (Inr True, h0)
        \<and> writeConfig e t h0 = (Inr (), h1) \<and> validateConfig e t h1 = (Inr (), h2)
        \<and> (if ss_SocketActivation t then sx_run e ''systemctl'' [''daemon-reload''] h2 = (Inr (), h3) else h3 = h2)
        \<and> sx_run e ''systemctl'' [''reload'', ssh_unit t] h3 = (Inr (), h4)
        \<and> listener e (ss_NewPort t) h4 = (Inr True, h5)
        \<and> listener e (ss_OldPort t) h5 = (Inr True, h'))"

lemma sx_Apply_steps:
  assumes "sx_action e i r = Inr (a, s)" and "0 < ss_NewPort s" "0 < ss_OldPort s" "ss_ConfigPath s \<noteq> ''''"
    "ss_RequireOldListener s" "ss_RequireNewListener s"
  shows "sx_Apply e i r k h = (Inr (), h') \<longleftrightarrow> migration_steps e s h h'"
  using assms by (simp add: sx_Apply_def fbind_Inr flift_def migration_steps_def fret_def) blast


lemma ssh_spec_several_ports:
  assumes "sshPortSpec m d = Some sp" and "length (sec_SSHPorts (act_Security (m_Actual m))) \<noteq> 1"
  shows "\<exists>t. asp_SSH sp = Some t \<and> ss_OldPort t = 0 \<and> \<not> ss_RequireOldListener t"
  using assms by (auto simp: sshPortSpec_def Let_def split: diff_value.splits if_splits list.splits)

lemma fx_commit_Inr:
  assumes "fx_commit base s h = (Inr (), h')"
  shows "\<exists>h4 h5 h6. removeSSHListener (ss_ConfigContent s) (ss_OldPort s) (ss_SocketActivation s) \<noteq> ss_ConfigContent s
     \<and> writeConfig base (fx_final s) h = (Inr (), h4)
     \<and> listener base (ss_NewPort s) h5 = (Inr True, h6) \<and> listener base (ss_OldPort s) h6 = (Inr False, h')"
proof -
  from assms have ne: "ss_ConfigContent (fx_final s) \<noteq> ss_ConfigContent s"
    by (auto simp: fx_commit_def ffail_def)
  with assms obtain h4 where w: "writeConfig base (fx_final s) h = (Inr (), h4)"
    by (auto simp: fx_commit_def elim!: fbind_InrE)
  from assms ne obtain h5 h6 where "listener base (ss_NewPort s) h5 = (Inr True, h6)"
    "fbind (listener base (ss_OldPort s)) (\<lambda>on. fret (\<not> on)) h6 = (Inr True, h')"
    by (auto simp: fx_commit_def elim!: fbind_InrE split del: if_split)
  then have "listener base (ss_NewPort s) h5 = (Inr True, h6) \<and> listener base (ss_OldPort s) h6 = (Inr False, h')"
    by (auto simp: fbind_Inr)
  with w show ?thesis using ne by (auto simp: fx_final_def)
qed

text \<open>
  What a successful SSH finalization has proved. The new and the old listener were observed and
  the management probe succeeded before the configuration was touched; the configuration written is
  the staged one without the old listener; afterwards the new listener was observed and the old one
  was not. When the management probe fails, the step fails in the state the probe left.
\<close>

lemma ssh_finalize_guarded:
  assumes "fx_action e i r = Inr (base, s)"
  shows "(fx_Apply e i r k h = (Inr (), h') \<longrightarrow>
            (\<exists>h1 h2 h3 h4 h5 h6.
               listener base (ss_NewPort s) h = (Inr True, h1) \<and> listener base (ss_OldPort s) h1 = (Inr True, h2)
               \<and> probeManagement (fx_Probe e) (fx_ManagementHost e) (fx_ManagementPort e) (fx_timeout e) h2 = (Inr (), h3)
               \<and> removeSSHListener (ss_ConfigContent s) (ss_OldPort s) (ss_SocketActivation s) \<noteq> ss_ConfigContent s
               \<and> writeConfig base (fx_final s) h3 = (Inr (), h4)
               \<and> listener base (ss_NewPort s) h5 = (Inr True, h6) \<and> listener base (ss_OldPort s) h6 = (Inr False, h')))
         \<and> (listener base (ss_NewPort s) h = (Inr True, h1) \<and> listener base (ss_OldPort s) h1 = (Inr True, h2)
            \<and> probeManagement (fx_Probe e) (fx_ManagementHost e) (fx_ManagementPort e) (fx_timeout e) h2 = (Inl msg, h3)
            \<longrightarrow> isl (fst (fx_Apply e i r k h)) \<and> snd (fx_Apply e i r k h) \<in> {h, h3})"
proof (rule conjI; rule impI)
  assume "fx_Apply e i r k h = (Inr (), h')"
  then obtain h1 h2 h3 where "listener base (ss_NewPort s) h = (Inr True, h1)"
    "listener base (ss_OldPort s) h1 = (Inr True, h2)"
    "probeManagement (fx_Probe e) (fx_ManagementHost e) (fx_ManagementPort e) (fx_timeout e) h2 = (Inr (), h3)"
    "fx_commit base s h3 = (Inr (), h')"
    using assms by (auto simp: fx_Apply_def flift_def ffail_def elim!: fbind_InrE split: if_splits)
  with fx_commit_Inr [of base s h3 h'] show "\<exists>h1 h2 h3 h4 h5 h6.
               listener base (ss_NewPort s) h = (Inr True, h1) \<and> listener base (ss_OldPort s) h1 = (Inr True, h2)
               \<and> probeManagement (fx_Probe e) (fx_ManagementHost e) (fx_ManagementPort e) (fx_timeout e) h2 = (Inr (), h3)
               \<and> removeSSHListener (ss_ConfigContent s) (ss_OldPort s) (ss_SocketActivation s) \<noteq> ss_ConfigContent s
               \<and> writeConfig base (fx_final s) h3 = (Inr (), h4)
               \<and> listener base (ss_NewPort s) h5 = (Inr True, h6) \<and> listener base (ss_OldPort s) h6 = (Inr False, h')"
    by metis
next
  assume "listener base (ss_NewPort s) h = (Inr True, h1) \<and> listener base (ss_OldPort s) h1 = (Inr True, h2)
            \<and> probeManagement (fx_Probe e) (fx_ManagementHost e) (fx_ManagementPort e) (fx_timeout e) h2 = (Inl msg, h3)"
  then show "isl (fst (fx_Apply e i r k h)) \<and> snd (fx_Apply e i r k h) \<in> {h, h3}"
    using assms by (simp add: fx_Apply_def fbind_def flift_def ffail_def gate_def fret_def)
qed


subsection \<open>From the planned fragment to the final one\<close>

lemma digit_not_space: "is_digit c \<Longrightarrow> \<not> is_space c"
  by (auto simp: is_digit_def is_space_def)

lemma last_Itoa: "\<not> is_space (last (Itoa n))"
  using Itoa_digits [of n] digit_not_space by (metis Itoa_nonempty last_in_set)

lemma newline_not_in_Itoa: "CHR 0x0A \<notin> set (Itoa n)"
  using Itoa_digits [of n] by (auto simp: is_digit_def)

lemma TrimSpace_word:
  assumes "w \<noteq> []" and "\<not> is_space (hd w)"
  shows "TrimSpace (w @ Itoa n) = w @ Itoa n"
  by (rule TrimSpace_id) (use assms last_Itoa in \<open>auto simp: last_append\<close>)

abbreviation listen_word :: "bool \<Rightarrow> string" where
  "listen_word socket \<equiv> (if socket then ''ListenStream='' else ''Port '')"

definition fragment_header :: "bool \<Rightarrow> string list" where
  "fragment_header socket =
     ''# Managed by vps-gateway; do not edit.'' # (if socket then [''[Socket]'', ''ListenStream=''] else [])"

lemma fragment_header_lines: "l \<in> set (fragment_header socket) \<Longrightarrow> CHR 0x0A \<notin> set l"
  by (cases socket) (auto simp: fragment_header_def)

lemma fixed_lines:
  "TrimSpace ''# Managed by vps-gateway; do not edit.'' = ''# Managed by vps-gateway; do not edit.''"
  "TrimSpace ''[Socket]'' = ''[Socket]''" "TrimSpace ''ListenStream='' = ''ListenStream=''" "TrimSpace '''' = ''''"
  by code_simp+

lemma header_lines_kept: "l \<in> set (fragment_header socket) \<Longrightarrow> TrimSpace l \<noteq> listen_word socket @ Itoa n"
  using Itoa_nonempty [of n, symmetric] by (cases socket) (auto simp: fragment_header_def fixed_lines)

lemma planned_fragment:
  assumes "sshPortSpec m d = Some sp" and "asp_SSH sp = Some t"
    and "sec_SSHPorts (act_Security (m_Actual m)) = [old]" and "0 < old" and "old \<noteq> ss_NewPort t"
  shows "ss_OldPort t = old" and "0 < ss_NewPort t"
    and "ss_ConfigContent t = JoinWith (CHR 0x0A) (fragment_header (ss_SocketActivation t)
           @ [listen_word (ss_SocketActivation t) @ Itoa (nat old),
              listen_word (ss_SocketActivation t) @ Itoa (nat (ss_NewPort t)), ''''])"
  using assms
  by (auto simp: sshPortSpec_def Let_def fragment_header_def nl_def split: diff_value.splits if_splits)

lemma remove_old_line:
  assumes "0 < old" and "0 < new" and "old \<noteq> new"
  shows "removeSSHListener (JoinWith (CHR 0x0A)
            (fragment_header sock @ [listen_word sock @ Itoa (nat old), listen_word sock @ Itoa (nat new), ''''])) old sock
         = JoinWith (CHR 0x0A) (fragment_header sock @ [listen_word sock @ Itoa (nat new), ''''])"
proof -
  let ?w = "listen_word sock"
  have lines: "Split (CHR 0x0A) (JoinWith (CHR 0x0A) (fragment_header sock @ [?w @ Itoa (nat old), ?w @ Itoa (nat new), '''']))
      = fragment_header sock @ [?w @ Itoa (nat old), ?w @ Itoa (nat new), '''']"
    by (rule Split_JoinWith) (use fragment_header_lines newline_not_in_Itoa in auto)
  have keep: "filter (\<lambda>l. TrimSpace l \<noteq> ?w @ Itoa (nat old)) (fragment_header sock) = fragment_header sock"
    using header_lines_kept by (simp add: filter_id_conv)
  have "TrimSpace (?w @ Itoa n) = ?w @ Itoa n" for n
    by (rule TrimSpace_word) (auto simp: is_space_def)
  moreover have "nat old \<noteq> nat new" using assms by linarith
  ultimately show ?thesis
    unfolding removeSSHListener_def lines by (simp add: keep fixed_lines split del: if_split)
qed

text \<open>
  The final SSH fragment. For a migration planned from one listening port to a different one, the
  finalization turns the staged fragment into the same fragment without the old listener's line and
  with the new listener's line: nothing else is lost.
\<close>

lemma finalized_ssh_fragment:
  assumes "sshPortSpec m d = Some sp" and "asp_SSH sp = Some t"
    and "sec_SSHPorts (act_Security (m_Actual m)) = [old]" and "0 < old" and "old \<noteq> ss_NewPort t"
  shows "\<exists>header.
           ss_ConfigContent t = JoinWith (CHR 0x0A) (header @ [listen_word (ss_SocketActivation t) @ Itoa (nat old),
              listen_word (ss_SocketActivation t) @ Itoa (nat (ss_NewPort t)), ''''])
         \<and> ss_ConfigContent (fx_final t) =
             JoinWith (CHR 0x0A) (header @ [listen_word (ss_SocketActivation t) @ Itoa (nat (ss_NewPort t)), ''''])"
proof -
  note p = planned_fragment [OF assms]
  have "ss_ConfigContent (fx_final t) = removeSSHListener (ss_ConfigContent t) (ss_OldPort t) (ss_SocketActivation t)"
    by (simp add: fx_final_def)
  then show ?thesis using remove_old_line [OF assms(4) p(2) assms(5)] p(1,3) by metis
qed

subsection \<open>Socket-activated hosts\<close>

lemma socket_path_refused:
  assumes "sx_Root e \<in> {'''', ''/''}"
  shows "\<exists>msg. ssh_lexical_path e ''/etc/systemd/system/ssh.socket.d/99-vps-gateway.conf'' = Inl msg"
proof -
  have root: "fe_root (sx_files e) = ''/''"
    using assms by (auto simp: fe_root_def sx_files_def root_facts)
  have rel: "Rel ''/'' (Clean ''/etc/systemd/system/ssh.socket.d/99-vps-gateway.conf'')
      = Some ''etc/systemd/system/ssh.socket.d/99-vps-gateway.conf''" by code_simp
  have ns: "\<not> relativeInNamespace ''etc/systemd/system/ssh.socket.d/99-vps-gateway.conf'' sshConfigNamespaces" by code_simp
  have "isl (ssh_lexical_path e ''/etc/systemd/system/ssh.socket.d/99-vps-gateway.conf'')"
    unfolding ssh_lexical_path_def root rel option.case using ns by (simp only: simp_thms if_True if_False sum.disc split: if_split)
  then show ?thesis by (metis isl_def)
qed

lemma clean_run_backup_fails:
  assumes "a \<in> set as" and "\<And>s. fst (ex_Backup ex (a_ID a) (a_Resource a) s) \<noteq> None"
  shows "clean_run e ex as s = None"
  using assms(1)
proof (induction as arbitrary: s)
  case (Cons b as)
  show ?case
  proof (cases "b = a")
    case True
    then show ?thesis using assms(2) [of s] by (auto split: prod.split option.split)
  next
    case False
    with Cons show ?thesis by (auto split: prod.split option.split)
  qed
qed simp

text \<open>
  SSH migrations are impossible on socket-activated hosts. The fragment path the planner chooses
  there lies outside the namespace the SSH executor accepts, so the backup of the planned action
  always fails and every transaction that contains it is rolled back.
\<close>

lemma socket_ssh_migration_refused:
  assumes "sshPortSpec m d = Some sp"
    and "string_contains (ToLower (sec_SSHArchitecture (act_Security (m_Actual m)))) ''socket''"
    and "a \<in> set as" and "a_Spec a = Some sp" and "sx_Actions e (a_ID a) = Some a" and "sx_Root e \<in> {'''', ''/''}"
  shows "fst (run_actions eng (ssh_executor sha e) as [] [] h) = StatusRolledBack"
proof -
  obtain t where t: "asp_SSH sp = Some t" "ss_ConfigPath t = ''/etc/systemd/system/ssh.socket.d/99-vps-gateway.conf''"
    using assms(1,2) by (auto simp: sshPortSpec_def Let_def split: diff_value.splits if_splits)
  obtain msg where msg: "ssh_lexical_path e (ss_ConfigPath t) = Inl msg"
    using socket_path_refused [OF assms(6)] t(2) by auto
  have "isl (fst (sx_Backup sha e (a_ID a) (a_Resource a) s))" for s
  proof (cases "sx_action e (a_ID a) (a_Resource a)")
    case (Inl err)
    then show ?thesis by (simp add: sx_Backup_def fbind_def flift_def)
  next
    case (Inr p)
    obtain a' s' where p: "p = (a', s')" by fastforce
    have "s' = t" using sx_action_spec [OF Inr [unfolded p]] assms(4,5) t(1) by (simp add: ssh_spec_def)
    moreover have "ss_ConfigPath t \<noteq> ''''" using t(2) by simp
    ultimately show ?thesis
      using Inr p msg by (simp add: sx_Backup_def fbind_def flift_def sx_safePath_def)
  qed
  then have "fst (ex_Backup (ssh_executor sha e) (a_ID a) (a_Resource a) s) \<noteq> None" for s
    unfolding ssh_executor_def by (auto simp: run_step_def split: prod.split sum.split) (metis fst_conv sum.disc(2))
  from clean_run_backup_fails [OF assms(3) this] show ?thesis
    using run_actions_status [of eng "ssh_executor sha e" as "[]" "[]" h] by simp
qed


subsection \<open>Samples\<close>

text \<open>A runner that records commands.\<close>

definition ex_service :: "(string \<times> string list) list ServiceExecutor" where
  "ex_service = \<lparr>se_Actions = None, se_Runner = (\<lambda>name args s. (Inr '''', s @ [(name, args)])), se_unitPolicy = None\<rparr>"

definition ex_restart :: Action where
  "ex_restart = (ex_write 0 ''x'' '''')\<lparr>a_Resource := ''service.fail2ban.service'', a_Kind := ActionService,
     a_Spec := Some (empty_ActionSpec\<lparr>asp_Service := Some \<lparr>svs_Name = ''fail2ban.service'', svs_Operation = ''restart'',
       svs_ExpectedState = ''active'', svs_RollbackOperation = ''''\<rparr>\<rparr>)\<rparr>"

definition ex_plan :: Plan where
  "ex_plan = (empty_plan (ex_model [] []))\<lparr>p_Actions := [ex_restart]\<rparr>"

definition ex_service_engine :: "(string \<times> string list) list Engine" where
  "ex_service_engine = plain_engine\<lparr>eng_Executor :=
     Some (registry_executor (production_registry ex_service (registry [ex_restart])))\<rparr>"

theorem production_apply_commands_witness:
  "snd (Engine_Apply ex_service_engine ex_plan (Some \<lparr>pg_Ready = True, pg_Reasons = []\<rparr>) []) =
     [(''systemctl'', [''restart'', ''fail2ban.service'']), (''systemctl'', [''is-active'', ''--quiet'', ''fail2ban.service''])]
   \<and> ([], snd (Engine_Apply ex_service_engine ex_plan (Some \<lparr>pg_Ready = True, pg_Reasons = []\<rparr>) [])) \<in>
       (cmd_rel (se_Runner ex_service) {(''systemctl'', [''restart'', ''fail2ban.service'']),
          (''systemctl'', [''is-active'', ''--quiet'', ''fail2ban.service''])} \<union> sink_rel ex_service_engine)\<^sup>*"
proof (rule conjI)
  show "snd (Engine_Apply ex_service_engine ex_plan (Some \<lparr>pg_Ready = True, pg_Reasons = []\<rparr>) []) =
     [(''systemctl'', [''restart'', ''fail2ban.service'']), (''systemctl'', [''is-active'', ''--quiet'', ''fail2ban.service''])]"
    by code_simp
  show "([], snd (Engine_Apply ex_service_engine ex_plan (Some \<lparr>pg_Ready = True, pg_Reasons = []\<rparr>) [])) \<in>
       (cmd_rel (se_Runner ex_service) {(''systemctl'', [''restart'', ''fail2ban.service'']),
          (''systemctl'', [''is-active'', ''--quiet'', ''fail2ban.service''])} \<union> sink_rel ex_service_engine)\<^sup>*"
    by (rule production_apply_commands [where acts = "registry [ex_restart]"]) (simp_all add: ex_service_def ex_service_engine_def)
qed

text \<open>A host whose SSH daemon listens on the ports of the managed fragment after each reload.\<close>

definition sockets_of :: "FS \<Rightarrow> string" where
  "sockets_of fs =
     (case lookup fs ''/etc/ssh/sshd_config.d/99-vps-gateway.conf'' of
        Some (NFile (Bytes c) _) \<Rightarrow>
          JoinWith (CHR 0x0A) (map (\<lambda>l. ''LISTEN 0 128 0.0.0.0:'' @ drop 5 l) (filter (prefix ''Port '') (Split (CHR 0x0A) c)))
      | _ \<Rightarrow> ''LISTEN 0 128 0.0.0.0:22'')"

definition ex_ssh_runner :: "string Host runner" where
  "ex_ssh_runner name args h =
     (if name = ''ss'' then (Inr (h_world h), h)
      else if name = ''systemctl'' then (Inr '''', h\<lparr>h_world := sockets_of (h_fs h)\<rparr>)
      else (Inr '''', h))"

definition ex_ssh_host :: "string Host" where
  "ex_ssh_host =
     \<lparr>h_fs = \<lparr>fs_nodes = [(''/etc'', NDir), (''/etc/ssh'', NDir), (''/etc/ssh/sshd_config.d'', NDir)],
        fs_faults = [], fs_root_error = None\<rparr>, h_world = ''LISTEN 0 128 0.0.0.0:22''\<rparr>"

definition ex_ssh_diff :: DiffItem where
  "ex_ssh_diff = add_item ''ssh.port'' VNil (VInt 2222) UpdateDiff Owned ''''"

definition ex_ssh_spec :: ActionSpec where
  "ex_ssh_spec = the (sshPortSpec (ex_model [] []) ex_ssh_diff)"

definition ex_ssh_action :: "ActionKind \<Rightarrow> Action" where
  "ex_ssh_action k = (ex_write 0 ''x'' '''')\<lparr>a_Resource := ''ssh.port'', a_Kind := k, a_Spec := Some ex_ssh_spec\<rparr>"

definition ex_ssh :: "ActionKind \<Rightarrow> string SSHExecutor" where
  "ex_ssh k = \<lparr>sx_Actions = registry [ex_ssh_action k], sx_Runner = ex_ssh_runner, sx_Root = '''', sx_Backups = '''',
     sx_TransactionID = ''tx-1'', sx_PlanFingerprint = ''fp''\<rparr>"

abbreviation ex_migrate :: "ActionKind \<Rightarrow> (string + unit) \<times> string Host" where
  "ex_migrate k \<equiv> sx_Apply (ex_ssh k) (a_ID (ex_ssh_action k)) ''ssh.port'' ActionSSH ex_ssh_host"

lemma ex_ssh_planned: "sshPortSpec (ex_model [] []) ex_ssh_diff = Some ex_ssh_spec"
  by (simp add: ex_ssh_spec_def sshPortSpec_def ex_ssh_diff_def add_item_def Let_def)

lemma ex_ssh_ports: "sec_SSHPorts (act_Security (m_Actual (ex_model [] []))) = [22]" "(0 :: int) < 22"
  by (simp_all add: ex_model_def ex_Actual_def)



definition ex_finalize :: "string SSHFinalizeExecutor" where
  "ex_finalize = \<lparr>fx_Base = Some (ex_ssh ActionSSHFinalize), fx_Probe = Some (\<lambda>_ _ _. fret ()),
     fx_ManagementHost = ''gw.example.net'', fx_ManagementPort = 2222, fx_Timeout = 0\<rparr>"

definition ex_ssh_t :: SSHActionSpec where
  "ex_ssh_t = the (asp_SSH ex_ssh_spec)"

definition ex_staged_host :: "string Host" where
  "ex_staged_host = ex_ssh_host\<lparr>h_world := ''LISTEN 0 128 0.0.0.0:22'' @ CHR 0x0A # ''LISTEN 0 128 0.0.0.0:2222''\<rparr>"

abbreviation ex_finalized :: "(string + unit) \<times> string Host" where
  "ex_finalized \<equiv> fx_Apply ex_finalize (a_ID (ex_ssh_action ActionSSHFinalize)) ''ssh.port'' ActionSSHFinalize ex_staged_host"

lemma ex_ssh_t: "asp_SSH ex_ssh_spec = Some ex_ssh_t" "ss_NewPort ex_ssh_t = 2222" "ss_OldPort ex_ssh_t = 22"
  using ex_ssh_ports by (simp_all add: ex_ssh_t_def ex_ssh_spec_def sshPortSpec_def ex_ssh_diff_def add_item_def Let_def)

lemma ssh_finalize_guarded_witness:
  "\<exists>h5 h6. listener (ex_ssh ActionSSHFinalize) 2222 h5 = (Inr True, h6)
     \<and> listener (ex_ssh ActionSSHFinalize) 22 h6 = (Inr False, snd ex_finalized)"
proof -
  have "fst ex_finalized = Inr ()" by code_simp
  then have ok: "ex_finalized = (Inr (), snd ex_finalized)" by (metis prod.collapse)
  have "ssh_unit ex_ssh_t \<in> set sshUnitPolicy" "validateUnitName (ss_Unit ex_ssh_t) = Inr ()" by code_simp+
  then have "fx_action ex_finalize (a_ID (ex_ssh_action ActionSSHFinalize)) ''ssh.port'' = Inr (ex_ssh ActionSSHFinalize, ex_ssh_t)"
    by (simp add: fx_action_def ex_finalize_def sx_action_def ex_ssh_def registry_def ex_ssh_action_def ex_write_def
        ssh_spec_def ex_ssh_t)
  from ssh_finalize_guarded [OF this] ok show ?thesis unfolding ex_ssh_t(2,3) by blast
qed

lemma finalized_ssh_fragment_witness:
  "\<exists>header. ss_ConfigContent (fx_final ex_ssh_t) =
     JoinWith (CHR 0x0A) (header @ [listen_word (ss_SocketActivation ex_ssh_t) @ Itoa 2222, ''''])"
  using finalized_ssh_fragment [OF ex_ssh_planned ex_ssh_t(1) ex_ssh_ports] by (auto simp: ex_ssh_t)

definition ex_socket_model :: "unit Model" where
  "ex_socket_model = (ex_model [] [])\<lparr>m_Actual := ex_Actual\<lparr>act_Security := (act_Security ex_Actual)
     \<lparr>sec_SSHArchitecture := ''socket''\<rparr>\<rparr>\<rparr>"

definition ex_socket_action :: Action where
  "ex_socket_action = (ex_ssh_action ActionSSH)\<lparr>a_Spec := sshPortSpec ex_socket_model ex_ssh_diff\<rparr>"

lemma socket_ssh_migration_refused_witness:
  "fst (run_actions plain_engine (ssh_executor ex_sha ((ex_ssh ActionSSH)\<lparr>sx_Actions := registry [ex_socket_action]\<rparr>))
     [ex_socket_action] [] [] ex_ssh_host) = StatusRolledBack"
proof -
  obtain sp where sp: "sshPortSpec ex_socket_model ex_ssh_diff = Some sp"
    by (simp add: sshPortSpec_def ex_ssh_diff_def add_item_def Let_def)
  have "string_contains (ToLower (sec_SSHArchitecture (act_Security (m_Actual ex_socket_model)))) ''socket''" by code_simp
  then show ?thesis
    by (rule socket_ssh_migration_refused [OF sp])
      (auto simp: ex_socket_action_def registry_def sp ex_ssh_def)
qed

end
