(* ===== verification/Netip.thy ===== *)
theory Netip
  imports Text
begin

text \<open>
  The part of Go's \<open>net/netip\<close> the sources use: IPv4 addresses as 32-bit words with their strict
  dotted-decimal syntax, prefixes with their strict CIDR syntax, masking, containment and the address
  classes. IPv6 values are kept as 128-bit words, only to be told apart; their text form is not
  modelled, since every use here either refuses them or only compares them.
\<close>

unbundle bit_operations_syntax

subsection \<open>Decimal numbers\<close>

text \<open>Canonical decimal text: digits, no leading zero unless the text is \<open>0\<close>.\<close>

definition canonical_decimal :: "string \<Rightarrow> bool" where
  "canonical_decimal s \<longleftrightarrow> s \<noteq> [] \<and> list_all is_digit s \<and> (hd s = CHR ''0'' \<longrightarrow> length s = 1)"

definition decimal_upto :: "nat \<Rightarrow> string \<Rightarrow> nat option" where
  "decimal_upto n s =
     (if canonical_decimal s \<and> digits_value 0 s \<le> n then Some (digits_value 0 s) else None)"

subsection \<open>IPv4 addresses\<close>

type_synonym addr4 = "32 word"

definition octets :: "addr4 \<Rightarrow> nat list" where
  "octets a = (let n = unat a in [n div 16777216, n div 65536 mod 256, n div 256 mod 256, n mod 256])"

definition addr_of :: "nat \<Rightarrow> nat \<Rightarrow> nat \<Rightarrow> nat \<Rightarrow> addr4" where
  "addr_of a b c d = word_of_nat (((a * 256 + b) * 256 + c) * 256 + d)"

definition Addr_String :: "addr4 \<Rightarrow> string" where
  "Addr_String a = JoinWith (CHR ''.'') (map Itoa (octets a))"

definition ParseAddr4 :: "string \<Rightarrow> addr4 option" where
  "ParseAddr4 s =
     (case map (decimal_upto 255) (Split (CHR ''.'') s) of
        [Some a, Some b, Some c, Some d] \<Rightarrow> Some (addr_of a b c d)
      | _ \<Rightarrow> None)"

definition mask4 :: "nat \<Rightarrow> addr4" where
  "mask4 n = push_bit (32 - n) (mask n)"

definition in_prefix :: "addr4 \<Rightarrow> nat \<Rightarrow> addr4 \<Rightarrow> bool" where
  "in_prefix net n a \<longleftrightarrow> a AND mask4 n = net AND mask4 n"

definition IsUnspecified :: "addr4 \<Rightarrow> bool" where
  "IsUnspecified a \<longleftrightarrow> a = 0"
definition IsLoopback :: "addr4 \<Rightarrow> bool" where
  "IsLoopback a \<longleftrightarrow> in_prefix (addr_of 127 0 0 0) 8 a"
definition IsMulticast :: "addr4 \<Rightarrow> bool" where
  "IsMulticast a \<longleftrightarrow> in_prefix (addr_of 224 0 0 0) 4 a"
definition IsLinkLocalUnicast :: "addr4 \<Rightarrow> bool" where
  "IsLinkLocalUnicast a \<longleftrightarrow> in_prefix (addr_of 169 254 0 0) 16 a"
definition IsLinkLocalMulticast :: "addr4 \<Rightarrow> bool" where
  "IsLinkLocalMulticast a \<longleftrightarrow> in_prefix (addr_of 224 0 0 0) 24 a"

subsection \<open>Prefixes\<close>

text \<open>A \<open>netip.Prefix\<close>: the zero value, an IPv4 or an IPv6 prefix. Valid prefixes have at most 32 or 128 bits.\<close>

datatype Prefix = NoPrefix | Prefix4 addr4 nat | Prefix6 "128 word" nat

fun Prefix_IsValid :: "Prefix \<Rightarrow> bool" where
  "Prefix_IsValid NoPrefix = False"
| "Prefix_IsValid (Prefix4 a n) = (n \<le> 32)"
| "Prefix_IsValid (Prefix6 a n) = (n \<le> 128)"

definition Prefix4_String :: "addr4 \<Rightarrow> nat \<Rightarrow> string" where
  "Prefix4_String a n = Addr_String a @ CHR ''/'' # Itoa n"

text \<open>\<open>netip.ParsePrefix\<close> on text that is not IPv6: the part behind the last slash is the length.\<close>

definition ParsePrefix4 :: "string \<Rightarrow> (addr4 \<times> nat) option" where
  "ParsePrefix4 s =
     (case rev (Split (CHR ''/'') s) of
        bits # (addr # more) \<Rightarrow>
          (case ParseAddr4 (JoinWith (CHR ''/'') (rev (addr # more))) of
             None \<Rightarrow> None
           | Some a \<Rightarrow> (case decimal_upto 32 bits of None \<Rightarrow> None | Some n \<Rightarrow> Some (a, n)))
      | _ \<Rightarrow> None)"

definition Masked4 :: "addr4 \<Rightarrow> nat \<Rightarrow> addr4" where
  "Masked4 a n = a AND mask4 n"

subsection \<open>Decimal text and numbers\<close>

lemma Itoa_canonical: "canonical_decimal (Itoa n)"
proof -
  have "hd (Itoa n) = CHR ''0'' \<longrightarrow> length (Itoa n) = 1"
  proof (induction n rule: Itoa.induct)
    case (1 n)
    show ?case
    proof (cases "n < 10")
      case True
      then have "length (Itoa n) = 1" by (subst Itoa.simps) simp
      then show ?thesis by blast
    next
      case False
      have "hd (Itoa n) = hd (Itoa (n div 10))"
        using False by (subst Itoa.simps) simp
      moreover have "\<not> (hd (Itoa (n div 10)) = CHR ''0'')"
      proof
        assume h: "hd (Itoa (n div 10)) = CHR ''0''"
        with 1 False have "length (Itoa (n div 10)) = 1" by simp
        with h have "Itoa (n div 10) = [CHR ''0'']" by (cases "Itoa (n div 10)") auto
        then have "digits_value 0 (Itoa (n div 10)) = 0" by simp
        with False show False by (simp add: digits_value_Itoa)
      qed
      ultimately show ?thesis by simp
    qed
  qed
  then show ?thesis using Itoa_digits [of n] by (simp add: canonical_decimal_def list_all_iff)
qed

lemma digit_char: "is_digit c \<Longrightarrow> char_of (48 + (of_char c - 48 :: nat)) = c"
  by (simp add: is_digit_def)

lemma digits_value_ge: "acc * 10 ^ length s \<le> digits_value acc s"
proof (induction s arbitrary: acc)
  case (Cons c s)
  have "acc * 10 * 10 ^ length s \<le> (acc * 10 + (of_char c - 48)) * 10 ^ length s" by simp
  also have "\<dots> \<le> digits_value (acc * 10 + (of_char c - 48)) s" by (rule Cons.IH)
  finally show ?case by (simp add: mult.assoc)
qed simp

lemma Itoa_digits_value:
  assumes "canonical_decimal s"
  shows "Itoa (digits_value 0 s) = s"
  using assms
proof (induction s rule: rev_induct)
  case (snoc c s)
  have c: "is_digit c" using snoc.prems by (simp add: canonical_decimal_def)
  then have v: "of_char c - 48 < (10 :: nat)" by (auto simp: is_digit_def)
  show ?case
  proof (cases "s = []")
    case True
    then show ?thesis using v digit_char [OF c] by (subst Itoa.simps) simp
  next
    case False
    then have h: "hd s \<noteq> CHR ''0''" using snoc.prems by (cases s) (auto simp: canonical_decimal_def)
    then have can: "canonical_decimal s" using snoc.prems False by (auto simp: canonical_decimal_def)
    obtain x xs where s: "s = x # xs" using False by (cases s) auto
    have "is_digit x" "x \<noteq> CHR ''0''" using can h s by (auto simp: canonical_decimal_def)
    then have "(of_char x :: nat) \<noteq> of_char (CHR ''0'')" by (metis char_of_char)
    then have "(of_char x :: nat) \<noteq> 48" by simp
    then have "1 \<le> of_char x - (48 :: nat)" using \<open>is_digit x\<close> unfolding is_digit_def by linarith
    then have "1 \<le> digits_value 0 s"
      using digits_value_ge [of "of_char x - 48" xs] s by simp (metis One_nat_def Suc_le_eq le_trans mult_is_0 not_gr_zero power_not_zero zero_neq_numeral)
    then have d: "\<not> digits_value 0 (s @ [c]) < 10" by (simp add: digits_value_append)
    have "Itoa (digits_value 0 (s @ [c])) = Itoa (digits_value 0 s) @ [char_of (48 + (of_char c - 48 :: nat))]"
      using d v by (subst Itoa.simps) (simp add: digits_value_append)
    then show ?thesis using snoc.IH [OF can] digit_char [OF c] by simp
  qed
qed (simp add: canonical_decimal_def)

lemma decimal_upto_iff: "decimal_upto n s = Some k \<longleftrightarrow> k \<le> n \<and> s = Itoa k"
  using Itoa_canonical [of k] Itoa_digits_value [of s] by (auto simp: decimal_upto_def digits_value_Itoa)


subsection \<open>Round trips\<close>

lemma Itoa_no: "\<not> is_digit c \<Longrightarrow> c \<notin> set (Itoa n)"
  using Itoa_digits by blast

lemma dot_slash_not_digit: "\<not> is_digit (CHR ''.'')" "\<not> is_digit (CHR ''/'')" "\<not> is_digit (CHR '':'')"
  by (simp_all add: is_digit_def)

lemma octets_bound: "o1 \<in> set (octets a) \<Longrightarrow> o1 \<le> 255"
proof -
  have "unat a < 2 ^ LENGTH(32)" by (rule unsigned_less)
  then have "unat a < 4294967296" by simp
  then have "unat a div 16777216 \<le> 255" by linarith
  moreover have "x mod 256 \<le> 255" for x :: nat
    using mod_less_divisor [of 256 x] by linarith
  ultimately show "o1 \<in> set (octets a) \<Longrightarrow> o1 \<le> 255" by (auto simp: octets_def Let_def)
qed

lemma div_bytes: "n div 16777216 = n div 256 div 256 div 256" "n div 65536 = n div 256 div 256" for n :: nat
  by (simp_all add: div_mult2_eq [symmetric])

lemma addr_of_octets:
  assumes "octets a = [p, q, r, s]"
  shows "addr_of p q r s = a"
proof -
  have p: "p = unat a div 16777216" "q = unat a div 65536 mod 256" "r = unat a div 256 mod 256" "s = unat a mod 256"
    using assms by (auto simp: octets_def Let_def)

  have "((p * 256 + q) * 256 + r) * 256 + s = unat a"
    unfolding p div_bytes by (simp add: div_mult_mod_eq mult.commute)
  then show ?thesis by (simp add: addr_of_def)
qed

lemma octets_addr_of:
  assumes "p \<le> 255" "q \<le> 255" "r \<le> 255" "s \<le> 255"
  shows "octets (addr_of p q r s) = [p, q, r, s]"
proof -
  have step: "x * 256 + y \<le> n * 256 + 255" if "x \<le> n" "y \<le> 255" for x y n :: nat
    using that by (meson add_mono mult_le_mono1)
  have "((p * 256 + q) * 256 + r) * 256 + s \<le> ((255 * 256 + 255) * 256 + 255) * 256 + 255"
    by (intro step assms)
  then have "((p * 256 + q) * 256 + r) * 256 + s < 4294967296" by simp
  then have u: "unat (addr_of p q r s) = ((p * 256 + q) * 256 + r) * 256 + s"
  proof -
    have "unat (word_of_nat n :: addr4) = n" if "n < 4294967296" for n
      using that by (simp add: unat_of_nat)
    then show ?thesis unfolding addr_of_def using \<open>((p * 256 + q) * 256 + r) * 256 + s < 4294967296\<close> by blast
  qed
  have dm: "(x * 256 + y) div 256 = x" "(x * 256 + y) mod 256 = y" if "y \<le> 255" for x y :: nat
    using that by auto
  note e = dm(1) [OF assms(4), of "(p * 256 + q) * 256 + r"] dm(2) [OF assms(4), of "(p * 256 + q) * 256 + r"]
    dm(1) [OF assms(3), of "p * 256 + q"] dm(2) [OF assms(3), of "p * 256 + q"]
    dm(1) [OF assms(2), of p] dm(2) [OF assms(2), of p]
  show ?thesis
    unfolding octets_def Let_def u div_bytes e by (rule refl)
qed

lemma Split_Addr_String: "Split (CHR ''.'') (Addr_String a) = map Itoa (octets a)"
  unfolding Addr_String_def
  by (rule Split_JoinWith) (auto simp: octets_def Let_def Itoa_no dot_slash_not_digit)

lemma ParseAddr4_String [simp]: "ParseAddr4 (Addr_String a) = Some a"
proof -
  obtain p q r s where o: "octets a = [p, q, r, s]" by (simp add: octets_def Let_def)
  have "decimal_upto 255 (Itoa n) = Some n" if "n \<in> set (octets a)" for n
    using octets_bound [OF that] by (simp add: decimal_upto_iff)
  then show ?thesis by (simp add: ParseAddr4_def Split_Addr_String o addr_of_octets)
qed

lemma ParseAddr4_Some: "ParseAddr4 s = Some a \<Longrightarrow> Addr_String a = s"
proof -
  assume "ParseAddr4 s = Some a"
  then obtain p q r t where m: "map (decimal_upto 255) (Split (CHR ''.'') s) = [Some p, Some q, Some r, Some t]"
    and a: "a = addr_of p q r t"
    by (auto simp: ParseAddr4_def split: list.splits option.splits)
  from m obtain w1 w2 w3 w4 where w: "Split (CHR ''.'') s = [w1, w2, w3, w4]"
    by (auto simp: map_eq_Cons_conv)
  with m have k: "p \<le> 255 \<and> w1 = Itoa p" "q \<le> 255 \<and> w2 = Itoa q" "r \<le> 255 \<and> w3 = Itoa r" "t \<le> 255 \<and> w4 = Itoa t"
    by (simp_all add: decimal_upto_iff)
  then have "Addr_String a = JoinWith (CHR ''.'') [w1, w2, w3, w4]"
    unfolding a Addr_String_def using octets_addr_of [of p q r t] by simp
  also have "\<dots> = s" using JoinWith_Split [of "CHR ''.''" s] w by simp
  finally show ?thesis .
qed

lemma ParseAddr4_no_slash: "CHR ''/'' \<in> set s \<Longrightarrow> ParseAddr4 s = None"
proof (rule ccontr)
  assume s: "CHR ''/'' \<in> set s" and "ParseAddr4 s \<noteq> None"
  then obtain a where "Addr_String a = s" using ParseAddr4_Some by blast
  with s have "CHR ''/'' \<in> set (Addr_String a)" by simp
  then show False
    by (auto simp: Addr_String_def octets_def Let_def Itoa_no dot_slash_not_digit)
qed

lemma Addr_String_no_slash: "CHR ''/'' \<notin> set (Addr_String a)"
  using ParseAddr4_no_slash by force

lemma JoinWith_sep: "2 \<le> length ws \<Longrightarrow> c \<in> set (JoinWith c ws)"
  by (cases "(c, ws)" rule: JoinWith.cases) auto

lemma ParsePrefix4_String: "n \<le> 32 \<Longrightarrow> ParsePrefix4 (Prefix4_String a n) = Some (a, n)"
  by (simp add: ParsePrefix4_def Prefix4_String_def Split_sep Addr_String_no_slash Split_plain Itoa_no
      dot_slash_not_digit decimal_upto_iff [THEN iffD2])

lemma ParsePrefix4_Some:
  assumes "ParsePrefix4 s = Some (a, n)"
  shows "n \<le> 32 \<and> s = Prefix4_String a n"
proof -
  from assms obtain bits addr more where r: "rev (Split (CHR ''/'') s) = bits # addr # more"
    and p: "ParseAddr4 (JoinWith (CHR ''/'') (rev (addr # more))) = Some a" and b: "decimal_upto 32 bits = Some n"
    by (auto simp: ParsePrefix4_def split: list.splits option.splits)
  have sp: "Split (CHR ''/'') s = rev (addr # more) @ [bits]" using r by (metis rev.simps(2) rev_rev_ident)
  have "rev (addr # more) = [JoinWith (CHR ''/'') (rev (addr # more))]"
  proof (cases more)
    case (Cons x xs)
    have "CHR ''/'' \<in> set (JoinWith (CHR ''/'') (rev (addr # more)))"
      by (rule JoinWith_sep) (simp add: Cons)
    with p ParseAddr4_no_slash show ?thesis by simp
  qed simp
  then have "Split (CHR ''/'') s = [Addr_String a, bits]" using sp ParseAddr4_Some [OF p] by simp
  then have "s = Addr_String a @ CHR ''/'' # bits" by (metis JoinWith.simps(2,3) JoinWith_Split)
  with b show ?thesis by (simp add: Prefix4_String_def decimal_upto_iff)
qed

lemma JoinWith_chars: "c \<in> set (JoinWith sep (map Itoa ms)) \<Longrightarrow> is_digit c \<or> c = sep"
proof (induction ms)
  case (Cons m ms)
  then show ?case using Itoa_digits [of m] by (cases ms) (auto simp del: Itoa.simps)
qed simp

lemma Addr_String_chars: "c \<in> set (Addr_String a) \<Longrightarrow> is_digit c \<or> c = CHR ''.''"
  by (simp add: Addr_String_def JoinWith_chars)

lemma Prefix4_String_chars: "c \<in> set (Prefix4_String a n) \<Longrightarrow> is_digit c \<or> c = CHR ''.'' \<or> c = CHR ''/''"
  using Addr_String_chars [of c a] Itoa_digits [of n] by (auto simp: Prefix4_String_def simp del: Itoa.simps)

lemma TrimSpace_numeric:
  assumes "\<forall>c \<in> set s. is_digit c \<or> c = CHR ''.'' \<or> c = CHR ''/''"
  shows "TrimSpace s = s"
proof (cases "s = []")
  case False
  have "\<not> is_space c" if "c \<in> set s" for c using assms that by (auto simp: is_digit_def is_space_def)
  with False show ?thesis by (intro TrimSpace_id) simp_all
qed (simp add: TrimSpace_def)

lemma TrimSpace_address [simp]: "TrimSpace (Addr_String a) = Addr_String a" "TrimSpace (Prefix4_String a n) = Prefix4_String a n"
  using Addr_String_chars Prefix4_String_chars by (blast intro: TrimSpace_numeric)+

subsection \<open>Containment of prefixes\<close>

lemma mask4_mono:
  assumes "n \<le> m" and "m \<le> 32"
  shows "mask4 m AND mask4 n = mask4 n"
  using assms by (intro bit_word_eqI) (auto simp: mask4_def bit_simps)

lemma in_prefix_trans:
  assumes "n \<le> m" and "m \<le> 32" and "in_prefix b m x"
  shows "in_prefix a n x = in_prefix a n b"
proof -
  have "y AND mask4 n = (y AND mask4 m) AND mask4 n" for y
    using mask4_mono [OF assms(1,2)] by (simp add: and.assoc)
  then show ?thesis using assms(3) unfolding in_prefix_def by metis
qed

lemma in_prefix_self [simp]: "in_prefix a n a"
  by (simp add: in_prefix_def)

lemma in_prefix_0 [simp]: "in_prefix a 0 x"
  by (simp add: in_prefix_def mask4_def)

end
