(* ===== verification/Capability.thy ===== *)
theory Capability
  imports Executors Netip
begin

text \<open>
  The capability vocabulary of \<open>internal/capability\<close>: canonical capability strings
  (\<open>capability.go\<close>), typed derivation and aggregation (\<open>derivation.go\<close>), the exact-set grant check
  (\<open>verification.go\<close>), and the derivation of a plan's required set in \<open>internal/apply\<close>
  (\<open>stage4_capabilities.go\<close>). Error classes are constructors; errors without a class keep their text.
\<close>

subsection \<open>Error classes\<close>

datatype cap_error =
    ErrUnknownCapability string | ErrDuplicateCapability string | ErrNonCanonical string
  | ErrMissingParameter string | ErrUnknownParameter string | ErrDuplicateParameter string
  | ErrInvalidParameterValue string cap_error | ErrEmptyParameter string
  | ErrUnsupportedDerivationKind | ErrMissingTypedSpec string | ErrIrrelevantSpecField string
  | ErrConflictingRequirements string | ErrText string

subsection \<open>Parameter values (capability.go)\<close>

datatype paramKind = paramKeySet | paramChainSet | paramIfaceSet | paramTable | paramSelector | paramTag | paramUnit

definition char_between :: "char \<Rightarrow> char \<Rightarrow> char \<Rightarrow> bool" where
  "char_between lo hi c \<longleftrightarrow> (of_char lo :: nat) \<le> of_char c \<and> (of_char c :: nat) \<le> of_char hi"

definition name_char :: "char list \<Rightarrow> char \<Rightarrow> bool" where
  "name_char extra c \<longleftrightarrow> char_between (CHR ''a'') (CHR ''z'') c \<or> is_digit c \<or> c \<in> set extra"

definition ValidInterfaceName :: "string \<Rightarrow> cap_error option" where
  "ValidInterfaceName name =
     (if length name < 1 \<or> 15 < length name then Some (ErrText ''interface name must be 1..15 bytes'')
      else if name = ''.'' \<or> name = ''..'' then Some (ErrText ''interface name is a reserved path form'')
      else if hd name = CHR ''-'' \<or> hd name = CHR ''.'' \<or> last name = CHR ''-'' \<or> last name = CHR ''.''
      then Some (ErrText ''interface name must not start or end with a separator'')
      else if \<not> list_all (name_char ''._-'') name
      then Some (ErrText ''interface name contains a character outside [a-z0-9._-]'')
      else None)"

definition validateChainName :: "string \<Rightarrow> cap_error option" where
  "validateChainName name =
     (if length name < 1 \<or> 27 < length name then Some (ErrText ''chain name must be 1..27 bytes'')
      else if hd name = CHR ''-'' \<or> hd name = CHR ''_'' \<or> last name = CHR ''-'' \<or> last name = CHR ''_''
      then Some (ErrText ''chain name must not start or end with a separator'')
      else if \<not> list_all (name_char ''_-'') name
      then Some (ErrText ''chain name contains a character outside [a-z0-9_-]'')
      else None)"

definition validateTag :: "string \<Rightarrow> cap_error option" where
  "validateTag tag =
     (if length tag < 1 \<or> 32 < length tag then Some (ErrText ''tag must be 1..32 bytes'')
      else if \<not> list_all (name_char ''-'') tag then Some (ErrText ''tag contains a character outside [a-z0-9-]'')
      else None)"

definition cap_ValidUnitName :: "string \<Rightarrow> cap_error option" where
  "cap_ValidUnitName name =
     (if name = '''' then Some (ErrText ''unit name must not be empty'')
      else if 255 < length name then Some (ErrText ''unit name is too long'')
      else if hd name = CHR ''-'' then Some (ErrText ''unit name must not look like a command-line option'')
      else case cut_dot name of
        None \<Rightarrow> Some (ErrText ''unit name is not a valid unit identifier'')
      | Some (pre, unitType) \<Rightarrow>
          if CHR ''.'' \<in> set unitType then Some (ErrText ''unit name is not a valid unit identifier'')
          else if unitType \<noteq> ''service'' \<and> unitType \<noteq> ''socket'' then Some (ErrText ''unsupported unit type'')
          else if pre = '''' \<or> pre = ''.'' \<or> pre = ''..'' then Some (ErrText ''unit name must not be path-like'')
          else if \<not> list_all (\<lambda>c. char_between (CHR ''a'') (CHR ''z'') c \<or> char_between (CHR ''A'') (CHR ''Z'') c
                     \<or> is_digit c \<or> c \<in> set ''_-.:'') name
          then Some (ErrText ''unit name contains invalid character'')
          else None)"

definition compiledSysctlKeys :: "string list" where
  "compiledSysctlKeys = [''net.ipv4.ip_forward'', ''net.ipv4.conf.all.rp_filter'',
     ''net.ipv4.conf.default.rp_filter'', ''net.ipv6.conf.all.disable_ipv6'']"

definition scopedSysctlIface :: "string \<Rightarrow> string \<Rightarrow> string \<Rightarrow> string option" where
  "scopedSysctlIface key pre suf =
     (if \<not> HasPrefix key pre \<or> \<not> suffix suf key then None
      else let iface = TrimSuffix (TrimPrefix key pre) suf in if iface = '''' then None else Some iface)"

definition scoped_key_error :: "string \<Rightarrow> cap_error option" where
  "scoped_key_error iface =
     (if iface = ''all'' \<or> iface = ''default''
      then Some (ErrText ''interface-scoped form is reserved for per-interface keys; use the compiled static key'')
      else ValidInterfaceName iface)"

definition CheckSysctlKey :: "string \<Rightarrow> cap_error option" where
  "CheckSysctlKey key =
     (if key \<in> set compiledSysctlKeys then None
      else case scopedSysctlIface key ''net.ipv4.conf.'' ''.rp_filter'' of
        Some iface \<Rightarrow> scoped_key_error iface
      | None \<Rightarrow>
          (case scopedSysctlIface key ''net.ipv6.conf.'' ''.disable_ipv6'' of
             Some iface \<Rightarrow> scoped_key_error iface
           | None \<Rightarrow> Some (ErrText ''key is outside the compiled v1 sysctl allowlist'')))"

fun set_structure :: "string option \<Rightarrow> string list \<Rightarrow> cap_error option" where
  "set_structure prev [] = None"
| "set_structure prev (e # es) =
     (if e = '''' then Some (ErrEmptyParameter ''empty set element'')
      else if prev = Some e then Some (ErrNonCanonical ''duplicate set element'')
      else set_structure (Some e) es)"

fun check_sorted :: "(string \<Rightarrow> cap_error option) \<Rightarrow> (string \<times> string) list \<Rightarrow> cap_error option" where
  "check_sorted check [] = None"
| "check_sorted check ((e, s) # es) =
     (case check e of
        Some err \<Rightarrow> Some err
      | None \<Rightarrow>
          if e \<noteq> s then Some (ErrNonCanonical ''set elements must be in canonical sorted order'')
          else check_sorted check es)"

definition validateSortedSet :: "string \<Rightarrow> (string \<Rightarrow> cap_error option) \<Rightarrow> cap_error option" where
  "validateSortedSet val check =
     (let elems = Split (CHR '','') val in
      case set_structure None elems of
        Some err \<Rightarrow> Some err
      | None \<Rightarrow> check_sorted check (zip elems (sort elems)))"

definition ParseUint32 :: "string \<Rightarrow> nat option" where
  "ParseUint32 s =
     (if s \<noteq> [] \<and> list_all is_digit s \<and> digits_value 0 s \<le> 4294967295 then Some (digits_value 0 s) else None)"

definition builtinRoutingTables :: "nat list" where
  "builtinRoutingTables = [253, 254, 255]"

definition validateTableNumber :: "string \<Rightarrow> cap_error option" where
  "validateTableNumber val =
     (case ParseUint32 val of
        None \<Rightarrow> Some (ErrText ''table number must be a decimal uint32'')
      | Some v \<Rightarrow>
          if Itoa v \<noteq> val then Some (ErrNonCanonical ''table number is not in canonical decimal form'')
          else if v < 1 then Some (ErrText ''table number 0 is reserved (unspecified)'')
          else if v \<in> set builtinRoutingTables then Some (ErrText ''table number is kernel-reserved'')
          else None)"

definition checkSelectorPrefix :: "Prefix \<Rightarrow> cap_error option" where
  "checkSelectorPrefix p =
     (case p of
        Prefix4 a n \<Rightarrow>
          if Masked4 a n \<noteq> a then Some (ErrText ''selector has host bits set; use the canonical form'')
          else if n = 0 then Some (ErrText ''0.0.0.0/0 is not a valid MUVG source selector'')
          else if IsUnspecified a then Some (ErrText ''the unspecified address is not a valid MUVG source selector'')
          else if IsLoopback a then Some (ErrText ''loopback ranges are not a valid MUVG source selector'')
          else if IsMulticast a then Some (ErrText ''multicast ranges are not a valid MUVG source selector'')
          else if IsLinkLocalUnicast a \<or> IsLinkLocalMulticast a
          then Some (ErrText ''link-local ranges are not a valid MUVG source selector'')
          else None
      | _ \<Rightarrow> Some (ErrText ''IPv6 is outside MUVG v1 scope''))"

text \<open>Text with a colon is IPv6 or malformed; both are refused with the same error.\<close>

definition validateSelector :: "string \<Rightarrow> cap_error option" where
  "validateSelector val =
     (if CHR '':'' \<in> set val then Some (ErrText ''IPv6 is outside MUVG v1 scope'')
      else case ParsePrefix4 val of
        None \<Rightarrow> Some (ErrText ''selector is not a valid CIDR'')
      | Some (a, n) \<Rightarrow> checkSelectorPrefix (Prefix4 a n))"

fun validateValue :: "paramKind \<Rightarrow> string \<Rightarrow> cap_error option" where
  "validateValue paramKeySet val = validateSortedSet val CheckSysctlKey"
| "validateValue paramChainSet val = validateSortedSet val validateChainName"
| "validateValue paramIfaceSet val = validateSortedSet val ValidInterfaceName"
| "validateValue paramTable val = validateTableNumber val"
| "validateValue paramSelector val = validateSelector val"
| "validateValue paramTag val = validateTag val"
| "validateValue paramUnit val = cap_ValidUnitName val"

subsection \<open>Capability strings (capability.go)\<close>

type_synonym CapabilityID = string
type_synonym paramSpec = "string \<times> paramKind"

definition vocabulary :: "(string \<times> paramSpec list) list" where
  "vocabulary =
     [(''muvg.projectfile.v1'', []),
      (''muvg.sysctl.apply.v1'', [(''keys'', paramKeySet)]),
      (''muvg.routing.reserve.v1'', [(''selector'', paramSelector), (''table'', paramTable)]),
      (''muvg.firewall.tagged.v1'', [(''chains'', paramChainSet), (''tag'', paramTag)]),
      (''muvg.firewall.mssclamp.v1'', [(''ifaces'', paramIfaceSet)]),
      (''muvg.service.restart.v1'', [(''unit'', paramUnit)])]"

fun cut_eq :: "string \<Rightarrow> (string \<times> string) option" where
  "cut_eq [] = None"
| "cut_eq (c # s) =
     (if c = CHR ''='' then Some ([], s)
      else case cut_eq s of None \<Rightarrow> None | Some (k, v) \<Rightarrow> Some (c # k, v))"

fun parse_params ::
  "paramSpec list \<Rightarrow> (string \<times> string) list \<Rightarrow> string list \<Rightarrow> (cap_error, (string \<times> string) list) result" where
  "parse_params spec seen [] = Inr seen"
| "parse_params spec seen (tok # toks) =
     (case cut_eq tok of
        None \<Rightarrow> Inl (ErrNonCanonical ''parameter must be key=value'')
      | Some (key, val) \<Rightarrow>
          if key = '''' then Inl (ErrEmptyParameter ''empty parameter key'')
          else if val = '''' then Inl (ErrEmptyParameter key)
          else if map_of seen key \<noteq> None then Inl (ErrDuplicateParameter key)
          else case map_of spec key of
            None \<Rightarrow> Inl (ErrUnknownParameter key)
          | Some kind \<Rightarrow>
              (case validateValue kind val of
                 Some err \<Rightarrow> Inl (ErrInvalidParameterValue key err)
               | None \<Rightarrow> parse_params spec ((key, val) # seen) toks))"

definition serialize :: "string \<Rightarrow> paramSpec list \<Rightarrow> (string \<times> string) list \<Rightarrow> string" where
  "serialize name spec values =
     JoinWith (CHR '';'')
       (name # map (\<lambda>(k, _). k @ CHR ''='' # (case map_of values k of None \<Rightarrow> '''' | Some v \<Rightarrow> v)) spec)"

definition graphic :: "char \<Rightarrow> bool" where
  "graphic c \<longleftrightarrow> 33 \<le> (of_char c :: nat) \<and> (of_char c :: nat) \<le> 126"

definition ParseCapability :: "string \<Rightarrow> (cap_error, CapabilityID) result" where
  "ParseCapability s =
     (if s = '''' then Inl (ErrNonCanonical ''empty capability'')
      else if \<not> list_all graphic s
      then Inl (ErrNonCanonical ''only printable ASCII without whitespace is allowed'')
      else
        (let parts = Split (CHR '';'') s; name = hd parts in
         if name = '''' then Inl (ErrNonCanonical ''empty capability name'')
         else case map_of vocabulary name of
           None \<Rightarrow> Inl (ErrUnknownCapability name)
         | Some spec \<Rightarrow>
             if length parts = 1 then (if spec \<noteq> [] then Inl (ErrMissingParameter name) else Inr s)
             else case parse_params spec [] (tl parts) of
               Inl err \<Rightarrow> Inl err
             | Inr seen \<Rightarrow>
                 (case find (\<lambda>(k, _). map_of seen k = None) spec of
                    Some (k, _) \<Rightarrow> Inl (ErrMissingParameter k)
                  | None \<Rightarrow>
                      if serialize name spec seen \<noteq> s
                      then Inl (ErrNonCanonical ''input does not match canonical form'')
                      else Inr s)))"

subsection \<open>Capability sets (capability.go)\<close>

text \<open>The canonical members; the code keeps them in an unexported field.\<close>

type_synonym CapabilitySet = "CapabilityID list"

fun new_set_loop :: "CapabilityID list \<Rightarrow> CapabilityID list \<Rightarrow> (cap_error, CapabilityID list) result" where
  "new_set_loop out [] = Inr out"
| "new_set_loop out (i # ids) =
     (if i \<in> set out then Inl (ErrDuplicateCapability i)
      else case ParseCapability i of
        Inl err \<Rightarrow> Inl err
      | Inr c \<Rightarrow> new_set_loop (out @ [c]) ids)"

definition NewCapabilitySet :: "CapabilityID list \<Rightarrow> (cap_error, CapabilitySet) result" where
  "NewCapabilitySet ids =
     (case new_set_loop [] ids of Inl err \<Rightarrow> Inl err | Inr out \<Rightarrow> Inr (sort out))"

definition CapabilitySet_String :: "CapabilitySet \<Rightarrow> string" where
  "CapabilitySet_String S = (if S = [] then '''' else JoinWith (CHR 0x0A) S)"

definition CapabilitySet_Equal :: "CapabilitySet \<Rightarrow> CapabilitySet \<Rightarrow> bool" where
  "CapabilitySet_Equal S T \<longleftrightarrow> length S = length T \<and> list_all2 (=) S T"

definition CapabilitySet_IsZero :: "CapabilitySet \<Rightarrow> bool" where
  "CapabilitySet_IsZero S \<longleftrightarrow> length S = 0"

subsection \<open>Derivation (derivation.go)\<close>

datatype DerivationKind = KindProjectFile | KindSysctlApply | KindRoutingReserve | KindFirewallTagged
  | KindFirewallMSSClamp | KindServiceRestart | KindOther int

fun DerivationKind_valid :: "DerivationKind \<Rightarrow> bool" where
  "DerivationKind_valid (KindOther n) = False"
| "DerivationKind_valid _ = True"

record CapabilitySpec =
  cs_SysctlKeys :: "string list"
  cs_Table :: "32 word"
  cs_Selector :: Prefix
  cs_Chains :: "string list"
  cs_Tag :: string
  cs_Ifaces :: "string list"
  cs_Unit :: string

definition orderedNames :: "CapabilitySpec \<Rightarrow> string list" where
  "orderedNames s =
     (if cs_SysctlKeys s \<noteq> [] then [''sysctlKeys''] else []) @ (if cs_Table s \<noteq> 0 then [''table''] else [])
     @ (if Prefix_IsValid (cs_Selector s) then [''selector''] else []) @ (if cs_Chains s \<noteq> [] then [''chains''] else [])
     @ (if cs_Tag s \<noteq> '''' then [''tag''] else []) @ (if cs_Ifaces s \<noteq> [] then [''ifaces''] else [])
     @ (if cs_Unit s \<noteq> '''' then [''unit''] else [])"

fun applicableFields :: "DerivationKind \<Rightarrow> string list" where
  "applicableFields KindProjectFile = []"
| "applicableFields KindSysctlApply = [''sysctlKeys'']"
| "applicableFields KindRoutingReserve = [''table'', ''selector'']"
| "applicableFields KindFirewallTagged = [''chains'', ''tag'']"
| "applicableFields KindFirewallMSSClamp = [''ifaces'']"
| "applicableFields KindServiceRestart = [''unit'']"
| "applicableFields (KindOther n) = []"

fun drop_repeats :: "string option \<Rightarrow> string list \<Rightarrow> string list" where
  "drop_repeats prev [] = []"
| "drop_repeats prev (e # es) = (if prev = Some e then drop_repeats (Some e) es else e # drop_repeats (Some e) es)"

definition sortedUniqueCopy :: "string list \<Rightarrow> string list" where
  "sortedUniqueCopy xs = drop_repeats None (sort xs)"

fun first_error :: "('a \<Rightarrow> cap_error option) \<Rightarrow> 'a list \<Rightarrow> cap_error option" where
  "first_error check [] = None"
| "first_error check (x # xs) = (case check x of Some err \<Rightarrow> Some err | None \<Rightarrow> first_error check xs)"

definition DeriveProjectFile :: "(cap_error, CapabilityID) result" where
  "DeriveProjectFile = ParseCapability ''muvg.projectfile.v1''"

definition DeriveSysctlApply :: "string list \<Rightarrow> (cap_error, CapabilityID) result" where
  "DeriveSysctlApply keys =
     (if keys = [] then Inl (ErrMissingTypedSpec ''KindSysctlApply requires sysctl keys'')
      else let normalized = sortedUniqueCopy keys in
        case first_error CheckSysctlKey normalized of
          Some err \<Rightarrow> Inl err
        | None \<Rightarrow> ParseCapability (''muvg.sysctl.apply.v1;keys='' @ JoinWith (CHR '','') normalized))"

fun prefix_text :: "Prefix \<Rightarrow> string" where
  "prefix_text (Prefix4 a n) = Prefix4_String a n"
| "prefix_text _ = ''invalid Prefix''"

definition DeriveRoutingReserve :: "32 word \<Rightarrow> Prefix \<Rightarrow> (cap_error, CapabilityID) result" where
  "DeriveRoutingReserve table selector =
     (if table < 1 then Inl (ErrMissingTypedSpec ''KindRoutingReserve requires a routing table number >= 1'')
      else if \<not> Prefix_IsValid selector
      then Inl (ErrMissingTypedSpec ''KindRoutingReserve requires a source selector prefix'')
      else case checkSelectorPrefix selector of
        Some err \<Rightarrow> Inl err
      | None \<Rightarrow> ParseCapability (''muvg.routing.reserve.v1;selector='' @ prefix_text selector
                  @ '';table='' @ Itoa (unat table)))"

definition chain_error :: "string \<Rightarrow> cap_error option" where
  "chain_error chain =
     (case validateChainName chain of
        Some err \<Rightarrow> Some err
      | None \<Rightarrow> if \<not> HasPrefix chain ''vpsgw_'' then Some (ErrText ''chain is outside the compiled project namespace'')
                  else None)"

definition DeriveFirewallTagged :: "string list \<Rightarrow> string \<Rightarrow> (cap_error, CapabilityID) result" where
  "DeriveFirewallTagged chs tag =
     (if chs = [] then Inl (ErrMissingTypedSpec ''KindFirewallTagged requires project chain names'')
      else if tag = '''' then Inl (ErrMissingTypedSpec ''KindFirewallTagged requires a project tag'')
      else let normalized = sortedUniqueCopy chs in
        case first_error chain_error normalized of
          Some err \<Rightarrow> Inl err
        | None \<Rightarrow>
            (case validateTag tag of
               Some err \<Rightarrow> Inl err
             | None \<Rightarrow>
                 if \<not> HasPrefix tag ''muvg'' then Inl (ErrText ''tag is outside the compiled project namespace'')
                 else ParseCapability (''muvg.firewall.tagged.v1;chains='' @ JoinWith (CHR '','') normalized
                        @ '';tag='' @ tag)))"

definition DeriveFirewallMSSClamp :: "string list \<Rightarrow> (cap_error, CapabilityID) result" where
  "DeriveFirewallMSSClamp ifaces =
     (if ifaces = [] then Inl (ErrMissingTypedSpec ''KindFirewallMSSClamp requires interface names'')
      else let normalized = sortedUniqueCopy ifaces in
        case first_error ValidInterfaceName normalized of
          Some err \<Rightarrow> Inl err
        | None \<Rightarrow> ParseCapability (''muvg.firewall.mssclamp.v1;ifaces='' @ JoinWith (CHR '','') normalized))"

definition DeriveServiceRestart :: "string \<Rightarrow> (cap_error, CapabilityID) result" where
  "DeriveServiceRestart unitname =
     (if unitname = '''' then Inl (ErrMissingTypedSpec ''KindServiceRestart requires a unit name'')
      else ParseCapability (''muvg.service.restart.v1;unit='' @ unitname))"

definition DeriveCapability :: "DerivationKind \<Rightarrow> CapabilitySpec \<Rightarrow> (cap_error, CapabilityID) result" where
  "DeriveCapability kind spec =
     (if \<not> DerivationKind_valid kind then Inl ErrUnsupportedDerivationKind
      else case find (\<lambda>f. f \<notin> set (applicableFields kind)) (orderedNames spec) of
        Some f \<Rightarrow> Inl (ErrIrrelevantSpecField f)
      | None \<Rightarrow>
          (case kind of
             KindProjectFile \<Rightarrow> DeriveProjectFile
           | KindSysctlApply \<Rightarrow> DeriveSysctlApply (cs_SysctlKeys spec)
           | KindRoutingReserve \<Rightarrow> DeriveRoutingReserve (cs_Table spec) (cs_Selector spec)
           | KindFirewallTagged \<Rightarrow> DeriveFirewallTagged (cs_Chains spec) (cs_Tag spec)
           | KindFirewallMSSClamp \<Rightarrow> DeriveFirewallMSSClamp (cs_Ifaces spec)
           | KindServiceRestart \<Rightarrow> DeriveServiceRestart (cs_Unit spec)
           | KindOther n \<Rightarrow> Inl ErrUnsupportedDerivationKind))"

definition capabilityName :: "CapabilityID \<Rightarrow> string" where
  "capabilityName i = takeWhile (\<lambda>c. c \<noteq> CHR '';'') i"

fun aggregate_loop ::
  "(string \<times> CapabilityID) list \<Rightarrow> CapabilityID list \<Rightarrow> CapabilityID list \<Rightarrow> (cap_error, CapabilityID list) result" where
  "aggregate_loop byName uniq [] = Inr uniq"
| "aggregate_loop byName uniq (i # ids) =
     (case ParseCapability i of
        Inl err \<Rightarrow> Inl err
      | Inr c \<Rightarrow>
          (case map_of byName (capabilityName c) of
             Some prev \<Rightarrow>
               if prev = c then aggregate_loop byName uniq ids
               else Inl (ErrConflictingRequirements (capabilityName c))
           | None \<Rightarrow> aggregate_loop ((capabilityName c, c) # byName) (uniq @ [c]) ids))"

definition Aggregate :: "CapabilityID list \<Rightarrow> (cap_error, CapabilitySet) result" where
  "Aggregate ids =
     (case aggregate_loop [] [] ids of Inl err \<Rightarrow> Inl err | Inr uniq \<Rightarrow> NewCapabilitySet uniq)"

subsection \<open>Grant verification (verification.go)\<close>

datatype GrantVerificationStatus = GrantSatisfied | GrantMismatch

record GrantVerification =
  gv_Status :: GrantVerificationStatus
  gv_Missing :: "CapabilityID list"
  gv_Unexpected :: "CapabilityID list"

fun setDifference :: "CapabilityID list \<Rightarrow> CapabilityID list \<Rightarrow> CapabilityID list \<times> CapabilityID list" where
  "setDifference (a # as) (b # bs) =
     (if a < b then (let (x, y) = setDifference as (b # bs) in (a # x, y))
      else if b < a then (let (x, y) = setDifference (a # as) bs in (x, b # y))
      else setDifference as bs)"
| "setDifference as bs = (as, bs)"

definition VerifyCapabilityGrant :: "CapabilitySet \<Rightarrow> CapabilitySet \<Rightarrow> GrantVerification" where
  "VerifyCapabilityGrant required granted =
     (let (missing, unexpected) = setDifference required granted in
      \<lparr>gv_Status = (if missing = [] \<and> unexpected = [] then GrantSatisfied else GrantMismatch),
       gv_Missing = missing, gv_Unexpected = unexpected\<rparr>)"

subsection \<open>The capabilities a plan requires (stage4_capabilities.go)\<close>

definition action_capability :: "Action \<Rightarrow> (cap_error, CapabilityID option) result" where
  "action_capability a =
     (case a_Kind a of
        ActionService \<Rightarrow>
          (case service_spec a of
             None \<Rightarrow> Inl (ErrText ''SERVICE action without a typed service spec'')
           | Some s \<Rightarrow>
               if map_of serviceUnitPolicy (svs_Name s) = None
               then Inl (ErrText ''unit is not in the compiled Stage 1 service policy'')
               else if \<not> allowedServiceOperation serviceUnitPolicy (svs_Name s) (svs_Operation s)
               then Inl (ErrText ''operation is not permitted by the compiled Stage 1 service policy'')
               else if svs_RollbackOperation s \<noteq> ''''
                       \<and> \<not> allowedServiceOperation serviceUnitPolicy (svs_Name s) (svs_RollbackOperation s)
               then Inl (ErrText ''rollback operation is not permitted by the compiled Stage 1 service policy'')
               else (case DeriveServiceRestart (svs_Name s) of Inl err \<Rightarrow> Inl err | Inr i \<Rightarrow> Inr (Some i)))
      | ActionValidate \<Rightarrow> Inr None
      | _ \<Rightarrow> Inl (ErrText ''no compiled capability derivation''))"

fun plan_capabilities :: "Action list \<Rightarrow> (cap_error, CapabilityID list) result" where
  "plan_capabilities [] = Inr []"
| "plan_capabilities (a # as) =
     (case action_capability a of
        Inl err \<Rightarrow> Inl err
      | Inr None \<Rightarrow> plan_capabilities as
      | Inr (Some i) \<Rightarrow> (case plan_capabilities as of Inl err \<Rightarrow> Inl err | Inr ids \<Rightarrow> Inr (i # ids)))"

definition RequiredCapabilities :: "Plan \<Rightarrow> (cap_error, CapabilitySet) result" where
  "RequiredCapabilities p =
     (case plan_capabilities (p_Actions p) of Inl err \<Rightarrow> Inl err | Inr ids \<Rightarrow> Aggregate ids)"


subsection \<open>Sorted sets\<close>

lemma drop_repeats_sorted:
  assumes "sorted xs" and "\<forall>p. prev = Some p \<longrightarrow> (\<forall>x \<in> set xs. p \<le> x)"
  shows "sorted_wrt (<) (drop_repeats prev xs)
         \<and> set (drop_repeats prev xs) = set xs - {p. prev = Some p}"
  using assms
proof (induction xs arbitrary: prev)
  case (Cons x xs)
  have ih: "sorted_wrt (<) (drop_repeats (Some x) xs) \<and> set (drop_repeats (Some x) xs) = set xs - {x}"
    using Cons.IH [of "Some x"] Cons.prems(1) by auto
  show ?case
  proof (cases "prev = Some x")
    case True
    with ih show ?thesis by auto
  next
    case False
    have "y \<noteq> p" if "prev = Some p" "y \<in> set xs" for y p
      using Cons.prems that False by (metis dual_order.antisym list.set_intros(1) sorted_simps(2))
    then have "set xs - {p. prev = Some p} = set xs" by blast
    moreover have "\<forall>y \<in> set xs - {x}. x < y" using Cons.prems(1) by (auto simp: le_less)
    ultimately show ?thesis using ih False by auto
  qed
qed simp

lemma sortedUniqueCopy_eq: "sortedUniqueCopy xs = sorted_list_of_set (set xs)"
proof -
  have "sorted_wrt (<) (sortedUniqueCopy xs) \<and> set (sortedUniqueCopy xs) = set xs"
    using drop_repeats_sorted [of "sort xs" None] by (simp add: sortedUniqueCopy_def)
  then show ?thesis by (metis List.finite_set sorted_list_of_set.idem_if_sorted_distinct strict_sorted_iff)
qed

lemma set_structure_None:
  "set_structure prev es = None \<longleftrightarrow>
     '''' \<notin> set es \<and> distinct_adj es \<and> (case prev of None \<Rightarrow> True | Some p \<Rightarrow> es = [] \<or> hd es \<noteq> p)"
proof (induction es arbitrary: prev)
  case (Cons e es)
  then show ?case by (cases es) (auto split: option.splits)
qed (auto split: option.splits)

lemma check_sorted_None:
  "length es = length ss \<Longrightarrow> check_sorted check (zip es ss) = None \<longleftrightarrow> es = ss \<and> (\<forall>e \<in> set es. check e = None)"
  by (induction es ss rule: list_induct2) (auto split: option.splits)

lemma sorted_adj_strict:
  "sorted xs \<Longrightarrow> distinct_adj xs \<Longrightarrow> sorted_wrt (<) xs" for xs :: "'a :: linorder list"
proof (induction xs)
  case (Cons x xs)
  show ?case
  proof (cases xs)
    case (Cons y ys)
    then have "x < y" using Cons.prems by (auto simp: le_less)
    then have "\<forall>z \<in> set xs. x < z" using Cons.prems(1) Cons by auto
    then show ?thesis using Cons.IH Cons.prems Cons by auto
  qed simp
qed simp

lemma strict_distinct_adj: "sorted_wrt (<) xs \<Longrightarrow> distinct_adj xs" for xs :: "'a :: linorder list"
proof (induction xs)
  case (Cons x xs)
  then show ?case by (cases xs) auto
qed simp

lemma validateSortedSet_None:
  "validateSortedSet val check = None \<longleftrightarrow>
     (let es = Split (CHR '','') val in '''' \<notin> set es \<and> sorted_wrt (<) es \<and> (\<forall>e \<in> set es. check e = None))"
proof -
  let ?es = "Split (CHR '','') val"
  have "sorted ?es \<longleftrightarrow> ?es = sort ?es" by (metis sorted_sort sort_key_id_if_sorted sorted_map_same list.map_ident sorted_sort_id)
  then show ?thesis
    using sorted_adj_strict [of ?es] strict_distinct_adj [of ?es] strict_sorted_imp_sorted [of ?es]
      set_structure_None [of None ?es] check_sorted_None [of ?es "sort ?es" check]
    by (cases "set_structure None ?es") (auto simp: validateSortedSet_def Let_def)
qed

subsection \<open>The grant check\<close>

lemma setDifference_filter:
  assumes "sorted_wrt (<) as" and "sorted_wrt (<) bs"
  shows "setDifference as bs = (filter (\<lambda>x. x \<notin> set bs) as, filter (\<lambda>x. x \<notin> set as) bs)"
  using assms
proof (induction as bs rule: setDifference.induct)
  case (1 a as b bs)
  consider "a < b" | "b < a" | "a = b" by (metis linorder_cases)
  then show ?case
  proof cases
    case 1
    then have "a \<notin> set (b # bs)" and "\<forall>x \<in> set (b # bs). x \<noteq> a" using "1.prems"(2) by auto
    with 1 "1.IH"(1) "1.prems" show ?thesis by (auto intro!: filter_cong)
  next
    case 2
    then have "b \<notin> set (a # as)" and "\<forall>x \<in> set (a # as). x \<noteq> b" using "1.prems"(1) by auto
    with 2 "1.IH"(2) "1.prems" show ?thesis by (auto intro!: filter_cong)
  next
    case 3
    then have "b \<notin> set as" "b \<notin> set bs" using "1.prems" by auto
    with 3 "1.IH"(3) "1.prems" show ?thesis by (auto intro!: filter_cong)
  qed
qed auto

lemma ParseCapability_same: "ParseCapability s = Inr c \<Longrightarrow> c = s"
  by (auto simp: ParseCapability_def Let_def split: if_splits option.splits sum.splits)

lemma new_set_loop_Inr:
  "new_set_loop out ids = Inr r \<longleftrightarrow>
     distinct ids \<and> set ids \<inter> set out = {} \<and> (\<forall>i \<in> set ids. ParseCapability i = Inr i) \<and> r = out @ ids"
proof (induction ids arbitrary: out)
  case (Cons i ids)
  then show ?case
    using ParseCapability_same [of i] by (cases "ParseCapability i") auto
qed auto

lemma NewCapabilitySet_Inr:
  "NewCapabilitySet ids = Inr S \<longleftrightarrow> distinct ids \<and> (\<forall>i \<in> set ids. ParseCapability i = Inr i) \<and> S = sort ids"
  by (auto simp: NewCapabilitySet_def new_set_loop_Inr split: sum.splits)
     (metis Int_empty_right append_Nil empty_set new_set_loop_Inr sum.distinct(1) sum.exhaust)

lemma NewCapabilitySet_sorted: "NewCapabilitySet ids = Inr S \<Longrightarrow> sorted_wrt (<) S \<and> set S = set ids"
  by (simp add: NewCapabilitySet_Inr strict_sorted_iff)

text \<open>
  The exact-set grant check. For a required and a granted set built by the constructor, the check
  reports exactly the requirements the grant does not cover and exactly the grants beyond the
  requirements, and it is satisfied iff the two sets have the same members: neither a missing nor an
  extra capability passes, whatever the order they were given in.
\<close>

lemma grant_check_exact:
  assumes "NewCapabilitySet required = Inr R" and "NewCapabilitySet granted = Inr G"
  shows "(gv_Status (VerifyCapabilityGrant R G) = GrantSatisfied \<longleftrightarrow> set required = set granted)
         \<and> set (gv_Missing (VerifyCapabilityGrant R G)) = set required - set granted
         \<and> set (gv_Unexpected (VerifyCapabilityGrant R G)) = set granted - set required
         \<and> sorted_wrt (<) (gv_Missing (VerifyCapabilityGrant R G))
         \<and> sorted_wrt (<) (gv_Unexpected (VerifyCapabilityGrant R G))"
proof -
  note R = NewCapabilitySet_sorted [OF assms(1)] and G = NewCapabilitySet_sorted [OF assms(2)]
  have "setDifference R G = (filter (\<lambda>x. x \<notin> set G) R, filter (\<lambda>x. x \<notin> set R) G)"
    using setDifference_filter R G by blast
  with R G show ?thesis
    by (auto simp: VerifyCapabilityGrant_def filter_empty_conv sorted_wrt_filter)
qed


subsection \<open>The characters of valid values\<close>

definition token_char :: "char \<Rightarrow> bool" where
  "token_char c \<longleftrightarrow> graphic c \<and> c \<noteq> CHR '';'' \<and> c \<noteq> CHR '',''"

lemma token_ranges: "char_between (CHR ''a'') (CHR ''z'') c \<Longrightarrow> token_char c" "is_digit c \<Longrightarrow> token_char c"
  by (auto simp: char_between_def is_digit_def token_char_def graphic_def)

lemma name_char_token: "name_char extra c \<Longrightarrow> list_all token_char extra \<Longrightarrow> token_char c"
  unfolding name_char_def list_all_iff using token_ranges by blast

lemma token_lists: "list_all token_char ''._-''" "list_all token_char ''_-''" "list_all token_char ''-''"
  by (simp_all add: token_char_def graphic_def)

lemma names_token:
  assumes "list_all (name_char extra) s" and "list_all token_char extra"
  shows "list_all token_char s"
  using assms name_char_token by (auto simp: list_all_iff)

lemma ValidInterfaceName_token: "ValidInterfaceName s = None \<Longrightarrow> s \<noteq> '''' \<and> list_all token_char s"
  using names_token [OF _ token_lists(1)] by (auto simp: ValidInterfaceName_def split: if_splits)

lemma validateChainName_token: "validateChainName s = None \<Longrightarrow> s \<noteq> '''' \<and> list_all token_char s"
  using names_token [OF _ token_lists(2)] by (auto simp: validateChainName_def split: if_splits)

lemma validateTag_token: "validateTag s = None \<Longrightarrow> s \<noteq> '''' \<and> list_all token_char s"
  using names_token [OF _ token_lists(3)] by (auto simp: validateTag_def split: if_splits)

definition unit_name_char :: "char \<Rightarrow> bool" where
  "unit_name_char c \<longleftrightarrow> char_between (CHR ''a'') (CHR ''z'') c \<or> char_between (CHR ''A'') (CHR ''Z'') c
     \<or> is_digit c \<or> c \<in> set ''_-.:''"

lemma unit_name_char_token: "unit_name_char c \<Longrightarrow> token_char c"
  by (auto simp: unit_name_char_def char_between_def is_digit_def token_char_def graphic_def)

lemma cap_ValidUnitName_token:
  assumes "cap_ValidUnitName s = None"
  shows "s \<noteq> '''' \<and> list_all token_char s"
proof -
  have "s \<noteq> ''''" using assms by (auto simp: cap_ValidUnitName_def)
  moreover have "list_all unit_name_char s"
    using assms unfolding cap_ValidUnitName_def unit_name_char_def [abs_def]
    by (simp split: if_splits option.splits prod.splits)
  ultimately show ?thesis using unit_name_char_token by (auto simp: list_all_iff)
qed

lemma compiled_keys_token: "list_all (\<lambda>k. k \<noteq> '''' \<and> list_all token_char k) compiledSysctlKeys"
  by (simp add: compiledSysctlKeys_def token_char_def graphic_def)

lemma scoped_token:
  assumes "scopedSysctlIface key pre suf = Some iface" and "list_all token_char iface"
    and "list_all token_char pre" and "list_all token_char suf"
  shows "key \<noteq> '''' \<and> list_all token_char key"
proof -
  from assms(1) have p: "prefix pre key" and i: "iface = TrimSuffix (TrimPrefix key pre) suf" and ne: "iface \<noteq> ''''"
    by (auto simp: scopedSysctlIface_def Let_def split: if_splits)
  from p obtain r where r: "key = pre @ r" by (auto simp: prefix_def)
  with i have i: "iface = TrimSuffix r suf" by simp
  then have "r = iface \<or> r = iface @ suf"
    by (auto simp: TrimSuffix_def suffix_def)
  with r ne assms(2-4) show ?thesis by auto
qed

lemma scoped_error_token: "scoped_key_error iface = None \<Longrightarrow> list_all token_char iface"
  using ValidInterfaceName_token by (auto simp: scoped_key_error_def split: if_splits)

lemma scope_parts:
  "list_all token_char ''net.ipv4.conf.''" "list_all token_char ''.rp_filter''"
  "list_all token_char ''net.ipv6.conf.''" "list_all token_char ''.disable_ipv6''"
  by (simp_all add: token_char_def graphic_def)

lemma CheckSysctlKey_token:
  assumes "CheckSysctlKey key = None"
  shows "key \<noteq> '''' \<and> list_all token_char key"
proof (cases "key \<in> set compiledSysctlKeys")
  case True
  then show ?thesis using compiled_keys_token by (auto simp: list_all_iff)
next
  case False
  with assms consider i where "scopedSysctlIface key ''net.ipv4.conf.'' ''.rp_filter'' = Some i" "scoped_key_error i = None"
    | i where "scopedSysctlIface key ''net.ipv6.conf.'' ''.disable_ipv6'' = Some i" "scoped_key_error i = None"
    by (auto simp: CheckSysctlKey_def split: option.splits)
  then show ?thesis
    by cases (use scoped_token scoped_error_token scope_parts in blast)+
qed

lemma set_JoinWith: "set (JoinWith c ws) \<subseteq> insert c (\<Union>w \<in> set ws. set w)"
  by (induction ws rule: JoinWith.induct) auto

lemma sorted_set_value:
  assumes "validateSortedSet val check = None" and "\<And>e. check e = None \<Longrightarrow> e \<noteq> '''' \<and> list_all token_char e"
  shows "val \<noteq> '''' \<and> list_all graphic val \<and> CHR '';'' \<notin> set val"
proof -
  let ?es = "Split (CHR '','') val"
  have es: "\<forall>e \<in> set ?es. check e = None" using assms(1) by (simp add: validateSortedSet_None Let_def)
  have "val \<noteq> ''''"
  proof
    assume "val = ''''"
    then have "'''' \<in> set ?es" by (simp add: Split_def)
    with es assms(2) show False by blast
  qed
  moreover have "token_char c \<or> c = CHR '',''" if "c \<in> set val" for c
    using set_JoinWith [of "CHR '',''" ?es] es assms(2) that by (fastforce simp: list_all_iff)
  ultimately show ?thesis by (fastforce simp: list_all_iff token_char_def graphic_def)
qed

lemma digits_graphic: "is_digit c \<Longrightarrow> graphic c \<and> c \<noteq> CHR '';''"
  by (auto simp: is_digit_def graphic_def)

lemma validateTableNumber_text: "validateTableNumber val = None \<Longrightarrow> \<exists>v. val = Itoa v"
  by (auto simp: validateTableNumber_def split: option.splits if_splits)

lemma prefix_text_chars: "c \<in> set (Prefix4_String a n) \<Longrightarrow> graphic c \<and> c \<noteq> CHR '';''"
  using Itoa_digits digits_graphic
  by (fastforce simp: Prefix4_String_def Addr_String_def octets_def Let_def graphic_def)

lemma valid_value:
  assumes "validateValue kind val = None"
  shows "val \<noteq> '''' \<and> list_all graphic val \<and> CHR '';'' \<notin> set val"
proof (cases kind)
  case paramTable
  then obtain v where "val = Itoa v" using assms validateTableNumber_text by auto
  then show ?thesis using Itoa_digits [of v] digits_graphic by (auto simp: list_all_iff)
next
  case paramSelector
  then obtain a n where "ParsePrefix4 val = Some (a, n)"
    using assms by (auto simp: validateSelector_def split: if_splits option.splits)
  then have "val = Prefix4_String a n" using ParsePrefix4_Some by blast
  moreover from this have "val \<noteq> ''''" by (simp add: Prefix4_String_def)
  ultimately show ?thesis using prefix_text_chars by (auto simp: list_all_iff)
next
  case paramKeySet
  with assms show ?thesis using sorted_set_value CheckSysctlKey_token by simp
next
  case paramChainSet
  with assms show ?thesis using sorted_set_value validateChainName_token by simp
next
  case paramIfaceSet
  with assms show ?thesis using sorted_set_value ValidInterfaceName_token by simp
next
  case paramTag
  with assms have "val \<noteq> '''' \<and> list_all token_char val" using validateTag_token by simp
  then show ?thesis by (auto simp: list_all_iff token_char_def)
next
  case paramUnit
  with assms have "val \<noteq> '''' \<and> list_all token_char val" using cap_ValidUnitName_token by simp
  then show ?thesis by (auto simp: list_all_iff token_char_def)
qed


subsection \<open>Canonical capability strings\<close>

definition cap_text :: "string \<Rightarrow> paramSpec list \<Rightarrow> string list \<Rightarrow> string" where
  "cap_text name spec vals = JoinWith (CHR '';'') (name # map2 (\<lambda>(k, _) v. k @ CHR ''='' # v) spec vals)"

lemma cut_eq_key: "CHR ''='' \<notin> set k \<Longrightarrow> cut_eq (k @ CHR ''='' # v) = Some (k, v)"
  by (induction k) auto

lemma vocabulary_keys:
  assumes "map_of vocabulary name = Some spec"
  shows "distinct (map fst spec)"
    and "\<forall>k \<in> fst ` set spec. k \<noteq> '''' \<and> list_all graphic k \<and> CHR ''='' \<notin> set k \<and> CHR '';'' \<notin> set k"
    and "name \<noteq> '''' \<and> list_all graphic name \<and> CHR '';'' \<notin> set name"
  using assms by (auto simp: vocabulary_def graphic_def split: if_splits)

lemma parse_params_Inr:
  assumes "parse_params spec seen toks = Inr r"
  shows "(\<forall>k. map_of seen k \<noteq> None \<longrightarrow> map_of r k = map_of seen k)
         \<and> (\<forall>k v. map_of r k = Some v \<longrightarrow> map_of seen k = Some v
              \<or> (\<exists>kind. map_of spec k = Some kind \<and> validateValue kind v = None))"
  using assms
proof (induction spec seen toks rule: parse_params.induct)
  case (2 spec seen tok toks)
  then obtain key val kind where t: "cut_eq tok = Some (key, val)" "map_of seen key = None" "map_of spec key = Some kind"
    "validateValue kind val = None" "parse_params spec ((key, val) # seen) toks = Inr r"
    and ne: "key \<noteq> ''''" "val \<noteq> ''''"
    by (auto split: option.splits if_splits)
  from "2.IH" [OF t(1) refl ne(1,2) _ t(3,4,5)] t(2) have
    "\<forall>k. map_of ((key, val) # seen) k \<noteq> None \<longrightarrow> map_of r k = map_of ((key, val) # seen) k"
    "\<forall>k v. map_of r k = Some v \<longrightarrow> map_of ((key, val) # seen) k = Some v
              \<or> (\<exists>kind. map_of spec k = Some kind \<and> validateValue kind v = None)" by auto
  then show ?case using t(2-4) by (metis map_of_Cons_code(2) option.inject)
qed auto

lemma parse_params_complete:
  assumes "list_all2 (\<lambda>(k, kind) v. validateValue kind v = None) spec' vals"
    and "\<forall>(k, kind) \<in> set spec'. map_of spec k = Some kind \<and> k \<noteq> '''' \<and> CHR ''='' \<notin> set k \<and> map_of seen k = None"
    and "distinct (map fst spec')"
  shows "parse_params spec seen (map2 (\<lambda>(k, _) v. k @ CHR ''='' # v) spec' vals)
         = Inr (rev (zip (map fst spec') vals) @ seen)"
  using assms
proof (induction spec' vals arbitrary: seen rule: list_all2_induct)
  case (Cons p ps v vs)
  obtain k kind where p: "p = (k, kind)" by fastforce
  have v: "validateValue kind v = None" "v \<noteq> ''''" using Cons.hyps(1) valid_value [of kind v] by (simp_all add: p)
  have k: "map_of spec k = Some kind" "k \<noteq> ''''" "CHR ''='' \<notin> set k" "map_of seen k = None"
    using Cons.prems(1) by (simp_all add: p)
  have "parse_params spec ((k, v) # seen) (map2 (\<lambda>(k, _) v. k @ CHR ''='' # v) ps vs)
      = Inr (rev (zip (map fst ps) vs) @ (k, v) # seen)"
    by (rule Cons.IH) (use Cons.prems in \<open>force simp: p\<close>)+
  with v k show ?case by (simp add: p cut_eq_key)
qed simp

lemma map_of_zip_rev:
  assumes "distinct ks" and "length ks = length vs"
  shows "map_of (rev (zip ks vs)) = map_of (zip ks vs)"
  using assms by (subst map_of_inject_set) (simp_all add: rev_map [symmetric])


lemma JoinWith_head: "w \<noteq> [] \<Longrightarrow> JoinWith c (w # ws) \<noteq> []"
  by (cases ws) auto

lemma serialize_vals:
  assumes "distinct (map fst spec)" and "length vals = length spec"
    and "map_of seen = map_of (zip (map fst spec) vals)"
  shows "serialize name spec seen = cap_text name spec vals"
proof -
  have "map (\<lambda>(k, _). k @ CHR ''='' # (case map_of seen k of None \<Rightarrow> '''' | Some v \<Rightarrow> v)) spec
      = map2 (\<lambda>(k, _) v. k @ CHR ''='' # v) spec vals"
  proof (rule nth_equalityI)
    fix i assume "i < length (map (\<lambda>(k, _). k @ CHR ''='' # (case map_of seen k of None \<Rightarrow> '''' | Some v \<Rightarrow> v)) spec)"
    then have i: "i < length spec" by simp
    have "map_of (zip (map fst spec) vals) (map fst spec ! i) = Some (vals ! i)"
      using assms(1,2) i by (simp add: map_of_zip_nth del: nth_map)
    then have "map_of seen (fst (spec ! i)) = Some (vals ! i)" using assms(3) i by simp
    then show "map (\<lambda>(k, _). k @ CHR ''='' # (case map_of seen k of None \<Rightarrow> '''' | Some v \<Rightarrow> v)) spec ! i
        = map2 (\<lambda>(k, _) v. k @ CHR ''='' # v) spec vals ! i"
      using i assms(2) by (simp add: case_prod_beta)
  qed (use assms(2) in simp)
  then show ?thesis by (simp add: serialize_def cap_text_def)
qed

lemma split_cap_text:
  assumes "map_of vocabulary name = Some spec" and "list_all2 (\<lambda>(k, kind) v. validateValue kind v = None) spec vals"
  shows "Split (CHR '';'') (cap_text name spec vals) = name # map2 (\<lambda>(k, _) v. k @ CHR ''='' # v) spec vals"
    and "list_all graphic (cap_text name spec vals)"
proof -
  note voc = vocabulary_keys [OF assms(1)]
  have toks: "list_all graphic w \<and> CHR '';'' \<notin> set w"
    if "w \<in> set (name # map2 (\<lambda>(k, _) v. k @ CHR ''='' # v) spec vals)" for w
  proof (cases "w = name")
    case False
    with that obtain k kind v where w: "w = k @ CHR ''='' # v" "((k, kind), v) \<in> set (zip spec vals)" by auto
    from w(2) assms(2) have "validateValue kind v = None" by (auto simp: list_all2_iff)
    moreover have "k \<in> fst ` set spec" using w(2) by (force dest: set_zip_leftD)
    moreover have "graphic (CHR ''='')" by (simp add: graphic_def)
    ultimately show ?thesis using valid_value [of kind v] voc(2) w(1) by auto
  qed (use voc(3) in simp)
  show "Split (CHR '';'') (cap_text name spec vals) = name # map2 (\<lambda>(k, _) v. k @ CHR ''='' # v) spec vals"
    unfolding cap_text_def by (rule Split_JoinWith) (use toks in auto)
  have "graphic (CHR '';'')" by (simp add: graphic_def)
  with toks show "list_all graphic (cap_text name spec vals)"
    using set_JoinWith [of "CHR '';''" "name # map2 (\<lambda>(k, _) v. k @ CHR ''='' # v) spec vals"]
    unfolding cap_text_def list_all_iff by blast
qed

lemma parse_cap_text:
  assumes "map_of vocabulary name = Some spec" and "list_all2 (\<lambda>(k, kind) v. validateValue kind v = None) spec vals"
  shows "ParseCapability (cap_text name spec vals) = Inr (cap_text name spec vals)"
proof -
  note voc = vocabulary_keys [OF assms(1)] and sp = split_cap_text [OF assms]
  have len: "length vals = length spec" using assms(2) by (simp add: list_all2_lengthD)
  let ?seen = "rev (zip (map fst spec) vals)"
  have pp: "parse_params spec [] (map2 (\<lambda>(k, _) v. k @ CHR ''='' # v) spec vals) = Inr ?seen"
    using parse_params_complete [of spec vals spec "[]"] assms(2) voc(1,2) by (fastforce simp: map_of_eq_Some_iff)
  have seen: "map_of ?seen = map_of (zip (map fst spec) vals)"
    by (rule map_of_zip_rev) (simp_all add: voc(1) len)
  have all: "find (\<lambda>(k, _). map_of ?seen k = None) spec = None"
    unfolding find_None_iff seen using len by (force simp: map_of_zip_is_None)
  have ne: "cap_text name spec vals \<noteq> ''''"
    using voc(3) JoinWith_head [of name] by (simp add: cap_text_def)
  show ?thesis
    unfolding ParseCapability_def sp(1) Let_def
    using sp(2) ne voc(3) assms(1) pp all serialize_vals [OF voc(1) len seen]
    by (cases spec) (auto simp: cap_text_def)
qed

lemma parse_capability_iff:
  "ParseCapability s = Inr c \<longleftrightarrow>
     c = s \<and> (\<exists>name spec vals. map_of vocabulary name = Some spec
       \<and> list_all2 (\<lambda>(k, kind) v. validateValue kind v = None) spec vals \<and> s = cap_text name spec vals)"
proof
  assume p: "ParseCapability s = Inr c"
  then have c: "c = s" by (rule ParseCapability_same)
  obtain name rest where sp: "Split (CHR '';'') s = name # rest" by (meson Split_nonempty neq_Nil_conv)
  from p sp obtain spec where voc: "map_of vocabulary name = Some spec"
    by (auto simp: ParseCapability_def Let_def split: if_splits option.splits)
  show "c = s \<and> (\<exists>name spec vals. map_of vocabulary name = Some spec
       \<and> list_all2 (\<lambda>(k, kind) v. validateValue kind v = None) spec vals \<and> s = cap_text name spec vals)"
  proof (cases "rest = []")
    case True
    then have "s = name" using JoinWith_Split [of "CHR '';''" s] sp by simp
    moreover have "spec = []" using p sp voc True
      by (auto simp: ParseCapability_def Let_def split: if_splits)
    ultimately have "s = cap_text name spec []" by (simp add: cap_text_def)
    with c voc \<open>spec = []\<close> show ?thesis by blast
  next
    case False
    with p sp voc obtain seen where pp: "parse_params spec [] rest = Inr seen"
      and all: "find (\<lambda>(k, _). map_of seen k = None) spec = None" and ser: "serialize name spec seen = s"
      by (auto simp: ParseCapability_def Let_def split: if_splits sum.splits option.splits)
    define vals where "vals = map (\<lambda>(k, _). the (map_of seen k)) spec"
    have some: "\<exists>v. map_of seen k = Some v" if "(k, kind) \<in> set spec" for k kind
      using all that by (auto simp: find_None_iff)
    have "validateValue kind (the (map_of seen k)) = None" if kk: "(k, kind) \<in> set spec" for k kind
    proof -
      obtain v where v: "map_of seen k = Some v" using some [OF kk] by blast
      with parse_params_Inr [OF pp] obtain kind' where "map_of spec k = Some kind'" "validateValue kind' v = None"
        by auto
      with kk vocabulary_keys(1) [OF voc] v show ?thesis by simp
    qed
    then have vals: "list_all2 (\<lambda>(k, kind) v. validateValue kind v = None) spec vals"
      unfolding vals_def by (auto simp: list_all2_map2 intro: list.rel_refl_strong)
    have "map (\<lambda>(k, _). k @ CHR ''='' # (case map_of seen k of None \<Rightarrow> '''' | Some v \<Rightarrow> v)) spec
        = map2 (\<lambda>(k, _) v. k @ CHR ''='' # v) spec vals"
      unfolding vals_def using some by (induction spec) fastforce+
    then have "s = cap_text name spec vals" using ser by (simp add: serialize_def cap_text_def)
    with c voc vals show ?thesis by blast
  qed
qed (use parse_cap_text in blast)


text \<open>
  The grammar of capabilities. A string is accepted iff it is a name of the closed vocabulary
  followed by exactly its parameters in schema order, each with a value its kind accepts; accepted
  strings are returned unchanged. So there is one spelling per capability, and neither unknown,
  duplicated, missing nor reordered parameters are ever accepted.
\<close>

lemma capability_grammar:
  "ParseCapability s = Inr c \<longleftrightarrow>
     c = s \<and> (\<exists>name spec vals. map_of vocabulary name = Some spec
       \<and> list_all2 (\<lambda>(k, kind) v. validateValue kind v = None) spec vals \<and> s = cap_text name spec vals)"
  by (rule parse_capability_iff)

lemma parse_named:
  assumes "map_of vocabulary name = Some spec" and "length vals = length spec"
    and "s = cap_text name spec vals" and "\<forall>v \<in> set vals. CHR '';'' \<notin> set v"
  shows "ParseCapability s = Inr c \<longleftrightarrow> c = s \<and> list_all2 (\<lambda>(k, kind) v. validateValue kind v = None) spec vals"
proof
  assume p: "ParseCapability s = Inr c"
  then obtain name' spec' vals' where 1: "map_of vocabulary name' = Some spec'"
    "list_all2 (\<lambda>(k, kind) v. validateValue kind v = None) spec' vals'" "s = cap_text name' spec' vals'"
    using parse_capability_iff by blast
  note sp = split_cap_text(1) [OF 1(1,2)]
  have "Split (CHR '';'') (cap_text name spec vals) = name # map2 (\<lambda>(k, _) v. k @ CHR ''='' # v) spec vals"
    unfolding cap_text_def
    by (rule Split_JoinWith) (use assms(4) vocabulary_keys [OF assms(1)] in \<open>fastforce dest: set_zip_leftD set_zip_rightD\<close>)+
  with sp 1(3) assms(3) have n: "name' = name"
    and m: "map2 (\<lambda>(k, _) v. k @ CHR ''='' # v) spec' vals' = map2 (\<lambda>(k, _) v. k @ CHR ''='' # v) spec vals" by auto
  have spec: "spec' = spec" using n 1(1) assms(1) by simp
  have "vals' = vals"
  proof (rule nth_equalityI)
    show l: "length vals' = length vals" using 1(2) spec assms(2) by (auto dest: list_all2_lengthD)
    fix i assume "i < length vals'"
    then have i: "i < length spec" "i < length vals" "i < length vals'" using l assms(2) by auto
    then show "vals' ! i = vals ! i"
      using arg_cong [OF m, of "\<lambda>xs. xs ! i"] spec by (simp add: case_prod_beta)
  qed
  with 1(2) spec ParseCapability_same [OF p]
  show "c = s \<and> list_all2 (\<lambda>(k, kind) v. validateValue kind v = None) spec vals" by simp
qed (use parse_cap_text [OF assms(1)] assms(3) in auto)


subsection \<open>Derived capabilities\<close>

lemma voc_routing: "map_of vocabulary ''muvg.routing.reserve.v1'' = Some [(''selector'', paramSelector), (''table'', paramTable)]"
  and voc_service: "map_of vocabulary ''muvg.service.restart.v1'' = Some [(''unit'', paramUnit)]"
  by (simp_all add: vocabulary_def)

lemma selector_text_valid:
  "n \<le> 32 \<Longrightarrow> validateSelector (Prefix4_String a n) = checkSelectorPrefix (Prefix4 a n)"
proof -
  assume n: "n \<le> 32"
  have "CHR '':'' \<notin> set (Prefix4_String a n)"
    using Itoa_no dot_slash_not_digit(3) by (auto simp: Prefix4_String_def Addr_String_def octets_def Let_def)
  with n show ?thesis by (simp add: validateSelector_def ParsePrefix4_String)
qed

lemma table_text_valid: "n \<le> 4294967295 \<Longrightarrow> validateTableNumber (Itoa n) = None \<longleftrightarrow> n \<noteq> 0 \<and> n \<notin> {253, 254, 255}"
proof -
  assume "n \<le> 4294967295"
  then have "ParseUint32 (Itoa n) = Some n"
    using Itoa_digits [of n] by (simp add: ParseUint32_def digits_value_Itoa list_all_iff)
  then show ?thesis by (auto simp: validateTableNumber_def builtinRoutingTables_def)
qed

lemma routing_text:
  "''muvg.routing.reserve.v1;selector='' @ Prefix4_String a n @ '';table='' @ Itoa t
   = cap_text ''muvg.routing.reserve.v1'' [(''selector'', paramSelector), (''table'', paramTable)] [Prefix4_String a n, Itoa t]"
  by (simp add: cap_text_def)

lemma DeriveRoutingReserve_Inr:
  "DeriveRoutingReserve t (Prefix4 a n) = Inr c \<longleftrightarrow>
     t \<noteq> 0 \<and> n \<le> 32 \<and> checkSelectorPrefix (Prefix4 a n) = None \<and> unat t \<notin> {253, 254, 255}
     \<and> c = cap_text ''muvg.routing.reserve.v1'' [(''selector'', paramSelector), (''table'', paramTable)]
             [Prefix4_String a n, Itoa (unat t)]"
proof -
  have "unat t < 2 ^ LENGTH(32)" by (rule unsigned_less)
  then have t: "unat t \<le> 4294967295" by simp
  have "CHR '';'' \<notin> set (Prefix4_String a n)" "CHR '';'' \<notin> set (Itoa (unat t))"
    using prefix_text_chars Itoa_no by (auto simp: is_digit_def)
  then have "ParseCapability (''muvg.routing.reserve.v1;selector='' @ Prefix4_String a n @ '';table='' @ Itoa (unat t)) = Inr c
      \<longleftrightarrow> c = cap_text ''muvg.routing.reserve.v1'' [(''selector'', paramSelector), (''table'', paramTable)]
             [Prefix4_String a n, Itoa (unat t)]
          \<and> validateSelector (Prefix4_String a n) = None \<and> validateTableNumber (Itoa (unat t)) = None"
    unfolding routing_text by (subst parse_named [OF voc_routing _ refl]) auto
  then show ?thesis
    using selector_text_valid [of n a] table_text_valid [OF t] 
    by (auto simp: DeriveRoutingReserve_def word_less_1 unsigned_eq_0_iff split: option.splits)
qed

lemma routing_text_inject:
  assumes "cap_text ''muvg.routing.reserve.v1'' [(''selector'', paramSelector), (''table'', paramTable)] [Prefix4_String a n, Itoa t]
      = cap_text ''muvg.routing.reserve.v1'' [(''selector'', paramSelector), (''table'', paramTable)] [Prefix4_String a' n', Itoa t']"
    and "n \<le> 32" and "n' \<le> 32"
  shows "a = a' \<and> n = n' \<and> t = t'"
proof -
  have no: "CHR '';'' \<notin> set (Prefix4_String b m)" for b m using prefix_text_chars by blast
  from assms(1) have "Prefix4_String a n @ CHR '';'' # ''table='' @ Itoa t = Prefix4_String a' n' @ CHR '';'' # ''table='' @ Itoa t'"
    by (simp add: cap_text_def)
  note e = separated_eq [OF this no no]
  have "t = t'" using conjunct2 [OF e] by simp
  with conjunct1 [OF e] ParsePrefix4_String [OF assms(2), of a] ParsePrefix4_String [OF assms(3), of a'] show ?thesis by (metis option.inject prod.inject)
qed

text \<open>
  C13. Routing capabilities identify the table and the selector. A capability is derived for a table
  and an IPv4 prefix iff the table is neither 0 nor a kernel table and the prefix passes the selector
  policy; and the derived string determines both: equal strings come from the same table and the same
  prefix.
\<close>

theorem routing_capability_identity:
  "((\<exists>c. DeriveRoutingReserve t (Prefix4 a n) = Inr c) \<longleftrightarrow>
      t \<noteq> 0 \<and> n \<le> 32 \<and> checkSelectorPrefix (Prefix4 a n) = None \<and> unat t \<notin> {253, 254, 255})
   \<and> (DeriveRoutingReserve t (Prefix4 a n) = Inr c \<and> DeriveRoutingReserve t' (Prefix4 a' n') = Inr c \<longrightarrow>
        t = t' \<and> a = a' \<and> n = n')"
proof (rule conjI)
  show "(\<exists>c. DeriveRoutingReserve t (Prefix4 a n) = Inr c) \<longleftrightarrow>
      t \<noteq> 0 \<and> n \<le> 32 \<and> checkSelectorPrefix (Prefix4 a n) = None \<and> unat t \<notin> {253, 254, 255}"
    by (simp add: DeriveRoutingReserve_Inr)
  show "DeriveRoutingReserve t (Prefix4 a n) = Inr c \<and> DeriveRoutingReserve t' (Prefix4 a' n') = Inr c \<longrightarrow>
        t = t' \<and> a = a' \<and> n = n'"
    using routing_text_inject [of a n "unat t" a' n' "unat t'"] unsigned_word_eqI
    by (auto simp: DeriveRoutingReserve_Inr)
qed

text \<open>
  The sysctl allowlist accepts a key of no interface. The scoped form is tested by prefix and
  suffix separately, which may overlap in one dot: \<open>net.ipv4.conf.rp_filter\<close> is accepted, with
  \<open>rp_filter\<close> taken for the interface, and a capability is derived for it.
\<close>

lemma sysctl_overlap_accepted:
  "CheckSysctlKey ''net.ipv4.conf.rp_filter'' = None
   \<and> ''net.ipv4.conf.rp_filter'' \<notin> set compiledSysctlKeys
   \<and> (\<nexists>iface. iface \<noteq> '''' \<and> ''net.ipv4.conf.rp_filter'' = ''net.ipv4.conf.'' @ iface @ ''.rp_filter'')
   \<and> DeriveSysctlApply [''net.ipv4.conf.rp_filter''] = Inr ''muvg.sysctl.apply.v1;keys=net.ipv4.conf.rp_filter''"
proof (intro conjI)
  show "CheckSysctlKey ''net.ipv4.conf.rp_filter'' = None" "''net.ipv4.conf.rp_filter'' \<notin> set compiledSysctlKeys"
    "DeriveSysctlApply [''net.ipv4.conf.rp_filter''] = Inr ''muvg.sysctl.apply.v1;keys=net.ipv4.conf.rp_filter''"
    by code_simp+
  show "\<nexists>iface. iface \<noteq> '''' \<and> ''net.ipv4.conf.rp_filter'' = ''net.ipv4.conf.'' @ iface @ ''.rp_filter''"
  proof
    assume "\<exists>iface. iface \<noteq> '''' \<and> ''net.ipv4.conf.rp_filter'' = ''net.ipv4.conf.'' @ iface @ ''.rp_filter''"
    then obtain iface where "''net.ipv4.conf.rp_filter'' = ''net.ipv4.conf.'' @ iface @ ''.rp_filter''" by blast
    from arg_cong [OF this, of length] show False by simp
  qed
qed


subsection \<open>The capabilities of a plan\<close>

definition fail2ban_capability :: CapabilityID where
  "fail2ban_capability = ''muvg.service.restart.v1;unit=fail2ban.service''"

definition fail2ban_restart :: "Action \<Rightarrow> bool" where
  "fail2ban_restart a \<longleftrightarrow> a_Kind a = ActionService
     \<and> (case service_spec a of None \<Rightarrow> False
        | Some s \<Rightarrow> svs_Name s = ''fail2ban.service'' \<and> svs_Operation s = ''restart''
                    \<and> svs_RollbackOperation s \<in> {'''', ''restart''})"

lemma fail2ban_derived: "DeriveServiceRestart ''fail2ban.service'' = Inr fail2ban_capability"
  "ParseCapability fail2ban_capability = Inr fail2ban_capability"
  by code_simp+

lemma compiled_policy:
  "map_of serviceUnitPolicy u = None \<longleftrightarrow> u \<noteq> ''fail2ban.service''"
  "allowedServiceOperation serviceUnitPolicy u op \<longleftrightarrow> u = ''fail2ban.service'' \<and> op = ''restart''"
  by (auto simp: serviceUnitPolicy_def allowedServiceOperation_def)

lemma action_capability_Inr:
  "action_capability a = Inr r \<longleftrightarrow>
     a_Kind a = ActionValidate \<and> r = None \<or> fail2ban_restart a \<and> r = Some fail2ban_capability"
  by (cases "a_Kind a"; cases "service_spec a")
     (auto simp: action_capability_def fail2ban_restart_def compiled_policy fail2ban_derived split: sum.splits)

lemma plan_capabilities_Inr:
  "plan_capabilities as = Inr ids \<longleftrightarrow>
     (\<forall>a \<in> set as. a_Kind a = ActionValidate \<or> fail2ban_restart a)
     \<and> ids = replicate (length (filter fail2ban_restart as)) fail2ban_capability"
proof (induction as arbitrary: ids)
  case (Cons a as)
  consider "a_Kind a = ActionValidate" | "fail2ban_restart a" | "\<not> fail2ban_restart a" "a_Kind a \<noteq> ActionValidate" by blast
  then show ?case
  proof cases
    case 1
    then have "action_capability a = Inr None" "\<not> fail2ban_restart a"
      by (simp_all add: action_capability_Inr fail2ban_restart_def)
    with Cons 1 show ?thesis by simp
  next
    case 2
    then have "action_capability a = Inr (Some fail2ban_capability)" by (simp add: action_capability_Inr)
    with Cons 2 show ?thesis by (cases "plan_capabilities as") auto
  next
    case 3
    then obtain err where "action_capability a = Inl err"
      using action_capability_Inr by (cases "action_capability a") auto
    with 3 show ?thesis by simp
  qed
qed auto

lemma Aggregate_replicate:
  assumes "ParseCapability c = Inr c"
  shows "Aggregate (replicate n c) = Inr (if n = 0 then [] else [c])"
proof -
  have 1: "aggregate_loop ((capabilityName c, c) # m) u (replicate k c) = Inr u" for k m u
    by (induction k) (simp_all add: assms)
  have "aggregate_loop [] [] (replicate n c) = Inr (if n = 0 then [] else [c])"
    by (cases n) (simp_all add: assms 1)
  then show ?thesis by (simp add: Aggregate_def NewCapabilitySet_def assms)
qed

text \<open>
  C12. What a plan can be authorised for. The derivation of required capabilities succeeds iff every
  action only validates or restarts \<open>fail2ban.service\<close> (with no rollback operation or the same
  one), and the derived set is the one restart capability exactly when there is such an action.
\<close>

theorem required_capabilities_exact:
  "RequiredCapabilities p = Inr S \<longleftrightarrow>
     (\<forall>a \<in> set (p_Actions p). a_Kind a = ActionValidate \<or> fail2ban_restart a)
     \<and> S = (if \<exists>a \<in> set (p_Actions p). fail2ban_restart a then [fail2ban_capability] else [])"
proof (cases "\<forall>a \<in> set (p_Actions p). a_Kind a = ActionValidate \<or> fail2ban_restart a")
  case True
  let ?n = "length (filter fail2ban_restart (p_Actions p))"
  have n: "?n = 0 \<longleftrightarrow> \<not> (\<exists>a \<in> set (p_Actions p). fail2ban_restart a)" by (auto simp: filter_empty_conv)
  have "plan_capabilities (p_Actions p) = Inr (replicate ?n fail2ban_capability)"
    using True plan_capabilities_Inr by blast
  then have "RequiredCapabilities p = Inr (if ?n = 0 then [] else [fail2ban_capability])"
    by (simp add: RequiredCapabilities_def Aggregate_replicate [OF fail2ban_derived(2)])
  then show ?thesis unfolding n using True by auto
next
  case False
  then obtain err where "plan_capabilities (p_Actions p) = Inl err"
    using plan_capabilities_Inr by (cases "plan_capabilities (p_Actions p)") blast+
  with False show ?thesis by (simp add: RequiredCapabilities_def)
qed

text \<open>
  The derivation bound is the executor's policy. For an owned service action bound to the
  production service executor, a capability can be derived iff the executor accepts the action's
  specification and its policy permits the operation and the rollback operation: no capability is
  derived for something the executor refuses, and none is missing for what it performs.
\<close>

lemma derivation_bound_is_executor_policy:
  assumes "a_Kind a = ActionService" and "a_Ownership a = Owned" and "se_Actions e = Some acts" and "acts i = Some a"
    and "se_unitPolicy e = None"
  shows "(\<exists>c. action_capability a = Inr (Some c)) \<longleftrightarrow>
           (\<exists>s. se_spec e i (a_Resource a) = Inr s
              \<and> allowedServiceOperation (servicePolicy e) (svs_Name s) (svs_Operation s)
              \<and> (svs_RollbackOperation s = '''' \<or> allowedServiceOperation (servicePolicy e) (svs_Name s) (svs_RollbackOperation s)))"
proof -
  have v: "validateUnitName ''fail2ban.service'' = Inr ()" by code_simp
  have p: "servicePolicy e = serviceUnitPolicy" using assms(5) by (simp add: servicePolicy_def)
  show ?thesis
  proof (cases "service_spec a")
    case (Some s)
    have "se_spec e i (a_Resource a) = Inr s' \<longleftrightarrow> s' = s \<and> svs_Name s = ''fail2ban.service''" for s'
    proof (cases "svs_Name s = ''fail2ban.service''")
      case True
      then have "map_of (servicePolicy e) (svs_Name s) \<noteq> None" by (simp add: p compiled_policy)
      with assms(2-4) Some v True show ?thesis by (auto simp: se_spec_def)
    next
      case False
      then have "map_of (servicePolicy e) (svs_Name s) = None" by (simp add: p compiled_policy)
      with assms(2-4) Some False show ?thesis by (simp add: se_spec_def split: sum.split)
    qed
    then show ?thesis
      using assms(1) Some unfolding action_capability_Inr fail2ban_restart_def p compiled_policy by simp blast
  qed (use assms in \<open>simp add: action_capability_Inr fail2ban_restart_def se_spec_def\<close>)
qed

subsection \<open>Samples\<close>

lemma grant_check_exact_witness:
  "gv_Status (VerifyCapabilityGrant [fail2ban_capability] [''muvg.projectfile.v1'', fail2ban_capability]) = GrantMismatch
   \<and> set (gv_Unexpected (VerifyCapabilityGrant [fail2ban_capability] [''muvg.projectfile.v1'', fail2ban_capability]))
       = {''muvg.projectfile.v1''}"
proof -
  have a: "NewCapabilitySet [fail2ban_capability] = Inr [fail2ban_capability]" by code_simp
  have b: "NewCapabilitySet [fail2ban_capability, ''muvg.projectfile.v1''] = Inr [''muvg.projectfile.v1'', fail2ban_capability]"
    by code_simp
  have ne: "fail2ban_capability \<noteq> ''muvg.projectfile.v1''" by (simp add: fail2ban_capability_def)
  have "gv_Status (VerifyCapabilityGrant [fail2ban_capability] [''muvg.projectfile.v1'', fail2ban_capability]) \<noteq> GrantSatisfied"
    using grant_check_exact [OF a b] ne by auto
  then show ?thesis
    using grant_check_exact [OF a b] ne
    by (cases "gv_Status (VerifyCapabilityGrant [fail2ban_capability] [''muvg.projectfile.v1'', fail2ban_capability])") auto
qed

theorem routing_capability_identity_witness:
  "\<exists>c. DeriveRoutingReserve 100 (Prefix4 (addr_of 10 8 0 0) 24) = Inr c
     \<and> (\<forall>t. DeriveRoutingReserve t (Prefix4 (addr_of 10 8 0 0) 24) = Inr c \<longrightarrow> t = 100)"
proof -
  have "checkSelectorPrefix (Prefix4 (addr_of 10 8 0 0) 24) = None"
    by (simp add: checkSelectorPrefix_def Masked4_def mask4_def in_prefix_def addr_of_def IsUnspecified_def IsLoopback_def
        IsMulticast_def IsLinkLocalUnicast_def IsLinkLocalMulticast_def mask_eq_exp_minus_1 push_bit_eq_mult)
  then obtain c where "DeriveRoutingReserve 100 (Prefix4 (addr_of 10 8 0 0) 24) = Inr c"
    using conjunct1 [OF routing_capability_identity [of 100 "addr_of 10 8 0 0" 24]] by auto
  then show ?thesis using routing_capability_identity by blast
qed

theorem required_capabilities_exact_witness:
  "RequiredCapabilities ex_plan = Inr [fail2ban_capability]"
proof -
  have "fail2ban_restart ex_restart" by code_simp
  then show ?thesis
    using required_capabilities_exact [of ex_plan "[fail2ban_capability]"] by (simp add: ex_plan_def)
qed

lemma derivation_bound_is_executor_policy_witness:
  "\<exists>s. se_spec (se_BindActions (\<lambda>_. Some ex_restart) ex_service) ''0'' (a_Resource ex_restart) = Inr s"
proof -
  have "fail2ban_restart ex_restart" "a_Kind ex_restart = ActionService" "a_Ownership ex_restart = Owned" by code_simp+
  then show ?thesis
    using derivation_bound_is_executor_policy [of ex_restart "se_BindActions (\<lambda>_. Some ex_restart) ex_service" "\<lambda>_. Some ex_restart" "''0''"]
    by (auto simp: action_capability_Inr ex_service_def)
qed

end
