(* ===== verification/Journal.thy ===== *)
theory Journal
  imports Corroboration State_Plan
begin

text \<open>
  The durable transaction journal of \<open>internal/journal\<close>: records and their lifecycle
  (\<open>journal.go\<close>), the observed postcondition hash (\<open>observed.go\<close>) and the translation into
  transaction facts (\<open>fact.go\<close>). The journal directory is a list of named entries; an entry decodes to
  a record, does not decode, or is a directory. Records are kept decoded: what is written is what a
  later read decodes. Each file operation first consumes one entry of a fault list, and a durable write
  can fail before the rename (nothing changes) or after it (the record is in place). Transaction
  identifiers are file names, as \<open>NewTransactionID\<close> mints them: no path separator occurs in them. The
  current time is an argument.
\<close>

subsection \<open>Records (journal.go)\<close>

datatype RetryClass = RetrySafe | StagedRecovery | NoAutonomousRetry

fun ClassifyRetry :: "ActionKind \<Rightarrow> (string, RetryClass) result" where
  "ClassifyRetry ActionCreateFile = Inr RetrySafe"
| "ClassifyRetry ActionUpdateFile = Inr RetrySafe"
| "ClassifyRetry ActionDeleteOwnedFile = Inr RetrySafe"
| "ClassifyRetry ActionService = Inr RetrySafe"
| "ClassifyRetry ActionSSH = Inr StagedRecovery"
| "ClassifyRetry ActionReboot = Inr StagedRecovery"
| "ClassifyRetry ActionSSHFinalize = Inr NoAutonomousRetry"
| "ClassifyRetry ActionFirewall = Inr NoAutonomousRetry"
| "ClassifyRetry ActionRouting = Inr NoAutonomousRetry"
| "ClassifyRetry ActionInstaller = Inr NoAutonomousRetry"
| "ClassifyRetry _ = Inl ''action kind has no retry classification''"

record ApprovalEvidence =
  ae_Mode :: string
  ae_Reference :: string

record ActionRecord =
  jar_ID :: string
  jar_Resource :: string
  jar_Kind :: string
  jar_RetryClass :: string
  jar_Status :: string
  jar_Error :: string
  jar_SpecHash :: string
  jar_ObservedSpecHash :: string

record JournalRecord =
  jr_SchemaVersion :: int
  jr_TransactionID :: string
  jr_HostIdentity :: string
  jr_PlanFingerprint :: string
  jr_Approval :: "ApprovalEvidence option"
  jr_Actions :: "ActionRecord list"
  jr_StartedAt :: time
  jr_UpdatedAt :: time
  jr_Stage :: string
  jr_MutationPossible :: bool
  jr_RollbackAttempted :: bool
  jr_RollbackResult :: string
  jr_Outcome :: string
  jr_RecoveryRequired :: bool

definition journal_schema :: int where
  "journal_schema = 3"

definition IsReadableSchemaVersion :: "int \<Rightarrow> bool" where
  "IsReadableSchemaVersion v \<longleftrightarrow> v \<in> {1, 2, 3}"

datatype journal_error =
    ErrStaleObservedEvidence | ErrUpdateWithoutRecord | ErrTransactionExists | ErrAmbiguousActionID
  | ErrObservedEvidenceDirectWrite | ErrImmutableProvenance | JournalCorrupt string | JournalRefused string
  | JournalIO string

subsection \<open>The journal directory\<close>

datatype jentry = JRecord JournalRecord | JCorrupt | JDir

record JStore =
  js_files :: "(string \<times> jentry) list"
  js_dir :: bool
  js_faults :: "string option list"

type_synonym 'a jio = "JStore \<Rightarrow> (journal_error + 'a) \<times> JStore"

definition jret :: "'a \<Rightarrow> 'a jio" where
  "jret a s = (Inr a, s)"

definition jfail :: "journal_error \<Rightarrow> 'a jio" where
  "jfail e s = (Inl e, s)"

definition jbind :: "'a jio \<Rightarrow> ('a \<Rightarrow> 'b jio) \<Rightarrow> 'b jio" where
  "jbind m f s = (case m s of (Inl e, s1) \<Rightarrow> (Inl e, s1) | (Inr a, s1) \<Rightarrow> f a s1)"

definition jcheck :: "journal_error option \<Rightarrow> unit jio" where
  "jcheck e = (case e of None \<Rightarrow> jret () | Some err \<Rightarrow> jfail err)"

definition jfault :: "unit jio" where
  "jfault s =
     (case js_faults s of
        [] \<Rightarrow> (Inr (), s)
      | None # fl \<Rightarrow> (Inr (), s\<lparr>js_faults := fl\<rparr>)
      | Some e # fl \<Rightarrow> (Inl (JournalIO e), s\<lparr>js_faults := fl\<rparr>))"

definition jlookup :: "JStore \<Rightarrow> string \<Rightarrow> jentry option" where
  "jlookup s name = map_of (js_files s) name"

definition file_name :: "string \<Rightarrow> string" where
  "file_name tx = tx @ ''.json''"

definition jensure_dir :: "unit jio" where
  "jensure_dir = jbind jfault (\<lambda>_. \<lambda>s. (Inr (), s\<lparr>js_dir := True\<rparr>))"

definition jput :: "string \<Rightarrow> jentry \<Rightarrow> JStore \<Rightarrow> JStore" where
  "jput name e s = s\<lparr>js_files := (name, e) # filter (\<lambda>(n, _). n \<noteq> name) (js_files s)\<rparr>"

definition jwrite :: "string \<Rightarrow> JournalRecord \<Rightarrow> unit jio" where
  "jwrite name rec = jbind jfault (\<lambda>_. jbind (\<lambda>s. (Inr (), jput name (JRecord rec) s)) (\<lambda>_. jfault))"

text \<open>\<open>os.Stat\<close> on the record's path: whether it exists.\<close>

definition jstat :: "string \<Rightarrow> bool jio" where
  "jstat name = jbind jfault (\<lambda>_. \<lambda>s. (Inr (jlookup s name \<noteq> None), s))"

text \<open>\<open>os.ReadFile\<close> and \<open>json.Unmarshal\<close>; \<open>None\<close> when the file does not exist.\<close>

definition jread :: "string \<Rightarrow> JournalRecord option jio" where
  "jread name = jbind jfault (\<lambda>_. \<lambda>s.
     case jlookup s name of
       None \<Rightarrow> (Inr None, s)
     | Some (JRecord r) \<Rightarrow> (Inr (Some r), s)
     | Some JCorrupt \<Rightarrow> (Inl (JournalCorrupt name), s)
     | Some JDir \<Rightarrow> (Inl (JournalIO ''is a directory''), s))"

subsection \<open>Begin and Update (journal.go)\<close>

definition begun :: "time \<Rightarrow> JournalRecord \<Rightarrow> JournalRecord" where
  "begun now rec =
     rec\<lparr>jr_SchemaVersion := journal_schema,
         jr_StartedAt := (if jr_StartedAt rec = 0 then now else jr_StartedAt rec), jr_UpdatedAt := now\<rparr>"

definition Begin :: "time \<Rightarrow> JournalRecord \<Rightarrow> unit jio" where
  "Begin now rec = jbind jensure_dir (\<lambda>_.
     jbind (jstat (file_name (jr_TransactionID rec))) (\<lambda>exists.
       if exists then jfail ErrTransactionExists
       else if \<exists>a \<in> set (jr_Actions rec). jar_ObservedSpecHash a \<noteq> '''' then jfail ErrObservedEvidenceDirectWrite
       else jwrite (file_name (jr_TransactionID rec)) (begun now rec)))"

fun first_problem :: "('a \<Rightarrow> 'e option) \<Rightarrow> 'a list \<Rightarrow> 'e option" where
  "first_problem check [] = None"
| "first_problem check (x # xs) = (case check x of Some e \<Rightarrow> Some e | None \<Rightarrow> first_problem check xs)"

definition and_then :: "'e option \<Rightarrow> 'e option \<Rightarrow> 'e option" where
  "and_then a b = (case a of Some e \<Rightarrow> Some e | None \<Rightarrow> b)"

definition observed_field_error :: "int \<Rightarrow> ActionRecord \<Rightarrow> journal_error option" where
  "observed_field_error version a =
     (if jar_ObservedSpecHash a = '''' then None
      else if version < 3 then Some (JournalCorrupt ''observed spec hash before schema version 3'')
      else case ParseSpecHashHex (jar_ObservedSpecHash a) of
        Inl _ \<Rightarrow> Some (JournalCorrupt ''observed spec hash'') | Inr _ \<Rightarrow> None)"

definition with_id :: "string \<Rightarrow> ActionRecord list \<Rightarrow> ActionRecord list" where
  "with_id i as = filter (\<lambda>a. jar_ID a = i) as"

text \<open>One round of the loop over the persisted actions that pins their shape.\<close>

definition pinned_error :: "bool \<Rightarrow> ActionRecord list \<Rightarrow> ActionRecord \<Rightarrow> journal_error option" where
  "pinned_error allow incoming ca =
     (case with_id (jar_ID ca) incoming of
        [] \<Rightarrow> Some ErrImmutableProvenance
      | [ia] \<Rightarrow>
          if jar_Resource ia \<noteq> jar_Resource ca \<or> jar_Kind ia \<noteq> jar_Kind ca
             \<or> jar_RetryClass ia \<noteq> jar_RetryClass ca \<or> jar_SpecHash ia \<noteq> jar_SpecHash ca
          then Some ErrImmutableProvenance
          else if jar_ObservedSpecHash ca = '''' \<and> jar_ObservedSpecHash ia \<noteq> '''' \<and> \<not> allow
          then Some ErrObservedEvidenceDirectWrite
          else None
      | _ \<Rightarrow> Some ErrAmbiguousActionID)"

text \<open>The loop that binds observed evidence to its action, with the map of identifiers seen.\<close>

fun evidence_error :: "ActionRecord list \<Rightarrow> string list \<Rightarrow> ActionRecord list \<Rightarrow> journal_error option" where
  "evidence_error incoming seen [] = None"
| "evidence_error incoming seen (ca # cas) =
     (if jar_ObservedSpecHash ca = '''' then evidence_error incoming seen cas
      else if jar_ID ca \<in> set seen then Some (JournalRefused ''ambiguous observed evidence'')
      else case with_id (jar_ID ca) incoming of
        [] \<Rightarrow> Some ErrStaleObservedEvidence
      | [ia] \<Rightarrow>
          if jar_ObservedSpecHash ia \<noteq> jar_ObservedSpecHash ca then Some ErrStaleObservedEvidence
          else if jar_Resource ia \<noteq> jar_Resource ca \<or> jar_Kind ia \<noteq> jar_Kind ca \<or> jar_SpecHash ia \<noteq> jar_SpecHash ca
          then Some ErrStaleObservedEvidence
          else evidence_error incoming (jar_ID ca # seen) cas
      | _ \<Rightarrow> Some ErrAmbiguousActionID)"

text \<open>The gates of \<open>updateRecord\<close> once the current record has been read, in the order of the source.\<close>

definition update_error :: "bool \<Rightarrow> JournalRecord \<Rightarrow> JournalRecord \<Rightarrow> journal_error option" where
  "update_error allow current rec =
     (if \<not> IsReadableSchemaVersion (jr_SchemaVersion current)
      then Some (JournalRefused ''unsupported record version'')
      else if jr_TransactionID current \<noteq> jr_TransactionID rec then Some (JournalRefused ''identity mismatch'')
      else and_then (first_problem (observed_field_error (jr_SchemaVersion current)) (jr_Actions current))
        (if jr_HostIdentity current \<noteq> jr_HostIdentity rec \<or> jr_PlanFingerprint current \<noteq> jr_PlanFingerprint rec
            \<or> jr_SchemaVersion current \<noteq> jr_SchemaVersion rec \<or> jr_StartedAt current \<noteq> jr_StartedAt rec
            \<or> jr_Approval current \<noteq> jr_Approval rec
         then Some ErrImmutableProvenance
         else and_then (first_problem (pinned_error allow (jr_Actions rec)) (jr_Actions current))
           (and_then
              (first_problem (\<lambda>ia. if with_id (jar_ID ia) (jr_Actions current) = [] then Some ErrImmutableProvenance else None)
                 (jr_Actions rec))
              (evidence_error (jr_Actions rec) [] (jr_Actions current)))))"

definition updateRecord :: "time \<Rightarrow> JournalRecord \<Rightarrow> bool \<Rightarrow> unit jio" where
  "updateRecord now rec allow = jbind jensure_dir (\<lambda>_.
     jbind (jread (file_name (jr_TransactionID rec))) (\<lambda>current.
       case current of
         None \<Rightarrow> jfail ErrUpdateWithoutRecord
       | Some cur \<Rightarrow>
           jbind (jcheck (update_error allow cur rec)) (\<lambda>_.
             jwrite (file_name (jr_TransactionID rec)) (rec\<lparr>jr_UpdatedAt := now\<rparr>))))"

definition Update :: "time \<Rightarrow> JournalRecord \<Rightarrow> unit jio" where
  "Update now rec = updateRecord now rec False"

subsection \<open>Loading (journal.go)\<close>

definition record_error :: "string \<Rightarrow> JournalRecord \<Rightarrow> journal_error option" where
  "record_error name rec =
     (if \<not> IsReadableSchemaVersion (jr_SchemaVersion rec) then Some (JournalRefused ''unsupported schema version'')
      else if TrimSpace (jr_TransactionID rec) = '''' then Some (JournalCorrupt ''transaction id is empty'')
      else if TrimSpace (jr_PlanFingerprint rec) = '''' then Some (JournalCorrupt ''plan fingerprint is empty'')
      else if jr_TransactionID rec \<noteq> TrimSuffix name ''.json''
      then Some (JournalCorrupt ''transaction id does not match the file name'')
      else first_problem (observed_field_error (jr_SchemaVersion rec)) (jr_Actions rec))"

text \<open>\<open>filepath.Ext\<close> of a name without separators is \<open>.json\<close> iff the name ends so.\<close>

fun load_entries :: "string list \<Rightarrow> JournalRecord list jio" where
  "load_entries [] = jret []"
| "load_entries (name # names) = (\<lambda>s.
     if jlookup s name = Some JDir \<or> \<not> suffix ''.json'' name then load_entries names s
     else jbind (jread name) (\<lambda>r.
       case r of
         None \<Rightarrow> jfail (JournalIO ''file disappeared'')
       | Some rec \<Rightarrow>
           jbind (jcheck (record_error name rec)) (\<lambda>_.
             jbind (load_entries names) (\<lambda>recs. jret (rec # recs)))) s)"

definition loadAll :: "JournalRecord list jio" where
  "loadAll = jbind jfault (\<lambda>_. \<lambda>s.
     if \<not> js_dir s then (Inr [], s) else load_entries (sort (map fst (js_files s))) s)"

definition BlockingRecords :: "JournalRecord list jio" where
  "BlockingRecords = jbind loadAll (\<lambda>all. jret (filter (\<lambda>r. jr_RecoveryRequired r \<or> jr_Outcome r = '''') all))"

definition persistence_blocker :: "string \<Rightarrow> bool \<Rightarrow> JournalRecord \<Rightarrow> string option" where
  "persistence_blocker currentTx planMutates rec =
     (if jr_TransactionID rec = currentTx then None
      else if jr_RecoveryRequired rec
      then Some (''persistence blocked: transaction '' @ jr_TransactionID rec @ '' requires operator recovery'')
      else if jr_Outcome rec = ''''
      then Some (''persistence blocked: transaction '' @ jr_TransactionID rec @ '' is incomplete (crashed run?); operator review required'')
      else if \<not> planMutates \<and> jr_Outcome rec = ''FAILED'' \<and> jr_MutationPossible rec
      then Some (''persistence blocked: transaction '' @ jr_TransactionID rec @ '' failed after possible mutation; a no-mutation run must not record last-known-good over it'')
      else None)"

definition PersistenceBlockers :: "string \<Rightarrow> bool \<Rightarrow> string list jio" where
  "PersistenceBlockers currentTx planMutates =
     jbind loadAll (\<lambda>all. jret (List.map_filter (persistence_blocker currentTx planMutates) all))"

subsection \<open>The observed postcondition (observed.go)\<close>

text \<open>
  The checks of \<open>RecordObservedSpecHash\<close> on the loaded records: an error, nothing to do (the same
  value is already recorded), or the record to persist.
\<close>

definition observed_target ::
  "string \<Rightarrow> string \<Rightarrow> string \<Rightarrow> SpecHash \<Rightarrow> JournalRecord list \<Rightarrow> (journal_error, JournalRecord option) result" where
  "observed_target txID i resource observed all =
     (case find (\<lambda>r. jr_TransactionID r = txID) all of
        None \<Rightarrow> Inl (JournalRefused ''no record'')
      | Some rec \<Rightarrow>
          if jr_Outcome rec \<noteq> '''' then Inl (JournalRefused ''terminal outcome'')
          else if \<not> jr_MutationPossible rec then Inl (JournalRefused ''non-mutating'')
          else case with_id i (jr_Actions rec) of
            [] \<Rightarrow> Inl (JournalRefused ''no action'')
          | [a] \<Rightarrow>
              (if resource \<noteq> '''' \<and> resource \<noteq> jar_Resource a then Inl (JournalRefused ''resource mismatch'')
               else if jar_ObservedSpecHash a \<noteq> '''' then
                 (case ParseSpecHashHex (jar_ObservedSpecHash a) of
                    Inl _ \<Rightarrow> Inl (JournalCorrupt ''recorded observed spec hash'')
                  | Inr existing \<Rightarrow>
                      if existing = observed then Inr None else Inl (JournalRefused ''write-once''))
               else Inr (Some (rec\<lparr>jr_Actions :=
                 map (\<lambda>x. if jar_ID x = i then x\<lparr>jar_ObservedSpecHash := Hex observed\<rparr> else x) (jr_Actions rec)\<rparr>)))
          | _ \<Rightarrow> Inl (JournalRefused ''ambiguous action''))"

definition RecordObservedSpecHash :: "time \<Rightarrow> string \<Rightarrow> string \<Rightarrow> string \<Rightarrow> SpecHash \<Rightarrow> unit jio" where
  "RecordObservedSpecHash now txID i resource observed =
     (if SpecHash_IsZero observed then jfail (JournalRefused ''zero observed spec hash'')
      else jbind loadAll (\<lambda>all.
        case observed_target txID i resource observed all of
          Inl e \<Rightarrow> jfail e
        | Inr None \<Rightarrow> jret ()
        | Inr (Some rec) \<Rightarrow> updateRecord now rec True))"

subsection \<open>Facts for corroboration (fact.go)\<close>

definition hash_of :: "bool \<Rightarrow> string \<Rightarrow> (journal_error, SpecHash option) result" where
  "hash_of stored s =
     (if \<not> stored \<or> s = '''' then Inr None
      else case ParseSpecHashHex s of Inl _ \<Rightarrow> Inl (JournalCorrupt ''spec hash'') | Inr h \<Rightarrow> Inr (Some h))"

fun fact_actions :: "int \<Rightarrow> ActionRecord list \<Rightarrow> (journal_error, TransactionAction list) result" where
  "fact_actions version [] = Inr []"
| "fact_actions version (a # as) =
     (if jar_Resource a = '''' then Inl (JournalCorrupt ''action without a resource coordinate'')
      else case hash_of (2 \<le> version) (jar_SpecHash a) of
        Inl e \<Rightarrow> Inl e
      | Inr spec \<Rightarrow>
          (case hash_of (3 \<le> version) (jar_ObservedSpecHash a) of
             Inl e \<Rightarrow> Inl e
           | Inr observed \<Rightarrow>
               (case fact_actions version as of
                  Inl e \<Rightarrow> Inl e
                | Inr rest \<Rightarrow>
                    Inr (\<lparr>ta_Resource = jar_Resource a, ta_Status = jar_Status a, ta_SpecHash = spec,
                          ta_ObservedSpecHash = observed\<rparr> # rest))))"

definition CorroborationFact :: "JournalRecord \<Rightarrow> (journal_error, TransactionFact) result" where
  "CorroborationFact r =
     (if \<not> IsReadableSchemaVersion (jr_SchemaVersion r) then Inl (JournalRefused ''unsupported schema version'')
      else if jr_TransactionID r = '''' then Inl (JournalRefused ''no transaction id'')
      else if jr_PlanFingerprint r = '''' then Inl (JournalRefused ''no plan fingerprint'')
      else if jr_HostIdentity r = '''' then Inl (JournalRefused ''no host identity'')
      else case fact_actions (jr_SchemaVersion r) (jr_Actions r) of
        Inl e \<Rightarrow> Inl e
      | Inr actions \<Rightarrow>
          let fact = \<lparr>tf_TxID = jr_TransactionID r, tf_PlanFingerprint = jr_PlanFingerprint r,
                      tf_HostIdentity = jr_HostIdentity r, tf_Outcome = jr_Outcome r,
                      tf_RecoveryRequired = jr_RecoveryRequired r, tf_RollbackAttempted = jr_RollbackAttempted r,
                      tf_RollbackResult = jr_RollbackResult r, tf_Actions = actions\<rparr> in
          (case fact_error fact of Some _ \<Rightarrow> Inl (JournalRefused ''fact contract'') | None \<Rightarrow> Inr fact))"

fun CorroborationFacts :: "JournalRecord list \<Rightarrow> (journal_error, TransactionFact list) result" where
  "CorroborationFacts [] = Inr []"
| "CorroborationFacts (r # rs) =
     (case CorroborationFact r of
        Inl e \<Rightarrow> Inl e
      | Inr f \<Rightarrow> (case CorroborationFacts rs of Inl e \<Rightarrow> Inl e | Inr fs \<Rightarrow> Inr (f # fs)))"


subsection \<open>What one operation does to the directory\<close>

lemma jbind_snd: "snd (jbind m f s) = (case m s of (Inl e, s1) \<Rightarrow> s1 | (Inr a, s1) \<Rightarrow> snd (f a s1))"
  by (simp add: jbind_def split: prod.split sum.split)

definition quiet :: "'a jio \<Rightarrow> bool" where
  "quiet m \<longleftrightarrow> (\<forall>s. jlookup (snd (m s)) = jlookup s)"

named_theorems quiet_intros \<open>computations that write no record\<close>

lemma quiet_basic [quiet_intros]: "quiet (jret a)" "quiet (jfail e)" "quiet (jcheck c)" "quiet jfault"
  "quiet jensure_dir" "quiet (jread n)" "quiet (jstat n)"
  by (auto simp: quiet_def jret_def jfail_def jcheck_def jfault_def jensure_dir_def jread_def jstat_def jbind_snd
      jlookup_def split: option.split prod.split sum.split list.split jentry.split)

lemma quiet_bind [quiet_intros]: "quiet m \<Longrightarrow> (\<And>a. quiet (f a)) \<Longrightarrow> quiet (jbind m f)"
  unfolding quiet_def jbind_snd by (auto split: prod.split sum.split) (metis snd_conv)+

lemma quiet_load_entries [quiet_intros]: "quiet (load_entries names)"
proof (induction names)
  case (Cons n ns)
  have "quiet (jbind (jread n) (\<lambda>r. case r of None \<Rightarrow> jfail (JournalIO ''file disappeared'')
      | Some rec \<Rightarrow> jbind (jcheck (record_error n rec)) (\<lambda>_. jbind (load_entries ns) (\<lambda>recs. jret (rec # recs)))))"
    by (intro quiet_intros) (auto split: option.split intro!: quiet_intros Cons)
  with Cons show ?case by (simp add: quiet_def)
qed (simp add: quiet_intros)

lemma quiet_loadAll [quiet_intros]: "quiet loadAll"
proof -
  have "quiet (\<lambda>s. if \<not> js_dir s then (Inr [], s) else load_entries (sort (map fst (js_files s))) s)"
    using quiet_load_entries by (simp add: quiet_def)
  then show ?thesis unfolding loadAll_def by (intro quiet_intros)
qed

lemma quiet_after:
  assumes "quiet m" and "m s = (r, s1)"
  shows "jlookup s1 = jlookup s"
  using assms unfolding quiet_def by (metis snd_conv)

lemma jlookup_put: "jlookup (jput n e s) = (jlookup s)(n \<mapsto> e)"
proof -
  have "map_of (filter (\<lambda>(k, _). k \<noteq> n) xs) k = (if k = n then None else map_of xs k)" for k and xs :: "(string \<times> jentry) list"
    by (induction xs) auto
  then show ?thesis by (auto simp: jlookup_def jput_def fun_eq_iff)
qed

lemma jwrite_ok:
  assumes "jwrite n rec s = (Inr u, s')"
  shows "jlookup s' = (jlookup s)(n \<mapsto> JRecord rec)"
proof -
  from assms obtain s1 where f: "jfault s = (Inr (), s1)" and g: "jfault (jput n (JRecord rec) s1) = (Inr u, s')"
    by (auto simp: jwrite_def jbind_def split: prod.splits sum.splits)
  have "jlookup s1 = jlookup s" by (rule quiet_after [OF quiet_basic(4) f])
  moreover have "jlookup s' = jlookup (jput n (JRecord rec) s1)" by (rule quiet_after [OF quiet_basic(4) g])
  ultimately show ?thesis by (simp add: jlookup_put)
qed

lemma jwrite_effect:
  "jlookup (snd (jwrite n rec s)) = jlookup s \<or> jlookup (snd (jwrite n rec s)) = (jlookup s)(n \<mapsto> JRecord rec)"
proof -
  obtain r s1 where f: "jfault s = (r, s1)" by fastforce
  have s1: "jlookup s1 = jlookup s" by (rule quiet_after [OF quiet_basic(4) f])
  obtain r2 s2 where f2: "jfault (jput n (JRecord rec) s1) = (r2, s2)" by fastforce
  have "jlookup s2 = (jlookup s)(n \<mapsto> JRecord rec)"
    using quiet_after [OF quiet_basic(4) f2] s1 by (simp add: jlookup_put)
  then show ?thesis using f f2 s1 by (cases r) (simp_all add: jwrite_def jbind_snd)
qed

lemma Begin_effect:
  "jlookup (snd (Begin now rec s)) = jlookup s
   \<or> jlookup s (file_name (jr_TransactionID rec)) = None \<and> (\<forall>a \<in> set (jr_Actions rec). jar_ObservedSpecHash a = '''')
     \<and> jlookup (snd (Begin now rec s)) = (jlookup s)(file_name (jr_TransactionID rec) \<mapsto> JRecord (begun now rec))"
proof -
  obtain r1 s1 where 1: "jensure_dir s = (r1, s1)" by fastforce
  obtain r2 s2 where 2: "jstat (file_name (jr_TransactionID rec)) s1 = (r2, s2)" by fastforce
  have l: "jlookup s1 = jlookup s" "jlookup s2 = jlookup s"
    using quiet_after [OF quiet_basic(5) 1] quiet_after [OF quiet_basic(7) 2] by simp_all
  show ?thesis
  proof (cases "\<exists>u. r1 = Inr u \<and> r2 = Inr False")
    case True
    have "jlookup s (file_name (jr_TransactionID rec)) = None"
    proof -
      obtain r3 s3 where 3: "jfault s1 = (r3, s3)" by fastforce
      have "jlookup s3 = jlookup s" using quiet_after [OF quiet_basic(4) 3] l by simp
      with True 2 3 show ?thesis by (cases r3) (auto simp: jstat_def jbind_def)
    qed
    then show ?thesis
      using True 1 2 l jwrite_effect [of "file_name (jr_TransactionID rec)" "begun now rec" s2]
      by (auto simp: Begin_def jbind_snd jfail_def)
  next
    case False
    then have "snd (Begin now rec s) \<in> {s1, s2}"
      using 1 2 by (auto simp: Begin_def jbind_snd jfail_def split: sum.split)
    with l show ?thesis by auto
  qed
qed

lemma updateRecord_effect:
  "jlookup (snd (updateRecord now rec allow s)) = jlookup s
   \<or> (\<exists>cur. jlookup s (file_name (jr_TransactionID rec)) = Some (JRecord cur) \<and> update_error allow cur rec = None
        \<and> jlookup (snd (updateRecord now rec allow s))
            = (jlookup s)(file_name (jr_TransactionID rec) \<mapsto> JRecord (rec\<lparr>jr_UpdatedAt := now\<rparr>)))"
proof -
  let ?n = "file_name (jr_TransactionID rec)"
  obtain r1 s1 where 1: "jensure_dir s = (r1, s1)" by fastforce
  obtain r2 s2 where 2: "jread ?n s1 = (r2, s2)" by fastforce
  have l: "jlookup s1 = jlookup s" "jlookup s2 = jlookup s"
    using quiet_after [OF quiet_basic(5) 1] quiet_after [OF quiet_basic(6) 2] by simp_all
  show ?thesis
  proof (cases "\<exists>u cur. r1 = Inr u \<and> r2 = Inr (Some cur) \<and> update_error allow cur rec = None")
    case True
    then obtain cur where c: "r2 = Inr (Some cur)" "update_error allow cur rec = None" by blast
    have "jlookup s ?n = Some (JRecord cur)"
    proof -
      obtain r3 s3 where 3: "jfault s1 = (r3, s3)" by fastforce
      have "jlookup s3 = jlookup s" using quiet_after [OF quiet_basic(4) 3] l by simp
      with c 2 3 show ?thesis by (cases r3) (auto simp: jread_def jbind_def split: option.splits jentry.splits)
    qed
    then show ?thesis
      using True c 1 2 l jwrite_effect [of ?n "rec\<lparr>jr_UpdatedAt := now\<rparr>" s2]
      by (auto simp: updateRecord_def jbind_snd jcheck_def jret_def)
  next
    case False
    then have "snd (updateRecord now rec allow s) \<in> {s1, s2}"
      using 1 2 by (auto simp: updateRecord_def jbind_snd jcheck_def jfail_def split: sum.split option.split)
    with l show ?thesis by auto
  qed
qed


subsection \<open>Durable history\<close>

text \<open>What every accepted update keeps of a record.\<close>

definition same_action :: "ActionRecord \<Rightarrow> ActionRecord \<Rightarrow> bool" where
  "same_action a b \<longleftrightarrow> jar_ID b = jar_ID a \<and> jar_Resource b = jar_Resource a \<and> jar_Kind b = jar_Kind a
     \<and> jar_RetryClass b = jar_RetryClass a \<and> jar_SpecHash b = jar_SpecHash a"

definition keeps_history :: "JournalRecord \<Rightarrow> JournalRecord \<Rightarrow> bool" where
  "keeps_history r r' \<longleftrightarrow>
     jr_TransactionID r' = jr_TransactionID r \<and> jr_SchemaVersion r' = jr_SchemaVersion r
     \<and> jr_HostIdentity r' = jr_HostIdentity r \<and> jr_PlanFingerprint r' = jr_PlanFingerprint r
     \<and> jr_Approval r' = jr_Approval r \<and> jr_StartedAt r' = jr_StartedAt r
     \<and> (\<forall>a \<in> set (jr_Actions r). \<exists>b \<in> set (jr_Actions r'). same_action a b
          \<and> (jar_ObservedSpecHash a \<noteq> '''' \<longrightarrow> jar_ObservedSpecHash b = jar_ObservedSpecHash a))
     \<and> (\<forall>b \<in> set (jr_Actions r'). \<exists>a \<in> set (jr_Actions r). jar_ID a = jar_ID b)"

lemma same_action_trans: "same_action a b \<Longrightarrow> same_action b c \<Longrightarrow> same_action a c"
  by (simp add: same_action_def)

lemma keeps_history_refl [simp]: "keeps_history r r"
  by (auto simp: keeps_history_def same_action_def)

lemma keeps_history_trans:
  assumes "keeps_history r1 r2" and "keeps_history r2 r3"
  shows "keeps_history r1 r3"
proof -
  have "\<exists>c \<in> set (jr_Actions r3). same_action a c \<and> (jar_ObservedSpecHash a \<noteq> '''' \<longrightarrow> jar_ObservedSpecHash c = jar_ObservedSpecHash a)"
    if a: "a \<in> set (jr_Actions r1)" for a
  proof -
    from assms(1) a obtain b where b: "b \<in> set (jr_Actions r2)" "same_action a b"
      "jar_ObservedSpecHash a \<noteq> '''' \<longrightarrow> jar_ObservedSpecHash b = jar_ObservedSpecHash a" unfolding keeps_history_def by metis
    from assms(2) b(1) obtain c where c: "c \<in> set (jr_Actions r3)" "same_action b c"
      "jar_ObservedSpecHash b \<noteq> '''' \<longrightarrow> jar_ObservedSpecHash c = jar_ObservedSpecHash b" unfolding keeps_history_def by metis
    show ?thesis using b c same_action_trans by (metis (no_types))
  qed
  moreover have "\<exists>a \<in> set (jr_Actions r1). jar_ID a = jar_ID c" if "c \<in> set (jr_Actions r3)" for c
    using assms that unfolding keeps_history_def by metis
  ultimately show ?thesis using assms unfolding keeps_history_def by simp
qed

lemma first_problem_None: "first_problem check xs = None \<longleftrightarrow> (\<forall>x \<in> set xs. check x = None)"
  by (induction xs) (auto split: option.splits)

lemma and_then_None [simp]: "and_then a b = None \<longleftrightarrow> a = None \<and> b = None"
  by (simp add: and_then_def split: option.split)

lemma pinned_None:
  assumes "pinned_error allow incoming ca = None"
  obtains ia where "with_id (jar_ID ca) incoming = [ia]" "same_action ca ia"
    "jar_ObservedSpecHash ca = '''' \<longrightarrow> jar_ObservedSpecHash ia \<noteq> '''' \<longrightarrow> allow"
proof -
  have e: "filter (\<lambda>a. jar_ID a = i) as = ws \<Longrightarrow> \<forall>w \<in> set ws. jar_ID w = i" for i as ws by auto
  from assms obtain ia where ia: "with_id (jar_ID ca) incoming = [ia]"
    by (auto simp: pinned_error_def split: list.splits)
  with e [of "jar_ID ca" incoming "[ia]"] have "jar_ID ia = jar_ID ca" by (simp add: with_id_def)
  with assms ia that [OF ia] show ?thesis
    by (auto simp: pinned_error_def same_action_def split: if_splits)
qed

lemma evidence_None:
  "evidence_error incoming seen cas = None \<Longrightarrow> ca \<in> set cas \<Longrightarrow> jar_ObservedSpecHash ca \<noteq> '''' \<Longrightarrow>
     with_id (jar_ID ca) incoming = [ia] \<Longrightarrow> jar_ObservedSpecHash ia = jar_ObservedSpecHash ca"
  by (induction cas arbitrary: seen) (auto split: if_splits list.splits)

lemma with_id_mem: "with_id i as = [a] \<Longrightarrow> a \<in> set as \<and> jar_ID a = i"
  unfolding with_id_def by (metis (mono_tags, lifting) list.set_intros(1) mem_Collect_eq set_filter)

lemma update_error_keeps:
  assumes "update_error allow cur rec = None"
  shows "keeps_history cur (rec\<lparr>jr_UpdatedAt := now\<rparr>)"
proof -
  from assms have pin: "\<forall>ca \<in> set (jr_Actions cur). pinned_error allow (jr_Actions rec) ca = None"
    and known: "\<forall>ia \<in> set (jr_Actions rec). with_id (jar_ID ia) (jr_Actions cur) \<noteq> []"
    and ev: "evidence_error (jr_Actions rec) [] (jr_Actions cur) = None"
    and hdr: "jr_TransactionID rec = jr_TransactionID cur" "jr_SchemaVersion rec = jr_SchemaVersion cur"
      "jr_HostIdentity rec = jr_HostIdentity cur" "jr_PlanFingerprint rec = jr_PlanFingerprint cur"
      "jr_Approval rec = jr_Approval cur" "jr_StartedAt rec = jr_StartedAt cur"
    by (auto simp: update_error_def first_problem_None split: if_splits)
  have "\<exists>b \<in> set (jr_Actions rec). same_action a b \<and> (jar_ObservedSpecHash a \<noteq> '''' \<longrightarrow> jar_ObservedSpecHash b = jar_ObservedSpecHash a)"
    if a: "a \<in> set (jr_Actions cur)" for a
  proof -
    from pin a have "pinned_error allow (jr_Actions rec) a = None" by blast
    then obtain ia where ia: "with_id (jar_ID a) (jr_Actions rec) = [ia]" "same_action a ia" by (rule pinned_None)
    with evidence_None [OF ev a _ ia(1)] with_id_mem [OF ia(1)] show ?thesis by blast
  qed
  moreover have "\<exists>a \<in> set (jr_Actions cur). jar_ID a = jar_ID b" if "b \<in> set (jr_Actions rec)" for b
    using known that by (fastforce simp: with_id_def filter_empty_conv)
  ultimately show ?thesis using hdr by (simp add: keeps_history_def)
qed

text \<open>The operations of the journal, in any order, by any callers, under any faults.\<close>

inductive jstep :: "JStore \<Rightarrow> JStore \<Rightarrow> bool" where
  by_Begin: "jstep s (snd (Begin now rec s))"
| by_Update: "jstep s (snd (Update now rec s))"
| by_Record: "jstep s (snd (RecordObservedSpecHash now txID i resource h s))"
| by_Blocking: "jstep s (snd (BlockingRecords s))"
| by_Blockers: "jstep s (snd (PersistenceBlockers txID mutates s))"
| by_outside: "jstep s (s\<lparr>js_faults := fl\<rparr>)"

inductive_cases jstepE: "jstep s s'"

lemma RecordObserved_effect:
  "jlookup (snd (RecordObservedSpecHash now txID i resource h s)) = jlookup s
   \<or> (\<exists>all rec s1. loadAll s = (Inr all, s1) \<and> observed_target txID i resource h all = Inr (Some rec) \<and> jlookup s1 = jlookup s
        \<and> RecordObservedSpecHash now txID i resource h s = updateRecord now rec True s1)"
proof -
  obtain r1 s1 where 1: "loadAll s = (r1, s1)" by fastforce
  have l: "jlookup s1 = jlookup s" by (rule quiet_after [OF quiet_loadAll 1])
  show ?thesis
  proof (cases "\<exists>all rec. r1 = Inr all \<and> observed_target txID i resource h all = Inr (Some rec) \<and> \<not> SpecHash_IsZero h")
    case True
    then obtain all rec where a: "r1 = Inr all" "observed_target txID i resource h all = Inr (Some rec)" "\<not> SpecHash_IsZero h"
      by blast
    then have "RecordObservedSpecHash now txID i resource h s = updateRecord now rec True s1"
      by (simp add: RecordObservedSpecHash_def jbind_def 1)
    with a l 1 show ?thesis by blast
  next
    case False
    then have "snd (RecordObservedSpecHash now txID i resource h s) \<in> {s, s1}"
      using 1 by (auto simp: RecordObservedSpecHash_def jbind_snd jfail_def jret_def split: sum.split option.split)
    with l show ?thesis by auto
  qed
qed

lemma update_keeps:
  assumes "jlookup s n = Some (JRecord r)"
  shows "\<exists>r'. jlookup (snd (updateRecord now rec allow s)) n = Some (JRecord r') \<and> keeps_history r r'"
  using updateRecord_effect [of now rec allow s]
proof
  assume "\<exists>cur. jlookup s (file_name (jr_TransactionID rec)) = Some (JRecord cur) \<and> update_error allow cur rec = None
        \<and> jlookup (snd (updateRecord now rec allow s))
            = (jlookup s)(file_name (jr_TransactionID rec) \<mapsto> JRecord (rec\<lparr>jr_UpdatedAt := now\<rparr>))"
  then obtain cur where c: "jlookup s (file_name (jr_TransactionID rec)) = Some (JRecord cur)" "update_error allow cur rec = None"
    "jlookup (snd (updateRecord now rec allow s)) = (jlookup s)(file_name (jr_TransactionID rec) \<mapsto> JRecord (rec\<lparr>jr_UpdatedAt := now\<rparr>))"
    by blast
  show ?thesis
  proof (cases "n = file_name (jr_TransactionID rec)")
    case True
    with c assms update_error_keeps [OF c(2), of now] show ?thesis by auto
  next
    case False
    with c(3) assms show ?thesis by simp
  qed
qed (use assms in simp)

lemma jstep_keeps:
  assumes "jstep s s'" and "jlookup s n = Some (JRecord r)"
  shows "\<exists>r'. jlookup s' n = Some (JRecord r') \<and> keeps_history r r'"
  using assms(1)
proof (cases rule: jstep.cases)
  case (by_Begin now rec)
  then show ?thesis using Begin_effect [of now rec s] assms(2) by (cases "n = file_name (jr_TransactionID rec)") auto
next
  case (by_Update now rec)
  then show ?thesis using update_keeps [OF assms(2)] by (simp add: Update_def)
next
  case (by_Record now txID i resource h)
  show ?thesis using RecordObserved_effect [of now txID i resource h s]
  proof
    assume "\<exists>all rec s1. loadAll s = (Inr all, s1) \<and> observed_target txID i resource h all = Inr (Some rec) \<and> jlookup s1 = jlookup s
        \<and> RecordObservedSpecHash now txID i resource h s = updateRecord now rec True s1"
    then obtain rec s1 where "jlookup s1 = jlookup s" "s' = snd (updateRecord now rec True s1)" using by_Record by auto
    with update_keeps [of s1 n r now rec True] assms(2) show ?thesis by simp
  qed (use by_Record assms(2) in simp)
next
  case by_Blocking
  have "quiet BlockingRecords" unfolding BlockingRecords_def by (intro quiet_intros)
  then show ?thesis using by_Blocking assms(2) by (simp add: quiet_def)
next
  case (by_Blockers txID mutates)
  have "quiet (PersistenceBlockers txID mutates)" unfolding PersistenceBlockers_def by (intro quiet_intros)
  then show ?thesis using by_Blockers assms(2) by (simp add: quiet_def)
next
  case (by_outside fl)
  then show ?thesis using assms(2) by (simp add: jlookup_def)
qed

text \<open>
  C14. Durable history is never rewritten. Whatever operations of the journal run afterwards, with
  whatever records and whichever operations fail on the way, a durable transaction record stays in
  place: its transaction, schema version, host identity, plan fingerprint, approval evidence and start
  time never change, none of its actions is dropped, added or re-identified, and a recorded observed
  postcondition hash keeps its value.
\<close>

theorem journal_history_preserved:
  assumes "jstep\<^sup>*\<^sup>* s s'" and "jlookup s n = Some (JRecord r)"
  shows "\<exists>r'. jlookup s' n = Some (JRecord r') \<and> keeps_history r r'"
  using assms(1)
proof (induction rule: rtranclp_induct)
  case base
  then show ?case using assms(2) by auto
next
  case (step s1 s2)
  then show ?case using jstep_keeps keeps_history_trans by metis
qed


subsection \<open>Where observed evidence comes from\<close>

definition observed_in :: "JStore \<Rightarrow> string \<Rightarrow> string \<Rightarrow> string \<Rightarrow> bool" where
  "observed_in s n i h \<longleftrightarrow> h \<noteq> '''' \<and> (\<exists>r a. jlookup s n = Some (JRecord r) \<and> a \<in> set (jr_Actions r)
     \<and> jar_ID a = i \<and> jar_ObservedSpecHash a = h)"

lemma update_error_origin:
  assumes "update_error allow cur rec = None" and "b \<in> set (jr_Actions rec)" and "jar_ObservedSpecHash b \<noteq> ''''"
    and "\<not> allow"
  shows "\<exists>a \<in> set (jr_Actions cur). jar_ID a = jar_ID b \<and> jar_ObservedSpecHash a = jar_ObservedSpecHash b"
proof -
  from assms(1) have pin: "\<forall>ca \<in> set (jr_Actions cur). pinned_error allow (jr_Actions rec) ca = None"
    and known: "\<forall>ia \<in> set (jr_Actions rec). with_id (jar_ID ia) (jr_Actions cur) \<noteq> []"
    and ev: "evidence_error (jr_Actions rec) [] (jr_Actions cur) = None"
    by (auto simp: update_error_def first_problem_None split: if_splits)
  from known assms(2) obtain a where a: "a \<in> set (jr_Actions cur)" "jar_ID a = jar_ID b"
    by (fastforce simp: with_id_def filter_empty_conv)
  with pin have "pinned_error allow (jr_Actions rec) a = None" by blast
  then obtain ia where ia: "with_id (jar_ID a) (jr_Actions rec) = [ia]" "same_action a ia"
    "jar_ObservedSpecHash a = '''' \<longrightarrow> jar_ObservedSpecHash ia \<noteq> '''' \<longrightarrow> allow" by (rule pinned_None)
  have "b \<in> set (with_id (jar_ID a) (jr_Actions rec))" using assms(2) a(2) by (simp add: with_id_def)
  then have "b = ia" using ia(1) by simp
  then have "jar_ObservedSpecHash a \<noteq> ''''" using ia(3) assms(3,4) by blast
  with evidence_None [OF ev a(1) _ ia(1)] \<open>b = ia\<close> a show ?thesis by auto
qed

text \<open>A loaded record is the one stored under its transaction's file name.\<close>

lemma record_error_name: "record_error n r = None \<Longrightarrow> suffix ''.json'' n \<Longrightarrow> n = file_name (jr_TransactionID r)"
  by (auto simp: record_error_def file_name_def TrimSuffix_def suffix_def split: if_splits)

lemma jread_found:
  assumes "jread n s = (Inr (Some r), s1)"
  shows "jlookup s n = Some (JRecord r)"
proof -
  obtain r3 s3 where 3: "jfault s = (r3, s3)" by fastforce
  have "jlookup s3 = jlookup s" by (rule quiet_after [OF quiet_basic(4) 3])
  with assms 3 show ?thesis by (cases r3) (auto simp: jread_def jbind_def split: option.splits jentry.splits)
qed

lemma load_entries_stored:
  "fst (load_entries names s) = Inr all \<Longrightarrow> r \<in> set all \<Longrightarrow> jlookup s (file_name (jr_TransactionID r)) = Some (JRecord r)"
proof (induction names arbitrary: s all)
  case (Cons n ns)
  show ?case
  proof (cases "jlookup s n = Some JDir \<or> \<not> suffix ''.json'' n")
    case False
    obtain c s2 where rd: "jread n s = (c, s2)" by fastforce
    obtain rest s3 where ld: "load_entries ns s2 = (rest, s3)" by fastforce
    from Cons.prems(1) False rd ld obtain r0 all0 where
      c: "c = Inr (Some r0)" "record_error n r0 = None" "rest = Inr all0" "all = r0 # all0"
      by (auto simp: jbind_def jcheck_def jret_def jfail_def split: sum.splits option.splits)
    have l: "jlookup s2 = jlookup s" by (rule quiet_after [OF quiet_basic(6) rd])
    show ?thesis
    proof (cases "r = r0")
      case True
      then show ?thesis using jread_found rd c record_error_name False by metis
    next
      case False
      with Cons.prems(2) c have "r \<in> set all0" by simp
      moreover have "fst (load_entries ns s2) = Inr all0" using ld c by simp
      ultimately show ?thesis using Cons.IH [of s2 all0] l by simp
    qed
  qed (use Cons in simp)
qed (simp add: jret_def)

lemma observed_target_change:
  assumes "observed_target txID i resource h all = Inr (Some rec)"
  obtains orig where "orig \<in> set all" "jr_TransactionID orig = txID"
    "rec = orig\<lparr>jr_Actions := map (\<lambda>x. if jar_ID x = i then x\<lparr>jar_ObservedSpecHash := Hex h\<rparr> else x) (jr_Actions orig)\<rparr>"
proof -
  from assms obtain orig where o: "find (\<lambda>r. jr_TransactionID r = txID) all = Some orig"
    by (auto simp: observed_target_def split: option.splits)
  from o have "orig \<in> set all" "jr_TransactionID orig = txID" by (auto simp: find_Some_iff)
  moreover from assms o have "rec = orig\<lparr>jr_Actions := map (\<lambda>x. if jar_ID x = i then x\<lparr>jar_ObservedSpecHash := Hex h\<rparr> else x) (jr_Actions orig)\<rparr>"
    by (auto simp: observed_target_def split: if_splits list.splits sum.splits)
  ultimately show ?thesis by (rule that)
qed

lemma loadAll_stored:
  assumes "loadAll s = (Inr all, s1)" and "r \<in> set all"
  shows "jlookup s (file_name (jr_TransactionID r)) = Some (JRecord r)"
proof -
  obtain r2 s2 where f: "jfault s = (r2, s2)" by fastforce
  have l: "jlookup s2 = jlookup s" by (rule quiet_after [OF quiet_basic(4) f])
  from assms f have "fst (load_entries (sort (map fst (js_files s2))) s2) = Inr all"
    by (cases r2) (auto simp: loadAll_def jbind_def split: if_splits)
  from load_entries_stored [OF this assms(2)] l show ?thesis by simp
qed

lemma updateRecord_origin:
  assumes "observed_in (snd (updateRecord now rec allow s)) n i v" and "\<not> observed_in s n i v"
  shows "allow \<and> n = file_name (jr_TransactionID rec)
    \<and> (\<exists>b \<in> set (jr_Actions rec). jar_ID b = i \<and> jar_ObservedSpecHash b = v)"
proof -
  from assms have "jlookup (snd (updateRecord now rec allow s)) \<noteq> jlookup s" by (auto simp: observed_in_def)
  with updateRecord_effect [of now rec allow s] obtain cur where
    c: "jlookup s (file_name (jr_TransactionID rec)) = Some (JRecord cur)" "update_error allow cur rec = None"
    "jlookup (snd (updateRecord now rec allow s)) = (jlookup s)(file_name (jr_TransactionID rec) \<mapsto> JRecord (rec\<lparr>jr_UpdatedAt := now\<rparr>))"
    by blast
  have n: "n = file_name (jr_TransactionID rec)" using assms c(3) by (auto simp: observed_in_def split: if_splits)
  with assms(1) c(3) obtain b where b: "b \<in> set (jr_Actions rec)" "jar_ID b = i" "jar_ObservedSpecHash b = v" "v \<noteq> ''''"
    by (auto simp: observed_in_def)
  moreover have allow
  proof (rule ccontr)
    assume "\<not> allow"
    with update_error_origin [OF c(2) b(1)] b c(1) n have "observed_in s n i v" by (auto simp: observed_in_def)
    with assms(2) show False by contradiction
  qed
  ultimately show ?thesis using n by blast
qed

text \<open>
  C15. Observed evidence has one source. Whenever a step of the journal makes an observed postcondition
  hash appear on an action that did not carry it before, the step is \<open>RecordObservedSpecHash\<close> for
  the transaction of that file and for that action, and the value is the hexadecimal form of the hash it
  was given: no \<open>Begin\<close> and no \<open>Update\<close> introduces one.
\<close>

theorem observed_evidence_single_source:
  assumes "jstep s s'" and "observed_in s' n i v" and "\<not> observed_in s n i v"
  shows "\<exists>now txID resource h. s' = snd (RecordObservedSpecHash now txID i resource h s)
    \<and> n = file_name txID \<and> v = Hex h \<and> \<not> SpecHash_IsZero h"
  using assms(1)
proof (cases rule: jstep.cases)
  case (by_Begin now rec)
  then show ?thesis using Begin_effect [of now rec s] assms(2,3) by (auto simp: observed_in_def begun_def split: if_splits)
next
  case (by_Update now rec)
  then show ?thesis using updateRecord_origin [of now rec False s n i v] assms(2,3) by (simp add: Update_def)
next
  case (by_Record now txID j resource h)
  then have "jlookup (snd (RecordObservedSpecHash now txID j resource h s)) \<noteq> jlookup s"
    using assms(2,3) by (auto simp: observed_in_def)
  with RecordObserved_effect [of now txID j resource h s] obtain all rec s1 where
    u: "loadAll s = (Inr all, s1)" "observed_target txID j resource h all = Inr (Some rec)" "jlookup s1 = jlookup s"
    "RecordObservedSpecHash now txID j resource h s = updateRecord now rec True s1" by blast
  have nz: "\<not> SpecHash_IsZero h"
    using \<open>jlookup _ \<noteq> jlookup s\<close> by (auto simp: RecordObservedSpecHash_def jfail_def)
  from u(2) obtain orig where o: "orig \<in> set all" "jr_TransactionID orig = txID"
    "rec = orig\<lparr>jr_Actions := map (\<lambda>x. if jar_ID x = j then x\<lparr>jar_ObservedSpecHash := Hex h\<rparr> else x) (jr_Actions orig)\<rparr>"
    by (rule observed_target_change)
  from loadAll_stored [OF u(1) o(1)] o(2) have st: "jlookup s (file_name txID) = Some (JRecord orig)" by simp
  have "observed_in (snd (updateRecord now rec True s1)) n i v" "\<not> observed_in s1 n i v"
    using assms(2,3) by_Record u(3,4) by (simp_all add: observed_in_def)
  from updateRecord_origin [OF this] o obtain b where n: "n = file_name txID"
    and b: "b \<in> set (jr_Actions rec)" "jar_ID b = i" "jar_ObservedSpecHash b = v" by auto
  have "v \<noteq> ''''" using assms(2) by (simp add: observed_in_def)
  then have "\<not> (b \<in> set (jr_Actions orig))" using st n b assms(3) by (auto simp: observed_in_def)
  then have "j = i \<and> v = Hex h" using b o(3) by (auto split: if_splits)
  with by_Record n nz show ?thesis by blast
next
  case by_Blocking
  have "quiet BlockingRecords" unfolding BlockingRecords_def by (intro quiet_intros)
  then show ?thesis using by_Blocking assms(2,3) by (simp add: quiet_def observed_in_def)
next
  case (by_Blockers txID mutates)
  have "quiet (PersistenceBlockers txID mutates)" unfolding PersistenceBlockers_def by (intro quiet_intros)
  then show ?thesis using by_Blockers assms(2,3) by (simp add: quiet_def observed_in_def)
next
  case (by_outside fl)
  then show ?thesis using assms(2,3) by (simp add: jlookup_def observed_in_def)
qed


subsection \<open>From the journal to a corroborated claim\<close>

lemma fact_actions_origin:
  "fact_actions version as = Inr ts \<Longrightarrow> t \<in> set ts \<Longrightarrow>
     \<exists>a \<in> set as. ta_Resource t = jar_Resource a \<and> ta_Status t = jar_Status a
       \<and> hash_of (2 \<le> version) (jar_SpecHash a) = Inr (ta_SpecHash t)
       \<and> hash_of (3 \<le> version) (jar_ObservedSpecHash a) = Inr (ta_ObservedSpecHash t)"
  by (induction as arbitrary: ts) (auto split: if_splits sum.splits)

lemma CorroborationFact_origin:
  assumes "CorroborationFact r = Inr f"
  shows "tf_TxID f = jr_TransactionID r \<and> tf_PlanFingerprint f = jr_PlanFingerprint r
    \<and> tf_HostIdentity f = jr_HostIdentity r \<and> tf_Outcome f = jr_Outcome r
    \<and> tf_RecoveryRequired f = jr_RecoveryRequired r \<and> tf_RollbackAttempted f = jr_RollbackAttempted r
    \<and> tf_RollbackResult f = jr_RollbackResult r
    \<and> fact_actions (jr_SchemaVersion r) (jr_Actions r) = Inr (tf_Actions f)"
  using assms by (auto simp: CorroborationFact_def Let_def split: if_splits sum.splits option.splits)

lemma CorroborationFacts_origin:
  "CorroborationFacts rs = Inr fs \<Longrightarrow> f \<in> set fs \<Longrightarrow> \<exists>r \<in> set rs. CorroborationFact r = Inr f"
  by (induction rs arbitrary: fs) (auto split: sum.splits)

lemma hash_of_Some: "hash_of stored v = Inr (Some h) \<Longrightarrow> stored \<and> ParseSpecHashHex v = Inr h"
  by (auto simp: hash_of_def split: if_splits sum.splits)

text \<open>
  C16. A verified claim rests on a durable record. When the records loaded from the journal are
  translated to transaction facts and a claim corroborates against them as verified, one of the stored
  records is the claimed transaction on this host: it is completed, needs no recovery and was not rolled
  back, its schema version stores spec hashes, and it holds an action for the claimed resource that was
  applied with the claimed spec hash.
\<close>

theorem verified_claim_durable:
  assumes "loadAll s = (Inr recs, s1)" and "CorroborationFacts recs = Inr facts" and "vi_Candidates inp = facts"
    and "Corroborate inp = Inr v" and "vf_Status v = VerificationVerified"
  shows "\<exists>r a. jlookup s (file_name (er_TxID (se_Ref (vi_Claim inp)))) = Some (JRecord r) \<and> a \<in> set (jr_Actions r)
    \<and> jr_TransactionID r = er_TxID (se_Ref (vi_Claim inp))
    \<and> jr_PlanFingerprint r = er_PlanFingerprint (se_Ref (vi_Claim inp))
    \<and> parseCurrentHost (vi_CurrentHost inp) = Inr (jr_HostIdentity r)
    \<and> jr_Outcome r = ''COMPLETED'' \<and> \<not> jr_RecoveryRequired r \<and> \<not> jr_RollbackAttempted r \<and> 2 \<le> jr_SchemaVersion r
    \<and> jar_Resource a = vi_JournalResource inp \<and> jar_Status a = ''APPLIED''
    \<and> ParseSpecHashHex (jar_SpecHash a) = Inr (se_Spec (vi_Claim inp))"
proof -
  from corroborate_verified_core [OF assms(4,5)] obtain c t where
    c: "c \<in> set facts" "t \<in> set (tf_Actions c)" "tf_TxID c = er_TxID (se_Ref (vi_Claim inp))"
    "tf_PlanFingerprint c = er_PlanFingerprint (se_Ref (vi_Claim inp))"
    "parseCurrentHost (vi_CurrentHost inp) = Inr (tf_HostIdentity c)"
    "tf_Outcome c = ''COMPLETED''" "\<not> tf_RecoveryRequired c" "\<not> tf_RollbackAttempted c"
    "ta_Resource t = vi_JournalResource inp" "ta_Status t = ''APPLIED''" "ta_SpecHash t = Some (se_Spec (vi_Claim inp))"
    using assms(3) by blast
  from CorroborationFacts_origin [OF assms(2) c(1)] obtain r where r: "r \<in> set recs" "CorroborationFact r = Inr c" by blast
  note o = CorroborationFact_origin [OF r(2)]
  from o c(2) fact_actions_origin [of "jr_SchemaVersion r" "jr_Actions r" "tf_Actions c" t] obtain a where
    a: "a \<in> set (jr_Actions r)" "jar_Resource a = ta_Resource t" "jar_Status a = ta_Status t"
    "hash_of (2 \<le> jr_SchemaVersion r) (jar_SpecHash a) = Inr (ta_SpecHash t)" by metis
  have h: "2 \<le> jr_SchemaVersion r \<and> ParseSpecHashHex (jar_SpecHash a) = Inr (se_Spec (vi_Claim inp))"
    by (rule hash_of_Some) (use a(4) c(11) in simp)
  have "jlookup s (file_name (jr_TransactionID r)) = Some (JRecord r)" by (rule loadAll_stored [OF assms(1) r(1)])
  with o c a h show ?thesis by (intro exI [of _ r] exI [of _ a]) simp
qed


subsection \<open>Concrete journals\<close>

definition jex_action :: "string \<Rightarrow> ActionRecord" where
  "jex_action observed = \<lparr>jar_ID = ''a1'', jar_Resource = ''file./etc/vps-gateway/x.conf'', jar_Kind = ''CREATE_FILE'',
     jar_RetryClass = ''RETRY_SAFE'', jar_Status = ''APPLIED'', jar_Error = '''', jar_SpecHash = Hex ex_hash,
     jar_ObservedSpecHash = observed\<rparr>"

definition jex_record :: "string \<Rightarrow> bool \<Rightarrow> JournalRecord" where
  "jex_record outcome latch = \<lparr>jr_SchemaVersion = 3, jr_TransactionID = ''tx-1'', jr_HostIdentity = ex_host,
     jr_PlanFingerprint = ''fp'', jr_Approval = None, jr_Actions = [jex_action ''''], jr_StartedAt = 4, jr_UpdatedAt = 4,
     jr_Stage = ''MUTATION'', jr_MutationPossible = True, jr_RollbackAttempted = False, jr_RollbackResult = '''',
     jr_Outcome = outcome, jr_RecoveryRequired = latch\<rparr>"

definition jex_store :: "JournalRecord \<Rightarrow> JStore" where
  "jex_store r = \<lparr>js_files = [(''tx-1.json'', JRecord r)], js_dir = True, js_faults = []\<rparr>"

lemma ex_lookup: "jlookup (jex_store r) = [''tx-1.json'' \<mapsto> JRecord r]"
  by (simp add: jlookup_def jex_store_def fun_eq_iff)

lemma ex_update_allowed: "update_error False (jex_record o1 l1) (jex_record o2 l2) = None"
  by (simp add: update_error_def jex_record_def jex_action_def IsReadableSchemaVersion_def observed_field_error_def
      pinned_error_def with_id_def)

lemma ex_Update: "snd (Update now (jex_record o2 l2) (jex_store (jex_record o1 l1)))
    = jex_store ((jex_record o2 l2)\<lparr>jr_UpdatedAt := now\<rparr>)"
proof -
  have f: "file_name (jr_TransactionID (jex_record o2 l2)) = ''tx-1.json''" by (simp add: file_name_def jex_record_def)
  show ?thesis
    by (simp add: Update_def updateRecord_def f jbind_def jensure_dir_def jfault_def jread_def jcheck_def jret_def
        ex_update_allowed jwrite_def jput_def jlookup_def jex_store_def)
qed

lemma ex_ParseSpecHash: "ParseSpecHashHex (Hex ex_hash) = Inr ex_hash"
proof -
  have "length (Hex ex_hash) = 64" by (simp add: ex_hash_def)
  then show ?thesis by (simp add: ParseSpecHashHex_def parse_hex_pairs_Hex)
qed

lemma ex_record_ok:
  assumes "observed \<in> {'''', Hex ex_hash}"
  shows "record_error ''tx-1.json'' ((jex_record outcome latch)\<lparr>jr_UpdatedAt := t, jr_Actions := [jex_action observed]\<rparr>) = None"
proof -
  have "TrimSpace ''tx-1'' \<noteq> ''''" "TrimSpace ''fp'' \<noteq> ''''" "TrimSuffix ''tx-1.json'' ''.json'' = ''tx-1''"
    by code_simp+
  then show ?thesis using assms
    by (auto simp: record_error_def jex_record_def jex_action_def IsReadableSchemaVersion_def observed_field_error_def
        ex_ParseSpecHash)
qed

lemma ex_loadAll:
  assumes "record_error ''tx-1.json'' r = None"
  shows "loadAll (jex_store r) = (Inr [r], jex_store r)"
proof -
  have "suffix ''.json'' ''tx-1.json''" by code_simp
  with assms show ?thesis
    by (simp add: loadAll_def jbind_def jfault_def jex_store_def jread_def jlookup_def jcheck_def jret_def)
qed

lemma ex_record_same:
  "(jex_record outcome latch)\<lparr>jr_UpdatedAt := t, jr_Actions := [jex_action '''']\<rparr> = (jex_record outcome latch)\<lparr>jr_UpdatedAt := t\<rparr>"
  "(jex_record outcome latch)\<lparr>jr_UpdatedAt := 4\<rparr> = jex_record outcome latch"
  by (simp_all add: jex_record_def)

text \<open>
  The package comment says that no code path clears a recovery-required record. \<open>Update\<close> does not
  compare the latch with the stored one: an update of the same transaction that carries no latch is
  accepted, and afterwards the record no longer blocks.
\<close>

lemma Update_clears_latch:
  "fst (BlockingRecords (jex_store (jex_record ''RECOVERY_REQUIRED'' True))) = Inr [jex_record ''RECOVERY_REQUIRED'' True]
   \<and> fst (Update 9 (jex_record ''COMPLETED'' False) (jex_store (jex_record ''RECOVERY_REQUIRED'' True))) = Inr ()
   \<and> fst (BlockingRecords (snd (Update 9 (jex_record ''COMPLETED'' False) (jex_store (jex_record ''RECOVERY_REQUIRED'' True))))) = Inr []"
proof -
  have blocking: "fst (BlockingRecords (jex_store ((jex_record o1 l1)\<lparr>jr_UpdatedAt := t\<rparr>)))
      = Inr (if l1 \<or> o1 = '''' then [(jex_record o1 l1)\<lparr>jr_UpdatedAt := t\<rparr>] else [])" for o1 l1 t
  proof -
    have "record_error ''tx-1.json'' ((jex_record o1 l1)\<lparr>jr_UpdatedAt := t\<rparr>) = None"
      using ex_record_ok [of "''''" t o1 l1] by (simp add: ex_record_same)
    from ex_loadAll [OF this] show ?thesis
      by (simp add: BlockingRecords_def jbind_def jret_def jex_record_def)
  qed
  have f: "file_name (jr_TransactionID (jex_record o2 l2)) = ''tx-1.json''" for o2 l2 by (simp add: file_name_def jex_record_def)
  have upd: "fst (Update 9 (jex_record ''COMPLETED'' False) (jex_store (jex_record ''RECOVERY_REQUIRED'' True))) = Inr ()"
    by (simp add: Update_def updateRecord_def f jbind_def jensure_dir_def jfault_def jread_def jcheck_def jret_def
        ex_update_allowed jwrite_def jput_def jlookup_def jex_store_def)
  show ?thesis using blocking [of 4 "''RECOVERY_REQUIRED''" True] blocking [of 9 "''COMPLETED''" False] upd
    unfolding ex_Update ex_record_same by simp
qed

lemma ex_RecordObserved_run:
  assumes "\<not> SpecHash_IsZero h" and "Hex h \<noteq> ''''"
  shows "RecordObservedSpecHash 9 ''tx-1'' ''a1'' '''' h (jex_store (jex_record '''' False))
     = (Inr (), jex_store ((jex_record '''' False)\<lparr>jr_UpdatedAt := 9, jr_Actions := [jex_action (Hex h)]\<rparr>))"
proof -
  let ?r = "jex_record '''' False" and ?r' = "(jex_record '''' False)\<lparr>jr_Actions := [jex_action (Hex h)]\<rparr>"
  have "record_error ''tx-1.json'' ?r = None" using ex_record_ok [of "''''" 4 "''''" False] unfolding ex_record_same(1) unfolding ex_record_same(2) by simp
  note load = ex_loadAll [OF this]
  have tgt: "observed_target ''tx-1'' ''a1'' '''' h [?r] = Inr (Some ?r')"
    by (simp add: observed_target_def jex_record_def jex_action_def with_id_def)
  have ok: "update_error True ?r ?r' = None"
    using assms(2) by (simp add: update_error_def jex_record_def jex_action_def IsReadableSchemaVersion_def observed_field_error_def
        pinned_error_def with_id_def)
  have f: "file_name (jr_TransactionID ?r) = ''tx-1.json''" by (simp add: file_name_def jex_record_def)
  have "updateRecord 9 ?r' True (jex_store ?r) = (Inr (), jex_store (?r'\<lparr>jr_UpdatedAt := 9\<rparr>))"
    by (simp add: updateRecord_def f jbind_def jensure_dir_def jfault_def jread_def
        jcheck_def jret_def ok jwrite_def jput_def jlookup_def jex_store_def)
  moreover have "?r'\<lparr>jr_UpdatedAt := 9\<rparr> = ?r\<lparr>jr_UpdatedAt := 9, jr_Actions := [jex_action (Hex h)]\<rparr>" by simp
  ultimately show ?thesis by (simp add: RecordObservedSpecHash_def assms(1) jbind_def load tgt)
qed

lemma ex_RecordObserved:
  "snd (RecordObservedSpecHash 9 ''tx-1'' ''a1'' '''' ex_hash (jex_store (jex_record '''' False)))
     = jex_store ((jex_record '''' False)\<lparr>jr_UpdatedAt := 9, jr_Actions := [jex_action (Hex ex_hash)]\<rparr>)"
proof -
  have "\<not> SpecHash_IsZero ex_hash" by code_simp
  moreover have "Hex ex_hash \<noteq> ''''" using length_Hex [of ex_hash] by (auto simp: ex_hash_def)
  ultimately show ?thesis by (simp add: ex_RecordObserved_run)
qed

theorem observed_evidence_single_source_witness:
  "\<exists>now txID resource h. snd (RecordObservedSpecHash 9 ''tx-1'' ''a1'' '''' ex_hash (jex_store (jex_record '''' False)))
      = snd (RecordObservedSpecHash now txID ''a1'' resource h (jex_store (jex_record '''' False)))
    \<and> ''tx-1.json'' = file_name txID \<and> Hex ex_hash = Hex h \<and> \<not> SpecHash_IsZero h"
proof (rule observed_evidence_single_source)
  let ?s = "jex_store (jex_record '''' False)"
  have h: "Hex ex_hash \<noteq> ''''" using length_Hex [of ex_hash] by (auto simp: ex_hash_def)
  show "jstep ?s (snd (RecordObservedSpecHash 9 ''tx-1'' ''a1'' '''' ex_hash ?s))" by (rule by_Record)
  show "observed_in (snd (RecordObservedSpecHash 9 ''tx-1'' ''a1'' '''' ex_hash ?s)) ''tx-1.json'' ''a1'' (Hex ex_hash)"
    using h by (simp add: ex_RecordObserved observed_in_def ex_lookup jex_action_def)
  show "\<not> observed_in ?s ''tx-1.json'' ''a1'' (Hex ex_hash)"
    using h by (simp add: observed_in_def ex_lookup jex_record_def jex_action_def)
qed

theorem verified_claim_durable_witness:
  "\<exists>r a. jlookup (jex_store ((jex_record ''COMPLETED'' False)\<lparr>jr_UpdatedAt := 9, jr_Actions := [jex_action (Hex ex_hash)]\<rparr>)) ''tx-1.json''
      = Some (JRecord r) \<and> a \<in> set (jr_Actions r) \<and> jr_Outcome r = ''COMPLETED'' \<and> jar_Status a = ''APPLIED''"
proof -
  let ?r = "(jex_record ''COMPLETED'' False)\<lparr>jr_UpdatedAt := 9, jr_Actions := [jex_action (Hex ex_hash)]\<rparr>"
  have load: "loadAll (jex_store ?r) = (Inr [?r], jex_store ?r)" by (rule ex_loadAll) (simp add: ex_record_ok)
  have h: "Hex ex_hash \<noteq> ''''" using length_Hex [of ex_hash] by (auto simp: ex_hash_def)
  have "fact_actions 3 [jex_action (Hex ex_hash)] = Inr (tf_Actions ex_fact)"
    using h by (simp add: jex_action_def hash_of_def ex_ParseSpecHash ex_fact_def)
  then have "CorroborationFact ?r = Inr ex_fact"
    using ex_fact_valid by (simp add: CorroborationFact_def jex_record_def IsReadableSchemaVersion_def Let_def ex_fact_def ex_host_def)
  then have facts: "CorroborationFacts [?r] = Inr [ex_fact]" by simp
  have c: "vi_Candidates ex_input = [ex_fact]" "er_TxID (se_Ref (vi_Claim ex_input)) = ''tx-1''"
    by (simp_all add: ex_input_def ex_claim_def)
  have v: "vf_Status ex_verified = VerificationVerified" by (simp add: ex_verified_def)
  from verified_claim_durable [OF load facts c(1) ex_corroborate v] c(2) show ?thesis
    by (auto simp: file_name_def)
qed

theorem journal_history_preserved_witness:
  "jlookup (jex_store (jex_record '''' False)) ''tx-1.json'' = Some (JRecord (jex_record '''' False))
   \<and> (\<exists>r'. jlookup (snd (Update 9 (jex_record ''FAILED'' False) (jex_store (jex_record '''' False)))) ''tx-1.json'' = Some (JRecord r')
        \<and> keeps_history (jex_record '''' False) r')"
proof -
  have l: "jlookup (jex_store (jex_record '''' False)) ''tx-1.json'' = Some (JRecord (jex_record '''' False))"
    by (simp add: ex_lookup)
  have "jstep\<^sup>*\<^sup>* (jex_store (jex_record '''' False)) (snd (Update 9 (jex_record ''FAILED'' False) (jex_store (jex_record '''' False))))"
    by (rule r_into_rtranclp) (rule by_Update)
  from journal_history_preserved [OF this l] l show ?thesis by blast
qed

end
