(* ===== verification/Recovery.thy ===== *)
theory Recovery
  imports Apply_Engine
begin

text \<open>
  Recovery classification (\<open>internal/recovery/classify.go\<close>): what a set of durable transaction records
  proves about each transaction. Everything is pure: a record either fails validation, or gets one of six
  states with its reasons.
\<close>

subsection \<open>Data\<close>

record RAction =
  ra_Resource :: string
  ra_Status :: string

record RRecord =
  rr_TxID :: string
  rr_PlanFingerprint :: string
  rr_HostIdentity :: string
  rr_Stage :: string
  rr_MutationPossible :: bool
  rr_Outcome :: string
  rr_RecoveryRequired :: bool
  rr_RollbackAttempted :: bool
  rr_RollbackResult :: string
  rr_Actions :: "RAction list"

datatype ClassificationState = Completed | FailedResolved | FailedUnresolved | RecoveryRequiredS
  | InProgress | Indeterminate

datatype Reason = ReasonOutcomeCompleted | ReasonOutcomeFailed | ReasonOutcomeRecoveryRequired
  | ReasonOutcomeInProgress | ReasonNoMutationPossible | ReasonMutationPossibleUnproven
  | ReasonAllActionsReverted | ReasonNoActionReachedApply | ReasonActionUnresolvedAfterApply
  | ReasonRollbackFailedRecorded | ReasonRollbackAttemptContradiction | ReasonContradictoryRecords
  | ReasonActionsAppliedUnderFailed | ReasonEmptyHistory

record Classification =
  cl_TxID :: string
  cl_State :: ClassificationState
  cl_Reasons :: "Reason list"
  cl_Details :: "string list"

datatype rec_error = NoTxID | NoPlanFingerprint string | UnknownOutcome string string
  | UnknownRollback string string | ActionNoResource string nat | ActionUnknownStatus string nat string
  | ActionDuplicate string string | UnreachableOutcome string

subsection \<open>Validation\<close>

definition rec_statuses :: "string list" where
  "rec_statuses = [''PENDING'', ''BACKUP_FAILED'', ''APPLIED'', ''VALIDATION_FAILED'', ''ROLLED_BACK'', ''ROLLBACK_FAILED'']"

text \<open>The loop over the actions, with the index and the resources seen so far.\<close>

fun rec_actions_error :: "string \<Rightarrow> nat \<Rightarrow> string list \<Rightarrow> RAction list \<Rightarrow> rec_error option" where
  "rec_actions_error tx i seen [] = None"
| "rec_actions_error tx i seen (a # as) =
     (if ra_Resource a = '''' then Some (ActionNoResource tx i)
      else if ra_Status a \<notin> set rec_statuses then Some (ActionUnknownStatus tx i (ra_Status a))
      else if ra_Resource a \<in> set seen then Some (ActionDuplicate tx (ra_Resource a))
      else rec_actions_error tx (Suc i) (ra_Resource a # seen) as)"

definition Record_Validate :: "RRecord \<Rightarrow> rec_error option" where
  "Record_Validate r =
     (if rr_TxID r = '''' then Some NoTxID
      else if rr_PlanFingerprint r = '''' then Some (NoPlanFingerprint (rr_TxID r))
      else if rr_Outcome r \<notin> {'''', ''COMPLETED'', ''FAILED'', ''RECOVERY_REQUIRED''}
      then Some (UnknownOutcome (rr_TxID r) (rr_Outcome r))
      else if rr_RollbackResult r \<notin> {'''', ''ROLLED_BACK'', ''ROLLBACK_FAILED''}
      then Some (UnknownRollback (rr_TxID r) (rr_RollbackResult r))
      else rec_actions_error (rr_TxID r) 0 [] (rr_Actions r))"

subsection \<open>One transaction\<close>

text \<open>
  The loop of \<open>classifyFailed\<close>: \<open>None\<close> for the early return on a failed rollback, otherwise the flags
  \<open>unresolved\<close> and \<open>neverApplied\<close>.
\<close>

fun failed_flags :: "bool \<Rightarrow> bool \<Rightarrow> RAction list \<Rightarrow> (bool \<times> bool) option" where
  "failed_flags unresolved neverApplied [] = Some (unresolved, neverApplied)"
| "failed_flags unresolved neverApplied (a # as) =
     (if ra_Status a = ''ROLLED_BACK'' then failed_flags unresolved False as
      else if ra_Status a = ''ROLLBACK_FAILED'' then None
      else if ra_Status a = ''APPLIED'' \<or> ra_Status a = ''VALIDATION_FAILED'' then failed_flags True False as
      else failed_flags unresolved neverApplied as)"

definition classifyFailed :: "RRecord \<Rightarrow> Classification" where
  "classifyFailed r =
     (let rollbackClaimed = rr_RollbackAttempted r \<or> rr_RollbackResult r = ''ROLLED_BACK'';
          c = (\<lambda>st rs. \<lparr>cl_TxID = rr_TxID r, cl_State = st, cl_Reasons = ReasonOutcomeFailed # rs, cl_Details = []\<rparr>) in
      case failed_flags False True (rr_Actions r) of
        None \<Rightarrow> c Indeterminate [ReasonRollbackFailedRecorded]
      | Some (unresolved, neverApplied) \<Rightarrow>
          let claimed = (if rollbackClaimed \<and> \<not> neverApplied then [ReasonAllActionsReverted] else []) in
          if unresolved then c FailedUnresolved (claimed @ [ReasonActionUnresolvedAfterApply])
          else if neverApplied then c FailedResolved (claimed @ [ReasonNoActionReachedApply])
          else c FailedResolved (claimed @ [ReasonAllActionsReverted]))"

definition classify_completed :: "RRecord \<Rightarrow> Classification" where
  "classify_completed r =
     (if rr_RollbackAttempted r \<or> rr_RollbackResult r \<noteq> ''''
      then \<lparr>cl_TxID = rr_TxID r, cl_State = Indeterminate, cl_Reasons = [ReasonRollbackAttemptContradiction], cl_Details = []\<rparr>
      else case find (\<lambda>a. ra_Status a \<noteq> ''APPLIED'') (rr_Actions r) of
        Some a \<Rightarrow>
          \<lparr>cl_TxID = rr_TxID r, cl_State = Indeterminate, cl_Reasons = [ReasonActionsAppliedUnderFailed],
           cl_Details = [''action '' @ ra_Resource a @ '' has status '' @ ra_Status a @ '' under COMPLETED'']\<rparr>
      | None \<Rightarrow> \<lparr>cl_TxID = rr_TxID r, cl_State = Completed, cl_Reasons = [ReasonOutcomeCompleted], cl_Details = []\<rparr>)"

definition ClassifyTransaction :: "RRecord \<Rightarrow> (rec_error, Classification) result" where
  "ClassifyTransaction r =
     (case Record_Validate r of
        Some e \<Rightarrow> Inl e
      | None \<Rightarrow>
          if rr_RecoveryRequired r \<or> rr_Outcome r = ''RECOVERY_REQUIRED'' \<or> rr_RollbackResult r = ''ROLLBACK_FAILED''
          then Inr \<lparr>cl_TxID = rr_TxID r, cl_State = RecoveryRequiredS,
                 cl_Reasons = ReasonOutcomeRecoveryRequired
                   # (if rr_RollbackResult r = ''ROLLBACK_FAILED'' then [ReasonRollbackFailedRecorded] else []),
                 cl_Details = []\<rparr>
          else if rr_Outcome r = ''''
          then Inr \<lparr>cl_TxID = rr_TxID r, cl_State = InProgress,
                 cl_Reasons = [ReasonOutcomeInProgress,
                   (if rr_MutationPossible r then ReasonMutationPossibleUnproven else ReasonNoMutationPossible)],
                 cl_Details = []\<rparr>
          else if rr_Outcome r = ''FAILED'' then Inr (classifyFailed r)
          else if rr_Outcome r = ''COMPLETED'' then Inr (classify_completed r)
          else Inl (UnreachableOutcome (rr_Outcome r)))"

subsection \<open>A history\<close>

record JournalClassification =
  jc_Transactions :: "Classification list"
  jc_Notes :: "string list"

definition normalized :: "RRecord \<Rightarrow> RRecord" where
  "normalized r = r\<lparr>rr_Actions := sort_key ra_Resource (rr_Actions r)\<rparr>"

text \<open>The comparison field by field is equality of the records.\<close>

definition record_equal :: "RRecord \<Rightarrow> RRecord \<Rightarrow> bool" where
  "record_equal r o1 \<longleftrightarrow>
     rr_TxID r = rr_TxID o1 \<and> rr_PlanFingerprint r = rr_PlanFingerprint o1 \<and> rr_HostIdentity r = rr_HostIdentity o1
     \<and> rr_Stage r = rr_Stage o1 \<and> rr_MutationPossible r = rr_MutationPossible o1 \<and> rr_Outcome r = rr_Outcome o1
     \<and> rr_RecoveryRequired r = rr_RecoveryRequired o1 \<and> rr_RollbackAttempted r = rr_RollbackAttempted o1
     \<and> rr_RollbackResult r = rr_RollbackResult o1 \<and> length (rr_Actions r) = length (rr_Actions o1)
     \<and> list_all2 (\<lambda>a b. ra_Resource a = ra_Resource b \<and> ra_Status a = ra_Status b) (rr_Actions r) (rr_Actions o1)"

fun normalize_all :: "RRecord list \<Rightarrow> (rec_error, RRecord list) result" where
  "normalize_all [] = Inr []"
| "normalize_all (r # rs) =
     (case Record_Validate r of Some e \<Rightarrow> Inl e
      | None \<Rightarrow> (case normalize_all rs of Inl e \<Rightarrow> Inl e | Inr ns \<Rightarrow> Inr (normalized r # ns)))"

text \<open>The map from transaction ids to their records, in the order of the first occurrences.\<close>

fun group_by_tx :: "(string \<times> RRecord list) list \<Rightarrow> RRecord list \<Rightarrow> (string \<times> RRecord list) list" where
  "group_by_tx acc [] = acc"
| "group_by_tx acc (r # rs) =
     group_by_tx
       (case map_of acc (rr_TxID r) of
          None \<Rightarrow> acc @ [(rr_TxID r, [r])]
        | Some _ \<Rightarrow> map (\<lambda>(t, g). if t = rr_TxID r then (t, g @ [r]) else (t, g)) acc)
       rs"

definition classify_group :: "string \<Rightarrow> RRecord list \<Rightarrow> (rec_error, Classification) result" where
  "classify_group tx g =
     (if \<exists>other \<in> set (tl g). \<not> record_equal (hd g) other
      then Inr \<lparr>cl_TxID = tx, cl_State = Indeterminate, cl_Reasons = [ReasonContradictoryRecords], cl_Details = []\<rparr>
      else ClassifyTransaction (hd g))"

fun classify_groups :: "(string \<times> RRecord list) list \<Rightarrow> (rec_error, Classification list) result" where
  "classify_groups [] = Inr []"
| "classify_groups ((tx, g) # gs) =
     (case classify_group tx g of Inl e \<Rightarrow> Inl e
      | Inr c \<Rightarrow> (case classify_groups gs of Inl e \<Rightarrow> Inl e | Inr cs \<Rightarrow> Inr (c # cs)))"

definition empty_history_note :: string where
  "empty_history_note = ''NO_DURABLE_RECORDS: absence of durable records is not proof that no mutation occurred''"

definition ClassifyJournal :: "RRecord list \<Rightarrow> (rec_error, JournalClassification) result" where
  "ClassifyJournal records =
     (if records = [] then Inr \<lparr>jc_Transactions = [], jc_Notes = [empty_history_note]\<rparr>
      else case normalize_all records of
        Inl e \<Rightarrow> Inl e
      | Inr ns \<Rightarrow>
          (case classify_groups (group_by_tx [] (sort_key rr_TxID ns)) of
             Inl e \<Rightarrow> Inl e
           | Inr cs \<Rightarrow> Inr \<lparr>jc_Transactions = cs, jc_Notes = []\<rparr>))"


subsection \<open>Validation and the classes of one record\<close>

lemma rec_actions_error_None:
  "rec_actions_error tx i seen as = None \<longleftrightarrow>
     (\<forall>a \<in> set as. ra_Resource a \<noteq> '''' \<and> ra_Status a \<in> set rec_statuses)
     \<and> distinct (map ra_Resource as) \<and> set (map ra_Resource as) \<inter> set seen = {}"
  by (induction as arbitrary: i seen) auto

lemma Record_Validate_normalized [simp]: "Record_Validate (normalized r) = None \<longleftrightarrow> Record_Validate r = None"
proof -
  have d: "distinct (map f (sort_key f xs)) \<longleftrightarrow> distinct (map f xs)" for f :: "RAction \<Rightarrow> string" and xs
    by (simp add: distinct_map inj_on_def)
  show ?thesis by (simp add: Record_Validate_def normalized_def rec_actions_error_None d)
qed

lemma classify_total: "Record_Validate r = None \<Longrightarrow> \<exists>c. ClassifyTransaction r = Inr c \<and> cl_TxID c = rr_TxID r"
proof -
  assume v: "Record_Validate r = None"
  then have "rr_Outcome r \<in> {'''', ''COMPLETED'', ''FAILED'', ''RECOVERY_REQUIRED''}"
    by (auto simp: Record_Validate_def split: if_splits)
  with v show ?thesis
    by (auto simp: ClassifyTransaction_def classifyFailed_def classify_completed_def Let_def split: option.split prod.split)
qed

lemma failed_flags_eq:
  "failed_flags u n as = (if \<exists>a \<in> set as. ra_Status a = ''ROLLBACK_FAILED'' then None
     else Some (u \<or> (\<exists>a \<in> set as. ra_Status a \<in> {''APPLIED'', ''VALIDATION_FAILED''}),
       n \<and> (\<forall>a \<in> set as. ra_Status a \<notin> {''ROLLED_BACK'', ''APPLIED'', ''VALIDATION_FAILED''})))"
  by (induction as arbitrary: u n) auto

text \<open>What a record must hold to be classified as completed, or as failed and resolved.\<close>

definition clean_completed :: "RRecord \<Rightarrow> bool" where
  "clean_completed r \<longleftrightarrow> rr_Outcome r = ''COMPLETED'' \<and> \<not> rr_RecoveryRequired r \<and> \<not> rr_RollbackAttempted r
     \<and> rr_RollbackResult r = '''' \<and> (\<forall>a \<in> set (rr_Actions r). ra_Status a = ''APPLIED'')"

definition clean_failed :: "RRecord \<Rightarrow> bool" where
  "clean_failed r \<longleftrightarrow> rr_Outcome r = ''FAILED'' \<and> \<not> rr_RecoveryRequired r \<and> rr_RollbackResult r \<noteq> ''ROLLBACK_FAILED''
     \<and> (\<forall>a \<in> set (rr_Actions r). ra_Status a \<in> {''PENDING'', ''BACKUP_FAILED'', ''ROLLED_BACK''})"

lemma classify_completed_iff:
  assumes "ClassifyTransaction r = Inr c"
  shows "cl_State c = Completed \<longleftrightarrow> clean_completed r"
proof (cases "rr_Outcome r = ''COMPLETED'' \<and> \<not> rr_RecoveryRequired r")
  case True
  then show ?thesis using assms
    by (auto simp: ClassifyTransaction_def classify_completed_def clean_completed_def find_None_iff find_Some_iff
        split: option.splits if_splits)
next
  case False
  then show ?thesis using assms
    by (auto simp: ClassifyTransaction_def classifyFailed_def clean_completed_def Let_def split: option.splits if_splits prod.splits)
qed

lemma classify_resolved_iff:
  assumes "ClassifyTransaction r = Inr c"
  shows "cl_State c = FailedResolved \<longleftrightarrow> clean_failed r"
proof (cases "rr_Outcome r = ''FAILED'' \<and> \<not> rr_RecoveryRequired r \<and> rr_RollbackResult r \<noteq> ''ROLLBACK_FAILED''")
  case True
  from assms have "Record_Validate r = None" by (auto simp: ClassifyTransaction_def split: option.splits)
  then have st: "\<forall>a \<in> set (rr_Actions r). ra_Status a \<in> set rec_statuses"
    by (auto simp: Record_Validate_def rec_actions_error_None split: if_splits)
  from True assms have c: "c = classifyFailed r" by (auto simp: ClassifyTransaction_def split: option.splits)
  have "cl_State c = FailedResolved \<longleftrightarrow>
      (\<forall>a \<in> set (rr_Actions r). ra_Status a \<notin> {''ROLLBACK_FAILED'', ''APPLIED'', ''VALIDATION_FAILED''})"
    unfolding c by (auto simp: classifyFailed_def failed_flags_eq Let_def)
  also have "\<dots> \<longleftrightarrow> (\<forall>a \<in> set (rr_Actions r). ra_Status a \<in> {''PENDING'', ''BACKUP_FAILED'', ''ROLLED_BACK''})"
    using st unfolding rec_statuses_def by fastforce
  finally show ?thesis using True by (simp add: clean_failed_def)
next
  case False
  then show ?thesis using assms
    by (auto simp: ClassifyTransaction_def classify_completed_def clean_failed_def split: option.splits if_splits)
qed

lemma record_equal_iff: "record_equal r o1 \<longleftrightarrow> r = o1"
proof -
  have "(ra_Resource a = ra_Resource b \<and> ra_Status a = ra_Status b) = (a = b)" for a b :: RAction by (cases a; cases b) simp
  then have eq: "list_all2 (\<lambda>a b. ra_Resource a = ra_Resource b \<and> ra_Status a = ra_Status b) xs ys \<longleftrightarrow> xs = ys"
    for xs ys :: "RAction list" by (simp add: list.rel_eq)
  have "r = o1" if "record_equal r o1"
    using that by (intro RRecord.equality) (simp_all add: record_equal_def eq)
  moreover have "record_equal r r" by (simp add: record_equal_def eq)
  ultimately show ?thesis by blast
qed

lemma clean_normalized [simp]: "clean_completed (normalized r) = clean_completed r" "clean_failed (normalized r) = clean_failed r"
  by (simp_all add: clean_completed_def clean_failed_def normalized_def)

lemma tx_normalized [simp]: "rr_TxID (normalized r) = rr_TxID r"
  by (simp add: normalized_def)

subsection \<open>Grouping\<close>

definition grouped :: "RRecord list \<Rightarrow> string list \<Rightarrow> (string \<times> RRecord list) list" where
  "grouped rs ts = map (\<lambda>t. (t, filter (\<lambda>r. rr_TxID r = t) rs)) ts"

lemma map_of_grouped: "map_of (grouped rs ts) t = (if t \<in> set ts then Some (filter (\<lambda>r. rr_TxID r = t) rs) else None)"
  by (induction ts) (auto simp: grouped_def)

lemma group_by_tx_grouped:
  "distinct ts \<Longrightarrow> set ts = rr_TxID ` set ps \<Longrightarrow> sorted ts \<Longrightarrow> sorted (map rr_TxID (ps @ xs)) \<Longrightarrow>
   \<exists>ts'. group_by_tx (grouped ps ts) xs = grouped (ps @ xs) ts' \<and> distinct ts' \<and> sorted ts' \<and> set ts' = rr_TxID ` set (ps @ xs)"
proof (induction xs arbitrary: ps ts)
  case (Cons r xs)
  show ?case
  proof (cases "rr_TxID r \<in> set ts")
    case True
    have "map (\<lambda>(t, g). if t = rr_TxID r then (t, g @ [r]) else (t, g)) (grouped ps ts) = grouped (ps @ [r]) ts"
      by (auto simp: grouped_def)
    with True Cons.IH [of ts "ps @ [r]"] Cons.prems show ?thesis by (auto simp: map_of_grouped insert_absorb)
  next
    case False
    with Cons.prems(2) have "grouped ps ts @ [(rr_TxID r, [r])] = grouped (ps @ [r]) (ts @ [rr_TxID r])"
      by (auto simp: grouped_def filter_empty_conv image_iff)
    moreover have "sorted (ts @ [rr_TxID r])" using Cons.prems by (auto simp: sorted_append)
    ultimately show ?thesis using False Cons.IH [of "ts @ [rr_TxID r]" "ps @ [r]"] Cons.prems by (auto simp: map_of_grouped)
  qed
qed auto

lemma group_sorted:
  "group_by_tx [] (sort_key rr_TxID ns)
     = grouped (sort_key rr_TxID ns) (sorted_list_of_set (rr_TxID ` set ns))"
proof -
  from group_by_tx_grouped [of "[]" "[]" "sort_key rr_TxID ns"] obtain ts where
    ts: "group_by_tx [] (sort_key rr_TxID ns) = grouped (sort_key rr_TxID ns) ts"
    "distinct ts" "sorted ts" "set ts = rr_TxID ` set ns"
    by (auto simp: grouped_def)
  then have "ts = sorted_list_of_set (rr_TxID ` set ns)" by (metis List.finite_set sorted_list_of_set.idem_if_sorted_distinct)
  with ts show ?thesis by simp
qed

lemma classify_group_set:
  assumes "set g = set g'" and "g \<noteq> []"
  shows "classify_group t g = classify_group t g'"
proof -
  have c: "classify_group t h = (if \<exists>x. set h = {x} then ClassifyTransaction (the_elem (set h))
      else Inr \<lparr>cl_TxID = t, cl_State = Indeterminate, cl_Reasons = [ReasonContradictoryRecords], cl_Details = []\<rparr>)"
    if "h \<noteq> []" for h
  proof -
    from that obtain x xs where h: "h = x # xs" by (cases h) auto
    have e: "(\<exists>other \<in> set xs. x \<noteq> other) \<longleftrightarrow> \<not> (\<exists>y. set h = {y})" unfolding h by auto
    have t: "the_elem (set h) = x" if "\<exists>y. set h = {y}" using that h by (metis list.set_intros(1) singletonD the_elem_eq)
    have "classify_group t h = (if \<exists>other \<in> set xs. x \<noteq> other
        then Inr \<lparr>cl_TxID = t, cl_State = Indeterminate, cl_Reasons = [ReasonContradictoryRecords], cl_Details = []\<rparr>
        else ClassifyTransaction x)"
      by (simp only: classify_group_def record_equal_iff h list.sel)
    with t show ?thesis unfolding e by (cases "\<exists>y. set h = {y}") simp_all
  qed
  have "g' \<noteq> []" using assms by auto
  with c assms show ?thesis by simp
qed

lemma classify_groups_cong:
  "(\<And>t. t \<in> set ts \<Longrightarrow> classify_group t (f t) = classify_group t (g t)) \<Longrightarrow>
   classify_groups (map (\<lambda>t. (t, f t)) ts) = classify_groups (map (\<lambda>t. (t, g t)) ts)"
proof (induction ts)
  case (Cons a ts)
  have "classify_group a (f a) = classify_group a (g a)" by (rule Cons.prems) simp
  moreover have "classify_groups (map (\<lambda>t. (t, f t)) ts) = classify_groups (map (\<lambda>t. (t, g t)) ts)"
    by (rule Cons.IH) (simp add: Cons.prems)
  ultimately show ?case by (simp cong: sum.case_cong)
qed simp


subsection \<open>The classification of a history\<close>

lemma normalize_all_eq:
  "(\<forall>r \<in> set rs. Record_Validate r = None) \<Longrightarrow> normalize_all rs = Inr (map normalized rs)"
  "normalize_all rs = Inr ns \<Longrightarrow> \<forall>r \<in> set rs. Record_Validate r = None"
  by (induction rs arbitrary: ns) (auto split: option.splits sum.splits)

lemma ClassifyJournal_groups:
  "ClassifyJournal rs = Inr j \<longleftrightarrow>
     (if rs = [] then j = \<lparr>jc_Transactions = [], jc_Notes = [empty_history_note]\<rparr>
      else (\<forall>r \<in> set rs. Record_Validate r = None) \<and> jc_Notes j = []
        \<and> classify_groups (grouped (map normalized rs) (sorted_list_of_set (rr_TxID ` set rs))) = Inr (jc_Transactions j))"
proof (cases "rs = [] \<or> (\<exists>r \<in> set rs. Record_Validate r \<noteq> None)")
  case True
  then have "rs \<noteq> [] \<Longrightarrow> \<exists>e. normalize_all rs = Inl e" using normalize_all_eq(2) by (metis sum.exhaust)
  with True show ?thesis by (auto simp: ClassifyJournal_def)
next
  case False
  let ?ns = "map normalized rs"
  have n: "normalize_all rs = Inr ?ns" using False by (simp add: normalize_all_eq(1))
  have tx: "rr_TxID ` set ?ns = rr_TxID ` set rs" by (auto simp: image_iff)
  have g: "classify_groups (grouped (sort_key rr_TxID ?ns) ts) = classify_groups (grouped ?ns ts)"
    if "set ts \<subseteq> rr_TxID ` set rs" for ts
    unfolding grouped_def
  proof (rule classify_groups_cong, rule classify_group_set)
    fix t assume "t \<in> set ts"
    with that have "t \<in> rr_TxID ` set (sort_key rr_TxID ?ns)" using tx by (auto simp del: set_map)
    then show "filter (\<lambda>r. rr_TxID r = t) (sort_key rr_TxID ?ns) \<noteq> []" by (auto simp: filter_empty_conv)
  qed simp
  have "classify_groups (group_by_tx [] (sort_key rr_TxID ?ns)) = classify_groups (grouped ?ns (sorted_list_of_set (rr_TxID ` set rs)))"
    unfolding group_sorted tx by (rule g) simp
  with False n show ?thesis by (cases j) (auto simp: ClassifyJournal_def split: sum.split)
qed

lemma classify_groups_Inr:
  "classify_groups (map (\<lambda>t. (t, f t)) ts) = Inr cs \<Longrightarrow> list_all2 (\<lambda>t c. classify_group t (f t) = Inr c) ts cs"
  by (induction ts arbitrary: cs) (auto simp: list_all2_Cons1 split: sum.splits)

text \<open>
  The classification does not depend on how the history is presented. Two non-trivially different
  listings with the same records, up to the order of each record's actions, whatever their order and
  however often each is repeated, have the same classification.
\<close>

lemma history_classification_canonical:
  assumes "normalized ` set rs = normalized ` set rs'"
  shows "ClassifyJournal rs = Inr j \<longleftrightarrow> ClassifyJournal rs' = Inr j"
proof -
  have "rs = [] \<longleftrightarrow> rs' = []" using assms by (metis image_is_empty set_empty)
  moreover have tx: "rr_TxID ` set rs = rr_TxID ` set rs'"
    using arg_cong [OF assms, of "image rr_TxID"] by (simp add: image_image)
  moreover have "(\<forall>r \<in> set rs. Record_Validate r = None) \<longleftrightarrow> (\<forall>r \<in> set rs'. Record_Validate r = None)"
    using arg_cong [OF assms, of "\<lambda>S. \<forall>r \<in> S. Record_Validate r = None"] by simp
  moreover have "classify_groups (grouped (map normalized rs) (sorted_list_of_set (rr_TxID ` set rs)))
      = classify_groups (grouped (map normalized rs') (sorted_list_of_set (rr_TxID ` set rs)))"
    unfolding grouped_def
  proof (rule classify_groups_cong, rule classify_group_set)
    fix t assume "t \<in> set (sorted_list_of_set (rr_TxID ` set rs))"
    then show "filter (\<lambda>r. rr_TxID r = t) (map normalized rs) \<noteq> []" by (auto simp: filter_empty_conv)
  qed (simp add: assms)
  ultimately show ?thesis unfolding ClassifyJournal_groups by simp
qed

text \<open>
  C17. Only a clean history counts as resolved. Every transaction of the history gets exactly one
  classification, in the order of the transaction ids. It is Completed, or Failed and resolved, only if
  each of the transaction's records is: a completed one with no latch, no rollback and every action
  applied; a failed one with no latch and with every action either never applied or rolled back. In
  particular a transaction with an unfinished record or a latched one is never resolved.
\<close>

theorem history_resolved_sound:
  assumes "ClassifyJournal rs = Inr j"
  shows "map cl_TxID (jc_Transactions j) = sorted_list_of_set (rr_TxID ` set rs)
    \<and> (\<forall>c \<in> set (jc_Transactions j). \<forall>r \<in> set rs. rr_TxID r = cl_TxID c \<longrightarrow>
          (cl_State c = Completed \<longrightarrow> clean_completed r) \<and> (cl_State c = FailedResolved \<longrightarrow> clean_failed r))"
proof (cases "rs = []")
  case True
  with assms show ?thesis by (simp add: ClassifyJournal_groups)
next
  case False
  let ?ts = "sorted_list_of_set (rr_TxID ` set rs)" and ?g = "\<lambda>t. filter (\<lambda>r. rr_TxID r = t) (map normalized rs)"
  from assms False have v: "\<forall>r \<in> set rs. Record_Validate r = None"
    and cs: "list_all2 (\<lambda>t c. classify_group t (?g t) = Inr c) ?ts (jc_Transactions j)"
    by (auto simp: ClassifyJournal_groups grouped_def intro: classify_groups_Inr)
  have one: "cl_TxID c = t \<and> (\<forall>r \<in> set rs. rr_TxID r = t \<longrightarrow>
      (cl_State c = Completed \<longrightarrow> clean_completed r) \<and> (cl_State c = FailedResolved \<longrightarrow> clean_failed r))"
    if c: "classify_group t (?g t) = Inr c" and t: "t \<in> rr_TxID ` set rs" for t c
  proof (cases "\<exists>other \<in> set (tl (?g t)). hd (?g t) \<noteq> other")
    case True
    with c show ?thesis by (auto simp: classify_group_def record_equal_iff)
  next
    case False
    with c have c: "ClassifyTransaction (hd (?g t)) = Inr c" by (simp add: classify_group_def record_equal_iff)
    have ne: "?g t \<noteq> []" using t by (auto simp: filter_empty_conv)
    then have h: "hd (?g t) \<in> set (?g t)" by (rule hd_in_set)
    then have "Record_Validate (hd (?g t)) = None" using v by auto
    moreover have "rr_TxID (hd (?g t)) = t" using h by simp
    ultimately have "cl_TxID c = t" using classify_total c by (metis sum.inject(2))
    moreover have "normalized r = hd (?g t)" if "r \<in> set rs" "rr_TxID r = t" for r
    proof -
      have "normalized r \<in> set (?g t)" using that by auto
      with False ne show ?thesis by (cases "?g t") auto
    qed
    ultimately show ?thesis
      using classify_completed_iff [OF c] classify_resolved_iff [OF c] by (metis clean_normalized)
  qed
  have "map cl_TxID (jc_Transactions j) = ?ts"
  proof (rule nth_equalityI)
    show "length (map cl_TxID (jc_Transactions j)) = length ?ts" using list_all2_lengthD [OF cs] by simp
    fix i assume "i < length (map cl_TxID (jc_Transactions j))"
    then show "map cl_TxID (jc_Transactions j) ! i = ?ts ! i"
      using list_all2_nthD2 [OF cs, of i] one list_all2_lengthD [OF cs] by (simp, metis List.finite_set finite_imageI nth_mem set_sorted_list_of_set)
  qed
  moreover have "\<forall>r \<in> set rs. rr_TxID r = cl_TxID c \<longrightarrow>
      (cl_State c = Completed \<longrightarrow> clean_completed r) \<and> (cl_State c = FailedResolved \<longrightarrow> clean_failed r)"
    if "c \<in> set (jc_Transactions j)" for c
  proof -
    from that obtain i where i: "i < length (jc_Transactions j)" "c = jc_Transactions j ! i" by (auto simp: in_set_conv_nth)
    with list_all2_nthD2 [OF cs, of i] have "classify_group (?ts ! i) (?g (?ts ! i)) = Inr c" by simp
    moreover have "?ts ! i \<in> set ?ts" using i list_all2_lengthD [OF cs] by (metis nth_mem)
    ultimately show ?thesis using one [of "?ts ! i" c] by simp
  qed
  ultimately show ?thesis by blast
qed


text \<open>
  The vocabulary of the classifier lacks the status the engine gives to the most dangerous action, one
  whose apply failed and could not be rolled back: a history with such a record is refused as a whole.
\<close>

lemma unreverted_apply_unclassifiable:
  assumes "ex_Rollback ex (a_ID a) (a_Resource a) s = (Some msg, s1)" and "ar_Status result = ''APPLY_FAILED''"
    and "r \<in> set rs" and "act \<in> set (rr_Actions r)"
    and "ra_Status act = ar_Status (fst (rollback_failed e ex a result s))"
  shows "ClassifyJournal rs \<noteq> Inr j"
proof -
  have not_known: "''APPLY_FAILED'' \<notin> set rec_statuses" by (simp add: rec_statuses_def)
  have "ra_Status act = ''APPLY_FAILED''" using assms(1,2,5) by (simp add: rollback_failed_def)
  then have "rec_actions_error (rr_TxID r) 0 [] (rr_Actions r) \<noteq> None"
    unfolding rec_actions_error_None using assms(4) not_known by metis
  then have "Record_Validate r \<noteq> None" by (simp add: Record_Validate_def)
  then show ?thesis using assms(3) by (auto simp: ClassifyJournal_groups)
qed

subsection \<open>Concrete histories\<close>

definition rec_example :: "string \<Rightarrow> string \<Rightarrow> RRecord" where
  "rec_example tx status = \<lparr>rr_TxID = tx, rr_PlanFingerprint = ''fp'', rr_HostIdentity = '''', rr_Stage = ''DONE'',
     rr_MutationPossible = True, rr_Outcome = (if status = ''APPLIED'' then ''COMPLETED'' else ''FAILED''),
     rr_RecoveryRequired = False, rr_RollbackAttempted = status \<noteq> ''APPLIED'',
     rr_RollbackResult = (if status = ''APPLIED'' then '''' else ''ROLLED_BACK''),
     rr_Actions = [\<lparr>ra_Resource = ''file.a'', ra_Status = status\<rparr>]\<rparr>"

definition history_result :: JournalClassification where
  "history_result = \<lparr>jc_Transactions =
        [\<lparr>cl_TxID = ''tx-1'', cl_State = Completed, cl_Reasons = [ReasonOutcomeCompleted], cl_Details = []\<rparr>,
         \<lparr>cl_TxID = ''tx-2'', cl_State = FailedResolved,
          cl_Reasons = [ReasonOutcomeFailed, ReasonAllActionsReverted, ReasonAllActionsReverted], cl_Details = []\<rparr>],
        jc_Notes = []\<rparr>"

lemma history_example:
  "ClassifyJournal [rec_example ''tx-2'' ''ROLLED_BACK'', rec_example ''tx-1'' ''APPLIED''] = Inr history_result"
  by code_simp

lemma history_classification_canonical_witness:
  "ClassifyJournal [rec_example ''tx-1'' ''APPLIED'', rec_example ''tx-2'' ''ROLLED_BACK'', rec_example ''tx-1'' ''APPLIED'']
     = Inr history_result"
proof -
  have s: "normalized ` set [rec_example ''tx-2'' ''ROLLED_BACK'', rec_example ''tx-1'' ''APPLIED'']
      = normalized ` set [rec_example ''tx-1'' ''APPLIED'', rec_example ''tx-2'' ''ROLLED_BACK'', rec_example ''tx-1'' ''APPLIED'']"
    by auto
  from history_classification_canonical [OF s, of history_result] history_example show ?thesis by simp
qed

theorem history_resolved_sound_witness:
  "clean_completed (rec_example ''tx-1'' ''APPLIED'') \<and> clean_failed (rec_example ''tx-2'' ''ROLLED_BACK'')"
  using history_resolved_sound [OF history_example] by (simp add: rec_example_def history_result_def)

end
