(* ===== verification/State_Store.thy ===== *)
theory State_Store
  imports Corroboration State_Plan Text
begin

text \<open>
  The persisted state file (\<open>internal/state\<close>: \<open>evidence.go\<close>, \<open>persist.go\<close>). A document is the value tree of a
  JSON text (\<open>None\<close> when the text does not parse), with objects as lists of entries in document order, so
  that duplicate keys are visible. \<open>encoding/json\<close> fills struct fields by reflection: the decoder of a whole
  model is the parameter \<open>decode\<close> (its first argument is \<open>DisallowUnknownFields\<close>), the encoder is
  \<open>encode\<close>; the decoding of the one-field version probe is written out, with key matching up to ASCII case.
  \<open>fmt_time\<close> is \<open>time.Time.Format\<close> with RFC 3339.
\<close>

subsection \<open>Evidence records (evidence.go)\<close>

record EvidenceRecord =
  evr_Identity :: ResourceIdentity
  evr_SpecHash :: string
  evr_TxID :: string
  evr_PlanFingerprint :: string
  evr_HostIdentity :: string
  evr_MintedAt :: time

datatype store_error = BadSpecHash hash_error | BadClaim own_error | DuplicateEvidence nat string
  | Malformed | NoVersion | BadVersion int | UnsupportedVersion int | NotObject | DuplicateKey string
  | V1Evidence | DecodeFailed | Refused string | NewerVersion int | StateIO string | NotExist

definition stateEvidence :: "EvidenceRecord \<Rightarrow> (store_error, StateEvidence) result" where
  "stateEvidence e =
     (case ParseSpecHashHex (evr_SpecHash e) of
        Inl x \<Rightarrow> Inl (BadSpecHash x)
      | Inr spec \<Rightarrow>
          (let se = \<lparr>se_Identity = evr_Identity e, se_Spec = spec,
                     se_Ref = \<lparr>er_TxID = evr_TxID e, er_PlanFingerprint = evr_PlanFingerprint e,
                               er_HostIdentity = evr_HostIdentity e\<rparr>,
                     se_MintedAt = evr_MintedAt e\<rparr> in
           case state_evidence_error se of Some x \<Rightarrow> Inl (BadClaim x) | None \<Rightarrow> Inr se))"

fun class_string :: "ResourceClass \<Rightarrow> string" where
  "class_string ClassFile = ''file''"
| "class_string ClassSysctlDropIn = ''sysctl-drop-in''"
| "class_string ClassRouteRule = ''route-rule''"
| "class_string ClassRoute = ''route''"
| "class_string ClassFirewallChain = ''firewall-chain''"
| "class_string ClassFirewallRule = ''firewall-rule''"
| "class_string ClassMSSRule = ''mss-rule''"
| "class_string (ClassOther s) = s"

definition int_text :: "int \<Rightarrow> string" where
  "int_text i = (if i < 0 then CHR ''-'' # Itoa (nat (- i)) else Itoa (nat i))"

text \<open>\<open>fmt.Sprintf("%v", identity)\<close>: the fields in order, separated by blanks, in braces.\<close>

definition identity_text :: "ResourceIdentity \<Rightarrow> string" where
  "identity_text i =
     ''{'' @ JoinWith (CHR '' '') [class_string (ri_Class i), ri_Path i, Itoa (unat (ri_Table i)), int_text (ri_Priority i),
       ri_From i, ri_Destination i, ri_Chain i, ri_Tag i] @ ''}''"

definition deduplicationKey :: "(time \<Rightarrow> string) \<Rightarrow> EvidenceRecord \<Rightarrow> string" where
  "deduplicationKey fmt_time e =
     JoinWith (CHR 0x00) [identity_text (evr_Identity e), evr_SpecHash e, evr_TxID e, evr_PlanFingerprint e,
       evr_HostIdentity e, fmt_time (evr_MintedAt e)]"

fun evidence_loop :: "(time \<Rightarrow> string) \<Rightarrow> nat \<Rightarrow> string list \<Rightarrow> EvidenceRecord list \<Rightarrow> store_error option" where
  "evidence_loop fmt_time i seen [] = None"
| "evidence_loop fmt_time i seen (e # es) =
     (case stateEvidence e of
        Inl x \<Rightarrow> Some x
      | Inr _ \<Rightarrow>
          if deduplicationKey fmt_time e \<in> set seen then Some (DuplicateEvidence i (evr_TxID e))
          else evidence_loop fmt_time (Suc i) (deduplicationKey fmt_time e # seen) es)"

definition ValidateEvidenceRecords :: "(time \<Rightarrow> string) \<Rightarrow> EvidenceRecord Model \<Rightarrow> store_error option" where
  "ValidateEvidenceRecords fmt_time m = evidence_loop fmt_time 0 [] (m_Evidence m)"

fun EvidenceRecordsToClaims :: "EvidenceRecord list \<Rightarrow> (store_error, StateEvidence list) result" where
  "EvidenceRecordsToClaims [] = Inr []"
| "EvidenceRecordsToClaims (r # rs) =
     (case stateEvidence r of Inl e \<Rightarrow> Inl e
      | Inr c \<Rightarrow> (case EvidenceRecordsToClaims rs of Inl e \<Rightarrow> Inl e | Inr cs \<Rightarrow> Inr (c # cs)))"

subsection \<open>Documents (evidence.go)\<close>

datatype json = JNull | JBool bool | JInt int | JOtherNumber string | JStr string | JArr "json list"
  | JObj "(string \<times> json) list"

text \<open>The version probe: the last entry whose key matches up to case decides.\<close>

fun probe_fields :: "int option \<Rightarrow> (string \<times> json) list \<Rightarrow> (store_error, int option) result" where
  "probe_fields v [] = Inr v"
| "probe_fields v ((k, x) # kvs) =
     (if ToLower k = ''schema_version'' then
        (case x of JInt i \<Rightarrow> probe_fields (Some i) kvs | JNull \<Rightarrow> probe_fields None kvs | _ \<Rightarrow> Inl Malformed)
      else probe_fields v kvs)"

definition probe_version :: "json option \<Rightarrow> (store_error, int option) result" where
  "probe_version doc =
     (case doc of Some (JObj kvs) \<Rightarrow> probe_fields None kvs | Some JNull \<Rightarrow> Inr None | _ \<Rightarrow> Inl Malformed)"

definition probeSchemaVersion :: "json option \<Rightarrow> (store_error, int) result" where
  "probeSchemaVersion doc =
     (case probe_version doc of
        Inl e \<Rightarrow> Inl e
      | Inr None \<Rightarrow> Inl NoVersion
      | Inr (Some v) \<Rightarrow> if v < 1 then Inl (BadVersion v) else Inr v)"

text \<open>The walk over the tokens of a value: the first duplicate key of an object is an error.\<close>

fun skipJSONValue :: "json \<Rightarrow> store_error option"
  and skip_values :: "json list \<Rightarrow> store_error option"
  and rejectDuplicateKeysInObject :: "string list \<Rightarrow> (string \<times> json) list \<Rightarrow> store_error option" where
  "skipJSONValue (JObj kvs) = rejectDuplicateKeysInObject [] kvs"
| "skipJSONValue (JArr vs) = skip_values vs"
| "skipJSONValue _ = None"
| "skip_values [] = None"
| "skip_values (v # vs) = (case skipJSONValue v of Some e \<Rightarrow> Some e | None \<Rightarrow> skip_values vs)"
| "rejectDuplicateKeysInObject seen [] = None"
| "rejectDuplicateKeysInObject seen ((k, v) # kvs) =
     (if k \<in> set seen then Some (DuplicateKey k)
      else case skipJSONValue v of Some e \<Rightarrow> Some e | None \<Rightarrow> rejectDuplicateKeysInObject (k # seen) kvs)"

definition rejectDuplicateJSONKeys :: "json \<Rightarrow> store_error option" where
  "rejectDuplicateJSONKeys doc = (case doc of JObj kvs \<Rightarrow> rejectDuplicateKeysInObject [] kvs | _ \<Rightarrow> Some NotObject)"

fun key_present :: "string \<Rightarrow> (string \<times> json) list \<Rightarrow> (store_error, bool) result" where
  "key_present key [] = Inr False"
| "key_present key ((k, v) # kvs) =
     (if k = key then Inr True
      else case skipJSONValue v of Some e \<Rightarrow> Inl e | None \<Rightarrow> key_present key kvs)"

definition jsonKeyPresent :: "json \<Rightarrow> string \<Rightarrow> (store_error, bool) result" where
  "jsonKeyPresent doc key = (case doc of JObj kvs \<Rightarrow> key_present key kvs | _ \<Rightarrow> Inl NotObject)"

definition rejectV1Evidence :: "json \<Rightarrow> store_error option" where
  "rejectV1Evidence doc =
     (case jsonKeyPresent doc ''evidence'' of Inl e \<Rightarrow> Some e | Inr present \<Rightarrow> if present then Some V1Evidence else None)"

definition ParseState ::
  "(time \<Rightarrow> string) \<Rightarrow> (bool \<Rightarrow> json \<Rightarrow> EvidenceRecord Model option) \<Rightarrow> json option \<Rightarrow> (store_error, EvidenceRecord Model) result" where
  "ParseState fmt_time decode data =
     (case probeSchemaVersion data of
        Inl e \<Rightarrow> Inl e
      | Inr version \<Rightarrow>
          (case data of
             None \<Rightarrow> Inl Malformed
           | Some doc \<Rightarrow>
               if version = 1 then
                 (case rejectV1Evidence doc of
                    Some e \<Rightarrow> Inl e
                  | None \<Rightarrow>
                      (case decode False doc of None \<Rightarrow> Inl DecodeFailed
                       | Some m \<Rightarrow> Inr (m\<lparr>m_SchemaVersion := 1, m_Evidence := []\<rparr>)))
               else if version = 2 then
                 (case rejectDuplicateJSONKeys doc of
                    Some e \<Rightarrow> Inl e
                  | None \<Rightarrow>
                      (case decode True doc of None \<Rightarrow> Inl DecodeFailed
                       | Some m \<Rightarrow>
                           (case evidence_loop fmt_time 0 [] (m_Evidence m) of
                              Some e \<Rightarrow> Inl e
                            | None \<Rightarrow> Inr (m\<lparr>m_SchemaVersion := 2\<rparr>))))
               else Inl (UnsupportedVersion version)))"

subsection \<open>The state file (persist.go)\<close>

text \<open>
  The file: absent, unreadable (a directory, or no permission), or a text with its parse. Each file
  operation first consumes one entry of a fault list; a durable write can fail before the rename or after.
\<close>

datatype state_file = NoFile | Unreadable | Text "json option"

record SStore =
  sst_file :: state_file
  sst_faults :: "string option list"

type_synonym 'a sio = "SStore \<Rightarrow> (store_error + 'a) \<times> SStore"

definition sfault :: "SStore \<Rightarrow> store_error option \<times> SStore" where
  "sfault s =
     (case sst_faults s of [] \<Rightarrow> (None, s)
      | f # fl \<Rightarrow> (map_option StateIO f, s\<lparr>sst_faults := fl\<rparr>))"

definition sread :: "json option sio" where
  "sread s =
     (case sfault s of
        (Some e, s1) \<Rightarrow> (Inl e, s1)
      | (None, s1) \<Rightarrow>
          (case sst_file s1 of NoFile \<Rightarrow> (Inl NotExist, s1)
           | Unreadable \<Rightarrow> (Inl (StateIO ''unreadable''), s1) | Text t \<Rightarrow> (Inr t, s1)))"

definition swrite :: "json \<Rightarrow> unit sio" where
  "swrite doc s =
     (case sfault s of
        (Some e, s1) \<Rightarrow> (Inl e, s1)
      | (None, s1) \<Rightarrow>
          if sst_file s1 = Unreadable then (Inl (StateIO ''unwritable''), s1)
          else
            (case sfault (s1\<lparr>sst_file := Text (Some doc)\<rparr>) of
               (Some e, s2) \<Rightarrow> (Inl e, s2) | (None, s2) \<Rightarrow> (Inr (), s2)))"

definition existingStateVersion :: "int option sio" where
  "existingStateVersion s =
     (case sread s of
        (Inl NotExist, s1) \<Rightarrow> (Inr None, s1)
      | (Inl e, s1) \<Rightarrow> (Inl e, s1)
      | (Inr doc, s1) \<Rightarrow>
          (case probe_version doc of
             Inl e \<Rightarrow> (Inl e, s1) | Inr None \<Rightarrow> (Inl NoVersion, s1) | Inr (Some v) \<Rightarrow> (Inr (Some v), s1)))"

text \<open>The checks of \<open>SaveModel\<close> before it looks at the file.\<close>

definition save_refusal :: "(time \<Rightarrow> string) \<Rightarrow> EvidenceRecord Model \<Rightarrow> store_error option" where
  "save_refusal fmt_time m =
     (if m_SchemaVersion m \<noteq> SchemaVersion then Some (Refused ''schema version'')
      else if m_UpdatedAt m = 0 then Some (Refused ''no updated_at timestamp'')
      else if m_Status m \<noteq> StatusOK then Some (Refused ''non-verified state'')
      else case find con_Blocking (m_Constraints m) of
        Some c \<Rightarrow> Some (Refused (''blocking constraint '' @ con_Code c @ '': '' @ con_Message c))
      | None \<Rightarrow> ValidateEvidenceRecords fmt_time m)"

definition SaveModel :: "(time \<Rightarrow> string) \<Rightarrow> (EvidenceRecord Model \<Rightarrow> json) \<Rightarrow> EvidenceRecord Model \<Rightarrow> unit sio" where
  "SaveModel fmt_time encode m s =
     (case save_refusal fmt_time m of
        Some e \<Rightarrow> (Inl e, s)
      | None \<Rightarrow>
          (case existingStateVersion s of
             (Inl e, s1) \<Rightarrow> (Inl e, s1)
           | (Inr existing, s1) \<Rightarrow>
               (case existing of
                  Some v \<Rightarrow>
                    if SchemaVersion < v then (Inl (NewerVersion v), s1)
                    else if v \<noteq> 1 \<and> v \<noteq> 2 then (Inl (UnsupportedVersion v), s1)
                    else swrite (encode m) s1
                | None \<Rightarrow> swrite (encode m) s1)))"

definition LoadModel ::
  "(time \<Rightarrow> string) \<Rightarrow> (bool \<Rightarrow> json \<Rightarrow> EvidenceRecord Model option) \<Rightarrow> EvidenceRecord Model sio" where
  "LoadModel fmt_time decode s =
     (case sread s of (Inl e, s1) \<Rightarrow> (Inl e, s1) | (Inr doc, s1) \<Rightarrow> (ParseState fmt_time decode doc, s1))"

definition LoadModelIfPresent ::
  "(time \<Rightarrow> string) \<Rightarrow> (bool \<Rightarrow> json \<Rightarrow> EvidenceRecord Model option) \<Rightarrow> EvidenceRecord Model option sio" where
  "LoadModelIfPresent fmt_time decode s =
     (case LoadModel fmt_time decode s of
        (Inr m, s1) \<Rightarrow> (Inr (Some m), s1) | (Inl NotExist, s1) \<Rightarrow> (Inr None, s1) | (Inl e, s1) \<Rightarrow> (Inl e, s1))"


subsection \<open>Strict documents\<close>

text \<open>The reference notion: in every object of the document, at every depth, the keys are distinct.\<close>

fun keys_distinct :: "json \<Rightarrow> bool" where
  "keys_distinct (JObj kvs) \<longleftrightarrow> distinct (map fst kvs) \<and> (\<forall>(k, v) \<in> set kvs. keys_distinct v)"
| "keys_distinct (JArr vs) \<longleftrightarrow> (\<forall>v \<in> set vs. keys_distinct v)"
| "keys_distinct _ \<longleftrightarrow> True"

lemma duplicate_walk:
  "skipJSONValue v = None \<longleftrightarrow> keys_distinct v"
  "skip_values vs = None \<longleftrightarrow> (\<forall>v \<in> set vs. keys_distinct v)"
  "rejectDuplicateKeysInObject seen kvs = None \<longleftrightarrow>
     distinct (map fst kvs) \<and> set (map fst kvs) \<inter> set seen = {} \<and> (\<forall>(k, v) \<in> set kvs. keys_distinct v)"
proof (induction v and vs and seen kvs rule: skipJSONValue_skip_values_rejectDuplicateKeysInObject.induct)
  case (5 v vs)
  then show ?case by (cases "skipJSONValue v") auto
next
  case (7 seen k v kvs)
  then show ?case by (cases "skipJSONValue v") auto
qed auto

lemma evidence_loop_None:
  "evidence_loop fmt_time i seen es = None \<longleftrightarrow>
     (\<forall>e \<in> set es. \<exists>c. stateEvidence e = Inr c) \<and> distinct (map (deduplicationKey fmt_time) es)
     \<and> set (map (deduplicationKey fmt_time) es) \<inter> set seen = {}"
proof (induction es arbitrary: i seen)
  case (Cons e es)
  then show ?case by (cases "stateEvidence e") auto
qed simp

lemma key_present_False:
  "key_present key kvs = Inr False \<Longrightarrow> key \<notin> set (map fst kvs) \<and> list_all keys_distinct (map snd kvs)"
  by (induction key kvs rule: key_present.induct) (auto simp: duplicate_walk split: if_splits option.splits)


lemma save_model_effect:
  "sst_file (snd (SaveModel fmt_time encode m s)) = sst_file s
   \<or> sst_file (snd (SaveModel fmt_time encode m s)) = Text (Some (encode m))
     \<and> m_SchemaVersion m = 2 \<and> m_UpdatedAt m \<noteq> 0 \<and> m_Status m = StatusOK
     \<and> (\<forall>c \<in> set (m_Constraints m). \<not> con_Blocking c)
     \<and> (\<forall>e \<in> set (m_Evidence m). \<exists>c. stateEvidence e = Inr c)
     \<and> distinct (map (deduplicationKey fmt_time) (m_Evidence m))
     \<and> (sst_file s = NoFile \<or> (\<exists>doc v. sst_file s = Text doc \<and> probe_version doc = Inr (Some v) \<and> v \<in> {1, 2}))"
proof (cases "save_refusal fmt_time m")
  case None
  then have good: "m_SchemaVersion m = 2 \<and> m_UpdatedAt m \<noteq> 0 \<and> m_Status m = StatusOK
      \<and> (\<forall>c \<in> set (m_Constraints m). \<not> con_Blocking c)
      \<and> (\<forall>e \<in> set (m_Evidence m). \<exists>c. stateEvidence e = Inr c)
      \<and> distinct (map (deduplicationKey fmt_time) (m_Evidence m))"
    by (auto simp: save_refusal_def ValidateEvidenceRecords_def evidence_loop_None find_None_iff split: if_splits option.splits)
  obtain r s1 where ex: "existingStateVersion s = (r, s1)" by fastforce
  have s1: "sst_file s1 = sst_file s"
    using ex by (auto simp: existingStateVersion_def sread_def sfault_def
        split: list.splits option.splits state_file.splits sum.splits store_error.splits prod.splits)
  have w: "sst_file (snd (swrite d s1)) \<in> {sst_file s1, Text (Some d)}" for d
    by (auto simp: swrite_def sfault_def split: list.splits option.splits)
  have old: "sst_file s = NoFile \<or> (\<exists>doc v. sst_file s = Text doc \<and> probe_version doc = Inr (Some v) \<and> v \<in> {1, 2})"
    if "r = Inr None \<or> (\<exists>v. r = Inr (Some v) \<and> v \<in> {1, 2})"
    using ex that by (auto simp: existingStateVersion_def sread_def sfault_def
        split: list.splits option.splits state_file.splits sum.splits store_error.splits prod.splits)
  show ?thesis
  proof (cases "r = Inr None \<or> (\<exists>v. r = Inr (Some v) \<and> v \<in> {1, 2})")
    case True
    then have "SaveModel fmt_time encode m s = swrite (encode m) s1" using None ex by (auto simp: SaveModel_def)
    with w [of "encode m"] s1 good old [OF True] show ?thesis by auto
  next
    case False
    then have "snd (SaveModel fmt_time encode m s) = s1" using None ex
      by (auto simp: SaveModel_def split: sum.splits option.splits)
    with s1 show ?thesis by simp
  qed
qed (simp add: SaveModel_def)

text \<open>
  C18. The state file only ever records verified state. Whatever fails on the way, if \<open>SaveModel\<close> changes
  the file, it replaces it by the encoding of the given model, and the model has the current
  schema version, a timestamp, status OK, no blocking constraint and a well-formed evidence plane without
  repetitions, and the file it replaces is absent or a document of version 1 or 2: a newer document is never
  overwritten.
\<close>

theorem save_model_guard:
  assumes "sst_file (snd (SaveModel fmt_time encode m s)) \<noteq> sst_file s"
  shows "sst_file (snd (SaveModel fmt_time encode m s)) = Text (Some (encode m))
     \<and> m_SchemaVersion m = 2 \<and> m_UpdatedAt m \<noteq> 0 \<and> m_Status m = StatusOK
     \<and> (\<forall>c \<in> set (m_Constraints m). \<not> con_Blocking c)
     \<and> (\<forall>e \<in> set (m_Evidence m). \<exists>c. stateEvidence e = Inr c)
     \<and> distinct (map (deduplicationKey fmt_time) (m_Evidence m))
     \<and> (sst_file s = NoFile \<or> (\<exists>doc v. sst_file s = Text doc \<and> probe_version doc = Inr (Some v) \<and> v \<in> {1, 2}))"
  using save_model_effect [of fmt_time encode m s] assms by blast


subsection \<open>Concrete documents\<close>

definition ex_stored_model :: "EvidenceRecord list \<Rightarrow> EvidenceRecord Model" where
  "ex_stored_model ev =
     \<lparr>m_SchemaVersion = 2, m_BootstrapVersion = '''', m_UpdatedAt = 7, m_Profile = ''gateway'', m_Actual = ex_Actual,
      m_Desired = m_Desired (ex_model [] []), m_Ownership = Map.empty, m_Capabilities = m_Capabilities (ex_model [] []),
      m_Constraints = [], m_Diff = [], m_Status = StatusOK, m_Evidence = ev\<rparr>"

text \<open>
  The comment of \<open>rejectDuplicateJSONKeys\<close> says that last-write-wins must never decide authority-relevant
  content. The walk compares keys exactly, while the decoder matches them up to case: two spellings of one
  field pass the walk, and the version probe takes the last of two spellings.
\<close>

lemma case_variant_keys_pass:
  "rejectDuplicateJSONKeys (JObj [(''schema_version'', JInt 2), (''evidence'', JArr []), (''Evidence'', JArr [])]) = None
   \<and> probeSchemaVersion (Some (JObj [(''schema_version'', JInt 2), (''Schema_Version'', JInt 1)])) = Inr 1"
  by code_simp

text \<open>
  A version 1 document may repeat its members: they are read as \<open>encoding/json\<close> reads them, the last one
  standing, a key the strictness of version 2 refuses.
\<close>

lemma v1_members_may_repeat:
  assumes "decode False doc = Some m" and "doc = JObj [(''schema_version'', JInt 1), (''profile'', a), (''profile'', b)]"
    and "keys_distinct a" and "keys_distinct b"
  shows "ParseState fmt_time decode (Some doc) = Inr (m\<lparr>m_SchemaVersion := 1, m_Evidence := []\<rparr>)"
proof -
  have "skipJSONValue a = None" "skipJSONValue b = None" using assms(3,4) by (simp_all add: duplicate_walk)
  then have r: "rejectV1Evidence doc = None" by (simp add: rejectV1Evidence_def jsonKeyPresent_def assms(2))
  have "probe_fields None [(''schema_version'', JInt 1), (''profile'', a), (''profile'', b)] =
      probe_fields None [(''schema_version'', JInt 1)]"
    by (simp add: ToLower_def)
  moreover have "probeSchemaVersion (Some (JObj [(''schema_version'', JInt 1)])) = Inr 1" by code_simp
  ultimately have "probeSchemaVersion (Some doc) = Inr 1"
    by (simp add: probeSchemaVersion_def probe_version_def assms(2))
  with r assms(1) show ?thesis by (simp add: ParseState_def)
qed


theorem save_model_guard_witness:
  "sst_file (snd (SaveModel (\<lambda>_. '''') (\<lambda>_. JObj []) (ex_stored_model []) \<lparr>sst_file = NoFile, sst_faults = []\<rparr>)) = Text (Some (JObj []))
   \<and> m_Status (ex_stored_model []) = StatusOK"
proof -
  have "sst_file (snd (SaveModel (\<lambda>_. '''') (\<lambda>_. JObj []) (ex_stored_model []) \<lparr>sst_file = NoFile, sst_faults = []\<rparr>)) = Text (Some (JObj []))"
    by (simp add: SaveModel_def save_refusal_def ex_stored_model_def ValidateEvidenceRecords_def
        existingStateVersion_def sread_def swrite_def sfault_def)
  then show ?thesis
    using save_model_guard [of "\<lambda>_. ''''" "\<lambda>_. JObj []" "ex_stored_model []" "\<lparr>sst_file = NoFile, sst_faults = []\<rparr>"] by simp
qed

end
