(* ===== verification/Pipeline.thy ===== *)
theory Pipeline
  imports State_Plan State_Store
begin

text \<open>
  The read-only pipeline: \<open>pipeline.Assemble\<close> from a discovery result to the model, the plan and the
  preflight, with the inspection of files as a parameter, and the strict validation gate
  (\<open>internal/validate\<close>). The discovery result of \<open>State_Model\<close> is extended by the fields the
  gate reads. A nil ownership map of the persisted state is the empty map.
\<close>

subsection \<open>The discovery result (discovery/model.go)\<close>

record Observation =
  ob_Code :: string
  ob_Component :: string
  ob_Message :: string

record DiscoveryResult = DiscResult +
  dr_Hostname :: string
  dr_DiscoveryVersion :: string
  dr_MemoryTotalMB :: "64 word"
  dr_RootAvailableBytes :: "64 word"
  dr_Resolvers :: "string list"
  dr_DefaultRoutes :: nat
  dr_FirewallLayers :: "string list"
  dr_SSHInstalled :: bool
  dr_Conflicts :: "Observation list"
  dr_Unknowns :: "Observation list"

subsection \<open>Assembly (pipeline.go)\<close>

record Config =
  cfg_Desired :: "Desired option"
  cfg_Ownership :: "(string \<Rightarrow> OwnershipTag option) option"

record Options =
  opt_Root :: bool
  opt_State :: "EvidenceRecord Model option"
  opt_InspectFile :: "string \<Rightarrow> (string, FileActual) result"

record PipelineResult =
  res_Discovery :: DiscoveryResult
  res_Model :: "EvidenceRecord Model"
  res_Plan :: Plan
  res_Preflight :: Preflight
  res_OwnershipSource :: string

definition inspect_failed :: "string \<Rightarrow> string \<Rightarrow> Constraint" where
  "inspect_failed path err =
     \<lparr>con_Code = ''FILE_INSPECT_FAILED'', con_Component = ''file.'' @ path, con_Message = err, con_Blocking = True\<rparr>"

definition inspect_one :: "(string \<Rightarrow> (string, FileActual) result) \<Rightarrow> FileDesired \<Rightarrow> 'ev Model \<Rightarrow> 'ev Model" where
  "inspect_one inspect fd m =
     (case inspect (fd_Path fd) of
        Inl err \<Rightarrow> m\<lparr>m_Constraints := m_Constraints m @ [inspect_failed (fd_Path fd) err]\<rparr>
      | Inr fa \<Rightarrow> m\<lparr>m_Actual := (m_Actual m)\<lparr>act_Files := act_Files (m_Actual m) @ [fa]\<rparr>\<rparr>)"

definition inspect_files :: "(string \<Rightarrow> (string, FileActual) result) \<Rightarrow> 'ev Model \<Rightarrow> 'ev Model" where
  "inspect_files inspect m = fold (inspect_one inspect) (des_Files (m_Desired m)) m"

text \<open>The ownership map: declared in the configuration, or else taken from the persisted state.\<close>

definition ownership_source :: "Config \<Rightarrow> Options \<Rightarrow> (string \<Rightarrow> OwnershipTag option) \<times> string" where
  "ownership_source cfg opt =
     (case cfg_Ownership cfg of
        Some ow \<Rightarrow> (ow, ''config'')
      | None \<Rightarrow> (case opt_State opt of Some st \<Rightarrow> (m_Ownership st, ''state'') | None \<Rightarrow> (Map.empty, '''')))"

definition Assemble :: "(string \<Rightarrow> string) \<Rightarrow> DiscoveryResult \<Rightarrow> Config \<Rightarrow> Options \<Rightarrow> PipelineResult" where
  "Assemble sha r cfg opt =
     (let m0 = (FromDiscovery (DiscResult.truncate r) :: EvidenceRecord Model);
          m1 = (case cfg_Desired cfg of None \<Rightarrow> m0 | Some d \<Rightarrow> m0\<lparr>m_Desired := d\<rparr>);
          m2 = inspect_files (opt_InspectFile opt) m1;
          (ow, source) = ownership_source cfg opt;
          m3 = m2\<lparr>m_Ownership := ow\<rparr>;
          m4 = m3\<lparr>m_Diff := BuildDiff sha m3\<rparr>;
          p = BuildPlan m4 in
      \<lparr>res_Discovery = r, res_Model = m4, res_Plan = p, res_Preflight = BuildPreflightFor m4 p (opt_Root opt),
       res_OwnershipSource = source\<rparr>)"

definition Result_Ready :: "PipelineResult \<Rightarrow> bool" where
  "Result_Ready res \<longleftrightarrow> \<not> p_Blocked (res_Plan res) \<and> pf_Status (res_Preflight res) = PreflightReady"


subsection \<open>The validation gate (validate.go)\<close>

record Finding =
  fi_Component :: string
  fi_Status :: string
  fi_Detail :: string

record Report =
  rep_Host :: string
  rep_GeneratedAt :: time
  rep_DiscoveryVersion :: string
  rep_Status :: string
  rep_Findings :: "Finding list"
  rep_Conflicts :: "Observation list"
  rep_Unknowns :: "Observation list"

definition overall :: "Finding list \<Rightarrow> string" where
  "overall fs = (if \<exists>f \<in> set fs. fi_Status f = ''FAIL'' then ''FAIL'' else ''PASS'')"

definition rep_add :: "string \<times> bool \<times> string \<Rightarrow> Report \<Rightarrow> Report" where
  "rep_add = (\<lambda>(component, pass, detail) rep.
     let fs = rep_Findings rep @ [\<lparr>fi_Component = component, fi_Status = (if pass then ''PASS'' else ''FAIL''), fi_Detail = detail\<rparr>] in
     rep\<lparr>rep_Findings := fs, rep_Status := overall fs\<rparr>)"

fun ints_from :: "nat \<Rightarrow> int list \<Rightarrow> string" where
  "ints_from i [] = ''''"
| "ints_from i (p # ps) = (if 0 < i then '', '' else '''') @ int_text p @ ints_from (Suc i) ps"

definition intsSummary :: "int list \<Rightarrow> string" where
  "intsSummary ports = ints_from 0 ports"

fun join_from :: "nat \<Rightarrow> nat \<Rightarrow> string list \<Rightarrow> string" where
  "join_from limit i [] = ''''"
| "join_from limit i (s # ss) =
     (if i = limit then '', ...'' else (if 0 < i then '', '' else '''') @ s @ join_from limit (Suc i) ss)"

definition joinLimited :: "string list \<Rightarrow> nat \<Rightarrow> string" where
  "joinLimited items limit = join_from limit 0 items"

definition verdict :: "string \<Rightarrow> bool \<Rightarrow> string \<Rightarrow> string \<Rightarrow> string \<times> bool \<times> string" where
  "verdict component pass good bad = (component, pass, if pass then good else bad)"

definition base_findings :: "DiscoveryResult \<Rightarrow> (string \<times> bool \<times> string) list" where
  "base_findings r =
     [verdict ''DISCOVERY'' (dr_Conflicts r = []) ''no conflicts''
        (''discovery reported '' @ Itoa (length (dr_Conflicts r)) @ '' conflict(s)''),
      (if \<not> dr_SSHInstalled r then (''SSH'', False, ''sshd was not found'')
       else verdict ''SSH'' (dr_EffectivePorts r \<noteq> []) (''listening on '' @ intsSummary (dr_EffectivePorts r))
         ''no effective SSH listener discovered''),
      (case dr_PasswordAuthentication r of
         None \<Rightarrow> (''SSH-HARDENING'', False, ''password authentication state unknown; effective config must be provable'')
       | Some enabled \<Rightarrow> verdict ''SSH-HARDENING'' (\<not> enabled) ''password authentication disabled'' ''password authentication is enabled''),
      verdict ''NETWORK'' (dr_ExternalInterface r \<noteq> '''' \<and> dr_DefaultGateway r \<noteq> '''')
        (''external '' @ dr_ExternalInterface r @ '' via '' @ dr_DefaultGateway r) ''no external interface or default gateway'',
      verdict ''ROUTING'' (dr_DefaultRoutes r \<noteq> 0) (Itoa (dr_DefaultRoutes r) @ '' default route(s)'') ''no default route discovered'',
      verdict ''SYSTEMD'' (cap_Systemd (dr_Capabilities r)) ''systemd present'' ''systemd not available; managed units cannot be controlled'',
      verdict ''FIREWALL'' (dr_FirewallLayers r \<noteq> []) (''layers: '' @ joinLimited (dr_FirewallLayers r) 4)
        ''no supported firewall frontend detected'']"

definition gib :: "64 word" where
  "gib = 1073741824"

definition production_findings :: "DiscoveryResult \<Rightarrow> (string \<times> bool \<times> string) list" where
  "production_findings r =
     [verdict ''IPV4'' (dr_IPv4 r) ''IPv4 active'' ''IPv4 connectivity not discovered'',
      verdict ''DNS'' (dr_Resolvers r \<noteq> []) (joinLimited (dr_Resolvers r) 3) ''no DNS resolvers discovered'',
      verdict ''MEMORY'' (\<not> dr_MemoryTotalMB r < 1024) (int_text (sint (dr_MemoryTotalMB r)) @ '' MB total'')
        (int_text (sint (dr_MemoryTotalMB r)) @ '' MB total; production requires at least 1 GiB''),
      verdict ''DISK'' (\<not> dr_RootAvailableBytes r < gib) (int_text (sint (dr_RootAvailableBytes r div gib)) @ '' GiB available'')
        ''less than 1 GiB available on the root filesystem'',
      verdict ''STATE'' (dr_Unknowns r = []) ''no unknown areas''
        (Itoa (length (dr_Unknowns r)) @ '' undiscovered area(s); production requires a fully discovered machine'')]"

definition ValidateDiscovery :: "time \<Rightarrow> DiscoveryResult \<Rightarrow> bool \<Rightarrow> Report" where
  "ValidateDiscovery now r production =
     (let rep = fold rep_add (base_findings r @ (if production then production_findings r else []))
        \<lparr>rep_Host = dr_Hostname r, rep_GeneratedAt = now, rep_DiscoveryVersion = dr_DiscoveryVersion r, rep_Status = '''',
         rep_Findings = [], rep_Conflicts = dr_Conflicts r, rep_Unknowns = dr_Unknowns r\<rparr> in
      if rep_Status rep = '''' then rep\<lparr>rep_Status := overall (rep_Findings rep)\<rparr> else rep)"

subsection \<open>What the gate and the pipeline decide\<close>

lemma rep_add_status:
  "fs \<noteq> [] \<Longrightarrow> rep_Status (fold rep_add fs rep) = ''PASS''
     \<longleftrightarrow> (\<forall>f \<in> set (rep_Findings rep). fi_Status f \<noteq> ''FAIL'') \<and> (\<forall>(_, pass, _) \<in> set fs. pass)"
proof (induction fs arbitrary: rep)
  case (Cons f fs)
  obtain c p d where f: "f = (c, p, d)" by (cases f)
  show ?case
  proof (cases "fs = []")
    case True
    then show ?thesis by (auto simp: rep_add_def f Let_def overall_def)
  next
    case False
    with Cons show ?thesis by (auto simp: rep_add_def f Let_def)
  qed
qed simp

lemma validate_pass_base:
  "rep_Status (ValidateDiscovery now r production) = ''PASS'' \<longleftrightarrow>
     (\<forall>(_, pass, _) \<in> set (base_findings r @ (if production then production_findings r else [])). pass)"
proof -
  let ?fs = "base_findings r @ (if production then production_findings r else [])"
  let ?rep = "fold rep_add ?fs \<lparr>rep_Host = dr_Hostname r, rep_GeneratedAt = now, rep_DiscoveryVersion = dr_DiscoveryVersion r,
    rep_Status = '''', rep_Findings = [], rep_Conflicts = dr_Conflicts r, rep_Unknowns = dr_Unknowns r\<rparr>"
  have ne: "?fs \<noteq> []" by (simp add: base_findings_def)
  have "rep_Status (rep_add f x) \<noteq> ''''" for f x by (cases f) (simp add: rep_add_def Let_def overall_def)
  then have s: "fs \<noteq> [] \<Longrightarrow> rep_Status (fold rep_add fs x) \<noteq> ''''" for fs x
    by (induction fs rule: rev_induct) auto
  have "rep_Status ?rep \<noteq> ''''" by (rule s [OF ne])
  then have "ValidateDiscovery now r production = ?rep" by (simp add: ValidateDiscovery_def Let_def)
  then show ?thesis using rep_add_status [OF ne] by simp
qed


lemma inspect_files_constraints:
  "set (m_Constraints (fold (inspect_one inspect) fds m)) = set (m_Constraints m)
     \<union> {inspect_failed (fd_Path fd) e | fd e. fd \<in> set fds \<and> inspect (fd_Path fd) = Inl e}"
  by (induction fds arbitrary: m) (auto simp: inspect_one_def split: sum.splits)

lemma inspect_files_keep:
  "act_System (m_Actual (fold (inspect_one inspect) fds m)) = act_System (m_Actual m)"
  "act_Network (m_Actual (fold (inspect_one inspect) fds m)) = act_Network (m_Actual m)"
  "act_Security (m_Actual (fold (inspect_one inspect) fds m)) = act_Security (m_Actual m)"
  by (induction fds arbitrary: m) (simp_all add: inspect_one_def split: sum.splits)

text \<open>
  C20. The production gate passes exactly for a proven machine: no discovery conflict and no unknown area, an
  installed SSH daemon with an effective listener and password authentication provably disabled, an
  external interface with a default gateway and a default route, systemd, a firewall layer, IPv4, a
  resolver, and at least one GiB of memory and of free disk.
\<close>

theorem production_gate_exact:
  "rep_Status (ValidateDiscovery now r True) = ''PASS'' \<longleftrightarrow>
     dr_Conflicts r = [] \<and> dr_Unknowns r = [] \<and> dr_SSHInstalled r \<and> dr_EffectivePorts r \<noteq> []
     \<and> dr_PasswordAuthentication r = Some False \<and> dr_ExternalInterface r \<noteq> '''' \<and> dr_DefaultGateway r \<noteq> ''''
     \<and> dr_DefaultRoutes r \<noteq> 0 \<and> cap_Systemd (dr_Capabilities r) \<and> dr_FirewallLayers r \<noteq> []
     \<and> dr_IPv4 r \<and> dr_Resolvers r \<noteq> [] \<and> 1024 \<le> unat (dr_MemoryTotalMB r) \<and> 2 ^ 30 \<le> unat (dr_RootAvailableBytes r)"
proof -
  have m: "\<not> dr_MemoryTotalMB r < 1024 \<longleftrightarrow> 1024 \<le> unat (dr_MemoryTotalMB r)" by (simp add: word_less_nat_alt not_less)
  have d: "\<not> dr_RootAvailableBytes r < gib \<longleftrightarrow> 2 ^ 30 \<le> unat (dr_RootAvailableBytes r)"
    by (simp add: word_less_nat_alt not_less gib_def)
  show ?thesis
    unfolding validate_pass_base base_findings_def production_findings_def verdict_def m d
    by (cases "dr_PasswordAuthentication r"; cases "dr_SSHInstalled r") auto
qed

text \<open>
  The pipeline is ready only on a fully inspected machine. If the assembled result is ready, the run is
  privileged, every desired file was inspected without an error, the operating system, the external
  interface, the gateway and an SSH listener were discovered, and the plan is not blocked.
\<close>

lemma assemble_ready_inspected:
  assumes "Result_Ready (Assemble sha r cfg opt)"
  shows "opt_Root opt \<and> (\<forall>d fd. cfg_Desired cfg = Some d \<longrightarrow> fd \<in> set (des_Files d) \<longrightarrow> (\<exists>fa. opt_InspectFile opt (fd_Path fd) = Inr fa))
    \<and> dr_OSID r \<noteq> '''' \<and> dr_ExternalInterface r \<noteq> '''' \<and> dr_DefaultGateway r \<noteq> '''' \<and> dr_EffectivePorts r \<noteq> []
    \<and> \<not> p_Blocked (res_Plan (Assemble sha r cfg opt))"
proof -
  let ?res = "Assemble sha r cfg opt" and ?m0 = "FromDiscovery (DiscResult.truncate r) :: EvidenceRecord Model"
  let ?m1 = "case cfg_Desired cfg of None \<Rightarrow> ?m0 | Some d \<Rightarrow> ?m0\<lparr>m_Desired := d\<rparr>"
  let ?m2 = "inspect_files (opt_InspectFile opt) ?m1"

  have model: "res_Plan ?res = BuildPlan (res_Model ?res)" "res_Preflight ?res = BuildPreflightFor (res_Model ?res) (res_Plan ?res) (opt_Root opt)"
    "m_Constraints (res_Model ?res) = m_Constraints ?m2" "m_Actual (res_Model ?res) = m_Actual ?m2"
    by (simp_all add: Assemble_def Let_def split: prod.split)
  from assms have "pf_Status (res_Preflight ?res) = PreflightReady" and nb: "\<not> p_Blocked (res_Plan ?res)"
    by (simp_all add: Result_Ready_def)
  then have pf: "opt_Root opt" "sys_OS (act_System (m_Actual ?m2)) \<noteq> ''''"
    "net_ExternalInterface (act_Network (m_Actual ?m2)) \<noteq> ''''" "net_DefaultGateway (act_Network (m_Actual ?m2)) \<noteq> ''''"
    "sec_SSHPorts (act_Security (m_Actual ?m2)) \<noteq> []" "\<not> hasBlockingConstraints (res_Model ?res)"
    unfolding model(2) preflight_ready_iff model(4) by auto
  have actual: "act_System (m_Actual ?m2) = act_System (m_Actual ?m0)" "act_Network (m_Actual ?m2) = act_Network (m_Actual ?m0)"
    "act_Security (m_Actual ?m2) = act_Security (m_Actual ?m0)"
    unfolding inspect_files_def by (simp_all add: inspect_files_keep split: option.split)
  have "\<exists>fa. opt_InspectFile opt (fd_Path fd) = Inr fa" if "cfg_Desired cfg = Some d" "fd \<in> set (des_Files d)" for d fd
  proof (cases "opt_InspectFile opt (fd_Path fd)")
    case (Inl e)
    with that have "inspect_failed (fd_Path fd) e \<in> set (m_Constraints (res_Model ?res))"
      unfolding model(3) inspect_files_def inspect_files_constraints by auto
    with pf(6) show ?thesis by (auto simp: hasBlockingConstraints_def list_ex_iff inspect_failed_def)
  qed simp
  with pf nb show ?thesis unfolding actual by (auto simp: FromDiscovery_def DiscResult.truncate_def)
qed


subsection \<open>A concrete machine\<close>

definition ex_discovery :: DiscoveryResult where
  "ex_discovery =
     \<lparr>dr_Timestamp = 5, dr_OSID = ''debian'', dr_KernelRelease = ''6.1'', dr_KernelArchitecture = ''x86_64'',
      dr_MachineID = ''0123456789abcdef0123456789abcdef'', dr_MachineIDStatus = ''present'', dr_ExternalInterface = ''eth0'',
      dr_DefaultGateway = ''192.0.2.1'', dr_IPv4 = True, dr_IPv6 = False, dr_EffectivePorts = [22],
      dr_SSHArchitecture = ''service'', dr_PasswordAuthentication = Some False, dr_DockerInstalled = False,
      dr_DockerActive = False, dr_Gateway = act_Gateway ex_Actual, dr_Services = [],
      dr_Capabilities = \<lparr>cap_Systemd = True, cap_Docker = False, cap_NFTables = True, cap_IPTables = True,
        cap_UFW = False, cap_WireGuard = False\<rparr>,
      dr_Status = StatusOK, dr_Hostname = ''gw'', dr_DiscoveryVersion = ''1'', dr_MemoryTotalMB = 2048,
      dr_RootAvailableBytes = 4294967296, dr_Resolvers = [''192.0.2.53''], dr_DefaultRoutes = 1,
      dr_FirewallLayers = [''nftables''], dr_SSHInstalled = True, dr_Conflicts = [], dr_Unknowns = []\<rparr>"

definition ex_config :: Config where
  "ex_config = \<lparr>cfg_Desired = Some (empty_Desired\<lparr>des_Files := [\<lparr>fd_Path = ''/etc/vps-gateway/b'', fd_Content = ''on'', fd_Mode = 0\<rparr>]\<rparr>),
     cfg_Ownership = Some (\<lambda>_. Some Owned)\<rparr>"

definition ex_options :: Options where
  "ex_options = \<lparr>opt_Root = True, opt_State = None,
     opt_InspectFile = (\<lambda>p. Inr \<lparr>fa_Path = p, fa_Exists = True, fa_SHA256 = ''on'', fa_Mode = 384\<rparr>)\<rparr>"

lemma ex_ready: "Result_Ready (Assemble (\<lambda>c. c) ex_discovery ex_config ex_options)"
  unfolding Result_Ready_def
  by (simp add: Assemble_def ex_discovery_def ex_config_def ex_options_def FromDiscovery_def DiscResult.truncate_def
      inspect_files_def inspect_one_def ownership_source_def ex_model_eval servicesActual_def preflight_ready_iff
      capabilitiesForPlan_def capability_ok_def hasBlockingConstraints_def)

lemma assemble_ready_inspected_witness:
  "opt_Root ex_options \<and> \<not> p_Blocked (res_Plan (Assemble (\<lambda>c. c) ex_discovery ex_config ex_options))
   \<and> (\<exists>fa. opt_InspectFile ex_options ''/etc/vps-gateway/b'' = Inr fa)"
proof -
  note w = assemble_ready_inspected [OF ex_ready]
  have "\<exists>fa. opt_InspectFile ex_options (fd_Path \<lparr>fd_Path = ''/etc/vps-gateway/b'', fd_Content = ''on'', fd_Mode = 0\<rparr>) = Inr fa"
    using w by (auto simp: ex_config_def)
  with w show ?thesis by simp
qed

end
