(* ===== verification/Approval.thy ===== *)
theory Approval
  imports Capability State_Store
begin

text \<open>
  Operator approvals (\<open>internal/approval\<close>): the two signed payload schemas (\<open>approval.go\<close>, \<open>v2.go\<close>)
  and the pinned trust anchor (\<open>trustanchor.go\<close>). Ed25519 is the parameter \<open>crypto\<close>. \<open>encoding/json\<close>
  writes a struct in the order of its fields: the canonical bytes begin with the schema version, the rest of
  the object and the decoder are the parameters in \<open>codec\<close>. Bytes are characters. The public key is a byte
  list, as the anchor file spells it.
\<close>

subsection \<open>Payloads and artifacts\<close>

record Payload =
  ap_SchemaVersion :: int
  ap_PlanFingerprint :: string
  ap_HostIdentity :: string
  ap_ExpiresAt :: time
  ap_Capabilities :: "string list"

record PayloadV2 =
  a2_SchemaVersion :: int
  a2_Purpose :: string
  a2_PlanFingerprint :: string
  a2_HostIdentity :: string
  a2_ExpiresAt :: time
  a2_Capabilities :: "string list"

record Artifact =
  art_Payload :: string
  art_Signature :: string

record Crypto =
  ed_Verify :: "8 word list \<Rightarrow> string \<Rightarrow> string \<Rightarrow> bool"
  ed_Sign :: "string \<Rightarrow> string \<Rightarrow> string"

record 'p Codec =
  co_Fields :: "'p \<Rightarrow> string"
  co_Decode :: "string \<Rightarrow> 'p option"

record Verifier =
  ver_TrustAnchor :: "8 word list"
  ver_HostIdentity :: string
  ver_Now :: time

definition json_object :: "int \<Rightarrow> string \<Rightarrow> string" where
  "json_object version rest =
     [CHR 0x7B, CHR 0x22] @ ''schema_version'' @ [CHR 0x22] @ '':'' @ int_text version @ '','' @ rest @ [CHR 0x7D]"

definition Canonical :: "Payload Codec \<Rightarrow> Payload \<Rightarrow> string" where
  "Canonical codec p = json_object (ap_SchemaVersion p) (co_Fields codec p)"

definition CanonicalV2 :: "PayloadV2 Codec \<Rightarrow> PayloadV2 \<Rightarrow> string" where
  "CanonicalV2 codec p = json_object (a2_SchemaVersion p) (co_Fields codec p)"

definition SignPayload :: "Crypto \<Rightarrow> Payload Codec \<Rightarrow> Payload \<Rightarrow> string \<Rightarrow> (string, Artifact) result" where
  "SignPayload crypto codec p priv =
     (if length priv \<noteq> 64 then Inl ''invalid ed25519 private key''
      else let b = Canonical codec p in Inr \<lparr>art_Payload = b, art_Signature = ed_Sign crypto priv b\<rparr>)"

definition parseHostIdentity :: "string \<Rightarrow> (string, string) result" where
  "parseHostIdentity v =
     (if \<not> HasPrefix v HostIdentityPrefix then Inl ''host identity is not in the canonical namespace''
      else case Normalize (TrimPrefix v HostIdentityPrefix) of Inl _ \<Rightarrow> Inl ''malformed machine-id'' | Inr i \<Rightarrow> Inr i)"

subsection \<open>Version 1 (approval.go)\<close>

text \<open>The checks on the decoded payload, in order.\<close>

definition payload_refusal :: "Verifier \<Rightarrow> string \<Rightarrow> string \<Rightarrow> Payload \<Rightarrow> string option" where
  "payload_refusal v wantHost planFingerprint p =
     (if ap_SchemaVersion p \<noteq> 1 then Some ''approval payload schema version is unsupported''
      else if ap_PlanFingerprint p \<noteq> planFingerprint then Some ''approval does not bind this plan fingerprint''
      else if ap_HostIdentity p = '''' then Some ''approval does not bind a host identity''
      else case parseHostIdentity (ap_HostIdentity p) of
        Inl e \<Rightarrow> Some (''approval host identity is invalid: '' @ e)
      | Inr gotHost \<Rightarrow>
          if gotHost \<noteq> wantHost then Some ''approval binds a different host identity''
          else if \<not> ver_Now v < ap_ExpiresAt p then Some ''approval has expired''
          else None)"

definition Verify :: "Crypto \<Rightarrow> Payload Codec \<Rightarrow> Verifier \<Rightarrow> Artifact \<Rightarrow> string \<Rightarrow> string option" where
  "Verify crypto codec v a planFingerprint =
     (if length (ver_TrustAnchor v) \<noteq> 32 then Some ''trust anchor is not a valid ed25519 public key''
      else if ver_HostIdentity v = '''' then Some ''host identity is not configured''
      else case parseHostIdentity (ver_HostIdentity v) of
        Inl e \<Rightarrow> Some (''configured host identity is invalid: '' @ e)
      | Inr wantHost \<Rightarrow>
          if length (art_Signature a) \<noteq> 64 then Some ''approval signature has wrong size''
          else if \<not> ed_Verify crypto (ver_TrustAnchor v) (art_Payload a) (art_Signature a)
          then Some ''approval signature is invalid for the pinned trust anchor''
          else case co_Decode codec (art_Payload a) of
            None \<Rightarrow> Some ''approval payload is not valid JSON''
          | Some p \<Rightarrow>
              if Canonical codec p \<noteq> art_Payload a then Some ''approval payload is not in canonical form''
              else payload_refusal v wantHost planFingerprint p)"

subsection \<open>Version 2 (v2.go)\<close>

definition Purpose_Valid :: "string \<Rightarrow> bool" where
  "Purpose_Valid p \<longleftrightarrow> p = ''MUVG_INTEGRATION_V1'' \<or> p = ''SERVICE_EXPERIMENT_V1''"

fun grant_refusal :: "string option \<Rightarrow> string list \<Rightarrow> string option" where
  "grant_refusal prev [] = None"
| "grant_refusal prev (c # cs) =
     (case ParseCapability c of
        Inl _ \<Rightarrow> Some ''approval capability is invalid''
      | Inr _ \<Rightarrow>
          if (case prev of None \<Rightarrow> False | Some b \<Rightarrow> c \<le> b)
          then Some ''approval capabilities must be strictly ascending with no duplicates''
          else grant_refusal (Some c) cs)"

definition validateV2 :: "PayloadV2 \<Rightarrow> string option" where
  "validateV2 p =
     (if a2_SchemaVersion p \<noteq> 2 then Some ''approval payload schema version is unsupported''
      else if \<not> Purpose_Valid (a2_Purpose p) then Some ''approval purpose is not in the closed authority vocabulary''
      else if TrimSpace (a2_PlanFingerprint p) = '''' then Some ''approval does not bind a plan fingerprint''
      else case parseHostIdentity (a2_HostIdentity p) of
        Inl e \<Rightarrow> Some (''approval host identity: '' @ e)
      | Inr _ \<Rightarrow>
          if a2_ExpiresAt p = 0 then Some ''approval has no expiry''
          else if a2_Capabilities p = [] then Some ''approval grants no capabilities''
          else grant_refusal None (a2_Capabilities p))"

definition SignPayloadV2 :: "Crypto \<Rightarrow> PayloadV2 Codec \<Rightarrow> PayloadV2 \<Rightarrow> string \<Rightarrow> (string, Artifact) result" where
  "SignPayloadV2 crypto codec p priv =
     (if length priv \<noteq> 64 then Inl ''invalid ed25519 private key''
      else case validateV2 p of
        Some e \<Rightarrow> Inl e
      | None \<Rightarrow> (let b = CanonicalV2 codec p in Inr \<lparr>art_Payload = b, art_Signature = ed_Sign crypto priv b\<rparr>))"

definition payload_refusal_v2 :: "Verifier \<Rightarrow> string \<Rightarrow> string \<Rightarrow> string \<Rightarrow> PayloadV2 \<Rightarrow> string option" where
  "payload_refusal_v2 v wantHost planFingerprint purpose p =
     (case validateV2 p of
        Some e \<Rightarrow> Some (''approval payload is invalid: '' @ e)
      | None \<Rightarrow>
          if a2_Purpose p \<noteq> purpose then Some ''approval grants another purpose''
          else if a2_PlanFingerprint p \<noteq> planFingerprint then Some ''approval does not bind this plan fingerprint''
          else case parseHostIdentity (a2_HostIdentity p) of
            Inl e \<Rightarrow> Some (''approval host identity is invalid: '' @ e)
          | Inr gotHost \<Rightarrow>
              if gotHost \<noteq> wantHost then Some ''approval binds a different host identity''
              else if \<not> ver_Now v < a2_ExpiresAt p then Some ''approval has expired''
              else None)"

definition VerifyV2 ::
  "Crypto \<Rightarrow> PayloadV2 Codec \<Rightarrow> Verifier \<Rightarrow> Artifact \<Rightarrow> string \<Rightarrow> string \<Rightarrow> string option" where
  "VerifyV2 crypto codec v a planFingerprint purpose =
     (if length (ver_TrustAnchor v) \<noteq> 32 then Some ''trust anchor is not a valid ed25519 public key''
      else if ver_HostIdentity v = '''' then Some ''host identity is not configured''
      else case parseHostIdentity (ver_HostIdentity v) of
        Inl e \<Rightarrow> Some (''configured host identity is invalid: '' @ e)
      | Inr wantHost \<Rightarrow>
          if \<not> Purpose_Valid purpose then Some ''expected purpose is not in the closed authority vocabulary''
          else if length (art_Signature a) \<noteq> 64 then Some ''approval signature has wrong size''
          else if \<not> ed_Verify crypto (ver_TrustAnchor v) (art_Payload a) (art_Signature a)
          then Some ''approval signature is invalid for the pinned trust anchor''
          else case co_Decode codec (art_Payload a) of
            None \<Rightarrow> Some ''approval payload is not valid JSON''
          | Some p \<Rightarrow>
              if CanonicalV2 codec p \<noteq> art_Payload a then Some ''approval payload is not in canonical form''
              else payload_refusal_v2 v wantHost planFingerprint purpose p)"

fun parse_grant :: "string list \<Rightarrow> (cap_error, CapabilityID list) result" where
  "parse_grant [] = Inr []"
| "parse_grant (c # cs) =
     (case ParseCapability c of Inl e \<Rightarrow> Inl e
      | Inr i \<Rightarrow> (case parse_grant cs of Inl e \<Rightarrow> Inl e | Inr ids \<Rightarrow> Inr (i # ids)))"

definition GrantedCapabilities :: "PayloadV2 \<Rightarrow> (cap_error, CapabilitySet) result" where
  "GrantedCapabilities p = (case parse_grant (a2_Capabilities p) of Inl e \<Rightarrow> Inl e | Inr ids \<Rightarrow> NewCapabilitySet ids)"

subsection \<open>The trust anchor (trustanchor.go)\<close>

definition parseTrustAnchor :: "string \<Rightarrow> (string, 8 word list) result" where
  "parseTrustAnchor data =
     (let s = TrimSuffix (TrimSuffix data [CHR 0x0A]) [CHR 0x0D] in
      if s = '''' then Inl ''trust anchor is empty''
      else if length s \<noteq> 64 then Inl ''trust anchor must be exactly 64 hex characters''
      else if \<not> list_all is_lower_hex s then Inl ''trust anchor contains an invalid character''
      else case parse_hex_pairs 0 s of Inl _ \<Rightarrow> Inl ''trust anchor is not a valid 32-byte ed25519 public key''
        | Inr raw \<Rightarrow> if length raw \<noteq> 32 then Inl ''trust anchor is not a valid 32-byte ed25519 public key'' else Inr raw)"

text \<open>What \<open>Lstat\<close> and \<open>ReadFile\<close> report of the anchor file.\<close>

record AnchorFile =
  af_Regular :: bool
  af_Uid :: nat
  af_Gid :: nat
  af_Perm :: "32 word"
  af_Data :: "(string, string) result"

definition loadTrustAnchor :: "AnchorFile option \<Rightarrow> bool \<Rightarrow> (string, 8 word list) result" where
  "loadTrustAnchor file requireRootOwned =
     (case file of
        None \<Rightarrow> Inl ''no such file''
      | Some f \<Rightarrow>
          if \<not> af_Regular f then Inl ''not a regular file''
          else if requireRootOwned \<and> (af_Uid f \<noteq> 0 \<or> af_Gid f \<noteq> 0) then Inl ''must be owned by root:root''
          else if and (af_Perm f) 18 \<noteq> 0 then Inl ''must not be group- or other-writable''
          else case af_Data f of Inl e \<Rightarrow> Inl e | Inr data \<Rightarrow> parseTrustAnchor data)"

definition LoadTrustAnchor :: "AnchorFile option \<Rightarrow> (string, 8 word list) result" where
  "LoadTrustAnchor file = loadTrustAnchor file True"


subsection \<open>What an accepted approval binds\<close>

lemma VerifyV2_accepts:
  "VerifyV2 crypto codec v a fp purpose = None \<longleftrightarrow>
     length (ver_TrustAnchor v) = 32 \<and> ver_HostIdentity v \<noteq> '''' \<and> Purpose_Valid purpose \<and> length (art_Signature a) = 64
     \<and> ed_Verify crypto (ver_TrustAnchor v) (art_Payload a) (art_Signature a)
     \<and> (\<exists>p host. co_Decode codec (art_Payload a) = Some p \<and> art_Payload a = CanonicalV2 codec p \<and> validateV2 p = None
          \<and> a2_Purpose p = purpose \<and> a2_PlanFingerprint p = fp \<and> parseHostIdentity (a2_HostIdentity p) = Inr host
          \<and> parseHostIdentity (ver_HostIdentity v) = Inr host \<and> ver_Now v < a2_ExpiresAt p)"
  by (auto simp: VerifyV2_def payload_refusal_v2_def split: sum.split option.split)

lemma Verify_accepts:
  "Verify crypto codec v a fp = None \<longleftrightarrow>
     length (ver_TrustAnchor v) = 32 \<and> ver_HostIdentity v \<noteq> '''' \<and> length (art_Signature a) = 64
     \<and> ed_Verify crypto (ver_TrustAnchor v) (art_Payload a) (art_Signature a)
     \<and> (\<exists>p host. co_Decode codec (art_Payload a) = Some p \<and> art_Payload a = Canonical codec p \<and> ap_SchemaVersion p = 1
          \<and> ap_PlanFingerprint p = fp \<and> ap_HostIdentity p \<noteq> '''' \<and> parseHostIdentity (ap_HostIdentity p) = Inr host
          \<and> parseHostIdentity (ver_HostIdentity v) = Inr host \<and> ver_Now v < ap_ExpiresAt p)"
  by (auto simp: Verify_def payload_refusal_def split: sum.split option.split)

lemma int_text_1_2: "int_text 1 = ''1''" "int_text 2 = ''2''"
  by code_simp+

lemma domains_differ: "ap_SchemaVersion p1 = 1 \<Longrightarrow> a2_SchemaVersion p2 = 2 \<Longrightarrow> Canonical c1 p1 \<noteq> CanonicalV2 c2 p2"
  by (simp add: Canonical_def CanonicalV2_def json_object_def int_text_1_2)

text \<open>
  C21. An approval is accepted for one coordinate only. If the version 2 verifier accepts an artifact, every
  acceptance of the same artifact, by any verifier with the same decoder and key material, is for the
  same plan fingerprint, the same purpose and the same host, within the signed validity, and no version 1
  verifier accepts it.
\<close>

theorem approval_coordinate_unique:
  assumes "VerifyV2 crypto codec v a fp purpose = None"
  shows "(VerifyV2 crypto codec v' a fp' purpose' = None \<longrightarrow>
       fp' = fp \<and> purpose' = purpose \<and> parseHostIdentity (ver_HostIdentity v') = parseHostIdentity (ver_HostIdentity v)
       \<and> (\<exists>p. co_Decode codec (art_Payload a) = Some p \<and> ver_Now v < a2_ExpiresAt p \<and> ver_Now v' < a2_ExpiresAt p))
    \<and> Verify crypto1 codec1 v1 a fp1 \<noteq> None"
proof -
  from assms obtain p where p: "co_Decode codec (art_Payload a) = Some p" "art_Payload a = CanonicalV2 codec p" "validateV2 p = None"
    "a2_Purpose p = purpose" "a2_PlanFingerprint p = fp" "parseHostIdentity (a2_HostIdentity p) = parseHostIdentity (ver_HostIdentity v)"
    "ver_Now v < a2_ExpiresAt p"
    unfolding VerifyV2_accepts by auto
  have "a2_SchemaVersion p = 2" using p(3) by (auto simp: validateV2_def split: if_splits)
  with p(2) domains_differ have "Verify crypto1 codec1 v1 a fp1 \<noteq> None" unfolding Verify_accepts by metis
  moreover have "fp' = fp \<and> purpose' = purpose \<and> parseHostIdentity (ver_HostIdentity v') = parseHostIdentity (ver_HostIdentity v)
       \<and> ver_Now v' < a2_ExpiresAt p" if "VerifyV2 crypto codec v' a fp' purpose' = None"
    using that p unfolding VerifyV2_accepts by auto
  ultimately show ?thesis using p by blast
qed

text \<open>
  C22. What the operator signs, the verifier accepts. With an Ed25519 whose signatures verify under the
  matching key and a decoder that reads back the canonical bytes, a version 2 payload that the signing
  tool accepts yields an artifact that the verifier accepts for the signed plan, purpose and host until the
  signed expiry, and for nothing after it.
\<close>

theorem sign_verify_roundtrip:
  assumes "\<And>m. ed_Verify crypto key m (ed_Sign crypto priv m)" and "\<And>m. length (ed_Sign crypto priv m) = 64"
    and "co_Decode codec (CanonicalV2 codec p) = Some p" and "length key = 32"
    and "SignPayloadV2 crypto codec p priv = Inr a"
  shows "VerifyV2 crypto codec \<lparr>ver_TrustAnchor = key, ver_HostIdentity = a2_HostIdentity p, ver_Now = now\<rparr> a
      (a2_PlanFingerprint p) (a2_Purpose p) = None \<longleftrightarrow> now < a2_ExpiresAt p"
proof -
  from assms(5) have ok: "validateV2 p = None" and a: "a = \<lparr>art_Payload = CanonicalV2 codec p, art_Signature = ed_Sign crypto priv (CanonicalV2 codec p)\<rparr>"
    by (auto simp: SignPayloadV2_def Let_def split: if_splits option.splits)
  from ok have pv: "Purpose_Valid (a2_Purpose p)" and h: "\<exists>host. parseHostIdentity (a2_HostIdentity p) = Inr host"
    by (auto simp: validateV2_def split: if_splits sum.splits)
  then have ne: "a2_HostIdentity p \<noteq> ''''" by (auto simp: parseHostIdentity_def split: if_splits)
  show ?thesis using assms(1-4) ok pv h ne unfolding VerifyV2_accepts a by auto
qed

lemma parse_hex_pairs_total:
  "list_all is_lower_hex s \<Longrightarrow> \<exists>bs. parse_hex_pairs i s = Inr bs"
proof (induction i s rule: parse_hex_pairs.induct)
  case (1 i hi lo s)
  have hv: "\<exists>v. hex_val c = Some v" if "is_lower_hex c" for c
    using that by (auto simp: hex_val_def is_lower_hex_def is_digit_def Let_def)
  from 1(2) have "is_lower_hex hi" "is_lower_hex lo" by simp_all
  then obtain v w where "hex_val hi = Some v" "hex_val lo = Some w" using hv by metis
  with 1 show ?case by fastforce
qed auto

lemma lower_hex_Hex: "list_all is_lower_hex (Hex bs)"
proof -
  have "is_lower_hex (hex_digit b)" if "unat b < 16" for b
  proof -
    have "\<forall>n < 16. is_lower_hex (''0123456789abcdef'' ! n)" by code_simp
    with that show ?thesis by (simp add: hex_digit_def)
  qed
  then show ?thesis using nibble_bounds by (induction bs) auto
qed

text \<open>
  The anchor file has one spelling per key. A text is accepted as the key \<open>raw\<close> exactly when \<open>raw\<close> has 32
  bytes and the text is its lower-case hexadecimal form, followed by nothing, a line feed, a carriage return,
  or both.
\<close>

lemma trust_anchor_spelling:
  "parseTrustAnchor data = Inr raw \<longleftrightarrow>
     length raw = 32 \<and> data \<in> {Hex raw, Hex raw @ [CHR 0x0A], Hex raw @ [CHR 0x0D], Hex raw @ [CHR 0x0D, CHR 0x0A]}"
proof -
  have trim: "TrimSuffix t [c] = s \<longleftrightarrow> t = s @ [c] \<or> t = s \<and> (s = [] \<or> last s \<noteq> c)" for s t :: string and c
    by (cases t rule: rev_cases) (auto simp: TrimSuffix_def suffix_def)
  have hexlast: "last (Hex raw) \<noteq> CHR 0x0A \<and> last (Hex raw) \<noteq> CHR 0x0D" if "length raw = 32" for raw
  proof -
    from that have "Hex raw \<noteq> []" using length_Hex [of raw] by (metis length_0_conv mult_is_0 numeral_neq_zero zero_neq_numeral)
    then have "is_lower_hex (last (Hex raw))" using lower_hex_Hex [of raw] by (simp add: list_all_iff)
    then show ?thesis by (auto simp: is_lower_hex_def is_digit_def)
  qed
  have core: "(if s = '''' then Inl e1 else if length s \<noteq> 64 then Inl e2 else if \<not> list_all is_lower_hex s then Inl e3
      else case parse_hex_pairs 0 s of Inl _ \<Rightarrow> Inl e4 | Inr r \<Rightarrow> if length r \<noteq> 32 then Inl e4 else Inr r) = Inr raw
      \<longleftrightarrow> length raw = 32 \<and> s = Hex raw" for s :: string and e1 e2 e3 e4 :: string
  proof
    assume "(if s = '''' then Inl e1 else if length s \<noteq> 64 then Inl e2 else if \<not> list_all is_lower_hex s then Inl e3
      else case parse_hex_pairs 0 s of Inl _ \<Rightarrow> Inl e4 | Inr r \<Rightarrow> if length r \<noteq> 32 then Inl e4 else Inr r) = Inr raw"
    then have "length s = 64" "parse_hex_pairs 0 s = Inr raw" "length raw = 32" by (auto split: if_splits sum.splits)
    then show "length raw = 32 \<and> s = Hex raw" using Hex_parse_hex_pairs [of 0 s raw] by simp
  next
    assume r: "length raw = 32 \<and> s = Hex raw"
    then have "s \<noteq> ''''" "length s = 64" using length_Hex [of raw] by (auto simp del: length_Hex)
    with r show "(if s = '''' then Inl e1 else if length s \<noteq> 64 then Inl e2 else if \<not> list_all is_lower_hex s then Inl e3
      else case parse_hex_pairs 0 s of Inl _ \<Rightarrow> Inl e4 | Inr r \<Rightarrow> if length r \<noteq> 32 then Inl e4 else Inr r) = Inr raw"
      by (simp add: lower_hex_Hex parse_hex_pairs_Hex)
  qed
  have "parseTrustAnchor data = Inr raw \<longleftrightarrow>
      length raw = 32 \<and> TrimSuffix (TrimSuffix data [CHR 0x0A]) [CHR 0x0D] = Hex raw"
    unfolding parseTrustAnchor_def Let_def by (rule core)
  also have "\<dots> \<longleftrightarrow> length raw = 32 \<and> data \<in> {Hex raw, Hex raw @ [CHR 0x0A], Hex raw @ [CHR 0x0D], Hex raw @ [CHR 0x0D, CHR 0x0A]}"
    unfolding trim using hexlast by auto
  finally show ?thesis .
qed


subsection \<open>A concrete approval\<close>

definition ex_payload :: PayloadV2 where
  "ex_payload = \<lparr>a2_SchemaVersion = 2, a2_Purpose = ''SERVICE_EXPERIMENT_V1'', a2_PlanFingerprint = ''fp'',
     a2_HostIdentity = ex_host, a2_ExpiresAt = 10, a2_Capabilities = [fail2ban_capability]\<rparr>"

definition ex_crypto :: Crypto where
  "ex_crypto = \<lparr>ed_Verify = (\<lambda>k m s. s = take 64 (m @ replicate 64 CHR ''s'')), ed_Sign = (\<lambda>k m. take 64 (m @ replicate 64 CHR ''s''))\<rparr>"

definition ex_codec :: "PayloadV2 Codec" where
  "ex_codec = \<lparr>co_Fields = (\<lambda>_. ''rest''), co_Decode = (\<lambda>_. Some ex_payload)\<rparr>"

definition ex_artifact :: Artifact where
  "ex_artifact = \<lparr>art_Payload = CanonicalV2 ex_codec ex_payload, art_Signature = ed_Sign ex_crypto '''' (CanonicalV2 ex_codec ex_payload)\<rparr>"

lemma ex_payload_valid: "validateV2 ex_payload = None"
  by code_simp

lemma ex_signed: "SignPayloadV2 ex_crypto ex_codec ex_payload (replicate 64 CHR ''p'') = Inr ex_artifact"
  by (simp add: SignPayloadV2_def ex_payload_valid ex_artifact_def ex_crypto_def Let_def)

theorem sign_verify_roundtrip_witness:
  "VerifyV2 ex_crypto ex_codec \<lparr>ver_TrustAnchor = replicate 32 1, ver_HostIdentity = a2_HostIdentity ex_payload, ver_Now = 3\<rparr>
     ex_artifact (a2_PlanFingerprint ex_payload) (a2_Purpose ex_payload) = None"
proof -
  have 1: "ed_Verify ex_crypto (replicate 32 1) m (ed_Sign ex_crypto (replicate 64 CHR ''p'') m)" for m by (simp add: ex_crypto_def)
  have 2: "length (ed_Sign ex_crypto (replicate 64 CHR ''p'') m) = 64" for m by (simp add: ex_crypto_def)
  have 3: "co_Decode ex_codec (CanonicalV2 ex_codec ex_payload) = Some ex_payload" by (simp add: ex_codec_def)
  have 4: "length (replicate 32 (1 :: 8 word)) = 32" by simp
  have "3 < a2_ExpiresAt ex_payload" by (simp add: ex_payload_def)
  with sign_verify_roundtrip [OF 1 2 3 4 ex_signed, of 3] show ?thesis by simp
qed

lemma ex_accepted:
  "VerifyV2 ex_crypto ex_codec \<lparr>ver_TrustAnchor = replicate 32 1, ver_HostIdentity = ex_host, ver_Now = 3\<rparr>
     ex_artifact ''fp'' ''SERVICE_EXPERIMENT_V1'' = None"
proof -
  have "parseHostIdentity ex_host = Inr ''0123456789abcdef0123456789abcdef''" by code_simp
  moreover have "ex_host \<noteq> ''''" by (simp add: ex_host_def)
  ultimately show ?thesis using ex_payload_valid
    unfolding VerifyV2_accepts
    by (auto simp: Purpose_Valid_def ex_artifact_def ex_crypto_def ex_codec_def) (simp_all add: ex_payload_def)
qed

theorem approval_coordinate_unique_witness:
  "VerifyV2 ex_crypto ex_codec \<lparr>ver_TrustAnchor = replicate 32 1, ver_HostIdentity = ex_host, ver_Now = 4\<rparr> ex_artifact ''other'' ''SERVICE_EXPERIMENT_V1'' \<noteq> None
   \<and> Verify ex_crypto \<lparr>co_Fields = (\<lambda>_. ''rest''), co_Decode = (\<lambda>_. None)\<rparr> \<lparr>ver_TrustAnchor = replicate 32 1, ver_HostIdentity = ex_host, ver_Now = 4\<rparr> ex_artifact ''fp'' \<noteq> None"
  using approval_coordinate_unique [OF ex_accepted, of "\<lparr>ver_TrustAnchor = replicate 32 1, ver_HostIdentity = ex_host, ver_Now = 4\<rparr>" "''other''" "''SERVICE_EXPERIMENT_V1''"
      ex_crypto "\<lparr>co_Fields = (\<lambda>_. ''rest''), co_Decode = (\<lambda>_. None)\<rparr>" "\<lparr>ver_TrustAnchor = replicate 32 1, ver_HostIdentity = ex_host, ver_Now = 4\<rparr>" "''fp''"]
  by auto

end
