(* ===== verification/Evidence.thy ===== *)
theory Evidence
  imports Journal State_Store Apply_Engine
begin

text \<open>
  The evidence plane of the orchestrator (\<open>internal/orchestrate\<close>: \<open>evidence.go\<close>): the ownership claims a
  completed transaction mints, and their merge with the claims persisted before. \<open>sort.Slice\<close> orders
  the merged plane by class and path; where Go leaves the order of ties open, the model keeps it, and the
  theorems state the plane as a set.
\<close>

subsection \<open>Minting (evidence.go)\<close>

definition validateHostIdentity :: "string \<Rightarrow> string option" where
  "validateHostIdentity host =
     (if \<not> HasPrefix host HostIdentityPrefix then Some ''host identity must be in the canonical namespace''
      else case Normalize (TrimPrefix host HostIdentityPrefix) of Inl _ \<Rightarrow> Some ''malformed machine-id'' | Inr _ \<Rightarrow> None)"

definition path_identity :: "ResourceClass \<Rightarrow> string \<Rightarrow> ResourceIdentity" where
  "path_identity c path = \<lparr>ri_Class = c, ri_Path = path, ri_Table = 0, ri_Priority = 0, ri_From = '''',
     ri_Destination = '''', ri_Chain = '''', ri_Tag = ''''\<rparr>"

definition checked_identity :: "ResourceIdentity \<Rightarrow> (string, ResourceIdentity) result" where
  "checked_identity i = (case identity_error i of Some _ \<Rightarrow> Inl ''invalid resource identity'' | None \<Rightarrow> Inr i)"

definition fileResourceIdentity :: "string \<Rightarrow> (string, ResourceIdentity) result" where
  "fileResourceIdentity path =
     (if path = ProjectSysctlDropInPath then checked_identity (path_identity ClassSysctlDropIn path)
      else if \<not> HasPrefix path ProjectFileNamespace then Inl ''path is outside the compiled file-class confinement''
      else checked_identity (path_identity ClassFile path))"

definition identityKey :: "EvidenceRecord \<Rightarrow> string" where
  "identityKey e = class_string (ri_Class (evr_Identity e)) @ CHR 0x00 # ri_Path (evr_Identity e)"

text \<open>The map from action ids to journal actions: the last entry of an id wins.\<close>

definition journal_action :: "JournalRecord \<Rightarrow> string \<Rightarrow> ActionRecord option" where
  "journal_action rec i = map_of (rev (map (\<lambda>a. (jar_ID a, a)) (jr_Actions rec))) i"

definition file_spec :: "Action \<Rightarrow> FileActionSpec option" where
  "file_spec a = (case a_Spec a of None \<Rightarrow> None | Some s \<Rightarrow> asp_File s)"

definition minted_record :: "JournalRecord \<Rightarrow> ActionRecord \<Rightarrow> ResourceIdentity \<Rightarrow> EvidenceRecord" where
  "minted_record rec jr i =
     \<lparr>evr_Identity = i, evr_SpecHash = jar_SpecHash jr, evr_TxID = jr_TransactionID rec,
      evr_PlanFingerprint = jr_PlanFingerprint rec, evr_HostIdentity = jr_HostIdentity rec, evr_MintedAt = jr_StartedAt rec\<rparr>"

text \<open>One round of the loop over the plan's actions: an error, nothing to mint, or a claim.\<close>

definition mint_action :: "JournalRecord \<Rightarrow> Action \<Rightarrow> (string, EvidenceRecord option) result" where
  "mint_action rec a =
     (if a_Kind a \<noteq> ActionCreateFile \<and> a_Kind a \<noteq> ActionUpdateFile then Inr None
      else case journal_action rec (a_ID a) of
        None \<Rightarrow> Inl (''action '' @ a_ID a @ '' has no journal record'')
      | Some jr \<Rightarrow>
          if jar_Status jr \<noteq> ''APPLIED'' then Inr None
          else case file_spec a of
            None \<Rightarrow> Inl (''action '' @ a_ID a @ '' is a file action without a typed file spec'')
          | Some f \<Rightarrow>
              (case ParseSpecHashHex (jar_SpecHash jr) of
                 Inl _ \<Rightarrow> Inl (''action '' @ a_ID a @ '' spec hash'')
               | Inr _ \<Rightarrow>
                   (case fileResourceIdentity (fas_Path f) of
                      Inl _ \<Rightarrow> Inr None
                    | Inr i \<Rightarrow> Inr (Some (minted_record rec jr i)))))"

fun mint_loop :: "JournalRecord \<Rightarrow> Action list \<Rightarrow> (string, EvidenceRecord list) result" where
  "mint_loop rec [] = Inr []"
| "mint_loop rec (a # as) =
     (case mint_action rec a of
        Inl e \<Rightarrow> Inl e
      | Inr c \<Rightarrow> (case mint_loop rec as of Inl e \<Rightarrow> Inl e
                  | Inr ms \<Rightarrow> Inr ((case c of None \<Rightarrow> [] | Some m \<Rightarrow> [m]) @ ms)))"

fun claims_checked :: "nat \<Rightarrow> EvidenceRecord list \<Rightarrow> string option" where
  "claims_checked i [] = None"
| "claims_checked i (m # ms) =
     (case stateEvidence m of Inl _ \<Rightarrow> Some (''minted evidence '' @ Itoa i) | Inr _ \<Rightarrow> claims_checked (Suc i) ms)"

definition evidence_order :: "EvidenceRecord \<Rightarrow> string list" where
  "evidence_order e = [class_string (ri_Class (evr_Identity e)), ri_Path (evr_Identity e)]"

definition mergeEvidence :: "EvidenceRecord list \<Rightarrow> EvidenceRecord list \<Rightarrow> EvidenceRecord list" where
  "mergeEvidence prior minted =
     (if minted = [] then prior
      else sort_key evidence_order
             (filter (\<lambda>p. identityKey p \<notin> set (map identityKey minted)) prior @ minted))"

record mintOutcome =
  mo_Minted :: "EvidenceRecord list"
  mo_Merged :: "EvidenceRecord list"

definition MintTransactionEvidence ::
  "JournalRecord option \<Rightarrow> Plan \<Rightarrow> EvidenceRecord list \<Rightarrow> (string, mintOutcome) result" where
  "MintTransactionEvidence recp plan prior =
     (case recp of
        None \<Rightarrow> Inl ''evidence minting requires a journal record''
      | Some rec \<Rightarrow>
          if jr_Outcome rec \<noteq> ''COMPLETED'' \<or> jr_RecoveryRequired rec
          then Inl ''evidence minting requires a terminal COMPLETED, non-latched journal record''
          else if jr_HostIdentity rec = '''' then Inr \<lparr>mo_Minted = [], mo_Merged = prior\<rparr>
          else case validateHostIdentity (jr_HostIdentity rec) of
            Some e \<Rightarrow> Inl (''journal host identity: '' @ e)
          | None \<Rightarrow>
              (case mint_loop rec (p_Actions plan) of
                 Inl e \<Rightarrow> Inl e
               | Inr minted \<Rightarrow>
                   (case claims_checked 0 minted of
                      Some e \<Rightarrow> Inl e
                    | None \<Rightarrow> Inr \<lparr>mo_Minted = minted, mo_Merged = mergeEvidence prior minted\<rparr>)))"

subsection \<open>What is minted\<close>

lemma mint_loop_Inr:
  "mint_loop rec as = Inr ms \<Longrightarrow>
     (\<forall>a \<in> set as. \<exists>c. mint_action rec a = Inr c) \<and>
     ms = concat (map (\<lambda>a. case mint_action rec a of Inr (Some m) \<Rightarrow> [m] | _ \<Rightarrow> []) as)"
  by (induction as arbitrary: ms) (auto split: sum.splits option.splits)

lemma claims_checked_None: "claims_checked i ms = None \<longleftrightarrow> (\<forall>m \<in> set ms. \<exists>c. stateEvidence m = Inr c)"
  by (induction ms arbitrary: i) (auto split: sum.splits)

lemma mint_action_Some:
  assumes "mint_action rec a = Inr (Some m)"
  obtains jr f i where "a_Kind a = ActionCreateFile \<or> a_Kind a = ActionUpdateFile" "journal_action rec (a_ID a) = Some jr"
    "jar_Status jr = ''APPLIED''" "file_spec a = Some f" "fileResourceIdentity (fas_Path f) = Inr i" "m = minted_record rec jr i"
  using assms by (auto simp: mint_action_def split: if_splits option.splits sum.splits)

lemma journal_action_mem: "journal_action rec i = Some a \<Longrightarrow> a \<in> set (jr_Actions rec) \<and> jar_ID a = i"
  using map_of_SomeD [of "rev (map (\<lambda>a. (jar_ID a, a)) (jr_Actions rec))" i a] by (auto simp: journal_action_def)

lemma identity_path: "fileResourceIdentity path = Inr i \<Longrightarrow> ri_Path i = path \<and> ri_Class i \<in> {ClassFile, ClassSysctlDropIn}
    \<and> identity_error i = None"
  by (auto simp: fileResourceIdentity_def checked_identity_def path_identity_def split: if_splits option.splits)

text \<open>
  C23. Minted evidence states what the journal proves. Minting only succeeds on a completed record without a
  latch. Every claim it mints is a well-formed claim for the path of a file action of the plan whose
  journal entry is APPLIED, with the specification hash, transaction, plan fingerprint, host and start time
  of the journal record. The merged plane consists of the minted claims and of the prior claims for other
  identities, unless nothing was minted.
\<close>

theorem minted_evidence_sound:
  assumes "MintTransactionEvidence (Some rec) plan prior = Inr out"
  shows "jr_Outcome rec = ''COMPLETED'' \<and> \<not> jr_RecoveryRequired rec
    \<and> (\<forall>m \<in> set (mo_Minted out). \<exists>a \<in> set (p_Actions plan). \<exists>jr \<in> set (jr_Actions rec). \<exists>f.
          jar_ID jr = a_ID a \<and> jar_Status jr = ''APPLIED'' \<and> file_spec a = Some f \<and> ri_Path (evr_Identity m) = fas_Path f
          \<and> evr_SpecHash m = jar_SpecHash jr \<and> evr_TxID m = jr_TransactionID rec
          \<and> evr_PlanFingerprint m = jr_PlanFingerprint rec \<and> evr_HostIdentity m = jr_HostIdentity rec
          \<and> evr_MintedAt m = jr_StartedAt rec \<and> (\<exists>c. stateEvidence m = Inr c))
    \<and> (if mo_Minted out = [] then mo_Merged out = prior
       else set (mo_Merged out) = set (mo_Minted out) \<union> {p \<in> set prior. identityKey p \<notin> identityKey ` set (mo_Minted out)})"
proof -
  from assms have dn: "jr_Outcome rec = ''COMPLETED''" "\<not> jr_RecoveryRequired rec"
    by (auto simp: MintTransactionEvidence_def split: if_splits)
  show ?thesis
  proof (cases "jr_HostIdentity rec = ''''")
    case True
    with assms dn show ?thesis by (auto simp: MintTransactionEvidence_def)
  next
    case False
    with assms dn have m: "mint_loop rec (p_Actions plan) = Inr (mo_Minted out)" and c: "claims_checked 0 (mo_Minted out) = None"
      and out: "mo_Merged out = mergeEvidence prior (mo_Minted out)"
      by (auto simp: MintTransactionEvidence_def split: option.splits sum.splits)
    have "\<exists>a \<in> set (p_Actions plan). \<exists>jr \<in> set (jr_Actions rec). \<exists>f.
          jar_ID jr = a_ID a \<and> jar_Status jr = ''APPLIED'' \<and> file_spec a = Some f \<and> ri_Path (evr_Identity m) = fas_Path f
          \<and> evr_SpecHash m = jar_SpecHash jr \<and> evr_TxID m = jr_TransactionID rec
          \<and> evr_PlanFingerprint m = jr_PlanFingerprint rec \<and> evr_HostIdentity m = jr_HostIdentity rec
          \<and> evr_MintedAt m = jr_StartedAt rec \<and> (\<exists>c. stateEvidence m = Inr c)"
      if mm: "m \<in> set (mo_Minted out)" for m
    proof -
      from m mm obtain a where a: "a \<in> set (p_Actions plan)" "mint_action rec a = Inr (Some m)"
        by (auto dest!: mint_loop_Inr split: sum.splits option.splits)
      from a(2) obtain jr f i where "journal_action rec (a_ID a) = Some jr" "jar_Status jr = ''APPLIED''" "file_spec a = Some f"
        "fileResourceIdentity (fas_Path f) = Inr i" "m = minted_record rec jr i" by (rule mint_action_Some)
      then show ?thesis using a(1) c mm journal_action_mem [of rec "a_ID a" jr] identity_path [of "fas_Path f" i]
        unfolding claims_checked_None
        by (intro bexI [of _ a] bexI [of _ jr] exI [of _ f]) (auto simp: minted_record_def)
    qed
    moreover have "if mo_Minted out = [] then mo_Merged out = prior
       else set (mo_Merged out) = set (mo_Minted out) \<union> {p \<in> set prior. identityKey p \<notin> identityKey ` set (mo_Minted out)}"
      unfolding out by (auto simp: mergeEvidence_def)
    ultimately show ?thesis using dn by blast
  qed
qed


subsection \<open>A minted claim\<close>

definition ex_mint_plan :: Plan where
  "ex_mint_plan =
     \<lparr>p_SchemaVersion = 1, p_Profile = ''gateway'', p_Actions = [ex_action\<lparr>a_ID := ''a1'', a_Spec := Some (empty_ActionSpec\<lparr>asp_File :=
        Some \<lparr>fas_Path = ''/etc/vps-gateway/x.conf'', fas_Content = ''x'', fas_Mode = 384, fas_Delete = False, fas_ValidatePath = ''''\<rparr>\<rparr>)\<rparr>],
      p_Blocked = False, p_BlockReasons = [], p_Capabilities = []\<rparr>"

definition ex_minted :: EvidenceRecord where
  "ex_minted = minted_record (jex_record ''COMPLETED'' False) (jex_action '''') ex_identity"

lemma ex_mint:
  "MintTransactionEvidence (Some (jex_record ''COMPLETED'' False)) ex_mint_plan []
   = Inr \<lparr>mo_Minted = [ex_minted], mo_Merged = [ex_minted]\<rparr>"
proof -
  let ?r = "jex_record ''COMPLETED'' False"
  have host: "validateHostIdentity ex_host = None" by code_simp
  have i: "fileResourceIdentity ''/etc/vps-gateway/x.conf'' = Inr ex_identity" by code_simp
  have v: "state_evidence_error (ex_claim\<lparr>se_MintedAt := 4\<rparr>) = None" by code_simp
  have c: "stateEvidence ex_minted = Inr (ex_claim\<lparr>se_MintedAt := 4\<rparr>)"
    using v by (simp add: stateEvidence_def ex_minted_def minted_record_def jex_record_def jex_action_def ex_ParseSpecHash ex_claim_def)
  have "mint_loop ?r (p_Actions ex_mint_plan) = Inr [ex_minted]"
    using i by (simp add: ex_mint_plan_def mint_action_def ex_action_def journal_action_def jex_record_def jex_action_def
        file_spec_def ex_ParseSpecHash ex_minted_def)
  then show ?thesis
    using host c by (simp add: MintTransactionEvidence_def mergeEvidence_def jex_record_def ex_host_def)
qed

theorem minted_evidence_sound_witness:
  "jr_Outcome (jex_record ''COMPLETED'' False) = ''COMPLETED'' \<and> evr_TxID ex_minted = ''tx-1''"
  using minted_evidence_sound [OF ex_mint] by (auto simp: jex_record_def)

end
