(* ===== verification/Orchestrate.thy ===== *)
theory Orchestrate
  imports Executors Pipeline Approval Evidence
begin

text \<open>
  The apply lifecycle (\<open>internal/orchestrate/orchestrate.go\<close>): \<open>Prepare\<close>, the confirmation boundary and
  \<open>Execute\<close> with its gates, the journaled engine run, the post-apply checks, the terminal journal record and
  the persistence of state and evidence. The world is an arbitrary machine, which discovery, preflight
  checks, the lock and the executors read or change, beside the journal, the state file and the journal
  record the run has opened (in Go a pointer that the progress sink and the finalizers share). An executor
  object gives its bound form for a transaction context and an action map. Files are inspected on the
  machine, as without a test inspector. The optional report-only
  service observation is off, as in the production default. \<open>rec.UpdatedAt\<close> is set anew by every write
  and not kept in the open record.
\<close>

subsection \<open>The world and its parts\<close>

record 'm OWorld =
  ow_Machine :: 'm
  ow_Journal :: JStore
  ow_State :: SStore
  ow_Record :: "JournalRecord option"

type_synonym 'm ostep = "'m OWorld \<Rightarrow> string option \<times> 'm OWorld"

text \<open>
  An executor with its optional interfaces: \<open>ReadOnlyExecutor\<close>, \<open>PreflightChecker\<close>, and the two binders.
\<close>

record 'm ExecutorObject =
  eo_ReadOnly :: bool
  eo_Preflight :: "(Action \<Rightarrow> 'm step) option"
  eo_Bound :: "(string \<times> string) option \<Rightarrow> (string \<Rightarrow> Action option) \<Rightarrow> 'm Executor"

text \<open>Functions of code outside the model: hashes, signatures, codecs, error texts.\<close>

record External =
  xt_Fingerprint :: "Plan \<Rightarrow> string"
  xt_Sha :: "string \<Rightarrow> string"
  xt_Digest :: "string \<Rightarrow> ActionKind \<Rightarrow> ActionSpec \<Rightarrow> SpecHash"
  xt_Crypto :: Crypto
  xt_Codec :: "Payload Codec"
  xt_FormatTime :: "time \<Rightarrow> string"
  xt_Encode :: "EvidenceRecord Model \<Rightarrow> json"
  xt_CapError :: "cap_error \<Rightarrow> string"
  xt_JournalError :: "journal_error \<Rightarrow> string"

record 'm Orchestrator =
  orc_Discover :: "'m \<Rightarrow> DiscoveryResult \<times> 'm"
  orc_ByKind :: "ActionKind \<Rightarrow> 'm ExecutorObject option"
  orc_InspectFile :: "'m \<Rightarrow> string \<Rightarrow> (string, FileActual) result"
  orc_Acquire :: "'m step"
  orc_Release :: "'m \<Rightarrow> 'm"
  orc_Now :: "'m \<Rightarrow> time"
  orc_NewTransactionID :: "'m \<Rightarrow> string"
  orc_HostIdentity :: "('m \<Rightarrow> (string, string) result) option"
  orc_Verifier :: "Verifier option"
  orc_Derive :: "(Plan \<Rightarrow> (cap_error, CapabilitySet) result) option"
  orc_HasJournal :: bool

record OPlan =
  op_Model :: "EvidenceRecord Model"
  op_Plan :: Plan
  op_Preflight :: Preflight
  op_Config :: Config
  op_Ready :: bool
  op_Blockers :: "string list"
  op_Options :: Options
  op_Prepared :: bool

record Confirmation =
  cf_PlanFingerprint :: string
  cf_ApprovedBy :: string
  cf_At :: time
  cf_Approval :: "Artifact option"

record ProbeResult =
  pr_Port :: int
  pr_Reachable :: bool

datatype Stage = StageNone | StageBlocked | StageFailedTransaction | StageFailedRediscovery
  | StageFailedFinalValidation | StageFailedPersist | StageCompleted

fun stage_string :: "Stage \<Rightarrow> string" where
  "stage_string StageNone = ''''"
| "stage_string StageBlocked = ''BLOCKED_PRE_MUTATION''"
| "stage_string StageFailedTransaction = ''FAILED_TRANSACTION''"
| "stage_string StageFailedRediscovery = ''FAILED_REDISCOVERY''"
| "stage_string StageFailedFinalValidation = ''FAILED_FINAL_VALIDATION''"
| "stage_string StageFailedPersist = ''FAILED_PERSIST''"
| "stage_string StageCompleted = ''COMPLETED''"

datatype blocker = BText string | BReasons "block_reason list" | BSpecs "(nat \<times> string \<times> typed_spec_error) list"
  | BCapability cap_error | BGrant GrantVerification | BMissing "ActionKind list" | BConfirmation string
  | BJournal journal_error | BRecovery string | BIncomplete string | BDiff DiffItem | BStatus StateStatus | BStore store_error

record Outcome =
  out_Stage :: Stage
  out_Blockers :: "blocker list"
  out_Transaction :: "Transaction option"
  out_ReDiscovery :: "DiscoveryResult option"
  out_FinalValidate :: "Report option"
  out_Persisted :: bool

definition no_outcome :: Outcome where
  "no_outcome = \<lparr>out_Stage = StageNone, out_Blockers = [], out_Transaction = None, out_ReDiscovery = None,
     out_FinalValidate = None, out_Persisted = False\<rparr>"

definition fail_at :: "Stage \<Rightarrow> blocker list \<Rightarrow> Outcome \<Rightarrow> Outcome" where
  "fail_at st bs out = out\<lparr>out_Stage := st, out_Blockers := out_Blockers out @ bs\<rparr>"

subsection \<open>Classification and pre-mutation checks\<close>

definition planHasMutation :: "'m Orchestrator \<Rightarrow> Plan \<Rightarrow> bool" where
  "planHasMutation orc p =
     list_ex (\<lambda>a. case orc_ByKind orc (a_Kind a) of None \<Rightarrow> True | Some ex \<Rightarrow> \<not> eo_ReadOnly ex) (p_Actions p)"

definition registered :: "'m Orchestrator \<Rightarrow> ActionKind \<Rightarrow> bool" where
  "registered orc k \<longleftrightarrow> orc_ByKind orc k \<noteq> None"

definition coverageReason :: "ActionKind list \<Rightarrow> string" where
  "coverageReason missing =
     (case missing of
        [] \<Rightarrow> ''all planned action kinds have registered executors''
      | k # ks \<Rightarrow> ''no executor registered for action kind(s) '' @ kind_string k
                   @ concat (map (\<lambda>j. '', '' @ kind_string j) ks))"

definition preflight_one :: "'m Orchestrator \<Rightarrow> Action \<Rightarrow> string list \<times> 'm \<Rightarrow> string list \<times> 'm" where
  "preflight_one orc a = (\<lambda>(bs, m).
     case orc_ByKind orc (a_Kind a) of
       None \<Rightarrow> (bs, m)
     | Some ex \<Rightarrow>
         (case eo_Preflight ex of
            None \<Rightarrow> (bs, m)
          | Some check \<Rightarrow>
              (case check a m of
                 (None, m1) \<Rightarrow> (bs, m1)
               | (Some e, m1) \<Rightarrow> (bs @ [''executor preflight '' @ a_Resource a @ '': '' @ e], m1))))"

definition executorPreflightBlockers :: "'m Orchestrator \<Rightarrow> Plan \<Rightarrow> 'm \<Rightarrow> string list \<times> 'm" where
  "executorPreflightBlockers orc p m = fold (preflight_one orc) (p_Actions p) ([], m)"

fun management_ports :: "int list \<Rightarrow> Action list \<Rightarrow> int list" where
  "management_ports ports [] = ports"
| "management_ports ports (a # as) =
     (case (if a_Kind a = ActionSSHFinalize then ssh_spec a else None) of
        None \<Rightarrow> management_ports ports as
      | Some spec \<Rightarrow>
          if 0 < ss_NewPort spec \<and> ss_NewPort spec \<notin> set ports then management_ports (ports @ [ss_NewPort spec]) as
          else management_ports ports as)"

definition requiredManagementPorts :: "Plan \<Rightarrow> int list" where
  "requiredManagementPorts p = management_ports [] (p_Actions p)"

definition managementBlockers :: "Plan \<Rightarrow> ProbeResult list \<Rightarrow> blocker list" where
  "managementBlockers p results =
     map (\<lambda>port. BText (''management probe is mandatory for SSH finalization: no reachable probe result for new management port ''
            @ int_text port))
       (filter (\<lambda>port. \<not> list_ex (\<lambda>r. pr_Port r = port \<and> pr_Reachable r) results) (requiredManagementPorts p))"

definition Confirm :: "External \<Rightarrow> 'm Orchestrator \<Rightarrow> OPlan \<Rightarrow> Confirmation \<Rightarrow> string option" where
  "Confirm xt orc p c =
     (case orc_Verifier orc of
        Some v \<Rightarrow>
          (case cf_Approval c of
             None \<Rightarrow> Some ''operator approval artifact required: legacy confirmation is refused while approval verification is configured''
           | Some a \<Rightarrow>
               map_option (\<lambda>e. ''approval artifact: '' @ e) (Verify (xt_Crypto xt) (xt_Codec xt) v a (xt_Fingerprint xt (op_Plan p))))
      | None \<Rightarrow>
          if cf_ApprovedBy c = '''' then Some ''confirmation must name the approving operator''
          else if cf_At c = 0 then Some ''confirmation must carry an approval timestamp''
          else if cf_PlanFingerprint c \<noteq> xt_Fingerprint xt (op_Plan p) then Some ''confirmation does not match this plan''
          else None)"

text \<open>The derived capabilities against the carried ones.\<close>

definition capability_blockers :: "'m Orchestrator \<Rightarrow> Plan \<Rightarrow> blocker list option" where
  "capability_blockers orc p =
     (case orc_Derive orc of
        None \<Rightarrow> None
      | Some derive \<Rightarrow>
          (case derive p of
             Inl e \<Rightarrow> Some [BCapability e]
           | Inr required \<Rightarrow>
               (case NewCapabilitySet (p_Capabilities p) of
                  Inl e \<Rightarrow> Some [BCapability e]
                | Inr carried \<Rightarrow>
                    let v = VerifyCapabilityGrant required carried in
                    if gv_Status v \<noteq> GrantSatisfied then Some [BGrant v] else None)))"

text \<open>The gates of \<open>Execute\<close> before the lock, in the order of the source; \<open>None\<close> lets the run go on.\<close>

definition pre_gates :: "External \<Rightarrow> 'm Orchestrator \<Rightarrow> OPlan \<Rightarrow> Confirmation \<Rightarrow> ProbeResult list \<Rightarrow> blocker list option" where
  "pre_gates xt orc p c mgmt =
     (if \<not> op_Ready p then Some (map BText (op_Blockers p))
      else if p_Blocked (op_Plan p) then Some [BReasons (p_BlockReasons (op_Plan p))]
      else if pf_Status (op_Preflight p) \<noteq> PreflightReady then Some [BText ''preflight is not ready'']
      else if ValidatePlanTypedSpecs (op_Plan p) \<noteq> [] then Some [BSpecs (ValidatePlanTypedSpecs (op_Plan p))]
      else case capability_blockers orc (op_Plan p) of
        Some bs \<Rightarrow> Some bs
      | None \<Rightarrow>
          if MissingExecutors (op_Plan p) (registered orc) \<noteq> []
          then Some [BMissing (MissingExecutors (op_Plan p) (registered orc))]
          else if planHasMutation orc (op_Plan p) \<and> \<not> op_Prepared p then Some [BText ''unprepared plan'']
          else case Confirm xt orc p c of
            Some e \<Rightarrow> Some [BConfirmation e]
          | None \<Rightarrow>
              if managementBlockers (op_Plan p) mgmt \<noteq> [] then Some (managementBlockers (op_Plan p) mgmt) else None)"


subsection \<open>Planning\<close>

definition assemble_on :: "External \<Rightarrow> 'm Orchestrator \<Rightarrow> Config \<Rightarrow> Options \<Rightarrow> 'm \<Rightarrow> PipelineResult \<times> 'm" where
  "assemble_on xt orc cfg opts m =
     (let (r, m1) = orc_Discover orc m in
      (Assemble (xt_Sha xt) r cfg (opts\<lparr>opt_InspectFile := orc_InspectFile orc m1\<rparr>), m1))"

text \<open>Derived capabilities become part of the plan; a failed derivation blocks it.\<close>

definition fold_capabilities :: "External \<Rightarrow> 'm Orchestrator \<Rightarrow> Plan \<Rightarrow> Plan" where
  "fold_capabilities xt orc p =
     (case orc_Derive orc of
        None \<Rightarrow> p
      | Some derive \<Rightarrow>
          (case derive p of
             Inl e \<Rightarrow> p\<lparr>p_Blocked := True,
                        p_BlockReasons := p_BlockReasons p @ [OtherBlock (''capability derivation: '' @ xt_CapError xt e)]\<rparr>
           | Inr s \<Rightarrow> if CapabilitySet_IsZero s then p else p\<lparr>p_Capabilities := s\<rparr>))"

definition coverage_preflight :: "'m Orchestrator \<Rightarrow> Plan \<Rightarrow> Preflight \<Rightarrow> Preflight" where
  "coverage_preflight orc p pf =
     (let missing = MissingExecutors p (registered orc);
          pf1 = pf\<lparr>pf_Checks := pf_Checks pf @ [\<lparr>pfc_Name = ''executor-coverage'', pfc_OK = (missing = []), pfc_Critical = True,
            pfc_Reason = coverageReason missing\<rparr>]\<rparr> in
      if missing = [] then pf1
      else pf1\<lparr>pf_Status := PreflightBlocked, pf_Blocking := pf_Blocking pf1 @ [''executor-coverage: '' @ coverageReason missing]\<rparr>)"

definition executor_preflight :: "string list \<Rightarrow> Preflight \<Rightarrow> Preflight" where
  "executor_preflight bs pf =
     (if bs = [] then pf
      else pf\<lparr>pf_Status := PreflightBlocked,
        pf_Checks := pf_Checks pf @ map (\<lambda>b. \<lparr>pfc_Name = ''executor-preflight'', pfc_OK = False, pfc_Critical = True, pfc_Reason = b\<rparr>) bs,
        pf_Blocking := pf_Blocking pf @ bs\<rparr>)"

definition Prepare :: "External \<Rightarrow> 'm Orchestrator \<Rightarrow> Config \<Rightarrow> Options \<Rightarrow> 'm \<Rightarrow> OPlan \<times> 'm" where
  "Prepare xt orc cfg opts m =
     (let (res, m1) = assemble_on xt orc cfg opts m;
          plan = fold_capabilities xt orc (res_Plan res);
          (bs, m2) = executorPreflightBlockers orc plan m1;
          pf = executor_preflight bs (coverage_preflight orc plan (res_Preflight res)) in
      (\<lparr>op_Model = res_Model res, op_Plan = plan, op_Preflight = pf, op_Config = cfg,
        op_Ready = (\<not> p_Blocked plan \<and> pf_Status pf = PreflightReady),
        op_Blockers = (if p_Blocked plan then map block_reason_string (p_BlockReasons plan) else [])
          @ (if pf_Status pf \<noteq> PreflightReady then pf_Blocking pf else []),
        op_Options = opts, op_Prepared = True\<rparr>, m2))"

text \<open>The staleness gate under the lock.\<close>

definition staleness :: "External \<Rightarrow> 'm Orchestrator \<Rightarrow> OPlan \<Rightarrow> 'm \<Rightarrow> blocker list option \<times> 'm" where
  "staleness xt orc p m =
     (if \<not> op_Prepared p then (None, m)
      else
        let (fresh, m1) = assemble_on xt orc (op_Config p) (op_Options p) m in
        (case (case orc_Derive orc of
                 None \<Rightarrow> Inr (res_Plan fresh)
               | Some derive \<Rightarrow>
                   (case derive (res_Plan fresh) of
                      Inl e \<Rightarrow> Inl e
                    | Inr s \<Rightarrow> Inr (if CapabilitySet_IsZero s then res_Plan fresh else (res_Plan fresh)\<lparr>p_Capabilities := s\<rparr>))) of
           Inl e \<Rightarrow> (Some [BCapability e], m1)
         | Inr plan \<Rightarrow>
             if xt_Fingerprint xt plan \<noteq> xt_Fingerprint xt (op_Plan p) then (Some [BText ''plan is stale''], m1) else (None, m1)))"

subsection \<open>The transaction record\<close>

definition acquireHostIdentity :: "'m Orchestrator \<Rightarrow> 'm \<Rightarrow> (string, string) result" where
  "acquireHostIdentity orc m =
     (case orc_HostIdentity orc of
        None \<Rightarrow> Inl ''no host-identity source configured''
      | Some source \<Rightarrow>
          (case source m of
             Inl e \<Rightarrow> Inl e
           | Inr i \<Rightarrow>
               if \<not> HasPrefix i HostIdentityPrefix then Inl ''host identity must be in the canonical namespace''
               else
                 let raw = TrimPrefix i HostIdentityPrefix in
                 (case Normalize raw of
                    Inl _ \<Rightarrow> Inl ''host identity is not a canonical machine-id''
                  | Inr canonical \<Rightarrow> if canonical \<noteq> raw then Inl ''host identity is not canonically formatted'' else Inr i)))"

fun planSpecHashes :: "External \<Rightarrow> Action list \<Rightarrow> (string, (string \<times> string) list) result" where
  "planSpecHashes xt [] = Inr []"
| "planSpecHashes xt (a # as) =
     (if a_Spec a = None then planSpecHashes xt as
      else case ActionSpecHash (xt_Digest xt) a of
        Inl e \<Rightarrow> Inl e
      | Inr h \<Rightarrow> (case planSpecHashes xt as of Inl e \<Rightarrow> Inl e | Inr hs \<Rightarrow> Inr ((a_ID a, Hex h) # hs)))"

fun retry_class_string :: "RetryClass \<Rightarrow> string" where
  "retry_class_string RetrySafe = ''retry-safe''"
| "retry_class_string StagedRecovery = ''staged-recovery''"
| "retry_class_string NoAutonomousRetry = ''no-autonomous-retry''"

text \<open>The hash map is filled in plan order: the last hash of an id wins.\<close>

definition journalActionRecords :: "Plan \<Rightarrow> (string \<times> string) list \<Rightarrow> ActionRecord list" where
  "journalActionRecords p hashes =
     map (\<lambda>a. \<lparr>jar_ID = a_ID a, jar_Resource = a_Resource a, jar_Kind = kind_string (a_Kind a),
            jar_RetryClass = (case ClassifyRetry (a_Kind a) of Inl _ \<Rightarrow> '''' | Inr c \<Rightarrow> retry_class_string c),
            jar_Status = ''PENDING'', jar_Error = '''',
            jar_SpecHash = (case map_of (rev hashes) (a_ID a) of None \<Rightarrow> '''' | Some h \<Rightarrow> h), jar_ObservedSpecHash = ''''\<rparr>)
       (p_Actions p)"

definition approval_evidence :: "External \<Rightarrow> Confirmation \<Rightarrow> ApprovalEvidence" where
  "approval_evidence xt c =
     (case cf_Approval c of
        Some a \<Rightarrow> \<lparr>ae_Mode = ''artifact'', ae_Reference = xt_Sha xt (art_Payload a)\<rparr>
      | None \<Rightarrow> \<lparr>ae_Mode = ''legacy'', ae_Reference = cf_ApprovedBy c\<rparr>)"

definition transaction_record :: "External \<Rightarrow> 'm Orchestrator \<Rightarrow> OPlan \<Rightarrow> Confirmation \<Rightarrow> (string \<times> string) list \<Rightarrow> string \<Rightarrow> 'm \<Rightarrow> JournalRecord" where
  "transaction_record xt orc p c hashes host m =
     \<lparr>jr_SchemaVersion = 0, jr_TransactionID = orc_NewTransactionID orc m, jr_HostIdentity = host,
      jr_PlanFingerprint = xt_Fingerprint xt (op_Plan p), jr_Approval = Some (approval_evidence xt c),
      jr_Actions = journalActionRecords (op_Plan p) hashes, jr_StartedAt = 0, jr_UpdatedAt = 0, jr_Stage = ''MUTATING'',
      jr_MutationPossible = True, jr_RollbackAttempted = False, jr_RollbackResult = '''', jr_Outcome = '''',
      jr_RecoveryRequired = False\<rparr>"

definition host_mismatch :: "'m Orchestrator \<Rightarrow> string \<Rightarrow> bool" where
  "host_mismatch orc host =
     (case orc_Verifier orc of None \<Rightarrow> False | Some v \<Rightarrow> ver_HostIdentity v \<noteq> '''' \<and> ver_HostIdentity v \<noteq> host)"

definition recovery_blocker :: "JournalRecord \<Rightarrow> blocker" where
  "recovery_blocker b = (if jr_RecoveryRequired b then BRecovery (jr_TransactionID b) else BIncomplete (jr_TransactionID b))"

definition retry_classified :: "ActionKind \<Rightarrow> bool" where
  "retry_classified k = (case ClassifyRetry k of Inl _ \<Rightarrow> False | Inr _ \<Rightarrow> True)"

text \<open>From the recovery gate to \<open>Begin\<close>: blockers, or the open record.\<close>

definition open_transaction ::
  "External \<Rightarrow> 'm Orchestrator \<Rightarrow> OPlan \<Rightarrow> Confirmation \<Rightarrow> 'm OWorld \<Rightarrow> (blocker list + JournalRecord) \<times> 'm OWorld" where
  "open_transaction xt orc p c w =
     (if \<not> orc_HasJournal orc then (Inl [BText ''no transaction journal configured''], w)
      else case BlockingRecords (ow_Journal w) of
        (Inl e, j) \<Rightarrow> (Inl [BJournal e], w\<lparr>ow_Journal := j\<rparr>)
      | (Inr blockers, j) \<Rightarrow>
          let w1 = w\<lparr>ow_Journal := j\<rparr>; m = ow_Machine w in
          if blockers \<noteq> [] then (Inl (map recovery_blocker blockers), w1)
          else case find (\<lambda>a. \<not> retry_classified (a_Kind a)) (p_Actions (op_Plan p)) of
            Some a \<Rightarrow> (Inl [BText ''retry classification''], w1)
          | None \<Rightarrow>
              (case planSpecHashes xt (p_Actions (op_Plan p)) of
                 Inl e \<Rightarrow> (Inl [BText (''spec hash derivation: '' @ e)], w1)
               | Inr hashes \<Rightarrow>
                   (case acquireHostIdentity orc m of
                      Inl e \<Rightarrow> (Inl [BText (''host identity: '' @ e)], w1)
                    | Inr host \<Rightarrow>
                        if host_mismatch orc host then (Inl [BText ''host identity mismatch''], w1)
                        else
                          let rec = transaction_record xt orc p c hashes host m; now = orc_Now orc m in
                          (case Begin now rec (ow_Journal w1) of
                             (Inl e, j2) \<Rightarrow> (Inl [BJournal e], w1\<lparr>ow_Journal := j2\<rparr>)
                           | (Inr _, j2) \<Rightarrow>
                               (Inr (begun now rec), w1\<lparr>ow_Journal := j2, ow_Record := Some (begun now rec)\<rparr>)))))"


subsection \<open>The engine run\<close>

fun event_string :: "ProgressEvent \<Rightarrow> string" where
  "event_string ProgressApplied = ''APPLIED''"
| "event_string ProgressApplyFailed = ''APPLY_FAILED''"
| "event_string ProgressBackupFailed = ''BACKUP_FAILED''"
| "event_string ProgressValidationFailed = ''VALIDATION_FAILED''"
| "event_string ProgressRolledBack = ''ROLLED_BACK''"
| "event_string ProgressRollbackFailed = ''ROLLBACK_FAILED''"

fun update_first :: "(ActionRecord \<Rightarrow> ActionRecord) \<Rightarrow> string \<Rightarrow> ActionRecord list \<Rightarrow> ActionRecord list option" where
  "update_first f i [] = None"
| "update_first f i (a # as) =
     (if jar_ID a = i then Some (f a # as) else map_option (\<lambda>xs. a # xs) (update_first f i as))"

definition journal_update :: "External \<Rightarrow> 'm Orchestrator \<Rightarrow> JournalRecord \<Rightarrow> 'm ostep" where
  "journal_update xt orc rec w =
     (case Update (orc_Now orc (ow_Machine w)) rec (ow_Journal w) of
        (Inl e, j) \<Rightarrow> (Some (xt_JournalError xt e), w\<lparr>ow_Journal := j, ow_Record := Some rec\<rparr>)
      | (Inr _, j) \<Rightarrow> (None, w\<lparr>ow_Journal := j, ow_Record := Some rec\<rparr>))"

definition record_event :: "External \<Rightarrow> 'm Orchestrator \<Rightarrow> ProgressEvent \<Rightarrow> string \<Rightarrow> 'm ostep" where
  "record_event xt orc ev i w =
     (case ow_Record w of
        None \<Rightarrow> (None, w)
      | Some rec \<Rightarrow>
          (case update_first (\<lambda>a. a\<lparr>jar_Status := event_string ev\<rparr>) i (jr_Actions rec) of
             None \<Rightarrow> (Some (''progress event '' @ event_string ev @ '' for unknown action''), w)
           | Some acts \<Rightarrow> journal_update xt orc (rec\<lparr>jr_Actions := acts\<rparr>) w))"

definition progressSink :: "External \<Rightarrow> 'm Orchestrator \<Rightarrow> (ProgressEvent \<Rightarrow> string \<Rightarrow> 'm ostep) option" where
  "progressSink xt orc = (if orc_HasJournal orc then Some (record_event xt orc) else None)"

definition on_machine :: "'m step \<Rightarrow> 'm ostep" where
  "on_machine f w = (let (e, m) = f (ow_Machine w) in (e, w\<lparr>ow_Machine := m\<rparr>))"

definition world_executor :: "'m Executor \<Rightarrow> 'm OWorld Executor" where
  "world_executor ex =
     \<lparr>ex_Backup = (\<lambda>i r. on_machine (ex_Backup ex i r)), ex_Apply = (\<lambda>i r k. on_machine (ex_Apply ex i r k)),
      ex_Validate = (\<lambda>i r. on_machine (ex_Validate ex i r)), ex_Rollback = (\<lambda>i r. on_machine (ex_Rollback ex i r))\<rparr>"

definition plan_actions_map :: "Plan \<Rightarrow> string \<Rightarrow> Action option" where
  "plan_actions_map p = map_of (rev (map (\<lambda>a. (a_ID a, a)) (p_Actions p)))"

text \<open>The registry with every executor bound to the open transaction and the plan's actions.\<close>

definition bound_registry :: "'m Orchestrator \<Rightarrow> Plan \<Rightarrow> JournalRecord option \<Rightarrow> 'm Registry" where
  "bound_registry orc p recp =
     (let actions = plan_actions_map p;
          tx = map_option (\<lambda>rec. (jr_TransactionID rec, jr_PlanFingerprint rec)) recp in
      \<lparr>reg_ByKind = Some (\<lambda>k. map_option (\<lambda>ex. eo_Bound ex tx actions) (orc_ByKind orc k)), reg_Actions = actions\<rparr>)"

definition run_engine ::
  "External \<Rightarrow> 'm Orchestrator \<Rightarrow> OPlan \<Rightarrow> 'm Registry \<Rightarrow> 'm OWorld \<Rightarrow> Transaction \<times> 'm OWorld" where
  "run_engine xt orc p reg w =
     Engine_Apply
       \<lparr>eng_Executor = Some (world_executor (registry_executor reg)), eng_Now = (\<lambda>w. orc_Now orc (ow_Machine w)), eng_ID = None,
        eng_Progress = progressSink xt orc\<rparr>
       (op_Plan p) (Some \<lparr>pg_Ready = (pf_Status (op_Preflight p) = PreflightReady), pg_Reasons = pf_Blocking (op_Preflight p)\<rparr>) w"

subsection \<open>Finalizing the journal record\<close>

text \<open>\<open>strings.Contains\<close>.\<close>

fun Contains :: "string \<Rightarrow> string \<Rightarrow> bool" where
  "Contains [] sub \<longleftrightarrow> sub = []"
| "Contains (c # s) sub \<longleftrightarrow> HasPrefix (c # s) sub \<or> Contains s sub"

definition rollback_failed_result :: "ActionResult \<Rightarrow> bool" where
  "rollback_failed_result ar \<longleftrightarrow> ar_Status ar = ''ROLLBACK_FAILED'' \<or> Contains (ar_Error ar) ''; rollback: ''"

text \<open>The last record of an id is the one the map points to.\<close>

definition copy_one :: "ActionResult \<Rightarrow> ActionRecord list \<times> bool \<Rightarrow> ActionRecord list \<times> bool" where
  "copy_one ar = (\<lambda>(as, failed).
     case update_first (\<lambda>a. a\<lparr>jar_Status := ar_Status ar, jar_Error := ar_Error ar\<rparr>) (ar_ActionID ar) (rev as) of
       None \<Rightarrow> (as, failed)
     | Some xs \<Rightarrow> (rev xs, failed \<or> rollback_failed_result ar))"

definition copyActionStatuses :: "JournalRecord \<Rightarrow> ActionResult list \<Rightarrow> JournalRecord \<times> bool" where
  "copyActionStatuses rec results =
     (let (as, failed) = fold copy_one results (jr_Actions rec, False) in (rec\<lparr>jr_Actions := as\<rparr>, failed))"

definition transaction_results :: "Transaction option \<Rightarrow> ActionResult list" where
  "transaction_results tr = (case tr of None \<Rightarrow> [] | Some t \<Rightarrow> t_Actions t)"

definition terminal_record :: "JournalRecord \<Rightarrow> Transaction option \<Rightarrow> JournalRecord" where
  "terminal_record rec tr =
     (fst (copyActionStatuses rec (transaction_results tr)))
       \<lparr>jr_Stage := ''COMPLETED'', jr_Outcome := ''COMPLETED'', jr_RecoveryRequired := False\<rparr>"

definition finalizeJournalTerminal :: "External \<Rightarrow> 'm Orchestrator \<Rightarrow> Transaction option \<Rightarrow> 'm ostep" where
  "finalizeJournalTerminal xt orc tr w =
     (case ow_Record w of
        None \<Rightarrow> (None, w)
      | Some rec \<Rightarrow> if \<not> orc_HasJournal orc then (None, w) else journal_update xt orc (terminal_record rec tr) w)"

definition finalized_record :: "JournalRecord \<Rightarrow> Outcome \<Rightarrow> JournalRecord" where
  "finalized_record rec out =
     (let (r1, rollbackFailed) = copyActionStatuses rec (transaction_results (out_Transaction out));
          r2 = (if rollbackFailed then r1\<lparr>jr_RollbackAttempted := True, jr_RollbackResult := ''ROLLBACK_FAILED''\<rparr>
                else if map_option t_Status (out_Transaction out) = Some StatusRolledBack
                then r1\<lparr>jr_RollbackAttempted := True, jr_RollbackResult := ''ROLLED_BACK''\<rparr> else r1);
          recovery = (out_Stage out \<noteq> StageCompleted \<and>
            (rollbackFailed \<or> list_ex (\<lambda>a. jar_RetryClass a = ''no-autonomous-retry'') (jr_Actions r2))) in
      r2\<lparr>jr_RecoveryRequired := recovery, jr_Stage := stage_string (out_Stage out),
         jr_Outcome := (if out_Stage out = StageCompleted then ''COMPLETED'' else if recovery then ''RECOVERY_REQUIRED'' else ''FAILED'')\<rparr>)"

definition finalizeJournal :: "External \<Rightarrow> 'm Orchestrator \<Rightarrow> Outcome \<Rightarrow> 'm ostep" where
  "finalizeJournal xt orc out w =
     (case ow_Record w of
        None \<Rightarrow> (None, w)
      | Some rec \<Rightarrow> if \<not> orc_HasJournal orc then (None, w) else journal_update xt orc (finalized_record rec out) w)"


subsection \<open>After the engine\<close>

fun validate_actions :: "'m Registry \<Rightarrow> Action list \<Rightarrow> 'm \<Rightarrow> string option \<times> 'm" where
  "validate_actions reg [] m = (None, m)"
| "validate_actions reg (a # as) m =
     (case reg_Validate reg (a_ID a) (a_Resource a) m of
        (Some e, m1) \<Rightarrow> (Some (a_Resource a @ '': '' @ e), m1)
      | (None, m1) \<Rightarrow> validate_actions reg as m1)"

definition convergence_blocker :: "DiffItem \<Rightarrow> blocker list" where
  "convergence_blocker d =
     (if di_Kind d = NoChange \<or> di_Kind d = Skip \<or> di_Kind d = ExternalDiff then [] else [BDiff d])"

definition convergenceFailures :: "DiffItem list \<Rightarrow> blocker list" where
  "convergenceFailures diff = concat (map convergence_blocker diff)"

text \<open>The persistence gate, minting and \<open>SaveModel\<close>; the terminal record is already written.\<close>

definition persist ::
  "External \<Rightarrow> 'm Orchestrator \<Rightarrow> OPlan \<Rightarrow> EvidenceRecord Model \<Rightarrow> Outcome \<Rightarrow> 'm OWorld \<Rightarrow> Outcome \<times> 'm OWorld" where
  "persist xt orc p post out w =
     (let txID = (case ow_Record w of None \<Rightarrow> '''' | Some rec \<Rightarrow> jr_TransactionID rec) in
      case PersistenceBlockers txID (planHasMutation orc (op_Plan p)) (ow_Journal w) of
        (Inl e, j) \<Rightarrow> (fail_at StageFailedFinalValidation [BJournal e] out, w\<lparr>ow_Journal := j\<rparr>)
      | (Inr bs, j) \<Rightarrow>
          let w1 = w\<lparr>ow_Journal := j\<rparr> in
          if bs \<noteq> [] then (fail_at StageFailedFinalValidation (map BText bs) out, w1)
          else
            let prior = (case opt_State (op_Options p) of None \<Rightarrow> [] | Some st \<Rightarrow> m_Evidence st);
                m0 = post\<lparr>m_UpdatedAt := orc_Now orc (ow_Machine w1), m_Evidence := m_Evidence post @ prior\<rparr> in
            (case (case ow_Record w1 of
                     None \<Rightarrow> Inr m0
                   | Some rec \<Rightarrow>
                       (case MintTransactionEvidence (Some rec) (op_Plan p) (m_Evidence m0) of
                          Inl e \<Rightarrow> Inl e
                        | Inr mint \<Rightarrow> Inr (m0\<lparr>m_Evidence := mo_Merged mint\<rparr>))) of
               Inl e \<Rightarrow> (fail_at StageFailedFinalValidation [BText (''evidence minting: '' @ e)] out, w1)
             | Inr m1 \<Rightarrow>
                 (case SaveModel (xt_FormatTime xt) (xt_Encode xt) m1 (ow_State w1) of
                    (Inl e, st) \<Rightarrow> (fail_at StageFailedPersist [BStore e] out, w1\<lparr>ow_State := st\<rparr>)
                  | (Inr _, st) \<Rightarrow> (out\<lparr>out_Persisted := True, out_Stage := StageCompleted\<rparr>, w1\<lparr>ow_State := st\<rparr>))))"

text \<open>
  From the end of the engine run to the end; the second component is \<open>terminalAttempted\<close>.
\<close>

definition conclude ::
  "External \<Rightarrow> 'm Orchestrator \<Rightarrow> OPlan \<Rightarrow> 'm Registry \<Rightarrow> Transaction \<Rightarrow> 'm OWorld \<Rightarrow> (Outcome \<times> bool) \<times> 'm OWorld" where
  "conclude xt orc p reg tr w =
     (let out0 = no_outcome\<lparr>out_Transaction := Some tr\<rparr> in
      if t_Status tr \<noteq> StatusApplied then ((out0\<lparr>out_Stage := StageFailedTransaction\<rparr>, False), w)
      else
        let (re, m1) = orc_Discover orc (ow_Machine w); out1 = out0\<lparr>out_ReDiscovery := Some re\<rparr>; w1 = w\<lparr>ow_Machine := m1\<rparr> in
        if dr_Status re \<noteq> StatusOK then ((fail_at StageFailedRediscovery [BStatus (dr_Status re)] out1, False), w1)
        else
          (case validate_actions reg (p_Actions (op_Plan p)) m1 of
             (Some e, m2) \<Rightarrow> ((fail_at StageFailedFinalValidation [BText e] out1, False), w1\<lparr>ow_Machine := m2\<rparr>)
           | (None, m2) \<Rightarrow>
               let vr = ValidateDiscovery (orc_Now orc m2) re False; out2 = out1\<lparr>out_FinalValidate := Some vr\<rparr>;
                   w2 = w1\<lparr>ow_Machine := m2\<rparr>;
                   post = res_Model (Assemble (xt_Sha xt) re (op_Config p)
                     ((op_Options p)\<lparr>opt_InspectFile := orc_InspectFile orc m2\<rparr>)) in
               if rep_Status vr \<noteq> ''PASS''
               then ((fail_at StageFailedFinalValidation [BText (''post-apply validate: '' @ rep_Status vr)] out2, False), w2)
               else if convergenceFailures (m_Diff post) \<noteq> []
               then ((fail_at StageFailedFinalValidation (convergenceFailures (m_Diff post)) out2, False), w2)
               else if \<not> orc_HasJournal orc
               then ((fail_at StageFailedFinalValidation [BText ''no transaction journal configured''] out2, False), w2)
               else
                 (case finalizeJournalTerminal xt orc (Some tr) w2 of
                    (Some e, w3) \<Rightarrow> ((fail_at StageFailedPersist [BText (''journal terminal: '' @ e)] out2, True), w3)
                  | (None, w3) \<Rightarrow>
                      let (out3, w4) = persist xt orc p post out2 w3 in ((out3, ow_Record w \<noteq> None), w4))))"

text \<open>The engine, the conclusion and the deferred finalizer.\<close>

definition transact :: "External \<Rightarrow> 'm Orchestrator \<Rightarrow> OPlan \<Rightarrow> 'm OWorld \<Rightarrow> Outcome \<times> 'm OWorld" where
  "transact xt orc p w =
     (let reg = bound_registry orc (op_Plan p) (ow_Record w);
          (tr, w1) = run_engine xt orc p reg w;
          ((out, attempted), w2) = conclude xt orc p reg tr w1 in
      if attempted then (out, w2)
      else
        (case finalizeJournal xt orc out w2 of
           (None, w3) \<Rightarrow> (out, w3)
         | (Some e, w3) \<Rightarrow> (out\<lparr>out_Blockers := out_Blockers out @ [BText e]\<rparr>, w3)))"

definition locked_run ::
  "External \<Rightarrow> 'm Orchestrator \<Rightarrow> OPlan \<Rightarrow> Confirmation \<Rightarrow> 'm OWorld \<Rightarrow> Outcome \<times> 'm OWorld" where
  "locked_run xt orc p c w =
     (let (stale, m1) = staleness xt orc p (ow_Machine w); w1 = w\<lparr>ow_Machine := m1\<rparr> in
      case stale of
        Some bs \<Rightarrow> (fail_at StageBlocked bs no_outcome, w1)
      | None \<Rightarrow>
          let (bs, m2) = executorPreflightBlockers orc (op_Plan p) m1; w2 = w1\<lparr>ow_Machine := m2, ow_Record := None\<rparr> in
          if bs \<noteq> [] then (fail_at StageBlocked (map BText bs) no_outcome, w2)
          else if planHasMutation orc (op_Plan p) then
            (case open_transaction xt orc p c w2 of
               (Inl bs, w3) \<Rightarrow> (fail_at StageBlocked bs no_outcome, w3)
             | (Inr _, w3) \<Rightarrow> transact xt orc p w3)
          else transact xt orc p w2)"

definition Execute ::
  "External \<Rightarrow> 'm Orchestrator \<Rightarrow> OPlan \<Rightarrow> Confirmation \<Rightarrow> ProbeResult list \<Rightarrow> 'm OWorld \<Rightarrow> Outcome \<times> 'm OWorld" where
  "Execute xt orc p c mgmt w =
     (case pre_gates xt orc p c mgmt of
        Some bs \<Rightarrow> (fail_at StageBlocked bs no_outcome, w)
      | None \<Rightarrow>
          (case orc_Acquire orc (ow_Machine w) of
             (Some e, m1) \<Rightarrow> (fail_at StageBlocked [BText (''lock: '' @ e)] no_outcome, w\<lparr>ow_Machine := m1\<rparr>)
           | (None, m1) \<Rightarrow>
               let (out, w1) = locked_run xt orc p c (w\<lparr>ow_Machine := m1\<rparr>) in
               (out, w1\<lparr>ow_Machine := orc_Release orc (ow_Machine w1)\<rparr>)))"

end
