(* ===== verification/Lifecycle.thy ===== *)
theory Lifecycle
  imports Orchestrate
begin

text \<open>
  What a run of the apply lifecycle guarantees (\<open>Orchestrate\<close>): a blocked run changes nothing, an unblocked
  run has passed every gate, a persisted run has a durable terminal record, and an unfinished or latched
  record stops every later mutation.
\<close>

subsection \<open>Facts about the journal\<close>

lemma jbind_Inr: "jbind m f s = (Inr b, s2) \<longleftrightarrow> (\<exists>a s1. m s = (Inr a, s1) \<and> f a s1 = (Inr b, s2))"
  by (auto simp: jbind_def split: prod.splits sum.splits)

lemma Update_ok:
  assumes "Update now rec s = (Inr u, s')"
  shows "jlookup s' = (jlookup s)(file_name (jr_TransactionID rec) \<mapsto> JRecord (rec\<lparr>jr_UpdatedAt := now\<rparr>))"
proof -
  from assms obtain a s1 cur s2 v s3 where
    1: "jensure_dir s = (Inr a, s1)" "jread (file_name (jr_TransactionID rec)) s1 = (Inr (Some cur), s2)"
    "jcheck (update_error False cur rec) s2 = (Inr v, s3)" "jwrite (file_name (jr_TransactionID rec)) (rec\<lparr>jr_UpdatedAt := now\<rparr>) s3 = (Inr u, s')"
    by (auto simp: Update_def updateRecord_def jbind_Inr jfail_def split: option.splits)
  from jwrite_ok [OF 1(4)] quiet_after [OF quiet_basic(5) 1(1)] quiet_after [OF quiet_basic(6) 1(2)] quiet_after [OF quiet_basic(3) 1(3)]
  show ?thesis by simp
qed

lemma Update_failed:
  "jlookup (snd (Update now rec s)) = jlookup s
   \<or> jlookup (snd (Update now rec s)) = (jlookup s)(file_name (jr_TransactionID rec) \<mapsto> JRecord (rec\<lparr>jr_UpdatedAt := now\<rparr>))"
  unfolding Update_def using updateRecord_effect [of now rec False s] by blast

text \<open>No operation removes the directory.\<close>

definition keeps_dir :: "'a jio \<Rightarrow> bool" where
  "keeps_dir m \<longleftrightarrow> (\<forall>s. js_dir s \<longrightarrow> js_dir (snd (m s)))"

named_theorems dir_intros \<open>computations that keep the journal directory\<close>

lemma keeps_dir_basic [dir_intros]: "keeps_dir (jret a)" "keeps_dir (jfail e)" "keeps_dir (jcheck c)" "keeps_dir jfault"
  "keeps_dir jensure_dir" "keeps_dir (jread n)" "keeps_dir (jstat n)"
  by (auto simp: keeps_dir_def jret_def jfail_def jcheck_def jfault_def jensure_dir_def jread_def jstat_def jbind_snd
      split: option.split prod.split sum.split list.split jentry.split)

lemma keeps_dir_bind [dir_intros]: "keeps_dir m \<Longrightarrow> (\<And>a. keeps_dir (f a)) \<Longrightarrow> keeps_dir (jbind m f)"
  unfolding keeps_dir_def jbind_snd by (auto split: prod.split sum.split)

lemma keeps_dir_write [dir_intros]: "keeps_dir (jwrite n rec)"
  unfolding jwrite_def by (intro dir_intros) (simp add: keeps_dir_def jput_def)

lemma keeps_dir_Update: "keeps_dir (Update now rec)"
  unfolding Update_def updateRecord_def by (intro dir_intros) (auto split: option.split intro!: dir_intros)

lemma keeps_dir_load_entries: "keeps_dir (load_entries names)"
proof (induction names)
  case (Cons n ns)
  have "keeps_dir (jbind (jread n) (\<lambda>r. case r of None \<Rightarrow> jfail (JournalIO ''file disappeared'')
      | Some rec \<Rightarrow> jbind (jcheck (record_error n rec)) (\<lambda>_. jbind (load_entries ns) (\<lambda>recs. jret (rec # recs)))))"
    by (intro dir_intros) (auto split: option.split intro!: dir_intros Cons)
  with Cons show ?case by (simp add: keeps_dir_def)
qed (simp add: dir_intros)

lemma keeps_dir_loadAll [dir_intros]: "keeps_dir loadAll"
proof -
  have "keeps_dir (\<lambda>s. if \<not> js_dir s then (Inr [], s) else load_entries (sort (map fst (js_files s))) s)"
    using keeps_dir_load_entries by (simp add: keeps_dir_def)
  then show ?thesis unfolding loadAll_def by (intro dir_intros)
qed

lemma keeps_dir_blocking: "keeps_dir BlockingRecords" "keeps_dir (PersistenceBlockers tx mutates)"
  unfolding BlockingRecords_def PersistenceBlockers_def by (intro dir_intros)+

lemma Begin_ok:
  assumes "Begin now rec s = (Inr u, s')"
  shows "jlookup s' = (jlookup s)(file_name (jr_TransactionID rec) \<mapsto> JRecord (begun now rec)) \<and> js_dir s'"
proof -
  from assms obtain a s1 s2 where
    1: "jensure_dir s = (Inr a, s1)" "jstat (file_name (jr_TransactionID rec)) s1 = (Inr False, s2)"
    "jwrite (file_name (jr_TransactionID rec)) (begun now rec) s2 = (Inr u, s')"
    by (auto simp: Begin_def jbind_Inr jfail_def split: if_splits)
  have "js_dir s1" using 1(1) by (auto simp: jensure_dir_def jbind_Inr)
  then have "js_dir s2" using keeps_dir_basic(7) 1(2) unfolding keeps_dir_def by (metis snd_conv)
  then have "js_dir s'" using keeps_dir_write 1(3) unfolding keeps_dir_def by (metis snd_conv)
  then show ?thesis
    using jwrite_ok [OF 1(3)] quiet_after [OF quiet_basic(5) 1(1)] quiet_after [OF quiet_basic(7) 1(2)] by simp
qed

lemma quiet_blocking: "quiet BlockingRecords" "quiet (PersistenceBlockers tx mutates)"
  unfolding BlockingRecords_def PersistenceBlockers_def by (intro quiet_intros)+

text \<open>A stored record is loaded, if loading succeeds at all.\<close>

lemma load_entries_complete:
  "fst (load_entries names s) = Inr all \<Longrightarrow> n \<in> set names \<Longrightarrow> jlookup s n = Some (JRecord r) \<Longrightarrow> suffix ''.json'' n \<Longrightarrow> r \<in> set all"
proof (induction names arbitrary: s all)
  case (Cons k ns)
  show ?case
  proof (cases "jlookup s k = Some JDir \<or> \<not> suffix ''.json'' k")
    case False
    obtain c s2 where rd: "jread k s = (c, s2)" by fastforce
    obtain rest s3 where ld: "load_entries ns s2 = (rest, s3)" by fastforce
    from Cons.prems(1) False rd ld obtain r0 all0 where c: "c = Inr (Some r0)" "rest = Inr all0" "all = r0 # all0"
      by (auto simp: jbind_def jcheck_def jret_def jfail_def split: sum.splits option.splits)
    have l: "jlookup s2 = jlookup s" by (rule quiet_after [OF quiet_basic(6) rd])
    show ?thesis
    proof (cases "n = k")
      case True
      with jread_found [of k s r0 s2] rd c Cons.prems(3) show ?thesis by simp
    next
      case False
      with Cons.prems Cons.IH [of s2 all0] l ld c show ?thesis by simp
    qed
  qed (use Cons in auto)
qed simp

lemma loadAll_complete:
  assumes "loadAll s = (Inr all, s1)" and "js_dir s" and "jlookup s n = Some (JRecord r)" and "suffix ''.json'' n"
  shows "r \<in> set all"
proof -
  obtain r2 s2 where f: "jfault s = (r2, s2)" by fastforce
  have l: "jlookup s2 = jlookup s" by (rule quiet_after [OF quiet_basic(4) f])
  have d: "js_dir s2" using f assms(2) by (auto simp: jfault_def split: list.splits option.splits)
  have "map_of (js_files s2) n = Some (JRecord r)" using l assms(3) by (metis jlookup_def)
  then have "n \<in> set (sort (map fst (js_files s2)))" by (metis domI dom_map_of_conv_image_fst set_map set_sort)
  moreover from assms(1) f d have "fst (load_entries (sort (map fst (js_files s2))) s2) = Inr all"
    by (cases r2) (auto simp: loadAll_def jbind_def)
  ultimately show ?thesis using load_entries_complete [of "sort (map fst (js_files s2))" s2 all n r] l assms(3,4) by simp
qed

text \<open>A journal that blocks: it stores an unfinished or a latched record.\<close>

definition has_blocking :: "JStore \<Rightarrow> bool" where
  "has_blocking j \<longleftrightarrow> js_dir j \<and> (\<exists>r. jlookup j (file_name (jr_TransactionID r)) = Some (JRecord r)
     \<and> (jr_RecoveryRequired r \<or> jr_Outcome r = ''''))"

lemma has_blocking_blocks: "has_blocking j \<Longrightarrow> fst (BlockingRecords j) \<noteq> Inr []"
proof
  assume "has_blocking j" and e: "fst (BlockingRecords j) = Inr []"
  then obtain r where r: "js_dir j" "jlookup j (file_name (jr_TransactionID r)) = Some (JRecord r)"
    "jr_RecoveryRequired r \<or> jr_Outcome r = ''''" by (auto simp: has_blocking_def)
  from e obtain all j1 where l: "loadAll j = (Inr all, j1)"
    by (cases "loadAll j") (auto simp: BlockingRecords_def jbind_def split: sum.splits)
  have "r \<in> set all" by (rule loadAll_complete [OF l r(1,2)]) (simp add: file_name_def suffix_def)
  with e l r(3) show False by (auto simp: BlockingRecords_def jbind_def jret_def filter_empty_conv)
qed


subsection \<open>Blocked runs\<close>

text \<open>The steps on the machine that plan and check, without an executor action.\<close>

definition readonly_steps :: "'m Orchestrator \<Rightarrow> ('m \<times> 'm) set" where
  "readonly_steps orc =
     {(m, m'). m' = snd (orc_Discover orc m) \<or> m' = snd (orc_Acquire orc m) \<or> m' = orc_Release orc m
        \<or> (\<exists>k ex check a. orc_ByKind orc k = Some ex \<and> eo_Preflight ex = Some check \<and> m' = snd (check a m))}"

lemma readonly_basic:
  "(m, snd (orc_Discover orc m)) \<in> readonly_steps orc" "(m, snd (orc_Acquire orc m)) \<in> readonly_steps orc"
  "(m, orc_Release orc m) \<in> readonly_steps orc"
  by (auto simp: readonly_steps_def)

lemma preflight_readonly: "(m, snd (executorPreflightBlockers orc p m)) \<in> (readonly_steps orc)\<^sup>*"
proof -
  have one: "(snd st, snd (preflight_one orc a st)) \<in> (readonly_steps orc)\<^sup>*" for a st
  proof (cases "\<exists>ex check. orc_ByKind orc (a_Kind a) = Some ex \<and> eo_Preflight ex = Some check")
    case True
    then obtain ex check where e: "orc_ByKind orc (a_Kind a) = Some ex" "eo_Preflight ex = Some check" by blast
    then have "snd (preflight_one orc a st) = snd (check a (snd st))"
      by (cases st; cases "check a (snd st)") (auto simp: preflight_one_def split: option.split)
    moreover have "(snd st, snd (check a (snd st))) \<in> readonly_steps orc" using e by (auto simp: readonly_steps_def)
    ultimately show ?thesis by simp
  next
    case False
    then have "snd (preflight_one orc a st) = snd st" by (cases st) (auto simp: preflight_one_def split: option.split)
    then show ?thesis by simp
  qed
  have "(snd st, snd (fold (preflight_one orc) as st)) \<in> (readonly_steps orc)\<^sup>*" for as st
  proof (induction as arbitrary: st)
    case (Cons a as)
    from rtrancl_trans [OF one [where a = a and st = st] Cons [of "preflight_one orc a st"]] show ?case by simp
  qed simp
  from this [of "([], m)"] show ?thesis by (simp add: executorPreflightBlockers_def)
qed

lemma staleness_readonly: "(m, snd (staleness xt orc p m)) \<in> (readonly_steps orc)\<^sup>*"
proof -
  have "snd (staleness xt orc p m) \<in> {m, snd (orc_Discover orc m)}"
    by (cases "orc_Discover orc m") (auto simp: staleness_def assemble_on_def Let_def split: sum.split option.split)
  with readonly_basic(1) [of m orc] show ?thesis by auto
qed

lemma fail_at_stage [simp]: "out_Stage (fail_at st bs out) = st" "out_Persisted (fail_at st bs out) = out_Persisted out"
  "out_Transaction (fail_at st bs out) = out_Transaction out"
  by (simp_all add: fail_at_def)

lemma no_outcome_simps [simp]: "out_Persisted no_outcome = False" "out_Transaction no_outcome = None" "out_Stage no_outcome = StageNone"
  by (simp_all add: no_outcome_def)

lemma persist_stage: "out_Stage (fst (persist xt orc p post out w)) \<notin> {StageBlocked, StageNone}"
  by (simp add: persist_def Let_def split: prod.split sum.split)

text \<open>The ways through the part after the engine: it stops before persistence, or it persists.\<close>

definition post_model :: "External \<Rightarrow> 'm Orchestrator \<Rightarrow> OPlan \<Rightarrow> DiscoveryResult \<Rightarrow> 'm \<Rightarrow> EvidenceRecord Model" where
  "post_model xt orc p re m =
     res_Model (Assemble (xt_Sha xt) re (op_Config p) ((op_Options p)\<lparr>opt_InspectFile := orc_InspectFile orc m\<rparr>))"

lemma conclude_cases:
  obtains (stop) out b w' where "conclude xt orc p reg tr w = ((out, b), w')"
      "out_Stage out \<notin> {StageBlocked, StageNone, StageCompleted}" "out_Transaction out = Some tr" "\<not> out_Persisted out"
  | (persist) re m1 m2 w3 out2 where "t_Status tr = StatusApplied" "orc_Discover orc (ow_Machine w) = (re, m1)"
      "dr_Status re = StatusOK" "validate_actions reg (p_Actions (op_Plan p)) m1 = (None, m2)"
      "rep_Status (ValidateDiscovery (orc_Now orc m2) re False) = ''PASS''"
      "convergenceFailures (m_Diff (post_model xt orc p re m2)) = []" "orc_HasJournal orc"
      "finalizeJournalTerminal xt orc (Some tr) (w\<lparr>ow_Machine := m2\<rparr>) = (None, w3)"
      "out2 = no_outcome\<lparr>out_Transaction := Some tr, out_ReDiscovery := Some re,
         out_FinalValidate := Some (ValidateDiscovery (orc_Now orc m2) re False)\<rparr>"
      "conclude xt orc p reg tr w
       = ((fst (persist xt orc p (post_model xt orc p re m2) out2 w3), ow_Record w \<noteq> None),
          snd (persist xt orc p (post_model xt orc p re m2) out2 w3))"
proof -
  obtain re m1 where d: "orc_Discover orc (ow_Machine w) = (re, m1)" by fastforce
  obtain e m2 where v: "validate_actions reg (p_Actions (op_Plan p)) m1 = (e, m2)" by fastforce
  obtain f w3 where t: "finalizeJournalTerminal xt orc (Some tr) (w\<lparr>ow_Machine := m2\<rparr>) = (f, w3)" by fastforce
  consider "t_Status tr \<noteq> StatusApplied" | "t_Status tr = StatusApplied" "dr_Status re \<noteq> StatusOK"
    | err where "t_Status tr = StatusApplied" "dr_Status re = StatusOK" "e = Some err"
    | "t_Status tr = StatusApplied" "dr_Status re = StatusOK" "e = None" by (cases e) auto
  moreover obtain out b w' where c: "conclude xt orc p reg tr w = ((out, b), w')" by (metis surj_pair)
  ultimately show ?thesis
  proof cases
    case 1
    show ?thesis by (rule stop [OF c]; use 1 c in \<open>simp add: conclude_def Let_def no_outcome_def\<close>) auto
  next
    case 2
    show ?thesis by (rule stop [OF c]; use 2 c d in \<open>simp add: conclude_def Let_def no_outcome_def\<close>) auto
  next
    case 3
    show ?thesis by (rule stop [OF c]; use 3 c d v in \<open>simp add: conclude_def Let_def no_outcome_def\<close>) auto
  next
    case 4
    note eq = conclude_def [of xt orc p reg tr w, unfolded d v Let_def prod.case post_model_def [symmetric]]
    show ?thesis
    proof (cases "rep_Status (ValidateDiscovery (orc_Now orc m2) re False) = ''PASS''
        \<and> convergenceFailures (m_Diff (post_model xt orc p re m2)) = [] \<and> orc_HasJournal orc \<and> f = None")
      case True
      then show ?thesis using persist [OF 4(1) d 4(2)] v t 4 by (simp add: eq case_prod_beta)
    next
      case False
      have "out_Stage out \<notin> {StageBlocked, StageNone, StageCompleted} \<and> out_Transaction out = Some tr \<and> \<not> out_Persisted out"
        using c False 4 t by (auto simp: eq split: if_splits option.splits)
      then show ?thesis by (intro stop [OF c]) auto
    qed
  qed
qed

lemma conclude_stage: "out_Stage (fst (fst (conclude xt orc p reg tr w))) \<notin> {StageBlocked, StageNone}"
proof (cases rule: conclude_cases [of xt orc p reg tr w])
  case (persist re m1 m2 w3 out2)
  show ?thesis unfolding persist(10) using persist_stage [of xt orc p "post_model xt orc p re m2" out2 w3] by simp
qed auto

lemma transact_stage: "out_Stage (fst (transact xt orc p w)) \<notin> {StageBlocked, StageNone}"
proof -
  let ?reg = "bound_registry orc (op_Plan p) (ow_Record w)"
  obtain tr w1 where 1: "run_engine xt orc p ?reg w = (tr, w1)" by fastforce
  obtain out att w2 where 2: "conclude xt orc p ?reg tr w1 = ((out, att), w2)" by (metis surj_pair)
  obtain e w3 where 3: "finalizeJournal xt orc out w2 = (e, w3)" by fastforce
  have "out_Stage (fst (transact xt orc p w)) = out_Stage out"
    by (cases e) (simp_all add: transact_def Let_def 1 2 3)
  with conclude_stage [of xt orc p ?reg tr w1] 2 show ?thesis by simp
qed

lemma open_transaction_frame:
  assumes "open_transaction xt orc p c w = (r, w')"
  shows "ow_Machine w' = ow_Machine w \<and> ow_State w' = ow_State w
    \<and> (\<forall>n e. jlookup (ow_Journal w) n = Some e \<longrightarrow> jlookup (ow_Journal w') n = Some e)"
proof -
  obtain b j where b: "BlockingRecords (ow_Journal w) = (b, j)" by fastforce
  have l: "jlookup j = jlookup (ow_Journal w)" by (rule quiet_after [OF quiet_blocking(1) b])
  have bg: "jlookup j n = Some e \<Longrightarrow> jlookup (snd (Begin now rec j)) n = Some e" for now rec n e
    using Begin_effect [of now rec j] by (auto split: if_splits)
  have "w' = w \<or> w' = w\<lparr>ow_Journal := j\<rparr> \<or> (\<exists>now rec j2 o1. j2 = snd (Begin now rec j)
      \<and> (w' = w\<lparr>ow_Journal := j2\<rparr> \<or> w' = w\<lparr>ow_Journal := j2, ow_Record := o1\<rparr>))"
    using assms unfolding open_transaction_def b
    by (auto simp: Let_def split: if_splits sum.splits option.splits prod.splits) (metis snd_conv)+
  with l bg show ?thesis by auto
qed


lemma locked_blocked:
  assumes "locked_run xt orc p c w = (out, w')" and "out_Stage out = StageBlocked"
  shows "(ow_Machine w, ow_Machine w') \<in> (readonly_steps orc)\<^sup>* \<and> ow_State w' = ow_State w
    \<and> (\<forall>n e. jlookup (ow_Journal w) n = Some e \<longrightarrow> jlookup (ow_Journal w') n = Some e) \<and> out_Transaction out = None"
proof -
  obtain st m1 where s: "staleness xt orc p (ow_Machine w) = (st, m1)" by fastforce
  obtain bs m2 where b: "executorPreflightBlockers orc (op_Plan p) m1 = (bs, m2)" by fastforce
  have r1: "(ow_Machine w, m1) \<in> (readonly_steps orc)\<^sup>*" using staleness_readonly s by (metis snd_conv)
  have r2: "(ow_Machine w, m2) \<in> (readonly_steps orc)\<^sup>*"
    using rtrancl_trans [OF r1 preflight_readonly] b by (metis snd_conv)
  let ?w2 = "w\<lparr>ow_Machine := m1\<rparr>\<lparr>ow_Machine := m2, ow_Record := None\<rparr>"
  obtain o2 w3 where o: "open_transaction xt orc p c ?w2 = (o2, w3)" by fastforce
  note run = assms(1) [unfolded locked_run_def s b Let_def prod.case o]
  show ?thesis
  proof (cases "st = None \<and> bs = []")
    case False
    with run r1 r2 show ?thesis by (cases st) (auto split: if_splits)
  next
    case True
    have nt: "transact xt orc p v \<noteq> (out, w')" for v using transact_stage [of xt orc p v] assms(2) by auto
    show ?thesis
    proof (cases o2)
      case (Inl e)
      with run True nt have "planHasMutation orc (op_Plan p)" "w' = w3" "out_Transaction out = None" by (auto split: if_splits)
      with open_transaction_frame [OF o] r2 show ?thesis by simp
    next
      case (Inr r)
      with run True nt show ?thesis by (simp split: if_splits)
    qed
  qed
qed

lemma Execute_blocked_unpersisted:
  assumes "Execute xt orc p c mgmt w = (out, w')" and "out_Stage out = StageBlocked"
  shows "\<not> out_Persisted out"
proof -
  have "out_Stage (fst (transact xt orc p v)) \<noteq> StageBlocked" for v using transact_stage by blast
  then have t: "transact xt orc p v = (o1, v1) \<Longrightarrow> out_Stage o1 \<noteq> StageBlocked" for v o1 v1 by (metis fst_conv)
  show ?thesis using assms
    by (auto simp: Execute_def locked_run_def Let_def dest: t split: option.splits prod.splits if_splits sum.splits)
qed

lemma Execute_blocked:
  assumes "Execute xt orc p c mgmt w = (out, w')" and "out_Stage out = StageBlocked"
  shows "(ow_Machine w, ow_Machine w') \<in> (readonly_steps orc)\<^sup>* \<and> ow_State w' = ow_State w
    \<and> (\<forall>n e. jlookup (ow_Journal w) n = Some e \<longrightarrow> jlookup (ow_Journal w') n = Some e) \<and> out_Transaction out = None"
proof (cases "pre_gates xt orc p c mgmt")
  case None
  obtain e m1 where a: "orc_Acquire orc (ow_Machine w) = (e, m1)" by fastforce
  have r: "(ow_Machine w, m1) \<in> readonly_steps orc" using readonly_basic(2) a by (metis snd_conv)
  obtain o1 w1 where l: "locked_run xt orc p c (w\<lparr>ow_Machine := m1\<rparr>) = (o1, w1)" by fastforce
  show ?thesis
  proof (cases e)
    case Some
    with assms None a r show ?thesis by (auto simp: Execute_def)
  next
    case N: None
    with assms None a l have x: "o1 = out" "w' = w1\<lparr>ow_Machine := orc_Release orc (ow_Machine w1)\<rparr>"
      by (auto simp: Execute_def Let_def)
    from locked_blocked [OF l] x assms(2) have h: "(m1, ow_Machine w1) \<in> (readonly_steps orc)\<^sup>*" "ow_State w1 = ow_State w"
      "\<forall>n e. jlookup (ow_Journal w) n = Some e \<longrightarrow> jlookup (ow_Journal w1) n = Some e" "out_Transaction out = None" by auto
    have "(ow_Machine w, ow_Machine w1) \<in> (readonly_steps orc)\<^sup>*"
      using converse_rtrancl_into_rtrancl [OF r h(1)] by simp
    from rtrancl_into_rtrancl [OF this readonly_basic(3)] h x show ?thesis by simp
  qed
qed (use assms in \<open>auto simp: Execute_def\<close>)

text \<open>
  C27. A blocked run changes nothing that counts. When \<open>Execute\<close> reports \<open>BLOCKED_PRE_MUTATION\<close>, at whichever
  gate, the machine has only seen discovery, executor preflight checks and the lock, the state file is
  untouched, and every journal entry that existed is still there unchanged.
\<close>

theorem blocked_run_readonly:
  assumes "Execute xt orc p c mgmt w = (out, w')" and "out_Stage out = StageBlocked"
  shows "(ow_Machine w, ow_Machine w') \<in> (readonly_steps orc)\<^sup>* \<and> ow_State w' = ow_State w
    \<and> (\<forall>n e. jlookup (ow_Journal w) n = Some e \<longrightarrow> jlookup (ow_Journal w') n = Some e)"
  using Execute_blocked [OF assms] by blast

subsection \<open>What an unblocked run has passed\<close>

lemma managementBlockers_None:
  "managementBlockers p results = [] \<longleftrightarrow>
     (\<forall>port \<in> set (requiredManagementPorts p). \<exists>r \<in> set results. pr_Port r = port \<and> pr_Reachable r)"
  by (auto simp: managementBlockers_def filter_empty_conv list_ex_iff)

lemma pre_gates_None:
  assumes "pre_gates xt orc p c mgmt = None"
  shows "op_Ready p \<and> \<not> p_Blocked (op_Plan p) \<and> pf_Status (op_Preflight p) = PreflightReady
    \<and> ValidatePlanTypedSpecs (op_Plan p) = [] \<and> capability_blockers orc (op_Plan p) = None
    \<and> MissingExecutors (op_Plan p) (registered orc) = [] \<and> (planHasMutation orc (op_Plan p) \<longrightarrow> op_Prepared p)
    \<and> Confirm xt orc p c = None \<and> managementBlockers (op_Plan p) mgmt = []"
  using assms by (auto simp: pre_gates_def split: if_splits option.splits)

lemma open_transaction_gates:
  assumes "open_transaction xt orc p c w = (Inr rec, w')"
  shows "orc_HasJournal orc \<and> fst (BlockingRecords (ow_Journal w)) = Inr []
    \<and> ow_Record w' = Some rec \<and> jlookup (ow_Journal w') (file_name (jr_TransactionID rec)) = Some (JRecord rec)
    \<and> js_dir (ow_Journal w') \<and> jr_Outcome rec = '''' \<and> jr_PlanFingerprint rec = xt_Fingerprint xt (op_Plan p)
    \<and> map jar_ID (jr_Actions rec) = map a_ID (p_Actions (op_Plan p)) \<and> ow_Machine w' = ow_Machine w \<and> ow_State w' = ow_State w"
proof -
  obtain b j where b: "BlockingRecords (ow_Journal w) = (b, j)" by fastforce
  from assms b have nb: "orc_HasJournal orc" "b = Inr []"
    by (auto simp: open_transaction_def Let_def split: if_splits sum.splits)
  from assms b nb obtain hashes host now tr j2 u where
    r: "tr = transaction_record xt orc p c hashes host (ow_Machine w)" "rec = begun now tr"
    and bg: "Begin now tr j = (Inr u, j2)" and w': "w' = w\<lparr>ow_Journal := j\<rparr>\<lparr>ow_Journal := j2, ow_Record := Some rec\<rparr>"
    by (auto simp: open_transaction_def Let_def split: if_splits sum.splits option.splits prod.splits)
  have f: "jr_TransactionID rec = jr_TransactionID tr" by (simp add: r(2) begun_def)
  from Begin_ok [OF bg] w' f have "jlookup (ow_Journal w') (file_name (jr_TransactionID rec)) = Some (JRecord rec) \<and> js_dir (ow_Journal w')"
    by (simp add: r(2))
  with nb b w' show ?thesis
    by (simp add: r begun_def transaction_record_def journalActionRecords_def comp_def)
qed


text \<open>A plan with a validation among its actions never becomes a transaction: it has no retry class.\<close>

lemma validate_action_refused:
  assumes "a \<in> set (p_Actions (op_Plan p))" and "a_Kind a = ActionValidate"
  shows "fst (open_transaction xt orc p c w) \<noteq> Inr rec"
proof -
  have "find (\<lambda>a. \<not> retry_classified (a_Kind a)) (p_Actions (op_Plan p)) \<noteq> None"
    using assms by (auto simp: find_None_iff retry_classified_def intro!: bexI [of _ a])
  then show ?thesis
    by (auto simp: open_transaction_def Let_def split: if_splits sum.split option.split prod.split)
qed


lemma locked_unblocked:
  assumes "locked_run xt orc p c w = (out, w')" and "out_Stage out \<noteq> StageBlocked"
  obtains m1 m2 w3 where "staleness xt orc p (ow_Machine w) = (None, m1)"
    "executorPreflightBlockers orc (op_Plan p) m1 = ([], m2)"
    "if planHasMutation orc (op_Plan p)
     then \<exists>rec. open_transaction xt orc p c (w\<lparr>ow_Machine := m2, ow_Record := None\<rparr>) = (Inr rec, w3)
     else w3 = w\<lparr>ow_Machine := m2, ow_Record := None\<rparr>"
    "transact xt orc p w3 = (out, w')"
proof -
  obtain st m1 where s: "staleness xt orc p (ow_Machine w) = (st, m1)" by fastforce
  obtain bs m2 where b: "executorPreflightBlockers orc (op_Plan p) m1 = (bs, m2)" by fastforce
  let ?w2 = "w\<lparr>ow_Machine := m2, ow_Record := None\<rparr>"
  obtain o2 w3 where o: "open_transaction xt orc p c ?w2 = (o2, w3)" by fastforce
  have eq: "w\<lparr>ow_Machine := m1\<rparr>\<lparr>ow_Machine := m2, ow_Record := None\<rparr> = ?w2" by simp
  note run = assms(1) [unfolded locked_run_def s b Let_def prod.case eq o]
  have g: "st = None" "bs = []" using run assms(2) by (auto split: option.splits if_splits)
  show ?thesis
  proof (cases "planHasMutation orc (op_Plan p)")
    case True
    with run g assms(2) obtain rec where "o2 = Inr rec" "transact xt orc p w3 = (out, w')"
      by (cases o2) auto
    with that [of m1 m2 w3] s b g True o show ?thesis by simp
  next
    case False
    with run g have "transact xt orc p ?w2 = (out, w')" by simp
    with that [of m1 m2 ?w2] s b g False show ?thesis by simp
  qed
qed

lemma Execute_unblocked:
  assumes "Execute xt orc p c mgmt w = (out, w')" and "out_Stage out \<noteq> StageBlocked"
  obtains m0 w1 where "pre_gates xt orc p c mgmt = None" "orc_Acquire orc (ow_Machine w) = (None, m0)"
    "locked_run xt orc p c (w\<lparr>ow_Machine := m0\<rparr>) = (out, w1)" "w' = w1\<lparr>ow_Machine := orc_Release orc (ow_Machine w1)\<rparr>"
proof -
  obtain e m0 where a: "orc_Acquire orc (ow_Machine w) = (e, m0)" by fastforce
  obtain o1 w1 where l: "locked_run xt orc p c (w\<lparr>ow_Machine := m0\<rparr>) = (o1, w1)" by fastforce
  from assms a have "pre_gates xt orc p c mgmt = None" "e = None" by (auto simp: Execute_def split: option.splits)
  with that [of m0 w1] assms a l show ?thesis by (simp add: Execute_def Let_def)
qed

lemma capability_blockers_None:
  "capability_blockers orc p = None \<longleftrightarrow> (\<forall>derive. orc_Derive orc = Some derive \<longrightarrow>
     (\<exists>required carried. derive p = Inr required \<and> NewCapabilitySet (p_Capabilities p) = Inr carried
        \<and> gv_Status (VerifyCapabilityGrant required carried) = GrantSatisfied))"
  by (auto simp: capability_blockers_def Let_def split: option.split sum.split)

lemma missing_kinds_None: "missing_kinds reg [] as = [] \<Longrightarrow> a \<in> set as \<Longrightarrow> reg (a_Kind a)"
  by (induction as) (auto split: if_splits)

text \<open>The plan a fresh run of the pipeline gives on a machine.\<close>

definition fresh_plan :: "External \<Rightarrow> 'm Orchestrator \<Rightarrow> OPlan \<Rightarrow> 'm \<Rightarrow> Plan" where
  "fresh_plan xt orc p m = fold_capabilities xt orc (res_Plan (fst (assemble_on xt orc (op_Config p) (op_Options p) m)))"

lemma staleness_None:
  "staleness xt orc p m = (None, m1) \<Longrightarrow> op_Prepared p \<Longrightarrow> xt_Fingerprint xt (fresh_plan xt orc p m) = xt_Fingerprint xt (op_Plan p)"
  by (auto simp: staleness_def fresh_plan_def fold_capabilities_def Let_def split: prod.splits sum.splits option.splits if_splits)

lemma staleness_open:
  assumes "staleness xt orc p m = (None, m1)"
  shows "m1 = (if op_Prepared p then snd (assemble_on xt orc (op_Config p) (op_Options p) m) else m)"
    and "op_Prepared p \<Longrightarrow> orc_Derive orc = Some derive \<Longrightarrow>
      \<exists>s. derive (res_Plan (fst (assemble_on xt orc (op_Config p) (op_Options p) m))) = Inr s"
  using assms by (auto simp: staleness_def Let_def split: prod.splits sum.splits option.splits if_splits)

lemma open_transaction_record:
  assumes "open_transaction xt orc p c w = (Inr rec, w')"
  shows "(\<forall>a \<in> set (p_Actions (op_Plan p)). retry_classified (a_Kind a))
    \<and> (\<exists>hashes host. planSpecHashes xt (p_Actions (op_Plan p)) = Inr hashes
         \<and> acquireHostIdentity orc (ow_Machine w) = Inr host \<and> \<not> host_mismatch orc host
         \<and> rec = begun (orc_Now orc (ow_Machine w)) (transaction_record xt orc p c hashes host (ow_Machine w)))"
proof -
  obtain b j where b: "BlockingRecords (ow_Journal w) = (b, j)" by fastforce
  from assms b have nb: "orc_HasJournal orc" "b = Inr []"
    "find (\<lambda>a. \<not> retry_classified (a_Kind a)) (p_Actions (op_Plan p)) = None"
    by (auto simp: open_transaction_def Let_def split: if_splits sum.splits option.splits)
  from nb(3) have "\<forall>a \<in> set (p_Actions (op_Plan p)). retry_classified (a_Kind a)" by (auto simp: find_None_iff)
  with assms b nb show ?thesis
    by (auto simp: open_transaction_def Let_def split: if_splits sum.splits prod.splits)
qed

text \<open>
  C26. No run gets past its gates unless all of them are open. When \<open>Execute\<close> ends in any stage but
  \<open>BLOCKED_PRE_MUTATION\<close>, the plan was ready, unblocked, with a ready preflight and typed specifications, the
  carried capabilities are the derived ones, an executor is registered for every action, the confirmation was
  accepted, every new management port was probed as reachable, and the lock was taken. Under the lock a
  prepared plan, read-only or not, was derived again with the same fingerprint, and the executors'
  preflight checks were run again and reported nothing; the engine started on the machine they left.
  Where the plan mutates, it was prepared, no journal record blocks, every action has a retry class and a
  specification hash, the host identity was acquired and is the verifier's, and the engine started from a
  world where the transaction's record, made of these, is durable and unfinished. A read-only plan needs no
  journal and opens no record.
\<close>

theorem unblocked_run_gated:
  assumes "Execute xt orc p c mgmt w = (out, w')" and "out_Stage out \<noteq> StageBlocked"
  shows "op_Ready p \<and> \<not> p_Blocked (op_Plan p) \<and> pf_Status (op_Preflight p) = PreflightReady
    \<and> ValidatePlanTypedSpecs (op_Plan p) = [] \<and> (\<forall>a \<in> set (p_Actions (op_Plan p)). registered orc (a_Kind a))
    \<and> Confirm xt orc p c = None
    \<and> (\<forall>derive. orc_Derive orc = Some derive \<longrightarrow>
         (\<exists>required carried. derive (op_Plan p) = Inr required \<and> NewCapabilitySet (p_Capabilities (op_Plan p)) = Inr carried
            \<and> gv_Status (VerifyCapabilityGrant required carried) = GrantSatisfied))
    \<and> (\<forall>port \<in> set (requiredManagementPorts (op_Plan p)). \<exists>r \<in> set mgmt. pr_Port r = port \<and> pr_Reachable r)
    \<and> (\<exists>m0 m1 m2 w1 w2. orc_Acquire orc (ow_Machine w) = (None, m0)
         \<and> m1 = (if op_Prepared p then snd (assemble_on xt orc (op_Config p) (op_Options p) m0) else m0)
         \<and> executorPreflightBlockers orc (op_Plan p) m1 = ([], m2)
         \<and> (op_Prepared p \<longrightarrow>
              xt_Fingerprint xt (fresh_plan xt orc p m0) = xt_Fingerprint xt (op_Plan p)
              \<and> (\<forall>derive. orc_Derive orc = Some derive \<longrightarrow>
                   (\<exists>s. derive (res_Plan (fst (assemble_on xt orc (op_Config p) (op_Options p) m0))) = Inr s)))
         \<and> ow_Machine w1 = m2 \<and> ow_State w1 = ow_State w
         \<and> transact xt orc p w1 = (out, w2) \<and> w' = w2\<lparr>ow_Machine := orc_Release orc (ow_Machine w2)\<rparr>
         \<and> (if planHasMutation orc (op_Plan p)
            then op_Prepared p \<and> orc_HasJournal orc \<and> fst (BlockingRecords (ow_Journal w)) = Inr []
              \<and> (\<forall>a \<in> set (p_Actions (op_Plan p)). retry_classified (a_Kind a))
              \<and> (\<exists>hashes host rec. planSpecHashes xt (p_Actions (op_Plan p)) = Inr hashes
                   \<and> acquireHostIdentity orc m2 = Inr host \<and> \<not> host_mismatch orc host
                   \<and> rec = begun (orc_Now orc m2) (transaction_record xt orc p c hashes host m2)
                   \<and> ow_Record w1 = Some rec \<and> jr_Outcome rec = ''''
                   \<and> jlookup (ow_Journal w1) (file_name (jr_TransactionID rec)) = Some (JRecord rec))
            else ow_Record w1 = None \<and> ow_Journal w1 = ow_Journal w))"
proof -
  from assms obtain m0 w2 where x: "pre_gates xt orc p c mgmt = None" "orc_Acquire orc (ow_Machine w) = (None, m0)"
    "locked_run xt orc p c (w\<lparr>ow_Machine := m0\<rparr>) = (out, w2)" "w' = w2\<lparr>ow_Machine := orc_Release orc (ow_Machine w2)\<rparr>"
    by (rule Execute_unblocked)
  note g = pre_gates_None [OF x(1)]
  define wl where "wl m2 = w\<lparr>ow_Machine := m2, ow_Record := None\<rparr>" for m2
  obtain m1 m2 w3 where s0: "staleness xt orc p (ow_Machine (w\<lparr>ow_Machine := m0\<rparr>)) = (None, m1)"
    and pf: "executorPreflightBlockers orc (op_Plan p) m1 = ([], m2)"
    and o0: "if planHasMutation orc (op_Plan p)
     then \<exists>rec. open_transaction xt orc p c (w\<lparr>ow_Machine := m0\<rparr>\<lparr>ow_Machine := m2, ow_Record := None\<rparr>) = (Inr rec, w3)
     else w3 = w\<lparr>ow_Machine := m0\<rparr>\<lparr>ow_Machine := m2, ow_Record := None\<rparr>"
    and t: "transact xt orc p w3 = (out, w2)"
    by (rule locked_unblocked [OF x(3) assms(2)])
  have wl: "w\<lparr>ow_Machine := m0\<rparr>\<lparr>ow_Machine := m2, ow_Record := None\<rparr> = wl m2" by (simp add: wl_def)
  have s: "staleness xt orc p m0 = (None, m1)" using s0 by simp
  note o = o0 [unfolded wl]
  note fresh = staleness_open [OF s] staleness_None [OF s]
  have "ow_Machine w3 = m2 \<and> ow_State w3 = ow_State w \<and>
      (if planHasMutation orc (op_Plan p)
       then op_Prepared p \<and> orc_HasJournal orc \<and> fst (BlockingRecords (ow_Journal w)) = Inr []
         \<and> (\<forall>a \<in> set (p_Actions (op_Plan p)). retry_classified (a_Kind a))
         \<and> (\<exists>hashes host rec. planSpecHashes xt (p_Actions (op_Plan p)) = Inr hashes
              \<and> acquireHostIdentity orc m2 = Inr host \<and> \<not> host_mismatch orc host
              \<and> rec = begun (orc_Now orc m2) (transaction_record xt orc p c hashes host m2)
              \<and> ow_Record w3 = Some rec \<and> jr_Outcome rec = ''''
              \<and> jlookup (ow_Journal w3) (file_name (jr_TransactionID rec)) = Some (JRecord rec))
       else ow_Record w3 = None \<and> ow_Journal w3 = ow_Journal w)"
  proof (cases "planHasMutation orc (op_Plan p)")
    case True
    with o obtain rec where "open_transaction xt orc p c (wl m2) = (Inr rec, w3)" by auto
    from open_transaction_gates [OF this] open_transaction_record [OF this] g True show ?thesis
      by (simp add: wl_def) blast
  qed (use o in \<open>simp add: wl_def\<close>)
  moreover have "\<forall>a \<in> set (p_Actions (op_Plan p)). registered orc (a_Kind a)"
    using g missing_kinds_None by (auto simp: MissingExecutors_def)
  ultimately show ?thesis
    using g x(2,4) t pf fresh by (simp only: capability_blockers_None managementBlockers_None simp_thms) blast
qed


subsection \<open>The record of a running transaction\<close>

text \<open>
  What holds from \<open>Begin\<close> to the terminal write: the journal stores a record of the transaction \<open>r0\<close> whose
  outcome is still open, the open record is of the same transaction, and nothing else has changed.
\<close>

definition same_run :: "JournalRecord \<Rightarrow> JournalRecord \<Rightarrow> bool" where
  "same_run r0 r \<longleftrightarrow> jr_TransactionID r = jr_TransactionID r0 \<and> jr_PlanFingerprint r = jr_PlanFingerprint r0
     \<and> jr_Outcome r = jr_Outcome r0 \<and> map jar_ID (jr_Actions r) = map jar_ID (jr_Actions r0)"

definition running :: "JournalRecord \<Rightarrow> 'm OWorld \<Rightarrow> 'm OWorld \<Rightarrow> bool" where
  "running r0 w0 w \<longleftrightarrow> js_dir (ow_Journal w) \<and> ow_State w = ow_State w0
     \<and> (\<exists>rec. ow_Record w = Some rec \<and> same_run r0 rec)
     \<and> (\<exists>d. jlookup (ow_Journal w) (file_name (jr_TransactionID r0)) = Some (JRecord d) \<and> same_run r0 d)
     \<and> (\<forall>n. n \<noteq> file_name (jr_TransactionID r0) \<longrightarrow> jlookup (ow_Journal w) n = jlookup (ow_Journal w0) n)"

lemma same_run_refl [simp]: "same_run r r"
  by (simp add: same_run_def)

lemma same_run_updated [simp]: "same_run r0 (r\<lparr>jr_UpdatedAt := t\<rparr>) = same_run r0 r"
  by (simp add: same_run_def)

lemma update_first_map:
  assumes "\<And>a. g (f a) = g a"
  shows "update_first f i as = Some bs \<Longrightarrow> map g bs = map g as"
  by (induction as arbitrary: bs) (auto simp: assms split: if_splits)

lemma journal_update_parts:
  "snd (journal_update xt orc rec w)
    = w\<lparr>ow_Journal := snd (Update (orc_Now orc (ow_Machine w)) rec (ow_Journal w)), ow_Record := Some rec\<rparr>"
  "fst (journal_update xt orc rec w) = None \<longleftrightarrow> fst (Update (orc_Now orc (ow_Machine w)) rec (ow_Journal w)) = Inr ()"
  by (simp_all add: journal_update_def split: sum.split prod.split)

lemma running_update:
  assumes "running r0 w0 w" and "same_run r0 rec"
  shows "running r0 w0 (snd (journal_update xt orc rec w))"
proof -
  note u = journal_update_parts(1) [of xt orc rec w]
  have d: "js_dir (snd (Update (orc_Now orc (ow_Machine w)) rec (ow_Journal w)))"
    using keeps_dir_Update assms(1) by (auto simp: keeps_dir_def running_def)
  have t: "jr_TransactionID rec = jr_TransactionID r0" using assms(2) by (simp add: same_run_def)
  from Update_failed [of "orc_Now orc (ow_Machine w)" rec "ow_Journal w"] show ?thesis
  proof
    assume "jlookup (snd (Update (orc_Now orc (ow_Machine w)) rec (ow_Journal w))) = jlookup (ow_Journal w)"
    with assms d show ?thesis by (simp add: u running_def)
  next
    assume "jlookup (snd (Update (orc_Now orc (ow_Machine w)) rec (ow_Journal w)))
      = (jlookup (ow_Journal w))(file_name (jr_TransactionID rec) \<mapsto> JRecord (rec\<lparr>jr_UpdatedAt := orc_Now orc (ow_Machine w)\<rparr>))"
    with assms d show ?thesis by (simp add: u running_def t)
  qed
qed

lemma running_event: "running r0 w0 w \<Longrightarrow> running r0 w0 (snd (record_event xt orc ev i w))"
proof -
  assume r: "running r0 w0 w"
  then obtain rec where rec: "ow_Record w = Some rec" "same_run r0 rec" by (auto simp: running_def)
  show ?thesis
  proof (cases "update_first (\<lambda>a. a\<lparr>jar_Status := event_string ev\<rparr>) i (jr_Actions rec)")
    case (Some acts)
    have "map jar_ID acts = map jar_ID (jr_Actions rec)" by (rule update_first_map [OF _ Some]) simp
    with rec(2) have "same_run r0 (rec\<lparr>jr_Actions := acts\<rparr>)" by (simp add: same_run_def)
    from running_update [OF r this] rec Some show ?thesis by (simp add: record_event_def)
  qed (use r rec in \<open>simp add: record_event_def\<close>)
qed

text \<open>An executor lifted to the world changes the machine only.\<close>

definition machine_rel :: "('m OWorld \<times> 'm OWorld) set" where
  "machine_rel = {(w, w\<lparr>ow_Machine := m\<rparr>) | w m. True}"

lemma on_machine_rel: "(w, snd (on_machine f w)) \<in> machine_rel"
  by (auto simp: on_machine_def machine_rel_def split: prod.split)

interpretation world: confined_executor "world_executor ex" machine_rel
  by unfold_locales (auto simp: world_executor_def intro!: r_into_rtrancl on_machine_rel)

lemma running_engine:
  assumes "running r0 w0 w" and "run_engine xt orc p reg w = (tr, w1)"
  shows "running r0 w0 w1"
proof -
  let ?e = "\<lparr>eng_Executor = Some (world_executor (registry_executor reg)), eng_Now = (\<lambda>w. orc_Now orc (ow_Machine w)), eng_ID = None,
        eng_Progress = progressSink xt orc\<rparr>"
  have "(w, w1) \<in> (machine_rel \<union> sink_rel ?e)\<^sup>*"
    using world.engine_in [of ?e "registry_executor reg" w "op_Plan p"] assms(2) unfolding run_engine_def
    by (metis Engine.select_convs(1) snd_conv)
  then show ?thesis
  proof (induction rule: rtrancl_induct)
    case (step y z)
    from step(2) consider m where "z = y\<lparr>ow_Machine := m\<rparr>" | ev i where "z = snd (progress ?e ev i y)"
      by (auto simp: machine_rel_def sink_rel_def)
    then show ?case
    proof cases
      case 1
      with step show ?thesis by (simp add: running_def)
    next
      case 2
      with step running_event show ?thesis by (auto simp: progress_def progressSink_def split: if_splits)
    qed
  qed (rule assms(1))
qed

lemma running_begins:
  assumes "open_transaction xt orc p c w = (Inr rec, w')"
  shows "running rec w' w'"
  using open_transaction_gates [OF assms] by (auto simp: running_def)


subsection \<open>Results of the engine\<close>

lemma rollback_ids: "ar_ActionID ` set (fst (rollback e ex cs st)) = ar_ActionID ` set (fst st)"
  using rollback_frame(1) [of e ex cs st] by (metis list.set_map)

lemma rollback_failed_id: "ar_ActionID (fst (rollback_failed e ex a r s)) = ar_ActionID r"
  by (auto simp: rollback_failed_def Let_def split: prod.split option.split)

lemma fail_ids:
  "ar_ActionID ` set (fst (snd (snd (fail_backup e ex a m rs c s)))) \<subseteq> insert (a_ID a) (ar_ActionID ` set rs)"
  "ar_ActionID ` set (fst (snd (snd (fail_apply e ex a m rs c s)))) \<subseteq> insert (a_ID a) (ar_ActionID ` set rs)"
  "ar_ActionID ` set (fst (snd (snd (fail_validate e ex a m rs c s)))) \<subseteq> insert (a_ID a) (ar_ActionID ` set rs)"
proof -
  have r: "ar_ActionID ` set (fst (rollback e ex cs (rs @ [(pending a)\<lparr>ar_Status := st, ar_Error := m\<rparr>], s1)))
      = insert (a_ID a) (ar_ActionID ` set rs)" for cs st s1
    using rollback_ids [of e ex cs "(rs @ [(pending a)\<lparr>ar_Status := st, ar_Error := m\<rparr>], s1)"] by (simp add: pending_def)
  show "ar_ActionID ` set (fst (snd (snd (fail_backup e ex a m rs c s)))) \<subseteq> insert (a_ID a) (ar_ActionID ` set rs)"
    "ar_ActionID ` set (fst (snd (snd (fail_validate e ex a m rs c s)))) \<subseteq> insert (a_ID a) (ar_ActionID ` set rs)"
    by (simp_all add: fail_backup_def fail_validate_def Let_def r case_prod_beta)
  have upd: "ar_ActionID ` set (xs[k := x]) \<subseteq> insert (ar_ActionID x) (ar_ActionID ` set xs)" for xs k x
    using set_update_subset_insert [of xs k x] by blast
  have id: "ar_ActionID r2 = a_ID a" if "rollback_failed e ex a ((pending a)\<lparr>ar_Status := st, ar_Error := m\<rparr>) s2 = (r2, s3)" for st s2 r2 s3
    using rollback_failed_id [of e ex a "(pending a)\<lparr>ar_Status := st, ar_Error := m\<rparr>" s2] that by (simp add: pending_def)
  obtain xs s2 where 1: "rollback e ex c (rs @ [(pending a)\<lparr>ar_Status := ''APPLY_FAILED'', ar_Error := m\<rparr>],
      snd (progress e ProgressApplyFailed (a_ID a) s)) = (xs, s2)" by fastforce
  obtain r2 s3 where 2: "rollback_failed e ex a ((pending a)\<lparr>ar_Status := ''APPLY_FAILED'', ar_Error := m\<rparr>) s2 = (r2, s3)" by fastforce
  have "fst (snd (snd (fail_apply e ex a m rs c s))) = xs[length xs - 1 := r2]"
    by (simp add: fail_apply_def Let_def 1 2)
  with upd [of xs "length xs - 1" r2] id [OF 2] r [of c "''APPLY_FAILED''" "snd (progress e ProgressApplyFailed (a_ID a) s)"] 1
  show "ar_ActionID ` set (fst (snd (snd (fail_apply e ex a m rs c s)))) \<subseteq> insert (a_ID a) (ar_ActionID ` set rs)"
    by auto
qed

lemma run_actions_ids:
  "ar_ActionID ` set (fst (snd (snd (run_actions e ex as rs c s)))) \<subseteq> ar_ActionID ` set rs \<union> a_ID ` set as"
proof (induction as arbitrary: rs c s)
  case (Cons a as)
  have sub: "X \<subseteq> insert (a_ID a) R \<Longrightarrow> X \<subseteq> R \<union> a_ID ` set (a # as)" for X R by auto
  have "ar_ActionID ` set (fst (snd (snd (run_actions e ex as (rs @ [(pending a)\<lparr>ar_Status := ''APPLIED''\<rparr>]) c2 s2))))
      \<subseteq> ar_ActionID ` set rs \<union> a_ID ` set (a # as)" for c2 s2
    using Cons [of "rs @ [(pending a)\<lparr>ar_Status := ''APPLIED''\<rparr>]" c2 s2] by (auto simp: pending_def)
  then show ?case using sub fail_ids [of e ex a _ rs c]
    by (simp add: Let_def split: prod.split option.split)
qed simp

lemma engine_results:
  assumes "Engine_Apply e p g s = (t, s')"
  shows "ar_ActionID ` set (t_Actions t) \<subseteq> a_ID ` set (p_Actions p)"
    and "t_Status t = StatusApplied \<Longrightarrow> \<forall>r \<in> set (t_Actions t). \<not> rollback_failed_result r"
proof -
  have b: "t_Actions (blocked t0 rs) = t_Actions t0" "t_Status (blocked t0 rs) = StatusBlocked" for t0 rs
    by (simp_all add: blocked_def split: list.split)
  show "ar_ActionID ` set (t_Actions t) \<subseteq> a_ID ` set (p_Actions p)"
    using assms run_actions_ids [of e _ "p_Actions p" "[]" "[]" s]
    by (auto simp: Engine_Apply_def Let_def b split: if_splits option.splits prod.splits)
      (metis fst_conv image_eqI snd_conv subsetD)+
  assume st: "t_Status t = StatusApplied"
  with assms obtain ex where ex: "eng_Executor e = Some ex" "t_Actions t = fst (snd (snd (run_actions e ex (p_Actions p) [] [] s)))"
    "fst (run_actions e ex (p_Actions p) [] [] s) = StatusApplied"
    by (auto simp: Engine_Apply_def Let_def b split: if_splits option.splits prod.splits)
  then obtain s1 where "clean_run e ex (p_Actions p) s = Some s1"
    by (auto simp: run_actions_status split: if_splits)
  from run_actions_clean [OF this, of "[]" "[]"] ex(2)
  show "\<forall>r \<in> set (t_Actions t). \<not> rollback_failed_result r"
    by (auto simp: rollback_failed_result_def pending_def)
qed

lemma update_first_None: "update_first f i as = None \<longleftrightarrow> i \<notin> jar_ID ` set as"
  by (induction as) auto

lemma copy_all:
  assumes "fold copy_one rs (as, failed) = (as', failed')"
  shows "map jar_ID as' = map jar_ID as
    \<and> failed' = (failed \<or> (\<exists>r \<in> set rs. rollback_failed_result r \<and> ar_ActionID r \<in> jar_ID ` set as))"
  using assms
proof (induction rs arbitrary: as failed)
  case (Cons r rs)
  obtain as1 f1 where c: "copy_one r (as, failed) = (as1, f1)" by fastforce
  have "map jar_ID as1 = map jar_ID as \<and> f1 = (failed \<or> (rollback_failed_result r \<and> ar_ActionID r \<in> jar_ID ` set as))"
  proof (cases "update_first (\<lambda>a. a\<lparr>jar_Status := ar_Status r, jar_Error := ar_Error r\<rparr>) (ar_ActionID r) (rev as)")
    case None
    then have "ar_ActionID r \<notin> jar_ID ` set as" by (simp add: update_first_None)
    with None c show ?thesis by (auto simp: copy_one_def)
  next
    case (Some xs)
    have "map jar_ID xs = map jar_ID (rev as)" by (rule update_first_map [OF _ Some]) simp
    moreover from Some have "ar_ActionID r \<in> jar_ID ` set as"
      using update_first_None [of _ "ar_ActionID r" "rev as"] by (metis option.distinct(1) set_rev)
    ultimately show ?thesis using c Some by (auto simp: copy_one_def simp flip: rev_map)
  qed
  with Cons c show ?case by (metis (no_types, lifting) fold_simps(2) list.set_map set_ConsD list.set_intros)
qed simp


subsection \<open>Recovery gates\<close>

lemma blocking_stops:
  assumes "has_blocking (ow_Journal w)" and "planHasMutation orc (op_Plan p)"
  shows "out_Stage (fst (Execute xt orc p c mgmt w)) = StageBlocked"
proof (rule ccontr)
  obtain out w' where e: "Execute xt orc p c mgmt w = (out, w')" by fastforce
  assume "\<not> ?thesis"
  with e obtain m0 w1 where l: "locked_run xt orc p c (w\<lparr>ow_Machine := m0\<rparr>) = (out, w1)" "out_Stage out \<noteq> StageBlocked"
    using Execute_unblocked [OF e] by (metis fst_conv)
  from locked_unblocked [OF l] assms(2) obtain m2 rec w3
    where "open_transaction xt orc p c (w\<lparr>ow_Machine := m0\<rparr>\<lparr>ow_Machine := m2, ow_Record := None\<rparr>) = (Inr rec, w3)" by metis
  from open_transaction_gates [OF this] has_blocking_blocks [OF assms(1)] show False by simp
qed

lemma persist_transaction: "out_Transaction (fst (persist xt orc p post out w)) = out_Transaction out"
  by (simp add: persist_def Let_def split: prod.split sum.split)

lemma conclude_transaction:
  "out_Transaction (fst (fst (conclude xt orc p reg tr w))) = Some tr"
  by (cases rule: conclude_cases [of xt orc p reg tr w]) (simp_all add: persist_transaction case_prod_beta)

lemma unblocked_transaction:
  assumes "Execute xt orc p c mgmt w = (out, w')" and "out_Stage out \<noteq> StageBlocked" and "planHasMutation orc (op_Plan p)"
  obtains rec w1 w2 tr w3 o1 att w4 m where "running rec w1 w1" "ow_State w1 = ow_State w"
    "run_engine xt orc p (bound_registry orc (op_Plan p) (ow_Record w1)) w1 = (tr, w3)" "running rec w1 w3"
    "conclude xt orc p (bound_registry orc (op_Plan p) (ow_Record w1)) tr w3 = ((o1, att), w4)"
    "if att then out = o1 \<and> w2 = w4
     else w2 = snd (finalizeJournal xt orc o1 w4) \<and> out_Transaction out = out_Transaction o1 \<and> out_Stage out = out_Stage o1
       \<and> out_Persisted out = out_Persisted o1"
    "w' = w2\<lparr>ow_Machine := m\<rparr>" "jr_PlanFingerprint rec = xt_Fingerprint xt (op_Plan p)" "jr_Outcome rec = ''''"
    "map jar_ID (jr_Actions rec) = map a_ID (p_Actions (op_Plan p))" "orc_HasJournal orc"
proof -
  obtain m0 w2 where l: "locked_run xt orc p c (w\<lparr>ow_Machine := m0\<rparr>) = (out, w2)"
    and w': "w' = w2\<lparr>ow_Machine := orc_Release orc (ow_Machine w2)\<rparr>"
    using Execute_unblocked [OF assms(1,2)] by metis
  from locked_unblocked [OF l assms(2)] assms(3) obtain m2 rec w1
    where o: "open_transaction xt orc p c (w\<lparr>ow_Machine := m0\<rparr>\<lparr>ow_Machine := m2, ow_Record := None\<rparr>) = (Inr rec, w1)"
      and t: "transact xt orc p w1 = (out, w2)" by metis
  let ?reg = "bound_registry orc (op_Plan p) (ow_Record w1)"
  obtain tr w3 where e: "run_engine xt orc p ?reg w1 = (tr, w3)" by fastforce
  obtain o1 att w4 where c: "conclude xt orc p ?reg tr w3 = ((o1, att), w4)" by (metis surj_pair)
  obtain f w5 where f: "finalizeJournal xt orc o1 w4 = (f, w5)" by fastforce
  have fin: "if att then out = o1 \<and> w2 = w4
     else w2 = snd (finalizeJournal xt orc o1 w4) \<and> out_Transaction out = out_Transaction o1 \<and> out_Stage out = out_Stage o1
       \<and> out_Persisted out = out_Persisted o1"
    using t by (cases f) (auto simp: transact_def Let_def e c f split: if_splits)
  note g = open_transaction_gates [OF o]
  note r = running_begins [OF o]
  show ?thesis
    using that [OF r _ e running_engine [OF r e] c fin w'] g by auto
qed

text \<open>
  C25. A failed rollback stops the machine. If a mutating run reports an action whose rollback failed, the
  journal holds, whatever its writes did, an unfinished or latched record when the run ends, and as long as
  it does no mutating plan gets past the gates, whatever its approval.
\<close>

theorem rollback_failure_blocks:
  assumes "Execute xt orc p c mgmt w = (out, w')" and "planHasMutation orc (op_Plan p)"
    and "out_Transaction out = Some t" and "r \<in> set (t_Actions t)" and "rollback_failed_result r"
  shows "has_blocking (ow_Journal w')
    \<and> (\<forall>xt' orc' p' c' mgmt' v. ow_Journal v = ow_Journal w' \<and> planHasMutation orc' (op_Plan p')
          \<longrightarrow> out_Stage (fst (Execute xt' (orc' :: 'm Orchestrator) p' c' mgmt' v)) = StageBlocked)"
proof -
  have "out_Stage out \<noteq> StageBlocked" using Execute_blocked [OF assms(1)] assms(3) by auto
  from unblocked_transaction [OF assms(1) this assms(2)] obtain rec w1 w2 tr w3 o1 att w4 m where
    x: "run_engine xt orc p (bound_registry orc (op_Plan p) (ow_Record w1)) w1 = (tr, w3)" "running rec w1 w3"
    "conclude xt orc p (bound_registry orc (op_Plan p) (ow_Record w1)) tr w3 = ((o1, att), w4)"
    and fin: "if att then out = o1 \<and> w2 = w4
     else w2 = snd (finalizeJournal xt orc o1 w4) \<and> out_Transaction out = out_Transaction o1 \<and> out_Stage out = out_Stage o1
       \<and> out_Persisted out = out_Persisted o1"
    and w': "w' = w2\<lparr>ow_Machine := m\<rparr>" and rec: "jr_Outcome rec = ''''" "orc_HasJournal orc"
    "map jar_ID (jr_Actions rec) = map a_ID (p_Actions (op_Plan p))" by metis
  have "out_Transaction o1 = Some tr" using conclude_transaction x(3) by (metis fst_conv)
  with fin assms(3) have tr: "t = tr" by (auto split: if_splits)
  note er = engine_results [OF x(1) [unfolded run_engine_def]]
  from er(2) assms(4,5) tr have na: "t_Status tr \<noteq> StatusApplied" by blast
  with x(3) have c: "\<not> att" "w4 = w3" "out_Stage o1 = StageFailedTransaction" "out_Transaction o1 = Some tr"
    by (auto simp: conclude_def Let_def no_outcome_def)
  from x(2) obtain rec1 d where r1: "ow_Record w3 = Some rec1" "same_run rec rec1"
    and d: "jlookup (ow_Journal w3) (file_name (jr_TransactionID rec)) = Some (JRecord d)" "same_run rec d" "js_dir (ow_Journal w3)"
    by (auto simp: running_def)
  let ?f = "finalized_record rec1 o1"
  obtain as f where cp: "fold copy_one (t_Actions tr) (jr_Actions rec1, False) = (as, f)" by fastforce
  have "jar_ID ` set (jr_Actions rec1) = a_ID ` set (p_Actions (op_Plan p))"
    using r1(2) rec(3) by (metis list.set_map same_run_def)
  with copy_all [OF cp] er(1) assms(4,5) tr have f by blast
  with cp c have fr: "jr_RecoveryRequired ?f" "jr_TransactionID ?f = jr_TransactionID rec"
    using r1(2) by (simp_all add: finalized_record_def copyActionStatuses_def transaction_results_def Let_def same_run_def)
  have w2: "ow_Journal w2 = snd (Update (orc_Now orc (ow_Machine w3)) ?f (ow_Journal w3))"
    using fin c r1(1) rec(2) by (simp add: finalizeJournal_def journal_update_parts)
  have dir: "js_dir (ow_Journal w2)" unfolding w2 using keeps_dir_Update d(3) by (auto simp: keeps_dir_def)
  have "has_blocking (ow_Journal w')"
  proof (cases "jlookup (ow_Journal w2) = jlookup (ow_Journal w3)")
    case True
    with d dir rec(1) w' show ?thesis unfolding has_blocking_def same_run_def by (auto intro!: exI [of _ d])
  next
    case False
    with Update_failed [of "orc_Now orc (ow_Machine w3)" ?f "ow_Journal w3"] w2
    have "jlookup (ow_Journal w2) = (jlookup (ow_Journal w3))(file_name (jr_TransactionID ?f) \<mapsto> JRecord (?f\<lparr>jr_UpdatedAt := orc_Now orc (ow_Machine w3)\<rparr>))"
      by simp
    with dir fr w' show ?thesis unfolding has_blocking_def
      by (intro conjI exI [of _ "?f\<lparr>jr_UpdatedAt := orc_Now orc (ow_Machine w3)\<rparr>"]) simp_all
  qed
  then show ?thesis using blocking_stops by metis
qed


subsection \<open>Persisted runs\<close>

lemma SaveModel_ok:
  assumes "SaveModel fmt enc m s = (Inr u, s')"
  shows "sst_file s' = Text (Some (enc m)) \<and> m_Status m = StatusOK"
proof -
  from assms have r: "save_refusal fmt m = None" by (simp add: SaveModel_def split: option.splits)
  with assms obtain s1 where "swrite (enc m) s1 = (Inr u, s')"
    by (auto simp: SaveModel_def split: prod.splits sum.splits option.splits if_splits)
  then have "sst_file s' = Text (Some (enc m))"
    by (auto simp: swrite_def sfault_def split: list.splits option.splits if_splits)
  moreover have "m_Status m = StatusOK" using r by (simp add: save_refusal_def split: if_splits)
  ultimately show ?thesis ..
qed

lemma persist_ok:
  assumes "persist xt orc p post out w = (out', w')" and "out_Persisted out'" and "\<not> out_Persisted out"
  shows "out' = out\<lparr>out_Persisted := True, out_Stage := StageCompleted\<rparr> \<and> jlookup (ow_Journal w') = jlookup (ow_Journal w)
    \<and> (\<exists>m. sst_file (ow_State w') = Text (Some (xt_Encode xt m)) \<and> m_Status m = StatusOK \<and> m_Diff m = m_Diff post)"
proof -
  let ?tx = "case ow_Record w of None \<Rightarrow> '''' | Some rec \<Rightarrow> jr_TransactionID rec"
  obtain b j where b: "PersistenceBlockers ?tx (planHasMutation orc (op_Plan p)) (ow_Journal w) = (b, j)" by fastforce
  have q: "jlookup j = jlookup (ow_Journal w)" by (rule quiet_after [OF quiet_blocking(2) b])
  from assms b have b': "b = Inr []" by (auto simp: persist_def Let_def split: sum.splits if_splits)
  let ?w1 = "w\<lparr>ow_Journal := j\<rparr>"
  let ?m0 = "post\<lparr>m_UpdatedAt := orc_Now orc (ow_Machine ?w1), m_Evidence := m_Evidence post
      @ (case opt_State (op_Options p) of None \<Rightarrow> [] | Some st \<Rightarrow> m_Evidence st)\<rparr>"
  let ?mint = "case ow_Record ?w1 of None \<Rightarrow> Inr ?m0
    | Some rec \<Rightarrow> (case MintTransactionEvidence (Some rec) (op_Plan p) (m_Evidence ?m0) of
        Inl e \<Rightarrow> Inl e | Inr mint \<Rightarrow> Inr (?m0\<lparr>m_Evidence := mo_Merged mint\<rparr>))"
  note run = assms(1) [unfolded persist_def Let_def b b' prod.case sum.case]
  obtain m1 where m1: "?mint = Inr m1"
  proof (cases ?mint)
    case (Inl e)
    with run have "out' = fail_at StageFailedFinalValidation [BText (''evidence minting: '' @ e)] out"
      by (simp only: sum.case simp_thms if_False prod.inject)
    with assms(2,3) show ?thesis by simp
  qed (rule that)
  have diff: "m_Diff m1 = m_Diff post" using m1 by (auto split: option.splits sum.splits)
  obtain r st where s: "SaveModel (xt_FormatTime xt) (xt_Encode xt) m1 (ow_State w) = (r, st)" by fastforce
  have run2: "(case SaveModel (xt_FormatTime xt) (xt_Encode xt) m1 (ow_State w) of
       (Inl e, st) \<Rightarrow> (fail_at StageFailedPersist [BStore e] out, ?w1\<lparr>ow_State := st\<rparr>)
     | (Inr _, st) \<Rightarrow> (out\<lparr>out_Persisted := True, out_Stage := StageCompleted\<rparr>, ?w1\<lparr>ow_State := st\<rparr>)) = (out', w')"
    using run m1 by (simp only: sum.case simp_thms if_False) simp
  show ?thesis
  proof (cases r)
    case Inl
    with run2 s assms(2,3) show ?thesis by auto
  next
    case (Inr u)
    with run2 s have "out' = out\<lparr>out_Persisted := True, out_Stage := StageCompleted\<rparr>" "w' = w\<lparr>ow_Journal := j, ow_State := st\<rparr>"
      by auto
    with SaveModel_ok s Inr q diff show ?thesis by auto
  qed
qed

lemma terminal_same: "same_run r0 rec \<Longrightarrow>
  jr_TransactionID (terminal_record rec tr) = jr_TransactionID r0 \<and> jr_PlanFingerprint (terminal_record rec tr) = jr_PlanFingerprint r0
  \<and> jr_Outcome (terminal_record rec tr) = ''COMPLETED'' \<and> \<not> jr_RecoveryRequired (terminal_record rec tr)
  \<and> map jar_ID (jr_Actions (terminal_record rec tr)) = map jar_ID (jr_Actions r0)"
  using copy_all [of "transaction_results tr" "jr_Actions rec" False]
  by (cases "fold copy_one (transaction_results tr) (jr_Actions rec, False)")
    (simp add: terminal_record_def copyActionStatuses_def same_run_def)

text \<open>
  C24. Nothing is recorded as last known good before it is proved. When a mutating run reports that it
  persisted, it is completed, the engine's transaction is APPLIED, the machine gate passed and the
  re-planned difference is converged; the journal holds the durable, unlatched COMPLETED record of exactly
  this plan and its actions, and the state file is the encoding of a verified model of the re-discovered
  machine.
\<close>

theorem persisted_run_recorded:
  assumes "Execute xt orc p c mgmt w = (out, w')" and "planHasMutation orc (op_Plan p)" and "out_Persisted out"
  shows "out_Stage out = StageCompleted
    \<and> (\<exists>t. out_Transaction out = Some t \<and> t_Status t = StatusApplied)
    \<and> (\<exists>vr. out_FinalValidate out = Some vr \<and> rep_Status vr = ''PASS'')
    \<and> (\<exists>r. jlookup (ow_Journal w') (file_name (jr_TransactionID r)) = Some (JRecord r) \<and> jr_Outcome r = ''COMPLETED''
         \<and> \<not> jr_RecoveryRequired r \<and> jr_PlanFingerprint r = xt_Fingerprint xt (op_Plan p)
         \<and> map jar_ID (jr_Actions r) = map a_ID (p_Actions (op_Plan p)))
    \<and> (\<exists>m. sst_file (ow_State w') = Text (Some (xt_Encode xt m)) \<and> m_Status m = StatusOK \<and> convergenceFailures (m_Diff m) = [])"
proof -
  have "out_Stage out \<noteq> StageBlocked" using Execute_blocked_unpersisted [OF assms(1)] assms(3) by auto
  from unblocked_transaction [OF assms(1) this assms(2)] obtain rec w1 w2 tr w3 o1 att w4 m where
    r: "running rec w1 w3"
    and c: "conclude xt orc p (bound_registry orc (op_Plan p) (ow_Record w1)) tr w3 = ((o1, att), w4)"
    and fin: "if att then out = o1 \<and> w2 = w4
     else w2 = snd (finalizeJournal xt orc o1 w4) \<and> out_Transaction out = out_Transaction o1 \<and> out_Stage out = out_Stage o1
       \<and> out_Persisted out = out_Persisted o1"
    and w': "w' = w2\<lparr>ow_Machine := m\<rparr>" and rec: "jr_PlanFingerprint rec = xt_Fingerprint xt (op_Plan p)"
    "map jar_ID (jr_Actions rec) = map a_ID (p_Actions (op_Plan p))" by metis
  from r obtain rec1 where rec1: "ow_Record w3 = Some rec1" "same_run rec rec1" by (auto simp: running_def)
  have "out_Persisted o1" using fin assms(3) by (auto split: if_splits)
  with c obtain re m1 m2 w5 out2 where p: "t_Status tr = StatusApplied" "orc_HasJournal orc"
    "rep_Status (ValidateDiscovery (orc_Now orc m2) re False) = ''PASS''" "convergenceFailures (m_Diff (post_model xt orc p re m2)) = []"
    "finalizeJournalTerminal xt orc (Some tr) (w3\<lparr>ow_Machine := m2\<rparr>) = (None, w5)"
    "out2 = no_outcome\<lparr>out_Transaction := Some tr, out_ReDiscovery := Some re,
         out_FinalValidate := Some (ValidateDiscovery (orc_Now orc m2) re False)\<rparr>"
    "((o1, att), w4) = ((fst (persist xt orc p (post_model xt orc p re m2) out2 w5), ow_Record w3 \<noteq> None),
          snd (persist xt orc p (post_model xt orc p re m2) out2 w5))"
    by (cases rule: conclude_cases [of xt orc p "bound_registry orc (op_Plan p) (ow_Record w1)" tr w3]) auto
  then have per: "persist xt orc p (post_model xt orc p re m2) out2 w5 = (o1, w4)" and att: "att" using rec1(1) by auto
  from persist_ok [OF per \<open>out_Persisted o1\<close>] p(6) have ok:
    "o1 = out2\<lparr>out_Persisted := True, out_Stage := StageCompleted\<rparr>" "jlookup (ow_Journal w4) = jlookup (ow_Journal w5)"
    "\<exists>m. sst_file (ow_State w4) = Text (Some (xt_Encode xt m)) \<and> m_Status m = StatusOK \<and> m_Diff m = m_Diff (post_model xt orc p re m2)"
    by (auto simp: no_outcome_def)
  let ?t = "terminal_record rec1 (Some tr)"
  have u: "journal_update xt orc ?t (w3\<lparr>ow_Machine := m2\<rparr>) = (None, w5)"
    using p(2,5) rec1(1) by (simp add: finalizeJournalTerminal_def)
  then have "Update (orc_Now orc m2) ?t (ow_Journal w3) = (Inr (), ow_Journal w5)"
    by (auto simp: journal_update_def split: sum.splits prod.splits)
  from Update_ok [OF this] have j: "jlookup (ow_Journal w5) = (jlookup (ow_Journal w3))
      (file_name (jr_TransactionID ?t) \<mapsto> JRecord (?t\<lparr>jr_UpdatedAt := orc_Now orc m2\<rparr>))" .
  have rc: "\<exists>r. jlookup (ow_Journal w') (file_name (jr_TransactionID r)) = Some (JRecord r) \<and> jr_Outcome r = ''COMPLETED''
         \<and> \<not> jr_RecoveryRequired r \<and> jr_PlanFingerprint r = xt_Fingerprint xt (op_Plan p)
         \<and> map jar_ID (jr_Actions r) = map a_ID (p_Actions (op_Plan p))"
    using terminal_same [OF rec1(2), of "Some tr"] rec fin att w' ok(2) j
    by (intro exI [of _ "?t\<lparr>jr_UpdatedAt := orc_Now orc m2\<rparr>"]) simp
  have outs: "out_Stage out = StageCompleted" "out_Transaction out = Some tr"
    "out_FinalValidate out = Some (ValidateDiscovery (orc_Now orc m2) re False)" "ow_State w' = ow_State w4"
    using fin att ok(1) p(6) w' by simp_all
  have st: "\<exists>m. sst_file (ow_State w') = Text (Some (xt_Encode xt m)) \<and> m_Status m = StatusOK \<and> convergenceFailures (m_Diff m) = []"
    using ok(3) p(4) outs(4) by metis
  show ?thesis using rc st outs p(1,3) by simp
qed


subsection \<open>Concrete runs\<close>

text \<open>
  A gateway whose one planned action restarts fail2ban. The flag makes the executor fail to apply and to roll
  back.
\<close>

definition ex_xt :: External where
  "ex_xt = \<lparr>xt_Fingerprint = (\<lambda>_. ''fp''), xt_Sha = (\<lambda>c. c), xt_Digest = (\<lambda>_ _ _. []),
     xt_Crypto = \<lparr>ed_Verify = (\<lambda>_ _ _. False), ed_Sign = (\<lambda>_ _. '''')\<rparr>,
     xt_Codec = \<lparr>co_Fields = (\<lambda>_. ''''), co_Decode = (\<lambda>_. None)\<rparr>, xt_FormatTime = (\<lambda>_. ''''), xt_Encode = (\<lambda>_. JObj []),
     xt_CapError = (\<lambda>_. ''''), xt_JournalError = (\<lambda>_. '''')\<rparr>"

definition ex_object :: "bool \<Rightarrow> unit ExecutorObject" where
  "ex_object bad = \<lparr>eo_ReadOnly = False, eo_Preflight = None,
     eo_Bound = (\<lambda>_ _. \<lparr>ex_Backup = (\<lambda>_ _ m. (None, m)), ex_Apply = (\<lambda>_ _ _ m. (if bad then Some ''boom'' else None, m)),
        ex_Validate = (\<lambda>_ _ m. (None, m)), ex_Rollback = (\<lambda>_ _ m. (if bad then Some ''stuck'' else None, m))\<rparr>)\<rparr>"

definition ex_orc :: "bool \<Rightarrow> unit Orchestrator" where
  "ex_orc bad = \<lparr>orc_Discover = (\<lambda>m. (ex_discovery, m)), orc_ByKind = (\<lambda>k. if k = ActionService then Some (ex_object bad) else None),
     orc_InspectFile = (\<lambda>_ p. Inr \<lparr>fa_Path = p, fa_Exists = True, fa_SHA256 = ''on'', fa_Mode = 384\<rparr>),
     orc_Acquire = (\<lambda>m. (None, m)), orc_Release = (\<lambda>m. m), orc_Now = (\<lambda>_. 9), orc_NewTransactionID = (\<lambda>_. ''tx-9''),
     orc_HostIdentity = Some (\<lambda>_. Inr ex_host), orc_Verifier = None, orc_Derive = None, orc_HasJournal = True\<rparr>"

definition ex_op :: OPlan where
  "ex_op = \<lparr>op_Model = ex_stored_model [], op_Plan = ex_plan, op_Preflight = \<lparr>pf_Status = PreflightReady, pf_Checks = [], pf_Blocking = []\<rparr>,
     op_Config = ex_config, op_Ready = True, op_Blockers = [], op_Options = ex_options, op_Prepared = True\<rparr>"

definition ex_confirm :: Confirmation where
  "ex_confirm = \<lparr>cf_PlanFingerprint = ''fp'', cf_ApprovedBy = ''op'', cf_At = 1, cf_Approval = None\<rparr>"

definition ex_world :: "unit OWorld" where
  "ex_world = \<lparr>ow_Machine = (), ow_Journal = \<lparr>js_files = [], js_dir = False, js_faults = []\<rparr>,
     ow_State = \<lparr>sst_file = NoFile, sst_faults = []\<rparr>, ow_Record = None\<rparr>"

lemma ex_run_good: "out_Persisted (fst (Execute ex_xt (ex_orc False) ex_op ex_confirm [] ex_world))"
  by code_simp


lemma ex_run_bad:
  "case out_Transaction (fst (Execute ex_xt (ex_orc True) ex_op ex_confirm [] ex_world)) of
     None \<Rightarrow> False | Some t \<Rightarrow> list_ex rollback_failed_result (t_Actions t)"
  by code_simp

lemma ex_run_unconfirmed:
  "out_Stage (fst (Execute ex_xt (ex_orc False) ex_op (ex_confirm\<lparr>cf_ApprovedBy := ''''\<rparr>) [] ex_world)) = StageBlocked"
  by code_simp

lemma ex_mutates: "planHasMutation (ex_orc bad) (op_Plan ex_op)"
  by (simp add: planHasMutation_def ex_orc_def ex_object_def ex_op_def ex_plan_def ex_restart_def)

theorem blocked_run_readonly_witness:
  "ow_State (snd (Execute ex_xt (ex_orc False) ex_op (ex_confirm\<lparr>cf_ApprovedBy := ''''\<rparr>) [] ex_world)) = ow_State ex_world"
  using blocked_run_readonly [OF surjective_pairing ex_run_unconfirmed] by blast

theorem unblocked_run_gated_witness:
  "out_Stage (fst (Execute ex_xt (ex_orc False) ex_op ex_confirm [] ex_world)) \<noteq> StageBlocked
   \<and> Confirm ex_xt (ex_orc False) ex_op ex_confirm = None"
proof -
  have "out_Stage (fst (Execute ex_xt (ex_orc False) ex_op ex_confirm [] ex_world)) \<noteq> StageBlocked"
    using Execute_blocked_unpersisted [OF surjective_pairing] ex_run_good by blast
  with unblocked_run_gated [OF surjective_pairing this] show ?thesis by blast
qed

theorem persisted_run_recorded_witness:
  "out_Stage (fst (Execute ex_xt (ex_orc False) ex_op ex_confirm [] ex_world)) = StageCompleted
   \<and> (\<exists>r. jlookup (ow_Journal (snd (Execute ex_xt (ex_orc False) ex_op ex_confirm [] ex_world))) (file_name (jr_TransactionID r))
          = Some (JRecord r) \<and> jr_Outcome r = ''COMPLETED'')"
  using persisted_run_recorded [OF surjective_pairing ex_mutates ex_run_good] by blast

theorem rollback_failure_blocks_witness:
  "has_blocking (ow_Journal (snd (Execute ex_xt (ex_orc True) ex_op ex_confirm [] ex_world)))"
proof -
  from ex_run_bad obtain t r where t: "out_Transaction (fst (Execute ex_xt (ex_orc True) ex_op ex_confirm [] ex_world)) = Some t"
    "r \<in> set (t_Actions t)" "rollback_failed_result r" by (auto simp: list_ex_iff split: option.splits)
  from rollback_failure_blocks [OF surjective_pairing ex_mutates t] show ?thesis by blast
qed

end
