(* ===== verification/Reconstruct.thy ===== *)
theory Reconstruct
  imports Lifecycle
begin

text \<open>
  The reconstruction of the evidence plane from the journal (\<open>internal/orchestrate\<close>: \<open>evidence_reconstruct.go\<close>) and its
  guarded persistence (\<open>evidence_recover.go\<close>). The code's maps are iterated here in the order of first
  insertion; where the order of Go's iteration could be seen, which is only in the list of conflicts, the
  theorems do not look at it. Reasons are values; \<open>orchestrate\<close>'s world and lock are those of \<open>Orchestrate\<close>.
\<close>

subsection \<open>One record (evidence_reconstruct.go)\<close>

datatype ReconstructionRecordStatus = RecordReconstructed | RecordZeroEligible | RecordSkipped

datatype SkipReason = SkipLegacySchema | SkipUnknownSchema | SkipInProgress | SkipFailedOutcome | SkipRecoveryLatched
  | SkipRollbackMetadata | SkipHostless | SkipMalformedHost | SkipNoStartedAt | SkipMintRefused

record RecordDiagnostic =
  rd_TxID :: string
  rd_Status :: ReconstructionRecordStatus
  rd_Reason :: "SkipReason option"
  rd_Detail :: string
  rd_Claims :: nat

datatype conflict_reason = CompetingTransactions "string list" | DifferentHosts "string list" | PersistedDiffers

record IdentityConflict =
  ic_Identity :: ResourceIdentity
  ic_Reason :: conflict_reason

record Reconstruction =
  rn_Claims :: "EvidenceRecord list"
  rn_Conflicts :: "IdentityConflict list"
  rn_Records :: "RecordDiagnostic list"
  rn_Latched :: "string list"

definition journalRecordsEqual :: "JournalRecord \<Rightarrow> JournalRecord \<Rightarrow> bool" where
  "journalRecordsEqual a b \<longleftrightarrow>
     jr_SchemaVersion a = jr_SchemaVersion b \<and> jr_TransactionID a = jr_TransactionID b \<and>
     jr_HostIdentity a = jr_HostIdentity b \<and> jr_PlanFingerprint a = jr_PlanFingerprint b \<and>
     jr_Stage a = jr_Stage b \<and> jr_MutationPossible a = jr_MutationPossible b \<and>
     jr_Outcome a = jr_Outcome b \<and> jr_RecoveryRequired a = jr_RecoveryRequired b \<and>
     jr_RollbackAttempted a = jr_RollbackAttempted b \<and> jr_RollbackResult a = jr_RollbackResult b \<and>
     jr_Actions a = jr_Actions b"

fun deduplicate :: "JournalRecord list \<Rightarrow> JournalRecord list \<Rightarrow> (string, JournalRecord list) result" where
  "deduplicate [] uniq = Inr uniq"
| "deduplicate (r # rs) uniq =
     (case find (\<lambda>u. jr_TransactionID u = jr_TransactionID r) uniq of
        Some prev \<Rightarrow> if journalRecordsEqual prev r then deduplicate rs uniq else Inl (jr_TransactionID r)
      | None \<Rightarrow> deduplicate rs (uniq @ [r]))"

text \<open>The switch over a record: why it is skipped, if it is, and whether it counts as latched.\<close>

definition record_gate :: "JournalRecord \<Rightarrow> (SkipReason \<times> string) option \<times> bool" where
  "record_gate rec =
     (if jr_RecoveryRequired rec \<or> jr_Outcome rec = ''RECOVERY_REQUIRED'' then (Some (SkipRecoveryLatched, ''''), True)
      else if jr_Outcome rec = ''FAILED'' then (Some (SkipFailedOutcome, ''''), jr_MutationPossible rec)
      else if jr_Outcome rec = '''' then (Some (SkipInProgress, ''''), False)
      else if jr_Outcome rec \<noteq> ''COMPLETED'' then (Some (SkipUnknownSchema, ''''), False)
      else if jr_RollbackAttempted rec \<or> jr_RollbackResult rec \<noteq> '''' then (Some (SkipRollbackMetadata, ''''), False)
      else if jr_SchemaVersion rec = 1 then (Some (SkipLegacySchema, ''''), False)
      else if \<not> IsReadableSchemaVersion (jr_SchemaVersion rec) then (Some (SkipUnknownSchema, ''''), False)
      else if jr_HostIdentity rec = '''' then (Some (SkipHostless, ''''), False)
      else if jr_StartedAt rec = 0 then (Some (SkipNoStartedAt, ''''), False)
      else case validateHostIdentity (jr_HostIdentity rec) of
        Some e \<Rightarrow> (Some (SkipMalformedHost, e), False) | None \<Rightarrow> (None, False))"

definition synthesized_action :: "ActionRecord \<Rightarrow> ActionKind \<Rightarrow> Action" where
  "synthesized_action a kind =
     \<lparr>a_ID = jar_ID a, a_Resource = jar_Resource a, a_Kind = kind, a_Ownership = Owned, a_Why = '''', a_Dependencies = [],
      a_Risk = RiskOther '''', a_Validation = '''', a_Rollback = '''',
      a_Spec = Some (empty_ActionSpec\<lparr>asp_File := Some \<lparr>fas_Path = TrimPrefix (jar_Resource a) ''file.'', fas_Content = '''',
        fas_Mode = 0, fas_Delete = False, fas_ValidatePath = ''''\<rparr>\<rparr>)\<rparr>"

fun synthesized_actions :: "ActionRecord list \<Rightarrow> (string, Action list) result" where
  "synthesized_actions [] = Inr []"
| "synthesized_actions (a # as) =
     (if jar_Kind a \<noteq> ''CREATE_FILE'' \<and> jar_Kind a \<noteq> ''UPDATE_FILE'' then synthesized_actions as
      else if \<not> HasPrefix (jar_Resource a) ''file.''
      then Inl (''action '' @ jar_ID a @ '': '' @ jar_Resource a @ '' resource lacks the file coordinate prefix'')
      else case synthesized_actions as of
        Inl e \<Rightarrow> Inl e
      | Inr bs \<Rightarrow> Inr (synthesized_action a (if jar_Kind a = ''CREATE_FILE'' then ActionCreateFile else ActionUpdateFile) # bs))"

definition synthesizedMintPlan :: "JournalRecord \<Rightarrow> (string, Plan) result" where
  "synthesizedMintPlan rec =
     (case synthesized_actions (jr_Actions rec) of
        Inl e \<Rightarrow> Inl e
      | Inr as \<Rightarrow> Inr \<lparr>p_SchemaVersion = SchemaVersion, p_Profile = '''', p_Actions = as, p_Blocked = False,
                      p_BlockReasons = [], p_Capabilities = []\<rparr>)"

definition diagnostic :: "JournalRecord \<Rightarrow> ReconstructionRecordStatus \<Rightarrow> (SkipReason \<times> string) option \<Rightarrow> nat \<Rightarrow> RecordDiagnostic" where
  "diagnostic rec st why n = \<lparr>rd_TxID = jr_TransactionID rec, rd_Status = st, rd_Reason = map_option fst why,
     rd_Detail = (case why of None \<Rightarrow> '''' | Some (_, d) \<Rightarrow> d), rd_Claims = n\<rparr>"

definition reconstruct_record :: "JournalRecord \<Rightarrow> RecordDiagnostic \<times> EvidenceRecord list" where
  "reconstruct_record rec =
     (case fst (record_gate rec) of
        Some why \<Rightarrow> (diagnostic rec RecordSkipped (Some why) 0, [])
      | None \<Rightarrow>
          (case synthesizedMintPlan rec of
             Inl e \<Rightarrow> (diagnostic rec RecordSkipped (Some (SkipMintRefused, e)) 0, [])
           | Inr plan \<Rightarrow>
               (case MintTransactionEvidence (Some rec) plan [] of
                  Inl e \<Rightarrow> (diagnostic rec RecordSkipped (Some (SkipMintRefused, e)) 0, [])
                | Inr out \<Rightarrow>
                    (diagnostic rec (if mo_Minted out = [] then RecordZeroEligible else RecordReconstructed) None
                       (length (mo_Minted out)), mo_Minted out))))"

subsection \<open>The history of an identity\<close>

definition history_key :: "EvidenceRecord \<Rightarrow> string" where
  "history_key e = evr_HostIdentity e @ CHR 0x00 # identityKey e"

definition history_of :: "EvidenceRecord list \<Rightarrow> string \<Rightarrow> EvidenceRecord list" where
  "history_of claims k = sort_key evr_MintedAt (sort_key evr_TxID (filter (\<lambda>c. history_key c = k) claims))"

text \<open>The newest claim of a history, unless another one has the same time.\<close>

definition order_history :: "EvidenceRecord list \<Rightarrow> IdentityConflict + EvidenceRecord" where
  "order_history entries =
     (let latest = last entries; competing = filter (\<lambda>e. evr_MintedAt e = evr_MintedAt latest) entries in
      if list_ex (\<lambda>e. evr_MintedAt e = evr_MintedAt latest) (butlast entries)
      then Inl \<lparr>ic_Identity = evr_Identity latest, ic_Reason = CompetingTransactions (sort (map evr_TxID competing))\<rparr>
      else Inr latest)"

definition ordered_histories :: "EvidenceRecord list \<Rightarrow> (IdentityConflict + EvidenceRecord) list" where
  "ordered_histories claims = map (\<lambda>k. order_history (history_of claims k)) (remdups (map history_key claims))"

fun lefts :: "('a + 'b) list \<Rightarrow> 'a list" where
  "lefts [] = []" | "lefts (Inl a # xs) = a # lefts xs" | "lefts (Inr b # xs) = lefts xs"

fun rights :: "('a + 'b) list \<Rightarrow> 'b list" where
  "rights [] = []" | "rights (Inl a # xs) = rights xs" | "rights (Inr b # xs) = b # rights xs"

text \<open>Claims of one identity from different hosts are not merged and neither is chosen.\<close>

definition one_host :: "EvidenceRecord list \<Rightarrow> string \<Rightarrow> IdentityConflict + EvidenceRecord" where
  "one_host winners k =
     (let cs = sort_key evr_HostIdentity (filter (\<lambda>c. identityKey c = k) winners) in
      if 1 < length cs
      then Inl \<lparr>ic_Identity = evr_Identity (hd cs), ic_Reason = DifferentHosts (map evr_HostIdentity cs)\<rparr>
      else Inr (hd cs))"

definition per_identity :: "EvidenceRecord list \<Rightarrow> (IdentityConflict + EvidenceRecord) list" where
  "per_identity winners = map (one_host winners) (sort (remdups (map identityKey winners)))"

definition claim_order :: "EvidenceRecord \<Rightarrow> string list" where
  "claim_order e = evidence_order e @ [evr_HostIdentity e]"

definition equalEvidenceRecords :: "EvidenceRecord \<Rightarrow> EvidenceRecord \<Rightarrow> bool" where
  "equalEvidenceRecords a b \<longleftrightarrow>
     evr_Identity a = evr_Identity b \<and> evr_SpecHash a = evr_SpecHash b \<and> evr_TxID a = evr_TxID b \<and>
     evr_PlanFingerprint a = evr_PlanFingerprint b \<and> evr_HostIdentity a = evr_HostIdentity b \<and> evr_MintedAt a = evr_MintedAt b"

definition merge_one :: "EvidenceRecord list \<Rightarrow> EvidenceRecord \<Rightarrow> IdentityConflict + EvidenceRecord" where
  "merge_one recs p =
     (case map_of (rev (map (\<lambda>r. (identityKey r, r)) recs)) (identityKey p) of
        None \<Rightarrow> Inr p
      | Some incoming \<Rightarrow>
          if evr_MintedAt p < evr_MintedAt incoming then Inr incoming
          else if evr_MintedAt incoming < evr_MintedAt p then Inr p
          else if equalEvidenceRecords incoming p then Inr p
          else Inl \<lparr>ic_Identity = evr_Identity p, ic_Reason = PersistedDiffers\<rparr>)"

definition mergeReconstructed :: "EvidenceRecord list \<Rightarrow> EvidenceRecord list \<Rightarrow> EvidenceRecord list \<times> IdentityConflict list" where
  "mergeReconstructed prior recs =
     (let merged = map (merge_one recs) prior in
      (sort_key claim_order (rights merged @ filter (\<lambda>r. identityKey r \<notin> set (map identityKey prior)) recs), lefts merged))"

definition conflict_order :: "IdentityConflict \<Rightarrow> string list" where
  "conflict_order c = [class_string (ri_Class (ic_Identity c)), ri_Path (ic_Identity c)]"

definition ReconstructEvidence ::
  "JournalRecord list \<Rightarrow> EvidenceRecord list \<Rightarrow> (string, Reconstruction) result" where
  "ReconstructEvidence records prior =
     (case deduplicate records [] of
        Inl tx \<Rightarrow> Inl tx
      | Inr uniq \<Rightarrow>
          let claims = concat (map (\<lambda>r. snd (reconstruct_record r)) uniq);
              ordered = ordered_histories claims;
              hosts = per_identity (rights ordered);
              reconstructed = sort_key claim_order (rights hosts);
              (merged, differing) = mergeReconstructed prior reconstructed in
          Inr \<lparr>rn_Claims = merged,
               rn_Conflicts = sort_key conflict_order (lefts ordered @ lefts hosts @ differing),
               rn_Records = sort_key rd_TxID (map (\<lambda>r. fst (reconstruct_record r)) uniq),
               rn_Latched = sort (map jr_TransactionID (filter (\<lambda>r. snd (record_gate r)) uniq))\<rparr>)"

subsection \<open>Guarded persistence (evidence_recover.go)\<close>

datatype EvidenceRecoveryStatus = EvidenceRecoveryPersisted | EvidenceRecoveryNoChange | EvidenceRecoveryBlocked
  | EvidenceRecoveryConflict

record EvidenceRecovery =
  er_Status :: EvidenceRecoveryStatus
  er_Added :: nat
  er_Replaced :: nat
  er_Blockers :: "string list"
  er_Conflicts :: "IdentityConflict list"

datatype recovery_error = RecoveryLock string | RecoveryNoJournal | RecoveryJournal journal_error | RecoveryState store_error
  | RecoveryReconstruction string | RecoverySave store_error

definition evidenceKey :: "EvidenceRecord \<Rightarrow> string" where
  "evidenceKey e = identityKey e @ CHR 0x00 # evr_HostIdentity e"

definition keyed :: "EvidenceRecord list \<Rightarrow> string \<Rightarrow> EvidenceRecord option" where
  "keyed es = map_of (rev (map (\<lambda>e. (evidenceKey e, e)) es))"

definition evidenceSetsEqual :: "EvidenceRecord list \<Rightarrow> EvidenceRecord list \<Rightarrow> bool" where
  "evidenceSetsEqual a b \<longleftrightarrow> length a = length b \<and>
     list_all (\<lambda>e. case keyed a (evidenceKey e) of None \<Rightarrow> False | Some prev \<Rightarrow> equalEvidenceRecords prev e) b"

definition evidenceDiff :: "EvidenceRecord list \<Rightarrow> EvidenceRecord list \<Rightarrow> nat \<times> nat" where
  "evidenceDiff current recs =
     (length (filter (\<lambda>e. keyed current (evidenceKey e) = None) recs),
      length (filter (\<lambda>e. case keyed current (evidenceKey e) of None \<Rightarrow> False | Some prev \<Rightarrow> \<not> equalEvidenceRecords prev e) recs))"

definition no_recovery :: "EvidenceRecoveryStatus \<Rightarrow> EvidenceRecovery" where
  "no_recovery st = \<lparr>er_Status = st, er_Added = 0, er_Replaced = 0, er_Blockers = [], er_Conflicts = []\<rparr>"

definition recover_locked ::
  "External \<Rightarrow> (bool \<Rightarrow> json \<Rightarrow> EvidenceRecord Model option) \<Rightarrow> 'm Orchestrator \<Rightarrow> 'm OWorld \<Rightarrow>
   (recovery_error, EvidenceRecovery) result \<times> 'm OWorld" where
  "recover_locked xt decode orc w =
     (if \<not> orc_HasJournal orc then (Inl RecoveryNoJournal, w)
      else case loadAll (ow_Journal w) of
        (Inl e, j1) \<Rightarrow> (Inl (RecoveryJournal e), w\<lparr>ow_Journal := j1\<rparr>)
      | (Inr records, j1) \<Rightarrow>
          (case LoadModel (xt_FormatTime xt) decode (ow_State w) of
             (Inl e, s1) \<Rightarrow> (Inl (RecoveryState e), w\<lparr>ow_Journal := j1, ow_State := s1\<rparr>)
           | (Inr current, s1) \<Rightarrow>
               (let w1 = w\<lparr>ow_Journal := j1, ow_State := s1\<rparr> in
                case ReconstructEvidence records (m_Evidence current) of
                  Inl tx \<Rightarrow> (Inl (RecoveryReconstruction tx), w1)
                | Inr res \<Rightarrow>
                    if rn_Conflicts res \<noteq> []
                    then (Inr ((no_recovery EvidenceRecoveryConflict)\<lparr>er_Conflicts := rn_Conflicts res\<rparr>), w1)
                    else (case PersistenceBlockers '''' False j1 of
                        (Inl e, j2) \<Rightarrow> (Inl (RecoveryJournal e), w1\<lparr>ow_Journal := j2\<rparr>)
                      | (Inr blockers, j2) \<Rightarrow>
                          (let w2 = w1\<lparr>ow_Journal := j2\<rparr> in
                           if blockers \<noteq> [] then (Inr ((no_recovery EvidenceRecoveryBlocked)\<lparr>er_Blockers := blockers\<rparr>), w2)
                           else if evidenceSetsEqual (m_Evidence current) (rn_Claims res)
                           then (Inr (no_recovery EvidenceRecoveryNoChange), w2)
                           else
                             (let (added, replaced) = evidenceDiff (m_Evidence current) (rn_Claims res);
                                  merged = current\<lparr>m_Evidence := rn_Claims res, m_UpdatedAt := orc_Now orc (ow_Machine w2)\<rparr> in
                              case SaveModel (xt_FormatTime xt) (xt_Encode xt) merged s1 of
                                (Inl e, s2) \<Rightarrow> (Inl (RecoverySave e), w2\<lparr>ow_State := s2\<rparr>)
                              | (Inr _, s2) \<Rightarrow>
                                  (Inr ((no_recovery EvidenceRecoveryPersisted)\<lparr>er_Added := added, er_Replaced := replaced\<rparr>),
                                   w2\<lparr>ow_State := s2\<rparr>)))))))"

definition RecoverEvidence ::
  "External \<Rightarrow> (bool \<Rightarrow> json \<Rightarrow> EvidenceRecord Model option) \<Rightarrow> 'm Orchestrator \<Rightarrow> 'm OWorld \<Rightarrow>
   (recovery_error, EvidenceRecovery) result \<times> 'm OWorld" where
  "RecoverEvidence xt decode orc w =
     (case orc_Acquire orc (ow_Machine w) of
        (Some e, m1) \<Rightarrow> (Inl (RecoveryLock e), w\<lparr>ow_Machine := m1\<rparr>)
      | (None, m1) \<Rightarrow>
          (let (r, w1) = recover_locked xt decode orc (w\<lparr>ow_Machine := m1\<rparr>) in
           (r, w1\<lparr>ow_Machine := orc_Release orc (ow_Machine w1)\<rparr>)))"


subsection \<open>Histories\<close>

lemma set_rights: "set (rights xs) = {b. Inr b \<in> set xs}"
  by (induction xs rule: rights.induct) auto

lemma lefts_empty: "lefts xs = [] \<longleftrightarrow> (\<forall>x \<in> set xs. \<exists>b. x = Inr b)"
  by (induction xs rule: lefts.induct) auto

lemma history_set: "set (history_of claims k) = {c \<in> set claims. history_key c = k}"
  by (auto simp: history_of_def)

lemma order_history_latest:
  assumes "order_history es = Inr c" and "es \<noteq> []" and "sorted (map evr_MintedAt es)"
  shows "c \<in> set es \<and> (\<forall>e \<in> set es. evr_MintedAt e \<le> evr_MintedAt c \<and> (evr_MintedAt e = evr_MintedAt c \<longrightarrow> e = c))"
proof -
  have c: "c = last es" and fresh: "\<not> list_ex (\<lambda>e. evr_MintedAt e = evr_MintedAt (last es)) (butlast es)"
    using assms(1) by (auto simp: order_history_def Let_def split: if_splits)
  have es: "es = butlast es @ [c]" using assms(2) c by simp
  then have "sorted (map evr_MintedAt (butlast es) @ [evr_MintedAt c])" using assms(3) by (metis list.simps(8,9) map_append)
  then have le: "\<forall>e \<in> set (butlast es). evr_MintedAt e \<le> evr_MintedAt c" by (simp add: sorted_append)
  have "e \<in> set (butlast es) \<or> e = c" if "e \<in> set es" for e
    using that by (subst (asm) es) auto
  then show ?thesis using le fresh c assms(2) by (auto simp: list_ex_iff)
qed

lemma ordered_winner:
  assumes "lefts (ordered_histories claims) = []" and "m \<in> set claims"
  shows "\<exists>c \<in> set (rights (ordered_histories claims)). history_key c = history_key m \<and> c \<in> set claims"
proof -
  let ?h = "history_of claims (history_key m)"
  have "order_history ?h \<in> set (ordered_histories claims)" using assms(2) by (auto simp: ordered_histories_def)
  then obtain c where c: "order_history ?h = Inr c" using assms(1) by (auto simp: lefts_empty)
  have m: "m \<in> set ?h" using assms(2) by (simp add: history_set)
  have "sorted (map evr_MintedAt ?h)" by (simp add: history_of_def)
  then have "c \<in> set ?h" using order_history_latest [OF c] m by (metis empty_iff empty_set)
  then show ?thesis using c \<open>order_history ?h \<in> _\<close> by (auto simp: history_set set_rights)
qed

lemma winner_latest:
  assumes "c \<in> set (rights (ordered_histories claims))"
  shows "c \<in> set claims \<and> (\<forall>m \<in> set claims. history_key m = history_key c \<longrightarrow>
    evr_MintedAt m \<le> evr_MintedAt c \<and> (evr_MintedAt m = evr_MintedAt c \<longrightarrow> m = c))"
proof -
  obtain k where k: "k \<in> history_key ` set claims" "order_history (history_of claims k) = Inr c"
  proof -
    have "Inr c \<in> (\<lambda>k. order_history (history_of claims k)) ` (history_key ` set claims)"
      using assms by (simp add: set_rights ordered_histories_def)
    then show ?thesis using that by (metis imageE)
  qed
  have ne: "history_of claims k \<noteq> []" using k(1) history_set [of claims k] by auto
  have "sorted (map evr_MintedAt (history_of claims k))" by (simp add: history_of_def)
  from order_history_latest [OF k(2) ne this] show ?thesis unfolding history_set by auto
qed

lemma one_host_Inr:
  assumes "one_host winners k = Inr c" and "k \<in> identityKey ` set winners"
  shows "filter (\<lambda>w. identityKey w = k) winners = [c]"
proof -
  let ?cs = "sort_key evr_HostIdentity (filter (\<lambda>w. identityKey w = k) winners)"
  have len: "\<not> 1 < length ?cs" and c: "c = hd ?cs" using assms(1) by (auto simp: one_host_def Let_def split: if_splits)
  have "filter (\<lambda>w. identityKey w = k) winners \<noteq> []" using assms(2) by (auto simp: filter_empty_conv)
  then obtain w where "filter (\<lambda>w. identityKey w = k) winners = [w]" using len
    by (cases "filter (\<lambda>w. identityKey w = k) winners") auto
  with c show ?thesis by simp
qed

lemma per_identity_winners:
  assumes "lefts (per_identity winners) = []"
  shows "set (rights (per_identity winners)) = set winners" and "inj_on identityKey (set winners)"
proof -
  have one: "\<exists>c. one_host winners k = Inr c \<and> filter (\<lambda>w. identityKey w = k) winners = [c]" if "k \<in> identityKey ` set winners" for k
  proof -
    have "one_host winners k \<in> set (per_identity winners)" using that by (auto simp: per_identity_def)
    then obtain c where "one_host winners k = Inr c" using assms by (auto simp: lefts_empty)
    with one_host_Inr [OF this that] show ?thesis by blast
  qed
  have only: "filter (\<lambda>w. identityKey w = identityKey c) winners = [c]" if c: "c \<in> set winners" for c
  proof -
    obtain d where "filter (\<lambda>w. identityKey w = identityKey c) winners = [d]" using one c by blast
    moreover have "c \<in> set (filter (\<lambda>w. identityKey w = identityKey c) winners)" using c by simp
    ultimately show ?thesis by simp
  qed
  show "inj_on identityKey (set winners)"
  proof (rule inj_onI)
    fix c d assume cd: "c \<in> set winners" "d \<in> set winners" "identityKey c = identityKey d"
    have "d \<in> set (filter (\<lambda>w. identityKey w = identityKey c) winners)" using cd by simp
    with only [OF cd(1)] show "c = d" by simp
  qed
  show "set (rights (per_identity winners)) = set winners"
  proof (intro set_eqI iffI)
    fix c assume "c \<in> set (rights (per_identity winners))"
    then obtain k where k: "k \<in> identityKey ` set winners" "one_host winners k = Inr c"
    proof -
      have "Inr c \<in> one_host winners ` (identityKey ` set winners)"
        using \<open>c \<in> set (rights (per_identity winners))\<close> by (simp add: set_rights per_identity_def)
      then show ?thesis using that by (metis imageE)
    qed
    from one_host_Inr [OF k(2,1)] have "c \<in> set (filter (\<lambda>w. identityKey w = k) winners)" by simp
    then show "c \<in> set winners" by simp
  next
    fix c assume c: "c \<in> set winners"
    then obtain d where d: "one_host winners (identityKey c) = Inr d"
      "filter (\<lambda>w. identityKey w = identityKey c) winners = [d]" using one by blast
    then have "d = c" using only [OF c] by simp
    with d c show "c \<in> set (rights (per_identity winners))" by (force simp: set_rights per_identity_def)
  qed
qed


subsection \<open>The merge with the persisted plane\<close>

lemma identity_map:
  assumes "inj_on identityKey (set recs)"
  shows "map_of (rev (map (\<lambda>r. (identityKey r, r)) recs)) k = Some r \<longleftrightarrow> r \<in> set recs \<and> identityKey r = k"
proof
  assume "map_of (rev (map (\<lambda>r. (identityKey r, r)) recs)) k = Some r"
  then show "r \<in> set recs \<and> identityKey r = k" by (auto dest!: map_of_SomeD)
next
  assume r: "r \<in> set recs \<and> identityKey r = k"
  then have "k \<in> fst ` set (rev (map (\<lambda>r. (identityKey r, r)) recs))" by force
  then obtain s where s: "map_of (rev (map (\<lambda>r. (identityKey r, r)) recs)) k = Some s" by (metis map_of_eq_None_iff not_None_eq)
  then have "s \<in> set recs \<and> identityKey s = k" by (auto dest!: map_of_SomeD)
  with r s assms show "map_of (rev (map (\<lambda>r. (identityKey r, r)) recs)) k = Some r" by (metis inj_onD)
qed

lemma equalEvidenceRecords_eq [simp]: "equalEvidenceRecords a b \<longleftrightarrow> a = b"
  by (cases a; cases b) (auto simp: equalEvidenceRecords_def)

lemma merge_one_Inr:
  assumes inj: "inj_on identityKey (set recs)" and c: "merge_one recs p = Inr c"
  shows "(c = p \<or> c \<in> set recs) \<and> identityKey c = identityKey p \<and> evr_MintedAt p \<le> evr_MintedAt c \<and>
    (\<forall>r \<in> set recs. identityKey r = identityKey p \<longrightarrow>
       evr_MintedAt r \<le> evr_MintedAt c \<and> (evr_MintedAt r = evr_MintedAt c \<longrightarrow> r = c))"
proof (cases "map_of (rev (map (\<lambda>r. (identityKey r, r)) recs)) (identityKey p)")
  case None
  then have "identityKey p \<notin> fst ` set (rev (map (\<lambda>r. (identityKey r, r)) recs))" by (simp add: map_of_eq_None_iff)
  then have "identityKey p \<notin> identityKey ` set recs" by (simp add: image_image)
  then have "\<forall>r \<in> set recs. identityKey r \<noteq> identityKey p" by (metis imageI)
  with None c show ?thesis by (simp add: merge_one_def)
next
  case (Some r)
  then have r: "r \<in> set recs" "identityKey r = identityKey p" using identity_map [OF inj] by blast+
  have only: "s = r" if "s \<in> set recs" "identityKey s = identityKey p" for s using inj r that by (metis inj_onD)
  have cs: "evr_MintedAt p < evr_MintedAt r \<and> c = r \<or> evr_MintedAt r < evr_MintedAt p \<and> c = p \<or> r = p \<and> c = p"
    using c Some by (simp add: merge_one_def split: if_splits)
  have "evr_MintedAt s \<le> evr_MintedAt c \<and> (evr_MintedAt s = evr_MintedAt c \<longrightarrow> s = c)"
    if "s \<in> set recs" "identityKey s = identityKey p" for s
    unfolding only [OF that] using cs by (elim disjE conjE) simp_all
  moreover have "(c = p \<or> c \<in> set recs) \<and> identityKey c = identityKey p \<and> evr_MintedAt p \<le> evr_MintedAt c"
    using cs r by (elim disjE conjE) simp_all
  ultimately show ?thesis by blast
qed

lemma merge_members:
  assumes "mergeReconstructed prior recs = (claims, [])"
  shows "set claims = {c. \<exists>p \<in> set prior. merge_one recs p = Inr c} \<union> {r \<in> set recs. identityKey r \<notin> identityKey ` set prior}"
    and "\<forall>p \<in> set prior. \<exists>c. merge_one recs p = Inr c"
proof -
  have c: "claims = sort_key claim_order (rights (map (merge_one recs) prior) @
      filter (\<lambda>r. identityKey r \<notin> set (map identityKey prior)) recs)"
    and l: "lefts (map (merge_one recs) prior) = []"
    using assms by (simp_all add: mergeReconstructed_def Let_def)
  show "\<forall>p \<in> set prior. \<exists>c. merge_one recs p = Inr c" using l by (simp add: lefts_empty)
  have "{b. Inr b \<in> merge_one recs ` set prior} = {c. \<exists>p \<in> set prior. merge_one recs p = Inr c}" by force
  then show "set claims = {c. \<exists>p \<in> set prior. merge_one recs p = Inr c} \<union> {r \<in> set recs. identityKey r \<notin> identityKey ` set prior}"
    unfolding c by (simp add: set_rights)
qed

text \<open>
  The merged plane carries, for every identity, provenance that is at least as new as the prior claim and as
  every reconstructed claim.
\<close>

lemma merge_newest:
  assumes inj: "inj_on identityKey (set recs)" and m: "mergeReconstructed prior recs = (claims, [])"
  shows "set claims \<subseteq> set prior \<union> set recs"
    and "p \<in> set prior \<Longrightarrow> \<exists>c \<in> set claims. identityKey c = identityKey p \<and> evr_MintedAt p \<le> evr_MintedAt c"
    and "r \<in> set recs \<Longrightarrow> \<exists>c \<in> set claims. identityKey c = identityKey r"
    and "c \<in> set claims \<Longrightarrow> r \<in> set recs \<Longrightarrow> identityKey r = identityKey c \<Longrightarrow>
      evr_MintedAt r \<le> evr_MintedAt c \<and> (evr_MintedAt r = evr_MintedAt c \<longrightarrow> r = c)"
proof -
  note mem = merge_members [OF m] and one = merge_one_Inr [OF inj]
  show "set claims \<subseteq> set prior \<union> set recs"
  proof
    fix c assume "c \<in> set claims"
    then consider q where "q \<in> set prior" "merge_one recs q = Inr c" | "c \<in> set recs" unfolding mem(1) by blast
    then show "c \<in> set prior \<union> set recs"
    proof cases
      case 1
      from one [OF 1(2)] have "c = q \<or> c \<in> set recs" by simp
      with 1(1) show ?thesis by auto
    qed simp
  qed
  show p: "\<exists>c \<in> set claims. identityKey c = identityKey p \<and> evr_MintedAt p \<le> evr_MintedAt c" if "p \<in> set prior" for p
  proof -
    from bspec [OF mem(2) that] obtain c where c: "merge_one recs p = Inr c" by (elim exE)
    then have mine: "c \<in> set claims" unfolding mem(1) using that by blast
    have "identityKey c = identityKey p" and "evr_MintedAt p \<le> evr_MintedAt c" using one [OF c] by simp_all
    with mine show ?thesis by (intro bexI [of _ c] conjI)
  qed
  show "\<exists>c \<in> set claims. identityKey c = identityKey r" if r: "r \<in> set recs"
  proof (cases "identityKey r \<in> identityKey ` set prior")
    case True
    then obtain q where q: "q \<in> set prior" "identityKey q = identityKey r" by (metis imageE)
    from p [OF q(1)] show ?thesis unfolding q(2) by blast
  next
    case False
    then have "r \<in> set claims" unfolding mem(1) using r by blast
    then show ?thesis by blast
  qed
  show "evr_MintedAt r \<le> evr_MintedAt c \<and> (evr_MintedAt r = evr_MintedAt c \<longrightarrow> r = c)"
    if c: "c \<in> set claims" and r: "r \<in> set recs" and k: "identityKey r = identityKey c"
  proof (cases "\<exists>q \<in> set prior. merge_one recs q = Inr c")
    case True
    then obtain q where "merge_one recs q = Inr c" by blast
    note q = one [OF this]
    have "identityKey r = identityKey q" using q k by simp
    with q r show ?thesis by blast
  next
    case False
    then have "c \<in> set recs" using c unfolding mem(1) by blast
    then have "r = c" using inj_onD [OF inj k r] by simp
    then show ?thesis by simp
  qed
qed

subsection \<open>Reconstructed claims\<close>

lemma Normalize_no_nul: "Normalize s = Inr i \<Longrightarrow> CHR 0x00 \<notin> set s"
proof
  assume n: "Normalize s = Inr i" and z: "CHR 0x00 \<in> set s"
  have "CHR 0x00 \<in> set (TrimSpace s)" using TrimSpace_member [OF z] by (simp add: is_space_def)
  then have "lower_char (CHR 0x00) \<in> set (ToLower (TrimSpace s))" by (auto simp: ToLower_def)
  then have "CHR 0x00 \<in> set (ToLower (TrimSpace s))" by (simp add: lower_char_def Let_def)
  moreover have "list_all is_lower_hex (ToLower (TrimSpace s))"
    using n by (auto simp: Normalize_def Let_def formatRe_def split: if_splits)
  ultimately show False by (auto simp: list_all_iff is_lower_hex_def is_digit_def)
qed

lemma canonical_host_no_nul: "validateHostIdentity h = None \<Longrightarrow> CHR 0x00 \<notin> set h"
proof -
  assume v: "validateHostIdentity h = None"
  then obtain i where p: "prefix HostIdentityPrefix h" and n: "Normalize (TrimPrefix h HostIdentityPrefix) = Inr i"
    by (auto simp: validateHostIdentity_def split: if_splits sum.splits)
  from p obtain t where t: "h = HostIdentityPrefix @ t" by (auto simp: prefix_def)
  then have "TrimPrefix h HostIdentityPrefix = t" by (simp only: TrimPrefix_append)
  then have "CHR 0x00 \<notin> set t" using Normalize_no_nul [OF n] by simp
  moreover have "CHR 0x00 \<notin> set HostIdentityPrefix" by code_simp
  ultimately show ?thesis by (simp only: t set_append Un_iff simp_thms)
qed

lemma history_key_split:
  assumes "history_key a = history_key b" and "CHR 0x00 \<notin> set (evr_HostIdentity a)" and "CHR 0x00 \<notin> set (evr_HostIdentity b)"
  shows "evr_HostIdentity a = evr_HostIdentity b \<and> identityKey a = identityKey b"
  using separated_eq [OF assms(1) [unfolded history_key_def] assms(2,3)] .


text \<open>A record that passes the gate: completed, unlatched, without rollback, of a current schema, bound to a host.\<close>

definition reconstructible :: "JournalRecord \<Rightarrow> bool" where
  "reconstructible rec \<longleftrightarrow> jr_Outcome rec = ''COMPLETED'' \<and> \<not> jr_RecoveryRequired rec \<and> \<not> jr_RollbackAttempted rec \<and>
     jr_RollbackResult rec = '''' \<and> jr_SchemaVersion rec \<in> {2, 3} \<and> jr_HostIdentity rec \<noteq> '''' \<and> jr_StartedAt rec \<noteq> 0 \<and>
     validateHostIdentity (jr_HostIdentity rec) = None"

lemma record_gate_open: "fst (record_gate rec) = None \<longleftrightarrow> reconstructible rec"
  by (auto simp: record_gate_def reconstructible_def IsReadableSchemaVersion_def split: option.splits if_splits)

abbreviation claims_of :: "JournalRecord \<Rightarrow> EvidenceRecord list" where
  "claims_of rec \<equiv> snd (reconstruct_record rec)"

text \<open>The applied file action of a journal record a claim is about, and the values the claim takes over.\<close>

definition claim_of_record :: "EvidenceRecord \<Rightarrow> JournalRecord \<Rightarrow> bool" where
  "claim_of_record m rec \<longleftrightarrow>
     (\<exists>a \<in> set (jr_Actions rec). \<exists>jr \<in> set (jr_Actions rec).
        jar_Kind a \<in> {''CREATE_FILE'', ''UPDATE_FILE''} \<and> jar_Resource a = ''file.'' @ ri_Path (evr_Identity m) \<and>
        jar_ID jr = jar_ID a \<and> jar_Status jr = ''APPLIED'' \<and> evr_SpecHash m = jar_SpecHash jr) \<and>
     evr_TxID m = jr_TransactionID rec \<and> evr_PlanFingerprint m = jr_PlanFingerprint rec \<and>
     evr_HostIdentity m = jr_HostIdentity rec \<and> evr_MintedAt m = jr_StartedAt rec \<and> (\<exists>c. stateEvidence m = Inr c)"

lemma synthesized_members:
  "synthesized_actions js = Inr bs \<Longrightarrow> b \<in> set bs \<Longrightarrow>
     \<exists>a \<in> set js. \<exists>k. b = synthesized_action a k \<and> jar_Kind a \<in> {''CREATE_FILE'', ''UPDATE_FILE''} \<and> prefix ''file.'' (jar_Resource a)"
  by (induction js arbitrary: bs) (auto split: if_splits sum.splits)

lemma reconstruct_record_parts:
  assumes "m \<in> set (claims_of rec)"
  obtains bs where "reconstructible rec" "synthesized_actions (jr_Actions rec) = Inr bs" "mint_loop rec bs = Inr (claims_of rec)"
    "claims_checked 0 (claims_of rec) = None"
proof -
  have gate: "reconstructible rec"
    using assms record_gate_open by (auto simp: reconstruct_record_def split: option.splits)
  then obtain plan out where plan: "synthesizedMintPlan rec = Inr plan" "MintTransactionEvidence (Some rec) plan [] = Inr out"
    "claims_of rec = mo_Minted out"
    using assms record_gate_open [of rec] by (auto simp: reconstruct_record_def split: sum.splits)
  obtain bs where bs: "synthesized_actions (jr_Actions rec) = Inr bs" "p_Actions plan = bs"
    using plan(1) by (auto simp: synthesizedMintPlan_def split: sum.splits)
  show ?thesis using that [OF gate bs(1)] plan(2,3) bs(2) gate
    by (auto simp: MintTransactionEvidence_def reconstructible_def split: sum.splits option.splits)
qed

lemma reconstructed_from_record:
  assumes m: "m \<in> set (claims_of rec)"
  shows "reconstructible rec \<and> claim_of_record m rec"
proof -
  obtain bs where r: "reconstructible rec" "synthesized_actions (jr_Actions rec) = Inr bs"
    "mint_loop rec bs = Inr (claims_of rec)" "claims_checked 0 (claims_of rec) = None"
    by (rule reconstruct_record_parts [OF m])
  from mint_loop_Inr [OF r(3)] m obtain b where b: "b \<in> set bs" "mint_action rec b = Inr (Some m)"
    by (auto split: sum.splits option.splits)
  from mint_action_Some [OF b(2)] obtain jr f i where j: "journal_action rec (a_ID b) = Some jr" "jar_Status jr = ''APPLIED''"
    "file_spec b = Some f" "fileResourceIdentity (fas_Path f) = Inr i" "m = minted_record rec jr i" by metis
  from synthesized_members [OF r(2) b(1)] obtain a k where a: "a \<in> set (jr_Actions rec)" "b = synthesized_action a k"
    "jar_Kind a \<in> {''CREATE_FILE'', ''UPDATE_FILE''}" "prefix ''file.'' (jar_Resource a)" by blast
  have f: "fas_Path f = TrimPrefix (jar_Resource a) ''file.''" using j(3) a(2) by (auto simp: file_spec_def synthesized_action_def)
  obtain t where t: "jar_Resource a = ''file.'' @ t" using a(4) unfolding prefix_def by blast
  have "jar_Resource a = ''file.'' @ fas_Path f" unfolding f t by (simp only: TrimPrefix_append)
  moreover have "ri_Path (evr_Identity m) = fas_Path f" using identity_path [OF j(4)] j(5) by (simp add: minted_record_def)
  moreover have "jr \<in> set (jr_Actions rec)" "jar_ID jr = jar_ID a"
    using journal_action_mem [OF j(1)] a(2) by (simp_all add: synthesized_action_def)
  moreover have "\<exists>c. stateEvidence m = Inr c" using r(4) m unfolding claims_checked_None by blast
  ultimately show ?thesis using r(1) a(1,3) j(2,5) unfolding claim_of_record_def
    by (intro conjI bexI [of _ a] bexI [of _ jr]) (simp_all add: minted_record_def)
qed

lemma claims_history_split:
  assumes "a \<in> set (claims_of r)" and "b \<in> set (claims_of q)" and "history_key a = history_key b"
  shows "identityKey a = identityKey b"
proof -
  have "CHR 0x00 \<notin> set (evr_HostIdentity a)" "CHR 0x00 \<notin> set (evr_HostIdentity b)"
    using reconstructed_from_record [OF assms(1)] reconstructed_from_record [OF assms(2)] canonical_host_no_nul
    unfolding reconstructible_def claim_of_record_def by metis+
  then show ?thesis using history_key_split [OF assms(3)] by simp
qed

lemma deduplicate_distinct:
  "distinct (map jr_TransactionID (uniq @ rs)) \<Longrightarrow> deduplicate rs uniq = Inr (uniq @ rs)"
proof (induction rs arbitrary: uniq)
  case (Cons r rs)
  have "jr_TransactionID r \<notin> jr_TransactionID ` set uniq" using Cons.prems by simp
  then have "find (\<lambda>u. jr_TransactionID u = jr_TransactionID r) uniq = None" by (induction uniq) auto
  with Cons show ?case by simp
qed simp

text \<open>What the reconstruction consists of, when nothing conflicts.\<close>

lemma ReconstructEvidence_parts:
  assumes "distinct (map jr_TransactionID records)" and "ReconstructEvidence records prior = Inr res" and "rn_Conflicts res = []"
  obtains claims recs where "set claims = (\<Union>rec \<in> set records. set (claims_of rec))"
    "claims = concat (map (\<lambda>r. claims_of r) records)" "lefts (ordered_histories claims) = []"
    "lefts (per_identity (rights (ordered_histories claims))) = []"
    "recs = sort_key claim_order (rights (per_identity (rights (ordered_histories claims))))"
    "set recs = set (rights (ordered_histories claims))" "inj_on identityKey (set recs)"
    "mergeReconstructed prior recs = (rn_Claims res, [])"
proof -
  have d: "deduplicate records [] = Inr records" using deduplicate_distinct [of "[]"] assms(1) by simp
  let ?claims = "concat (map (\<lambda>r. claims_of r) records)"
  let ?o = "ordered_histories ?claims"
  let ?h = "per_identity (rights ?o)"
  let ?recs = "sort_key claim_order (rights ?h)"
  obtain merged differing where m: "mergeReconstructed prior ?recs = (merged, differing)" by fastforce
  have res: "rn_Claims res = merged" "rn_Conflicts res = sort_key conflict_order (lefts ?o @ lefts ?h @ differing)"
    using assms(2) d m by (auto simp: ReconstructEvidence_def Let_def)
  then have "set (lefts ?o @ lefts ?h @ differing) = {}" using assms(3) by (metis empty_set set_sort)
  then have none: "lefts ?o = []" "lefts ?h = []" "differing = []" by simp_all
  note w = per_identity_winners [OF none(2)]
  show ?thesis
    by (rule that [of ?claims ?recs]) (use none w m res in simp_all)
qed


lemma record_winner:
  assumes claims: "set claims = (\<Union>rec \<in> set records. set (claims_of rec))" and none: "lefts (ordered_histories claims) = []"
    and rec: "rec \<in> set records" and m: "m \<in> set (claims_of rec)"
  shows "\<exists>w \<in> set (rights (ordered_histories claims)). identityKey w = identityKey m \<and> evr_MintedAt m \<le> evr_MintedAt w \<and>
    (evr_MintedAt m = evr_MintedAt w \<longrightarrow> m = w)"
proof -
  have mc: "m \<in> set claims" using rec m unfolding claims by blast
  obtain w where w: "w \<in> set (rights (ordered_histories claims))" "history_key w = history_key m" "w \<in> set claims"
    using ordered_winner [OF none mc] by blast
  obtain q where "w \<in> set (claims_of q)" using w(3) unfolding claims by blast
  then have "identityKey w = identityKey m" using claims_history_split [OF _ m w(2)] by blast
  moreover have "evr_MintedAt m \<le> evr_MintedAt w \<and> (evr_MintedAt m = evr_MintedAt w \<longrightarrow> m = w)"
    using winner_latest [OF w(1)] mc w(2) by simp
  ultimately show ?thesis using w(1) by blast
qed

lemma merge_prior:
  assumes inj: "inj_on identityKey (set recs)" and m: "mergeReconstructed prior recs = (claims, [])" and p: "p \<in> set prior"
  shows "p \<in> set claims \<or> (\<exists>c \<in> set claims. c \<in> set recs \<and> identityKey c = identityKey p \<and> evr_MintedAt p < evr_MintedAt c)"
proof -
  note mem = merge_members [OF m]
  from bspec [OF mem(2) p] obtain c where c: "merge_one recs p = Inr c" by (elim exE)
  then have mine: "c \<in> set claims" unfolding mem(1) using p by blast
  have "c = p \<or> c \<in> set recs \<and> identityKey c = identityKey p \<and> evr_MintedAt p < evr_MintedAt c"
  proof (cases "map_of (rev (map (\<lambda>r. (identityKey r, r)) recs)) (identityKey p)")
    case None
    with c show ?thesis by (simp add: merge_one_def)
  next
    case (Some r)
    with c have "c = p \<or> c = r \<and> evr_MintedAt p < evr_MintedAt r" by (simp add: merge_one_def split: if_splits)
    moreover have "r \<in> set recs \<and> identityKey r = identityKey p" using Some identity_map [OF inj] by blast
    ultimately show ?thesis by blast
  qed
  with mine show ?thesis by blast
qed

text \<open>
  C31. A reconstruction without conflicts yields the newest provenance. For all records with distinct transaction ids and
  every prior plane: each resulting claim is a prior claim or is derived from one of the records, which is
  completed, unlatched, without rollback and bound to a host, with the values of an applied file action of it; no
  claim that some record supports is lost, and the result for its identity is at least as new and equal to it
  where the times are equal; and a prior claim stays as it is unless a strictly newer claim of the same identity is
  derived from a record. The identity does not contain the host, so the newer claim may be another host's.
\<close>

theorem reconstruction_newest:
  assumes "distinct (map jr_TransactionID records)" and "ReconstructEvidence records prior = Inr res" and "rn_Conflicts res = []"
  shows "(\<forall>c \<in> set (rn_Claims res). c \<in> set prior \<or>
       (\<exists>rec \<in> set records. c \<in> set (claims_of rec) \<and> reconstructible rec \<and> claim_of_record c rec)) \<and>
    (\<forall>rec \<in> set records. \<forall>m \<in> set (claims_of rec).
       (\<exists>c \<in> set (rn_Claims res). identityKey c = identityKey m) \<and>
       (\<forall>c \<in> set (rn_Claims res). identityKey c = identityKey m \<longrightarrow>
          evr_MintedAt m \<le> evr_MintedAt c \<and> (evr_MintedAt m = evr_MintedAt c \<longrightarrow> m = c))) \<and>
    (\<forall>p \<in> set prior. p \<in> set (rn_Claims res) \<or>
       (\<exists>c \<in> set (rn_Claims res). identityKey c = identityKey p \<and> evr_MintedAt p < evr_MintedAt c \<and>
          (\<exists>rec \<in> set records. c \<in> set (claims_of rec) \<and> reconstructible rec \<and> claim_of_record c rec)))"
proof -
  obtain claims recs where parts: "set claims = (\<Union>rec \<in> set records. set (claims_of rec))"
    "lefts (ordered_histories claims) = []" "set recs = set (rights (ordered_histories claims))"
    and inj: "inj_on identityKey (set recs)" and merge: "mergeReconstructed prior recs = (rn_Claims res, [])"
    by (rule ReconstructEvidence_parts [OF assms])
  note newest = merge_newest [OF inj merge]
  have from_record: "\<exists>rec \<in> set records. c \<in> set (claims_of rec) \<and> reconstructible rec \<and> claim_of_record c rec" if "c \<in> set recs" for c
  proof -
    have "c \<in> set claims" using that winner_latest unfolding parts(3) by blast
    then obtain rec where "rec \<in> set records" "c \<in> set (claims_of rec)" unfolding parts(1) by blast
    then show ?thesis using reconstructed_from_record by blast
  qed
  note winner = record_winner [OF parts(1,2), folded parts(3)]
  show ?thesis
  proof (intro conjI ballI impI)
    fix c assume c: "c \<in> set (rn_Claims res)"
    show "c \<in> set prior \<or> (\<exists>rec \<in> set records. c \<in> set (claims_of rec) \<and> reconstructible rec \<and> claim_of_record c rec)"
      using newest(1) c from_record by blast
  next
    fix rec m assume m: "rec \<in> set records" "m \<in> set (claims_of rec)"
    obtain w where w: "w \<in> set recs" "identityKey w = identityKey m" using winner [OF m] by blast
    show "\<exists>c \<in> set (rn_Claims res). identityKey c = identityKey m" using newest(3) [OF w(1)] w(2) by simp
  next
    fix rec m c assume m: "rec \<in> set records" "m \<in> set (claims_of rec)"
      and c: "c \<in> set (rn_Claims res)" "identityKey c = identityKey m"
    obtain w where w: "w \<in> set recs" "identityKey w = identityKey m" "evr_MintedAt m \<le> evr_MintedAt w"
      "evr_MintedAt m = evr_MintedAt w \<longrightarrow> m = w" using winner [OF m] by blast
    have wc: "evr_MintedAt w \<le> evr_MintedAt c \<and> (evr_MintedAt w = evr_MintedAt c \<longrightarrow> w = c)"
      using newest(4) [OF c(1) w(1)] w(2) c(2) by simp
    show "evr_MintedAt m \<le> evr_MintedAt c" using w(3) wc by simp
    assume same: "evr_MintedAt m = evr_MintedAt c"
    then have "evr_MintedAt m = evr_MintedAt w" using w(3) wc by simp
    with same show "m = c" using w(4) wc by simp
  next
    fix p assume "p \<in> set prior"
    from merge_prior [OF inj merge this] from_record
    show "p \<in> set (rn_Claims res) \<or>
       (\<exists>c \<in> set (rn_Claims res). identityKey c = identityKey p \<and> evr_MintedAt p < evr_MintedAt c \<and>
          (\<exists>rec \<in> set records. c \<in> set (claims_of rec) \<and> reconstructible rec \<and> claim_of_record c rec))" by meson
  qed
qed


subsection \<open>Reconstruction and minting agree\<close>

text \<open>
  What \<open>journalActionRecords\<close> and the planner establish between the actions of a plan and the actions of its
  record: ids, resources and kinds agree, and a file action carries its file under the resource's name.
\<close>

definition same_coordinates :: "ActionRecord \<Rightarrow> Action \<Rightarrow> bool" where
  "same_coordinates j a \<longleftrightarrow> jar_ID j = a_ID a \<and> jar_Resource j = a_Resource a \<and> jar_Kind j = kind_string (a_Kind a) \<and>
     (case a_Kind a of ActionOther s \<Rightarrow> s \<noteq> ''CREATE_FILE'' \<and> s \<noteq> ''UPDATE_FILE'' | _ \<Rightarrow> True) \<and>
     (a_Kind a = ActionCreateFile \<or> a_Kind a = ActionUpdateFile \<longrightarrow>
        (case file_spec a of Some f \<Rightarrow> a_Resource a = ''file.'' @ fas_Path f | None \<Rightarrow> False))"

lemma recorded_coordinates:
  assumes "\<forall>a \<in> set (p_Actions p). same_coordinates \<lparr>jar_ID = a_ID a, jar_Resource = a_Resource a,
      jar_Kind = kind_string (a_Kind a), jar_RetryClass = '''', jar_Status = '''', jar_Error = '''', jar_SpecHash = '''',
      jar_ObservedSpecHash = ''''\<rparr> a"
  shows "list_all2 same_coordinates (journalActionRecords p hashes) (p_Actions p)"
  using assms by (auto simp: list_all2_conv_all_nth journalActionRecords_def same_coordinates_def)

lemma mint_action_coordinates:
  assumes "a_Kind b = ActionCreateFile \<or> a_Kind b = ActionUpdateFile" and "a_Kind a = ActionCreateFile \<or> a_Kind a = ActionUpdateFile"
    and "a_ID b = a_ID a" and "file_spec b = Some g" and "file_spec a = Some f" and "fas_Path g = fas_Path f"
  shows "mint_action rec b = mint_action rec a"
proof -
  have "\<not> (a_Kind b \<noteq> ActionCreateFile \<and> a_Kind b \<noteq> ActionUpdateFile)" "\<not> (a_Kind a \<noteq> ActionCreateFile \<and> a_Kind a \<noteq> ActionUpdateFile)"
    using assms(1,2) by auto
  then show ?thesis unfolding mint_action_def by (simp only: if_False assms(3-6) option.case)
qed

lemma mint_synthesized:
  assumes j: "same_coordinates j a"
  shows "jar_Kind j \<noteq> ''CREATE_FILE'' \<and> jar_Kind j \<noteq> ''UPDATE_FILE'' \<and> mint_action rec a = Inr None \<or>
    (jar_Kind j = ''CREATE_FILE'' \<or> jar_Kind j = ''UPDATE_FILE'') \<and> prefix ''file.'' (jar_Resource j) \<and>
      mint_action rec (synthesized_action j (if jar_Kind j = ''CREATE_FILE'' then ActionCreateFile else ActionUpdateFile)) =
        mint_action rec a"
proof (cases "a_Kind a = ActionCreateFile \<or> a_Kind a = ActionUpdateFile")
  case True
  then obtain f where f: "file_spec a = Some f" "jar_Resource j = ''file.'' @ fas_Path f"
    using j by (auto simp: same_coordinates_def split: option.splits)
  have path: "TrimPrefix (jar_Resource j) ''file.'' = fas_Path f" unfolding f(2) by (rule TrimPrefix_append)
  have "prefix ''file.'' (jar_Resource j)" unfolding f(2) by (rule prefixI) (rule refl)
  moreover have "jar_ID j = a_ID a" "jar_Kind j = kind_string (a_Kind a)" using j by (simp_all add: same_coordinates_def)
  moreover have "mint_action rec (synthesized_action j k) = mint_action rec a" if "k = ActionCreateFile \<or> k = ActionUpdateFile" for k
  proof (rule mint_action_coordinates [OF _ True])
    show "a_Kind (synthesized_action j k) = ActionCreateFile \<or> a_Kind (synthesized_action j k) = ActionUpdateFile"
      using that by (simp add: synthesized_action_def)
    show "a_ID (synthesized_action j k) = a_ID a" using j by (simp add: synthesized_action_def same_coordinates_def)
    show "file_spec (synthesized_action j k) = Some \<lparr>fas_Path = fas_Path f, fas_Content = '''', fas_Mode = 0,
        fas_Delete = False, fas_ValidatePath = ''''\<rparr>"
      unfolding synthesized_action_def path by (simp add: file_spec_def)
  qed (simp_all add: f(1))
  ultimately show ?thesis using True by auto
next
  case False
  then have "jar_Kind j \<noteq> ''CREATE_FILE'' \<and> jar_Kind j \<noteq> ''UPDATE_FILE''"
    using j by (cases "a_Kind a") (auto simp: same_coordinates_def)
  with False show ?thesis by (simp add: mint_action_def)
qed

lemma synthesized_mint:
  assumes "list_all2 same_coordinates js as"
  shows "\<exists>bs. synthesized_actions js = Inr bs \<and> mint_loop rec bs = mint_loop rec as"
  using assms
proof (induction js as rule: list_all2_induct)
  case Nil
  then show ?case by simp
next
  case (Cons j js a as)
  then obtain bs where bs: "synthesized_actions js = Inr bs" "mint_loop rec bs = mint_loop rec as" by blast
  from mint_synthesized [OF Cons.hyps(1), of rec] show ?case
  proof (elim disjE conjE)
    assume "jar_Kind j \<noteq> ''CREATE_FILE''" "jar_Kind j \<noteq> ''UPDATE_FILE''" "mint_action rec a = Inr None"
    with bs show ?thesis by (intro exI [of _ bs]) (simp split: sum.splits)
  next
    assume "jar_Kind j = ''CREATE_FILE''" "prefix ''file.'' (jar_Resource j)" and
      "mint_action rec (synthesized_action j (if jar_Kind j = ''CREATE_FILE'' then ActionCreateFile else ActionUpdateFile)) =
        mint_action rec a"
    with bs show ?thesis by (cases "mint_action rec a") simp_all
  next
    assume "jar_Kind j = ''UPDATE_FILE''" "prefix ''file.'' (jar_Resource j)" and
      "mint_action rec (synthesized_action j (if jar_Kind j = ''CREATE_FILE'' then ActionCreateFile else ActionUpdateFile)) =
        mint_action rec a"
    with bs show ?thesis by (cases "mint_action rec a") simp_all
  qed
qed

lemma reconstruction_mint:
  assumes "reconstructible rec" and "list_all2 same_coordinates (jr_Actions rec) (p_Actions plan)"
  shows "claims_of rec = (case MintTransactionEvidence (Some rec) plan prior of Inl _ \<Rightarrow> [] | Inr out \<Rightarrow> mo_Minted out)"
proof -
  obtain bs where bs: "synthesized_actions (jr_Actions rec) = Inr bs" "mint_loop rec bs = mint_loop rec (p_Actions plan)"
    using synthesized_mint [OF assms(2)] by blast
  have gate: "fst (record_gate rec) = None" using assms(1) record_gate_open by simp
  have dn: "jr_Outcome rec = ''COMPLETED''" "\<not> jr_RecoveryRequired rec" "jr_HostIdentity rec \<noteq> ''''"
    "validateHostIdentity (jr_HostIdentity rec) = None" using assms(1) by (simp_all add: reconstructible_def)
  show ?thesis
    using gate dn bs
    by (auto simp: reconstruct_record_def synthesizedMintPlan_def MintTransactionEvidence_def split: sum.splits option.splits)
qed

text \<open>
  C32. Reconstruction is minting. For every record that passes the gate and every plan whose actions have the
  coordinates of the record's actions, and whatever was persisted before: where minting from the plan
  succeeds, the claims reconstructed from the record alone are exactly the minted ones, in their order, and
  where minting is refused nothing is reconstructed.
\<close>

theorem reconstruction_equals_minting:
  assumes "reconstructible rec" and "list_all2 same_coordinates (jr_Actions rec) (p_Actions plan)"
  shows "claims_of rec = (case MintTransactionEvidence (Some rec) plan prior of Inl _ \<Rightarrow> [] | Inr out \<Rightarrow> mo_Minted out)"
  using assms by (rule reconstruction_mint)


subsection \<open>Idempotence and the guarded save\<close>

lemma merge_again:
  assumes inj: "inj_on identityKey (set recs)" and merge: "mergeReconstructed prior recs = (claims, [])"
  shows "mergeReconstructed claims recs = (claims, [])"
proof -
  note newest = merge_newest [OF inj merge]
  have keep: "merge_one recs c = Inr c" if c: "c \<in> set claims" for c
  proof (cases "map_of (rev (map (\<lambda>r. (identityKey r, r)) recs)) (identityKey c)")
    case None
    then show ?thesis by (simp add: merge_one_def)
  next
    case (Some r)
    then have r: "r \<in> set recs" "identityKey r = identityKey c" using identity_map [OF inj] by blast+
    from newest(4) [OF c r] have "evr_MintedAt r < evr_MintedAt c \<or> r = c" by linarith
    with Some show ?thesis by (auto simp: merge_one_def)
  qed
  have same: "map (merge_one recs) claims = map Inr claims" using keep by simp
  have right: "rights (map Inr claims) = claims" and left: "lefts (map (Inr :: _ \<Rightarrow> IdentityConflict + EvidenceRecord) claims) = []"
    by (induction claims) auto
  have "filter (\<lambda>r. identityKey r \<notin> set (map identityKey claims)) recs = []"
  proof -
    have "identityKey r \<in> identityKey ` set claims" if "r \<in> set recs" for r using newest(3) [OF that] by (metis imageI)
    then show ?thesis by (simp add: filter_empty_conv)
  qed
  moreover have "sort_key claim_order claims = claims"
  proof -
    have "sorted (map claim_order claims)" using merge by (auto simp: mergeReconstructed_def Let_def)
    then show ?thesis by (rule sort_key_id_if_sorted)
  qed
  ultimately show ?thesis by (simp add: mergeReconstructed_def same Let_def right left)
qed

lemma keyed_self: "evidenceSetsEqual es es \<longleftrightarrow> (\<forall>e \<in> set es. keyed es (evidenceKey e) = Some e)"
  by (auto simp: evidenceSetsEqual_def list_all_iff split: option.splits)

text \<open>
  Reconstruction is idempotent. For records with distinct transaction ids: once a reconstruction without conflicts
  has been persisted, reconstructing from the same records changes nothing and raises no conflict, so the
  recovery ends without a write.
\<close>

lemma reconstruction_idempotent:
  assumes "distinct (map jr_TransactionID records)" and "ReconstructEvidence records prior = Inr res" and "rn_Conflicts res = []"
  shows "ReconstructEvidence records (rn_Claims res) = Inr res"
proof -
  obtain claims recs where claims: "claims = concat (map (\<lambda>r. claims_of r) records)"
    and none: "lefts (ordered_histories claims) = []" "lefts (per_identity (rights (ordered_histories claims))) = []"
    and recs: "recs = sort_key claim_order (rights (per_identity (rights (ordered_histories claims))))"
    and inj: "inj_on identityKey (set recs)" and merge: "mergeReconstructed prior recs = (rn_Claims res, [])"
    by (rule ReconstructEvidence_parts [OF assms])
  have d: "deduplicate records [] = Inr records" using deduplicate_distinct [of "[]"] assms(1) by simp
  have "ReconstructEvidence records prior = ReconstructEvidence records (rn_Claims res)"
    unfolding ReconstructEvidence_def d sum.case Let_def claims [symmetric] recs [symmetric]
      merge merge_again [OF inj merge] by (rule refl)
  with assms(2) show ?thesis by simp
qed

lemma PersistenceBlockers_open:
  assumes "PersistenceBlockers tx mutates j = (Inr [], j')" and "js_dir j"
    and "jlookup j (file_name (jr_TransactionID rec)) = Some (JRecord rec)"
  shows "persistence_blocker tx mutates rec = None"
proof -
  obtain all j1 where l: "loadAll j = (Inr all, j1)" using assms(1)
    by (cases "loadAll j") (auto simp: PersistenceBlockers_def jbind_def split: sum.splits)
  have "rec \<in> set all" by (rule loadAll_complete [OF l assms(2,3)]) (simp add: file_name_def suffix_def)
  moreover have "List.map_filter (persistence_blocker tx mutates) all = []"
    using assms(1) l by (simp add: PersistenceBlockers_def jbind_def jret_def)
  ultimately show ?thesis by (auto simp: List.map_filter_def filter_empty_conv)
qed

text \<open>The cases of a locked recovery: it leaves the state file alone, or it has come to the save.\<close>

lemma LoadModel_file: "LoadModel fmt decode s = (r, s1) \<Longrightarrow> sst_file s1 = sst_file s"
  by (auto simp: LoadModel_def sread_def sfault_def split: prod.splits sum.splits list.splits state_file.splits option.splits)

lemma recover_locked_journal: "jlookup (ow_Journal (snd (recover_locked xt decode orc w))) = jlookup (ow_Journal w)"
proof -
  have q: "jlookup j1 = jlookup (ow_Journal w)" if "loadAll (ow_Journal w) = (r, j1)" for r j1
    using quiet_after [OF quiet_loadAll that] .
  have p: "jlookup j2 = jlookup j1" if "PersistenceBlockers '''' False j1 = (r, j2)" for r j1 j2
    using quiet_after [OF quiet_blocking(2) that] .
  show ?thesis using q p
    by (auto simp: recover_locked_def Let_def split: prod.splits sum.splits)
qed

lemma recover_locked_saved:
  assumes "sst_file (ow_State (snd (recover_locked xt decode orc w))) \<noteq> sst_file (ow_State w)"
  obtains records j1 current s1 res j2 where "loadAll (ow_Journal w) = (Inr records, j1)"
    "LoadModel (xt_FormatTime xt) decode (ow_State w) = (Inr current, s1)"
    "ReconstructEvidence records (m_Evidence current) = Inr res" "rn_Conflicts res = []"
    "PersistenceBlockers '''' False j1 = (Inr [], j2)" "\<not> evidenceSetsEqual (m_Evidence current) (rn_Claims res)"
    "sst_file (ow_State (snd (recover_locked xt decode orc w))) =
       sst_file (snd (SaveModel (xt_FormatTime xt) (xt_Encode xt)
         (current\<lparr>m_Evidence := rn_Claims res, m_UpdatedAt := orc_Now orc (ow_Machine w)\<rparr>) s1))"
    "sst_file s1 = sst_file (ow_State w)"
proof -
  obtain lr j1 where l: "loadAll (ow_Journal w) = (lr, j1)" by fastforce
  obtain mr s1 where m: "LoadModel (xt_FormatTime xt) decode (ow_State w) = (mr, s1)" by fastforce
  note s1 = LoadModel_file [OF m]
  obtain records where lr: "lr = Inr records" using assms l by (cases lr) (auto simp: recover_locked_def split: if_splits)
  obtain current where mr: "mr = Inr current" using assms l lr m s1 by (cases mr) (auto simp: recover_locked_def split: if_splits)
  obtain res where res: "ReconstructEvidence records (m_Evidence current) = Inr res" using assms l lr m mr s1
    by (cases "ReconstructEvidence records (m_Evidence current)") (auto simp: recover_locked_def Let_def split: if_splits)
  obtain br j2 where b: "PersistenceBlockers '''' False j1 = (br, j2)" by fastforce
  have none: "rn_Conflicts res = []" using assms l lr m mr s1 res by (auto simp: recover_locked_def Let_def split: if_splits)
  have br: "br = Inr []" using assms l lr m mr s1 res b none
    by (cases br) (auto simp: recover_locked_def Let_def split: if_splits)
  have ne: "\<not> evidenceSetsEqual (m_Evidence current) (rn_Claims res)"
    using assms l lr m mr s1 res b none br by (auto simp: recover_locked_def Let_def split: if_splits)
  have hj: "orc_HasJournal orc" using assms by (auto simp: recover_locked_def split: if_splits)
  have "sst_file (ow_State (snd (recover_locked xt decode orc w))) =
       sst_file (snd (SaveModel (xt_FormatTime xt) (xt_Encode xt)
         (current\<lparr>m_Evidence := rn_Claims res, m_UpdatedAt := orc_Now orc (ow_Machine w)\<rparr>) s1))"
    using hj l lr m mr res b none br ne by (simp add: recover_locked_def Let_def split: prod.splits sum.splits)
  with that l lr m mr res none b br ne s1 show ?thesis by blast
qed


lemma recovery_journal:
  assumes "RecoverEvidence xt decode orc w = (r, w')"
  shows "jlookup (ow_Journal w') = jlookup (ow_Journal w)"
proof (cases "orc_Acquire orc (ow_Machine w)")
  case (Pair err m1)
  then show ?thesis
    using assms recover_locked_journal [of xt decode orc "w\<lparr>ow_Machine := m1\<rparr>"]
    by (cases err) (auto simp: RecoverEvidence_def split: prod.splits)
qed

lemma recovery_saved:
  assumes "RecoverEvidence xt decode orc w = (r, w')" and "sst_file (ow_State w') \<noteq> sst_file (ow_State w)"
  shows "(\<exists>records j1 current s1 res t. loadAll (ow_Journal w) = (Inr records, j1) \<and>
       LoadModel (xt_FormatTime xt) decode (ow_State w) = (Inr current, s1) \<and>
       ReconstructEvidence records (m_Evidence current) = Inr res \<and> rn_Conflicts res = [] \<and>
       sst_file (ow_State w') = Text (Some (xt_Encode xt (current\<lparr>m_Evidence := rn_Claims res, m_UpdatedAt := t\<rparr>)))) \<and>
    (\<forall>rec. js_dir (ow_Journal w) \<and> jr_TransactionID rec \<noteq> '''' \<and>
         jlookup (ow_Journal w) (file_name (jr_TransactionID rec)) = Some (JRecord rec) \<longrightarrow>
       \<not> jr_RecoveryRequired rec \<and> jr_Outcome rec \<noteq> '''' \<and> \<not> (jr_Outcome rec = ''FAILED'' \<and> jr_MutationPossible rec))"
proof -
  obtain m1 where acq: "orc_Acquire orc (ow_Machine w) = (None, m1)"
    using assms by (cases "orc_Acquire orc (ow_Machine w)") (auto simp: RecoverEvidence_def split: option.splits)
  let ?w = "w\<lparr>ow_Machine := m1\<rparr>"
  let ?w1 = "snd (recover_locked xt decode orc ?w)"
  have w': "ow_State w' = ow_State ?w1" "ow_Journal w' = ow_Journal ?w1"
    using assms(1) acq by (auto simp: RecoverEvidence_def split: prod.splits)
  have "sst_file (ow_State ?w1) \<noteq> sst_file (ow_State ?w)" using assms(2) w'(1) by simp
  then obtain records j1 current s1 res j2 where p: "loadAll (ow_Journal w) = (Inr records, j1)"
    "LoadModel (xt_FormatTime xt) decode (ow_State w) = (Inr current, s1)"
    "ReconstructEvidence records (m_Evidence current) = Inr res" "rn_Conflicts res = []"
    "PersistenceBlockers '''' False j1 = (Inr [], j2)"
    "sst_file (ow_State ?w1) = sst_file (snd (SaveModel (xt_FormatTime xt) (xt_Encode xt)
         (current\<lparr>m_Evidence := rn_Claims res, m_UpdatedAt := orc_Now orc m1\<rparr>) s1))"
    "sst_file s1 = sst_file (ow_State w)"
    by (rule recover_locked_saved) simp
  have saved: "sst_file (ow_State w') = Text (Some (xt_Encode xt (current\<lparr>m_Evidence := rn_Claims res, m_UpdatedAt := orc_Now orc m1\<rparr>)))"
    using save_model_effect [of "xt_FormatTime xt" "xt_Encode xt"
        "current\<lparr>m_Evidence := rn_Claims res, m_UpdatedAt := orc_Now orc m1\<rparr>" s1] p(6,7) assms(2) w'(1) by auto
  have dir: "js_dir (ow_Journal w) \<Longrightarrow> js_dir j1" using keeps_dir_loadAll p(1) unfolding keeps_dir_def by (metis snd_conv)
  have look: "jlookup j1 = jlookup (ow_Journal w)" by (rule quiet_after [OF quiet_loadAll p(1)])
  have open_journal: "persistence_blocker '''' False rec = None"
    if "js_dir (ow_Journal w)" "jlookup (ow_Journal w) (file_name (jr_TransactionID rec)) = Some (JRecord rec)" for rec
    using PersistenceBlockers_open [OF p(5) dir [OF that(1)]] that(2) look by simp
  have blocked: "\<forall>rec. js_dir (ow_Journal w) \<and> jr_TransactionID rec \<noteq> '''' \<and>
         jlookup (ow_Journal w) (file_name (jr_TransactionID rec)) = Some (JRecord rec) \<longrightarrow>
       \<not> jr_RecoveryRequired rec \<and> jr_Outcome rec \<noteq> '''' \<and> \<not> (jr_Outcome rec = ''FAILED'' \<and> jr_MutationPossible rec)"
    using open_journal by (fastforce simp: persistence_blocker_def split: if_splits)
  show ?thesis using blocked saved p(1-4) by blast
qed

text \<open>
  C33. The recovery of evidence respects the gate. For every world, every external function and every pattern of
  failures: whatever the recovery answers, no record of the journal has changed; the state file has changed only if it
  is now the encoding of the loaded model with only the evidence plane and the timestamp replaced, the new plane being
  the conflict-free reconstruction from the loaded journal, and every record the journal stores is finished,
  unlatched and not a failure after a possible mutation.
\<close>

theorem recovery_guarded:
  assumes "RecoverEvidence xt decode orc w = (r, w')"
  shows "jlookup (ow_Journal w') = jlookup (ow_Journal w) \<and>
    (sst_file (ow_State w') \<noteq> sst_file (ow_State w) \<longrightarrow>
      (\<exists>records j1 current s1 res t. loadAll (ow_Journal w) = (Inr records, j1) \<and>
         LoadModel (xt_FormatTime xt) decode (ow_State w) = (Inr current, s1) \<and>
         ReconstructEvidence records (m_Evidence current) = Inr res \<and> rn_Conflicts res = [] \<and>
         sst_file (ow_State w') = Text (Some (xt_Encode xt (current\<lparr>m_Evidence := rn_Claims res, m_UpdatedAt := t\<rparr>)))) \<and>
      (\<forall>rec. js_dir (ow_Journal w) \<and> jr_TransactionID rec \<noteq> '''' \<and>
           jlookup (ow_Journal w) (file_name (jr_TransactionID rec)) = Some (JRecord rec) \<longrightarrow>
         \<not> jr_RecoveryRequired rec \<and> jr_Outcome rec \<noteq> '''' \<and> \<not> (jr_Outcome rec = ''FAILED'' \<and> jr_MutationPossible rec)))"
  using recovery_journal [OF assms] recovery_saved [OF assms] by blast

subsection \<open>Concrete reconstructions\<close>

definition ex_tx :: "string \<Rightarrow> string \<Rightarrow> time \<Rightarrow> JournalRecord" where
  "ex_tx tx host t = (jex_record ''COMPLETED'' False)\<lparr>jr_TransactionID := tx, jr_HostIdentity := host, jr_StartedAt := t\<rparr>"

definition ex_claim_of :: "JournalRecord \<Rightarrow> EvidenceRecord" where
  "ex_claim_of rec = minted_record rec (jex_action '''') ex_identity"

lemma ex_claims:
  assumes host: "validateHostIdentity host = None" and t: "t \<noteq> 0" and ok: "\<exists>c. stateEvidence (ex_claim_of (ex_tx tx host t)) = Inr c"
  shows "claims_of (ex_tx tx host t) = [ex_claim_of (ex_tx tx host t)]"
proof -
  let ?r = "ex_tx tx host t"
  let ?b = "synthesized_action (jex_action '''') ActionCreateFile"
  have acts: "jr_Actions ?r = [jex_action '''']" by (simp add: ex_tx_def jex_record_def)
  have "validateHostIdentity '''' \<noteq> None" by code_simp
  then have "host \<noteq> ''''" using host by metis
  then have rec: "reconstructible ?r" using host t by (simp add: reconstructible_def ex_tx_def jex_record_def)
  have pre: "prefix ''file.'' (jar_Resource (jex_action ''''))" by code_simp
  have kind: "jar_Kind (jex_action '''') = ''CREATE_FILE''" by (simp add: jex_action_def)
  have syn: "synthesized_actions [jex_action ''''] = Inr [?b]" using pre kind by simp
  have path: "TrimPrefix (jar_Resource (jex_action '''')) ''file.'' = ''/etc/vps-gateway/x.conf''" by code_simp
  have i: "fileResourceIdentity ''/etc/vps-gateway/x.conf'' = Inr ex_identity" by code_simp
  have spec: "file_spec ?b = Some \<lparr>fas_Path = ''/etc/vps-gateway/x.conf'', fas_Content = '''', fas_Mode = 0, fas_Delete = False,
      fas_ValidatePath = ''''\<rparr>" unfolding synthesized_action_def path by (simp add: file_spec_def)
  have kb: "a_Kind ?b = ActionCreateFile" "a_ID ?b = ''a1''" by (simp_all add: synthesized_action_def jex_action_def)
  have ja: "journal_action ?r ''a1'' = Some (jex_action '''')" by (simp add: journal_action_def acts jex_action_def)
  have st: "jar_Status (jex_action '''') = ''APPLIED''" "jar_SpecHash (jex_action '''') = Hex ex_hash" by (simp_all add: jex_action_def)
  have mint: "mint_action ?r ?b = Inr (Some (ex_claim_of ?r))"
    unfolding mint_action_def kb ja spec by (simp add: st ex_ParseSpecHash i ex_claim_of_def)
  have loop: "mint_loop ?r [?b] = Inr [ex_claim_of ?r]" by (simp add: mint)
  have chk: "claims_checked 0 [ex_claim_of ?r] = None" using ok by (auto simp: claims_checked_None)
  show ?thesis
    using record_gate_open [of ?r] rec syn loop chk acts
    by (simp add: reconstruct_record_def synthesizedMintPlan_def MintTransactionEvidence_def reconstructible_def)
qed

lemma ex_evidence_ok:
  assumes "state_evidence_error \<lparr>se_Identity = ex_identity, se_Spec = ex_hash,
     se_Ref = \<lparr>er_TxID = tx, er_PlanFingerprint = ''fp'', er_HostIdentity = host\<rparr>, se_MintedAt = t\<rparr> = None"
  shows "\<exists>c. stateEvidence (ex_claim_of (ex_tx tx host t)) = Inr c"
  using assms by (simp add: stateEvidence_def ex_claim_of_def minted_record_def ex_tx_def jex_record_def jex_action_def
      ex_ParseSpecHash ex_claim_def)


definition ex_other_host :: string where
  "ex_other_host = ''machine-id:fedcba9876543210fedcba9876543210''"

lemma ex_tx_claims:
  "claims_of (ex_tx ''tx-1'' ex_host 4) = [ex_claim_of (ex_tx ''tx-1'' ex_host 4)]"
  "claims_of (ex_tx ''tx-2'' ex_host 4) = [ex_claim_of (ex_tx ''tx-2'' ex_host 4)]"
  "claims_of (ex_tx ''tx-3'' ex_other_host 3) = [ex_claim_of (ex_tx ''tx-3'' ex_other_host 3)]"
  by (rule ex_claims; (rule ex_evidence_ok)?; code_simp)+

lemma ex_distinct: "identityKey (ex_claim_of r) = identityKey (ex_claim_of q)"
  by (simp add: identityKey_def ex_claim_of_def minted_record_def)

lemma ex_values: "evr_MintedAt (ex_claim_of (ex_tx tx h t)) = t" "evr_TxID (ex_claim_of (ex_tx tx h t)) = tx"
  "evr_HostIdentity (ex_claim_of (ex_tx tx h t)) = h" "evr_Identity (ex_claim_of r) = ex_identity" "history_key (ex_claim_of (ex_tx tx h t)) = h @ CHR 0x00 # identityKey ex_minted"
  by (simp_all add: ex_claim_of_def minted_record_def ex_tx_def history_key_def identityKey_def ex_minted_def)

text \<open>One clean record reconstructs the claim that the original run would have minted.\<close>

lemma ex_reconstruct:
  "ReconstructEvidence [ex_tx ''tx-1'' ex_host 4] [] = Inr \<lparr>rn_Claims = [ex_claim_of (ex_tx ''tx-1'' ex_host 4)], rn_Conflicts = [],
     rn_Records = [fst (reconstruct_record (ex_tx ''tx-1'' ex_host 4))], rn_Latched = []\<rparr>"
  by (simp add: ReconstructEvidence_def ex_tx_claims ordered_histories_def history_of_def order_history_def per_identity_def
      one_host_def mergeReconstructed_def) (simp add: record_gate_def ex_tx_def jex_record_def split: option.splits)

text \<open>
  The comparison of two records of one transaction leaves out the start time, which orders the history and becomes the
  time of the claim: of two records that differ in it the first one is kept, and the order decides.
\<close>

lemma start_time_ignored:
  "deduplicate [r, r\<lparr>jr_StartedAt := t\<rparr>] [] = Inr [r]" "deduplicate [r\<lparr>jr_StartedAt := t\<rparr>, r] [] = Inr [r\<lparr>jr_StartedAt := t\<rparr>]"
  by (simp_all add: journalRecordsEqual_def)

text \<open>
  An identity with a conflict on one host is still decided by the record of another host: the ambiguous history is
  left out before the hosts are compared, so the older claim of the other host is chosen.
\<close>

lemma conflicting_identity_chosen:
  "\<exists>res. ReconstructEvidence [ex_tx ''tx-1'' ex_host 4, ex_tx ''tx-2'' ex_host 4, ex_tx ''tx-3'' ex_other_host 3] [] = Inr res \<and>
     rn_Claims res = [ex_claim_of (ex_tx ''tx-3'' ex_other_host 3)] \<and> map ic_Identity (rn_Conflicts res) = [ex_identity]"
proof -
  have h: "ex_other_host \<noteq> ex_host" by code_simp
  show ?thesis
    using h by (simp add: ReconstructEvidence_def ex_tx_claims ordered_histories_def history_of_def order_history_def per_identity_def
      one_host_def mergeReconstructed_def ex_values ex_tx_def [THEN arg_cong, of jr_TransactionID])
qed

text \<open>The merge with the persisted plane does not look at the host: a claim of another host is replaced.\<close>

lemma foreign_claim_replaced:
  "\<exists>res. ReconstructEvidence [ex_tx ''tx-1'' ex_host 4] [ex_claim_of (ex_tx ''tx-3'' ex_other_host 3)] = Inr res \<and>
     rn_Claims res = [ex_claim_of (ex_tx ''tx-1'' ex_host 4)] \<and> rn_Conflicts res = []"
  by (simp add: ReconstructEvidence_def ex_tx_claims ordered_histories_def history_of_def order_history_def per_identity_def
      one_host_def mergeReconstructed_def merge_one_def ex_values ex_distinct [of "ex_tx ''tx-3'' ex_other_host 3" "ex_tx ''tx-1'' ex_host 4"])


lemma reconstruction_newest_witness:
  "ex_claim_of (ex_tx ''tx-1'' ex_host 4) \<in> set [ex_claim_of (ex_tx ''tx-1'' ex_host 4)] \<and>
   claim_of_record (ex_claim_of (ex_tx ''tx-1'' ex_host 4)) (ex_tx ''tx-1'' ex_host 4)"
proof -
  let ?r = "ex_tx ''tx-1'' ex_host 4"
  have d: "distinct (map jr_TransactionID [?r])" by simp
  from reconstruction_newest [OF d ex_reconstruct] show ?thesis by simp
qed

lemma ex_coordinates:
  "list_all2 same_coordinates (jr_Actions (ex_tx ''tx-1'' ex_host 4))
     (p_Actions (ex_mint_plan\<lparr>p_Actions := map (\<lambda>a. a\<lparr>a_Resource := ''file./etc/vps-gateway/x.conf''\<rparr>) (p_Actions ex_mint_plan)\<rparr>))"
  by (simp add: ex_tx_def jex_record_def jex_action_def ex_mint_plan_def same_coordinates_def ex_action_def file_spec_def)

lemma reconstruction_equals_minting_witness:
  "claims_of (ex_tx ''tx-1'' ex_host 4) =
     (case MintTransactionEvidence (Some (ex_tx ''tx-1'' ex_host 4))
        (ex_mint_plan\<lparr>p_Actions := map (\<lambda>a. a\<lparr>a_Resource := ''file./etc/vps-gateway/x.conf''\<rparr>) (p_Actions ex_mint_plan)\<rparr>) [] of
        Inl _ \<Rightarrow> [] | Inr out \<Rightarrow> mo_Minted out) \<and> claims_of (ex_tx ''tx-1'' ex_host 4) \<noteq> []"
proof -
  have "validateHostIdentity ex_host = None" "ex_host \<noteq> ''''" by code_simp+
  then have "reconstructible (ex_tx ''tx-1'' ex_host 4)" by (simp add: reconstructible_def ex_tx_def jex_record_def)
  from reconstruction_equals_minting [OF this ex_coordinates] show ?thesis by (simp add: ex_tx_claims)
qed

lemma reconstruction_idempotent_witness:
  "ReconstructEvidence [ex_tx ''tx-1'' ex_host 4] [ex_claim_of (ex_tx ''tx-1'' ex_host 4)] =
     ReconstructEvidence [ex_tx ''tx-1'' ex_host 4] []"
proof -
  have d: "distinct (map jr_TransactionID [ex_tx ''tx-1'' ex_host 4])" by simp
  from reconstruction_idempotent [OF d ex_reconstruct] show ?thesis by (simp add: ex_reconstruct)
qed

definition ex_recovery_world :: "unit OWorld" where
  "ex_recovery_world = ex_world\<lparr>ow_Journal := jex_store (ex_tx ''tx-1'' ex_host 4),
     ow_State := \<lparr>sst_file = Text (Some (JObj [(''schema_version'', JInt 2)])), sst_faults = []\<rparr>\<rparr>"

lemma ex_recovery:
  "RecoverEvidence ex_xt (\<lambda>_ _. Some (ex_stored_model [])) (ex_orc False) ex_recovery_world =
     (Inr ((no_recovery EvidenceRecoveryPersisted)\<lparr>er_Added := 1\<rparr>),
      ex_recovery_world\<lparr>ow_State := \<lparr>sst_file = Text (Some (JObj [])), sst_faults = []\<rparr>\<rparr>)"
proof -
  let ?r = "ex_tx ''tx-1'' ex_host 4"
  have shape: "?r = (jex_record ''COMPLETED'' False)\<lparr>jr_UpdatedAt := 4, jr_Actions := [jex_action '''']\<rparr>"
    by (simp add: ex_tx_def jex_record_def)
  have "record_error ''tx-1.json'' ?r = None" unfolding shape by (rule ex_record_ok) simp
  then have load: "loadAll (jex_store ?r) = (Inr [?r], jex_store ?r)" by (rule ex_loadAll)
  have v: "probeSchemaVersion (Some (JObj [(''schema_version'', JInt 2)])) = Inr 2" by code_simp
  have e: "probe_version (Some (JObj [(''schema_version'', JInt 2)])) = Inr (Some 2)" by code_simp
  have d: "rejectDuplicateJSONKeys (JObj [(''schema_version'', JInt 2)]) = None" by code_simp
  have parse: "ParseState (\<lambda>_. '''') (\<lambda>_ _. Some (ex_stored_model [])) (Some (JObj [(''schema_version'', JInt 2)])) = Inr (ex_stored_model [])"
    unfolding ParseState_def v by (simp add: d ex_stored_model_def)
  have "persistence_blocker '''' False ?r = None" by (simp add: persistence_blocker_def ex_tx_def jex_record_def)
  then have blk: "PersistenceBlockers '''' False (jex_store ?r) = (Inr [], jex_store ?r)"
    by (simp add: PersistenceBlockers_def jbind_def load jret_def List.map_filter_def)
  have ok: "\<exists>c. stateEvidence (ex_claim_of ?r) = Inr c" by (rule ex_evidence_ok) code_simp
  define s where "s = \<lparr>sst_file = Text (Some (JObj [(''schema_version'', JInt 2)])), sst_faults = []\<rparr>"
  have xt: "xt_FormatTime ex_xt = (\<lambda>_. '''')" "xt_Encode ex_xt = (\<lambda>_. JObj [])" by (simp_all add: ex_xt_def)
  have orc: "orc_HasJournal (ex_orc False)" "orc_Now (ex_orc False) () = 9" "orc_Acquire (ex_orc False) () = (None, ())"
    "orc_Release (ex_orc False) () = ()"
    by (simp_all add: ex_orc_def)
  have loaded: "LoadModel (\<lambda>_. '''') (\<lambda>_ _. Some (ex_stored_model [])) s = (Inr (ex_stored_model []), s)"
    using parse by (simp add: LoadModel_def sread_def sfault_def s_def)
  have version: "existingStateVersion s = (Inr (Some 2), s)"
    using e by (simp add: existingStateVersion_def sread_def sfault_def s_def)
  have saved: "SaveModel (\<lambda>_. '''') (\<lambda>_. JObj []) ((ex_stored_model [])\<lparr>m_Evidence := [ex_claim_of ?r], m_UpdatedAt := 9\<rparr>) s =
      (Inr (), \<lparr>sst_file = Text (Some (JObj [])), sst_faults = []\<rparr>)"
  proof -
    have "save_refusal (\<lambda>_. '''') ((ex_stored_model [])\<lparr>m_Evidence := [ex_claim_of ?r], m_UpdatedAt := 9\<rparr>) = None"
      using ok by (auto simp: save_refusal_def ex_stored_model_def ValidateEvidenceRecords_def)
    moreover have "swrite (JObj []) s = (Inr (), \<lparr>sst_file = Text (Some (JObj [])), sst_faults = []\<rparr>)"
      by (simp add: swrite_def sfault_def s_def)
    ultimately show ?thesis by (simp add: SaveModel_def version)
  qed
  have differ: "\<not> evidenceSetsEqual [] [ex_claim_of ?r]" "evidenceDiff [] [ex_claim_of ?r] = (1, 0)"
    by (simp_all only: evidenceSetsEqual_def evidenceDiff_def keyed_def list.map rev.simps map_of.simps filter.simps option.case
      list.size if_True if_False) simp_all
  have w: "ex_recovery_world = \<lparr>ow_Machine = (), ow_Journal = jex_store ?r, ow_State = s, ow_Record = None\<rparr>"
    by (simp add: ex_recovery_world_def ex_world_def s_def)
  have evidence: "m_Evidence (ex_stored_model []) = []" by (simp add: ex_stored_model_def)
  have recovered: "recover_locked ex_xt (\<lambda>_ _. Some (ex_stored_model [])) (ex_orc False)
      \<lparr>ow_Machine = (), ow_Journal = jex_store ?r, ow_State = s, ow_Record = None\<rparr> =
      (Inr ((no_recovery EvidenceRecoveryPersisted)\<lparr>er_Added := 1\<rparr>),
       \<lparr>ow_Machine = (), ow_Journal = jex_store ?r, ow_State = \<lparr>sst_file = Text (Some (JObj [])), sst_faults = []\<rparr>, ow_Record = None\<rparr>)"
    by (simp add: recover_locked_def xt orc load loaded evidence ex_reconstruct blk saved differ no_recovery_def Let_def
      del: ex_values)
  show ?thesis by (simp add: RecoverEvidence_def w orc recovered)
qed

lemma recovery_guarded_witness:
  "jlookup (ow_Journal ex_recovery_world) ''tx-1.json'' = Some (JRecord (ex_tx ''tx-1'' ex_host 4)) \<and>
   jr_Outcome (ex_tx ''tx-1'' ex_host 4) \<noteq> ''''"
proof -
  let ?w = "ex_recovery_world\<lparr>ow_State := \<lparr>sst_file = Text (Some (JObj [])), sst_faults = []\<rparr>\<rparr>"
  have ne: "sst_file (ow_State ?w) \<noteq> sst_file (ow_State ex_recovery_world)" by (simp add: ex_recovery_world_def)
  let ?r = "ex_tx ''tx-1'' ex_host 4"
  have stored: "jlookup (ow_Journal ex_recovery_world) ''tx-1.json'' = Some (JRecord ?r)"
    by (simp add: ex_recovery_world_def jex_store_def jlookup_def)
  have dir: "js_dir (ow_Journal ex_recovery_world)" by (simp add: ex_recovery_world_def jex_store_def)
  have tx: "jr_TransactionID ?r = ''tx-1''" by (simp add: ex_tx_def)
  have name: "file_name (jr_TransactionID ?r) = ''tx-1.json''" by (simp add: file_name_def tx)
  have "jr_Outcome ?r \<noteq> ''''"
    using recovery_guarded [OF ex_recovery, THEN conjunct2, THEN mp, OF ne, THEN conjunct2, rule_format, of ?r] dir tx name stored by simp
  with stored show ?thesis by (rule conjI)
qed

end
