(* ===== verification/Leak.thy ===== *)
theory Leak
  imports Netip Identity
begin

text \<open>
  The direct-leak evaluator (\<open>internal/leak/leak.go\<close>): a static walk of the policy-routing rules for unmarked
  IPv4 traffic from the selector, with the routing inventory of \<open>internal/discovery/model.go\<close>. The texts of
  details and errors are values of their own; the scope of an assessment is the constant IPv4 path. The
  reference semantics of policy routing at the end is what the assessment is compared with.
\<close>

unbundle bit_operations_syntax

subsection \<open>The inventory\<close>

record Rule =
  ru_Priority :: int
  ru_From :: string
  ru_To :: string
  ru_FWMark :: "32 word"
  ru_FWMask :: "32 word"
  ru_Table :: int
  ru_TableRaw :: string
  ru_Status :: FieldStatus
  ru_Unmodeled :: "string list"

record Route =
  ro_Destination :: string
  ro_Gateway :: string
  ro_Device :: string
  ro_Table :: string
  ro_Metric :: int
  ro_Family :: string
  ro_Type :: string
  ro_Scope :: string
  ro_Status :: FieldStatus
  ro_Multipath :: bool

record RouteTable =
  rtb_ID :: int
  rtb_Name :: string
  rtb_Routes :: "Route list"

record Routing =
  rg_DefaultRoutes :: "Route list"
  rg_Rules :: "Rule list"
  rg_Tables :: "RouteTable list"
  rg_RulesStatus :: FieldStatus
  rg_RoutesStatus :: FieldStatus

subsection \<open>Vocabulary\<close>

datatype LeakStatus = StatusNotConfigured | StatusSafe | StatusDegraded | StatusUnknown | StatusUnsafe | StatusBlocked
  | StatusOther string

fun Rank :: "LeakStatus \<Rightarrow> (string, nat) result" where
  "Rank StatusBlocked = Inr 6"
| "Rank StatusUnsafe = Inr 5"
| "Rank StatusUnknown = Inr 4"
| "Rank StatusDegraded = Inr 3"
| "Rank StatusNotConfigured = Inr 2"
| "Rank StatusSafe = Inr 1"
| "Rank (StatusOther s) = Inl s"

datatype Reason = ReasonPathViaTUN | ReasonMainFallthrough | ReasonDirectPathProven | ReasonRouteGetUnreachable
  | ReasonSelectorRuleMissing | ReasonSelectorUnproven | ReasonRuleTableUnresolved | ReasonAmbiguousRuleMatch
  | ReasonTableMissing | ReasonTableDefaultMissing | ReasonRouteWrongInterface | ReasonRouteStaleDevice
  | ReasonRouteTerminating | ReasonRuleUnmodeledSemantics | ReasonTableDefaultAmbiguous
  | ReasonTableCompetingMoreSpecific | ReasonTUNUncorrelated | ReasonAutoRouteEnabled | ReasonAutoRouteUnknown
  | ReasonInventoryUnknown | ReasonSnapshotInconsistent | ReasonIntentAbsent

text \<open>The details: coordinates of rules, tables and routes, a device, and the two forms about the route-get proof.\<close>

datatype Detail = DRule int string | DTable int int | DRoute int string string string | DDevice string
  | DCorroborated string | DRouteGet string

record Assessment =
  as_Status :: LeakStatus
  as_Reasons :: "Reason list"
  as_Details :: "Detail list"

datatype AutoRouteState = AutoRouteFalse | AutoRouteTrue | AutoRouteUnknown | AutoRouteOther string

record SelectorFacts =
  sf_Status :: FieldStatus
  sf_CIDR :: Prefix

record TUNFacts =
  tun_Status :: FieldStatus
  tun_Device :: string

record RouteGetResult =
  rgr_Ran :: bool
  rgr_Table :: int
  rgr_Device :: string

record Input =
  li_IntentConfigured :: bool
  li_AutoRoute :: AutoRouteState
  li_Selector :: SelectorFacts
  li_TUN :: TUNFacts
  li_Routing :: Routing
  li_Interfaces :: "string list"
  li_InterfacesStatus :: FieldStatus
  li_SnapshotConsistent :: bool
  li_RouteGet :: "RouteGetResult option"

datatype leak_error = BadAutoRoute | SelectorUnset | SelectorIPv6 | SelectorHostBits | SelectorEverything | SelectorUnsafe
  | TUNUnnamed

definition assess :: "LeakStatus \<Rightarrow> Reason list \<Rightarrow> Detail list \<Rightarrow> Assessment" where
  "assess st rs ds = \<lparr>as_Status = st, as_Reasons = rs, as_Details = ds\<rparr>"

definition unknown_leak :: "Reason \<Rightarrow> Detail list \<Rightarrow> Assessment" where
  "unknown_leak r ds = assess StatusUnknown [r] ds"

definition terminating :: "string \<Rightarrow> bool" where
  "terminating t \<longleftrightarrow> t \<in> {''blackhole'', ''unreachable'', ''prohibit''}"

definition localTableID :: int where
  "localTableID = 255"

definition ruleCoordinate :: "Rule \<Rightarrow> Detail" where
  "ruleCoordinate r = DRule (ru_Priority r) (ru_TableRaw r)"

definition tableCoordinate :: "Rule \<Rightarrow> int \<Rightarrow> Detail" where
  "tableCoordinate r i = DTable (ru_Priority r) i"

definition routeCoordinate :: "Route \<Rightarrow> int \<Rightarrow> Detail" where
  "routeCoordinate r i = DRoute i (ro_Device r) (ro_Type r) (ro_Destination r)"

subsection \<open>Rules and tables\<close>

text \<open>The selector is an IPv4 prefix here: \<open>validateInput\<close> has refused everything else.\<close>

definition ruleMatches :: "Rule \<Rightarrow> addr4 \<Rightarrow> nat \<Rightarrow> (string, bool) result" where
  "ruleMatches r sel bits =
     (if ru_FWMark r \<noteq> 0 then Inr False
      else if ru_To r \<noteq> '''' \<and> ru_To r \<noteq> ''all'' then Inl ''destination selector''
      else if ru_From r \<in> {'''', ''all'', ''0''} then Inr True
      else case ParsePrefix4 (ru_From r) of
        None \<Rightarrow> Inl ''from-selector is not an IPv4 prefix''
      | Some (net, n) \<Rightarrow> Inr (\<not> (bits < n \<or> \<not> in_prefix net n sel)))"

definition resolveTable :: "Rule \<Rightarrow> RouteTable list \<Rightarrow> int option" where
  "resolveTable r tables =
     (if ru_Table r \<noteq> 0 then Some (ru_Table r)
      else if ru_TableRaw r = '''' then None
      else map_option rtb_ID (find (\<lambda>t. rtb_Name t = ru_TableRaw r) tables))"

definition findTable :: "RouteTable list \<Rightarrow> int \<Rightarrow> RouteTable option" where
  "findTable tables i = find (\<lambda>t. rtb_ID t = i) tables"

definition isDefaultRoute :: "Route \<Rightarrow> bool" where
  "isDefaultRoute r \<longleftrightarrow> ro_Destination r = ''default'' \<or> ro_Destination r = ''0.0.0.0/0''"

definition default_candidates :: "RouteTable \<Rightarrow> Route list" where
  "default_candidates g = filter (\<lambda>r. isDefaultRoute r \<and> ro_Family r \<noteq> ''ipv6'') (rtb_Routes g)"

definition unicast :: "Route \<Rightarrow> bool" where
  "unicast r \<longleftrightarrow> ro_Type r = '''' \<or> ro_Type r = ''unicast''"

datatype defaultKind = noDefault | defaultViaDevice | defaultTerminating

text \<open>
  The scan of the candidates: the number of terminating routes, the devices seen, the route that brought the
  last new device; \<open>None\<close> for a multipath or unmodeled default.
\<close>

fun scan_defaults :: "nat \<Rightarrow> string list \<Rightarrow> Route option \<Rightarrow> Route list \<Rightarrow> (nat \<times> string list \<times> Route option) option" where
  "scan_defaults t devs fd [] = Some (t, devs, fd)"
| "scan_defaults t devs fd (r # rs) =
     (if ro_Multipath r then None
      else if terminating (ro_Type r) then scan_defaults (Suc t) devs fd rs
      else if unicast r then
        (if ro_Device r \<in> set devs then scan_defaults t devs fd rs
         else scan_defaults t (devs @ [ro_Device r]) (Some r) rs)
      else None)"

text \<open>The route (\<open>None\<close> for the zero route), the kind, and whether the default is ambiguous.\<close>

definition tableDefault :: "RouteTable \<Rightarrow> Route option \<times> defaultKind \<times> bool" where
  "tableDefault g =
     (case default_candidates g of
        [] \<Rightarrow> (None, noDefault, False)
      | c # cs \<Rightarrow>
          (case scan_defaults 0 [] None (c # cs) of
             None \<Rightarrow> (Some c, noDefault, True)
           | Some (t, devs, fd) \<Rightarrow>
               if 0 < t \<and> devs \<noteq> [] then (Some c, noDefault, True)
               else if 0 < t then (Some c, defaultTerminating, False)
               else if 1 < length devs then (Some c, noDefault, True)
               else (fd, defaultViaDevice, False)))"

definition competes :: "string \<Rightarrow> Route \<Rightarrow> bool" where
  "competes tunDevice r \<longleftrightarrow> \<not> isDefaultRoute r \<and> \<not> terminating (ro_Type r)
     \<and> (ro_Multipath r \<or> \<not> unicast r \<or> ro_Device r \<noteq> tunDevice)"

definition competingMoreSpecific :: "RouteTable \<Rightarrow> string \<Rightarrow> Detail option" where
  "competingMoreSpecific g tunDevice = map_option (\<lambda>r. routeCoordinate r 0) (find (competes tunDevice) (rtb_Routes g))"

definition zero_route :: Route where
  "zero_route = \<lparr>ro_Destination = '''', ro_Gateway = '''', ro_Device = '''', ro_Table = '''', ro_Metric = 0, ro_Family = '''',
     ro_Type = '''', ro_Scope = '''', ro_Status = FieldStatusOther '''', ro_Multipath = False\<rparr>"

definition the_route :: "Route option \<Rightarrow> Route" where
  "the_route r = (case r of None \<Rightarrow> zero_route | Some x \<Rightarrow> x)"

subsection \<open>The walk\<close>

text \<open>What the table of a matched rule says: a final assessment, or reasons and details to go on with.\<close>

datatype step_result = Stop Assessment | Go "Reason list" "Detail list"

definition table_step ::
  "string \<Rightarrow> string list \<Rightarrow> Rule \<Rightarrow> int \<Rightarrow> RouteTable \<Rightarrow> Reason list \<Rightarrow> Detail list \<Rightarrow> step_result" where
  "table_step tunDevice excluded r i g rs ds =
     (case tableDefault g of (d, kind, ambiguous) \<Rightarrow>
        let def = the_route d in
        if ambiguous then Stop (unknown_leak ReasonTableDefaultAmbiguous (ds @ [tableCoordinate r i, routeCoordinate def i]))
        else (case kind of
          defaultViaDevice \<Rightarrow>
            if ro_Device def \<in> set excluded then Go (rs @ [ReasonRouteStaleDevice]) (ds @ [routeCoordinate def i])
            else if ro_Device def = tunDevice then
              (case competingMoreSpecific g tunDevice of
                 Some rival \<Rightarrow>
                   Stop (unknown_leak ReasonTableCompetingMoreSpecific
                     (ds @ [tableCoordinate r i, rival, routeCoordinate def i, DDevice (ro_Device def)]))
               | None \<Rightarrow>
                   Stop (assess StatusSafe (rs @ [ReasonPathViaTUN]) (ds @ [routeCoordinate def i, DDevice (ro_Device def)])))
            else Stop (assess StatusUnsafe (rs @ [ReasonRouteWrongInterface, ReasonMainFallthrough])
                   (ds @ [routeCoordinate def i, DDevice (ro_Device def)]))
        | defaultTerminating \<Rightarrow> Stop (assess StatusDegraded (rs @ [ReasonRouteTerminating]) (ds @ [routeCoordinate def i]))
        | noDefault \<Rightarrow> Go (rs @ [ReasonTableDefaultMissing]) (ds @ [tableCoordinate r i])))"

fun walk ::
  "addr4 \<Rightarrow> nat \<Rightarrow> RouteTable list \<Rightarrow> string \<Rightarrow> string list \<Rightarrow> Reason list \<Rightarrow> Detail list \<Rightarrow> Rule list \<Rightarrow> Assessment" where
  "walk sel bits tables tunDevice excluded rs ds [] = assess StatusDegraded (rs @ [ReasonTableDefaultMissing]) ds"
| "walk sel bits tables tunDevice excluded rs ds (r # rest) =
     (case ruleMatches r sel bits of
        Inl _ \<Rightarrow> unknown_leak ReasonAmbiguousRuleMatch (ds @ [ruleCoordinate r])
      | Inr False \<Rightarrow> walk sel bits tables tunDevice excluded rs ds rest
      | Inr True \<Rightarrow>
          (case find (\<lambda>q. ruleMatches q sel bits = Inr True) (takeWhile (\<lambda>q. ru_Priority q = ru_Priority r) rest) of
             Some q \<Rightarrow> unknown_leak ReasonAmbiguousRuleMatch (ds @ [ruleCoordinate r, ruleCoordinate q])
           | None \<Rightarrow>
               if ru_Unmodeled r \<noteq> [] then unknown_leak ReasonRuleUnmodeledSemantics (ds @ [ruleCoordinate r])
               else (case resolveTable r tables of
                  None \<Rightarrow> unknown_leak ReasonRuleTableUnresolved (ds @ [ruleCoordinate r])
                | Some i \<Rightarrow>
                    if i = localTableID then walk sel bits tables tunDevice excluded rs ds rest
                    else (case findTable tables i of
                       None \<Rightarrow> walk sel bits tables tunDevice excluded (rs @ [ReasonTableMissing]) (ds @ [tableCoordinate r i]) rest
                     | Some g \<Rightarrow>
                         (case table_step tunDevice excluded r i g rs ds of
                            Stop a \<Rightarrow> a
                          | Go rs2 ds2 \<Rightarrow> walk sel bits tables tunDevice excluded rs2 ds2 rest)))))"

definition walk_input :: "Input \<Rightarrow> addr4 \<Rightarrow> nat \<Rightarrow> string list \<Rightarrow> Assessment" where
  "walk_input inp sel bits excluded =
     walk sel bits (rg_Tables (li_Routing inp)) (tun_Device (li_TUN inp)) excluded [] []
       (sort_key ru_Priority (rg_Rules (li_Routing inp)))"

definition diverts :: "Input \<Rightarrow> addr4 \<Rightarrow> nat \<Rightarrow> Rule \<Rightarrow> bool" where
  "diverts inp sel bits r =
     (ruleMatches r sel bits = Inr True \<and> ru_Unmodeled r = [] \<and>
      (case resolveTable r (rg_Tables (li_Routing inp)) of
         None \<Rightarrow> False
       | Some i \<Rightarrow>
           (case findTable (rg_Tables (li_Routing inp)) i of
              None \<Rightarrow> False
            | Some g \<Rightarrow>
                (case tableDefault g of (d, kind, ambiguous) \<Rightarrow>
                   \<not> ambiguous \<and> kind = defaultViaDevice \<and> ro_Device (the_route d) = tun_Device (li_TUN inp)))))"

definition hasSelectorDiversion :: "Input \<Rightarrow> addr4 \<Rightarrow> nat \<Rightarrow> bool" where
  "hasSelectorDiversion inp sel bits = list_ex (diverts inp sel bits) (rg_Rules (li_Routing inp))"

definition crossCheckRouteGet :: "Assessment \<Rightarrow> Input \<Rightarrow> Assessment" where
  "crossCheckRouteGet a inp =
     (case li_RouteGet inp of
        None \<Rightarrow> a
      | Some g \<Rightarrow>
          if \<not> rgr_Ran g then a
          else if as_Status a \<notin> {StatusSafe, StatusDegraded, StatusUnsafe} then a
          else if rgr_Device g = '''' then assess StatusDegraded (ReasonRouteGetUnreachable # as_Reasons a) (as_Details a)
          else if tun_Status (li_TUN inp) = FieldStatusPresent \<and> rgr_Device g = tun_Device (li_TUN inp)
          then a\<lparr>as_Details := as_Details a @ [DCorroborated (rgr_Device g)]\<rparr>
          else assess StatusUnsafe (ReasonDirectPathProven # as_Reasons a) (as_Details a @ [DRouteGet (rgr_Device g)]))"

subsection \<open>The evaluation\<close>

definition selector_error :: "Prefix \<Rightarrow> leak_error option" where
  "selector_error p =
     (case p of
        NoPrefix \<Rightarrow> Some SelectorUnset
      | Prefix6 a n \<Rightarrow> if n \<le> 128 then Some SelectorIPv6 else Some SelectorUnset
      | Prefix4 a n \<Rightarrow>
          if 32 < n then Some SelectorUnset
          else if Masked4 a n \<noteq> a then Some SelectorHostBits
          else if n = 0 then Some SelectorEverything
          else if IsLoopback a \<or> IsMulticast a \<or> IsLinkLocalUnicast a \<or> IsLinkLocalMulticast a \<or> IsUnspecified a
          then Some SelectorUnsafe else None)"

definition validateInput :: "Input \<Rightarrow> leak_error option" where
  "validateInput inp =
     (if li_AutoRoute inp \<notin> {AutoRouteFalse, AutoRouteTrue, AutoRouteUnknown} then Some BadAutoRoute
      else case (if li_IntentConfigured inp \<or> sf_Status (li_Selector inp) = FieldStatusPresent
                 then selector_error (sf_CIDR (li_Selector inp)) else None) of
        Some e \<Rightarrow> Some e
      | None \<Rightarrow>
          if tun_Status (li_TUN inp) = FieldStatusPresent \<and> tun_Device (li_TUN inp) = '''' then Some TUNUnnamed else None)"

definition prefix_parts :: "Prefix \<Rightarrow> addr4 \<times> nat" where
  "prefix_parts p = (case p of Prefix4 a n \<Rightarrow> (a, n) | _ \<Rightarrow> (0, 0))"

definition Evaluate :: "Input \<Rightarrow> (leak_error, Assessment) result" where
  "Evaluate inp =
     (case validateInput inp of
        Some e \<Rightarrow> Inl e
      | None \<Rightarrow>
          let (sel, bits) = prefix_parts (sf_CIDR (li_Selector inp)) in
          Inr (if li_AutoRoute inp = AutoRouteTrue then assess StatusBlocked [ReasonAutoRouteEnabled] []
               else if li_AutoRoute inp = AutoRouteUnknown then assess StatusBlocked [ReasonAutoRouteUnknown] []
               else if \<not> li_SnapshotConsistent inp then unknown_leak ReasonSnapshotInconsistent []
               else if \<not> li_IntentConfigured inp then assess StatusNotConfigured [ReasonIntentAbsent] []
               else if sf_Status (li_Selector inp) \<noteq> FieldStatusPresent then unknown_leak ReasonSelectorUnproven []
               else if tun_Status (li_TUN inp) \<noteq> FieldStatusPresent then unknown_leak ReasonTUNUncorrelated []
               else if rg_RulesStatus (li_Routing inp) \<noteq> FieldStatusPresent then unknown_leak ReasonInventoryUnknown []
               else if rg_RoutesStatus (li_Routing inp) \<noteq> FieldStatusPresent then unknown_leak ReasonInventoryUnknown []
               else if li_InterfacesStatus inp \<noteq> FieldStatusPresent then unknown_leak ReasonInventoryUnknown []
               else
                 let a1 = (if tun_Device (li_TUN inp) \<in> set (li_Interfaces inp) then walk_input inp sel bits []
                           else let a = walk_input inp sel bits [tun_Device (li_TUN inp)] in
                             a\<lparr>as_Reasons := ReasonRouteStaleDevice # as_Reasons a\<rparr>);
                     a2 = (if as_Status a1 = StatusUnsafe \<and> \<not> hasSelectorDiversion inp sel bits
                           then a1\<lparr>as_Reasons := ReasonSelectorRuleMissing # as_Reasons a1\<rparr> else a1) in
                 crossCheckRouteGet a2 inp))"


subsection \<open>Policy routing\<close>

text \<open>
  What the kernel may decide for an unmarked forwarded packet, as the set of decisions the inventory leaves
  open. Rules are tried in the order of their priorities; a rule with a \<open>not\<close> inverts its selectors; other
  keys outside the model may restrict a rule or change its effect. A table answers with one of its longest
  matching routes, the local table has none for a forwarded packet, and a table without an answer passes the
  packet on.
\<close>

datatype decision = Via string | Dropped | NoRoute | Anything

definition text_prefix :: "string \<Rightarrow> (addr4 \<times> nat) option" where
  "text_prefix s =
     (case ParsePrefix4 s of Some p \<Rightarrow> Some p | None \<Rightarrow> map_option (\<lambda>a. (a, 32)) (ParseAddr4 s))"

definition selects :: "string \<Rightarrow> addr4 \<Rightarrow> bool" where
  "selects s a \<longleftrightarrow> s \<in> {'''', ''all'', ''0''} \<or> (case text_prefix s of None \<Rightarrow> False | Some (net, n) \<Rightarrow> in_prefix net n a)"

definition modeled_match :: "Rule \<Rightarrow> addr4 \<Rightarrow> addr4 \<Rightarrow> bool" where
  "modeled_match r src dst \<longleftrightarrow> ru_FWMark r = 0 \<and> selects (ru_From r) src \<and> selects (ru_To r) dst"

definition inverted :: "Rule \<Rightarrow> bool" where
  "inverted r \<longleftrightarrow> ''not'' \<in> set (ru_Unmodeled r)"

definition may_take :: "Rule \<Rightarrow> addr4 \<Rightarrow> addr4 \<Rightarrow> bool" where
  "may_take r src dst \<longleftrightarrow> (if inverted r then \<not> modeled_match r src dst \<or> ru_Unmodeled r \<noteq> [''not''] else modeled_match r src dst)"

definition may_skip :: "Rule \<Rightarrow> addr4 \<Rightarrow> addr4 \<Rightarrow> bool" where
  "may_skip r src dst \<longleftrightarrow> (if inverted r then modeled_match r src dst else \<not> modeled_match r src dst) \<or> set (ru_Unmodeled r) - {''not''} \<noteq> {}"

definition destination :: "Route \<Rightarrow> (addr4 \<times> nat) option" where
  "destination r = (if isDefaultRoute r then Some (0, 0) else text_prefix (ro_Destination r))"

definition covers :: "addr4 \<Rightarrow> Route \<Rightarrow> nat option" where
  "covers dst r =
     (if ro_Family r = ''ipv6'' then None
      else case destination r of None \<Rightarrow> None | Some (net, n) \<Rightarrow> if in_prefix net n dst then Some n else None)"

definition longest :: "Route list \<Rightarrow> addr4 \<Rightarrow> Route list" where
  "longest routes dst =
     filter (\<lambda>r. case covers dst r of None \<Rightarrow> False
                 | Some n \<Rightarrow> list_all (\<lambda>q. case covers dst q of None \<Rightarrow> True | Some k \<Rightarrow> k \<le> n) routes) routes"

definition route_decision :: "Route \<Rightarrow> decision" where
  "route_decision r =
     (if terminating (ro_Type r) then Dropped
      else if \<not> ro_Multipath r \<and> unicast r then Via (ro_Device r) else Anything)"

definition table_decisions :: "RouteTable list \<Rightarrow> int option \<Rightarrow> addr4 \<Rightarrow> decision list" where
  "table_decisions tables i dst =
     (case i of
        None \<Rightarrow> [Anything]
      | Some k \<Rightarrow>
          if k = localTableID then []
          else (case findTable tables k of None \<Rightarrow> [] | Some g \<Rightarrow> map route_decision (longest (rtb_Routes g) dst)))"

fun decisions :: "RouteTable list \<Rightarrow> addr4 \<Rightarrow> addr4 \<Rightarrow> Rule list \<Rightarrow> decision list" where
  "decisions tables src dst [] = [NoRoute]"
| "decisions tables src dst (r # rest) =
     (let answers = (if set (ru_Unmodeled r) - {''not''} \<noteq> {} then [Anything] else table_decisions tables (resolveTable r tables) dst);
          later = decisions tables src dst rest in
      (if may_take r src dst then (if answers = [] then later else answers) else [])
      @ (if may_skip r src dst then later else []))"

definition routed :: "Input \<Rightarrow> addr4 \<Rightarrow> addr4 \<Rightarrow> decision set" where
  "routed inp src dst =
     set (decisions (rg_Tables (li_Routing inp)) src dst (sort_key ru_Priority (rg_Rules (li_Routing inp))))"


subsection \<open>Soundness of the walk\<close>

lemma ParsePrefix4_bits: "ParsePrefix4 s = Some (a, n) \<Longrightarrow> n \<le> 32"
  using ParsePrefix4_Some by blast

lemma scan_defaults_Some:
  assumes "scan_defaults t devs fd rs = Some (t', devs', fd')" and "devs = [] \<longleftrightarrow> fd = None" and "devs \<noteq> [] \<Longrightarrow> ro_Device (the fd) = last devs"
  shows "t \<le> t' \<and> set devs \<subseteq> set devs' \<and> (devs' = [] \<longleftrightarrow> fd' = None) \<and> (devs' \<noteq> [] \<longrightarrow> ro_Device (the fd') = last devs')
    \<and> (\<forall>r \<in> set rs. \<not> ro_Multipath r \<and> (terminating (ro_Type r) \<and> 0 < t' \<or> unicast r \<and> ro_Device r \<in> set devs'))"
  using assms
proof (induction rs arbitrary: t devs fd)
  case (Cons r rs)
  consider "terminating (ro_Type r)" | "\<not> terminating (ro_Type r)" "ro_Device r \<in> set devs" | "\<not> terminating (ro_Type r)" "ro_Device r \<notin> set devs"
    by blast
  then show ?case
  proof cases
    case 1
    with Cons.prems Cons.IH [of "Suc t" devs fd] show ?thesis by (force split: if_splits)
  next
    case 2
    with Cons.prems Cons.IH [of t devs fd] show ?thesis by (force split: if_splits)
  next
    case 3
    with Cons.prems Cons.IH [of t "devs @ [ro_Device r]" "Some r"] show ?thesis by (force split: if_splits)
  qed
qed auto

lemma tableDefault_device:
  assumes "tableDefault g = (d, defaultViaDevice, False)"
  shows "default_candidates g \<noteq> [] \<and>
    (\<forall>r \<in> set (default_candidates g). \<not> ro_Multipath r \<and> unicast r \<and> ro_Device r = ro_Device (the_route d))"
proof (cases "default_candidates g")
  case (Cons c cs)
  with assms obtain t devs where s: "scan_defaults 0 [] None (c # cs) = Some (t, devs, d)" "t = 0" "length devs \<le> 1"
    by (auto simp: tableDefault_def split: option.splits if_splits prod.splits)
  note f = scan_defaults_Some [OF s(1)]
  have "devs \<noteq> []" using f s(2) by auto
  with s(3) obtain x where "devs = [x]" by (cases devs) auto
  with f s(2) Cons show ?thesis by (cases d) (auto simp: the_route_def)
qed (use assms in \<open>simp add: tableDefault_def\<close>)

lemma tableDefault_none:
  "tableDefault g = (d, noDefault, False) \<Longrightarrow> default_candidates g = []"
  by (auto simp: tableDefault_def split: list.splits option.splits if_splits prod.splits)

lemma longest_covers: "r \<in> set (longest routes dst) \<Longrightarrow> r \<in> set routes \<and> covers dst r \<noteq> None"
  by (auto simp: longest_def split: option.splits)

lemma longest_nonempty:
  assumes "r \<in> set routes" and "covers dst r \<noteq> None"
  shows "longest routes dst \<noteq> []"
proof -
  let ?C = "{q \<in> set routes. covers dst q \<noteq> None}"
  let ?N = "(\<lambda>q. the (covers dst q)) ` ?C"
  have fin: "finite ?N" "?N \<noteq> {}" using assms by auto
  from Max_in [OF fin] obtain m where m: "m \<in> ?C" "the (covers dst m) = Max ?N" by (metis (no_types, lifting) imageE)
  have "\<forall>q \<in> ?C. the (covers dst q) \<le> the (covers dst m)" unfolding m(2) using fin(1) by auto
  with m(1) have "m \<in> set (longest routes dst)"
    by (fastforce simp: longest_def list_all_iff split: option.splits)
  then show ?thesis by auto
qed

definition harmless :: "string \<Rightarrow> decision \<Rightarrow> bool" where
  "harmless tunDevice d \<longleftrightarrow> d = Via tunDevice \<or> d = Dropped"

lemma not_competing: "\<not> competes tunDevice r \<Longrightarrow> \<not> isDefaultRoute r \<Longrightarrow> harmless tunDevice (route_decision r)"
  by (auto simp: competes_def route_decision_def harmless_def)

lemma covers_family: "covers dst r \<noteq> None \<Longrightarrow> ro_Family r \<noteq> ''ipv6''"
  by (auto simp: covers_def)

lemma tun_table_decisions:
  assumes "tableDefault g = (d, defaultViaDevice, False)" and "ro_Device (the_route d) = tunDevice"
    and "competingMoreSpecific g tunDevice = None"
  shows "longest (rtb_Routes g) dst \<noteq> [] \<and> (\<forall>r \<in> set (longest (rtb_Routes g) dst). harmless tunDevice (route_decision r))"
proof
  note t = tableDefault_device [OF assms(1)]
  then have "hd (default_candidates g) \<in> set (default_candidates g)" by simp
  then obtain c where c: "c \<in> set (rtb_Routes g)" "isDefaultRoute c" "ro_Family c \<noteq> ''ipv6''"
    by (auto simp: default_candidates_def)
  then have "covers dst c \<noteq> None" by (simp add: covers_def destination_def)
  with c(1) show "longest (rtb_Routes g) dst \<noteq> []" by (rule longest_nonempty)
  show "\<forall>r \<in> set (longest (rtb_Routes g) dst). harmless tunDevice (route_decision r)"
  proof
    fix r assume "r \<in> set (longest (rtb_Routes g) dst)"
    then have r: "r \<in> set (rtb_Routes g)" "ro_Family r \<noteq> ''ipv6''" using longest_covers covers_family by blast+
    show "harmless tunDevice (route_decision r)"
    proof (cases "isDefaultRoute r")
      case True
      with r t assms(2) show ?thesis by (auto simp: default_candidates_def harmless_def route_decision_def)
    next
      case False
      from assms(3) r(1) have "\<not> competes tunDevice r" by (auto simp: competingMoreSpecific_def find_None_iff)
      with False show ?thesis by (rule not_competing [rotated])
    qed
  qed
qed

text \<open>
  What an inventory must satisfy for the walk to be sound: no inverted rule, no rule whose source prefix lies
  strictly inside the selector, and no table without a default route that still sends some destinations
  through another device. The evaluator checks none of the three.
\<close>

definition walkable :: "addr4 \<Rightarrow> nat \<Rightarrow> string \<Rightarrow> RouteTable list \<Rightarrow> Rule list \<Rightarrow> bool" where
  "walkable sel bits tunDevice tables rules \<longleftrightarrow>
     list_all (\<lambda>r. \<not> inverted r \<and>
       (case ParsePrefix4 (ru_From r) of None \<Rightarrow> True | Some (net, n) \<Rightarrow> n \<le> bits \<or> \<not> in_prefix sel bits net)) rules
     \<and> list_all (\<lambda>g. rtb_ID g = localTableID \<or> default_candidates g \<noteq> []
          \<or> list_all (\<lambda>r. ro_Family r = ''ipv6'' \<or> \<not> competes tunDevice r) (rtb_Routes g)) tables"

lemma match_decided:
  assumes "ruleMatches r sel bits = Inr b" and "bits \<le> 32" and "in_prefix sel bits src"
    and "case ParsePrefix4 (ru_From r) of None \<Rightarrow> True | Some (net, n) \<Rightarrow> n \<le> bits \<or> \<not> in_prefix sel bits net"
  shows "modeled_match r src dst = b"
proof (cases "ru_FWMark r = 0 \<and> ru_From r \<notin> {'''', ''all'', ''0''}")
  case True
  with assms(1) obtain net n where p: "ParsePrefix4 (ru_From r) = Some (net, n)" "b = (\<not> (bits < n \<or> \<not> in_prefix net n sel))"
    "ru_To r = '''' \<or> ru_To r = ''all''"
    by (auto simp: ruleMatches_def split: if_splits option.splits)
  have "in_prefix net n src = b"
  proof (cases "n \<le> bits")
    case True
    with in_prefix_trans [OF True assms(2,3)] p(2) show ?thesis by auto
  next
    case False
    have "\<not> in_prefix net n src"
    proof
      assume x: "in_prefix net n src"
      have "bits \<le> n" "n \<le> 32" using False ParsePrefix4_bits [OF p(1)] by simp_all
      from in_prefix_trans [OF this x, of sel] assms(3,4) p(1) False show False by simp
    qed
    with False p(2) show ?thesis by simp
  qed
  with True p show ?thesis by (auto simp: modeled_match_def selects_def text_prefix_def)
qed (use assms(1) in \<open>auto simp: modeled_match_def selects_def ruleMatches_def split: if_splits\<close>)

lemma find_mem: "find P xs = Some x \<Longrightarrow> x \<in> set xs \<and> P x"
  by (auto simp: find_Some_iff)

lemma walk_sound:
  assumes "as_Status (walk sel bits tables tunDevice excluded rs ds rules) = StatusSafe"
    and "walkable sel bits tunDevice tables rules" and "bits \<le> 32" and "in_prefix sel bits src" and "excluded = [] \<or> tunDevice \<in> set excluded"
  shows "excluded = [] \<and> (\<forall>d \<in> set (decisions tables src dst rules). harmless tunDevice d)"
  using assms(1,2)
proof (induction rules arbitrary: rs ds)
  case (Cons r rest)
  have w: "walkable sel bits tunDevice tables rest" using Cons.prems(2) by (simp add: walkable_def)
  have ninv: "\<not> inverted r" using Cons.prems(2) by (simp add: walkable_def)
  note later = Cons.IH [OF _ w]
  from Cons.prems(1) obtain b where b: "ruleMatches r sel bits = Inr b"
    by (cases "ruleMatches r sel bits") (auto simp: unknown_leak_def assess_def)
  have m: "modeled_match r src dst = b"
    by (rule match_decided [OF b assms(3,4)]) (use Cons.prems(2) in \<open>simp add: walkable_def\<close>)
  show ?case
  proof (cases b)
    case False
    with Cons.prems(1) b have "as_Status (walk sel bits tables tunDevice excluded rs ds rest) = StatusSafe" by simp
    moreover have "set (decisions tables src dst (r # rest)) = set (decisions tables src dst rest)"
      using m False ninv by (simp add: may_take_def may_skip_def Let_def)
    ultimately show ?thesis using later by simp
  next
    case True
    with Cons.prems(1) b have u: "ru_Unmodeled r = []"
      and nf: "find (\<lambda>q. ruleMatches q sel bits = Inr True) (takeWhile (\<lambda>q. ru_Priority q = ru_Priority r) rest) = None"
      by (auto simp: unknown_leak_def assess_def split: option.splits if_splits)
    obtain i where i: "resolveTable r tables = Some i"
      using Cons.prems(1) b True u nf by (cases "resolveTable r tables") (auto simp: unknown_leak_def assess_def)
    let ?ans = "table_decisions tables (Some i) dst"
    have dec: "decisions tables src dst (r # rest) = (if ?ans = [] then decisions tables src dst rest else ?ans)"
      using m True u i ninv by (simp add: may_take_def may_skip_def Let_def)
    note run = Cons.prems(1) [unfolded walk.simps b, simplified True nf u i, simplified]
    show ?thesis
    proof (cases "i = localTableID")
      case True
      with run later dec show ?thesis by (simp add: table_decisions_def)
    next
      case ni: False
      show ?thesis
      proof (cases "findTable tables i")
        case None
        with run ni have "as_Status (walk sel bits tables tunDevice excluded (rs @ [ReasonTableMissing]) (ds @ [tableCoordinate r i]) rest) = StatusSafe"
          by simp
        from later [OF this] dec ni None show ?thesis by (simp add: table_decisions_def)
      next
        case (Some g)
        have ans: "?ans = map route_decision (longest (rtb_Routes g) dst)" using ni Some by (simp add: table_decisions_def)
        obtain d k amb where td: "tableDefault g = (d, k, amb)" by (metis surj_pair)
        have g: "g \<in> set tables" "rtb_ID g = i" using find_mem [OF Some [unfolded findTable_def]] by auto
        show ?thesis
        proof (cases "table_step tunDevice excluded r i g rs ds")
          case (Stop a)
          with run ni Some have "as_Status a = StatusSafe" by simp
          with Stop td have s: "\<not> amb" "k = defaultViaDevice" "ro_Device (the_route d) = tunDevice" "tunDevice \<notin> set excluded"
            "competingMoreSpecific g tunDevice = None"
            by (auto simp: table_step_def Let_def unknown_leak_def assess_def split: if_splits defaultKind.splits option.splits)
          with tun_table_decisions [of g d tunDevice dst] td assms(5) dec ans show ?thesis by auto
        next
          case (Go rs2 ds2)
          with run ni Some have nx: "as_Status (walk sel bits tables tunDevice excluded rs2 ds2 rest) = StatusSafe" by simp
          note lt = later [OF nx]
          with Go td lt have "k = noDefault" "\<not> amb"
            by (auto simp: table_step_def Let_def split: if_splits defaultKind.splits option.splits)
          with td have nd: "default_candidates g = []" using tableDefault_none [of g d] by simp
          have "harmless tunDevice (route_decision q)" if "q \<in> set (longest (rtb_Routes g) dst)" for q
          proof -
            from longest_covers [OF that] covers_family have q: "q \<in> set (rtb_Routes g)" "ro_Family q \<noteq> ''ipv6''" by blast+
            with nd have "\<not> isDefaultRoute q" by (auto simp: default_candidates_def filter_empty_conv)
            moreover have "\<not> competes tunDevice q"
              using Cons.prems(2) g q nd ni by (auto simp: walkable_def list_all_iff)
            ultimately show ?thesis by (rule not_competing [rotated])
          qed
          with lt dec ans show ?thesis by auto
        qed
      qed
    qed
  qed
qed (simp add: assess_def)


lemma crossCheck_safe: "as_Status (crossCheckRouteGet a inp) = StatusSafe \<Longrightarrow> as_Status a = StatusSafe"
  by (auto simp: crossCheckRouteGet_def assess_def split: option.splits if_splits)

lemma selector_error_None: "selector_error p = None \<Longrightarrow> \<exists>a n. p = Prefix4 a n \<and> n \<le> 32"
  by (auto simp: selector_error_def split: Prefix.splits if_splits)

text \<open>
  C28. A SAFE assessment bounds the traffic. If \<open>Evaluate\<close> says SAFE, then auto-route is off, the snapshot is
  consistent and the TUN device is a live interface; and if the inventory is walkable, every packet from
  the selector, whatever its destination, is sent through the TUN device or dropped, whichever of the
  decisions the inventory leaves open the kernel takes.
\<close>

theorem leak_safe_sound:
  assumes "Evaluate inp = Inr a" and "as_Status a = StatusSafe" and "prefix_parts (sf_CIDR (li_Selector inp)) = (sel, bits)"
    and "walkable sel bits (tun_Device (li_TUN inp)) (rg_Tables (li_Routing inp)) (sort_key ru_Priority (rg_Rules (li_Routing inp)))"
    and "in_prefix sel bits src"
  shows "li_AutoRoute inp = AutoRouteFalse \<and> li_SnapshotConsistent inp \<and> tun_Device (li_TUN inp) \<in> set (li_Interfaces inp)
    \<and> (\<forall>d \<in> routed inp src dst. d = Via (tun_Device (li_TUN inp)) \<or> d = Dropped)"
proof -
  have v: "validateInput inp = None" using assms(1) by (cases "validateInput inp") (auto simp: Evaluate_def)
  let ?ex = "if tun_Device (li_TUN inp) \<in> set (li_Interfaces inp) then [] else [tun_Device (li_TUN inp)]"
  from assms(1,2) v assms(3) have g: "li_AutoRoute inp \<noteq> AutoRouteTrue" "li_AutoRoute inp \<noteq> AutoRouteUnknown"
    "li_SnapshotConsistent inp" "li_IntentConfigured inp"
    by (auto simp: Evaluate_def unknown_leak_def assess_def split: if_splits)
  from assms(1,2) v assms(3) g have s: "as_Status (walk_input inp sel bits ?ex) = StatusSafe"
    by (auto simp: Evaluate_def Let_def unknown_leak_def assess_def dest!: crossCheck_safe split: if_splits)
  obtain a0 n0 where p: "sf_CIDR (li_Selector inp) = Prefix4 a0 n0" "n0 \<le> 32"
    using v g(4) selector_error_None [of "sf_CIDR (li_Selector inp)"] by (auto simp: validateInput_def split: if_splits option.splits)
  with assms(3) have "bits \<le> 32" by (simp add: prefix_parts_def)
  from walk_sound [OF s [unfolded walk_input_def] assms(4) this assms(5)]
  have w: "?ex = []" "\<forall>d \<in> routed inp src dst. harmless (tun_Device (li_TUN inp)) d"
    by (auto simp: routed_def)
  moreover have "li_AutoRoute inp = AutoRouteFalse" using v g by (auto simp: validateInput_def split: if_splits)
  ultimately show ?thesis using g by (auto simp: harmless_def split: if_splits)
qed

subsection \<open>Concrete inventories\<close>

definition ex_rule :: "int \<Rightarrow> string \<Rightarrow> 32 word \<Rightarrow> int \<Rightarrow> string list \<Rightarrow> Rule" where
  "ex_rule prio from mark table keys = \<lparr>ru_Priority = prio, ru_From = from, ru_To = '''', ru_FWMark = mark, ru_FWMask = 0,
     ru_Table = table, ru_TableRaw = '''', ru_Status = FieldStatusPresent, ru_Unmodeled = keys\<rparr>"

definition ex_route :: "string \<Rightarrow> string \<Rightarrow> Route" where
  "ex_route dst dev = zero_route\<lparr>ro_Destination := dst, ro_Device := dev, ro_Family := ''ipv4''\<rparr>"

definition ex_tables :: "RouteTable list" where
  "ex_tables = [\<lparr>rtb_ID = 100, rtb_Name = ''100'', rtb_Routes = [ex_route ''default'' ''Meta'']\<rparr>,
     \<lparr>rtb_ID = 200, rtb_Name = ''200'', rtb_Routes = [ex_route ''8.8.8.0/24'' ''eth0'']\<rparr>,
     \<lparr>rtb_ID = 254, rtb_Name = ''main'', rtb_Routes = [ex_route ''default'' ''eth0'']\<rparr>]"

text \<open>The intended setup, with further rules in front of it.\<close>

definition ex_leak :: "Rule list \<Rightarrow> RouteTable list \<Rightarrow> Input" where
  "ex_leak extra tables = \<lparr>li_IntentConfigured = True, li_AutoRoute = AutoRouteFalse,
     li_Selector = \<lparr>sf_Status = FieldStatusPresent, sf_CIDR = Prefix4 (addr_of 10 8 0 0) 24\<rparr>,
     li_TUN = \<lparr>tun_Status = FieldStatusPresent, tun_Device = ''Meta''\<rparr>,
     li_Routing = \<lparr>rg_DefaultRoutes = [], rg_Rules = extra @ [ex_rule 100 ''10.8.0.0/24'' 0 100 [], ex_rule 32766 ''all'' 0 254 []],
       rg_Tables = tables, rg_RulesStatus = FieldStatusPresent, rg_RoutesStatus = FieldStatusPresent\<rparr>,
     li_Interfaces = [''eth0'', ''Meta''], li_InterfacesStatus = FieldStatusPresent, li_SnapshotConsistent = True,
     li_RouteGet = None\<rparr>"

definition is_safe :: "Input \<Rightarrow> bool" where
  "is_safe inp = (case Evaluate inp of Inl _ \<Rightarrow> False | Inr a \<Rightarrow> as_Status a = StatusSafe)"

lemma prefix_text:
  assumes "\<forall>k \<in> {a, b, c, d}. k \<le> 255" and "n \<le> 32" and "s = JoinWith (CHR ''.'') (map Itoa [a, b, c, d]) @ CHR ''/'' # Itoa n"
  shows "ParsePrefix4 s = Some (addr_of a b c d, n)"
proof -
  have "s = Prefix4_String (addr_of a b c d) n"
    using assms(1,3) octets_addr_of [of a b c d] by (simp add: Prefix4_String_def Addr_String_def)
  with ParsePrefix4_String assms(2) show ?thesis by simp
qed

lemma ex_prefixes:
  "ParsePrefix4 ''10.8.0.0/24'' = Some (addr_of 10 8 0 0, 24)" "ParsePrefix4 ''10.8.0.128/25'' = Some (addr_of 10 8 0 128, 25)"
  "ParsePrefix4 ''8.8.8.0/24'' = Some (addr_of 8 8 8 0, 24)"
  by (rule prefix_text; (simp; fail)?; code_simp)+

lemma ex_no_prefix: "ParsePrefix4 ''all'' = None"
  by code_simp

lemmas ex_words = in_prefix_def addr_of_def mask4_def mask_eq_exp_minus_1

lemma ex_selector: "selector_error (Prefix4 168296448 24) = None"
  by (simp add: selector_error_def Masked4_def IsLoopback_def IsMulticast_def IsLinkLocalUnicast_def
      IsLinkLocalMulticast_def IsUnspecified_def ex_words)

lemmas ex_leak_eval = is_safe_def Evaluate_def validateInput_def ex_leak_def ex_selector prefix_parts_def walk_input_def
  ruleMatches_def ex_rule_def ex_prefixes ex_words ex_tables_def resolveTable_def findTable_def localTableID_def
  table_step_def tableDefault_def default_candidates_def isDefaultRoute_def ex_route_def zero_route_def unicast_def
  terminating_def the_route_def competingMoreSpecific_def competes_def assess_def crossCheckRouteGet_def
  routed_def may_take_def may_skip_def inverted_def modeled_match_def selects_def text_prefix_def table_decisions_def
  longest_def covers_def destination_def route_decision_def Let_def

text \<open>
  Each of the three conditions is needed: a rule for half of the selector, an inverted rule as wg-quick
  installs it, and a table with a single foreign route each send traffic out directly, and the assessment is
  SAFE.
\<close>

lemma narrower_rule_leaks:
  "is_safe (ex_leak [ex_rule 50 ''10.8.0.128/25'' 0 254 []] ex_tables)
   \<and> Via ''eth0'' \<in> routed (ex_leak [ex_rule 50 ''10.8.0.128/25'' 0 254 []] ex_tables) (addr_of 10 8 0 200) (addr_of 1 1 1 1)"
  by (simp add: ex_leak_eval)

lemma inverted_rule_leaks:
  "is_safe (ex_leak [ex_rule 50 ''all'' 51820 254 [''not'']] ex_tables)
   \<and> Via ''eth0'' \<in> routed (ex_leak [ex_rule 50 ''all'' 51820 254 [''not'']] ex_tables) (addr_of 10 8 0 2) (addr_of 1 1 1 1)"
  by (simp add: ex_leak_eval)

lemma partial_table_leaks:
  "is_safe (ex_leak [ex_rule 50 ''10.8.0.0/24'' 0 200 []] ex_tables)
   \<and> Via ''eth0'' \<in> routed (ex_leak [ex_rule 50 ''10.8.0.0/24'' 0 200 []] ex_tables) (addr_of 10 8 0 2) (addr_of 8 8 8 8)"
  by (simp add: ex_leak_eval)

theorem leak_safe_sound_witness:
  "is_safe (ex_leak [] [ex_tables ! 0, ex_tables ! 2])
   \<and> routed (ex_leak [] [ex_tables ! 0, ex_tables ! 2]) (addr_of 10 8 0 2) (addr_of 8 8 8 8) \<subseteq> {Via ''Meta'', Dropped}"
proof -
  let ?i = "ex_leak [] [ex_tables ! 0, ex_tables ! 2]"
  have s: "is_safe ?i" by (simp add: ex_leak_eval)
  then obtain a where a: "Evaluate ?i = Inr a" "as_Status a = StatusSafe" by (auto simp: is_safe_def split: sum.splits)
  have p: "prefix_parts (sf_CIDR (li_Selector ?i)) = (addr_of 10 8 0 0, 24)" by (simp add: ex_leak_def prefix_parts_def)
  have w: "walkable (addr_of 10 8 0 0) 24 (tun_Device (li_TUN ?i)) (rg_Tables (li_Routing ?i)) (sort_key ru_Priority (rg_Rules (li_Routing ?i)))"
    by (simp add: walkable_def ex_no_prefix ex_leak_eval)
  have n: "in_prefix (addr_of 10 8 0 0) 24 (addr_of 10 8 0 2)" by (simp add: ex_words)
  have d: "tun_Device (li_TUN ?i) = ''Meta''" by (simp add: ex_leak_def)
  have "\<forall>d \<in> routed ?i (addr_of 10 8 0 2) (addr_of 8 8 8 8). d = Via (tun_Device (li_TUN ?i)) \<or> d = Dropped"
    using leak_safe_sound [OF a p w n] by blast
  with s show ?thesis unfolding d by blast
qed

end
