(* ===== verification/Sysctl.thy ===== *)
theory Sysctl
  imports Capability State_Store Paths Text
begin

text \<open>
  The sysctl planes (\<open>internal/sysctl\<close>: \<open>sysctl.go\<close>, \<open>persistence.go\<close>, \<open>evaluate.go\<close>): runtime observation, the
  parser of configuration files, the resolution of the sysctl.d precedence, and the policy evaluation. Reading
  a path and listing a directory are functions given from outside. Reasons that the code only prints are
  values of their own. A Go map from keys to results is an association list.
\<close>

datatype read_error = ReadNotExist | ReadPermission | ReadOther string

type_synonym ReadFunc = "string \<Rightarrow> (read_error, string) result"
type_synonym ListDirFunc = "string \<Rightarrow> (read_error, string list) result"

subsection \<open>The runtime plane (sysctl.go)\<close>

datatype RuntimeStatus = RuntimePresent | RuntimeAbsentUnsupported | RuntimeUnknownPermission | RuntimeUnknownParse
  | RuntimeUnknownIO | RuntimeOther string

record RuntimeObservation =
  ro_Key :: string
  ro_Value :: int
  ro_Status :: RuntimeStatus

definition staticRuntimeKeys :: "string list" where
  "staticRuntimeKeys = [''net.ipv4.ip_forward'', ''net.ipv4.conf.all.rp_filter'', ''net.ipv4.conf.default.rp_filter'',
     ''net.ipv6.conf.all.disable_ipv6'']"

definition dots_to_slashes :: "string \<Rightarrow> string" where
  "dots_to_slashes = map (\<lambda>c. if c = CHR ''.'' then CHR ''/'' else c)"

definition RuntimePath :: "string \<Rightarrow> string option" where
  "RuntimePath key = (if CheckSysctlKey key \<noteq> None then None else Some (''/proc/sys/'' @ dots_to_slashes key))"

definition scoped_key :: "string \<Rightarrow> string \<Rightarrow> string \<Rightarrow> string option" where
  "scoped_key pre iface suf =
     (if iface = ''all'' \<or> iface = ''default'' then None
      else if ValidInterfaceName iface \<noteq> None then None else Some (pre @ iface @ suf))"

definition ScopedRPFilterKey :: "string \<Rightarrow> string option" where
  "ScopedRPFilterKey iface = scoped_key ''net.ipv4.conf.'' iface ''.rp_filter''"

definition ScopedDisableIPv6Key :: "string \<Rightarrow> string option" where
  "ScopedDisableIPv6Key iface = scoped_key ''net.ipv6.conf.'' iface ''.disable_ipv6''"

text \<open>
  \<open>strconv.ParseInt\<close> with base 10 and 64 bits accepts an optional sign and decimal digits within the range; both
  planes then compare with \<open>strconv.FormatInt\<close>.
\<close>

definition parse_int64 :: "string \<Rightarrow> int option" where
  "parse_int64 s =
     (let (neg, ds) = (case s of c # cs \<Rightarrow> if c = CHR ''-'' then (True, cs) else if c = CHR ''+'' then (False, cs) else (False, s)
                       | [] \<Rightarrow> (False, s));
          n = int (digits_value 0 ds); v = (if neg then - n else n) in
      if ds \<noteq> [] \<and> list_all is_digit ds \<and> - (2 ^ 63) \<le> v \<and> v < 2 ^ 63 then Some v else None)"

definition parseRuntimeValue :: "string \<Rightarrow> int option" where
  "parseRuntimeValue d =
     (let s = TrimSpace d in
      if s = '''' \<or> list_ex (\<lambda>c. c \<in> {CHR 0x20, CHR 0x09, CHR 0x0A}) s then None
      else case parse_int64 s of None \<Rightarrow> None | Some v \<Rightarrow> if int_text v \<noteq> s then None else Some v)"

definition observeRuntimePath :: "string \<Rightarrow> string \<Rightarrow> ReadFunc \<Rightarrow> RuntimeObservation" where
  "observeRuntimePath key path read =
     (case read path of
        Inl ReadNotExist \<Rightarrow> \<lparr>ro_Key = key, ro_Value = 0, ro_Status = RuntimeAbsentUnsupported\<rparr>
      | Inl ReadPermission \<Rightarrow> \<lparr>ro_Key = key, ro_Value = 0, ro_Status = RuntimeUnknownPermission\<rparr>
      | Inl (ReadOther _) \<Rightarrow> \<lparr>ro_Key = key, ro_Value = 0, ro_Status = RuntimeUnknownIO\<rparr>
      | Inr d \<Rightarrow>
          (case parseRuntimeValue d of
             None \<Rightarrow> \<lparr>ro_Key = key, ro_Value = 0, ro_Status = RuntimeUnknownParse\<rparr>
           | Some v \<Rightarrow> \<lparr>ro_Key = key, ro_Value = v, ro_Status = RuntimePresent\<rparr>))"

definition observeRuntimeKey :: "string \<Rightarrow> ReadFunc \<Rightarrow> RuntimeObservation" where
  "observeRuntimeKey key read =
     (case RuntimePath key of
        None \<Rightarrow> \<lparr>ro_Key = key, ro_Value = 0, ro_Status = RuntimeAbsentUnsupported\<rparr>
      | Some path \<Rightarrow> observeRuntimePath key path read)"

fun scoped_keys :: "string list \<Rightarrow> string list option" where
  "scoped_keys [] = Some []"
| "scoped_keys (i # is) =
     (case (ScopedRPFilterKey i, ScopedDisableIPv6Key i, scoped_keys is) of
        (Some a, Some b, Some ks) \<Rightarrow> Some (a # b # ks) | _ \<Rightarrow> None)"

definition ObserveRuntime :: "string list \<Rightarrow> ReadFunc \<Rightarrow> RuntimeObservation list option" where
  "ObserveRuntime ifaces read =
     (if list_ex (\<lambda>i. ValidInterfaceName i \<noteq> None) ifaces then None
      else case scoped_keys ifaces of
        None \<Rightarrow> None
      | Some ks \<Rightarrow> Some (map (\<lambda>k. observeRuntimeKey k read) (sort (staticRuntimeKeys @ ks))))"

definition ipv6ForwardingKeys :: "(string \<times> string) list" where
  "ipv6ForwardingKeys =
     [(''net.ipv6.conf.all.forwarding'', ''/proc/sys/net/ipv6/conf/all/forwarding''),
      (''net.ipv6.conf.default.forwarding'', ''/proc/sys/net/ipv6/conf/default/forwarding'')]"

definition ObserveIPv6Forwarding :: "ReadFunc \<Rightarrow> RuntimeObservation list" where
  "ObserveIPv6Forwarding read =
     map (\<lambda>(k, path). if RuntimePath k \<noteq> None then \<lparr>ro_Key = k, ro_Value = 0, ro_Status = RuntimeUnknownIO\<rparr>
                      else observeRuntimePath k path read) ipv6ForwardingKeys"

definition EffectiveRPFilter :: "int \<Rightarrow> int \<Rightarrow> int" where
  "EffectiveRPFilter allValue ifaceValue = (if allValue < ifaceValue then ifaceValue else allValue)"

subsection \<open>Configuration files (persistence.go)\<close>

record Assignment =
  sa_Key :: string
  sa_Value :: int
  sa_Line :: nat

datatype value_error = EmptyValue | NotDecimal string | NotCanonical string

datatype unsupported_reason = NotAssignment | DashPrefixed | GlobAssignment | SlashForm | BadValue value_error

record UnsupportedEntry =
  un_Key :: string
  un_Line :: nat
  un_Reason :: unsupported_reason

record FileObservation =
  fo_Source :: string
  fo_FileName :: string
  fo_DirRank :: int
  fo_IsSysctlConf :: bool
  fo_ReadErr :: "read_error option"
  fo_Assignments :: "Assignment list"
  fo_Unsupported :: "UnsupportedEntry list"
  fo_GlobPatterns :: "string list"
  fo_ExclusionLines :: "nat list"
  fo_MalformedLines :: "nat list"
  fo_SupersededLines :: "nat list"

definition isRelevantKey :: "string \<Rightarrow> bool" where
  "isRelevantKey key \<longleftrightarrow> CheckSysctlKey key = None"

definition allowlistedKeys :: "string list" where
  "allowlistedKeys = sort staticRuntimeKeys"

definition relevantMalformedKey :: "string \<Rightarrow> string option" where
  "relevantMalformedKey line =
     find (\<lambda>key. line = key \<or> (HasPrefix line key \<and> \<not> HasPrefix (drop (length key) line) ''='')) allowlistedKeys"

text \<open>
  The loop of \<open>globCouldMatch\<close> for a pattern without a class: \<open>p\<close> and \<open>k\<close> are the positions in the pattern and in
  the key, \<open>star\<close> is the position of the last star with the mark it may be resumed at. The measure counts
  the marks that are left, then the bytes of the key, then the bytes of the pattern.
\<close>

function glob_loop :: "string \<Rightarrow> string \<Rightarrow> nat \<Rightarrow> nat \<Rightarrow> (nat \<times> nat) option \<Rightarrow> bool" where
  "glob_loop pat key p k star =
     (if k < length key then
        if p < length pat \<and> (pat ! p = CHR ''?'' \<or> pat ! p = key ! k) then glob_loop pat key (Suc p) (Suc k) star
        else if p < length pat \<and> pat ! p = CHR ''*'' then glob_loop pat key (Suc p) k (Some (p, k))
        else (case star of
            None \<Rightarrow> False
          | Some (s, m) \<Rightarrow> glob_loop pat key (Suc s) (Suc m) (Some (s, Suc m)))
      else list_all (\<lambda>c. c = CHR ''*'') (drop p pat))"
  by pat_completeness auto
termination
  by (relation "measures [\<lambda>(pat, key, p, k, star). (case star of None \<Rightarrow> Suc (length key) | Some (s, m) \<Rightarrow> length key - min m k),
        \<lambda>(pat, key, p, k, star). length key - k, \<lambda>(pat, key, p, k, star). length pat - p]")
     (auto split: option.splits simp: min_def split: if_splits)

declare glob_loop.simps [simp del]

definition globCouldMatch :: "string \<Rightarrow> string \<Rightarrow> bool" where
  "globCouldMatch pat key = (if CHR 0x5B \<in> set pat then True else glob_loop pat key 0 0 None)"

definition glob_candidates :: "string list" where
  "glob_candidates = [''net.ipv4.ip_forward'', ''net.ipv4.conf.all.rp_filter'', ''net.ipv4.conf.default.rp_filter'',
     ''net.ipv4.conf.eth0.rp_filter'', ''net.ipv6.conf.all.disable_ipv6'', ''net.ipv6.conf.eth0.disable_ipv6'']"

definition globTouchedKeys :: "string \<Rightarrow> string list" where
  "globTouchedKeys pat = filter (globCouldMatch pat) glob_candidates"


subsection \<open>Glob patterns\<close>

text \<open>The reference: a question mark matches one byte, a star any sequence, every other byte itself.\<close>

fun glob_matches :: "string \<Rightarrow> string \<Rightarrow> bool" where
  "glob_matches [] ks = (ks = [])"
| "glob_matches (c # ps) ks =
     (if c = CHR ''*'' then glob_matches ps ks \<or> (case ks of [] \<Rightarrow> False | _ # ks' \<Rightarrow> glob_matches (c # ps) ks')
      else case ks of [] \<Rightarrow> False | k # ks' \<Rightarrow> (c = CHR ''?'' \<or> c = k) \<and> glob_matches ps ks')"

lemma glob_star_drop: "glob_matches (CHR ''*'' # ps) ks \<longleftrightarrow> (\<exists>j \<le> length ks. glob_matches ps (drop j ks))"
proof (induction ks)
  case (Cons k ks)
  have "(\<exists>j \<le> length (k # ks). glob_matches ps (drop j (k # ks))) \<longleftrightarrow>
      glob_matches ps (k # ks) \<or> (\<exists>j \<le> length ks. glob_matches ps (drop j ks))"
    by (metis Suc_le_mono drop0 drop_Suc_Cons length_Cons not0_implies_Suc zero_le)
  with Cons show ?case by simp
qed simp

lemma ex_shifted: "k \<le> n \<Longrightarrow> (\<exists>j \<le> n - k. P (k + j)) \<longleftrightarrow> (\<exists>j. k \<le> j \<and> j \<le> (n :: nat) \<and> P j)"
proof (intro iffI; elim exE conjE)
  fix j assume "k \<le> n" "j \<le> n - k" "P (k + j)"
  then show "\<exists>j. k \<le> j \<and> j \<le> n \<and> P j" by (intro exI [of _ "k + j"]) simp
next
  fix j assume "k \<le> j" "j \<le> n" "P j"
  then show "\<exists>j \<le> n - k. P (k + j)" by (intro exI [of _ "j - k"]) simp
qed

lemma glob_star_weaken: "glob_matches ps (drop i ks) \<Longrightarrow> i \<le> length ks \<Longrightarrow> glob_matches (CHR ''*'' # ps) ks"
  using glob_star_drop by blast

lemma glob_stars_only: "glob_matches ps [] \<longleftrightarrow> list_all (\<lambda>c. c = CHR ''*'') ps"
  by (induction ps) auto

text \<open>A segment without a star consumes as many bytes of the key as it has itself.\<close>

lemma glob_segment:
  "CHR ''*'' \<notin> set seg \<Longrightarrow> glob_matches (seg @ ps) ks \<Longrightarrow>
     length seg \<le> length ks \<and> glob_matches ps (drop (length seg) ks)"
  by (induction seg arbitrary: ks) (auto split: list.splits)

text \<open>
  What the loop still has to decide, and why forgetting all stars but the last loses nothing: between the last star and
  the current position of the pattern there is no star, and as many bytes as between its mark and the current
  position of the key.
\<close>

definition glob_segment_ok :: "string \<Rightarrow> nat \<Rightarrow> nat \<Rightarrow> (nat \<times> nat) option \<Rightarrow> bool" where
  "glob_segment_ok pat p k star \<longleftrightarrow> p \<le> length pat \<and>
     (\<forall>s m. star = Some (s, m) \<longrightarrow> s < p \<and> m \<le> k \<and> k - m = p - Suc s \<and>
        (\<forall>i. s < i \<and> i < p \<longrightarrow> pat ! i \<noteq> CHR ''*''))"

definition glob_resume :: "string \<Rightarrow> string \<Rightarrow> (nat \<times> nat) option \<Rightarrow> bool" where
  "glob_resume pat key star \<longleftrightarrow>
     (\<exists>s m j. star = Some (s, m) \<and> m < j \<and> j \<le> length key \<and> glob_matches (drop (Suc s) pat) (drop j key))"

lemma glob_resumeI:
  "m < j \<Longrightarrow> j \<le> length key \<Longrightarrow> glob_matches (drop (Suc s) pat) (drop j key) \<Longrightarrow> glob_resume pat key (Some (s, m))"
  by (auto simp: glob_resume_def)

lemma glob_resume_next:
  assumes "m < length key"
  shows "glob_resume pat key (Some (s, m)) \<longleftrightarrow>
    glob_matches (drop (Suc s) pat) (drop (Suc m) key) \<or> glob_resume pat key (Some (s, Suc m))"
proof
  assume "glob_resume pat key (Some (s, m))"
  then obtain j where j: "m < j" "j \<le> length key" "glob_matches (drop (Suc s) pat) (drop j key)"
    by (auto simp: glob_resume_def)
  show "glob_matches (drop (Suc s) pat) (drop (Suc m) key) \<or> glob_resume pat key (Some (s, Suc m))"
    using j glob_resumeI [of "Suc m" j key s pat] by (cases "j = Suc m") simp_all
next
  assume "glob_matches (drop (Suc s) pat) (drop (Suc m) key) \<or> glob_resume pat key (Some (s, Suc m))"
  then show "glob_resume pat key (Some (s, m))"
  proof
    assume "glob_matches (drop (Suc s) pat) (drop (Suc m) key)"
    with assms show ?thesis by (intro glob_resumeI [of m "Suc m"]) simp_all
  next
    assume "glob_resume pat key (Some (s, Suc m))"
    then obtain j where "Suc m < j" "j \<le> length key" "glob_matches (drop (Suc s) pat) (drop j key)"
      by (auto simp: glob_resume_def)
    then show ?thesis by (intro glob_resumeI [of m j]) simp_all
  qed
qed

lemma glob_resume_shifted:
  assumes ok: "glob_segment_ok pat p k star" and res: "glob_resume pat key star" and k: "k \<le> length key"
  shows "\<exists>i. k < i \<and> i \<le> length key \<and> glob_matches (drop p pat) (drop i key)"
proof -
  obtain s m j where star: "star = Some (s, m)" and j: "m < j" "j \<le> length key"
    and match: "glob_matches (drop (Suc s) pat) (drop j key)"
    using res by (auto simp: glob_resume_def)
  let ?seg = "take (p - Suc s) (drop (Suc s) pat)"
  have s: "s < p" "m \<le> k" "k - m = p - Suc s" "p \<le> length pat" and free: "\<And>i. s < i \<Longrightarrow> i < p \<Longrightarrow> pat ! i \<noteq> CHR ''*''"
    using ok star by (auto simp: glob_segment_ok_def)
  have plain: "CHR ''*'' \<notin> set ?seg"
  proof
    assume "CHR ''*'' \<in> set ?seg"
    then obtain i where "i < length ?seg" "?seg ! i = CHR ''*''" by (metis in_set_conv_nth)
    with free [of "Suc (s + i)"] s show False by simp
  qed
  have len: "length ?seg = p - Suc s" using s by simp
  have cut: "drop (Suc s) pat = ?seg @ drop p pat"
    using s by (metis Suc_leI append_take_drop_id drop_drop le_add_diff_inverse2)
  have "length ?seg \<le> length (drop j key) \<and> glob_matches (drop p pat) (drop (length ?seg) (drop j key))"
    using glob_segment [OF plain] match cut by metis
  then have "p - Suc s \<le> length key - j" and m: "glob_matches (drop p pat) (drop (j + (p - Suc s)) key)"
    using len by (simp_all add: add.commute)
  then have "j + (p - Suc s) \<le> length key" and "k < j + (p - Suc s)" using j s by linarith+
  with m show ?thesis by blast
qed

lemma glob_loop_exact:
  assumes "CHR ''*'' \<notin> set key" and "glob_segment_ok pat p k star" and "k \<le> length key"
  shows "glob_loop pat key p k star \<longleftrightarrow> glob_matches (drop p pat) (drop k key) \<or> glob_resume pat key star"
  using assms
proof (induction pat key p k star rule: glob_loop.induct)
  case (1 pat key p k star)
  note ok = 1(5) and nostar = 1(4) and kle = 1(6)
  have ple: "p \<le> length pat" using ok by (simp add: glob_segment_ok_def)
  consider (step) "k < length key" "p < length pat" "pat ! p = CHR ''?'' \<or> pat ! p = key ! k"
    | (star) "k < length key" "p < length pat" "pat ! p = CHR ''*''" "\<not> (pat ! p = CHR ''?'' \<or> pat ! p = key ! k)"
    | (resume) "k < length key" "\<not> (p < length pat \<and> (pat ! p = CHR ''?'' \<or> pat ! p = key ! k))"
        "\<not> (p < length pat \<and> pat ! p = CHR ''*'')"
    | (stop) "\<not> k < length key"
    by blast
  then show ?case
  proof cases
    case step
    have "key ! k \<noteq> CHR ''*''" using step(1) nostar nth_mem by metis
    then have ns: "pat ! p \<noteq> CHR ''*''" using step(3) by auto
    have ok': "glob_segment_ok pat (Suc p) (Suc k) star"
      using ok step ns by (auto simp: glob_segment_ok_def less_Suc_eq)
    have "glob_matches (drop p pat) (drop k key) \<longleftrightarrow> glob_matches (drop (Suc p) pat) (drop (Suc k) key)"
      using step ns by (simp add: Cons_nth_drop_Suc [symmetric])
    then show ?thesis using 1(1) [OF step(1)] step ok' nostar by (simp add: glob_loop.simps [of pat key p])
  next
    case star
    have ok': "glob_segment_ok pat (Suc p) k (Some (p, k))" using star by (auto simp: glob_segment_ok_def)
    have split: "glob_matches (drop p pat) (drop k key) \<longleftrightarrow>
        glob_matches (drop (Suc p) pat) (drop k key) \<or> glob_resume pat key (Some (p, k))"
    proof -
      have pat: "drop p pat = CHR ''*'' # drop (Suc p) pat" using star by (metis Cons_nth_drop_Suc)
      have "glob_matches (drop p pat) (drop k key) \<longleftrightarrow>
          (\<exists>j \<le> length key - k. glob_matches (drop (Suc p) pat) (drop (k + j) key))"
        using glob_star_drop [of "drop (Suc p) pat" "drop k key"] pat by (simp add: add.commute)
      also have "\<dots> \<longleftrightarrow> (\<exists>j. k \<le> j \<and> j \<le> length key \<and> glob_matches (drop (Suc p) pat) (drop j key))"
        by (rule ex_shifted [OF kle])
      also have "\<dots> \<longleftrightarrow> glob_matches (drop (Suc p) pat) (drop k key) \<or> glob_resume pat key (Some (p, k))"
        using kle by (auto simp: glob_resume_def le_less)
      finally show ?thesis .
    qed
    have absorb: "glob_resume pat key star \<Longrightarrow> glob_matches (drop p pat) (drop k key)"
    proof -
      assume "glob_resume pat key star"
      then obtain i where i: "k < i" "i \<le> length key" "glob_matches (drop p pat) (drop i key)"
        using glob_resume_shifted [OF ok _ kle] by blast
      have "drop p pat = CHR ''*'' # drop (Suc p) pat" using star by (metis Cons_nth_drop_Suc)
      with i obtain j where j: "j \<le> length (drop i key)" "glob_matches (drop (Suc p) pat) (drop j (drop i key))"
        using glob_star_drop by metis
      have "glob_matches (drop (Suc p) pat) (drop (i - k + j) (drop k key))"
        using j i by (simp add: add.commute add.left_commute)
      then show ?thesis
        using \<open>drop p pat = _\<close> glob_star_weaken [of "drop (Suc p) pat" "i - k + j" "drop k key"] i j by simp
    qed
    show ?thesis using 1(2) [OF star(1)] star ok' nostar kle split absorb by (simp add: glob_loop.simps [of pat key p]) blast
  next
    case resume
    have no: "\<not> glob_matches (drop p pat) (drop k key)"
    proof (cases "p < length pat")
      case True
      then have "drop p pat = pat ! p # drop (Suc p) pat" by (metis Cons_nth_drop_Suc)
      moreover have "drop k key = key ! k # drop (Suc k) key" using resume(1) by (metis Cons_nth_drop_Suc)
      ultimately show ?thesis using resume True by simp
    next
      case False
      with resume(1) ple show ?thesis by simp
    qed
    show ?thesis
    proof (cases star)
      case None
      with resume no show ?thesis by (auto simp: glob_loop.simps [of pat key p] glob_resume_def)
    next
      case (Some sm)
      obtain s m where sm: "star = Some (s, m)" using Some by (cases sm) auto
      have s: "s < p" "m \<le> k" using ok sm by (auto simp: glob_segment_ok_def)
      have ok': "glob_segment_ok pat (Suc s) (Suc m) (Some (s, Suc m))" using s ple by (auto simp: glob_segment_ok_def)
      have res: "glob_resume pat key star \<longleftrightarrow>
          glob_matches (drop (Suc s) pat) (drop (Suc m) key) \<or> glob_resume pat key (Some (s, Suc m))"
        using sm s resume(1) glob_resume_next [of m key pat s] by simp
      have "Suc m \<le> length key" using s resume by simp
      then have "glob_loop pat key (Suc s) (Suc m) (Some (s, Suc m)) \<longleftrightarrow>
          glob_matches (drop (Suc s) pat) (drop (Suc m) key) \<or> glob_resume pat key (Some (s, Suc m))"
        using 1(3) [OF resume sm refl nostar ok'] by blast
      moreover have "glob_loop pat key p k star = glob_loop pat key (Suc s) (Suc m) (Some (s, Suc m))"
        unfolding glob_loop.simps [of pat key p k] using resume sm by (simp only: if_True if_False option.case prod.case)
      ultimately show ?thesis using res no by blast
    qed
  next
    case stop
    have "\<not> glob_resume pat key star" using glob_resume_shifted [OF ok _ kle] stop by auto
    with stop kle show ?thesis by (simp add: glob_loop.simps [of pat key p] glob_stars_only)
  qed
qed

lemma glob_candidates_plain: "key \<in> set glob_candidates \<Longrightarrow> CHR ''*'' \<notin> set key"
  by (auto simp: glob_candidates_def)

text \<open>
  C29. The glob filter of the configuration parser is exact on patterns without a class. For every pattern and every
  key the resumable loop of globCouldMatch, which keeps only the last star, makes globTouchedKeys report the key
  exactly when the key is one of the six compiled candidates and the pattern has a class bracket, for which
  the code always answers yes, or matches the key in the reference semantics of globs.
\<close>

theorem glob_touched_exact:
  "key \<in> set (globTouchedKeys pat) \<longleftrightarrow>
     key \<in> set glob_candidates \<and> (CHR 0x5B \<in> set pat \<or> glob_matches pat key)"
  using glob_loop_exact [of key pat 0 0 None] glob_candidates_plain [of key]
  by (auto simp: globTouchedKeys_def globCouldMatch_def glob_segment_ok_def glob_resume_def)


subsection \<open>The parser of one file\<close>

definition parsePersistenceValue :: "string \<Rightarrow> (value_error, int) result" where
  "parsePersistenceValue s =
     (if s = '''' then Inl EmptyValue
      else case parse_int64 s of
        None \<Rightarrow> Inl (NotDecimal s)
      | Some v \<Rightarrow> if int_text v \<noteq> s then Inl (NotCanonical s) else Inr v)"

fun replaceOrAppend :: "Assignment list \<Rightarrow> Assignment \<Rightarrow> string \<Rightarrow> Assignment list" where
  "replaceOrAppend [] a rawKey = [a]"
| "replaceOrAppend (b # as) a rawKey = (if sa_Key b = rawKey then a # as else b # replaceOrAppend as a rawKey)"

definition dots_from_slashes :: "string \<Rightarrow> string" where
  "dots_from_slashes = map (\<lambda>c. if c = CHR ''/'' then CHR ''.'' else c)"

definition add_unsupported :: "nat \<Rightarrow> unsupported_reason \<Rightarrow> string \<Rightarrow> FileObservation \<Rightarrow> FileObservation" where
  "add_unsupported line r key fo =
     fo\<lparr>fo_Unsupported := fo_Unsupported fo @ [\<lparr>un_Key = key, un_Line = line, un_Reason = r\<rparr>]\<rparr>"

definition add_malformed :: "nat \<Rightarrow> FileObservation \<Rightarrow> FileObservation" where
  "add_malformed line fo = fo\<lparr>fo_MalformedLines := fo_MalformedLines fo @ [line]\<rparr>"

text \<open>One assignment with a plain key: the value is checked, and an earlier assignment of the key is superseded.\<close>

definition parse_assignment ::
  "nat \<Rightarrow> string \<Rightarrow> string \<Rightarrow> FileObservation \<times> (string \<Rightarrow> nat option) \<Rightarrow> FileObservation \<times> (string \<Rightarrow> nat option)" where
  "parse_assignment line rawKey val st =
     (case st of (fo, lastLine) \<Rightarrow>
        if HasPrefix rawKey ''-'' then
          (let stripped = TrimSpace (TrimPrefix rawKey ''-'') in
           (if isRelevantKey stripped then add_unsupported line DashPrefixed stripped fo else fo, lastLine))
        else if list_ex (\<lambda>c. c \<in> {CHR ''*'', CHR ''?'', CHR 0x5B}) rawKey then
          (fold (add_unsupported line GlobAssignment) (globTouchedKeys rawKey)
             (fo\<lparr>fo_GlobPatterns := fo_GlobPatterns fo @ [rawKey]\<rparr>), lastLine)
        else if CHR ''/'' \<in> set rawKey then
          (let canonical = dots_from_slashes rawKey in
           (if isRelevantKey canonical then add_unsupported line SlashForm canonical fo else fo, lastLine))
        else if \<not> isRelevantKey rawKey then (fo, lastLine)
        else (case parsePersistenceValue val of
            Inl e \<Rightarrow> (add_unsupported line (BadValue e) rawKey fo, lastLine)
          | Inr v \<Rightarrow>
              (let fo1 = (case lastLine rawKey of
                       Some prev \<Rightarrow> fo\<lparr>fo_SupersededLines := fo_SupersededLines fo @ [prev]\<rparr> | None \<Rightarrow> fo) in
               (fo1\<lparr>fo_Assignments :=
                      replaceOrAppend (fo_Assignments fo1) \<lparr>sa_Key = rawKey, sa_Value = v, sa_Line = line\<rparr> rawKey\<rparr>,
                lastLine(rawKey \<mapsto> line)))))"

definition parse_sysctl_line ::
  "nat \<times> string \<Rightarrow> FileObservation \<times> (string \<Rightarrow> nat option) \<Rightarrow> FileObservation \<times> (string \<Rightarrow> nat option)" where
  "parse_sysctl_line numbered st =
     (case (numbered, st) of ((line, rawLine), (fo, lastLine)) \<Rightarrow>
        (let trimmed = TrimSpace rawLine in
         if trimmed = '''' \<or> HasPrefix trimmed ''#'' \<or> HasPrefix trimmed '';'' then st
         else if HasPrefix trimmed ''-'' \<and> CHR ''='' \<notin> set trimmed then
           (fo\<lparr>fo_ExclusionLines := fo_ExclusionLines fo @ [line]\<rparr>, lastLine)
         else if CHR ''='' \<notin> set trimmed then
           ((case relevantMalformedKey trimmed of
               Some key \<Rightarrow> add_unsupported line NotAssignment key fo | None \<Rightarrow> add_malformed line fo), lastLine)
         else
           (let left = takeWhile (\<lambda>c. c \<noteq> CHR ''='') trimmed;
                rawKey = TrimSpace left; val = TrimSpace (drop (Suc (length left)) trimmed) in
            if rawKey = '''' then (add_malformed line fo, lastLine)
            else parse_assignment line rawKey val (fo, lastLine))))"

definition parseSysctlFile ::
  "string \<Rightarrow> string \<Rightarrow> int \<Rightarrow> bool \<Rightarrow> (read_error, string) result \<Rightarrow> FileObservation" where
  "parseSysctlFile source fileName dirRank isConf data =
     (let fo = \<lparr>fo_Source = source, fo_FileName = fileName, fo_DirRank = dirRank, fo_IsSysctlConf = isConf,
                fo_ReadErr = None, fo_Assignments = [], fo_Unsupported = [], fo_GlobPatterns = [],
                fo_ExclusionLines = [], fo_MalformedLines = [], fo_SupersededLines = []\<rparr> in
      case data of
        Inl e \<Rightarrow> fo\<lparr>fo_ReadErr := Some e\<rparr>
      | Inr d \<Rightarrow>
          (let ls = Split (CHR 0x0A) d in fst (fold parse_sysctl_line (zip [1..<Suc (length ls)] ls) (fo, \<lambda>_. None))))"

subsection \<open>The inventory of the sources\<close>

definition sourceDirRanks :: "(string \<times> int) list" where
  "sourceDirRanks = [(''/etc/sysctl.d'', 0), (''/run/sysctl.d'', 1), (''/usr/local/lib/sysctl.d'', 2),
     (''/usr/lib/sysctl.d'', 3), (''/lib/sysctl.d'', 3)]"

definition dirAliases :: "string \<Rightarrow> string option" where
  "dirAliases = [''/lib/sysctl.d'' \<mapsto> ''/usr/lib/sysctl.d'']"

definition SysctlConfPath :: string where "SysctlConfPath = ''/etc/sysctl.conf''"
definition ProjectDropInPath :: string where "ProjectDropInPath = ''/etc/sysctl.d/99-vps-gateway.conf''"

record PersistenceInventory =
  inv_Files :: "FileObservation list"
  inv_DirErrors :: "(string \<times> read_error) list"
  inv_AliasesApplied :: "string list"

definition dir_files :: "ReadFunc \<Rightarrow> string \<Rightarrow> int \<Rightarrow> string list \<Rightarrow> FileObservation list" where
  "dir_files read dir rank names =
     map (\<lambda>name. parseSysctlFile (Join [dir, name]) name rank False (read (Join [dir, name])))
       (filter (\<lambda>name. suffix ''.conf'' name) (sort names))"

fun read_dirs :: "ReadFunc \<Rightarrow> ListDirFunc \<Rightarrow> (string \<times> int) list \<Rightarrow> string list \<Rightarrow> PersistenceInventory \<Rightarrow> PersistenceInventory" where
  "read_dirs read listDir [] listed pinv = pinv"
| "read_dirs read listDir ((dir, rank) # sds) listed pinv =
     (let alias = dirAliases dir in
      if (case alias of Some canonical \<Rightarrow> canonical \<in> set listed | None \<Rightarrow> False) then
        read_dirs read listDir sds listed
          (pinv\<lparr>inv_AliasesApplied := inv_AliasesApplied pinv @ [dir @ ''='' @ the alias]\<rparr>)
      else
        (let pinv1 = (if alias \<noteq> None
                then pinv\<lparr>inv_AliasesApplied := inv_AliasesApplied pinv @ [dir @ '' (canonical listing failed)'']\<rparr> else pinv) in
         case listDir dir of
           Inl ReadNotExist \<Rightarrow> read_dirs read listDir sds listed pinv1
         | Inl e \<Rightarrow> read_dirs read listDir sds listed (pinv1\<lparr>inv_DirErrors := inv_DirErrors pinv1 @ [(dir, e)]\<rparr>)
         | Inr names \<Rightarrow>
             read_dirs read listDir sds (dir # listed)
               (pinv1\<lparr>inv_Files := inv_Files pinv1 @ dir_files read dir rank names\<rparr>)))"

definition ReadPersistenceSources :: "ReadFunc \<Rightarrow> ListDirFunc \<Rightarrow> PersistenceInventory" where
  "ReadPersistenceSources read listDir =
     (let pinv = read_dirs read listDir sourceDirRanks [] \<lparr>inv_Files = [], inv_DirErrors = [], inv_AliasesApplied = []\<rparr> in
      if read SysctlConfPath = Inl ReadNotExist then pinv
      else pinv\<lparr>inv_Files := inv_Files pinv @ [parseSysctlFile SysctlConfPath ''sysctl.conf'' (-1) True (read SysctlConfPath)]\<rparr>)"


subsection \<open>What the parser and the inventory guarantee\<close>

text \<open>A file's assignments name each key once; the later line has replaced the earlier one.\<close>

lemma replaceOrAppend_keys:
  "set (map sa_Key (replaceOrAppend as a (sa_Key a))) = insert (sa_Key a) (set (map sa_Key as))"
  by (induction as) auto

lemma replaceOrAppend_distinct:
  "distinct (map sa_Key as) \<Longrightarrow> distinct (map sa_Key (replaceOrAppend as a (sa_Key a)))"
proof (induction as)
  case (Cons b as)
  then show ?case using replaceOrAppend_keys [of as a] by auto
qed simp

lemma add_unsupported_frame [frame_simps]:
  "fo_Assignments (add_unsupported n r k fo) = fo_Assignments fo" "fo_ReadErr (add_unsupported n r k fo) = fo_ReadErr fo"
  "fo_Source (add_unsupported n r k fo) = fo_Source fo" "fo_FileName (add_unsupported n r k fo) = fo_FileName fo"
  "fo_DirRank (add_unsupported n r k fo) = fo_DirRank fo" "fo_IsSysctlConf (add_unsupported n r k fo) = fo_IsSysctlConf fo"
  by (simp_all add: add_unsupported_def)

lemma fold_unsupported_frame [frame_simps]:
  "fo_Assignments (fold (add_unsupported n r) ks fo) = fo_Assignments fo"
  "fo_ReadErr (fold (add_unsupported n r) ks fo) = fo_ReadErr fo"
  "fo_Source (fold (add_unsupported n r) ks fo) = fo_Source fo"
  "fo_FileName (fold (add_unsupported n r) ks fo) = fo_FileName fo"
  "fo_DirRank (fold (add_unsupported n r) ks fo) = fo_DirRank fo"
  "fo_IsSysctlConf (fold (add_unsupported n r) ks fo) = fo_IsSysctlConf fo"
  by (induction ks arbitrary: fo) (auto simp: frame_simps)

definition file_identity :: "FileObservation \<Rightarrow> string \<times> string \<times> int \<times> bool \<times> read_error option" where
  "file_identity fo = (fo_Source fo, fo_FileName fo, fo_DirRank fo, fo_IsSysctlConf fo, fo_ReadErr fo)"

lemma parse_assignment_frame:
  "distinct (map sa_Key (fo_Assignments fo)) \<Longrightarrow>
     distinct (map sa_Key (fo_Assignments (fst (parse_assignment n k v (fo, m))))) \<and>
     file_identity (fst (parse_assignment n k v (fo, m))) = file_identity fo"
  using replaceOrAppend_distinct [of "fo_Assignments fo" "\<lparr>sa_Key = k, sa_Value = x, sa_Line = n\<rparr>" for x]
  by (auto simp: parse_assignment_def file_identity_def frame_simps Let_def split: sum.splits option.splits)

lemma parse_sysctl_line_frame:
  "distinct (map sa_Key (fo_Assignments (fst st))) \<Longrightarrow>
     distinct (map sa_Key (fo_Assignments (fst (parse_sysctl_line l st)))) \<and>
     file_identity (fst (parse_sysctl_line l st)) = file_identity (fst st)"
  using parse_assignment_frame
  by (cases l; cases st)
     (auto simp: parse_sysctl_line_def add_malformed_def Let_def frame_simps file_identity_def split: option.splits)

lemma parse_lines_frame:
  "distinct (map sa_Key (fo_Assignments (fst st))) \<Longrightarrow>
     distinct (map sa_Key (fo_Assignments (fst (fold parse_sysctl_line ls st)))) \<and>
     file_identity (fst (fold parse_sysctl_line ls st)) = file_identity (fst st)"
  by (induction ls arbitrary: st) (auto simp: parse_sysctl_line_frame)

lemma parsed_distinct: "distinct (map sa_Key (fo_Assignments (parseSysctlFile src name rank conf d)))"
  by (cases d) (auto simp: parseSysctlFile_def Let_def intro: parse_lines_frame [THEN conjunct1])

lemma parsed_identity:
  "file_identity (parseSysctlFile src name rank conf d) =
     (src, name, rank, conf, case d of Inl e \<Rightarrow> Some e | Inr _ \<Rightarrow> None)"
proof (cases d)
  case (Inr t)
  then show ?thesis
    by (simp add: parseSysctlFile_def Let_def parse_lines_frame [THEN conjunct2] del: fold_simps) (simp add: file_identity_def)
qed (simp add: parseSysctlFile_def file_identity_def)

lemma parsed_fields [simp]:
  "fo_Source (parseSysctlFile src name rank conf d) = src"
  "fo_FileName (parseSysctlFile src name rank conf d) = name"
  "fo_DirRank (parseSysctlFile src name rank conf d) = rank"
  "fo_IsSysctlConf (parseSysctlFile src name rank conf d) = conf"
  using parsed_identity [of src name rank conf d] by (simp_all add: file_identity_def)

text \<open>The directories that were listed: a subsequence of the table, with an alias only where its canonical is missing.\<close>

fun alias_free :: "string list \<Rightarrow> (string \<times> int) list \<Rightarrow> bool" where
  "alias_free listed [] = True"
| "alias_free listed ((d, r) # ds) =
     ((case dirAliases d of Some c \<Rightarrow> c \<notin> set listed | None \<Rightarrow> True) \<and> alias_free (d # listed) ds)"

definition listed_files :: "ReadFunc \<Rightarrow> ListDirFunc \<Rightarrow> (string \<times> int) list \<Rightarrow> FileObservation list" where
  "listed_files read listDir ds = concat (map (\<lambda>(d, r). dir_files read d r (projr (listDir d))) ds)"

definition chosen_dirs ::
  "ReadFunc \<Rightarrow> ListDirFunc \<Rightarrow> (string \<times> int) list \<Rightarrow> string list \<Rightarrow> FileObservation list \<Rightarrow> FileObservation list \<Rightarrow> bool" where
  "chosen_dirs read listDir sds listed old new \<longleftrightarrow>
     (\<exists>ds \<in> set (subseqs sds). alias_free listed ds \<and> list_all (\<lambda>(d, r). \<not> isl (listDir d)) ds \<and>
        new = old @ listed_files read listDir ds)"

lemma chosen_dirs_skip: "chosen_dirs read listDir sds listed old new \<Longrightarrow> chosen_dirs read listDir (sd # sds) listed old new"
  by (auto simp: chosen_dirs_def Let_def)

lemma chosen_dirs_take:
  assumes "listDir dir = Inr names" and "case dirAliases dir of Some c \<Rightarrow> c \<notin> set listed | None \<Rightarrow> True"
    and "chosen_dirs read listDir sds (dir # listed) (old @ dir_files read dir rank names) new"
  shows "chosen_dirs read listDir ((dir, rank) # sds) listed old new"
proof -
  obtain ds where ds: "ds \<in> set (subseqs sds)" "alias_free (dir # listed) ds" "list_all (\<lambda>(d, r). \<not> isl (listDir d)) ds"
    "new = (old @ dir_files read dir rank names) @ listed_files read listDir ds"
    using assms(3) by (auto simp: chosen_dirs_def)
  have "(dir, rank) # ds \<in> set (subseqs ((dir, rank) # sds))" using ds(1) by (simp add: Let_def)
  with ds assms(1,2) show ?thesis unfolding chosen_dirs_def
    by (intro bexI [of _ "(dir, rank) # ds"]) (simp_all add: listed_files_def)
qed

lemma read_dirs_chosen:
  "chosen_dirs read listDir sds listed (inv_Files pinv) (inv_Files (read_dirs read listDir sds listed pinv))"
proof (induction sds arbitrary: listed pinv)
  case Nil
  then show ?case by (simp add: chosen_dirs_def listed_files_def)
next
  case (Cons sd sds)
  obtain dir rank where sd: "sd = (dir, rank)" by (cases sd)
  let ?skip = "case dirAliases dir of Some canonical \<Rightarrow> canonical \<in> set listed | None \<Rightarrow> False"
  let ?noted = "\<lambda>note. if dirAliases dir \<noteq> None
      then pinv\<lparr>inv_AliasesApplied := inv_AliasesApplied pinv @ [dir @ note]\<rparr> else pinv"
  have rest: "inv_Files q = inv_Files pinv \<Longrightarrow>
      chosen_dirs read listDir sds listed (inv_Files pinv) (inv_Files (read_dirs read listDir sds listed q))" for q
    using Cons [of listed q] by simp
  show ?case
  proof (cases "?skip")
    case True
    with sd rest show ?thesis by (auto simp: Let_def intro!: chosen_dirs_skip)
  next
    case False
    show ?thesis
    proof (cases "listDir dir")
      case (Inl e)
      with sd False rest show ?thesis by (cases e) (auto simp: Let_def intro!: chosen_dirs_skip)
    next
      case (Inr names)
      have "chosen_dirs read listDir sds (dir # listed) (inv_Files pinv @ dir_files read dir rank names)
          (inv_Files (read_dirs read listDir sds (dir # listed)
             (?noted '' (canonical listing failed)''
                \<lparr>inv_Files := inv_Files pinv @ dir_files read dir rank names\<rparr>)))"
        using Cons [of "dir # listed"
            "?noted '' (canonical listing failed)''\<lparr>inv_Files := inv_Files pinv @ dir_files read dir rank names\<rparr>"] by simp
      moreover have "read_dirs read listDir (sd # sds) listed pinv =
          read_dirs read listDir sds (dir # listed) (?noted '' (canonical listing failed)''
             \<lparr>inv_Files := inv_Files pinv @ dir_files read dir rank names\<rparr>)"
        using sd False Inr by (simp add: Let_def)
      moreover have "case dirAliases dir of Some c \<Rightarrow> c \<notin> set listed | None \<Rightarrow> True"
        using False by (simp split: option.splits)
      ultimately show ?thesis using sd Inr chosen_dirs_take by metis
    qed
  qed
qed

text \<open>Ranks are taken once, because the two directories of the lowest rank are aliases of each other.\<close>

lemma chosen_ranks: "ds \<in> set (subseqs sourceDirRanks) \<Longrightarrow> alias_free [] ds \<Longrightarrow> distinct (map snd ds) \<and> distinct (map fst ds)"
proof -
  have "list_all (\<lambda>ds. alias_free [] ds \<longrightarrow> distinct (map snd ds) \<and> distinct (map fst ds)) (subseqs sourceDirRanks)"
    by code_simp
  then show "ds \<in> set (subseqs sourceDirRanks) \<Longrightarrow> alias_free [] ds \<Longrightarrow> distinct (map snd ds) \<and> distinct (map fst ds)"
    by (simp add: list_all_iff)
qed

text \<open>Joining a source directory with a plain name puts one slash between them.\<close>

lemma source_dir_comps: "d \<in> fst ` set sourceDirRanks \<Longrightarrow> \<exists>cs. cs \<noteq> [] \<and> d = render_path True cs \<and> list_all plain_comp cs"
proof -
  have "list_all (\<lambda>(d, r). path_comps d \<noteq> [] \<and> d = render_path True (path_comps d) \<and> list_all plain_comp (path_comps d))
      sourceDirRanks"
    by code_simp
  then show "d \<in> fst ` set sourceDirRanks \<Longrightarrow> \<exists>cs. cs \<noteq> [] \<and> d = render_path True cs \<and> list_all plain_comp cs"
    by (fastforce simp: list_all_iff)
qed

lemma join_slash_snoc: "cs \<noteq> [] \<Longrightarrow> join_slash (cs @ [w]) = join_slash cs @ ''/'' @ w"
  by (induction cs rule: join_slash.induct) auto

lemma Join_plain:
  assumes "cs \<noteq> []" and "list_all plain_comp cs" and "plain_comp name"
  shows "Join [render_path True cs, name] = render_path True cs @ ''/'' @ name"
proof -
  have whole: "render_path True cs @ ''/'' @ name = render_path True (cs @ [name])"
    using assms(1) by (simp add: render_path_def join_slash_snoc)
  have "\<forall>w \<in> set (cs @ [name]). plain_comp w" using assms by (auto simp: list_all_iff)
  then have "Clean (render_path True (cs @ [name])) = render_path True (cs @ [name])"
    by (simp add: Clean_rooted path_comps_render)
  then show ?thesis using assms(3) whole by (simp add: Join_def plain_comp_def render_path_def)
qed

lemma Join_source_inject:
  assumes "d \<in> fst ` set sourceDirRanks" and "d' \<in> fst ` set sourceDirRanks" and "plain_comp n" and "plain_comp n'"
    and "Join [d, n] = Join [d', n']"
  shows "d = d' \<and> n = n'"
proof -
  have "d @ ''/'' @ n = d' @ ''/'' @ n'" using assms source_dir_comps Join_plain by metis
  then have "rev n @ CHR ''/'' # rev d = rev n' @ CHR ''/'' # rev d'" by (metis append_Cons append_Nil append_assoc rev.simps(2) rev_append)
  then show ?thesis using separated_eq [of "rev n" "CHR ''/''" "rev d" "rev n'" "rev d'"] assms(3,4) by (auto simp: plain_comp_def)
qed

text \<open>What the inventory hands to the resolution: no two drop-ins share a source, or a name and a rank.\<close>

definition inventory_ok :: "PersistenceInventory \<Rightarrow> bool" where
  "inventory_ok pinv \<longleftrightarrow>
     distinct (map (\<lambda>f. (fo_FileName f, fo_DirRank f)) (filter (\<lambda>f. \<not> fo_IsSysctlConf f) (inv_Files pinv))) \<and>
     distinct (map fo_Source (filter (\<lambda>f. \<not> fo_IsSysctlConf f) (inv_Files pinv))) \<and>
     (\<forall>f \<in> set (inv_Files pinv). distinct (map sa_Key (fo_Assignments f)))"

text \<open>A directory lists plain names, each once: what the operating system's directories give.\<close>

definition plain_listing :: "ListDirFunc \<Rightarrow> bool" where
  "plain_listing listDir \<longleftrightarrow>
     (\<forall>(d, r) \<in> set sourceDirRanks. \<forall>names. listDir d = Inr names \<longrightarrow> distinct names \<and> (\<forall>n \<in> set names. plain_comp n))"


lemma dir_files_identities:
  "map (\<lambda>f. (fo_FileName f, fo_DirRank f)) (dir_files read dir rank names) =
     map (\<lambda>n. (n, rank)) (filter (suffix ''.conf'') (sort names))"
  "map fo_Source (dir_files read dir rank names) = map (\<lambda>n. Join [dir, n]) (filter (suffix ''.conf'') (sort names))"
  "f \<in> set (dir_files read dir rank names) \<Longrightarrow> \<not> fo_IsSysctlConf f \<and> distinct (map sa_Key (fo_Assignments f))"
  by (auto simp: dir_files_def comp_def parsed_distinct)

lemma dir_files_names:
  assumes "\<forall>n \<in> set names. plain_comp n" and "f \<in> set (dir_files read dir rank names)"
  shows "fo_DirRank f = rank \<and> (\<exists>n. plain_comp n \<and> fo_Source f = Join [dir, n])"
  using assms by (auto simp: dir_files_def)

lemma listed_files_ok:
  assumes plain: "plain_listing listDir" and ds: "set ds \<subseteq> set sourceDirRanks" "distinct (map snd ds)" "distinct (map fst ds)"
    and listed: "list_all (\<lambda>(d, r). \<not> isl (listDir d)) ds"
  shows "distinct (map (\<lambda>f. (fo_FileName f, fo_DirRank f)) (listed_files read listDir ds)) \<and>
    distinct (map fo_Source (listed_files read listDir ds)) \<and>
    (\<forall>f \<in> set (listed_files read listDir ds).
       fo_DirRank f \<in> snd ` set ds \<and> (\<exists>d n. d \<in> fst ` set ds \<and> plain_comp n \<and> fo_Source f = Join [d, n]) \<and>
       \<not> fo_IsSysctlConf f \<and> distinct (map sa_Key (fo_Assignments f)))"
  using ds listed
proof (induction ds)
  case Nil
  then show ?case by (simp add: listed_files_def)
next
  case (Cons d0 ds)
  obtain d r where d0: "d0 = (d, r)" by (cases d0)
  obtain names where names: "listDir d = Inr names" using Cons.prems(4) d0 by (cases "listDir d") auto
  have here: "d \<in> fst ` set sourceDirRanks" using Cons.prems(1) d0 by force
  have np: "distinct names" "\<forall>n \<in> set names. plain_comp n"
    using plain here names unfolding plain_listing_def by fastforce+
  let ?fs = "dir_files read d r names" and ?gs = "listed_files read listDir ds"
  have app: "listed_files read listDir (d0 # ds) = ?fs @ ?gs" using names d0 by (simp add: listed_files_def)
  have IH: "distinct (map (\<lambda>f. (fo_FileName f, fo_DirRank f)) ?gs)" "distinct (map fo_Source ?gs)"
    "\<And>f. f \<in> set ?gs \<Longrightarrow> fo_DirRank f \<in> snd ` set ds" "\<And>f. f \<in> set ?gs \<Longrightarrow>
       \<exists>d n. d \<in> fst ` set ds \<and> plain_comp n \<and> fo_Source f = Join [d, n]"
    "\<And>f. f \<in> set ?gs \<Longrightarrow> \<not> fo_IsSysctlConf f \<and> distinct (map sa_Key (fo_Assignments f))"
    using Cons by auto
  have mine: "\<And>f. f \<in> set ?fs \<Longrightarrow> fo_DirRank f = r \<and> (\<exists>n. plain_comp n \<and> fo_Source f = Join [d, n])"
    using dir_files_names [OF np(2)] by blast
  have d1: "distinct (map (\<lambda>f. (fo_FileName f, fo_DirRank f)) ?fs)"
    using np(1) by (simp add: dir_files_identities(1) distinct_map inj_on_def)
  have "inj_on (\<lambda>n. Join [d, n]) (set names)" using np(2) Join_source_inject [OF here here] by (auto intro: inj_onI)
  then have d2: "distinct (map fo_Source ?fs)"
    using np(1) by (auto simp: dir_files_identities(2) distinct_map intro: inj_on_subset)
  have x1: "(fo_FileName f, fo_DirRank f) \<noteq> (fo_FileName g, fo_DirRank g)" if "f \<in> set ?fs" "g \<in> set ?gs" for f g
    using mine [OF that(1)] IH(3) [OF that(2)] Cons.prems(2) d0 by force
  have x2: "fo_Source f \<noteq> fo_Source g" if fg: "f \<in> set ?fs" "g \<in> set ?gs" for f g
  proof
    assume eq: "fo_Source f = fo_Source g"
    obtain n where n: "plain_comp n" "fo_Source f = Join [d, n]" using mine [OF fg(1)] by blast
    obtain d' n' where n': "d' \<in> fst ` set ds" "plain_comp n'" "fo_Source g = Join [d', n']" using IH(4) [OF fg(2)] by blast
    have "d' \<in> fst ` set sourceDirRanks" using n'(1) Cons.prems(1) by auto
    then have "d = d'" using Join_source_inject [OF here _ n(1) n'(2)] n n' eq by metis
    then show False using n'(1) Cons.prems(3) d0 by simp
  qed
  have "(\<lambda>f. (fo_FileName f, fo_DirRank f)) ` set ?fs \<inter> (\<lambda>f. (fo_FileName f, fo_DirRank f)) ` set ?gs = {}"
    using x1 by fastforce
  moreover have "fo_Source ` set ?fs \<inter> fo_Source ` set ?gs = {}" using x2 by fastforce
  moreover have "fo_DirRank f \<in> snd ` set (d0 # ds) \<and> (\<exists>d n. d \<in> fst ` set (d0 # ds) \<and> plain_comp n \<and> fo_Source f = Join [d, n]) \<and>
       \<not> fo_IsSysctlConf f \<and> distinct (map sa_Key (fo_Assignments f))" if f: "f \<in> set (?fs @ ?gs)" for f
  proof (cases "f \<in> set ?fs")
    case True
    then show ?thesis using mine [OF True] dir_files_identities(3) [OF True] d0 by auto
  next
    case False
    then have g: "f \<in> set ?gs" using f by simp
    show ?thesis using IH(3,4,5) [OF g] by auto
  qed
  ultimately show ?case unfolding app map_append distinct_append set_map
    using d1 d2 IH(1,2) by blast
qed


lemma inventory_well_formed:
  assumes "plain_listing listDir"
  shows "inventory_ok (ReadPersistenceSources read listDir)"
proof -
  let ?p0 = "\<lparr>inv_Files = [], inv_DirErrors = [], inv_AliasesApplied = []\<rparr>"
  let ?q = "read_dirs read listDir sourceDirRanks [] ?p0"
  obtain ds where ds: "ds \<in> set (subseqs sourceDirRanks)" "alias_free [] ds" "list_all (\<lambda>(d, r). \<not> isl (listDir d)) ds"
    and files: "inv_Files ?q = listed_files read listDir ds"
    using read_dirs_chosen [of read listDir sourceDirRanks "[]" ?p0] by (auto simp: chosen_dirs_def)
  have sub: "set ds \<subseteq> set sourceDirRanks"
    using ds(1) subseqs_powset [of sourceDirRanks] image_eqI [of "set ds" set ds "set (subseqs sourceDirRanks)"]
    by (metis PowD)
  have ranks: "distinct (map snd ds)" "distinct (map fst ds)" using chosen_ranks [OF ds(1,2)] by simp_all
  note ok = listed_files_ok [OF assms sub ranks ds(3), of read]
  have dropins: "filter (\<lambda>f. \<not> fo_IsSysctlConf f) (listed_files read listDir ds) = listed_files read listDir ds"
    using ok by (simp add: filter_id_conv)
  have all: "inv_Files (ReadPersistenceSources read listDir) = listed_files read listDir ds \<or>
      inv_Files (ReadPersistenceSources read listDir) = listed_files read listDir ds @
        [parseSysctlFile SysctlConfPath ''sysctl.conf'' (- 1) True (read SysctlConfPath)]"
    using files by (simp add: ReadPersistenceSources_def Let_def)
  then show ?thesis using ok dropins by (elim disjE) (simp_all add: inventory_ok_def parsed_distinct)
qed

end
