(* ===== verification/Sysctl_Policy.thy ===== *)
theory Sysctl_Policy
  imports Sysctl
begin

text \<open>
  The resolution of the persistent sysctl configuration (\<open>persistence.go\<close>: \<open>Resolve\<close>) and the evaluation of a safety
  policy against it and the runtime plane (\<open>evaluate.go\<close>), with the reference both are compared with: what applying
  the surviving files in the documented order leaves in the kernel. The maps of the code whose keys are listed
  are association lists; the message a reason is printed with is the value it is printed from.
\<close>

subsection \<open>The resolution (persistence.go)\<close>

record Winner =
  w_Source :: string
  w_Value :: int
  w_Line :: nat
  w_FromProjectDropIn :: bool

datatype uncertain_reason = UnreadableSource string | ConfAssigns nat | ConfUnsupported nat unsupported_reason
  | ConfUnreadable | DirUninventoried string read_error | UnsupportedConstruct string nat unsupported_reason

record ResolvedKey =
  rk_Key :: string
  rk_Winner :: "Winner option"
  rk_ProjectAssignment :: "Winner option"
  rk_OverriddenBy :: "Winner option"
  rk_SysctlConfUncertain :: bool
  rk_Unsupported :: bool
  rk_DirUncertain :: bool
  rk_UncertainReasons :: "uncertain_reason list"

record Resolution =
  res_Keys :: "(string \<times> ResolvedKey) list"
  res_SysctlConfUncertain :: bool
  res_DirErrors :: "(string \<times> read_error) list"
  res_Globs :: "string list"

definition conf_files :: "PersistenceInventory \<Rightarrow> FileObservation list" where
  "conf_files pinv = filter fo_IsSysctlConf (inv_Files pinv)"

definition drop_ins :: "PersistenceInventory \<Rightarrow> FileObservation list" where
  "drop_ins pinv = filter (\<lambda>f. \<not> fo_IsSysctlConf f) (inv_Files pinv)"

definition conf_assigned :: "PersistenceInventory \<Rightarrow> string \<Rightarrow> uncertain_reason list" where
  "conf_assigned pinv key =
     concat (map (\<lambda>f. map (\<lambda>a. ConfAssigns (sa_Line a)) (filter (\<lambda>a. sa_Key a = key) (fo_Assignments f)))
       (filter (\<lambda>f. fo_ReadErr f = None) (conf_files pinv)))"

definition conf_unsupported :: "PersistenceInventory \<Rightarrow> string \<Rightarrow> uncertain_reason list" where
  "conf_unsupported pinv key =
     concat (map (\<lambda>f. map (\<lambda>u. ConfUnsupported (un_Line u) (un_Reason u)) (filter (\<lambda>u. un_Key u = key) (fo_Unsupported f)))
       (filter (\<lambda>f. fo_ReadErr f = None) (conf_files pinv)))"

definition conf_unreadable :: "PersistenceInventory \<Rightarrow> bool" where
  "conf_unreadable pinv = list_ex (\<lambda>f. fo_ReadErr f \<noteq> None) (conf_files pinv)"

definition uncertain_sources :: "PersistenceInventory \<Rightarrow> uncertain_reason list" where
  "uncertain_sources pinv =
     map (\<lambda>f. UnreadableSource (fo_Source f)) (filter (\<lambda>f. fo_ReadErr f \<noteq> None) (drop_ins pinv))"

text \<open>\<open>best\<close>: the file kept under each name, replaced only by a file of a strictly higher directory.\<close>

fun keep_best :: "FileObservation \<Rightarrow> FileObservation list \<Rightarrow> FileObservation list" where
  "keep_best f [] = [f]"
| "keep_best f (g # gs) =
     (if fo_FileName g = fo_FileName f then (if fo_DirRank f < fo_DirRank g then f # gs else g # gs)
      else g # keep_best f gs)"

definition surviving_files :: "FileObservation list \<Rightarrow> FileObservation list" where
  "surviving_files fs = sort_key fo_FileName (fold keep_best fs [])"

definition source_order :: "FileObservation list \<Rightarrow> string \<Rightarrow> nat option" where
  "source_order fs src = map_of (rev (zip (map fo_Source fs) [0..<length fs])) src"

text \<open>The loop over the candidates: the winner so far with its place in the order.\<close>

definition winner_step ::
  "(string \<Rightarrow> nat option) \<Rightarrow> string \<Rightarrow> Assignment \<Rightarrow> (Winner \<times> nat) option \<Rightarrow> (Winner \<times> nat) option" where
  "winner_step order src a best =
     (case order src of
        None \<Rightarrow> best
      | Some n \<Rightarrow>
          if (case best of None \<Rightarrow> True | Some (_, m) \<Rightarrow> m < n)
          then Some (\<lparr>w_Source = src, w_Value = sa_Value a, w_Line = sa_Line a, w_FromProjectDropIn = False\<rparr>, n)
          else best)"

definition winner_file ::
  "(string \<Rightarrow> nat option) \<Rightarrow> string \<Rightarrow> FileObservation \<Rightarrow> (Winner \<times> nat) option \<Rightarrow> (Winner \<times> nat) option" where
  "winner_file order key f best =
     (if fo_ReadErr f \<noteq> None then best
      else fold (winner_step order (fo_Source f)) (filter (\<lambda>a. sa_Key a = key) (fo_Assignments f)) best)"

definition find_winner :: "FileObservation list \<Rightarrow> string \<Rightarrow> Winner option" where
  "find_winner fs key = map_option fst (fold (winner_file (source_order fs) key) fs None)"

definition project_assignment :: "FileObservation list \<Rightarrow> string \<Rightarrow> Winner option" where
  "project_assignment fs key =
     fold (\<lambda>f acc. if fo_Source f \<noteq> ProjectDropInPath \<or> fo_ReadErr f \<noteq> None then acc
             else fold (\<lambda>a acc. if sa_Key a \<noteq> key then acc
                     else Some \<lparr>w_Source = fo_Source f, w_Value = sa_Value a, w_Line = sa_Line a, w_FromProjectDropIn = True\<rparr>)
                    (fo_Assignments f) acc) fs None"

definition unsupported_of :: "FileObservation list \<Rightarrow> string \<Rightarrow> uncertain_reason list" where
  "unsupported_of fs key =
     concat (map (\<lambda>f. map (\<lambda>u. UnsupportedConstruct (fo_Source f) (un_Line u) (un_Reason u))
                        (filter (\<lambda>u. un_Key u = key) (fo_Unsupported f)))
       (filter (\<lambda>f. fo_ReadErr f = None) fs))"

definition resolve_key :: "PersistenceInventory \<Rightarrow> FileObservation list \<Rightarrow> string \<Rightarrow> ResolvedKey" where
  "resolve_key pinv fs key =
     (let winner = find_winner fs key; project = project_assignment fs key;
          assigned = conf_assigned pinv key; unsup = conf_unsupported pinv key; found = unsupported_of fs key in
      \<lparr>rk_Key = key, rk_Winner = winner, rk_ProjectAssignment = project,
       rk_OverriddenBy = (if project \<noteq> None \<and> (case winner of None \<Rightarrow> True | Some w \<Rightarrow> w_Source w \<noteq> ProjectDropInPath)
                          then winner else None),
       rk_SysctlConfUncertain = (assigned \<noteq> [] \<or> conf_unreadable pinv),
       rk_Unsupported = (unsup \<noteq> [] \<or> found \<noteq> []),
       rk_DirUncertain = (inv_DirErrors pinv \<noteq> []),
       rk_UncertainReasons = uncertain_sources pinv @ assigned @ unsup @
         (if conf_unreadable pinv then [ConfUnreadable] else []) @
         map (\<lambda>(d, e). DirUninventoried d e) (inv_DirErrors pinv) @
         map (\<lambda>f. UnreadableSource (fo_Source f)) (filter (\<lambda>f. fo_ReadErr f \<noteq> None) fs) @ found\<rparr>)"

definition inventory_keys :: "PersistenceInventory \<Rightarrow> string list" where
  "inventory_keys pinv =
     sort (remdups (concat (map (\<lambda>f. map sa_Key (fo_Assignments f) @ map un_Key (fo_Unsupported f)) (inv_Files pinv))))"

definition Resolve :: "PersistenceInventory \<Rightarrow> Resolution" where
  "Resolve pinv =
     (let fs = surviving_files (drop_ins pinv) in
      \<lparr>res_Keys = map (\<lambda>k. (k, resolve_key pinv fs k)) (inventory_keys pinv),
       res_SysctlConfUncertain =
         list_ex (\<lambda>f. fo_ReadErr f \<noteq> None \<or> fo_Assignments f \<noteq> [] \<or> fo_Unsupported f \<noteq> []) (conf_files pinv),
       res_DirErrors = inv_DirErrors pinv,
       res_Globs = concat (map fo_GlobPatterns (filter (\<lambda>f. fo_ReadErr f = None) (inv_Files pinv)))\<rparr>)"

subsection \<open>The evaluation of a policy (evaluate.go)\<close>

record PolicyRequirement =
  pr_Key :: string
  pr_Desired :: int
  pr_Required :: bool

datatype DimensionStatus = DimensionSatisfied | DimensionViolated | DimensionUnknown

datatype Reason = ReasonRuntimeSatisfied | ReasonRuntimeMismatch | ReasonRuntimeUnknownStatus
  | ReasonRuntimeAbsentUnsupported | ReasonRuntimeNotObserved | ReasonPersistentSatisfied | ReasonPersistentMismatch
  | ReasonPersistentOverride | ReasonPersistentNoDeclaration | ReasonPersistentUnsupported | ReasonPersistentDirUncertain
  | ReasonPersistentSysctlConf | ReasonEffectiveRPMismatch | ReasonEffectiveRPSatisfied

text \<open>A status that is still the empty string of the code is \<open>None\<close>.\<close>

record KeyEvaluation =
  ke_Key :: string
  ke_Required :: bool
  ke_Runtime :: "DimensionStatus option"
  ke_RuntimeValue :: "int option"
  ke_RuntimeRaw :: "RuntimeStatus option"
  ke_Persistent :: "DimensionStatus option"
  ke_PersistentValue :: "int option"
  ke_EffectiveRPFilter :: "int option"
  ke_PersistentEffectiveRPFilter :: "int option"
  ke_Reasons :: "Reason list"

record Evaluation =
  ev_Keys :: "KeyEvaluation list"
  ev_RequiredState :: DimensionStatus
  ev_Reasons :: "Reason list"

datatype eval_error = KeyOutsideAllowlist string | DuplicateRequirement string | ContradictoryObservations string
  | UnknownRuntimeStatus string string

definition ke_add :: "Reason \<Rightarrow> KeyEvaluation \<Rightarrow> KeyEvaluation" where
  "ke_add r k = k\<lparr>ke_Reasons := ke_Reasons k @ [r]\<rparr>"

definition set_runtime :: "DimensionStatus \<Rightarrow> Reason \<Rightarrow> KeyEvaluation \<Rightarrow> KeyEvaluation" where
  "set_runtime d r k = ke_add r (k\<lparr>ke_Runtime := Some d\<rparr>)"

definition set_persistent :: "DimensionStatus \<Rightarrow> Reason \<Rightarrow> KeyEvaluation \<Rightarrow> KeyEvaluation" where
  "set_persistent d r k = ke_add r (k\<lparr>ke_Persistent := Some d\<rparr>)"

definition combined :: "KeyEvaluation \<Rightarrow> DimensionStatus" where
  "combined k =
     (if ke_Runtime k = Some DimensionViolated \<or> ke_Persistent k = Some DimensionViolated then DimensionViolated
      else if ke_Runtime k = Some DimensionUnknown \<or> ke_Persistent k = Some DimensionUnknown then DimensionUnknown
      else DimensionSatisfied)"

fun worst_rank :: "DimensionStatus \<Rightarrow> nat" where
  "worst_rank DimensionViolated = 2"
| "worst_rank DimensionUnknown = 1"
| "worst_rank DimensionSatisfied = 0"

fun check_policy :: "PolicyRequirement list \<Rightarrow> string list \<Rightarrow> eval_error option" where
  "check_policy [] seen = None"
| "check_policy (p # ps) seen =
     (if CheckSysctlKey (pr_Key p) \<noteq> None then Some (KeyOutsideAllowlist (pr_Key p))
      else if pr_Key p \<in> set seen then Some (DuplicateRequirement (pr_Key p))
      else check_policy ps (pr_Key p # seen))"

type_synonym runtime_map = "string \<Rightarrow> RuntimeObservation option"

fun runtime_by_key :: "RuntimeObservation list \<Rightarrow> runtime_map \<Rightarrow> (eval_error, runtime_map) result" where
  "runtime_by_key [] m = Inr m"
| "runtime_by_key (obs # os) m =
     (case m (ro_Key obs) of
        Some prev \<Rightarrow> if prev \<noteq> obs then Inl (ContradictoryObservations (ro_Key obs)) else runtime_by_key os m
      | None \<Rightarrow> runtime_by_key os (m(ro_Key obs \<mapsto> obs)))"

definition isScopedRPFilter :: "string \<Rightarrow> bool" where
  "isScopedRPFilter k \<longleftrightarrow> k \<noteq> ''net.ipv4.conf.all.rp_filter'' \<and> k \<noteq> ''net.ipv4.conf.default.rp_filter'' \<and>
     length ''net.ipv4.conf..rp_filter'' < length k \<and> HasPrefix k ''net.ipv4.conf.'' \<and> suffix ''.rp_filter'' k"

definition allRPKey :: string where "allRPKey = ''net.ipv4.conf.all.rp_filter''"

definition runtime_dimension ::
  "PolicyRequirement \<Rightarrow> runtime_map \<Rightarrow> KeyEvaluation \<Rightarrow> (eval_error, KeyEvaluation) result" where
  "runtime_dimension p rt ke =
     (case rt (pr_Key p) of
        None \<Rightarrow> Inr (set_runtime DimensionUnknown ReasonRuntimeNotObserved ke)
      | Some obs \<Rightarrow>
          (let k = ke\<lparr>ke_RuntimeRaw := Some (ro_Status obs)\<rparr> in
           (case ro_Status obs of
              RuntimePresent \<Rightarrow>
                (let k = k\<lparr>ke_RuntimeValue := Some (ro_Value obs)\<rparr> in
                 if ro_Value obs = pr_Desired p then Inr (set_runtime DimensionSatisfied ReasonRuntimeSatisfied k)
                 else Inr (set_runtime DimensionViolated ReasonRuntimeMismatch k))
            | RuntimeAbsentUnsupported \<Rightarrow> Inr (set_runtime DimensionUnknown ReasonRuntimeAbsentUnsupported k)
            | RuntimeUnknownPermission \<Rightarrow> Inr (set_runtime DimensionUnknown ReasonRuntimeUnknownStatus k)
            | RuntimeUnknownParse \<Rightarrow> Inr (set_runtime DimensionUnknown ReasonRuntimeUnknownStatus k)
            | RuntimeUnknownIO \<Rightarrow> Inr (set_runtime DimensionUnknown ReasonRuntimeUnknownStatus k)
            | RuntimeOther s \<Rightarrow> Inl (UnknownRuntimeStatus (pr_Key p) s))))"

definition persistent_dimension :: "PolicyRequirement \<Rightarrow> Resolution \<Rightarrow> KeyEvaluation \<Rightarrow> KeyEvaluation" where
  "persistent_dimension p res ke =
     (case map_of (res_Keys res) (pr_Key p) of
        None \<Rightarrow> set_persistent DimensionUnknown ReasonPersistentNoDeclaration ke
      | Some rk \<Rightarrow>
          (let k1 = (if rk_DirUncertain rk \<or> res_DirErrors res \<noteq> []
                     then set_persistent DimensionUnknown ReasonPersistentDirUncertain ke else ke);
               k2 = (if rk_Unsupported rk then set_persistent DimensionUnknown ReasonPersistentUnsupported k1 else k1);
               k3 = (if rk_SysctlConfUncertain rk then set_persistent DimensionUnknown ReasonPersistentSysctlConf k2 else k2)
           in (case rk_Winner rk of
                 None \<Rightarrow>
                   if ke_Persistent k3 = Some DimensionUnknown then ke_add ReasonPersistentNoDeclaration k3
                   else set_persistent DimensionUnknown ReasonPersistentNoDeclaration k3
               | Some w \<Rightarrow>
                   if ke_Persistent k3 \<noteq> Some DimensionUnknown then
                     (let k4 = k3\<lparr>ke_PersistentValue := Some (w_Value w)\<rparr>;
                          k5 = (if rk_OverriddenBy rk \<noteq> None then ke_add ReasonPersistentOverride k4 else k4)
                      in if w_Value w = pr_Desired p then set_persistent DimensionSatisfied ReasonPersistentSatisfied k5
                         else set_persistent DimensionViolated ReasonPersistentMismatch k5)
                   else k3)))"

definition fixupPersistentStatus :: "KeyEvaluation \<Rightarrow> KeyEvaluation" where
  "fixupPersistentStatus k =
     (if ke_Persistent k \<noteq> None then k
      else if ReasonPersistentMismatch \<in> set (ke_Reasons k) \<or> ReasonPersistentOverride \<in> set (ke_Reasons k)
      then k\<lparr>ke_Persistent := Some DimensionViolated\<rparr>
      else if ReasonPersistentSatisfied \<in> set (ke_Reasons k) then k\<lparr>ke_Persistent := Some DimensionSatisfied\<rparr>
      else k\<lparr>ke_Persistent := Some DimensionUnknown\<rparr>)"

text \<open>The scoped reverse-path filter: the larger of the interface's value and the value for all interfaces.\<close>

definition scoped_runtime :: "PolicyRequirement \<Rightarrow> runtime_map \<Rightarrow> KeyEvaluation \<Rightarrow> KeyEvaluation" where
  "scoped_runtime p rt ke =
     (case rt (pr_Key p) of
        None \<Rightarrow> set_runtime DimensionUnknown ReasonRuntimeNotObserved ke
      | Some obs \<Rightarrow>
          (let k1 = ke\<lparr>ke_RuntimeRaw := Some (ro_Status obs)\<rparr>;
               k2 = (if ro_Status obs = RuntimePresent then k1\<lparr>ke_RuntimeValue := Some (ro_Value obs)\<rparr> else k1);
               allPresent = (case rt allRPKey of Some a \<Rightarrow> ro_Status a = RuntimePresent | None \<Rightarrow> False)
           in if ro_Status obs = RuntimePresent \<and> allPresent then
                (let eff = EffectiveRPFilter (ro_Value (the (rt allRPKey))) (ro_Value obs);
                     k3 = k2\<lparr>ke_EffectiveRPFilter := Some eff\<rparr>
                 in if eff = pr_Desired p then set_runtime DimensionSatisfied ReasonEffectiveRPSatisfied k3
                    else set_runtime DimensionViolated ReasonEffectiveRPMismatch k3)
              else if ro_Status obs = RuntimePresent then set_runtime DimensionUnknown ReasonRuntimeUnknownStatus k2
              else if ro_Status obs = RuntimeAbsentUnsupported
              then set_runtime DimensionUnknown ReasonRuntimeAbsentUnsupported k2
              else set_runtime DimensionUnknown ReasonRuntimeUnknownStatus k2))"

definition rk_uncertain :: "ResolvedKey \<Rightarrow> bool" where
  "rk_uncertain rk \<longleftrightarrow> rk_DirUncertain rk \<or> rk_Unsupported rk \<or> rk_SysctlConfUncertain rk"

definition scoped_persistent :: "PolicyRequirement \<Rightarrow> Resolution \<Rightarrow> KeyEvaluation \<Rightarrow> KeyEvaluation" where
  "scoped_persistent p res ke =
     (let rko = map_of (res_Keys res) (pr_Key p); allo = map_of (res_Keys res) allRPKey;
          uncertain = (res_DirErrors res \<noteq> [] \<or> (case rko of Some rk \<Rightarrow> rk_uncertain rk | None \<Rightarrow> False) \<or>
                       (case allo of Some rk \<Rightarrow> rk_uncertain rk | None \<Rightarrow> False))
      in (case rko of
            None \<Rightarrow> set_persistent DimensionUnknown ReasonPersistentNoDeclaration ke
          | Some rk \<Rightarrow>
              (case rk_Winner rk of
                 None \<Rightarrow> set_persistent DimensionUnknown ReasonPersistentNoDeclaration ke
               | Some w \<Rightarrow>
                   if uncertain then
                     (let k1 = ke\<lparr>ke_Persistent := Some DimensionUnknown\<rparr>;
                          k2 = (if rk_DirUncertain rk \<or> res_DirErrors res \<noteq> [] then ke_add ReasonPersistentDirUncertain k1 else k1);
                          k3 = (if rk_Unsupported rk then ke_add ReasonPersistentUnsupported k2 else k2)
                      in if rk_SysctlConfUncertain rk then ke_add ReasonPersistentSysctlConf k3 else k3)
                   else (case (case allo of Some ark \<Rightarrow> rk_Winner ark | None \<Rightarrow> None) of
                       None \<Rightarrow> set_persistent DimensionUnknown ReasonPersistentNoDeclaration ke
                     | Some aw \<Rightarrow>
                         (let eff = EffectiveRPFilter (w_Value aw) (w_Value w);
                              k1 = ke\<lparr>ke_PersistentValue := Some eff, ke_PersistentEffectiveRPFilter := Some eff\<rparr>;
                              k2 = (if rk_OverriddenBy rk \<noteq> None then ke_add ReasonPersistentOverride k1 else k1)
                          in if eff = pr_Desired p
                             then ke_add ReasonEffectiveRPSatisfied (set_persistent DimensionSatisfied ReasonPersistentSatisfied k2)
                             else set_persistent DimensionViolated ReasonEffectiveRPMismatch k2)))))"

definition evaluateScopedRPFilter :: "PolicyRequirement \<Rightarrow> runtime_map \<Rightarrow> Resolution \<Rightarrow> KeyEvaluation \<Rightarrow> KeyEvaluation" where
  "evaluateScopedRPFilter p rt res ke = scoped_persistent p res (scoped_runtime p rt ke)"

definition new_evaluation :: "PolicyRequirement \<Rightarrow> KeyEvaluation" where
  "new_evaluation p = \<lparr>ke_Key = pr_Key p, ke_Required = pr_Required p, ke_Runtime = None, ke_RuntimeValue = None,
     ke_RuntimeRaw = None, ke_Persistent = None, ke_PersistentValue = None, ke_EffectiveRPFilter = None,
     ke_PersistentEffectiveRPFilter = None, ke_Reasons = []\<rparr>"

definition evaluate_key :: "PolicyRequirement \<Rightarrow> runtime_map \<Rightarrow> Resolution \<Rightarrow> (eval_error, KeyEvaluation) result" where
  "evaluate_key p rt res =
     (if isScopedRPFilter (pr_Key p) then Inr (evaluateScopedRPFilter p rt res (new_evaluation p))
      else case runtime_dimension p rt (new_evaluation p) of
        Inl e \<Rightarrow> Inl e
      | Inr k \<Rightarrow> Inr (fixupPersistentStatus (persistent_dimension p res k)))"

fun evaluate_keys ::
  "runtime_map \<Rightarrow> Resolution \<Rightarrow> PolicyRequirement list \<Rightarrow> KeyEvaluation list \<Rightarrow> DimensionStatus \<Rightarrow>
   (eval_error, KeyEvaluation list \<times> DimensionStatus) result" where
  "evaluate_keys rt res [] ks worst = Inr (ks, worst)"
| "evaluate_keys rt res (p # ps) ks worst =
     (case evaluate_key p rt res of
        Inl e \<Rightarrow> Inl e
      | Inr k \<Rightarrow>
          evaluate_keys rt res ps (ks @ [k])
            (if pr_Required p \<and> worst_rank worst < worst_rank (combined k) then combined k else worst))"

definition collect_reasons :: "KeyEvaluation list \<Rightarrow> Reason list" where
  "collect_reasons ks = fold (\<lambda>r acc. if r \<in> set acc then acc else acc @ [r]) (concat (map ke_Reasons (filter ke_Required ks))) []"

definition EvaluatePolicy ::
  "PolicyRequirement list \<Rightarrow> RuntimeObservation list \<Rightarrow> Resolution \<Rightarrow> (eval_error, Evaluation) result" where
  "EvaluatePolicy policy runtime res =
     (case check_policy policy [] of
        Some e \<Rightarrow> Inl e
      | None \<Rightarrow>
          (case runtime_by_key runtime (\<lambda>_. None) of
             Inl e \<Rightarrow> Inl e
           | Inr rt \<Rightarrow>
               (case evaluate_keys rt res policy [] DimensionSatisfied of
                  Inl e \<Rightarrow> Inl e
                | Inr (ks, worst) \<Rightarrow>
                    (let sorted_keys = sort_key ke_Key ks in
                     Inr \<lparr>ev_Keys = sorted_keys, ev_RequiredState = worst, ev_Reasons = collect_reasons sorted_keys\<rparr>))))"


subsection \<open>What the files leave in the kernel\<close>

text \<open>
  The reference, taken from the text of the files alone (sysctl.d(5)). Of the drop-ins of one name the one from the
  highest directory is effective (\<open>/lib/sysctl.d\<close> counts only where \<open>/usr/lib/sysctl.d\<close> could not be listed: the two are one directory),
  and the effective ones are applied in the order of their names, line by line. A line \<open>key = value\<close> that is no
  comment writes its value to every variable its key stands for: a leading dash only makes failures be ignored,
  dots and slashes both separate the parts, and a pattern stands for every key it matches (conservatively: also one
  that an explicit line names, and a bracket class for any key). The last line that touches a key decides what the kernel is left with.
\<close>

definition ref_assignment :: "string \<Rightarrow> (string \<times> string) option" where
  "ref_assignment raw =
     (let t = TrimSpace raw in
      if t = '''' \<or> HasPrefix t ''#'' \<or> HasPrefix t '';'' \<or> CHR ''='' \<notin> set t then None
      else let left = takeWhile (\<lambda>c. c \<noteq> CHR ''='') t in
        Some (TrimSpace left, TrimSpace (drop (Suc (length left)) t)))"

definition written_key :: "string \<Rightarrow> string" where
  "written_key k = (if HasPrefix k ''-'' then TrimSpace (tl k) else k)"

definition is_glob :: "string \<Rightarrow> bool" where
  "is_glob k \<longleftrightarrow> CHR ''*'' \<in> set k \<or> CHR ''?'' \<in> set k \<or> CHR 0x5B \<in> set k"

definition key_touches :: "string \<Rightarrow> string \<Rightarrow> bool" where
  "key_touches k key \<longleftrightarrow>
     (let w = written_key k in
      if is_glob w then CHR 0x5B \<in> set w \<or> glob_matches (dots_from_slashes w) key
      else dots_from_slashes w = key)"

definition line_touches :: "string \<Rightarrow> string \<Rightarrow> bool" where
  "line_touches raw key = (case ref_assignment raw of None \<Rightarrow> False | Some (k, v) \<Rightarrow> key_touches k key)"

definition line_step :: "string \<Rightarrow> string \<Rightarrow> string option \<Rightarrow> string option" where
  "line_step key raw acc =
     (case ref_assignment raw of None \<Rightarrow> acc | Some (k, v) \<Rightarrow> if key_touches k key then Some v else acc)"

definition source_files :: "ListDirFunc \<Rightarrow> (string \<times> string \<times> int) list" where
  "source_files listDir =
     concat (map (\<lambda>(d, r).
       if d = ''/lib/sysctl.d'' \<and> \<not> isl (listDir ''/usr/lib/sysctl.d'') then []
       else case listDir d of
         Inl _ \<Rightarrow> []
       | Inr names \<Rightarrow> map (\<lambda>n. (Join [d, n], n, r)) (filter (suffix ''.conf'') (sort names))) sourceDirRanks)"

definition effective_sources :: "ListDirFunc \<Rightarrow> string list" where
  "effective_sources listDir =
     map fst (sort_key (\<lambda>(s, n, r). n)
       (filter (\<lambda>(s, n, r). list_all (\<lambda>(s', n', r'). n' = n \<longrightarrow> r \<le> r') (source_files listDir)) (source_files listDir)))"

definition boot_text :: "ReadFunc \<Rightarrow> ListDirFunc \<Rightarrow> string \<Rightarrow> string option" where
  "boot_text read listDir key =
     fold (\<lambda>src acc. case read src of Inl _ \<Rightarrow> acc | Inr d \<Rightarrow> fold (line_step key) (Split (CHR 0x0A) d) acc)
       (effective_sources listDir) None"

definition boot_plane :: "ReadFunc \<Rightarrow> ListDirFunc \<Rightarrow> string \<Rightarrow> int option" where
  "boot_plane read listDir key = Option.bind (boot_text read listDir key) parse_int64"

text \<open>
  The lines the parser of the program does not see: a dash before a key that is not written with dots, a pattern
  written with slashes, and a pattern that touches a key that is not among the compiled candidates (the key of
  an interface other than the representative \<open>eth0\<close>).
\<close>

definition blind_line :: "string \<Rightarrow> string \<Rightarrow> bool" where
  "blind_line raw key =
     (case ref_assignment raw of
        None \<Rightarrow> False
      | Some (k, v) \<Rightarrow> key_touches k key \<and>
          (HasPrefix k ''-'' \<and> written_key k \<noteq> key
           \<or> is_glob (written_key k) \<and> (CHR ''/'' \<in> set k \<or> key \<notin> set glob_candidates)))"

text \<open>
  The same over what the parser has kept of the files: the middle step between the resolution and the text. An
  unreadable file contributes nothing here.
\<close>

definition effective_files :: "FileObservation list \<Rightarrow> FileObservation list" where
  "effective_files fs =
     sort_key fo_FileName (filter (\<lambda>f. list_all (\<lambda>g. fo_FileName g = fo_FileName f \<longrightarrow> fo_DirRank f \<le> fo_DirRank g) fs) fs)"

definition apply_assignments :: "Assignment list \<Rightarrow> (string \<Rightarrow> int option) \<Rightarrow> string \<Rightarrow> int option" where
  "apply_assignments as m = fold (\<lambda>a m. m(sa_Key a \<mapsto> sa_Value a)) as m"

definition apply_file :: "FileObservation \<Rightarrow> (string \<Rightarrow> int option) \<Rightarrow> string \<Rightarrow> int option" where
  "apply_file f m = (if fo_ReadErr f = None then apply_assignments (fo_Assignments f) m else m)"

definition boot_values :: "PersistenceInventory \<Rightarrow> string \<Rightarrow> int option" where
  "boot_values pinv = fold apply_file (effective_files (drop_ins pinv)) (\<lambda>_. None)"

text \<open>The files the loop keeps are the effective ones.\<close>

definition best_of :: "FileObservation list \<Rightarrow> FileObservation list \<Rightarrow> bool" where
  "best_of fs kept \<longleftrightarrow> distinct (map fo_FileName kept) \<and> set kept \<subseteq> set fs \<and>
     (\<forall>g \<in> set fs. \<exists>k \<in> set kept. fo_FileName k = fo_FileName g \<and> fo_DirRank k \<le> fo_DirRank g)"

lemma keep_best_names: "fo_FileName ` set (keep_best f gs) = insert (fo_FileName f) (fo_FileName ` set gs)"
  by (induction gs) auto

lemma keep_best_distinct: "distinct (map fo_FileName gs) \<Longrightarrow> distinct (map fo_FileName (keep_best f gs))"
proof (induction gs)
  case (Cons g gs)
  have "fo_FileName g \<notin> fo_FileName ` set (keep_best f gs)" if "fo_FileName g \<noteq> fo_FileName f"
    using Cons.prems that by (simp add: keep_best_names)
  with Cons show ?case by auto
qed simp

lemma keep_best_covers:
  "\<exists>k \<in> set (keep_best f gs). fo_FileName k = fo_FileName f \<and> fo_DirRank k \<le> fo_DirRank f"
  "g \<in> set gs \<Longrightarrow> \<exists>k \<in> set (keep_best f gs). fo_FileName k = fo_FileName g \<and> fo_DirRank k \<le> fo_DirRank g"
  by (induction gs) fastforce+

lemma keep_best_subset: "set (keep_best f gs) \<subseteq> insert f (set gs)"
  by (induction gs) auto

lemma best_of_step: "best_of fs kept \<Longrightarrow> best_of (fs @ [f]) (keep_best f kept)"
proof -
  assume best: "best_of fs kept"
  have "\<exists>k \<in> set (keep_best f kept). fo_FileName k = fo_FileName g \<and> fo_DirRank k \<le> fo_DirRank g" if g: "g \<in> set fs" for g
  proof -
    obtain k where k: "k \<in> set kept" "fo_FileName k = fo_FileName g" "fo_DirRank k \<le> fo_DirRank g"
      using best g unfolding best_of_def by blast
    obtain l where "l \<in> set (keep_best f kept)" "fo_FileName l = fo_FileName k" "fo_DirRank l \<le> fo_DirRank k"
      using keep_best_covers(2) [OF k(1)] by blast
    then show ?thesis using k by (metis order_trans)
  qed
  moreover have "distinct (map fo_FileName (keep_best f kept))" using best keep_best_distinct by (simp add: best_of_def)
  moreover have "set (keep_best f kept) \<subseteq> set (fs @ [f])" using best keep_best_subset [of f kept] by (auto simp: best_of_def)
  ultimately show ?thesis unfolding best_of_def using keep_best_covers(1) [of f kept] by auto
qed

lemma best_of_fold: "best_of fs (fold keep_best fs [])"
  by (induction fs rule: rev_induct) (simp_all add: best_of_step, simp add: best_of_def)

lemma surviving_effective:
  assumes "distinct (map (\<lambda>f. (fo_FileName f, fo_DirRank f)) fs)"
  shows "surviving_files fs = effective_files fs"
proof -
  let ?kept = "fold keep_best fs []"
  let ?eff = "filter (\<lambda>f. list_all (\<lambda>g. fo_FileName g = fo_FileName f \<longrightarrow> fo_DirRank f \<le> fo_DirRank g) fs) fs"
  have best: "best_of fs ?kept" by (rule best_of_fold)
  have uniq: "f = g" if "f \<in> set fs" "g \<in> set fs" "fo_FileName f = fo_FileName g" "fo_DirRank f = fo_DirRank g" for f g
    using inj_onD [of "\<lambda>f. (fo_FileName f, fo_DirRank f)" "set fs" f g] assms that by (simp add: distinct_map)
  have one: "k = l" if "k \<in> set ?kept" "l \<in> set ?kept" "fo_FileName k = fo_FileName l" for k l
    using inj_onD [of fo_FileName "set ?kept" k l] best that by (simp add: best_of_def distinct_map)
  have "f \<in> set ?kept \<longleftrightarrow> f \<in> set ?eff" for f
  proof
    assume f: "f \<in> set ?kept"
    have "fo_DirRank f \<le> fo_DirRank g" if "g \<in> set fs" "fo_FileName g = fo_FileName f" for g
      using best one [OF f] that unfolding best_of_def by metis
    with f best show "f \<in> set ?eff" by (auto simp: best_of_def list_all_iff)
  next
    assume f: "f \<in> set ?eff"
    then have fs: "f \<in> set fs" by simp
    obtain k where k: "k \<in> set ?kept" "fo_FileName k = fo_FileName f" "fo_DirRank k \<le> fo_DirRank f"
      using best fs unfolding best_of_def by blast
    have kfs: "k \<in> set fs" using k(1) best unfolding best_of_def by blast
    then have "fo_DirRank f \<le> fo_DirRank k" using f k(2) by (simp add: list_all_iff)
    with k(3) have "fo_DirRank k = fo_DirRank f" by (rule order_antisym)
    then have "k = f" by (rule uniq [OF kfs fs k(2)])
    with k(1) show "f \<in> set ?kept" by simp
  qed
  then have sets: "set ?kept = set ?eff" by blast
  have names: "distinct (map fo_FileName ?kept)" using best by (simp add: best_of_def)
  have inj: "inj_on fo_FileName (set ?kept)" using names by (simp add: distinct_map)
  have "distinct fs" using assms by (simp add: distinct_map)
  then have "distinct ?eff" by (rule distinct_filter)
  then have effn: "distinct (map fo_FileName ?eff)" unfolding distinct_map using inj unfolding sets by blast
  show ?thesis unfolding surviving_files_def effective_files_def
  proof (rule map_sorted_distinct_set_unique [of fo_FileName])
    show "inj_on fo_FileName (set (sort_key fo_FileName ?kept) \<union> set (sort_key fo_FileName ?eff))" using inj sets by simp
    show "distinct (map fo_FileName (sort_key fo_FileName ?kept))" using names by (simp add: distinct_map)
    show "distinct (map fo_FileName (sort_key fo_FileName ?eff))" using effn by (simp add: distinct_map)
  qed (use sets in simp_all)
qed


subsection \<open>The winner is the last assignment\<close>

lemma assignments_of_key:
  "distinct (map sa_Key as) \<Longrightarrow>
     (\<exists>a. filter (\<lambda>a. sa_Key a = key) as = [a] \<and> (\<forall>m. apply_assignments as m key = Some (sa_Value a))) \<or>
     filter (\<lambda>a. sa_Key a = key) as = [] \<and> (\<forall>m. apply_assignments as m key = m key)"
proof (induction as)
  case Nil
  then show ?case by (simp add: apply_assignments_def)
next
  case (Cons b as)
  have step: "apply_assignments (b # as) m = apply_assignments as (m(sa_Key b \<mapsto> sa_Value b))" for m
    by (simp add: apply_assignments_def)
  show ?case
  proof (cases "sa_Key b = key")
    case True
    then have "key \<notin> sa_Key ` set as" using Cons.prems by simp
    then have none: "filter (\<lambda>a. sa_Key a = key) as = []" by (induction as) auto
    with Cons have "\<forall>m. apply_assignments as m key = m key" by auto
    with True none step show ?thesis by auto
  next
    case False
    with Cons step show ?thesis by auto
  qed
qed

definition candidate_value :: "(Winner \<times> nat) option \<Rightarrow> int option" where
  "candidate_value = map_option (w_Value \<circ> fst)"

lemma winner_file_step:
  assumes "distinct (map sa_Key (fo_Assignments f))" and "order (fo_Source f) = Some n"
    and "\<forall>w m. best = Some (w, m) \<longrightarrow> m < n" and "mm key = candidate_value best"
  shows "candidate_value (winner_file order key f best) = apply_file f mm key \<and>
    (\<forall>w m. winner_file order key f best = Some (w, m) \<longrightarrow> m < Suc n)"
proof (cases "fo_ReadErr f = None")
  case False
  with assms show ?thesis by (auto simp: winner_file_def apply_file_def intro: less_SucI)
next
  case True
  have fresh: "case best of None \<Rightarrow> True | Some (_, m) \<Rightarrow> m < n" using assms(3) by (auto split: option.splits)
  from assignments_of_key [OF assms(1), of key] show ?thesis
  proof (elim disjE exE conjE)
    fix a
    assume "filter (\<lambda>a. sa_Key a = key) (fo_Assignments f) = [a]" and "\<forall>m. apply_assignments (fo_Assignments f) m key = Some (sa_Value a)"
    with True fresh assms(2) show ?thesis by (simp add: winner_file_def apply_file_def winner_step_def candidate_value_def)
  next
    assume "filter (\<lambda>a. sa_Key a = key) (fo_Assignments f) = []" and "\<forall>m. apply_assignments (fo_Assignments f) m key = m key"
    with True assms show ?thesis by (auto simp: winner_file_def apply_file_def intro: less_SucI)
  qed
qed

lemma winner_files:
  assumes "\<forall>f \<in> set fs. distinct (map sa_Key (fo_Assignments f))"
    and "\<forall>i < length fs. order (fo_Source (fs ! i)) = Some (b + i)"
    and "\<forall>w m. best = Some (w, m) \<longrightarrow> m < b" and "mm key = candidate_value best"
  shows "candidate_value (fold (winner_file order key) fs best) = fold apply_file fs mm key"
  using assms
proof (induction fs arbitrary: b best mm)
  case Nil
  then show ?case by simp
next
  case (Cons f fs)
  have "order (fo_Source f) = Some b" using Cons.prems(2) by force
  then have here: "apply_file f mm key = candidate_value (winner_file order key f best)"
    "\<forall>w m. winner_file order key f best = Some (w, m) \<longrightarrow> m < Suc b"
    using winner_file_step [of f order b best mm key] Cons.prems by simp_all
  have later: "\<forall>i < length fs. order (fo_Source (fs ! i)) = Some (Suc b + i)"
  proof (intro allI impI)
    fix i assume "i < length fs"
    then show "order (fo_Source (fs ! i)) = Some (Suc b + i)" using Cons.prems(2) [rule_format, of "Suc i"] by simp
  qed
  show ?case using Cons.IH [of "Suc b" "winner_file order key f best" "apply_file f mm"] later here Cons.prems(1) by simp
qed

lemma source_order_position:
  assumes "distinct (map fo_Source fs)" and "i < length fs"
  shows "source_order fs (fo_Source (fs ! i)) = Some i"
proof -
  have "distinct (map fst (rev (zip (map fo_Source fs) [0..<length fs])))" using assms(1) by (simp add: rev_map [symmetric])
  moreover have "(fo_Source (fs ! i), i) \<in> set (rev (zip (map fo_Source fs) [0..<length fs]))"
    using assms(2) by (auto simp: set_zip intro!: exI [of _ i])
  ultimately show ?thesis unfolding source_order_def by (rule map_of_is_SomeI)
qed

lemma find_winner_value:
  assumes "distinct (map fo_Source fs)" and "\<forall>f \<in> set fs. distinct (map sa_Key (fo_Assignments f))"
  shows "map_option w_Value (find_winner fs key) = fold apply_file fs (\<lambda>_. None) key"
proof -
  have "candidate_value (fold (winner_file (source_order fs) key) fs None) = fold apply_file fs (\<lambda>_. None) key"
    by (rule winner_files [where b = 0]) (simp_all add: assms source_order_position candidate_value_def)
  then show ?thesis by (simp add: find_winner_def candidate_value_def option.map_comp)
qed

lemma effective_subset: "set (effective_files fs) \<subseteq> set fs"
  by (auto simp: effective_files_def)

lemma sort_key_distinct_map: "distinct (map g xs) \<Longrightarrow> distinct (map g (sort_key f xs))"
  by (simp add: distinct_map)

lemma winner_is_boot_value:
  assumes "inventory_ok pinv"
  shows "map_option w_Value (find_winner (surviving_files (drop_ins pinv)) key) = boot_values pinv key"
proof -
  let ?fs = "drop_ins pinv"
  have ok: "distinct (map (\<lambda>f. (fo_FileName f, fo_DirRank f)) ?fs)" "distinct (map fo_Source ?fs)"
    "\<forall>f \<in> set ?fs. distinct (map sa_Key (fo_Assignments f))"
    using assms by (simp_all add: inventory_ok_def drop_ins_def)
  have "distinct (map fo_Source (effective_files ?fs))" unfolding effective_files_def
    by (intro sort_key_distinct_map) (simp add: distinct_map_filter ok)
  moreover have "\<forall>f \<in> set (effective_files ?fs). distinct (map sa_Key (fo_Assignments f))"
    using ok(3) effective_subset by blast
  ultimately show ?thesis unfolding surviving_effective [OF ok(1)] boot_values_def by (rule find_winner_value)
qed

lemma resolved_key:
  "map_of (res_Keys (Resolve pinv)) key = Some rk \<Longrightarrow> rk = resolve_key pinv (surviving_files (drop_ins pinv)) key"
  by (auto simp: Resolve_def Let_def map_of_map_restrict restrict_map_def split: if_splits dest!: map_of_SomeD)

text \<open>
  The resolution computes what the kernel is left with. Where every listing of a source directory has plain names,
  each once, for every content of the files, every failure to read or list and every key: a key the resolution
  reports has exactly the winning value that results from applying the effective drop-ins, one file per
  name from the highest directory, in the order of their names and line by line, and no winner exactly when no
  readable effective file assigns the key.
\<close>

lemma resolution_boot_value:
  assumes "plain_listing listDir"
    and "map_of (res_Keys (Resolve (ReadPersistenceSources read listDir))) key = Some rk"
  shows "map_option w_Value (rk_Winner rk) = boot_values (ReadPersistenceSources read listDir) key"
  using winner_is_boot_value [OF inventory_well_formed [OF assms(1)], of read key] resolved_key [OF assms(2)]
  by (simp add: resolve_key_def Let_def)


subsection \<open>The parser and the inventory against the text\<close>

text \<open>What a parsed file assigns to a key, and the keys it marks as uncertain.\<close>

definition assigned :: "FileObservation \<Rightarrow> string \<Rightarrow> int option" where
  "assigned fo key = map_option sa_Value (find (\<lambda>a. sa_Key a = key) (fo_Assignments fo))"

definition flagged :: "FileObservation \<Rightarrow> string set" where
  "flagged fo = un_Key ` set (fo_Unsupported fo)"

lemma flagged_add [simp]: "flagged (add_unsupported n r k fo) = insert k (flagged fo)"
  "assigned (add_unsupported n r k fo) = assigned fo"
  by (auto simp: flagged_def add_unsupported_def assigned_def fun_eq_iff)

lemma flagged_fold [simp]: "flagged (fold (add_unsupported n r) ks fo) = set ks \<union> flagged fo"
  "assigned (fold (add_unsupported n r) ks fo) = assigned fo"
  by (induction ks arbitrary: fo) auto

lemma assigned_frames [simp]:
  "assigned (add_malformed n fo) = assigned fo" "flagged (add_malformed n fo) = flagged fo"
  "assigned (fo\<lparr>fo_ExclusionLines := x\<rparr>) = assigned fo" "flagged (fo\<lparr>fo_ExclusionLines := x\<rparr>) = flagged fo"
  "assigned (fo\<lparr>fo_GlobPatterns := y\<rparr>) = assigned fo" "flagged (fo\<lparr>fo_GlobPatterns := y\<rparr>) = flagged fo"
  "assigned (fo\<lparr>fo_SupersededLines := z\<rparr>) = assigned fo" "flagged (fo\<lparr>fo_SupersededLines := z\<rparr>) = flagged fo"
  "flagged (fo\<lparr>fo_Assignments := as\<rparr>) = flagged fo"
  "fo_Assignments (fo\<lparr>fo_SupersededLines := z\<rparr>) = fo_Assignments fo"
  by (simp_all add: assigned_def flagged_def add_malformed_def fun_eq_iff)

lemma find_replace:
  "map_option sa_Value (find (\<lambda>b. sa_Key b = key) (replaceOrAppend as a (sa_Key a))) =
     (if sa_Key a = key then Some (sa_Value a) else map_option sa_Value (find (\<lambda>b. sa_Key b = key) as))"
  by (induction as) auto

lemma dots_plain: "CHR ''/'' \<notin> set k \<Longrightarrow> dots_from_slashes k = k"
  unfolding dots_from_slashes_def by (rule map_idI) auto

lemma parse_assignment_touch:
  assumes "parse_assignment n k v (fo, l) = (fo', l')" and "key \<notin> flagged fo'" and "isRelevantKey key"
    and "\<not> (HasPrefix k ''-'' \<and> written_key k \<noteq> key \<and> key_touches k key)"
    and "\<not> (is_glob (written_key k) \<and> key_touches k key \<and> (CHR ''/'' \<in> set k \<or> key \<notin> set glob_candidates))"
  shows "key \<notin> flagged fo" and "key_touches k key \<Longrightarrow> \<exists>x. parse_int64 v = Some x \<and> assigned fo' key = Some x"
    and "\<not> key_touches k key \<Longrightarrow> assigned fo' key = assigned fo key"
proof -
  consider (dash) "HasPrefix k ''-''" | (glob) "\<not> HasPrefix k ''-''" "is_glob k"
    | (slash) "\<not> HasPrefix k ''-''" "\<not> is_glob k" "CHR ''/'' \<in> set k"
    | (plain) "\<not> HasPrefix k ''-''" "\<not> is_glob k" "CHR ''/'' \<notin> set k" by blast
  then have "key \<notin> flagged fo \<and> (key_touches k key \<longrightarrow> (\<exists>x. parse_int64 v = Some x \<and> assigned fo' key = Some x))
      \<and> (\<not> key_touches k key \<longrightarrow> assigned fo' key = assigned fo key)"
  proof cases
    case dash
    then have w: "written_key k = TrimSpace (TrimPrefix k ''-'')" by (auto simp: written_key_def TrimPrefix_def prefix_def)
    show ?thesis using assms dash by (auto simp: parse_assignment_def Let_def w [symmetric] split: if_splits)
  next
    case glob
    then have g: "list_ex (\<lambda>c. c \<in> {CHR ''*'', CHR ''?'', CHR 0x5B}) k" by (auto simp: is_glob_def list_ex_iff)
    have w: "written_key k = k" using glob by (simp add: written_key_def)
    have "dots_from_slashes k = k" if "CHR ''/'' \<notin> set k" by (rule dots_plain [OF that])
    then have "key \<in> set (globTouchedKeys k)" if "key_touches k key"
      using that assms(5) glob glob_loop_exact [of key k 0 0 None] glob_candidates_plain [of key]
      by (auto simp: w key_touches_def globTouchedKeys_def globCouldMatch_def glob_segment_ok_def glob_resume_def)
    then show ?thesis using assms(1,2) glob(1) g by (auto simp: parse_assignment_def)
  next
    case slash
    then have g: "\<not> list_ex (\<lambda>c. c \<in> {CHR ''*'', CHR ''?'', CHR 0x5B}) k" by (auto simp: is_glob_def list_ex_iff)
    have w: "written_key k = k" using slash by (simp add: written_key_def)
    show ?thesis using assms(1-3) slash g
      by (auto simp: parse_assignment_def Let_def key_touches_def w split: if_splits)
  next
    case plain
    then have g: "\<not> list_ex (\<lambda>c. c \<in> {CHR ''*'', CHR ''?'', CHR 0x5B}) k" by (auto simp: is_glob_def list_ex_iff)
    have w: "written_key k = k" using plain by (simp add: written_key_def)
    have t: "key_touches k key \<longleftrightarrow> k = key"
      using plain by (simp add: key_touches_def w dots_plain)
    show ?thesis
    proof (cases "isRelevantKey k")
      case False
      with assms(1-3) plain g t show ?thesis by (auto simp: parse_assignment_def)
    next
      case True
      show ?thesis
      proof (cases "parsePersistenceValue v")
        case (Inl e)
        with True assms(1-3) plain g t show ?thesis by (auto simp: parse_assignment_def)
      next
        case (Inr x)
        then have x: "parse_int64 v = Some x" by (auto simp: parsePersistenceValue_def split: if_splits option.splits)
        let ?a = "\<lparr>sa_Key = k, sa_Value = x, sa_Line = n\<rparr>"
        have "fo' = (case l k of Some prev \<Rightarrow> fo\<lparr>fo_SupersededLines := fo_SupersededLines fo @ [prev]\<rparr> | None \<Rightarrow> fo)
            \<lparr>fo_Assignments := replaceOrAppend (fo_Assignments fo) ?a k\<rparr>"
          using True Inr assms(1) plain g by (auto simp: parse_assignment_def Let_def split: option.splits)
        then have f: "flagged fo' = flagged fo" and as: "fo_Assignments fo' = replaceOrAppend (fo_Assignments fo) ?a (sa_Key ?a)"
          by (auto split: option.splits)
        have "assigned fo' key = (if k = key then Some x else assigned fo key)"
          unfolding assigned_def as find_replace by simp
        with f x t assms(2) show ?thesis by auto
      qed
    qed
  qed
  then show "key \<notin> flagged fo" "key_touches k key \<Longrightarrow> \<exists>x. parse_int64 v = Some x \<and> assigned fo' key = Some x"
    "\<not> key_touches k key \<Longrightarrow> assigned fo' key = assigned fo key" by blast+
qed


lemma parse_line_touch:
  assumes "parse_sysctl_line (n, raw) (fo, l) = (fo', l')" and "key \<notin> flagged fo'" and "isRelevantKey key"
    and "\<not> blind_line raw key"
  shows "key \<notin> flagged fo" and "line_touches raw key \<Longrightarrow> \<exists>k v x. ref_assignment raw = Some (k, v) \<and> parse_int64 v = Some x \<and> assigned fo' key = Some x"
    and "\<not> line_touches raw key \<Longrightarrow> assigned fo' key = assigned fo key"
proof -
  have "key \<notin> flagged fo \<and> (line_touches raw key \<longrightarrow> (\<exists>k v x. ref_assignment raw = Some (k, v) \<and> parse_int64 v = Some x \<and> assigned fo' key = Some x))
      \<and> (\<not> line_touches raw key \<longrightarrow> assigned fo' key = assigned fo key)"
  proof (cases "ref_assignment raw")
    case None
    then have n: "\<not> line_touches raw key" by (simp add: line_touches_def)
    from None assms(1,2) have "assigned fo' = assigned fo \<and> key \<notin> flagged fo"
      by (auto simp: parse_sysctl_line_def ref_assignment_def Let_def split: if_splits option.splits)
    with n show ?thesis by simp
  next
    case (Some kv)
    obtain k v where kv: "kv = (k, v)" by (cases kv)
    show ?thesis
    proof (cases "k = ''''")
      case True
      have nt: "\<not> line_touches raw key"
      proof
        assume "line_touches raw key"
        then have "key = ''''" using Some kv True
          by (simp add: line_touches_def key_touches_def written_key_def is_glob_def dots_from_slashes_def)
        with assms(3) show False by (simp add: isRelevantKey_def) code_simp
      qed
      from Some kv True assms(1,2) have "assigned fo' = assigned fo \<and> key \<notin> flagged fo"
        by (auto simp: parse_sysctl_line_def ref_assignment_def Let_def split: if_splits option.splits)
      with nt show ?thesis by simp
    next
      case False
      then have p: "parse_assignment n k v (fo, l) = (fo', l')"
        using Some kv assms(1) by (auto simp: parse_sysctl_line_def ref_assignment_def Let_def split: if_splits option.splits)
      from parse_assignment_touch [OF p assms(2,3)] assms(4) Some kv show ?thesis
        by (simp add: line_touches_def blind_line_def) blast
    qed
  qed
  then show "key \<notin> flagged fo" "line_touches raw key \<Longrightarrow> \<exists>k v x. ref_assignment raw = Some (k, v) \<and> parse_int64 v = Some x \<and> assigned fo' key = Some x"
    "\<not> line_touches raw key \<Longrightarrow> assigned fo' key = assigned fo key" by blast+
qed

lemma line_step_touch:
  "line_step key raw acc = (if line_touches raw key then Some (snd (the (ref_assignment raw))) else acc)"
  by (auto simp: line_step_def line_touches_def split: option.splits)

lemma parse_lines_touch:
  assumes "key \<notin> flagged (fst (fold parse_sysctl_line ls st))" and "isRelevantKey key"
    and "\<forall>(n, raw) \<in> set ls. \<not> blind_line raw key" and "assigned (fst st) key = None"
  shows "assigned (fst (fold parse_sysctl_line ls st)) key = Option.bind (fold (line_step key) (map snd ls) None) parse_int64
    \<and> (assigned (fst (fold parse_sysctl_line ls st)) key = None \<longrightarrow> fold (line_step key) (map snd ls) None = None)"
  using assms
proof (induction ls rule: rev_induct)
  case (snoc nl ls)
  obtain n raw where nl: "nl = (n, raw)" by (cases nl)
  obtain fo l where f: "fold parse_sysctl_line ls st = (fo, l)" by fastforce
  obtain fo' l' where p: "parse_sysctl_line (n, raw) (fo, l) = (fo', l')" by fastforce
  have fin: "fst (fold parse_sysctl_line (ls @ [nl]) st) = fo'" using nl f p by simp
  have nb: "\<not> blind_line raw key" "\<forall>(n, raw) \<in> set ls. \<not> blind_line raw key" using snoc.prems(3) nl by auto
  note touch = parse_line_touch [OF p snoc.prems(1) [unfolded fin] snoc.prems(2) nb(1)]
  have "key \<notin> flagged (fst (fold parse_sysctl_line ls st))" using touch(1) f by simp
  note IH = snoc.IH [OF this snoc.prems(2) nb(2) snoc.prems(4)]
  show ?case
  proof (cases "line_touches raw key")
    case True
    from touch(2) [OF this] show ?thesis by (auto simp: f p nl line_step_touch True)
  next
    case False
    with IH touch(3) show ?thesis by (simp add: f p nl line_step_touch)
  qed
qed simp

definition file_text :: "string \<Rightarrow> string \<Rightarrow> string option" where
  "file_text key d = fold (line_step key) (Split (CHR 0x0A) d) None"

lemma line_step_fold:
  "fold (line_step key) ls acc = (case fold (line_step key) ls None of None \<Rightarrow> acc | Some v \<Rightarrow> Some v)"
proof (induction ls arbitrary: acc)
  case (Cons a ls)
  show ?case
    unfolding fold_simps Cons.IH [of "line_step key a acc"] Cons.IH [of "line_step key a None"]
    by (simp add: line_step_touch split: option.split)
qed simp

lemma parsed_file_text:
  assumes "key \<notin> flagged (parseSysctlFile src name rank conf (Inr d))" and "isRelevantKey key"
    and "\<forall>raw \<in> set (Split (CHR 0x0A) d). \<not> blind_line raw key"
  shows "assigned (parseSysctlFile src name rank conf (Inr d)) key = Option.bind (file_text key d) parse_int64
    \<and> (assigned (parseSysctlFile src name rank conf (Inr d)) key = None \<longrightarrow> file_text key d = None)"
proof -
  let ?ls = "zip [1..<Suc (length (Split (CHR 0x0A) d))] (Split (CHR 0x0A) d)"
  have "map snd ?ls = Split (CHR 0x0A) d" by (rule map_snd_zip) (simp del: upt_Suc)
  moreover have "\<forall>(n, raw) \<in> set ?ls. \<not> blind_line raw key"
    using assms(3) by (auto dest!: set_zip_rightD)
  moreover obtain st where "parseSysctlFile src name rank conf (Inr d) = fst (fold parse_sysctl_line ?ls st)"
    "assigned (fst st) key = None"
    by (rule that [of "(parseSysctlFile src name rank conf (Inl ReadNotExist)\<lparr>fo_ReadErr := None\<rparr>, \<lambda>_. None)"])
      (simp_all add: parseSysctlFile_def Let_def assigned_def del: upt_Suc)
  ultimately show ?thesis
    using parse_lines_touch [of key ?ls st] assms(1,2) by (simp add: file_text_def del: upt_Suc)
qed

definition parsed_source :: "ReadFunc \<Rightarrow> string \<times> string \<times> int \<Rightarrow> FileObservation" where
  "parsed_source read = (\<lambda>(s, n, r). parseSysctlFile s n r False (read s))"

lemma read_dirs_files_cong:
  "inv_Files p = inv_Files q \<Longrightarrow> inv_Files (read_dirs read listDir sds listed p) = inv_Files (read_dirs read listDir sds listed q)"
proof (induction sds arbitrary: listed p q)
  case (Cons sd sds)
  obtain d r where sd: "sd = (d, r)" by (cases sd)
  show ?case
  proof (cases "listDir d")
    case (Inl e)
    then show ?thesis by (cases e) (auto simp: sd Let_def Cons.prems intro!: Cons.IH)
  next
    case (Inr names)
    then show ?thesis by (auto simp: sd Let_def Cons.prems intro!: Cons.IH)
  qed
qed simp

definition files_of :: "ReadFunc \<Rightarrow> ListDirFunc \<Rightarrow> string \<Rightarrow> int \<Rightarrow> FileObservation list" where
  "files_of read listDir d r = (case listDir d of Inl _ \<Rightarrow> [] | Inr names \<Rightarrow> dir_files read d r names)"

lemma read_dirs_files:
  "inv_Files (read_dirs read listDir ((d, r) # sds) listed p) =
     (if (case dirAliases d of Some c \<Rightarrow> c \<in> set listed | None \<Rightarrow> False) then inv_Files (read_dirs read listDir sds listed p)
      else inv_Files (read_dirs read listDir sds (if isl (listDir d) then listed else d # listed)
                        (p\<lparr>inv_Files := inv_Files p @ files_of read listDir d r\<rparr>)))"
proof (cases "case dirAliases d of Some c \<Rightarrow> c \<in> set listed | None \<Rightarrow> False")
  case True
  then show ?thesis by (auto simp: Let_def split: option.splits intro!: read_dirs_files_cong)
next
  case False
  show ?thesis
  proof (cases "listDir d")
    case (Inl e)
    have "inv_Files (read_dirs read listDir ((d, r) # sds) listed p) = inv_Files (read_dirs read listDir sds listed p)"
      using False Inl by (cases e) (auto simp: Let_def intro!: read_dirs_files_cong)
    moreover have "inv_Files (read_dirs read listDir sds listed p) =
        inv_Files (read_dirs read listDir sds listed (p\<lparr>inv_Files := inv_Files p @ files_of read listDir d r\<rparr>))"
      by (rule read_dirs_files_cong) (simp add: files_of_def Inl)
    ultimately show ?thesis using False Inl by (simp del: read_dirs.simps)
  next
    case (Inr names)
    have "inv_Files (read_dirs read listDir ((d, r) # sds) listed p) =
        inv_Files (read_dirs read listDir sds (d # listed) (p\<lparr>inv_Files := inv_Files p @ files_of read listDir d r\<rparr>))"
      using False Inr by (auto simp: Let_def files_of_def intro!: read_dirs_files_cong)
    then show ?thesis using False Inr by (simp del: read_dirs.simps)
  qed
qed

lemma dir_files_parsed:
  "dir_files read d r names = map (parsed_source read) (map (\<lambda>n. (Join [d, n], n, r)) (filter (suffix ''.conf'') (sort names)))"
  by (simp add: dir_files_def parsed_source_def comp_def)

lemma files_of_parsed:
  "files_of read listDir d r = map (parsed_source read)
     (case listDir d of Inl _ \<Rightarrow> [] | Inr names \<Rightarrow> map (\<lambda>n. (Join [d, n], n, r)) (filter (suffix ''.conf'') (sort names)))"
  by (simp add: files_of_def dir_files_parsed split: sum.split)

lemma read_dirs_sources:
  "inv_Files (read_dirs read listDir sourceDirRanks [] \<lparr>inv_Files = [], inv_DirErrors = [], inv_AliasesApplied = []\<rparr>) =
     map (parsed_source read) (source_files listDir)"
  unfolding sourceDirRanks_def source_files_def
  by (simp add: read_dirs_files dirAliases_def files_of_parsed del: read_dirs.simps(2))


lemma sort_key_map: "sort_key f (map g xs) = map g (sort_key (\<lambda>x. f (g x)) xs)"
proof -
  have "insort_key f (g x) (map g ys) = map g (insort_key (\<lambda>x. f (g x)) x ys)" for x ys
    by (induction ys) auto
  then show ?thesis by (induction xs) simp_all
qed

lemma parsed_source_sel [simp]:
  "fo_FileName (parsed_source read (s, n, r)) = n" "fo_DirRank (parsed_source read (s, n, r)) = r"
  "fo_Source (parsed_source read (s, n, r)) = s" "\<not> fo_IsSysctlConf (parsed_source read (s, n, r))"
  by (simp_all add: parsed_source_def)

lemma drop_ins_sources:
  "drop_ins (ReadPersistenceSources read listDir) = map (parsed_source read) (source_files listDir)"
proof -
  have "filter (\<lambda>f. \<not> fo_IsSysctlConf f) (map (parsed_source read) xs) = map (parsed_source read) xs" for xs
    by (simp add: filter_id_conv split: prod.split) auto
  then show ?thesis by (simp add: drop_ins_def ReadPersistenceSources_def Let_def read_dirs_sources)
qed

lemma effective_sources_parsed:
  "effective_files (drop_ins (ReadPersistenceSources read listDir)) =
     map (\<lambda>src. parsed_source read src) (sort_key (\<lambda>(s, n, r). n)
       (filter (\<lambda>(s, n, r). list_all (\<lambda>(s', n', r'). n' = n \<longrightarrow> r \<le> r') (source_files listDir)) (source_files listDir)))"
  unfolding effective_files_def drop_ins_sources filter_map sort_key_map
  by (simp add: comp_def list_all_iff case_prod_unfold parsed_source_sel [of read "fst x" "fst (snd x)" "snd (snd x)" for x, simplified])

lemma find_filter: "find P xs = (case filter P xs of [] \<Rightarrow> None | x # _ \<Rightarrow> Some x)"
  by (induction xs) auto

lemma apply_file_assigned:
  assumes "distinct (map sa_Key (fo_Assignments f))" and "fo_ReadErr f = None"
  shows "apply_file f m key = (case assigned f key of None \<Rightarrow> m key | Some x \<Rightarrow> Some x)"
proof -
  from assignments_of_key [OF assms(1), of key] show ?thesis
  proof (elim disjE exE conjE)
    fix a
    assume f: "filter (\<lambda>a. sa_Key a = key) (fo_Assignments f) = [a]"
      and v: "\<forall>m. apply_assignments (fo_Assignments f) m key = Some (sa_Value a)"
    have "find (\<lambda>a. sa_Key a = key) (fo_Assignments f) = Some a"
      using f by (simp add: find_filter)
    with v assms(2) show ?thesis by (simp add: apply_file_def assigned_def)
  next
    assume f: "filter (\<lambda>a. sa_Key a = key) (fo_Assignments f) = []"
      and v: "\<forall>m. apply_assignments (fo_Assignments f) m key = m key"
    have "find (\<lambda>a. sa_Key a = key) (fo_Assignments f) = None" using f by (simp add: find_None_iff filter_empty_conv)
    with v assms(2) show ?thesis by (simp add: apply_file_def assigned_def)
  qed
qed


subsection \<open>What a satisfied policy proves\<close>

lemmas ke_update_defs = set_runtime_def set_persistent_def ke_add_def

text \<open>A dimension that is positively satisfied: neither violated nor unknown nor unset.\<close>

definition not_bad :: "DimensionStatus option \<Rightarrow> bool" where
  "not_bad d \<longleftrightarrow> d \<noteq> Some DimensionViolated \<and> d \<noteq> Some DimensionUnknown"

lemma combined_satisfied: "combined k = DimensionSatisfied \<longleftrightarrow> not_bad (ke_Runtime k) \<and> not_bad (ke_Persistent k)"
  by (simp add: combined_def not_bad_def)

lemma runtime_dimension_sound:
  assumes "runtime_dimension p rt ke = Inr k"
  shows "ke_Persistent k = ke_Persistent ke \<and>
    (not_bad (ke_Runtime k) \<longrightarrow>
       (\<exists>obs. rt (pr_Key p) = Some obs \<and> ro_Status obs = RuntimePresent \<and> ro_Value obs = pr_Desired p))"
  using assms
  by (cases "rt (pr_Key p)")
     (auto simp: runtime_dimension_def ke_update_defs Let_def not_bad_def split: RuntimeStatus.splits if_splits)

lemma persistent_dimension_sound:
  assumes "not_bad (ke_Persistent (fixupPersistentStatus (persistent_dimension p res ke)))" and "ke_Persistent ke = None"
  shows "\<exists>rk w. map_of (res_Keys res) (pr_Key p) = Some rk \<and> rk_Winner rk = Some w \<and> w_Value w = pr_Desired p \<and>
    \<not> rk_uncertain rk \<and> res_DirErrors res = []"
  using assms
  by (auto simp: persistent_dimension_def fixupPersistentStatus_def ke_update_defs Let_def not_bad_def rk_uncertain_def
      split: option.splits if_splits)

lemma persistent_dimension_frame: "ke_Runtime (fixupPersistentStatus (persistent_dimension p res ke)) = ke_Runtime ke"
  by (auto simp: persistent_dimension_def fixupPersistentStatus_def ke_update_defs Let_def split: option.splits)

text \<open>The status is always set by the evaluation itself, so the later repair of an empty one never acts.\<close>

lemma fixup_never_acts: "fixupPersistentStatus (persistent_dimension p res ke) = persistent_dimension p res ke"
  by (auto simp: persistent_dimension_def fixupPersistentStatus_def ke_update_defs Let_def split: option.splits if_splits)

lemma scoped_runtime_sound:
  "ke_Persistent (scoped_runtime p rt ke) = ke_Persistent ke \<and>
    (not_bad (ke_Runtime (scoped_runtime p rt ke)) \<longrightarrow>
       (\<exists>obs a. rt (pr_Key p) = Some obs \<and> rt allRPKey = Some a \<and> ro_Status obs = RuntimePresent \<and>
          ro_Status a = RuntimePresent \<and> EffectiveRPFilter (ro_Value a) (ro_Value obs) = pr_Desired p))"
  by (auto simp: scoped_runtime_def ke_update_defs Let_def not_bad_def split: option.splits if_splits)

lemma scoped_persistent_sound:
  "ke_Runtime (scoped_persistent p res ke) = ke_Runtime ke \<and>
    (not_bad (ke_Persistent (scoped_persistent p res ke)) \<longrightarrow>
       (\<exists>rk w ark aw. map_of (res_Keys res) (pr_Key p) = Some rk \<and> rk_Winner rk = Some w \<and>
          map_of (res_Keys res) allRPKey = Some ark \<and> rk_Winner ark = Some aw \<and>
          EffectiveRPFilter (w_Value aw) (w_Value w) = pr_Desired p \<and>
          \<not> rk_uncertain rk \<and> \<not> rk_uncertain ark \<and> res_DirErrors res = []))"
  by (auto simp: scoped_persistent_def ke_update_defs Let_def not_bad_def split: option.splits if_splits)

lemma runtime_by_key_find:
  "runtime_by_key os m = Inr rt \<Longrightarrow>
     rt k = (case m k of Some obs \<Rightarrow> Some obs | None \<Rightarrow> find (\<lambda>obs. ro_Key obs = k) os)"
proof (induction os m rule: runtime_by_key.induct)
  case (2 obs os m)
  show ?case
  proof (cases "m (ro_Key obs)")
    case None
    then have "runtime_by_key os (m(ro_Key obs \<mapsto> obs)) = Inr rt" using 2(3) by simp
    note next_find = 2(1) [OF None this]
    show ?thesis using next_find None by (cases "ro_Key obs = k"; cases "m k") simp_all
  next
    case (Some prev)
    then have "prev = obs" and "runtime_by_key os m = Inr rt" using 2(3) by (simp_all split: if_splits)
    then show ?thesis using 2(2) [OF Some] Some by (cases "ro_Key obs = k"; cases "m k") simp_all
  qed
qed (auto split: option.splits)

lemma worst_rank_satisfied [simp]: "worst_rank d = 0 \<longleftrightarrow> d = DimensionSatisfied"
  by (cases d) auto

lemma evaluate_keys_satisfied:
  "evaluate_keys rt res ps ks worst = Inr (ks', DimensionSatisfied) \<Longrightarrow>
     worst = DimensionSatisfied \<and>
     (\<forall>p \<in> set ps. pr_Required p \<longrightarrow> (\<exists>k. evaluate_key p rt res = Inr k \<and> combined k = DimensionSatisfied))"
proof (induction ps arbitrary: ks worst)
  case (Cons p ps)
  obtain k where k: "evaluate_key p rt res = Inr k" using Cons.prems by (cases "evaluate_key p rt res") auto
  let ?w = "if pr_Required p \<and> worst_rank worst < worst_rank (combined k) then combined k else worst"
  have "evaluate_keys rt res ps (ks @ [k]) ?w = Inr (ks', DimensionSatisfied)" using Cons.prems k by simp
  from Cons.IH [OF this] have w: "?w = DimensionSatisfied"
    and rest: "\<forall>p \<in> set ps. pr_Required p \<longrightarrow> (\<exists>k. evaluate_key p rt res = Inr k \<and> combined k = DimensionSatisfied)" by simp_all
  have "worst = DimensionSatisfied" and "pr_Required p \<longrightarrow> combined k = DimensionSatisfied"
    using w by (cases worst; cases "combined k"; simp split: if_splits)+
  with k rest show ?case by simp
qed simp

text \<open>
  The reference of a requirement over any plane: a scoped reverse-path filter stands for the larger of its own value and
  the value for all interfaces, every other key for its own value.
\<close>

definition policy_value :: "(string \<Rightarrow> int option) \<Rightarrow> string \<Rightarrow> int option" where
  "policy_value plane key =
     (if isScopedRPFilter key
      then (case (plane allRPKey, plane key) of (Some a, Some v) \<Rightarrow> Some (max a v) | _ \<Rightarrow> None)
      else plane key)"

definition runtime_plane :: "RuntimeObservation list \<Rightarrow> string \<Rightarrow> int option" where
  "runtime_plane runtime key =
     (case find (\<lambda>obs. ro_Key obs = key) runtime of
        Some obs \<Rightarrow> if ro_Status obs = RuntimePresent then Some (ro_Value obs) else None | None \<Rightarrow> None)"

lemma EffectiveRPFilter_max: "EffectiveRPFilter a v = max a v"
  by (simp add: EffectiveRPFilter_def max_def)

text \<open>The keys a requirement rests on.\<close>

definition policy_keys :: "string \<Rightarrow> string list" where
  "policy_keys key = (if isScopedRPFilter key then [key, allRPKey] else [key])"

lemma policy_value_cong: "\<forall>k \<in> set (policy_keys key). f k = g k \<Longrightarrow> policy_value f key = policy_value g key"
  by (simp add: policy_value_def policy_keys_def split: if_splits)

definition resolved_plane :: "Resolution \<Rightarrow> string \<Rightarrow> int option" where
  "resolved_plane res key = Option.bind (map_of (res_Keys res) key) (\<lambda>rk. map_option w_Value (rk_Winner rk))"

lemma satisfied_planes:
  assumes key: "evaluate_key p rt res = Inr k" and sat: "combined k = DimensionSatisfied"
    and rt: "runtime_by_key runtime (\<lambda>_. None) = Inr rt"
  shows "policy_value (runtime_plane runtime) (pr_Key p) = Some (pr_Desired p)
    \<and> policy_value (resolved_plane res) (pr_Key p) = Some (pr_Desired p) \<and> res_DirErrors res = []
    \<and> (\<forall>key \<in> set (policy_keys (pr_Key p)). \<exists>rk. map_of (res_Keys res) key = Some rk \<and> \<not> rk_uncertain rk)"
proof (cases "isScopedRPFilter (pr_Key p)")
  case True
  let ?k1 = "scoped_runtime p rt (new_evaluation p)"
  have "k = scoped_persistent p res ?k1" using key True by (simp add: evaluate_key_def evaluateScopedRPFilter_def)
  then have "not_bad (ke_Runtime ?k1)" and "not_bad (ke_Persistent (scoped_persistent p res ?k1))"
    using sat scoped_persistent_sound [of p res ?k1] by (simp_all add: combined_satisfied)
  then obtain obs a rk w ark aw where obs: "rt (pr_Key p) = Some obs" "rt allRPKey = Some a"
      "ro_Status obs = RuntimePresent" "ro_Status a = RuntimePresent" "max (ro_Value a) (ro_Value obs) = pr_Desired p"
    and rk: "map_of (res_Keys res) (pr_Key p) = Some rk" "rk_Winner rk = Some w"
      "map_of (res_Keys res) allRPKey = Some ark" "rk_Winner ark = Some aw"
      "max (w_Value aw) (w_Value w) = pr_Desired p" "\<not> rk_uncertain rk" "\<not> rk_uncertain ark" "res_DirErrors res = []"
    using scoped_runtime_sound [of p rt "new_evaluation p"] scoped_persistent_sound [of p res ?k1]
    unfolding EffectiveRPFilter_max by blast
  then show ?thesis using True runtime_by_key_find [OF rt]
    by (simp add: policy_value_def runtime_plane_def resolved_plane_def policy_keys_def)
next
  case False
  obtain k1 where k1: "runtime_dimension p rt (new_evaluation p) = Inr k1"
    and k: "k = fixupPersistentStatus (persistent_dimension p res k1)"
    using key False by (auto simp: evaluate_key_def split: sum.splits)
  have none: "ke_Persistent k1 = None" using runtime_dimension_sound [OF k1] by (simp add: new_evaluation_def)
  have "not_bad (ke_Runtime k1)" and "not_bad (ke_Persistent k)"
    using sat persistent_dimension_frame [of p res k1] k by (simp_all add: combined_satisfied)
  then obtain obs rk w where "rt (pr_Key p) = Some obs" "ro_Status obs = RuntimePresent" "ro_Value obs = pr_Desired p"
    and rk: "map_of (res_Keys res) (pr_Key p) = Some rk" "rk_Winner rk = Some w" "w_Value w = pr_Desired p"
      "\<not> rk_uncertain rk" "res_DirErrors res = []"
    using runtime_dimension_sound [OF k1] persistent_dimension_sound [OF _ none] k by blast
  then show ?thesis using False runtime_by_key_find [OF rt]
    by (simp add: policy_value_def runtime_plane_def resolved_plane_def policy_keys_def)
qed

text \<open>No readable legacy file assigns a key that is reported as certain, and every legacy file was readable.\<close>

lemma certain_conf:
  assumes "\<not> rk_uncertain (resolve_key pinv fs key)" and "f \<in> set (inv_Files pinv)" and "fo_IsSysctlConf f"
  shows "fo_ReadErr f = None \<and> (\<forall>a \<in> set (fo_Assignments f). sa_Key a \<noteq> key)"
proof -
  have "\<not> conf_unreadable pinv" and none: "conf_assigned pinv key = []"
    using assms(1) by (simp_all add: rk_uncertain_def resolve_key_def Let_def)
  then have r: "fo_ReadErr f = None" using assms(2,3) by (auto simp: conf_unreadable_def conf_files_def list_ex_iff)
  then have "filter (\<lambda>a. sa_Key a = key) (fo_Assignments f) = []"
    using none assms(2,3) by (auto simp: conf_assigned_def conf_files_def)
  with r show ?thesis by (auto simp: filter_empty_conv)
qed

text \<open>A file that can be read, has no flagged construct for the key and no blind line leaves what its text says.\<close>

lemma parsed_source_text:
  assumes "read s = Inr d" and "isRelevantKey key" and "key \<notin> flagged (parsed_source read (s, n, r))"
    and "\<forall>raw \<in> set (Split (CHR 0x0A) d). \<not> blind_line raw key"
  shows "apply_file (parsed_source read (s, n, r)) m key =
    (case file_text key d of None \<Rightarrow> m key | Some v \<Rightarrow> parse_int64 v)"
proof -
  let ?f = "parsed_source read (s, n, r)"
  have f: "?f = parseSysctlFile s n r False (Inr d)" by (simp add: parsed_source_def assms(1))
  have "fo_ReadErr ?f = None" using parsed_identity [of s n r False "Inr d"] by (simp add: f file_identity_def)
  moreover have "distinct (map sa_Key (fo_Assignments ?f))" by (simp add: f parsed_distinct)
  moreover have "assigned ?f key = Option.bind (file_text key d) parse_int64 \<and> (assigned ?f key = None \<longrightarrow> file_text key d = None)"
    using parsed_file_text [OF assms(3) [unfolded f] assms(2,4)] by (simp add: f)
  ultimately show ?thesis by (cases "file_text key d") (auto simp: apply_file_assigned split: option.splits)
qed

definition plain_source :: "ReadFunc \<Rightarrow> string \<Rightarrow> string \<Rightarrow> bool" where
  "plain_source read key src \<longleftrightarrow>
     (case read src of Inl _ \<Rightarrow> False | Inr d \<Rightarrow> list_all (\<lambda>raw. \<not> blind_line raw key) (Split (CHR 0x0A) d))"

lemma apply_sources_text:
  assumes "isRelevantKey key" and "\<forall>e \<in> set es. plain_source read key (fst e) \<and> key \<notin> flagged (parsed_source read e)"
    and "m key = Option.bind acc parse_int64"
  shows "fold apply_file (map (parsed_source read) es) m key =
    Option.bind (fold (\<lambda>src acc. case read src of Inl _ \<Rightarrow> acc | Inr d \<Rightarrow> fold (line_step key) (Split (CHR 0x0A) d) acc)
      (map fst es) acc) parse_int64"
  using assms(2,3)
proof (induction es arbitrary: m acc)
  case (Cons e es)
  obtain s n r where e: "e = (s, n, r)" by (cases e)
  obtain d where d: "read s = Inr d" using Cons.prems(1) e by (auto simp: plain_source_def split: sum.splits)
  have "\<forall>raw \<in> set (Split (CHR 0x0A) d). \<not> blind_line raw key" "key \<notin> flagged (parsed_source read (s, n, r))"
    using Cons.prems(1) e d by (auto simp: plain_source_def list_all_iff)
  note here = parsed_source_text [OF d assms(1) this(2,1), of m]
  have "apply_file (parsed_source read e) m key =
      Option.bind (fold (line_step key) (Split (CHR 0x0A) d) acc) parse_int64"
    unfolding e here file_text_def line_step_fold [of key _ acc] using Cons.prems(2) by (simp split: option.split)
  then show ?case
    using Cons.IH [of "apply_file (parsed_source read e) m" "fold (line_step key) (Split (CHR 0x0A) d) acc"] Cons.prems(1)
    by (simp add: e d)
qed simp

lemma certain_unflagged:
  assumes "\<not> rk_uncertain (resolve_key pinv fs key)" and "f \<in> set fs" and "fo_ReadErr f = None"
  shows "key \<notin> flagged f"
  using assms by (auto simp: rk_uncertain_def resolve_key_def Let_def unsupported_of_def flagged_def filter_empty_conv)

lemma resolved_boot_plane:
  assumes plain: "plain_listing listDir"
    and rk: "map_of (res_Keys (Resolve (ReadPersistenceSources read listDir))) key = Some rk" "\<not> rk_uncertain rk"
    and "isRelevantKey key" and "\<forall>src \<in> set (effective_sources listDir). plain_source read key src"
  shows "resolved_plane (Resolve (ReadPersistenceSources read listDir)) key = boot_plane read listDir key"
proof -
  let ?pinv = "ReadPersistenceSources read listDir"
  let ?es = "sort_key (\<lambda>(s, n, r). n)
       (filter (\<lambda>(s, n, r). list_all (\<lambda>(s', n', r'). n' = n \<longrightarrow> r \<le> r') (source_files listDir)) (source_files listDir))"
  have ok: "inventory_ok ?pinv" by (rule inventory_well_formed [OF plain])
  then have eff: "surviving_files (drop_ins ?pinv) = map (parsed_source read) ?es"
    using surviving_effective [of "drop_ins ?pinv"] effective_sources_parsed [of read listDir]
    by (simp add: inventory_ok_def drop_ins_def)
  have rk_eq: "rk = resolve_key ?pinv (surviving_files (drop_ins ?pinv)) key" by (rule resolved_key [OF rk(1)])
  have "plain_source read key (fst e) \<and> key \<notin> flagged (parsed_source read e)" if e: "e \<in> set ?es" for e
  proof -
    have "fst e \<in> set (effective_sources listDir)" using e unfolding effective_sources_def set_map by (rule imageI)
    then have p: "plain_source read key (fst e)" using assms(5) by blast
    then have "fo_ReadErr (parsed_source read e) = None"
      using parsed_identity [of "fst e" "fst (snd e)" "snd (snd e)" False "read (fst e)"]
      by (auto simp: plain_source_def parsed_source_def file_identity_def case_prod_unfold split: sum.splits)
    moreover have "parsed_source read e \<in> set (surviving_files (drop_ins ?pinv))" using e eff by simp
    ultimately show ?thesis using certain_unflagged [OF rk(2) [unfolded rk_eq]] p by blast
  qed
  then have "fold apply_file (map (parsed_source read) ?es) (\<lambda>_. None) key = boot_plane read listDir key"
    unfolding boot_plane_def boot_text_def effective_sources_def by (intro apply_sources_text assms(4)) auto
  moreover have "map_option w_Value (rk_Winner rk) = boot_values ?pinv key"
    using winner_is_boot_value [OF ok, of key] rk_eq by (simp add: resolve_key_def Let_def)
  ultimately show ?thesis
    using rk(1) eff surviving_effective [of "drop_ins ?pinv"] ok
    by (simp add: resolved_plane_def boot_values_def inventory_ok_def drop_ins_def)
qed


lemma certain_conf_text:
  assumes "\<not> rk_uncertain (resolve_key (ReadPersistenceSources read listDir) fs key)" and "isRelevantKey key"
    and "read SysctlConfPath = Inl ReadNotExist \<or> (\<forall>d. read SysctlConfPath = Inr d \<longrightarrow> plain_source read key SysctlConfPath)"
  shows "read SysctlConfPath = Inl ReadNotExist
    \<or> (\<exists>d. read SysctlConfPath = Inr d \<and> (\<forall>raw \<in> set (Split (CHR 0x0A) d). \<not> line_touches raw key))"
proof (cases "read SysctlConfPath = Inl ReadNotExist")
  case False
  let ?pinv = "ReadPersistenceSources read listDir"
  let ?f = "parseSysctlFile SysctlConfPath ''sysctl.conf'' (-1) True (read SysctlConfPath)"
  have id: "fo_IsSysctlConf ?f" "fo_ReadErr ?f = (case read SysctlConfPath of Inl e \<Rightarrow> Some e | Inr _ \<Rightarrow> None)"
    using parsed_identity [of SysctlConfPath "''sysctl.conf''" "-1" True "read SysctlConfPath"]
    by (auto simp: file_identity_def split: sum.splits)
  have f: "?f \<in> set (inv_Files ?pinv)" using False by (simp add: ReadPersistenceSources_def Let_def)
  have un: "conf_unsupported ?pinv key = []" using assms(1) by (simp add: rk_uncertain_def resolve_key_def Let_def)
  note conf = certain_conf [OF assms(1) f id(1)]
  then obtain d where d: "read SysctlConfPath = Inr d" using id(2) by (cases "read SysctlConfPath") auto
  have nf: "key \<notin> flagged ?f" using un f id(1) conf by (auto simp: conf_unsupported_def conf_files_def flagged_def filter_empty_conv)
  have "\<forall>raw \<in> set (Split (CHR 0x0A) d). \<not> blind_line raw key" using assms(3) d by (auto simp: plain_source_def list_all_iff)
  from parsed_file_text [OF nf [unfolded d] assms(2) this]
  have "assigned ?f key = None \<longrightarrow> file_text key d = None" by (simp add: d)
  moreover have "assigned ?f key = None" using conf by (simp add: assigned_def find_None_iff)
  ultimately have t: "file_text key d = None" by blast
  have "fold (line_step key) ls None = None \<Longrightarrow> raw \<in> set ls \<Longrightarrow> \<not> line_touches raw key" for ls raw
    by (induction ls) (auto simp: line_step_touch line_step_fold [of key _ "Some _"] split: if_splits option.splits)
  with t d show ?thesis unfolding file_text_def by blast
qed simp

lemma check_policy_relevant: "check_policy ps seen = None \<Longrightarrow> p \<in> set ps \<Longrightarrow> isRelevantKey (pr_Key p)"
  by (induction ps seen rule: check_policy.induct) (auto simp: isRelevantKey_def split: if_splits)

lemma policy_keys_relevant: "isRelevantKey key \<Longrightarrow> k \<in> set (policy_keys key) \<Longrightarrow> isRelevantKey k"
proof -
  have "isRelevantKey allRPKey" by code_simp
  then show "isRelevantKey key \<Longrightarrow> k \<in> set (policy_keys key) \<Longrightarrow> isRelevantKey k"
    by (auto simp: policy_keys_def split: if_splits)
qed

lemma EvaluatePolicy_satisfied:
  assumes "EvaluatePolicy policy runtime res = Inr ev" and "ev_RequiredState ev = DimensionSatisfied"
    and "p \<in> set policy" and "pr_Required p"
  shows "\<exists>rt k. runtime_by_key runtime (\<lambda>_. None) = Inr rt \<and> evaluate_key p rt res = Inr k \<and> combined k = DimensionSatisfied"
proof -
  obtain rt ks worst where rt: "runtime_by_key runtime (\<lambda>_. None) = Inr rt"
    and ks: "evaluate_keys rt res policy [] DimensionSatisfied = Inr (ks, worst)" and "ev_RequiredState ev = worst"
    using assms(1) by (auto simp: EvaluatePolicy_def Let_def split: option.splits sum.splits)
  then show ?thesis using evaluate_keys_satisfied [of rt res policy "[]" DimensionSatisfied ks] assms(2-4) by auto
qed


subsection \<open>Concrete inventories\<close>

definition ex_list :: ListDirFunc where
  "ex_list d = (if d = ''/etc/sysctl.d'' then Inr [''20-b.conf'', ''10-a.conf''] else Inl ReadNotExist)"

definition ex_read :: "(read_error, string) result \<Rightarrow> ReadFunc" where
  "ex_read later p = (if p = ''/etc/sysctl.d/10-a.conf''
       then Inr (''net.ipv4.ip_forward = 1'' @ [CHR 0x0A] @ ''net.ipv6.conf.wg0.disable_ipv6=1'')
     else if p = ''/etc/sysctl.d/20-b.conf'' then later else Inl ReadNotExist)"

definition ex_policy :: "PolicyRequirement list" where
  "ex_policy = [\<lparr>pr_Key = ''net.ipv4.ip_forward'', pr_Desired = 1, pr_Required = True\<rparr>,
     \<lparr>pr_Key = ''net.ipv6.conf.wg0.disable_ipv6'', pr_Desired = 1, pr_Required = True\<rparr>]"

definition ex_runtime :: "RuntimeObservation list" where
  "ex_runtime = [\<lparr>ro_Key = ''net.ipv4.ip_forward'', ro_Value = 1, ro_Status = RuntimePresent\<rparr>,
     \<lparr>ro_Key = ''net.ipv6.conf.wg0.disable_ipv6'', ro_Value = 1, ro_Status = RuntimePresent\<rparr>]"

definition ex_state :: "(read_error, string) result \<Rightarrow> DimensionStatus option" where
  "ex_state later =
     (case EvaluatePolicy ex_policy ex_runtime (Resolve (ReadPersistenceSources (ex_read later) ex_list)) of
        Inr ev \<Rightarrow> Some (ev_RequiredState ev) | Inl _ \<Rightarrow> None)"

lemma ex_plain: "plain_listing ex_list"
  by (auto simp: plain_listing_def sourceDirRanks_def ex_list_def plain_comp_def)

text \<open>A later file is seen when it contradicts the policy, and when it is read without touching it.\<close>

lemma ex_states:
  "ex_state (Inr ''# nothing'') = Some DimensionSatisfied"
  "ex_state (Inr ''net.ipv4.ip_forward = 0'') = Some DimensionViolated"
  "ex_state (Inr ''net.ipv4.* = 0'') = Some DimensionUnknown"
  by code_simp+

text \<open>
  An effective file that cannot be read could assign every key after all others, and is named among the reasons, but
  no flag of the resolution is set for it: the policy is still reported as satisfied.
\<close>

lemma unreadable_source_satisfied: "ex_state (Inl ReadPermission) = Some DimensionSatisfied"
  by code_simp

text \<open>
  The candidates of a glob contain one representative interface, so a pattern that names the interface of the policy, or
  a common pattern for a key of another interface, leaves the policy satisfied.
\<close>

lemma scoped_glob_satisfied:
  "ex_state (Inr ''net.ipv6.conf.w*.disable_ipv6 = 0'') = Some DimensionSatisfied"
  "ex_state (Inr ''net.ipv6.conf.*.disable_ipv6 = 0'') = Some DimensionSatisfied"
  by code_simp+

text \<open>A key with a leading dash in the form with slashes is dropped without a trace.\<close>

lemma dashed_slash_satisfied: "ex_state (Inr ''-net/ipv4/ip_forward = 0'') = Some DimensionSatisfied"
  by code_simp

text \<open>Patterns with slashes, and patterns after a dash, touch the keys of the policy and leave it satisfied as well.\<close>

lemma slash_glob_satisfied:
  "ex_state (Inr ''net/ipv4/* = 0'') = Some DimensionSatisfied"
  "ex_state (Inr ''-net.ipv4.* = 0'') = Some DimensionSatisfied"
  by code_simp+

lemma resolution_boot_value_witness:
  "\<exists>rk. map_of (res_Keys (Resolve (ReadPersistenceSources (ex_read (Inr ''net.ipv4.ip_forward = 0'')) ex_list)))
      ''net.ipv4.ip_forward'' = Some rk \<and>
    map_option w_Value (rk_Winner rk) =
      boot_values (ReadPersistenceSources (ex_read (Inr ''net.ipv4.ip_forward = 0'')) ex_list) ''net.ipv4.ip_forward''"
proof -
  let ?r = "Resolve (ReadPersistenceSources (ex_read (Inr ''net.ipv4.ip_forward = 0'')) ex_list)"
  have "map_of (res_Keys ?r) ''net.ipv4.ip_forward'' \<noteq> None" by code_simp
  then obtain rk where "map_of (res_Keys ?r) ''net.ipv4.ip_forward'' = Some rk" by auto
  with resolution_boot_value [OF ex_plain this] show ?thesis by blast
qed


end
