(* ===== verification/IPTables_Rules.thy ===== *)
theory IPTables_Rules
  imports Identity Text "HOL-Library.List_Lexorder" "HOL-Library.Char_ord"
begin

text \<open>
  \<open>discovery/firewall_rules.go\<close> and its types in \<open>discovery/model.go\<close>: the bounded grammar over the listing of
  \<open>iptables -S\<close>. Lines are split into fields under double quotes; policies and chain declarations become chain
  metadata, rule lines become ordered rules of their chain. A rule is supported only if every token of it belongs
  to the grammar, otherwise it is kept verbatim with a typed reason. Text is a sequence of ASCII characters.
\<close>

subsection \<open>The types (model.go)\<close>

datatype rule_refusal =
    MalformedPolicy | MalformedChain | MalformedRule | OutsideListing
  | NoValue string | PortRange | MatchModule string | TcpFlagsShape string string | TcpMssNoOption | TcpMssOption string
  | TargetUnmodeled string | Negation | SetMss | MarkMangling | Unrecognized string

record IPTablesRuleSpec =
  rs_Protocol :: string
  rs_Source :: string
  rs_Destination :: string
  rs_InInterface :: string
  rs_OutInterface :: string
  rs_SourcePort :: string
  rs_DestinationPort :: string
  rs_CtStates :: "string list"
  rs_MarkValue :: string
  rs_MarkMask :: string
  rs_Comment :: string
  rs_Verdict :: string
  rs_RejectWith :: string
  rs_Jump :: string
  rs_Goto :: string
  rs_MSSClampToPMTU :: bool
  rs_TCPFlagsMask :: string
  rs_TCPFlagsComp :: string

record IPTablesRule =
  ir_Raw :: string
  ir_Supported :: bool
  ir_UnsupportedReason :: "rule_refusal option"
  ir_Spec :: "IPTablesRuleSpec option"

record IPTablesChain =
  ic_Name :: string
  ic_Policy :: string
  ic_UserDefined :: bool
  ic_Rules :: "IPTablesRule list"

record IPTablesRuleInventory =
  iv_Status :: FieldStatus
  iv_Table :: string
  iv_Chains :: "IPTablesChain list"

record Firewall =
  fw_IPTablesRules :: IPTablesRuleInventory
  fw_IPTablesMangleRules :: IPTablesRuleInventory

definition empty_spec :: IPTablesRuleSpec where
  "empty_spec = \<lparr>rs_Protocol = '''', rs_Source = '''', rs_Destination = '''', rs_InInterface = '''', rs_OutInterface = '''',
     rs_SourcePort = '''', rs_DestinationPort = '''', rs_CtStates = [], rs_MarkValue = '''', rs_MarkMask = '''',
     rs_Comment = '''', rs_Verdict = '''', rs_RejectWith = '''', rs_Jump = '''', rs_Goto = '''', rs_MSSClampToPMTU = False,
     rs_TCPFlagsMask = '''', rs_TCPFlagsComp = ''''\<rparr>"

subsection \<open>Fields of a line\<close>

abbreviation dquote :: char where "dquote \<equiv> CHR 0x22"
abbreviation newline :: char where "newline \<equiv> CHR 0x0A"

definition blank :: "char \<Rightarrow> bool" where
  "blank c \<longleftrightarrow> c = CHR '' '' \<or> c = CHR 0x09"

text \<open>The loop of \<open>quoteAwareFields\<close> with its variables \<open>cur\<close>, \<open>inQuote\<close> and \<open>started\<close>.\<close>

fun quote_loop :: "string \<Rightarrow> bool \<Rightarrow> bool \<Rightarrow> string \<Rightarrow> string list" where
  "quote_loop cur inQuote started [] = (if started \<or> cur \<noteq> '''' then [cur] else [])"
| "quote_loop cur inQuote started (c # s) =
     (if c = dquote then quote_loop cur (\<not> inQuote) True s
      else if blank c then
        (if inQuote then quote_loop (cur @ [c]) inQuote started s
         else if started \<or> cur \<noteq> '''' then cur # quote_loop '''' inQuote False s
         else quote_loop cur inQuote started s)
      else quote_loop (cur @ [c]) inQuote True s)"

definition quoteAwareFields :: "string \<Rightarrow> string list" where
  "quoteAwareFields line = quote_loop '''' False False line"

subsection \<open>One rule\<close>

text \<open>A token that takes a value: without one the rule is unsupported.\<close>

definition with_value ::
  "string \<Rightarrow> string list \<Rightarrow> (string \<Rightarrow> string list \<Rightarrow> rule_refusal + (string list \<times> IPTablesRuleSpec)) \<Rightarrow>
   rule_refusal + (string list \<times> IPTablesRuleSpec)" where
  "with_value what f k = (case f of [] \<Rightarrow> Inl (NoValue what) | v # f' \<Rightarrow> k v f')"

definition mark_parts :: "string \<Rightarrow> string \<times> string" where
  "mark_parts v = (if CHR ''/'' \<in> set v
     then (takeWhile (\<lambda>c. c \<noteq> CHR ''/'') v, tl (dropWhile (\<lambda>c. c \<noteq> CHR ''/'') v)) else (v, ''''))"

definition tcp_flags_token :: "string list \<Rightarrow> IPTablesRuleSpec \<Rightarrow> rule_refusal + (string list \<times> IPTablesRuleSpec)" where
  "tcp_flags_token f spec =
     with_value ''tcp-flags mask'' f (\<lambda>m f1. with_value ''tcp-flags compare list'' f1 (\<lambda>c f2.
       if m \<noteq> ''SYN,RST'' \<or> c \<noteq> ''SYN'' then Inl (TcpFlagsShape m c)
       else Inr (f2, spec\<lparr>rs_TCPFlagsMask := m, rs_TCPFlagsComp := c\<rparr>)))"

definition jump_token :: "string list \<Rightarrow> IPTablesRuleSpec \<Rightarrow> rule_refusal + (string list \<times> IPTablesRuleSpec)" where
  "jump_token f spec =
     with_value ''jump'' f (\<lambda>t f1.
       if t \<in> {''ACCEPT'', ''DROP'', ''RETURN'', ''REJECT''} then Inr (f1, spec\<lparr>rs_Verdict := t\<rparr>)
       else if t = ''TCPMSS'' then
         (case f1 of
            [] \<Rightarrow> Inl TcpMssNoOption
          | opt # f2 \<Rightarrow> if opt \<noteq> ''--clamp-mss-to-pmtu'' then Inl (TcpMssOption opt) else Inr (f2, spec\<lparr>rs_MSSClampToPMTU := True\<rparr>))
       else if t \<in> {''MASQUERADE'', ''SNAT'', ''DNAT'', ''REDIRECT'', ''MARK'', ''LOG''} then Inl (TargetUnmodeled t)
       else Inr (f1, spec\<lparr>rs_Jump := t\<rparr>))"

text \<open>One iteration of the token loop: the remaining tokens and the specification after the token.\<close>

definition take_token ::
  "string \<Rightarrow> string list \<Rightarrow> IPTablesRuleSpec \<Rightarrow> rule_refusal + (string list \<times> IPTablesRuleSpec)" where
  "take_token tok f spec =
     (if tok \<in> {''-p'', ''--protocol''} then with_value ''protocol'' f (\<lambda>v f'. Inr (f', spec\<lparr>rs_Protocol := v\<rparr>))
      else if tok \<in> {''-s'', ''--source'', ''--src''} then with_value ''source'' f (\<lambda>v f'. Inr (f', spec\<lparr>rs_Source := v\<rparr>))
      else if tok \<in> {''-d'', ''--destination'', ''--dst''} then with_value ''destination'' f (\<lambda>v f'. Inr (f', spec\<lparr>rs_Destination := v\<rparr>))
      else if tok \<in> {''-i'', ''--in-interface''} then with_value ''input interface'' f (\<lambda>v f'. Inr (f', spec\<lparr>rs_InInterface := v\<rparr>))
      else if tok \<in> {''-o'', ''--out-interface''} then with_value ''output interface'' f (\<lambda>v f'. Inr (f', spec\<lparr>rs_OutInterface := v\<rparr>))
      else if tok \<in> {''--dport'', ''--destination-port'', ''--sport'', ''--source-port''} then
        with_value ''port'' f (\<lambda>v f'.
          if CHR '':'' \<in> set v then Inl PortRange
          else if tok = ''--dport'' \<or> tok = ''--destination-port'' then Inr (f', spec\<lparr>rs_DestinationPort := v\<rparr>)
          else Inr (f', spec\<lparr>rs_SourcePort := v\<rparr>))
      else if tok \<in> {''-m'', ''--match''} then
        with_value ''match module'' f (\<lambda>v f'.
          if v \<in> {''tcp'', ''udp'', ''conntrack'', ''mark'', ''comment''} then Inr (f', spec) else Inl (MatchModule v))
      else if tok = ''--tcp-flags'' then tcp_flags_token f spec
      else if tok = ''--ctstate'' then
        with_value ''ctstate'' f (\<lambda>v f'. Inr (f', spec\<lparr>rs_CtStates := sort (map TrimSpace (Split (CHR '','') v))\<rparr>))
      else if tok = ''--mark'' then
        with_value ''mark'' f (\<lambda>v f'.
          if CHR ''/'' \<in> set v
          then Inr (f', spec\<lparr>rs_MarkValue := fst (mark_parts v), rs_MarkMask := snd (mark_parts v)\<rparr>)
          else Inr (f', spec\<lparr>rs_MarkValue := v\<rparr>))
      else if tok = ''--comment'' then with_value ''comment'' f (\<lambda>v f'. Inr (f', spec\<lparr>rs_Comment := v\<rparr>))
      else if tok \<in> {''-j'', ''--jump''} then jump_token f spec
      else if tok = ''--reject-with'' then with_value ''reject-with'' f (\<lambda>v f'. Inr (f', spec\<lparr>rs_RejectWith := v\<rparr>))
      else if tok \<in> {''-g'', ''--goto''} then with_value ''goto'' f (\<lambda>v f'. Inr (f', spec\<lparr>rs_Goto := v\<rparr>))
      else if tok = ''!'' then Inl Negation
      else if tok = ''--set-mss'' then Inl SetMss
      else if tok \<in> {''--set-xmark'', ''--set-mark''} then Inl MarkMangling
      else Inl (Unrecognized tok))"

lemma if_elim: "(if b then x else y) = r \<Longrightarrow> (b \<Longrightarrow> x = r \<Longrightarrow> P) \<Longrightarrow> (\<not> b \<Longrightarrow> y = r \<Longrightarrow> P) \<Longrightarrow> P"
  by (simp split: if_splits)

lemma with_value_shorter:
  assumes "with_value what f k = Inr (f', spec')" and "\<And>v g. k v g = Inr (f', spec') \<Longrightarrow> length f' \<le> length g"
  shows "length f' < length f"
  using assms by (cases f) (auto simp: with_value_def intro: le_imp_less_Suc)

lemma take_token_shorter:
  assumes "take_token tok f spec = Inr (f', spec')"
  shows "length f' < length f"
proof -
  have flags: "length f' < length f" if "tcp_flags_token f spec = Inr (f', spec')"
    using that unfolding tcp_flags_token_def
    by (rule with_value_shorter) (auto dest!: with_value_shorter split: if_splits)
  have jump: "length f' < length f" if "jump_token f spec = Inr (f', spec')"
    using that unfolding jump_token_def
    by (rule with_value_shorter) (auto split: if_splits list.splits)
  show ?thesis
    using assms unfolding take_token_def
    by (elim if_elim) (((erule flags | erule jump | erule with_value_shorter, erule if_elim | erule with_value_shorter | erule if_elim); simp)+, simp_all)
qed

text \<open>The loop over the tokens; each token is consumed, so it ends.\<close>

function rule_tokens :: "string list \<Rightarrow> IPTablesRuleSpec \<Rightarrow> rule_refusal + IPTablesRuleSpec" where
  "rule_tokens [] spec = Inr spec"
| "rule_tokens (tok # f) spec =
     (case take_token tok f spec of Inl why \<Rightarrow> Inl why | Inr (f', spec') \<Rightarrow> rule_tokens f' spec')"
  by pat_completeness auto
termination
  by (relation "measure (\<lambda>(f, spec). length f)") (auto dest: take_token_shorter)

definition unsupported_rule :: "string \<Rightarrow> rule_refusal \<Rightarrow> IPTablesRule" where
  "unsupported_rule raw why = \<lparr>ir_Raw = raw, ir_Supported = False, ir_UnsupportedReason = Some why, ir_Spec = None\<rparr>"

definition parseIPTablesRuleSpec :: "string \<Rightarrow> string list \<Rightarrow> IPTablesRule" where
  "parseIPTablesRuleSpec raw f =
     (case rule_tokens f empty_spec of
        Inl why \<Rightarrow> unsupported_rule raw why
      | Inr spec \<Rightarrow> \<lparr>ir_Raw = raw, ir_Supported = True, ir_UnsupportedReason = None, ir_Spec = Some spec\<rparr>)"

subsection \<open>A listing\<close>

text \<open>The closure \<open>chain\<close>: the entry of a name, created at the end when it is new, and then changed.\<close>

fun on_chain :: "string \<Rightarrow> (IPTablesChain \<Rightarrow> IPTablesChain) \<Rightarrow> IPTablesChain list \<Rightarrow> IPTablesChain list" where
  "on_chain name g [] = [g \<lparr>ic_Name = name, ic_Policy = '''', ic_UserDefined = False, ic_Rules = []\<rparr>]"
| "on_chain name g (c # cs) = (if ic_Name c = name then g c # cs else c # on_chain name g cs)"

definition add_rule :: "IPTablesRule \<Rightarrow> IPTablesChain \<Rightarrow> IPTablesChain" where
  "add_rule r c = c\<lparr>ic_Rules := ic_Rules c @ [r]\<rparr>"

definition TrimRightCR :: "string \<Rightarrow> string" where
  "TrimRightCR s = rev (dropWhile (\<lambda>c. c = CHR 0x0D) (rev s))"

definition parse_fields :: "string \<Rightarrow> string list \<Rightarrow> IPTablesChain list \<Rightarrow> IPTablesChain list" where
  "parse_fields line f cs =
     (if hd f = ''-P'' then
        (if length f \<noteq> 3 then on_chain '''' (add_rule (unsupported_rule line MalformedPolicy)) cs
         else on_chain (f ! 1) (ic_Policy_update (\<lambda>_. f ! 2)) cs)
      else if hd f = ''-N'' then
        (if length f \<noteq> 2 then on_chain '''' (add_rule (unsupported_rule line MalformedChain)) cs
         else on_chain (f ! 1) (ic_UserDefined_update (\<lambda>_. True)) cs)
      else if hd f = ''-A'' then
        (if length f < 2 then on_chain '''' (add_rule (unsupported_rule line MalformedRule)) cs
         else on_chain (f ! 1) (add_rule (parseIPTablesRuleSpec line (drop 2 f))) cs)
      else on_chain '''' (add_rule (unsupported_rule line OutsideListing)) cs)"

definition parse_line :: "string \<Rightarrow> IPTablesChain list \<Rightarrow> IPTablesChain list" where
  "parse_line raw cs =
     (let line = TrimRightCR raw in
      if TrimSpace line = '''' then cs else parse_fields line (quoteAwareFields line) cs)"

definition parseIPTablesRules :: "string \<Rightarrow> IPTablesChain list" where
  "parseIPTablesRules out = fold parse_line (Split newline out) []"


text \<open>The rules of every entry of a name, the loop with which the consumers of an inventory read a chain.\<close>

definition rules_of :: "string \<Rightarrow> IPTablesChain list \<Rightarrow> IPTablesRule list" where
  "rules_of name cs = concat (map ic_Rules (filter (\<lambda>c. ic_Name c = name) cs))"

subsection \<open>Fields\<close>

lemma quote_loop_nonempty: "started \<or> cur \<noteq> '''' \<or> (\<exists>c \<in> set s. \<not> blank c) \<Longrightarrow> quote_loop cur inQuote started s \<noteq> []"
  by (induction cur inQuote started s rule: quote_loop.induct) auto

lemma not_space_not_blank: "\<not> is_space c \<Longrightarrow> \<not> blank c"
  by (auto simp: blank_def is_space_def)

text \<open>A line that is not blank has a first field, so the access \<open>f[0]\<close> never fails.\<close>

lemma quoteAwareFields_nonempty: "TrimSpace line \<noteq> '''' \<Longrightarrow> quoteAwareFields line \<noteq> []"
  unfolding TrimSpace_nonempty quoteAwareFields_def
  by (rule quote_loop_nonempty) (meson not_space_not_blank)

definition plain_word :: "string \<Rightarrow> bool" where
  "plain_word w \<longleftrightarrow> w \<noteq> '''' \<and> (\<forall>c \<in> set w. \<not> is_space c \<and> c \<noteq> dquote)"



lemma quote_loop_word:
  "(\<forall>c \<in> set w. \<not> is_space c \<and> c \<noteq> dquote) \<Longrightarrow>
   quote_loop cur False started (w @ s) = quote_loop (cur @ w) False (started \<or> w \<noteq> '''') s"
  by (induction w arbitrary: cur started) (auto simp: not_space_not_blank)

lemma quoteAwareFields_JoinWith:
  "(\<forall>w \<in> set ws. plain_word w) \<Longrightarrow> quoteAwareFields (JoinWith (CHR '' '') ws) = ws"
  unfolding quoteAwareFields_def
proof (induction "CHR '' ''" ws rule: JoinWith.induct)
  case (2 w)
  then show ?case using quote_loop_word [of w "''''" False "''''"] by (simp add: plain_word_def)
next
  case (3 w v vs)
  have b: "blank (CHR '' '')" "CHR '' '' \<noteq> dquote" by (simp_all add: blank_def)
  from 3 show ?case
    using quote_loop_word [of w "''''" False "CHR '' '' # JoinWith (CHR '' '') (v # vs)"] by (simp add: plain_word_def b)
qed simp

subsection \<open>The rules of a listing\<close>

text \<open>The chain a line belongs to and the rule it stands for; policies, declarations and blank lines have none.\<close>

definition line_rule :: "string \<Rightarrow> (string \<times> IPTablesRule) option" where
  "line_rule raw =
     (let line = TrimRightCR raw; f = quoteAwareFields line in
      if TrimSpace line = '''' then None
      else if hd f = ''-P'' then (if length f = 3 then None else Some ('''', unsupported_rule line MalformedPolicy))
      else if hd f = ''-N'' then (if length f = 2 then None else Some ('''', unsupported_rule line MalformedChain))
      else if hd f = ''-A'' then
        Some (if length f < 2 then ('''', unsupported_rule line MalformedRule) else (f ! 1, parseIPTablesRuleSpec line (drop 2 f)))
      else Some ('''', unsupported_rule line OutsideListing))"

definition line_rules :: "string \<Rightarrow> string \<Rightarrow> IPTablesRule list" where
  "line_rules name raw = (case line_rule raw of None \<Rightarrow> [] | Some (n, r) \<Rightarrow> if n = name then [r] else [])"

text \<open>Changes of one chain keep the names of the others and leave the names distinct.\<close>

lemma on_chain_names:
  assumes "\<And>c. ic_Name (g c) = ic_Name c"
  shows "map ic_Name (on_chain n g cs) = (if n \<in> ic_Name ` set cs then map ic_Name cs else map ic_Name cs @ [n])"
  by (induction cs) (auto simp: assms)

lemma on_chain_distinct:
  assumes "\<And>c. ic_Name (g c) = ic_Name c" and "distinct (map ic_Name cs)"
  shows "distinct (map ic_Name (on_chain n g cs))"
  using assms(2) by (simp add: on_chain_names [OF assms(1)])

lemma rules_of_absent: "name \<notin> ic_Name ` set cs \<Longrightarrow> rules_of name cs = []"
  by (auto simp: rules_of_def filter_empty_conv)

lemma rules_of_Cons: "rules_of name (c # cs) = (if ic_Name c = name then ic_Rules c else []) @ rules_of name cs"
  by (simp add: rules_of_def)

lemma rules_of_on_chain:
  assumes "\<And>c. ic_Name (g c) = ic_Name c" and "\<And>c. ic_Rules (g c) = ic_Rules c @ rs" and "distinct (map ic_Name cs)"
  shows "rules_of name (on_chain n g cs) = rules_of name cs @ (if n = name then rs else [])"
  using assms(3)
proof (induction cs)
  case Nil
  then show ?case by (simp add: rules_of_def assms(1,2))
next
  case (Cons c cs)
  then show ?case
    by (cases "ic_Name c = n") (auto simp: rules_of_Cons assms(1,2) rules_of_absent)
qed

lemmas chain_updates = add_rule_def

lemma parse_line_distinct: "distinct (map ic_Name cs) \<Longrightarrow> distinct (map ic_Name (parse_line raw cs))"
  by (auto simp: parse_line_def parse_fields_def Let_def chain_updates intro!: on_chain_distinct)

lemma parse_line_rules:
  assumes "distinct (map ic_Name cs)"
  shows "rules_of name (parse_line raw cs) = rules_of name cs @ line_rules name raw"
proof -
  note one = rules_of_on_chain [OF _ _ assms]
  have add: "rules_of name (on_chain n (add_rule r) cs) = rules_of name cs @ (if n = name then [r] else [])" for n r
    by (rule one) (simp_all add: add_rule_def)
  have keep: "rules_of name (on_chain n (ic_Policy_update g) cs) = rules_of name cs"
    "rules_of name (on_chain n (ic_UserDefined_update h) cs) = rules_of name cs" for n g h
    using one [of "ic_Policy_update g" "[]" name n] one [of "ic_UserDefined_update h" "[]" name n] by simp_all
  show ?thesis
    by (simp add: parse_line_def parse_fields_def line_rules_def line_rule_def Let_def add keep)
qed

lemma parse_lines:
  "distinct (map ic_Name cs) \<Longrightarrow>
   distinct (map ic_Name (fold parse_line ls cs)) \<and>
   rules_of name (fold parse_line ls cs) = rules_of name cs @ concat (map (line_rules name) ls)"
  by (induction ls arbitrary: cs) (simp_all add: parse_line_distinct parse_line_rules)

lemma parse_listing:
  "distinct (map ic_Name (parseIPTablesRules out))"
  "rules_of name (parseIPTablesRules out) = concat (map (line_rules name) (Split newline out))"
  using parse_lines [of "[]" "Split newline out" name] by (simp_all add: parseIPTablesRules_def rules_of_def)

text \<open>
  Nothing of a listing is dropped or reordered. For every text: the chains of the inventory have distinct names,
  and the rules of each name are exactly the rules of its rule lines, in the order of the lines and with their
  multiplicity; what fits no form of line is kept as an unsupported rule of the unnamed chain, with the line itself.
\<close>

lemma listing_retained:
  "distinct (map ic_Name (parseIPTablesRules out)) \<and>
   rules_of name (parseIPTablesRules out) = concat (map (line_rules name) (Split newline out)) \<and>
   list_all (\<lambda>line. TrimSpace (TrimRightCR line) = '''' \<or> hd (quoteAwareFields (TrimRightCR line)) \<in> {''-P'', ''-N''} \<or>
     (case line_rule line of None \<Rightarrow> False | Some (n, r) \<Rightarrow> ir_Raw r = TrimRightCR line)) (Split newline out)"
proof -
  have "TrimSpace (TrimRightCR line) = '''' \<or> hd (quoteAwareFields (TrimRightCR line)) \<in> {''-P'', ''-N''} \<or>
     (case line_rule line of None \<Rightarrow> False | Some (n, r) \<Rightarrow> ir_Raw r = TrimRightCR line)" for line
    by (auto simp: line_rule_def Let_def unsupported_rule_def parseIPTablesRuleSpec_def split: sum.splits)
  then show ?thesis by (simp add: parse_listing list_all_iff)
qed

subsection \<open>The grammar of a rule\<close>

text \<open>The clauses of the bounded grammar with what they set; a supported rule is a sequence of clauses.\<close>

inductive clause :: "string list \<Rightarrow> IPTablesRuleSpec \<Rightarrow> IPTablesRuleSpec \<Rightarrow> bool" where
  protocol: "t \<in> {''-p'', ''--protocol''} \<Longrightarrow> clause [t, v] s (s\<lparr>rs_Protocol := v\<rparr>)"
| source: "t \<in> {''-s'', ''--source'', ''--src''} \<Longrightarrow> clause [t, v] s (s\<lparr>rs_Source := v\<rparr>)"
| destination: "t \<in> {''-d'', ''--destination'', ''--dst''} \<Longrightarrow> clause [t, v] s (s\<lparr>rs_Destination := v\<rparr>)"
| in_interface: "t \<in> {''-i'', ''--in-interface''} \<Longrightarrow> clause [t, v] s (s\<lparr>rs_InInterface := v\<rparr>)"
| out_interface: "t \<in> {''-o'', ''--out-interface''} \<Longrightarrow> clause [t, v] s (s\<lparr>rs_OutInterface := v\<rparr>)"
| destination_port: "t \<in> {''--dport'', ''--destination-port''} \<Longrightarrow> CHR '':'' \<notin> set v \<Longrightarrow> clause [t, v] s (s\<lparr>rs_DestinationPort := v\<rparr>)"
| source_port: "t \<in> {''--sport'', ''--source-port''} \<Longrightarrow> CHR '':'' \<notin> set v \<Longrightarrow> clause [t, v] s (s\<lparr>rs_SourcePort := v\<rparr>)"
| match: "t \<in> {''-m'', ''--match''} \<Longrightarrow> v \<in> {''tcp'', ''udp'', ''conntrack'', ''mark'', ''comment''} \<Longrightarrow> clause [t, v] s s"
| tcp_flags: "clause [''--tcp-flags'', ''SYN,RST'', ''SYN''] s (s\<lparr>rs_TCPFlagsMask := ''SYN,RST'', rs_TCPFlagsComp := ''SYN''\<rparr>)"
| ctstate: "clause [''--ctstate'', v] s (s\<lparr>rs_CtStates := sort (map TrimSpace (Split (CHR '','') v))\<rparr>)"
| mark: "CHR ''/'' \<notin> set v \<Longrightarrow> clause [''--mark'', v] s (s\<lparr>rs_MarkValue := v\<rparr>)"
| masked_mark: "CHR ''/'' \<notin> set v \<Longrightarrow> clause [''--mark'', v @ ''/'' @ m] s (s\<lparr>rs_MarkValue := v, rs_MarkMask := m\<rparr>)"
| comment: "clause [''--comment'', v] s (s\<lparr>rs_Comment := v\<rparr>)"
| verdict: "t \<in> {''-j'', ''--jump''} \<Longrightarrow> v \<in> {''ACCEPT'', ''DROP'', ''RETURN'', ''REJECT''} \<Longrightarrow> clause [t, v] s (s\<lparr>rs_Verdict := v\<rparr>)"
| clamp: "t \<in> {''-j'', ''--jump''} \<Longrightarrow> clause [t, ''TCPMSS'', ''--clamp-mss-to-pmtu''] s (s\<lparr>rs_MSSClampToPMTU := True\<rparr>)"
| jump: "t \<in> {''-j'', ''--jump''} \<Longrightarrow>
    v \<notin> {''ACCEPT'', ''DROP'', ''RETURN'', ''REJECT'', ''TCPMSS'', ''MASQUERADE'', ''SNAT'', ''DNAT'', ''REDIRECT'', ''MARK'', ''LOG''} \<Longrightarrow>
    clause [t, v] s (s\<lparr>rs_Jump := v\<rparr>)"
| reject_with: "clause [''--reject-with'', v] s (s\<lparr>rs_RejectWith := v\<rparr>)"
| goto: "t \<in> {''-g'', ''--goto''} \<Longrightarrow> clause [t, v] s (s\<lparr>rs_Goto := v\<rparr>)"

inductive rule_grammar :: "string list \<Rightarrow> IPTablesRuleSpec \<Rightarrow> IPTablesRuleSpec \<Rightarrow> bool" where
  finish: "rule_grammar [] s s"
| step: "clause ts s s1 \<Longrightarrow> rule_grammar rest s1 s2 \<Longrightarrow> rule_grammar (ts @ rest) s s2"

lemma with_value_Inr: "with_value what f k = Inr r \<longleftrightarrow> (\<exists>v f'. f = v # f' \<and> k v f' = Inr r)"
  by (cases f) (simp_all add: with_value_def)

lemma mark_split: "CHR ''/'' \<notin> set v \<Longrightarrow> mark_parts (v @ ''/'' @ m) = (v, m)"
  by (induction v) (auto simp: mark_parts_def split: if_splits)

lemma mark_join: "CHR ''/'' \<in> set v \<Longrightarrow> \<exists>a b. v = a @ ''/'' @ b \<and> CHR ''/'' \<notin> set a \<and> mark_parts v = (a, b)"
proof -
  assume "CHR ''/'' \<in> set v"
  then obtain a b where v: "v = a @ CHR ''/'' # b" "CHR ''/'' \<notin> set a" by (metis split_list_first)
  then show ?thesis using mark_split [of a b] by (intro exI [of _ a] exI [of _ b]) simp
qed

text \<open>The tokens of the grammar, one by one.\<close>

lemma take_token_values:
  "t \<in> {''-p'', ''--protocol''} \<Longrightarrow> take_token t f s = with_value ''protocol'' f (\<lambda>v f'. Inr (f', s\<lparr>rs_Protocol := v\<rparr>))"
  "t \<in> {''-s'', ''--source'', ''--src''} \<Longrightarrow> take_token t f s = with_value ''source'' f (\<lambda>v f'. Inr (f', s\<lparr>rs_Source := v\<rparr>))"
  "t \<in> {''-d'', ''--destination'', ''--dst''} \<Longrightarrow> take_token t f s = with_value ''destination'' f (\<lambda>v f'. Inr (f', s\<lparr>rs_Destination := v\<rparr>))"
  "t \<in> {''-i'', ''--in-interface''} \<Longrightarrow> take_token t f s = with_value ''input interface'' f (\<lambda>v f'. Inr (f', s\<lparr>rs_InInterface := v\<rparr>))"
  "t \<in> {''-o'', ''--out-interface''} \<Longrightarrow> take_token t f s = with_value ''output interface'' f (\<lambda>v f'. Inr (f', s\<lparr>rs_OutInterface := v\<rparr>))"
  "t \<in> {''-m'', ''--match''} \<Longrightarrow> take_token t f s = with_value ''match module'' f (\<lambda>v f'.
     if v \<in> {''tcp'', ''udp'', ''conntrack'', ''mark'', ''comment''} then Inr (f', s) else Inl (MatchModule v))"
  "t \<in> {''-j'', ''--jump''} \<Longrightarrow> take_token t f s = jump_token f s"
  "t \<in> {''-g'', ''--goto''} \<Longrightarrow> take_token t f s = with_value ''goto'' f (\<lambda>v f'. Inr (f', s\<lparr>rs_Goto := v\<rparr>))"
  by (unfold take_token_def insert_iff empty_iff, elim disjE; simp_all)+

lemma take_token_single:
  "take_token ''--tcp-flags'' f s = tcp_flags_token f s"
  "take_token ''--comment'' f s = with_value ''comment'' f (\<lambda>v f'. Inr (f', s\<lparr>rs_Comment := v\<rparr>))"
  "take_token ''--reject-with'' f s = with_value ''reject-with'' f (\<lambda>v f'. Inr (f', s\<lparr>rs_RejectWith := v\<rparr>))"
  "take_token ''--ctstate'' f s =
     with_value ''ctstate'' f (\<lambda>v f'. Inr (f', s\<lparr>rs_CtStates := sort (map TrimSpace (Split (CHR '','') v))\<rparr>))"
  by (simp_all add: take_token_def)

lemma take_token_ports:
  "t \<in> {''--dport'', ''--destination-port''} \<Longrightarrow> take_token t f s =
     with_value ''port'' f (\<lambda>v f'. if CHR '':'' \<in> set v then Inl PortRange else Inr (f', s\<lparr>rs_DestinationPort := v\<rparr>))"
  "t \<in> {''--sport'', ''--source-port''} \<Longrightarrow> take_token t f s =
     with_value ''port'' f (\<lambda>v f'. if CHR '':'' \<in> set v then Inl PortRange else Inr (f', s\<lparr>rs_SourcePort := v\<rparr>))"
  by (unfold take_token_def insert_iff empty_iff, elim disjE FalseE; hypsubst; simp cong: if_cong)+

lemma take_token_mark:
  "take_token ''--mark'' f s = with_value ''mark'' f (\<lambda>v f'.
     if CHR ''/'' \<in> set v then Inr (f', s\<lparr>rs_MarkValue := fst (mark_parts v), rs_MarkMask := snd (mark_parts v)\<rparr>)
     else Inr (f', s\<lparr>rs_MarkValue := v\<rparr>))"
  by (simp add: take_token_def)

lemma clause_take: "clause ts s s' \<Longrightarrow> take_token (hd ts) (tl ts @ rest) s = Inr (rest, s') \<and> ts \<noteq> []"
proof (induction rule: clause.induct)
  case (masked_mark v m s)
  then show ?case using mark_split [OF masked_mark] by (simp add: take_token_mark with_value_def)
qed (simp_all only: list.sel take_token_values take_token_single take_token_ports take_token_mark with_value_def tcp_flags_token_def
  jump_token_def append.simps list.case, simp_all)

lemma value_elim:
  "with_value what f k = Inr r \<Longrightarrow> (\<And>v f1. f = v # f1 \<Longrightarrow> k v f1 = Inr r \<Longrightarrow> P) \<Longrightarrow> P"
  by (auto simp: with_value_Inr)

lemma Inr_pair: "(Inr (a, b) :: 'e + 'a \<times> 'b) = Inr (c, d) \<Longrightarrow> (c = a \<Longrightarrow> d = b \<Longrightarrow> P) \<Longrightarrow> P"
  by simp

lemma take_clause:
  assumes "take_token tok f s = Inr (f', s')"
  shows "\<exists>ts. tok # f = ts @ f' \<and> clause ts s s'"
proof -
  have two: ?thesis if "f = v # f1" "f' = f1" "clause [tok, v] s s'" for v f1
    using that by (intro exI [of _ "[tok, v]"]) simp
  have three: ?thesis if "f = v # w # f1" "f' = f1" "clause [tok, v, w] s s'" for v w f1
    using that by (intro exI [of _ "[tok, v, w]"]) simp
  have flags: ?thesis if "tok = ''--tcp-flags''" "tcp_flags_token f s = Inr (f', s')"
    using that by (auto simp: tcp_flags_token_def with_value_Inr split: if_splits intro!: three clause.tcp_flags)
  have jump: ?thesis if t: "tok \<in> {''-j'', ''--jump''}" and j: "jump_token f s = Inr (f', s')"
  proof -
    from j obtain v f1 where f: "f = v # f1" by (auto simp: jump_token_def with_value_Inr)
    from j [unfolded f jump_token_def with_value_def list.case] show ?thesis
    proof (elim if_elim)
      assume "v \<in> {''ACCEPT'', ''DROP'', ''RETURN'', ''REJECT''}" and "Inr (f1, s\<lparr>rs_Verdict := v\<rparr>) = Inr (f', s')"
      with t show ?thesis using clause.verdict [of tok v s] by (intro two [of v]) (simp_all only: f sum.inject prod.inject)
    next
      assume v: "v = ''TCPMSS''" and k: "(case f1 of [] \<Rightarrow> Inl TcpMssNoOption
        | opt # f2 \<Rightarrow> if opt \<noteq> ''--clamp-mss-to-pmtu'' then Inl (TcpMssOption opt) else Inr (f2, s\<lparr>rs_MSSClampToPMTU := True\<rparr>)) = Inr (f', s')"
      from k have "f1 = ''--clamp-mss-to-pmtu'' # f'" "s' = s\<lparr>rs_MSSClampToPMTU := True\<rparr>"
        by (cases f1, simp, simp split: if_splits)+
      with t show ?thesis using clause.clamp [of tok s] by (intro three [of v "''--clamp-mss-to-pmtu''"]) (simp_all only: f v)
    next
      assume "v \<notin> {''ACCEPT'', ''DROP'', ''RETURN'', ''REJECT''}" "v \<noteq> ''TCPMSS''"
        and "v \<notin> {''MASQUERADE'', ''SNAT'', ''DNAT'', ''REDIRECT'', ''MARK'', ''LOG''}" and k: "Inr (f1, s\<lparr>rs_Jump := v\<rparr>) = Inr (f', s')"
      then have "clause [tok, v] s (s\<lparr>rs_Jump := v\<rparr>)" using t by (intro clause.jump) simp_all
      with k show ?thesis by (intro two [of v]) (simp_all only: f sum.inject prod.inject)
    qed (simp_all only: sum.distinct)
  qed
  have masked: ?thesis if "tok = ''--mark''" "f = v # f1" "f' = f1" and slash: "CHR ''/'' \<in> set v"
    and "s' = s\<lparr>rs_MarkValue := fst (mark_parts v), rs_MarkMask := snd (mark_parts v)\<rparr>" for v f1
  proof -
    obtain a b where "v = a @ ''/'' @ b" "CHR ''/'' \<notin> set a" "mark_parts v = (a, b)"
      using mark_join [OF slash] by blast
    with that(1-3,5) clause.masked_mark [of a b s] show ?thesis by (intro two [of v f1]) simp_all
  qed
  show ?thesis
    using assms unfolding take_token_def
    by (elim if_elim value_elim Inr_pair)
      (erule (1) flags | erule (1) jump | (erule (4) masked)
        | (rule two, assumption, assumption, hypsubst, erule clause.intros)
        | (rule two, assumption, assumption, hypsubst, erule (1) clause.intros)
        | (rule two, assumption, assumption, hypsubst, rule clause.intros)
        | (rule two, assumption, assumption, hypsubst, simp, rule clause.intros, simp, simp?) | simp)+
qed

lemma rule_tokens_grammar: "rule_tokens f s = Inr s' \<Longrightarrow> rule_grammar f s s'"
proof (induction f s rule: rule_tokens.induct)
  case (1 spec)
  then show ?case by (simp add: rule_grammar.finish)
next
  case (2 tok f spec)
  from 2(2) obtain f1 s1 where one: "take_token tok f spec = Inr (f1, s1)" and more: "rule_tokens f1 s1 = Inr s'"
    by (auto split: sum.splits prod.splits)
  from take_clause [OF one] obtain ts where "tok # f = ts @ f1" "clause ts spec s1" by blast
  with 2(1) [OF one _ more] show ?case by (auto intro: rule_grammar.step)
qed

lemma grammar_rule_tokens: "rule_grammar f s s' \<Longrightarrow> rule_tokens f s = Inr s'"
proof (induction rule: rule_grammar.induct)
  case (step ts s s1 rest s2)
  from clause_take [OF step.hyps(1), of rest] obtain t more where "ts = t # more" "take_token t (more @ rest) s = Inr (rest, s1)"
    by (cases ts) auto
  with step.IH show ?case by simp
qed simp

text \<open>
  C34. The parser of a rule decides the bounded grammar. For every sequence of tokens: the rule is supported with a
  specification if and only if the sequence splits into clauses of the grammar, and the specification is what the
  clauses set, in their order, on the empty one. No token of a supported rule is ignored; everything else is kept
  as an unsupported rule without a specification.
\<close>

theorem rule_grammar_exact:
  "parseIPTablesRuleSpec raw f = \<lparr>ir_Raw = raw, ir_Supported = True, ir_UnsupportedReason = None, ir_Spec = Some spec\<rparr>
     \<longleftrightarrow> rule_grammar f empty_spec spec"
proof -
  have "parseIPTablesRuleSpec raw f = \<lparr>ir_Raw = raw, ir_Supported = True, ir_UnsupportedReason = None, ir_Spec = Some spec\<rparr>
     \<longleftrightarrow> rule_tokens f empty_spec = Inr spec"
    by (auto simp: parseIPTablesRuleSpec_def unsupported_rule_def split: sum.splits)
  also have "\<dots> \<longleftrightarrow> rule_grammar f empty_spec spec" using rule_tokens_grammar grammar_rule_tokens by blast
  finally show ?thesis .
qed

lemma supported_spec: "ir_Supported (parseIPTablesRuleSpec raw f) \<longleftrightarrow> (\<exists>spec. ir_Spec (parseIPTablesRuleSpec raw f) = Some spec)"
  by (simp add: parseIPTablesRuleSpec_def unsupported_rule_def split: sum.splits)

text \<open>
  The listing of \<open>iptables -S\<close> writes a double quote inside a comment as a backslash and a quote. The splitter does
  not know the escape: this comment contains a source selector, and the rule, which matches every source, is
  supported with that selector.
\<close>

definition ex_comment_line :: string where
  "ex_comment_line = ''-A FORWARD -m comment --comment '' @ [dquote] @ ''x'' @ [CHR 0x5C, dquote] @
     '' -s 10.0.0.0/8 --comment '' @ [CHR 0x5C, dquote] @ ''y'' @ [dquote] @ '' -j ACCEPT''"

lemma escaped_quote_splits_comment:
  "map (\<lambda>c. map (\<lambda>r. map_option (\<lambda>s. (rs_Source s, rs_Comment s)) (ir_Spec r)) (ic_Rules c)) (parseIPTablesRules ex_comment_line) =
     [[Some (''10.0.0.0/8'', [CHR 0x5C, CHR ''y''])]]"
proof -
  have lines: "Split newline ex_comment_line = [ex_comment_line]" by (rule Split_plain) (simp add: ex_comment_line_def)
  have line: "TrimRightCR ex_comment_line = ex_comment_line" by (simp add: TrimRightCR_def ex_comment_line_def)
  have words: "quoteAwareFields ex_comment_line = [''-A'', ''FORWARD'', ''-m'', ''comment'', ''--comment'', ''x'' @ [CHR 0x5C],
      ''-s'', ''10.0.0.0/8'', ''--comment'', [CHR 0x5C, CHR ''y''], ''-j'', ''ACCEPT'']"
    by (simp add: quoteAwareFields_def blank_def ex_comment_line_def)
  have "TrimSpace ex_comment_line \<noteq> ''''" unfolding TrimSpace_nonempty by (simp add: ex_comment_line_def is_space_def)
  then show ?thesis
    by (simp add: parseIPTablesRules_def lines parse_line_def line words parse_fields_def add_rule_def parseIPTablesRuleSpec_def
      take_token_values take_token_single with_value_def jump_token_def empty_spec_def)
qed

end
