(* ===== verification/MSS_Observe.thy ===== *)
theory MSS_Observe
  imports IPTables_Rules MSS_Spec Capability Ownership
begin

text \<open>
  \<open>internal/mssspec\<close>, the observing half: the projection of an observed rule to the semantic specification and its
  identity (\<open>mssspec.go\<close>), the observation of one coordinate in a mangle inventory (\<open>observe.go\<close>), the desired rule and
  the classification of the live state against it (\<open>desired.go\<close>). Reasons are values.
\<close>

subsection \<open>Projection and identity (mssspec.go)\<close>

definition ProjectRule :: "string \<Rightarrow> string \<Rightarrow> IPTablesRule \<Rightarrow> (mss_error, Spec) result" where
  "ProjectRule chain table r =
     (if \<not> ir_Supported r then Inl ErrRuleUnsupported
      else case ir_Spec r of
        None \<Rightarrow> Inl ErrRuleUnsupported
      | Some s \<Rightarrow>
          if \<not> rs_MSSClampToPMTU s then Inl ErrNotMSSRule
          else
            (let spec = \<lparr>ms_Backend = BackendIPTables, ms_Table = table, ms_Chain = chain, ms_Protocol = rs_Protocol s,
               ms_Source = rs_Source s, ms_Destination = rs_Destination s, ms_InInterface = rs_InInterface s,
               ms_OutInterface = rs_OutInterface s, ms_CtStates = rs_CtStates s, ms_MarkValue = rs_MarkValue s,
               ms_MarkMask = rs_MarkMask s, ms_TCPFlagsMask = rs_TCPFlagsMask s, ms_TCPFlagsComp = rs_TCPFlagsComp s,
               ms_Action = ActionClampToPMTU\<rparr> in
             case Spec_Validate spec of Some e \<Rightarrow> Inl e | None \<Rightarrow> Inr spec))"

definition mss_identity :: "string \<Rightarrow> string \<Rightarrow> ResourceIdentity" where
  "mss_identity chain tag = \<lparr>ri_Class = ClassMSSRule, ri_Path = '''', ri_Table = 0, ri_Priority = 0, ri_From = '''',
     ri_Destination = '''', ri_Chain = chain, ri_Tag = tag\<rparr>"

definition IdentityForSpec :: "Spec \<Rightarrow> string \<Rightarrow> (mss_error, ResourceIdentity) result" where
  "IdentityForSpec s observedComment =
     (case Spec_Validate s of Some _ \<Rightarrow> Inl ErrSpecIdentityInvalidInput
      | None \<Rightarrow>
          if \<not> HasPrefix (ms_Chain s) ProjectChainPrefix \<or> \<not> HasPrefix observedComment ProjectTagPrefix
          then Inl ErrIdentityUndetermined
          else
            (let i = mss_identity (ms_Chain s) observedComment in
             case identity_error i of Some _ \<Rightarrow> Inl ErrSpecIdentityInvalidInput | None \<Rightarrow> Inr i))"

subsection \<open>Observation of a coordinate (observe.go)\<close>

datatype MSSObservationStatus = MSSPresent | MSSPresentUnsupported | MSSAbsent | MSSUnknown | MSSStatusOther string

datatype mss_reason =
    InventoryStatus FieldStatus | InventoryTable string | NoTypedSpec | NotClamp | ProjectionFails mss_error | UnrepresentableRule
  | AbsentFromInventory | ConflictingSpecs nat | AmbiguousOccupants | SingleObservation

record MSSObservation =
  ob_Status :: MSSObservationStatus
  ob_Identity :: ResourceIdentity
  ob_Spec :: "Spec option"
  ob_Reasons :: "mss_reason list"

definition MSSObservation_LiveFact :: "(Spec \<Rightarrow> SpecHash) \<Rightarrow> MSSObservation \<Rightarrow> (mss_error + own_error, LiveFact) result" where
  "MSSObservation_LiveFact digest ob =
     (let checked = (\<lambda>f. case live_error f of Some e \<Rightarrow> Inl (Inr e) | None \<Rightarrow> Inr f);
          fact = (\<lambda>st h. \<lparr>lf_State = st, lf_SpecHash = h, lf_ExternalOwner = None\<rparr>) in
      case ob_Status ob of
        MSSStatusOther _ \<Rightarrow> Inl (Inl ErrStatusOutsideVocabulary)
      | MSSPresent \<Rightarrow>
          (case ob_Spec ob of None \<Rightarrow> Inl (Inl ErrPresentWithoutSpec)
           | Some s \<Rightarrow> (case SpecFingerprint digest s of Inl e \<Rightarrow> Inl (Inl e) | Inr h \<Rightarrow> checked (fact LivePresent (Some h))))
      | MSSPresentUnsupported \<Rightarrow> checked (fact LiveUnknown None)
      | MSSAbsent \<Rightarrow> checked (fact LiveAbsent None)
      | MSSUnknown \<Rightarrow> checked (fact LiveUnknown None))"

text \<open>What one rule of the requested chain contributes: nothing, a candidate, or an occupant without a representation.\<close>

definition observe_rule :: "string \<Rightarrow> string \<Rightarrow> string \<Rightarrow> IPTablesRule \<Rightarrow> (mss_reason + Spec) option" where
  "observe_rule chain table tag r =
     (if ir_Supported r then
        (case ir_Spec r of
           None \<Rightarrow> Some (Inl NoTypedSpec)
         | Some s \<Rightarrow>
             if rs_Comment s \<noteq> tag then None
             else if \<not> rs_MSSClampToPMTU s then Some (Inl NotClamp)
             else (case ProjectRule chain table r of Inl e \<Rightarrow> Some (Inl (ProjectionFails e)) | Inr spec \<Rightarrow> Some (Inr spec)))
      else Some (Inl UnrepresentableRule))"

definition occupants :: "string \<Rightarrow> string \<Rightarrow> IPTablesRuleInventory \<Rightarrow> (mss_reason + Spec) list" where
  "occupants chain tag iv = List.map_filter (observe_rule chain (iv_Table iv) tag) (rules_of chain (iv_Chains iv))"

definition ObserveMSSRule :: "Firewall \<Rightarrow> ResourceIdentity \<Rightarrow> (mss_error, MSSObservation) result" where
  "ObserveMSSRule fw i =
     (case identity_error i of Some _ \<Rightarrow> Inl ErrObserveIdentity
      | None \<Rightarrow>
      if ri_Class i \<noteq> ClassMSSRule then Inl ErrObserveIdentity
      else
        (let iv = fw_IPTablesMangleRules fw;
             ob = (\<lambda>st sp rs. Inr \<lparr>ob_Status = st, ob_Identity = i, ob_Spec = sp, ob_Reasons = rs\<rparr>) in
         if iv_Status iv \<noteq> FieldStatusPresent then ob MSSUnknown None [InventoryStatus (iv_Status iv)]
         else if iv_Table iv \<noteq> ''mangle'' then ob MSSUnknown None [InventoryTable (iv_Table iv)]
         else
           (let found = occupants (ri_Chain i) (ri_Tag i) iv;
                unrepresentable = List.map_filter (\<lambda>x. case x of Inl why \<Rightarrow> Some why | Inr _ \<Rightarrow> None) found in
            case List.map_filter (\<lambda>x. case x of Inl _ \<Rightarrow> None | Inr s \<Rightarrow> Some s) found of
              [] \<Rightarrow> (if unrepresentable = [] then ob MSSAbsent None [AbsentFromInventory] else ob MSSPresentUnsupported None unrepresentable)
            | spec # others \<Rightarrow>
                if list_ex (\<lambda>s. \<not> Spec_Equal s spec) others
                then ob MSSUnknown None (unrepresentable @ [ConflictingSpecs (Suc (length others))])
                else if unrepresentable \<noteq> [] then ob MSSUnknown None (unrepresentable @ [AmbiguousOccupants])
                else ob MSSPresent (Some spec) [SingleObservation])))"

subsection \<open>The desired rule (desired.go)\<close>

record DesiredMSSInput =
  in_Chain :: string
  in_Tag :: string
  in_Source :: string
  in_EgressInterface :: string

definition BuildDesiredMSSRule :: "(Spec \<Rightarrow> SpecHash) \<Rightarrow> DesiredMSSInput \<Rightarrow> (mss_error, DesiredMSSRule) result" where
  "BuildDesiredMSSRule digest inp =
     (case validateProjectChain (in_Chain inp) of Some e \<Rightarrow> Inl e
      | None \<Rightarrow> (case validateProjectTag (in_Tag inp) of Some e \<Rightarrow> Inl e
      | None \<Rightarrow> (case ParsePrefix4 (in_Source inp) of None \<Rightarrow> Inl ErrDesiredSourceInvalid
      | Some (a, n) \<Rightarrow>
          if Masked4 a n \<noteq> a then Inl ErrDesiredSourceInvalid
          else (case ValidInterfaceName (in_EgressInterface inp) of Some _ \<Rightarrow> Inl ErrDesiredInterfaceInvalid
          | None \<Rightarrow>
             (let spec = \<lparr>ms_Backend = BackendIPTables, ms_Table = ''mangle'', ms_Chain = in_Chain inp, ms_Protocol = ''tcp'',
                ms_Source = in_Source inp, ms_Destination = '''', ms_InInterface = '''', ms_OutInterface = in_EgressInterface inp,
                ms_CtStates = [], ms_MarkValue = '''', ms_MarkMask = '''', ms_TCPFlagsMask = ''SYN,RST'', ms_TCPFlagsComp = ''SYN'',
                ms_Action = ActionClampToPMTU\<rparr> in
              case Spec_Validate spec of Some e \<Rightarrow> Inl e
              | None \<Rightarrow> (case identity_error (mss_identity (in_Chain inp) (in_Tag inp)) of Some e \<Rightarrow> Inl (ErrDesiredIdentity e)
              | None \<Rightarrow> (case SpecFingerprint digest spec of Inl e \<Rightarrow> Inl e
              | Inr h \<Rightarrow> Inr \<lparr>mas_Identity = mss_identity (in_Chain inp) (in_Tag inp), mas_Spec = spec, mas_SpecHash = h\<rparr>)))))))"

definition DesiredMSSRules :: "(Spec \<Rightarrow> SpecHash) \<Rightarrow> bool option \<Rightarrow> DesiredMSSInput \<Rightarrow> (mss_error, DesiredMSSRule list) result" where
  "DesiredMSSRules digest clamp inp =
     (if clamp \<noteq> Some True then Inr []
      else case BuildDesiredMSSRule digest inp of Inl e \<Rightarrow> Inl e | Inr rule \<Rightarrow> Inr [rule])"

datatype LiveCollision = CollisionNone | CollisionOccupiedMatchingSpec | CollisionOccupiedConflictingSpec | CollisionAmbiguous

definition ClassifyLiveState :: "(Spec \<Rightarrow> SpecHash) \<Rightarrow> DesiredMSSRule \<Rightarrow> MSSObservation \<Rightarrow> (mss_error, LiveCollision) result" where
  "ClassifyLiveState digest rule ob =
     (if ob_Identity ob \<noteq> mas_Identity rule then Inl ErrCoordinateMismatch
      else case ob_Status ob of
        MSSAbsent \<Rightarrow> Inr CollisionNone
      | MSSPresent \<Rightarrow>
          (case ob_Spec ob of None \<Rightarrow> Inl ErrPresentWithoutSpec
           | Some s \<Rightarrow>
               (case SpecFingerprint digest s of Inl e \<Rightarrow> Inl e
                | Inr h \<Rightarrow> Inr (if h = mas_SpecHash rule then CollisionOccupiedMatchingSpec else CollisionOccupiedConflictingSpec)))
      | MSSUnknown \<Rightarrow> Inr CollisionAmbiguous
      | MSSPresentUnsupported \<Rightarrow> Inr CollisionAmbiguous
      | MSSStatusOther _ \<Rightarrow> Inl ErrStatusOutsideVocabulary)"


subsection \<open>What an observation proves\<close>

definition complete :: "Firewall \<Rightarrow> bool" where
  "complete fw \<longleftrightarrow> iv_Status (fw_IPTablesMangleRules fw) = FieldStatusPresent \<and> iv_Table (fw_IPTablesMangleRules fw) = ''mangle''"

abbreviation rules_at :: "Firewall \<Rightarrow> ResourceIdentity \<Rightarrow> IPTablesRule list" where
  "rules_at fw i \<equiv> rules_of (ri_Chain i) (iv_Chains (fw_IPTablesMangleRules fw))"

text \<open>A rule that is understood and stands at another coordinate.\<close>

definition elsewhere :: "string \<Rightarrow> IPTablesRule \<Rightarrow> bool" where
  "elsewhere tag r \<longleftrightarrow> ir_Supported r \<and> (case ir_Spec r of None \<Rightarrow> False | Some s \<Rightarrow> rs_Comment s \<noteq> tag)"

text \<open>A rule at the coordinate that is the clamp rule of a specification.\<close>

definition clamp_of :: "string \<Rightarrow> string \<Rightarrow> IPTablesRule \<Rightarrow> Spec \<Rightarrow> bool" where
  "clamp_of chain tag r spec \<longleftrightarrow>
     (case ir_Spec r of None \<Rightarrow> False | Some s \<Rightarrow> rs_Comment s = tag) \<and> ProjectRule chain ''mangle'' r = Inr spec"

lemma observe_rule_None: "observe_rule chain table tag r = None \<longleftrightarrow> elsewhere tag r"
  by (auto simp: observe_rule_def elsewhere_def split: option.splits sum.splits)

lemma observe_rule_Inr: "observe_rule chain ''mangle'' tag r = Some (Inr spec) \<longleftrightarrow> clamp_of chain tag r spec"
  by (auto simp: observe_rule_def clamp_of_def ProjectRule_def split: option.splits sum.splits if_splits)

lemma clamp_elsewhere: "clamp_of chain tag r spec \<Longrightarrow> \<not> elsewhere tag r"
  by (auto simp: clamp_of_def elsewhere_def split: option.splits)

definition found_specs :: "(mss_reason + Spec) list \<Rightarrow> Spec list" where
  "found_specs = List.map_filter (\<lambda>x. case x of Inl _ \<Rightarrow> None | Inr s \<Rightarrow> Some s)"

definition found_obstacles :: "(mss_reason + Spec) list \<Rightarrow> mss_reason list" where
  "found_obstacles = List.map_filter (\<lambda>x. case x of Inl why \<Rightarrow> Some why | Inr _ \<Rightarrow> None)"

lemma found_specs_set: "set (found_specs xs) = {s. Inr s \<in> set xs}"
proof -
  have "(case x of Inl _ \<Rightarrow> None | Inr s \<Rightarrow> Some s) = Some y \<longleftrightarrow> x = Inr y" for x :: "mss_reason + Spec" and y
    by (cases x) auto
  then show ?thesis by (simp add: found_specs_def set_map_filter)
qed

lemma found_obstacles_Nil: "found_obstacles xs = [] \<longleftrightarrow> (\<forall>x \<in> set xs. \<exists>s. x = Inr s)"
proof -
  have "(case x of Inl why \<Rightarrow> Some why | Inr _ \<Rightarrow> None) = None \<longleftrightarrow> (\<exists>s. x = Inr s)" for x :: "mss_reason + Spec"
    by (cases x) auto
  then show ?thesis by (simp add: found_obstacles_def map_filter_Nil)
qed

lemma occupants_set:
  "x \<in> set (occupants chain tag iv) \<longleftrightarrow> (\<exists>r \<in> set (rules_of chain (iv_Chains iv)). observe_rule chain (iv_Table iv) tag r = Some x)"
  by (auto simp: occupants_def set_map_filter)

text \<open>The observation as a function of the understood candidates and the obstacles of the chain.\<close>

lemma ObserveMSSRule_complete:
  assumes "complete fw" and "identity_error i = None" and "ri_Class i = ClassMSSRule"
  defines "found \<equiv> occupants (ri_Chain i) (ri_Tag i) (fw_IPTablesMangleRules fw)"
  shows "ObserveMSSRule fw i = Inr (let ob = (\<lambda>st sp rs. \<lparr>ob_Status = st, ob_Identity = i, ob_Spec = sp, ob_Reasons = rs\<rparr>) in
    case found_specs found of
      [] \<Rightarrow> (if found_obstacles found = [] then ob MSSAbsent None [AbsentFromInventory]
             else ob MSSPresentUnsupported None (found_obstacles found))
    | spec # others \<Rightarrow>
        if list_ex (\<lambda>s. \<not> Spec_Equal s spec) others
        then ob MSSUnknown None (found_obstacles found @ [ConflictingSpecs (Suc (length others))])
        else if found_obstacles found \<noteq> [] then ob MSSUnknown None (found_obstacles found @ [AmbiguousOccupants])
        else ob MSSPresent (Some spec) [SingleObservation])"
  using assms(1-3)
  by (simp add: ObserveMSSRule_def complete_def Let_def found_def found_specs_def found_obstacles_def split: list.split)

lemma ObserveMSSRule_Inr:
  assumes "ObserveMSSRule fw i = Inr ob"
  shows "identity_error i = None \<and> ri_Class i = ClassMSSRule \<and> ob_Identity ob = i \<and> (\<not> complete fw \<longrightarrow> ob_Status ob = MSSUnknown)"
  using assms by (auto simp: ObserveMSSRule_def complete_def Let_def split: option.splits if_splits list.splits)

lemma Spec_Equal_refl: "Spec_Equal s s"
  by (simp add: Spec_Equal_payload)

lemma observation_absent:
  assumes "ObserveMSSRule fw i = Inr ob"
  shows "ob_Status ob = MSSAbsent \<longleftrightarrow> complete fw \<and> (\<forall>r \<in> set (rules_at fw i). elsewhere (ri_Tag i) r)"
proof (cases "complete fw")
  case True
  let ?found = "occupants (ri_Chain i) (ri_Tag i) (fw_IPTablesMangleRules fw)"
  from ObserveMSSRule_Inr [OF assms] have i: "identity_error i = None" "ri_Class i = ClassMSSRule" by auto
  have "ob_Status ob = MSSAbsent \<longleftrightarrow> found_specs ?found = [] \<and> found_obstacles ?found = []"
    using ObserveMSSRule_complete [OF True i] assms by (auto simp: Let_def split: list.splits if_splits)
  also have "\<dots> \<longleftrightarrow> ?found = []"
  proof
    assume e: "found_specs ?found = [] \<and> found_obstacles ?found = []"
    then have "\<forall>x \<in> set ?found. \<exists>s. x = Inr s" by (simp add: found_obstacles_Nil)
    moreover have "\<forall>s. Inr s \<notin> set ?found" using e found_specs_set [of ?found] by simp
    ultimately show "?found = []" by (cases ?found) auto
  qed (simp add: found_specs_def found_obstacles_def List.map_filter_def)
  also have "\<dots> \<longleftrightarrow> (\<forall>r \<in> set (rules_at fw i). elsewhere (ri_Tag i) r)"
    by (simp add: occupants_def map_filter_Nil observe_rule_None)
  finally show ?thesis using True by simp
qed (use ObserveMSSRule_Inr [OF assms] in simp)

lemma observation_present:
  assumes "ObserveMSSRule fw i = Inr ob" and "ob_Status ob = MSSPresent"
  shows "complete fw \<and> (\<exists>spec. ob_Spec ob = Some spec \<and>
     (\<exists>r \<in> set (rules_at fw i). clamp_of (ri_Chain i) (ri_Tag i) r spec) \<and>
     (\<forall>r \<in> set (rules_at fw i). elsewhere (ri_Tag i) r \<or>
        (\<exists>s. clamp_of (ri_Chain i) (ri_Tag i) r s \<and> mssSpecPayload s = mssSpecPayload spec)))"
proof -
  let ?iv = "fw_IPTablesMangleRules fw"
  let ?found = "occupants (ri_Chain i) (ri_Tag i) ?iv"
  note start = ObserveMSSRule_Inr [OF assms(1)]
  then have c: "complete fw" using assms(2) by auto
  then have table: "iv_Table ?iv = ''mangle''" by (simp add: complete_def)
  have ob: "ob = (let ob = (\<lambda>st sp rs. \<lparr>ob_Status = st, ob_Identity = i, ob_Spec = sp, ob_Reasons = rs\<rparr>) in
    case found_specs ?found of
      [] \<Rightarrow> (if found_obstacles ?found = [] then ob MSSAbsent None [AbsentFromInventory]
             else ob MSSPresentUnsupported None (found_obstacles ?found))
    | spec # others \<Rightarrow>
        if list_ex (\<lambda>s. \<not> Spec_Equal s spec) others
        then ob MSSUnknown None (found_obstacles ?found @ [ConflictingSpecs (Suc (length others))])
        else if found_obstacles ?found \<noteq> [] then ob MSSUnknown None (found_obstacles ?found @ [AmbiguousOccupants])
        else ob MSSPresent (Some spec) [SingleObservation])"
    using ObserveMSSRule_complete [OF c] start assms(1) by simp
  then obtain spec others where specs: "found_specs ?found = spec # others" "list_all (\<lambda>s. Spec_Equal s spec) others"
    "found_obstacles ?found = []" "ob_Spec ob = Some spec"
    using assms(2) by (auto simp: Let_def list_ex_iff list_all_iff split: list.splits if_splits)
  have equal: "mssSpecPayload s = mssSpecPayload spec" if "Inr s \<in> set ?found" for s
  proof -
    from that have "s \<in> set (spec # others)" using found_specs_set [of ?found] specs(1) by auto
    then show ?thesis using specs(2) by (auto simp: list_all_iff Spec_Equal_payload)
  qed
  have "Inr spec \<in> set ?found" using found_specs_set [of ?found] specs(1) by auto
  then obtain r where r: "r \<in> set (rules_at fw i)" "observe_rule (ri_Chain i) ''mangle'' (ri_Tag i) r = Some (Inr spec)"
    unfolding occupants_set table by blast
  have all: "elsewhere (ri_Tag i) q \<or> (\<exists>s. clamp_of (ri_Chain i) (ri_Tag i) q s \<and> mssSpecPayload s = mssSpecPayload spec)"
    if q: "q \<in> set (rules_at fw i)" for q
  proof (cases "observe_rule (ri_Chain i) ''mangle'' (ri_Tag i) q")
    case None
    then show ?thesis by (simp add: observe_rule_None)
  next
    case (Some x)
    with q have x: "x \<in> set ?found" unfolding occupants_set table by blast
    then obtain s where "x = Inr s" using specs(3) by (auto simp: found_obstacles_Nil)
    with Some x equal show ?thesis using observe_rule_Inr by blast
  qed
  show ?thesis using c specs(4) r all observe_rule_Inr by blast
qed

text \<open>
  C35. What an observation of a coordinate proves. For every snapshot and every identity: ABSENT is reported exactly when
  the mangle inventory is complete and every rule of the chain is understood and carries another tag; PRESENT is
  reported only when the inventory is complete, every rule of the chain is understood, those with the tag are
  valid clamp rules of one semantic specification, and the specification reported is one of theirs; and then the
  live fact carries the fingerprint of the observed specification. An incomplete inventory yields neither.
\<close>

theorem observation_sound:
  assumes "ObserveMSSRule fw i = Inr ob"
  shows "(ob_Status ob = MSSAbsent \<longleftrightarrow> complete fw \<and> (\<forall>r \<in> set (rules_at fw i). elsewhere (ri_Tag i) r)) \<and>
    (ob_Status ob = MSSPresent \<longrightarrow> complete fw \<and> (\<exists>spec. ob_Spec ob = Some spec \<and>
       (\<exists>r \<in> set (rules_at fw i). clamp_of (ri_Chain i) (ri_Tag i) r spec) \<and>
       (\<forall>r \<in> set (rules_at fw i). elsewhere (ri_Tag i) r \<or>
          (\<exists>s. clamp_of (ri_Chain i) (ri_Tag i) r s \<and> mssSpecPayload s = mssSpecPayload spec)) \<and>
       (\<forall>f. MSSObservation_LiveFact digest ob = Inr f \<longrightarrow> f = \<lparr>lf_State = LivePresent,
          lf_SpecHash = Some (digest (mssSpecPayload spec)), lf_ExternalOwner = None\<rparr>)))"
proof -
  have "MSSObservation_LiveFact digest ob = Inr f \<Longrightarrow> ob_Status ob = MSSPresent \<Longrightarrow> ob_Spec ob = Some spec \<Longrightarrow>
    f = \<lparr>lf_State = LivePresent, lf_SpecHash = Some (digest (mssSpecPayload spec)), lf_ExternalOwner = None\<rparr>" for f spec
    by (auto simp: MSSObservation_LiveFact_def Let_def SpecFingerprint_def split: option.splits sum.splits)
  with observation_absent [OF assms] observation_present [OF assms] show ?thesis by blast
qed

subsection \<open>The inserted rule is observed again\<close>

text \<open>A complete snapshot whose mangle inventory is the parse of a listing.\<close>

definition snapshot :: "IPTablesRuleInventory \<Rightarrow> string \<Rightarrow> Firewall" where
  "snapshot iv listing = \<lparr>fw_IPTablesRules = iv, fw_IPTablesMangleRules =
     \<lparr>iv_Status = FieldStatusPresent, iv_Table = ''mangle'', iv_Chains = parseIPTablesRules listing\<rparr>\<rparr>"

lemma complete_snapshot [simp]: "complete (snapshot iv listing)"
  by (simp add: complete_def snapshot_def)

lemma rules_of_snapshot_line:
  "rules_of name (iv_Chains (fw_IPTablesMangleRules (snapshot iv (listing @ newline # line)))) =
     rules_of name (iv_Chains (fw_IPTablesMangleRules (snapshot iv listing))) @ concat (map (line_rules name) (Split newline line))"
  by (simp add: snapshot_def parse_listing Split_def SplitBy_append_sep)

lemma plain_chars: "w \<noteq> '''' \<Longrightarrow> list_all P w \<Longrightarrow> (\<And>c. P c \<Longrightarrow> \<not> is_space c \<and> c \<noteq> dquote) \<Longrightarrow> plain_word w"
  by (auto simp: plain_word_def list_all_iff)

lemma plain_project:
  "validateProjectChain c = None \<Longrightarrow> plain_word c"
  "validateProjectTag t = None \<Longrightarrow> plain_word t"
  "ValidInterfaceName d = None \<Longrightarrow> plain_word d"
proof -
  show "plain_word c" if "validateProjectChain c = None"
    using that by (intro plain_chars [of c chain_char])
      (auto simp: validateProjectChain_def chain_char_def is_lower_def is_digit_def is_space_def split: if_splits)
  show "plain_word t" if "validateProjectTag t = None"
    using that by (intro plain_chars [of t tag_char])
      (auto simp: validateProjectTag_def tag_char_def is_lower_def is_digit_def is_space_def split: if_splits)
  show "plain_word d" if "ValidInterfaceName d = None"
    using that by (intro plain_chars [of d "name_char ''._-''"])
      (auto simp: ValidInterfaceName_def name_char_def char_between_def is_digit_def is_space_def split: if_splits)
qed

lemma plain_prefix: "plain_word (Prefix4_String a n)"
proof -
  have "\<not> is_space c \<and> c \<noteq> dquote" if "c \<in> set (Prefix4_String a n)" for c
    using Prefix4_String_chars [OF that] by (auto simp: is_digit_def is_space_def)
  moreover have "Prefix4_String a n \<noteq> ''''" by (simp add: Prefix4_String_def del: Itoa.simps)
  ultimately show ?thesis unfolding plain_word_def by blast
qed

lemma BuildDesired_Inr:
  assumes "BuildDesiredMSSRule digest inp = Inr d"
  shows "validateProjectChain (in_Chain inp) = None" "validateProjectTag (in_Tag inp) = None" "plain_word (in_Source inp)"
    "ValidInterfaceName (in_EgressInterface inp) = None" "identity_error (mas_Identity d) = None"
    "mas_SpecHash d = digest (mssSpecPayload (mas_Spec d))" "Spec_Validate (mas_Spec d) = None"
    "mas_Identity d = mss_identity (in_Chain inp) (in_Tag inp)"
    "mas_Spec d = \<lparr>ms_Backend = BackendIPTables, ms_Table = ''mangle'', ms_Chain = in_Chain inp, ms_Protocol = ''tcp'',
                ms_Source = in_Source inp, ms_Destination = '''', ms_InInterface = '''', ms_OutInterface = in_EgressInterface inp,
                ms_CtStates = [], ms_MarkValue = '''', ms_MarkMask = '''', ms_TCPFlagsMask = ''SYN,RST'', ms_TCPFlagsComp = ''SYN'',
                ms_Action = ActionClampToPMTU\<rparr>"
proof -
  have "ParsePrefix4 (in_Source inp) \<noteq> None" using assms by (auto simp: BuildDesiredMSSRule_def split: option.splits)
  then obtain a n where p: "ParsePrefix4 (in_Source inp) = Some (a, n)" by auto
  then show "plain_word (in_Source inp)" using ParsePrefix4_Some [OF p] plain_prefix by simp
qed (use assms in \<open>auto simp: BuildDesiredMSSRule_def SpecFingerprint_def Let_def split: option.splits if_splits sum.splits prod.splits\<close>)

lemma plain_literals:
  "plain_word ''-A''" "plain_word ''-s''" "plain_word ''-o''" "plain_word ''-p''" "plain_word ''tcp''" "plain_word ''-m''"
  "plain_word ''--tcp-flags''" "plain_word ''SYN,RST''" "plain_word ''SYN''" "plain_word ''-j''" "plain_word ''TCPMSS''"
  "plain_word ''--clamp-mss-to-pmtu''" "plain_word ''comment''" "plain_word ''--comment''"
  by (simp_all add: plain_word_def is_space_def)

lemma plain_line:
  assumes "\<forall>w \<in> set ws. plain_word w" and "ws \<noteq> []"
  shows "quoteAwareFields (JoinWith (CHR '' '') ws) = ws" "Split newline (JoinWith (CHR '' '') ws) = [JoinWith (CHR '' '') ws]"
    "TrimRightCR (JoinWith (CHR '' '') ws) = JoinWith (CHR '' '') ws" "TrimSpace (JoinWith (CHR '' '') ws) \<noteq> ''''"
proof -
  show "quoteAwareFields (JoinWith (CHR '' '') ws) = ws" using assms(1) by (rule quoteAwareFields_JoinWith)
  have chars: "c \<in> set (JoinWith (CHR '' '') ws) \<Longrightarrow> c = CHR '' '' \<or> \<not> is_space c" for c
    using assms(1) by (induction "CHR '' ''" ws rule: JoinWith.induct) (auto simp: plain_word_def)
  have "newline \<notin> set (JoinWith (CHR '' '') ws)"
  proof
    assume "newline \<in> set (JoinWith (CHR '' '') ws)"
    from chars [OF this] show False by (simp add: is_space_def)
  qed
  then show "Split newline (JoinWith (CHR '' '') ws) = [JoinWith (CHR '' '') ws]" by (rule Split_plain)
  have "dropWhile (\<lambda>c. c = CHR 0x0D) (rev (JoinWith (CHR '' '') ws)) = rev (JoinWith (CHR '' '') ws)"
    using chars [of "hd (rev (JoinWith (CHR '' '') ws))"]
    by (cases "rev (JoinWith (CHR '' '') ws)") (auto simp: is_space_def)
  then show "TrimRightCR (JoinWith (CHR '' '') ws) = JoinWith (CHR '' '') ws" by (simp add: TrimRightCR_def)
  obtain w where w: "w \<in> set ws" using assms(2) by (cases ws) auto
  with assms(1) have "plain_word w" by blast
  then have ne: "w \<noteq> ''''" and "\<forall>c \<in> set w. \<not> is_space c" by (simp_all add: plain_word_def)
  then have space: "\<not> is_space (hd w)" by simp
  have "set w \<subseteq> set (JoinWith (CHR '' '') ws)" if "w \<in> set ws" for w
    using that by (induction "CHR '' ''" ws rule: JoinWith.induct) auto
  then have "hd w \<in> set (JoinWith (CHR '' '') ws)" using w hd_in_set [OF ne] by blast
  then show "TrimSpace (JoinWith (CHR '' '') ws) \<noteq> ''''" unfolding TrimSpace_nonempty using space by blast
qed

lemma inserted_rule:
  assumes d: "BuildDesiredMSSRule digest inp = Inr d"
  shows "\<exists>argv r. InsertCommand digest d = Inr argv \<and> take 3 argv = [''iptables'', ''-t'', ''mangle''] \<and>
     concat (map (line_rules name) (Split newline (JoinWith (CHR '' '') (drop 3 argv)))) = (if name = in_Chain inp then [r] else []) \<and>
     clamp_of (in_Chain inp) (in_Tag inp) r (mas_Spec d)"
proof -
  note facts = BuildDesired_Inr [OF d]
  let ?ws = "[''-A'', in_Chain inp, ''-s'', in_Source inp, ''-o'', in_EgressInterface inp, ''-p'', ''tcp'', ''-m'', ''tcp'',
     ''--tcp-flags'', ''SYN,RST'', ''SYN'', ''-j'', ''TCPMSS'', ''--clamp-mss-to-pmtu'', ''-m'', ''comment'', ''--comment'', in_Tag inp]"
  let ?line = "JoinWith (CHR '' '') ?ws"
  let ?s = "empty_spec\<lparr>rs_Source := in_Source inp, rs_OutInterface := in_EgressInterface inp, rs_Protocol := ''tcp'',
     rs_TCPFlagsMask := ''SYN,RST'', rs_TCPFlagsComp := ''SYN'', rs_MSSClampToPMTU := True, rs_Comment := in_Tag inp\<rparr>"
  let ?r = "\<lparr>ir_Raw = ?line, ir_Supported = True, ir_UnsupportedReason = None, ir_Spec = Some ?s\<rparr>"
  have egress: "in_EgressInterface inp \<noteq> ''''" using facts(4) by (auto simp: ValidInterfaceName_def split: if_splits)
  have i: "ri_Class (mas_Identity d) = ClassMSSRule" "ri_Chain (mas_Identity d) = in_Chain inp" "ri_Tag (mas_Identity d) = in_Tag inp"
    by (simp_all add: facts(8) mss_identity_def)
  have s: "ms_Table (mas_Spec d) = ''mangle''" "ms_Chain (mas_Spec d) = in_Chain inp" "ms_Source (mas_Spec d) = in_Source inp"
    "ms_OutInterface (mas_Spec d) = in_EgressInterface inp"
    by (simp_all add: facts(9))
  have build: "BuildMSSAction digest d = Inr d"
    unfolding BuildMSSAction_Inr_iff by (simp add: i s facts(1,2,5,6,7))
  then have argv: "InsertCommand digest d = Inr ([''iptables'', ''-t'', ''mangle''] @ ?ws)"
    using egress by (simp add: InsertCommand_def i s)
  have plain: "\<forall>w \<in> set ?ws. plain_word w"
    using facts(3) plain_project(1) [OF facts(1)] plain_project(2) [OF facts(2)] plain_project(3) [OF facts(4)]
    by (simp add: plain_literals)
  have parse: "parseIPTablesRuleSpec ?line (drop 2 ?ws) = ?r"
    by (simp add: parseIPTablesRuleSpec_def take_token_values take_token_single with_value_def tcp_flags_token_def jump_token_def empty_spec_def)
  note line = plain_line [OF plain list.distinct(2)]
  have rule: "line_rule ?line = Some (in_Chain inp, ?r)"
    unfolding line_rule_def Let_def line(1,3) parse using line(4) by simp
  have "clamp_of (in_Chain inp) (in_Tag inp) ?r (mas_Spec d)"
    using facts(7) unfolding facts(9) by (simp add: clamp_of_def ProjectRule_def Let_def empty_spec_def)
  moreover have "concat (map (line_rules name) (Split newline ?line)) = (if name = in_Chain inp then [?r] else [])"
    unfolding line(2) by (simp add: line_rules_def rule del: JoinWith.simps)
  ultimately show ?thesis
    by (intro exI [of _ "[''iptables'', ''-t'', ''mangle''] @ ?ws"] exI [of _ ?r]) (simp add: argv del: JoinWith.simps)
qed

lemma map_filter_elsewhere:
  "\<forall>r \<in> set rs. elsewhere tag r \<Longrightarrow> List.map_filter (observe_rule chain table tag) rs = []"
  by (simp add: map_filter_Nil observe_rule_None)

lemma inserted_rule_present:
  assumes d: "BuildDesiredMSSRule digest inp = Inr d"
    and ob: "ObserveMSSRule (snapshot iv listing) (mas_Identity d) = Inr ob" and absent: "ob_Status ob = MSSAbsent"
  shows "\<exists>argv. InsertCommand digest d = Inr argv \<and> take 3 argv = [''iptables'', ''-t'', ''mangle''] \<and>
    ObserveMSSRule (snapshot iv (listing @ newline # JoinWith (CHR '' '') (drop 3 argv))) (mas_Identity d) =
      Inr \<lparr>ob_Status = MSSPresent, ob_Identity = mas_Identity d, ob_Spec = Some (mas_Spec d), ob_Reasons = [SingleObservation]\<rparr>"
proof -
  note facts = BuildDesired_Inr [OF d]
  have i: "ri_Chain (mas_Identity d) = in_Chain inp" "ri_Tag (mas_Identity d) = in_Tag inp" "ri_Class (mas_Identity d) = ClassMSSRule"
    by (simp_all add: facts(8) mss_identity_def)
  from inserted_rule [OF d, of "in_Chain inp"] obtain argv r where argv: "InsertCommand digest d = Inr argv"
    "take 3 argv = [''iptables'', ''-t'', ''mangle'']"
    and line: "concat (map (line_rules (in_Chain inp)) (Split newline (JoinWith (CHR '' '') (drop 3 argv)))) = [r]"
    and clamp: "clamp_of (in_Chain inp) (in_Tag inp) r (mas_Spec d)" by auto
  let ?fw = "snapshot iv (listing @ newline # JoinWith (CHR '' '') (drop 3 argv))"
  have others: "\<forall>q \<in> set (rules_of (in_Chain inp) (iv_Chains (fw_IPTablesMangleRules (snapshot iv listing)))). elsewhere (in_Tag inp) q"
    using observation_absent [OF ob] absent by (simp add: i)
  have table: "iv_Table (fw_IPTablesMangleRules ?fw) = ''mangle''" by (simp add: snapshot_def)
  have "occupants (in_Chain inp) (in_Tag inp) (fw_IPTablesMangleRules ?fw) = [Inr (mas_Spec d)]"
    unfolding occupants_def rules_of_snapshot_line line map_filter_append map_filter_elsewhere [OF others]
    using clamp by (simp add: table observe_rule_Inr [symmetric] List.map_filter_def)
  then show ?thesis
    using argv ObserveMSSRule_complete [OF complete_snapshot facts(5) i(3), of iv "listing @ newline # JoinWith (CHR '' '') (drop 3 argv)"]
    by (simp add: i found_specs_def found_obstacles_def List.map_filter_def)
qed

text \<open>
  C36. The inserted rule is observed as the desired one. For every hash function, every desired rule built from typed inputs and
  every listing of the mangle table at whose coordinate nothing is observed: the insert command exists, and its
  rule part, appended to the listing, is parsed and observed as PRESENT with exactly the desired specification; the
  classification of the coordinate goes from free to occupied by the matching specification, and the live fact
  carries the desired hash (a hash that is zero is refused).
\<close>

theorem inserted_rule_observed:
  assumes "BuildDesiredMSSRule digest inp = Inr d"
    and "ObserveMSSRule (snapshot iv listing) (mas_Identity d) = Inr ob" and "ob_Status ob = MSSAbsent"
  shows "\<exists>argv ob'. InsertCommand digest d = Inr argv \<and> take 3 argv = [''iptables'', ''-t'', ''mangle''] \<and>
    ObserveMSSRule (snapshot iv (listing @ newline # JoinWith (CHR '' '') (drop 3 argv))) (mas_Identity d) = Inr ob' \<and>
    ob_Status ob' = MSSPresent \<and> ob_Spec ob' = Some (mas_Spec d) \<and>
    ClassifyLiveState digest d ob = Inr CollisionNone \<and> ClassifyLiveState digest d ob' = Inr CollisionOccupiedMatchingSpec \<and>
    MSSObservation_LiveFact digest ob' =
      (if hash_zero_opt (Some (mas_SpecHash d)) then Inl (Inr LiveZeroSpec)
       else Inr \<lparr>lf_State = LivePresent, lf_SpecHash = Some (mas_SpecHash d), lf_ExternalOwner = None\<rparr>)"
proof -
  from inserted_rule_present [OF assms] obtain argv where argv: "InsertCommand digest d = Inr argv"
    "take 3 argv = [''iptables'', ''-t'', ''mangle'']"
    "ObserveMSSRule (snapshot iv (listing @ newline # JoinWith (CHR '' '') (drop 3 argv))) (mas_Identity d) =
      Inr \<lparr>ob_Status = MSSPresent, ob_Identity = mas_Identity d, ob_Spec = Some (mas_Spec d), ob_Reasons = [SingleObservation]\<rparr>" by blast
  have "ob_Identity ob = mas_Identity d" using ObserveMSSRule_Inr [OF assms(2)] by simp
  then have "ClassifyLiveState digest d ob = Inr CollisionNone" using assms(3) by (simp add: ClassifyLiveState_def)
  with argv BuildDesired_Inr(6,7) [OF assms(1)] show ?thesis
    by (auto simp: ClassifyLiveState_def SpecFingerprint_def MSSObservation_LiveFact_def live_error_def)
qed


subsection \<open>Concrete observations\<close>

definition ex_mss_input :: DesiredMSSInput where
  "ex_mss_input = \<lparr>in_Chain = ''vpsgw_mss'', in_Tag = ''muvg-mss'', in_Source = Prefix4_String (addr_of 10 8 0 0) 24, in_EgressInterface = ''tun0''\<rparr>"

definition ex_digest :: "Spec \<Rightarrow> SpecHash" where
  "ex_digest = (\<lambda>_. replicate 32 1)"

definition ex_listing :: string where
  "ex_listing = JoinWith (CHR '' '') [''-N'', ''vpsgw_mss'']"

definition no_filter :: IPTablesRuleInventory where
  "no_filter = \<lparr>iv_Status = FieldStatusUnknownPermission, iv_Table = ''filter'', iv_Chains = []\<rparr>"

lemma ex_identity_ok: "identity_error (mss_identity ''vpsgw_mss'' ''muvg-mss'') = None"
  by (simp add: identity_error_def mss_identity_def identity_set_fields_def identity_class_error_def)

lemma ex_desired: "\<exists>d. BuildDesiredMSSRule ex_digest ex_mss_input = Inr d \<and> mas_Identity d = mss_identity ''vpsgw_mss'' ''muvg-mss''"
proof -
  have "ParsePrefix4 (in_Source ex_mss_input) = Some (addr_of 10 8 0 0, 24)" by (simp add: ex_mss_input_def ParsePrefix4_String)
  moreover have "Masked4 (addr_of 10 8 0 0) 24 = addr_of 10 8 0 0"
    by (simp add: Masked4_def addr_of_def mask4_def mask_eq_exp_minus_1)
  moreover have "validateProjectChain ''vpsgw_mss'' = None" "validateProjectTag ''muvg-mss'' = None" "ValidInterfaceName ''tun0'' = None"
    by code_simp+
  ultimately show ?thesis
    using ex_identity_ok by (simp add: BuildDesiredMSSRule_def ex_mss_input_def SpecFingerprint_def Spec_Validate_def TrimSpace_def is_space_def Let_def)
qed

lemma ex_absent:
  "\<exists>ob. ObserveMSSRule (snapshot no_filter ex_listing) (mss_identity ''vpsgw_mss'' ''muvg-mss'') = Inr ob \<and> ob_Status ob = MSSAbsent"
proof -
  let ?i = "mss_identity ''vpsgw_mss'' ''muvg-mss''"
  have i: "ri_Class ?i = ClassMSSRule" by (simp add: mss_identity_def)
  have words: "\<forall>w \<in> set [''-N'', ''vpsgw_mss'']. plain_word w" by (simp add: plain_word_def is_space_def)
  note line = plain_line [OF words list.distinct(2), folded ex_listing_def]
  have "line_rule ex_listing = None" unfolding line_rule_def Let_def line(1,3) by simp
  then have "rules_of (ri_Chain ?i) (iv_Chains (fw_IPTablesMangleRules (snapshot no_filter ex_listing))) = []"
    by (simp add: snapshot_def parse_listing line(2) line_rules_def)
  then have "occupants (ri_Chain ?i) (ri_Tag ?i) (fw_IPTablesMangleRules (snapshot no_filter ex_listing)) = []"
    by (simp add: occupants_def List.map_filter_def)
  then show ?thesis
    using ObserveMSSRule_complete [OF complete_snapshot ex_identity_ok i]
    by (simp add: found_specs_def found_obstacles_def List.map_filter_def)
qed

theorem inserted_rule_observed_witness:
  "\<exists>d argv ob. BuildDesiredMSSRule ex_digest ex_mss_input = Inr d \<and> InsertCommand ex_digest d = Inr argv \<and>
     ObserveMSSRule (snapshot no_filter (ex_listing @ newline # JoinWith (CHR '' '') (drop 3 argv))) (mas_Identity d) = Inr ob \<and>
     ob_Status ob = MSSPresent"
proof -
  from ex_desired obtain d where d: "BuildDesiredMSSRule ex_digest ex_mss_input = Inr d" "mas_Identity d = mss_identity ''vpsgw_mss'' ''muvg-mss''"
    by blast
  from ex_absent obtain ob where ob: "ObserveMSSRule (snapshot no_filter ex_listing) (mas_Identity d) = Inr ob" "ob_Status ob = MSSAbsent"
    unfolding d(2) by blast
  from inserted_rule_observed [OF d(1) ob] d(1) show ?thesis by blast
qed

theorem observation_sound_witness:
  "\<exists>ob. ObserveMSSRule (snapshot no_filter ex_listing) (mss_identity ''vpsgw_mss'' ''muvg-mss'') = Inr ob \<and>
     complete (snapshot no_filter ex_listing) \<and> ob_Status ob = MSSAbsent"
proof -
  from ex_absent obtain ob where
    ob: "ObserveMSSRule (snapshot no_filter ex_listing) (mss_identity ''vpsgw_mss'' ''muvg-mss'') = Inr ob" "ob_Status ob = MSSAbsent"
    by blast
  from observation_sound [OF ob(1)] ob show ?thesis by blast
qed

end
