(* ===== verification/MSS_Chain.thy ===== *)
theory MSS_Chain
  imports MSS_Observe
begin

text \<open>
  \<open>mssspec/chain.go\<close>: is the chain of an MSS specification structurally fit for it? The chain must exist once, be
  user-defined, be referenced by exactly one understood jump from a built-in chain whose match admits the
  packets of the rule, and no rule before the append position may take them away. Selectors are compared as
  IPv4 prefixes; \<open>iptables -S\<close> writes no others. Against it stands a packet semantics of rule matches.
\<close>

datatype ChainSuitability = SuitabilityProven | SuitabilityAbsent | SuitabilityUnsuitable | SuitabilityAmbiguous | SuitabilityUnknown

record JumpAttachment =
  ja_SourceChain :: string
  ja_SourceBuiltIn :: bool
  ja_GotoJump :: bool
  ja_Spec :: IPTablesRuleSpec
  ja_Raw :: string

datatype chain_reason =
    InventoryIncomplete | NoSuchChain | ChainRepeated nat | BuiltInChain | UnsupportedRuleIn string
  | ShadowedBy string string | TerminalUndetermined string | SubChainUndetermined string string
  | Unreachable | IndirectAttachment string | OutputUndecided string | AttachmentExcludes string
  | StructurallyAttached string | OverlapUndetermined | DuplicateAttachments nat string | DistinctAttachments nat

record ChainObservation =
  co_Status :: ChainSuitability
  co_Chain :: string
  co_UserDefined :: bool
  co_Attachments :: "JumpAttachment list"
  co_Reasons :: "chain_reason list"

text \<open>The error of an invalid call, or the dereference of a missing specification.\<close>

datatype chain_error = ChainSpecInvalid mss_error | ChainTableRefused | NilDereference

definition builtinMangleChains :: "string list" where
  "builtinMangleChains = [''PREROUTING'', ''INPUT'', ''FORWARD'', ''OUTPUT'', ''POSTROUTING'']"

definition outInterfaceDecided :: "string \<Rightarrow> bool \<times> bool" where
  "outInterfaceDecided c =
     (if c \<notin> set builtinMangleChains then (False, False)
      else if c = ''PREROUTING'' \<or> c = ''INPUT'' then (False, True) else (True, True))"

subsection \<open>Comparison of matches\<close>

definition mssSpecToRuleSpec :: "Spec \<Rightarrow> IPTablesRuleSpec" where
  "mssSpecToRuleSpec s = empty_spec\<lparr>rs_Protocol := ms_Protocol s, rs_Source := ms_Source s, rs_Destination := ms_Destination s,
     rs_InInterface := ms_InInterface s, rs_OutInterface := ms_OutInterface s,
     rs_TCPFlagsMask := ms_TCPFlagsMask s, rs_TCPFlagsComp := ms_TCPFlagsComp s\<rparr>"

definition parseSelector :: "string \<Rightarrow> (addr4 \<times> nat) option" where
  "parseSelector s0 =
     (let s = TrimSpace s0 in
      if CHR ''/'' \<in> set s then ParsePrefix4 s
      else (case ParseAddr4 s of None \<Rightarrow> None | Some a \<Rightarrow> Some (a, 32)))"

definition prefixContains :: "addr4 \<times> nat \<Rightarrow> addr4 \<times> nat \<Rightarrow> bool" where
  "prefixContains outer inner \<longleftrightarrow> snd outer \<le> snd inner \<and> in_prefix (fst outer) (snd outer) (fst inner)"

definition cidrContains :: "string \<Rightarrow> string \<Rightarrow> bool \<times> bool" where
  "cidrContains outer inner =
     (case (parseSelector outer, parseSelector inner) of
        (Some op, Some ip) \<Rightarrow> (prefixContains op ip, True) | _ \<Rightarrow> (False, False))"

text \<open>The check of one address selector: no objection, or the verdict that ends \<open>matchCovers\<close>.\<close>

definition selector_objection :: "string \<Rightarrow> string \<Rightarrow> (bool \<times> bool) option" where
  "selector_objection rule mss =
     (if rule = '''' then None
      else if mss = '''' then Some (False, True)
      else case cidrContains rule mss of
        (c, k) \<Rightarrow> if \<not> k then Some (False, False) else if \<not> c then Some (False, True) else None)"

definition matchCovers :: "IPTablesRuleSpec \<Rightarrow> IPTablesRuleSpec \<Rightarrow> bool \<times> bool" where
  "matchCovers rule mss =
     (if rs_Protocol rule \<noteq> '''' \<and> rs_Protocol rule \<noteq> rs_Protocol mss then (False, True)
      else case selector_objection (rs_Source rule) (rs_Source mss) of Some v \<Rightarrow> v
      | None \<Rightarrow> (case selector_objection (rs_Destination rule) (rs_Destination mss) of Some v \<Rightarrow> v
      | None \<Rightarrow>
          if rs_InInterface rule \<noteq> '''' \<and> rs_InInterface rule \<noteq> rs_InInterface mss then (False, True)
          else if rs_OutInterface rule \<noteq> '''' \<and> rs_OutInterface rule \<noteq> rs_OutInterface mss then (False, True)
          else if rs_CtStates rule \<noteq> [] \<and> (rs_CtStates mss = [] \<or> \<not> list_all (\<lambda>st. st \<in> set (rs_CtStates rule)) (rs_CtStates mss))
          then (False, True)
          else if rs_MarkValue rule \<noteq> '''' \<and> rs_MarkValue rule \<noteq> rs_MarkValue mss then (False, True)
          else if rs_MarkMask rule \<noteq> '''' \<and> rs_MarkMask rule \<noteq> rs_MarkMask mss then (False, True)
          else (True, True)))"

definition matchDisjoint :: "IPTablesRuleSpec \<Rightarrow> IPTablesRuleSpec \<Rightarrow> bool \<times> bool" where
  "matchDisjoint rule mss =
     (if rs_Protocol rule \<noteq> '''' \<and> rs_Protocol mss \<noteq> '''' \<and> rs_Protocol rule \<noteq> rs_Protocol mss then (True, True)
      else if rs_OutInterface rule \<noteq> '''' \<and> rs_OutInterface mss \<noteq> '''' \<and> rs_OutInterface rule \<noteq> rs_OutInterface mss then (True, True)
      else if rs_InInterface rule \<noteq> '''' \<and> rs_InInterface mss \<noteq> '''' \<and> rs_InInterface rule \<noteq> rs_InInterface mss then (True, True)
      else if rs_Source rule \<noteq> '''' \<and> rs_Source mss \<noteq> '''' \<and>
        (case (parseSelector (rs_Source rule), parseSelector (rs_Source mss)) of
           (Some rp, Some mp) \<Rightarrow> \<not> prefixContains rp mp \<and> \<not> prefixContains mp rp | _ \<Rightarrow> False) then (True, True)
      else (False, False))"

subsection \<open>The assessment\<close>

definition is_builtin :: "IPTablesChain \<Rightarrow> bool" where
  "is_builtin c \<longleftrightarrow> \<not> ic_UserDefined c \<and> ic_Policy c \<noteq> ''''"

definition attachment :: "string \<Rightarrow> IPTablesChain \<Rightarrow> IPTablesRule \<Rightarrow> JumpAttachment option" where
  "attachment name c r =
     (if \<not> ir_Supported r then None
      else case ir_Spec r of
        None \<Rightarrow> None
      | Some s \<Rightarrow>
          if rs_Jump s = name
          then Some \<lparr>ja_SourceChain = ic_Name c, ja_SourceBuiltIn = is_builtin c, ja_GotoJump = False, ja_Spec = s, ja_Raw = ir_Raw r\<rparr>
          else if rs_Goto s = name
          then Some \<lparr>ja_SourceChain = ic_Name c, ja_SourceBuiltIn = is_builtin c, ja_GotoJump = True, ja_Spec = s, ja_Raw = ir_Raw r\<rparr>
          else None)"

definition attachments :: "string \<Rightarrow> IPTablesChain list \<Rightarrow> JumpAttachment list" where
  "attachments name cs = concat (map (\<lambda>c. List.map_filter (attachment name c) (ic_Rules c)) cs)"

definition poisoned :: "string \<Rightarrow> IPTablesChain list \<Rightarrow> chain_reason list" where
  "poisoned name cs = map (\<lambda>c. UnsupportedRuleIn (ic_Name c))
     (filter (\<lambda>c. (is_builtin c \<or> ic_Name c = name) \<and> list_ex (\<lambda>r. \<not> ir_Supported r) (ic_Rules c)) cs)"

definition jumpWord :: "IPTablesRuleSpec \<Rightarrow> string" where
  "jumpWord s = (if rs_Goto s \<noteq> '''' then ''goto'' else ''jump'')"

definition jumpTarget :: "IPTablesRuleSpec \<Rightarrow> string" where
  "jumpTarget s = (if rs_Goto s \<noteq> '''' then rs_Goto s else rs_Jump s)"

text \<open>One step of the shadowing loop: whether the rule shadows (or cannot be decided), and why.\<close>

definition shadow_effect :: "IPTablesRuleSpec \<Rightarrow> string \<Rightarrow> IPTablesRuleSpec \<Rightarrow> (bool \<times> chain_reason) option" where
  "shadow_effect mss raw s =
     (if rs_Verdict s \<noteq> '''' then
        (case matchCovers s mss of
           (covers, definitive) \<Rightarrow>
             if definitive \<and> covers then Some (True, ShadowedBy raw (rs_Verdict s))
             else if \<not> definitive then Some (False, TerminalUndetermined raw) else None)
      else if rs_Jump s \<noteq> '''' \<or> rs_Goto s \<noteq> '''' then
        (case matchDisjoint s mss of
           (disjoint, definitive) \<Rightarrow>
             if definitive \<and> disjoint then None else Some (False, SubChainUndetermined (jumpWord s) (jumpTarget s)))
      else None)"

definition shadow_effects :: "IPTablesRuleSpec \<Rightarrow> IPTablesRule list \<Rightarrow> (bool \<times> chain_reason) list" where
  "shadow_effects mss rs = List.map_filter (\<lambda>r. shadow_effect mss (ir_Raw r) (the (ir_Spec r))) rs"

definition assessAttachment :: "JumpAttachment \<Rightarrow> Spec \<Rightarrow> ChainSuitability \<times> chain_reason" where
  "assessAttachment a spec =
     (if \<not> ja_SourceBuiltIn a then (SuitabilityUnknown, IndirectAttachment (ja_SourceChain a))
      else case outInterfaceDecided (ja_SourceChain a) of (decided, known) \<Rightarrow>
        if known \<and> \<not> decided \<and> ms_OutInterface spec \<noteq> '''' then (SuitabilityUnsuitable, OutputUndecided (ja_SourceChain a))
        else (case matchDisjoint (ja_Spec a) (mssSpecToRuleSpec spec) of (excludes, defExcl) \<Rightarrow>
          if defExcl \<and> excludes then (SuitabilityUnsuitable, AttachmentExcludes (ja_Raw a))
          else (case matchCovers (ja_Spec a) (mssSpecToRuleSpec spec) of (covers, defCovers) \<Rightarrow>
            if defCovers \<and> covers then (SuitabilityProven, StructurallyAttached (ja_SourceChain a))
            else (SuitabilityUnknown, OverlapUndetermined))))"

definition attachment_key ::
  "JumpAttachment \<Rightarrow> string \<times> bool \<times> string \<times> string \<times> string \<times> string \<times> string \<times> string \<times> string" where
  "attachment_key a = (let s = ja_Spec a in
     (ja_SourceChain a, ja_GotoJump a, rs_Protocol s, rs_Source s, rs_Destination s, rs_InInterface s, rs_OutInterface s,
      rs_TCPFlagsMask s, rs_TCPFlagsComp s))"

fun duplicateAttachment :: "JumpAttachment list \<Rightarrow> JumpAttachment list \<Rightarrow> JumpAttachment option" where
  "duplicateAttachment seen [] = None"
| "duplicateAttachment seen (a # as) =
     (if attachment_key a \<in> attachment_key ` set seen then Some a else duplicateAttachment (a # seen) as)"

definition ObserveChainSuitability :: "Firewall \<Rightarrow> Spec \<Rightarrow> (chain_error, ChainObservation) result" where
  "ObserveChainSuitability fw spec =
     (case Spec_Validate spec of Some e \<Rightarrow> Inl (ChainSpecInvalid e)
      | None \<Rightarrow>
      if ms_Table spec \<noteq> ''mangle'' then Inl ChainTableRefused
      else
        (let iv = fw_IPTablesMangleRules fw; name = ms_Chain spec;
             ob = (\<lambda>st ud atts rs. Inr \<lparr>co_Status = st, co_Chain = name, co_UserDefined = ud, co_Attachments = atts, co_Reasons = rs\<rparr>) in
         if iv_Status iv \<noteq> FieldStatusPresent \<or> iv_Table iv \<noteq> ''mangle'' then ob SuitabilityUnknown False [] [InventoryIncomplete]
         else case filter (\<lambda>c. ic_Name c = name) (iv_Chains iv) of
           [] \<Rightarrow> ob SuitabilityAbsent False [] [NoSuchChain]
         | target # [] \<Rightarrow>
             if \<not> ic_UserDefined target then ob SuitabilityUnsuitable False [] [BuiltInChain]
             else
               (let atts = attachments name (iv_Chains iv); poison = poisoned name (iv_Chains iv) in
                if poison \<noteq> [] then ob SuitabilityUnknown True atts poison
                else if list_ex (\<lambda>r. ir_Spec r = None) (ic_Rules target) then Inl NilDereference
                else
                  (let effects = shadow_effects (mssSpecToRuleSpec spec) (ic_Rules target) in
                   if list_ex fst effects then ob SuitabilityUnsuitable True atts (map snd effects)
                   else if effects \<noteq> [] then ob SuitabilityUnknown True atts (map snd effects)
                   else (case atts of
                       [] \<Rightarrow> ob SuitabilityUnsuitable True atts [Unreachable]
                     | a # [] \<Rightarrow> (case assessAttachment a spec of (st, why) \<Rightarrow> ob st True atts [why])
                     | _ \<Rightarrow> (case duplicateAttachment [] atts of
                           Some key \<Rightarrow> ob SuitabilityAmbiguous True atts [DuplicateAttachments (length atts) (ja_SourceChain key)]
                         | None \<Rightarrow> ob SuitabilityAmbiguous True atts [DistinctAttachments (length atts)]))))
         | hits \<Rightarrow> ob SuitabilityAmbiguous False [] [ChainRepeated (length hits)]))"


subsection \<open>Packets\<close>

text \<open>A packet at a hook, with the decisions a match can read; \<open>pk_Mark\<close> tells whether a mark value and mask match.\<close>

record packet =
  pk_Protocol :: string
  pk_Source :: addr4
  pk_Destination :: addr4
  pk_In :: string
  pk_Out :: string
  pk_SourcePort :: nat
  pk_DestinationPort :: nat
  pk_State :: string
  pk_Mark :: "string \<Rightarrow> string \<Rightarrow> bool"
  pk_Syn :: bool
  pk_Rst :: bool

definition selector_matches :: "string \<Rightarrow> addr4 \<Rightarrow> bool" where
  "selector_matches s a \<longleftrightarrow> s = '''' \<or> (case parseSelector s of None \<Rightarrow> False | Some (net, n) \<Rightarrow> in_prefix net n a)"

text \<open>A trailing \<open>+\<close> of an interface matches every name with that beginning.\<close>

definition interface_matches :: "string \<Rightarrow> string \<Rightarrow> bool" where
  "interface_matches s name \<longleftrightarrow> s = '''' \<or> (if last s = CHR ''+'' then prefix (butlast s) name else s = name)"

definition rule_matches :: "IPTablesRuleSpec \<Rightarrow> packet \<Rightarrow> bool" where
  "rule_matches s pk \<longleftrightarrow>
     (rs_Protocol s = '''' \<or> rs_Protocol s = pk_Protocol pk) \<and>
     selector_matches (rs_Source s) (pk_Source pk) \<and> selector_matches (rs_Destination s) (pk_Destination pk) \<and>
     interface_matches (rs_InInterface s) (pk_In pk) \<and> interface_matches (rs_OutInterface s) (pk_Out pk) \<and>
     (rs_SourcePort s = '''' \<or> rs_SourcePort s = Itoa (pk_SourcePort pk)) \<and>
     (rs_DestinationPort s = '''' \<or> rs_DestinationPort s = Itoa (pk_DestinationPort pk)) \<and>
     (rs_CtStates s = [] \<or> pk_State pk \<in> set (rs_CtStates s)) \<and>
     ((rs_MarkValue s = '''' \<and> rs_MarkMask s = '''') \<or> pk_Mark pk (rs_MarkValue s) (rs_MarkMask s)) \<and>
     ((rs_TCPFlagsMask s = '''' \<and> rs_TCPFlagsComp s = '''') \<or>
      (rs_TCPFlagsMask s = ''SYN,RST'' \<and> rs_TCPFlagsComp s = ''SYN'' \<and> pk_Syn pk \<and> \<not> pk_Rst pk))"

text \<open>The packets the rule of an MSS specification matches.\<close>

definition mss_matches :: "Spec \<Rightarrow> packet \<Rightarrow> bool" where
  "mss_matches spec = rule_matches ((mssSpecToRuleSpec spec)\<lparr>rs_CtStates := ms_CtStates spec,
     rs_MarkValue := ms_MarkValue spec, rs_MarkMask := ms_MarkMask spec\<rparr>)"

text \<open>
  A run of a packet through the rules of a chain: it leaves at the first matching rule with a verdict, its course after
  a matching jump or goto is not known, and other rules let it continue.
\<close>

datatype course = Leaves string | Unknown | Falls_through

fun course_of :: "IPTablesRule list \<Rightarrow> packet \<Rightarrow> course" where
  "course_of [] pk = Falls_through"
| "course_of (r # rs) pk =
     (case ir_Spec r of
        None \<Rightarrow> Unknown
      | Some s \<Rightarrow>
          if \<not> rule_matches s pk then course_of rs pk
          else if rs_Verdict s \<noteq> '''' then Leaves (rs_Verdict s)
          else if rs_Jump s \<noteq> '''' \<or> rs_Goto s \<noteq> '''' then Unknown
          else course_of rs pk)"

subsection \<open>Soundness of the comparison\<close>

text \<open>What the comparison does not look at: ports, interface wildcards, and flags other than the one supported pair.\<close>

definition plain_match :: "IPTablesRuleSpec \<Rightarrow> bool" where
  "plain_match s \<longleftrightarrow> rs_SourcePort s = '''' \<and> rs_DestinationPort s = '''' \<and> CHR ''+'' \<notin> set (rs_InInterface s) \<and>
     CHR ''+'' \<notin> set (rs_OutInterface s) \<and>
     (rs_TCPFlagsMask s = '''' \<and> rs_TCPFlagsComp s = '''' \<or> rs_TCPFlagsMask s = ''SYN,RST'' \<and> rs_TCPFlagsComp s = ''SYN'')"

definition contract_spec :: "Spec \<Rightarrow> bool" where
  "contract_spec spec \<longleftrightarrow> ms_TCPFlagsMask spec = ''SYN,RST'' \<and> ms_TCPFlagsComp spec = ''SYN'' \<and>
     CHR ''+'' \<notin> set (ms_InInterface spec) \<and> CHR ''+'' \<notin> set (ms_OutInterface spec)"

lemma parseSelector_bound: "parseSelector s = Some (a, n) \<Longrightarrow> n \<le> 32"
  using ParsePrefix4_Some by (auto simp: parseSelector_def Let_def split: if_splits option.splits)

lemma prefixContains_sound:
  assumes "prefixContains (a, n) (b, m)" and "m \<le> 32" and "in_prefix b m x"
  shows "in_prefix a n x"
  using assms in_prefix_trans [of n m b x a] by (simp add: prefixContains_def)

lemma selector_covers:
  assumes "selector_objection r m = None" and "selector_matches m x"
  shows "selector_matches r x"
proof (cases "r = ''''")
  case False
  from assms(1) False have m: "m \<noteq> ''''" by (auto simp: selector_objection_def)
  from assms(1) False m obtain a n b k where p: "parseSelector r = Some (a, n)" "parseSelector m = Some (b, k)"
    "prefixContains (a, n) (b, k)"
    by (auto simp: selector_objection_def cidrContains_def split: option.splits if_splits)
  from assms(2) m p(2) have "in_prefix b k x" by (simp add: selector_matches_def)
  with prefixContains_sound [OF p(3) parseSelector_bound [OF p(2)]] p(1) show ?thesis by (simp add: selector_matches_def)
qed (simp add: selector_matches_def)

lemma selectors_disjoint:
  assumes "parseSelector r = Some (a, n)" and "parseSelector m = Some (b, k)"
    and "\<not> prefixContains (a, n) (b, k)" and "\<not> prefixContains (b, k) (a, n)"
  shows "\<not> (in_prefix a n x \<and> in_prefix b k x)"
proof (cases "n \<le> k")
  case True
  then show ?thesis
    using assms(3) in_prefix_trans [OF True parseSelector_bound [OF assms(2)], of b x a] by (auto simp: prefixContains_def)
next
  case False
  then have "k \<le> n" by simp
  then show ?thesis
    using assms(4) in_prefix_trans [OF _ parseSelector_bound [OF assms(1)], of k a x b] by (auto simp: prefixContains_def)
qed

lemma interface_plain: "CHR ''+'' \<notin> set s \<Longrightarrow> interface_matches s name \<longleftrightarrow> s = '''' \<or> s = name"
proof (cases "s = ''''")
  case False
  moreover assume "CHR ''+'' \<notin> set s"
  ultimately have "last s \<noteq> CHR ''+''" using last_in_set by metis
  with False show ?thesis by (simp add: interface_matches_def)
qed (simp add: interface_matches_def)

lemma view_fields:
  "rs_Protocol (mssSpecToRuleSpec s) = ms_Protocol s" "rs_Source (mssSpecToRuleSpec s) = ms_Source s"
  "rs_Destination (mssSpecToRuleSpec s) = ms_Destination s" "rs_InInterface (mssSpecToRuleSpec s) = ms_InInterface s"
  "rs_OutInterface (mssSpecToRuleSpec s) = ms_OutInterface s" "rs_SourcePort (mssSpecToRuleSpec s) = ''''"
  "rs_DestinationPort (mssSpecToRuleSpec s) = ''''" "rs_CtStates (mssSpecToRuleSpec s) = []"
  "rs_MarkValue (mssSpecToRuleSpec s) = ''''" "rs_MarkMask (mssSpecToRuleSpec s) = ''''"
  "rs_TCPFlagsMask (mssSpecToRuleSpec s) = ms_TCPFlagsMask s" "rs_TCPFlagsComp (mssSpecToRuleSpec s) = ms_TCPFlagsComp s"
  by (simp_all add: mssSpecToRuleSpec_def empty_spec_def)

lemma matchCovers_True:
  assumes "matchCovers r m = (True, True)"
  shows "(rs_Protocol r = '''' \<or> rs_Protocol r = rs_Protocol m)"
    "selector_objection (rs_Source r) (rs_Source m) = None" "selector_objection (rs_Destination r) (rs_Destination m) = None"
    "(rs_InInterface r = '''' \<or> rs_InInterface r = rs_InInterface m)"
    "(rs_OutInterface r = '''' \<or> rs_OutInterface r = rs_OutInterface m)"
    "(rs_CtStates r = [] \<or> rs_CtStates m \<noteq> [])"
    "(rs_MarkValue r = '''' \<or> rs_MarkValue r = rs_MarkValue m)" "(rs_MarkMask r = '''' \<or> rs_MarkMask r = rs_MarkMask m)"
proof -
  have "selector_objection a b \<noteq> Some (True, True)" for a b
    by (auto simp: selector_objection_def split: if_splits prod.splits)
  with assms show "(rs_Protocol r = '''' \<or> rs_Protocol r = rs_Protocol m)"
    "selector_objection (rs_Source r) (rs_Source m) = None" "selector_objection (rs_Destination r) (rs_Destination m) = None"
    "(rs_InInterface r = '''' \<or> rs_InInterface r = rs_InInterface m)"
    "(rs_OutInterface r = '''' \<or> rs_OutInterface r = rs_OutInterface m)"
    "(rs_CtStates r = [] \<or> rs_CtStates m \<noteq> [])"
    "(rs_MarkValue r = '''' \<or> rs_MarkValue r = rs_MarkValue m)" "(rs_MarkMask r = '''' \<or> rs_MarkMask r = rs_MarkMask m)"
    by (auto simp: matchCovers_def split: if_splits option.splits)
qed

text \<open>A plain rule that covers the view of a specification matches every packet of the specification.\<close>

lemma matchCovers_sound:
  assumes "matchCovers r (mssSpecToRuleSpec spec) = (True, True)" and "plain_match r" and "contract_spec spec" and "mss_matches spec pk"
  shows "rule_matches r pk"
proof -
  note c = matchCovers_True [OF assms(1), unfolded view_fields]
  have m: "ms_Protocol spec = '''' \<or> ms_Protocol spec = pk_Protocol pk" "selector_matches (ms_Source spec) (pk_Source pk)"
    "selector_matches (ms_Destination spec) (pk_Destination pk)" "interface_matches (ms_InInterface spec) (pk_In pk)"
    "interface_matches (ms_OutInterface spec) (pk_Out pk)" "pk_Syn pk \<and> \<not> pk_Rst pk"
    using assms(3,4) by (simp_all add: mss_matches_def rule_matches_def view_fields contract_spec_def)
  have "rs_Protocol r = '''' \<or> rs_Protocol r = pk_Protocol pk" using c(1) m(1) by auto
  moreover have "selector_matches (rs_Source r) (pk_Source pk)" using selector_covers [OF c(2) m(2)] .
  moreover have "selector_matches (rs_Destination r) (pk_Destination pk)" using selector_covers [OF c(3) m(3)] .
  moreover have "interface_matches (rs_InInterface r) (pk_In pk)" using c(4) m(4) by (auto simp: interface_matches_def)
  moreover have "interface_matches (rs_OutInterface r) (pk_Out pk)" using c(5) m(5) by (auto simp: interface_matches_def)
  ultimately show ?thesis using c(6-8) m(6) assms(2) by (simp add: rule_matches_def plain_match_def)
qed

lemma matchDisjoint_sound:
  assumes "matchDisjoint r (mssSpecToRuleSpec spec) = (True, True)" and "plain_match r" and "contract_spec spec" and "mss_matches spec pk"
  shows "\<not> rule_matches r pk"
proof
  assume r: "rule_matches r pk"
  have plain: "CHR ''+'' \<notin> set (rs_InInterface r)" "CHR ''+'' \<notin> set (rs_OutInterface r)"
    "CHR ''+'' \<notin> set (ms_InInterface spec)" "CHR ''+'' \<notin> set (ms_OutInterface spec)"
    using assms(2,3) by (simp_all add: plain_match_def contract_spec_def)
  have m: "ms_Protocol spec = '''' \<or> ms_Protocol spec = pk_Protocol pk" "selector_matches (ms_Source spec) (pk_Source pk)"
    "ms_InInterface spec = '''' \<or> ms_InInterface spec = pk_In pk" "ms_OutInterface spec = '''' \<or> ms_OutInterface spec = pk_Out pk"
    using assms(4) by (simp_all add: mss_matches_def rule_matches_def view_fields interface_plain plain)
  have q: "rs_Protocol r = '''' \<or> rs_Protocol r = pk_Protocol pk" "selector_matches (rs_Source r) (pk_Source pk)"
    "rs_InInterface r = '''' \<or> rs_InInterface r = pk_In pk" "rs_OutInterface r = '''' \<or> rs_OutInterface r = pk_Out pk"
    using r by (simp_all add: rule_matches_def interface_plain plain)
  have "rs_Source r \<noteq> '''' \<and> ms_Source spec \<noteq> '''' \<and>
        (case (parseSelector (rs_Source r), parseSelector (ms_Source spec)) of
           (Some rp, Some mp) \<Rightarrow> \<not> prefixContains rp mp \<and> \<not> prefixContains mp rp | _ \<Rightarrow> False)"
    using assms(1) m q by (auto simp: matchDisjoint_def view_fields split: if_splits)
  then obtain a n b k where p: "parseSelector (rs_Source r) = Some (a, n)" "parseSelector (ms_Source spec) = Some (b, k)"
    and apart: "\<not> prefixContains (a, n) (b, k)" "\<not> prefixContains (b, k) (a, n)" and ne: "rs_Source r \<noteq> ''''" "ms_Source spec \<noteq> ''''"
    by (auto split: option.splits)
  show False using selectors_disjoint [OF p apart] q(2) m(2) ne p by (simp add: selector_matches_def)
qed

subsection \<open>Soundness of the assessment\<close>

lemma shadow_effects_Nil: "shadow_effects m rs = [] \<longleftrightarrow> (\<forall>r \<in> set rs. shadow_effect m (ir_Raw r) (the (ir_Spec r)) = None)"
  by (simp add: shadow_effects_def map_filter_Nil)

lemma shadow_effects_set: "e \<in> set (shadow_effects m rs) \<longleftrightarrow> (\<exists>r \<in> set rs. shadow_effect m (ir_Raw r) (the (ir_Spec r)) = Some e)"
  by (simp add: shadow_effects_def set_map_filter)

lemma shadow_effect_True: "shadow_effect m raw s = Some (True, why) \<longleftrightarrow>
    rs_Verdict s \<noteq> '''' \<and> matchCovers s m = (True, True) \<and> why = ShadowedBy raw (rs_Verdict s)"
  by (auto simp: shadow_effect_def split: if_splits prod.splits)

lemma shadow_effect_jump:
  "shadow_effect m raw s = None \<Longrightarrow> rs_Verdict s = '''' \<Longrightarrow> rs_Jump s \<noteq> '''' \<or> rs_Goto s \<noteq> '''' \<Longrightarrow> matchDisjoint s m = (True, True)"
  by (auto simp: shadow_effect_def split: if_splits prod.splits)

lemma covering_verdict_leaves:
  "r \<in> set rs \<Longrightarrow> ir_Spec r = Some s \<Longrightarrow> rs_Verdict s \<noteq> '''' \<Longrightarrow> rule_matches s pk \<Longrightarrow> course_of rs pk \<noteq> Falls_through"
  by (induction rs) (auto split: option.splits)

text \<open>If no jump of the chain matches a packet, it falls through exactly when no rule with a verdict matches it.\<close>

lemma course_without_jumps:
  "\<forall>r \<in> set rs. \<exists>s. ir_Spec r = Some s \<and> (rs_Verdict s = '''' \<and> (rs_Jump s \<noteq> '''' \<or> rs_Goto s \<noteq> '''') \<longrightarrow> \<not> rule_matches s pk) \<Longrightarrow>
   course_of rs pk \<noteq> Unknown \<and>
   (course_of rs pk = Falls_through \<longleftrightarrow> (\<forall>r \<in> set rs. \<forall>s. ir_Spec r = Some s \<and> rs_Verdict s \<noteq> '''' \<longrightarrow> \<not> rule_matches s pk))"
  by (induction rs) (auto split: option.splits)

definition all_rules :: "Firewall \<Rightarrow> IPTablesRule list" where
  "all_rules fw = concat (map ic_Rules (iv_Chains (fw_IPTablesMangleRules fw)))"

definition plain_inventory :: "Firewall \<Rightarrow> bool" where
  "plain_inventory fw \<longleftrightarrow> list_all (\<lambda>r. case ir_Spec r of None \<Rightarrow> True | Some s \<Rightarrow> plain_match s) (all_rules fw)"

text \<open>How an assessment can end with the verdict that matters; one case for each.\<close>

lemma suitability_cases:
  assumes "ObserveChainSuitability fw spec = Inr ob"
  obtains (other) "co_Status ob \<noteq> SuitabilityProven" "\<forall>raw v. ShadowedBy raw v \<notin> set (co_Reasons ob)"
    | (shadow) target where "complete fw" "filter (\<lambda>c. ic_Name c = ms_Chain spec) (iv_Chains (fw_IPTablesMangleRules fw)) = [target]"
        "list_ex fst (shadow_effects (mssSpecToRuleSpec spec) (ic_Rules target))" "co_Status ob = SuitabilityUnsuitable"
        "\<forall>r \<in> set (ic_Rules target). ir_Spec r \<noteq> None"
    | (proven) target a why where "complete fw" "filter (\<lambda>c. ic_Name c = ms_Chain spec) (iv_Chains (fw_IPTablesMangleRules fw)) = [target]"
        "ic_UserDefined target" "poisoned (ms_Chain spec) (iv_Chains (fw_IPTablesMangleRules fw)) = []"
        "\<forall>r \<in> set (ic_Rules target). ir_Spec r \<noteq> None"
        "shadow_effects (mssSpecToRuleSpec spec) (ic_Rules target) = []"
        "attachments (ms_Chain spec) (iv_Chains (fw_IPTablesMangleRules fw)) = [a]"
        "assessAttachment a spec = (co_Status ob, why)" "co_Reasons ob = [why]"
proof -
  let ?iv = "fw_IPTablesMangleRules fw"
  let ?hits = "filter (\<lambda>c. ic_Name c = ms_Chain spec) (iv_Chains ?iv)"
  have base: "Spec_Validate spec = None" "ms_Table spec = ''mangle''"
    using assms by (auto simp: ObserveChainSuitability_def split: option.splits if_splits)
  show thesis
  proof (cases "complete fw \<and> (\<exists>target. ?hits = [target] \<and> ic_UserDefined target \<and> poisoned (ms_Chain spec) (iv_Chains ?iv) = [])")
    case False
    show thesis
    proof (rule other)
      from assms base False show "co_Status ob \<noteq> SuitabilityProven" "\<forall>raw v. ShadowedBy raw v \<notin> set (co_Reasons ob)"
        unfolding ObserveChainSuitability_def complete_def Let_def poisoned_def
        by (auto split: if_splits list.splits option.splits)
    qed
  next
    case True
    then obtain target where t: "complete fw" "?hits = [target]" "ic_UserDefined target" "poisoned (ms_Chain spec) (iv_Chains ?iv) = []" by blast
    let ?effects = "shadow_effects (mssSpecToRuleSpec spec) (ic_Rules target)"
    let ?atts = "attachments (ms_Chain spec) (iv_Chains ?iv)"
    have specs: "\<forall>r \<in> set (ic_Rules target). ir_Spec r \<noteq> None"
      using assms base t by (auto simp: ObserveChainSuitability_def complete_def Let_def list_ex_iff split: if_splits)
    have run: "ObserveChainSuitability fw spec =
      (let ob = (\<lambda>st ud atts rs. Inr \<lparr>co_Status = st, co_Chain = ms_Chain spec, co_UserDefined = ud, co_Attachments = atts, co_Reasons = rs\<rparr>) in
       if list_ex fst ?effects then ob SuitabilityUnsuitable True ?atts (map snd ?effects)
       else if ?effects \<noteq> [] then ob SuitabilityUnknown True ?atts (map snd ?effects)
       else (case ?atts of
            [] \<Rightarrow> ob SuitabilityUnsuitable True ?atts [Unreachable]
          | a # [] \<Rightarrow> (case assessAttachment a spec of (st, why) \<Rightarrow> ob st True ?atts [why])
          | _ \<Rightarrow> (case duplicateAttachment [] ?atts of
                Some key \<Rightarrow> ob SuitabilityAmbiguous True ?atts [DuplicateAttachments (length ?atts) (ja_SourceChain key)]
              | None \<Rightarrow> ob SuitabilityAmbiguous True ?atts [DistinctAttachments (length ?atts)])))"
      using base t specs by (auto simp: ObserveChainSuitability_def complete_def Let_def list_ex_iff)
    show thesis
    proof (cases "list_ex fst ?effects")
      case True
      show thesis
      proof (rule shadow)
        show "co_Status ob = SuitabilityUnsuitable" using assms run True by (auto simp: Let_def)
      qed (use t specs True in auto)
    next
      case no: False
      show thesis
      proof (cases "?effects = [] \<and> (\<exists>a. ?atts = [a])")
        case True
        then obtain a where a: "?effects = []" "?atts = [a]" by blast
        obtain st why where e: "assessAttachment a spec = (st, why)" by fastforce
        with assms run no a have "co_Status ob = st" "co_Reasons ob = [why]" by (auto simp: Let_def)
        with t specs a e show thesis by (intro proven) auto
      next
        case False
        show thesis
        proof (rule other)
          from assms run no False show "co_Status ob \<noteq> SuitabilityProven"
            by (auto simp: Let_def split: if_splits list.splits option.splits)
          have "ShadowedBy raw v \<notin> snd ` set ?effects" for raw v
          proof
            assume "ShadowedBy raw v \<in> snd ` set ?effects"
            then obtain b where "(b, ShadowedBy raw v) \<in> set ?effects" by force
            then have "\<exists>r \<in> set (ic_Rules target). shadow_effect (mssSpecToRuleSpec spec) (ir_Raw r) (the (ir_Spec r)) = Some (b, ShadowedBy raw v)"
              by (simp only: shadow_effects_set)
            then obtain r :: IPTablesRule where "shadow_effect (mssSpecToRuleSpec spec) (ir_Raw r) (the (ir_Spec r)) = Some (b, ShadowedBy raw v)"
              by (elim bexE)
            then have b by (auto simp: shadow_effect_def split: if_splits prod.splits)
            with \<open>(b, ShadowedBy raw v) \<in> set ?effects\<close> no show False by (force simp: list_ex_iff)
          qed
          with assms run no False show "\<forall>raw v. ShadowedBy raw v \<notin> set (co_Reasons ob)"
            by (auto simp: Let_def split: if_splits list.splits option.splits)
        qed
      qed
    qed
  qed
qed


lemma chain_rules_in: "c \<in> set (iv_Chains (fw_IPTablesMangleRules fw)) \<Longrightarrow> r \<in> set (ic_Rules c) \<Longrightarrow> r \<in> set (all_rules fw)"
  by (auto simp: all_rules_def)

lemma plain_rule: "plain_inventory fw \<Longrightarrow> r \<in> set (all_rules fw) \<Longrightarrow> ir_Spec r = Some s \<Longrightarrow> plain_match s"
  by (auto simp: plain_inventory_def list_all_iff)

lemma attachment_Some:
  "attachment name c r = Some a \<Longrightarrow>
     ir_Supported r \<and> ir_Spec r = Some (ja_Spec a) \<and> name \<in> {rs_Jump (ja_Spec a), rs_Goto (ja_Spec a)} \<and>
     ja_SourceChain a = ic_Name c \<and> ja_SourceBuiltIn a = is_builtin c"
  by (auto simp: attachment_def split: if_splits option.splits)

lemma attachments_set: "a \<in> set (attachments name cs) \<longleftrightarrow> (\<exists>c \<in> set cs. \<exists>r \<in> set (ic_Rules c). attachment name c r = Some a)"
  by (auto simp: attachments_def set_map_filter)

lemma assess_proven:
  assumes "assessAttachment a spec = (SuitabilityProven, why)"
  shows "ja_SourceBuiltIn a" "ja_SourceChain a \<in> {''PREROUTING'', ''INPUT''} \<longrightarrow> ms_OutInterface spec = ''''"
    "matchCovers (ja_Spec a) (mssSpecToRuleSpec spec) = (True, True)"
  using assms by (auto simp: assessAttachment_def outInterfaceDecided_def builtinMangleChains_def split: if_splits prod.splits)

text \<open>A proven chain: what its one attachment and the rules before the append position do to the packets of the rule.\<close>

definition sound_attachment :: "Firewall \<Rightarrow> Spec \<Rightarrow> IPTablesChain \<Rightarrow> bool" where
  "sound_attachment fw spec target \<longleftrightarrow>
     (\<exists>a. attachments (ms_Chain spec) (iv_Chains (fw_IPTablesMangleRules fw)) = [a] \<and> ja_SourceBuiltIn a \<and>
        (ja_SourceChain a \<in> {''PREROUTING'', ''INPUT''} \<longrightarrow> ms_OutInterface spec = '''') \<and>
        (\<forall>pk. mss_matches spec pk \<longrightarrow> rule_matches (ja_Spec a) pk)) \<and>
     (\<forall>pk. mss_matches spec pk \<longrightarrow> course_of (ic_Rules target) pk \<noteq> Unknown \<and>
        (course_of (ic_Rules target) pk = Falls_through \<longleftrightarrow>
           (\<forall>r \<in> set (ic_Rules target). \<forall>s. ir_Spec r = Some s \<and> rs_Verdict s \<noteq> '''' \<longrightarrow> \<not> rule_matches s pk)))"

lemma proven_sound:
  assumes plain: "plain_inventory fw" and spec: "contract_spec spec"
    and hit: "filter (\<lambda>c. ic_Name c = ms_Chain spec) (iv_Chains (fw_IPTablesMangleRules fw)) = [target]"
    and specs: "\<forall>r \<in> set (ic_Rules target). ir_Spec r \<noteq> None" and effects: "shadow_effects (mssSpecToRuleSpec spec) (ic_Rules target) = []"
    and atts: "attachments (ms_Chain spec) (iv_Chains (fw_IPTablesMangleRules fw)) = [a]" and assess: "assessAttachment a spec = (SuitabilityProven, why)"
  shows "sound_attachment fw spec target"
proof -
  have "a \<in> set (attachments (ms_Chain spec) (iv_Chains (fw_IPTablesMangleRules fw)))" using atts by simp
  then obtain c r where r: "c \<in> set (iv_Chains (fw_IPTablesMangleRules fw))" "r \<in> set (ic_Rules c)" "attachment (ms_Chain spec) c r = Some a"
    unfolding attachments_set by blast
  have "plain_match (ja_Spec a)" using plain_rule [OF plain chain_rules_in [OF r(1,2)]] attachment_Some [OF r(3)] by blast
  then have admits: "mss_matches spec pk \<Longrightarrow> rule_matches (ja_Spec a) pk" for pk
    using matchCovers_sound [OF assess_proven(3) [OF assess] _ spec] by blast
  have "target \<in> set (filter (\<lambda>c. ic_Name c = ms_Chain spec) (iv_Chains (fw_IPTablesMangleRules fw)))" by (simp add: hit)
  then have t: "target \<in> set (iv_Chains (fw_IPTablesMangleRules fw))" by simp
  have jumps: "\<forall>r \<in> set (ic_Rules target). \<exists>s. ir_Spec r = Some s \<and>
      (rs_Verdict s = '''' \<and> (rs_Jump s \<noteq> '''' \<or> rs_Goto s \<noteq> '''') \<longrightarrow> \<not> rule_matches s pk)" if pk: "mss_matches spec pk" for pk
  proof
    fix r assume r: "r \<in> set (ic_Rules target)"
    with specs obtain s where s: "ir_Spec r = Some s" by auto
    have "shadow_effect (mssSpecToRuleSpec spec) (ir_Raw r) s = None" using effects r s unfolding shadow_effects_Nil by force
    moreover have "plain_match s" using plain_rule [OF plain chain_rules_in [OF t r] s] .
    ultimately show "\<exists>s. ir_Spec r = Some s \<and> (rs_Verdict s = '''' \<and> (rs_Jump s \<noteq> '''' \<or> rs_Goto s \<noteq> '''') \<longrightarrow> \<not> rule_matches s pk)"
      using s shadow_effect_jump matchDisjoint_sound [OF _ _ spec pk] by blast
  qed
  show ?thesis
    unfolding sound_attachment_def
    using atts assess_proven(1,2) [OF assess] admits course_without_jumps [OF jumps] by blast
qed

lemma shadow_sound:
  assumes plain: "plain_inventory fw" and spec: "contract_spec spec"
    and hit: "filter (\<lambda>c. ic_Name c = ms_Chain spec) (iv_Chains (fw_IPTablesMangleRules fw)) = [target]"
    and specs: "\<forall>r \<in> set (ic_Rules target). ir_Spec r \<noteq> None"
    and effects: "list_ex fst (shadow_effects (mssSpecToRuleSpec spec) (ic_Rules target))" and pk: "mss_matches spec pk"
  shows "course_of (ic_Rules target) pk \<noteq> Falls_through"
proof -
  from effects obtain why where "(True, why) \<in> set (shadow_effects (mssSpecToRuleSpec spec) (ic_Rules target))"
    by (force simp: list_ex_iff)
  then obtain r where r: "r \<in> set (ic_Rules target)"
    and e: "shadow_effect (mssSpecToRuleSpec spec) (ir_Raw r) (the (ir_Spec r)) = Some (True, why)"
    using shadow_effects_set by blast
  from r specs obtain s where s: "ir_Spec r = Some s" by auto
  with e have v: "rs_Verdict s \<noteq> ''''" "matchCovers s (mssSpecToRuleSpec spec) = (True, True)" by (auto simp: shadow_effect_True)
  have "target \<in> set (filter (\<lambda>c. ic_Name c = ms_Chain spec) (iv_Chains (fw_IPTablesMangleRules fw)))" by (simp add: hit)
  then have "plain_match s" using plain_rule [OF plain chain_rules_in [OF _ r] s] by simp
  from covering_verdict_leaves [OF r s v(1) matchCovers_sound [OF v(2) this spec pk]] show ?thesis .
qed


subsection \<open>Concrete chains\<close>

definition ex_chain_spec :: Spec where
  "ex_chain_spec = \<lparr>ms_Backend = BackendIPTables, ms_Table = ''mangle'', ms_Chain = ''vpsgw_mss'', ms_Protocol = ''tcp'',
     ms_Source = '''', ms_Destination = '''', ms_InInterface = '''', ms_OutInterface = ''tun0'',
     ms_CtStates = [], ms_MarkValue = '''', ms_MarkMask = '''', ms_TCPFlagsMask = ''SYN,RST'', ms_TCPFlagsComp = ''SYN'',
     ms_Action = ActionClampToPMTU\<rparr>"

definition ex_rule :: "IPTablesRuleSpec \<Rightarrow> IPTablesRule" where
  "ex_rule s = \<lparr>ir_Raw = ''raw'', ir_Supported = True, ir_UnsupportedReason = None, ir_Spec = Some s\<rparr>"

definition ex_mangle :: "IPTablesRule list \<Rightarrow> IPTablesRule list \<Rightarrow> Firewall" where
  "ex_mangle forward rs = \<lparr>fw_IPTablesRules = no_filter, fw_IPTablesMangleRules =
     \<lparr>iv_Status = FieldStatusPresent, iv_Table = ''mangle'', iv_Chains =
       [\<lparr>ic_Name = ''FORWARD'', ic_Policy = ''ACCEPT'', ic_UserDefined = False, ic_Rules = forward\<rparr>,
        \<lparr>ic_Name = ''vpsgw_mss'', ic_Policy = '''', ic_UserDefined = True, ic_Rules = rs\<rparr>]\<rparr>\<rparr>"

definition ex_jump :: IPTablesRuleSpec where
  "ex_jump = empty_spec\<lparr>rs_Protocol := ''tcp'', rs_Jump := ''vpsgw_mss''\<rparr>"

lemma ex_chain_valid: "Spec_Validate ex_chain_spec = None"
  by (simp add: Spec_Validate_def ex_chain_spec_def TrimSpace_def is_space_def)

lemmas ex_chain_defs = ObserveChainSuitability_def ex_mangle_def ex_rule_def ex_jump_def ex_chain_valid attachments_def attachment_def
  poisoned_def is_builtin_def shadow_effects_def shadow_effect_def assessAttachment_def outInterfaceDecided_def builtinMangleChains_def
  matchDisjoint_def matchCovers_def selector_objection_def mssSpecToRuleSpec_def empty_spec_def List.map_filter_def Let_def

lemma ex_proven:
  "\<exists>ob. ObserveChainSuitability (ex_mangle [ex_rule ex_jump] []) ex_chain_spec = Inr ob \<and> co_Status ob = SuitabilityProven"
  by (simp add: ex_chain_defs) (simp add: ex_chain_spec_def)

text \<open>The port of the jump is not compared: the chain is proven although only packets to that port ever enter it.\<close>

lemma port_jump_proven:
  "\<exists>ob. ObserveChainSuitability (ex_mangle [ex_rule (ex_jump\<lparr>rs_DestinationPort := ''443''\<rparr>)] []) ex_chain_spec = Inr ob \<and>
     co_Status ob = SuitabilityProven"
  by (simp add: ex_chain_defs) (simp add: ex_chain_spec_def)

text \<open>An interface wildcard is compared as a name: the jump admits \<open>tun0\<close>, and is said to exclude it.\<close>

lemma wildcard_jump_excluded:
  "(\<exists>ob. ObserveChainSuitability (ex_mangle [ex_rule (ex_jump\<lparr>rs_OutInterface := ''tun+''\<rparr>)] []) ex_chain_spec = Inr ob \<and>
     co_Reasons ob = [AttachmentExcludes ''raw'']) \<and> interface_matches ''tun+'' ''tun0''"
  by (simp add: ex_chain_defs interface_matches_def) (simp add: ex_chain_spec_def)

text \<open>
  A verdict before the append position that takes a part of the packets degrades nothing: the chain stays proven,
  although the comment of the file promises a verdict no better than UNKNOWN for a partial overlap.
\<close>

lemma partial_shadow_proven:
  "\<exists>ob. ObserveChainSuitability (ex_mangle [ex_rule ex_jump] [ex_rule (empty_spec\<lparr>rs_Source := ''10.8.0.5'', rs_Verdict := ''ACCEPT''\<rparr>)])
      ex_chain_spec = Inr ob \<and> co_Status ob = SuitabilityProven"
  by (simp add: ex_chain_defs) (simp add: ex_chain_spec_def)

text \<open>A supported rule without a specification, which the observation of the rule refuses, ends this assessment in a dereference.\<close>

lemma missing_spec_dereferenced:
  "ObserveChainSuitability (ex_mangle [ex_rule ex_jump] [(ex_rule ex_jump)\<lparr>ir_Spec := None\<rparr>]) ex_chain_spec = Inl NilDereference"
  by (simp add: ex_chain_defs) (simp add: ex_chain_spec_def)


end
