(* ===== verification/MSS_Execute.thy ===== *)
theory MSS_Execute
  imports MSS_Chain State_Plan Journal Apply_Engine
begin

text \<open>
  The way of an MSS rule to the machine: the planner (\<open>mssspec/action.go\<close>), the bounded executor (\<open>mssexec/executor.go\<close>) over
  injected boundaries, and its adapter to the transaction engine and the journal (\<open>mssadapter/adapter.go\<close>). The
  boundaries are functions on an arbitrary machine \<open>'s\<close>; what the theorems assume of them stands in the statements.
\<close>

subsection \<open>The planner (action.go)\<close>

definition RequiredMSSCapability :: "MSSActionSpec \<Rightarrow> (mss_error + cap_error, CapabilityID) result" where
  "RequiredMSSCapability a =
     (case Spec_Validate (mas_Spec a) of Some _ \<Rightarrow> Inl (Inl ErrMSSActionSpecInvalid)
      | None \<Rightarrow> (case DeriveFirewallMSSClamp [ms_OutInterface (mas_Spec a)] of Inl e \<Rightarrow> Inl (Inr e) | Inr c \<Rightarrow> Inr c))"

datatype plan_reason =
    AbsenceProven | MatchesDesired | OccupiedDifferently | FromObservation mss_reason | FromChain chain_reason
  | PrerequisitesUndeterminable | NoCreate | PrerequisitesNotProven | NotEffectiveness ChainSuitability

definition PlanMSSAction ::
  "(Spec \<Rightarrow> SpecHash) \<Rightarrow> DesiredMSSRule \<Rightarrow> MSSObservation \<Rightarrow> ChainObservation \<Rightarrow> (mss_error, plan_reason MSSPlanDecision) result" where
  "PlanMSSAction digest rule ob chain =
     (case BuildMSSAction digest rule of Inl e \<Rightarrow> Inl e
      | Inr action \<Rightarrow>
     (case ClassifyLiveState digest rule ob of Inl e \<Rightarrow> Inl e
      | Inr collision \<Rightarrow>
          (let why = map FromChain (co_Reasons chain);
               dec = (\<lambda>st act rs. Inr \<lparr>mpd_Outcome = st, mpd_Action = act, mpd_Reasons = rs\<rparr>) in
           case collision of
             CollisionNone \<Rightarrow>
               (case co_Status chain of
                  SuitabilityProven \<Rightarrow> dec PlannerCreateMSSRule (Some action) (AbsenceProven # why)
                | SuitabilityUnknown \<Rightarrow> dec PlannerUnknown None (PrerequisitesUndeterminable # why @ [NoCreate])
                | _ \<Rightarrow> dec PlannerBlockedPrerequisite None (PrerequisitesNotProven # why))
           | CollisionOccupiedMatchingSpec \<Rightarrow>
               dec PlannerNoAction None (MatchesDesired #
                 (if co_Status chain \<noteq> SuitabilityProven then NotEffectiveness (co_Status chain) # why else []))
           | CollisionOccupiedConflictingSpec \<Rightarrow> dec PlannerBlockedCollision None [OccupiedDifferently]
           | CollisionAmbiguous \<Rightarrow> dec PlannerUnknown None (map FromObservation (ob_Reasons ob)))))"

subsection \<open>The bounded executor (executor.go)\<close>

datatype ExecutionStage = StageHostGate | StagePreObservation | StageCommand | StagePostObservation | StageDone

datatype ensure_reason =
    HostUnavailable | HostNotBound | HostReadFailed string | HostMalformed machineid_error | HostMismatch
  | PreObservationFailed string | PreObservationRefused mss_error | PreChainRefused chain_error | PrePlanFailed mss_error
  | NotProvenAbsent | Planner plan_reason | DerivationFailed mss_error | CommandFailed string
  | PostObservationFailed string | PostObservationRefused mss_error | PostNotPresent MSSObservationStatus
  | PostFingerprintFailed mss_error | PostHashMismatch | PostChainRefused chain_error | PostPlanFailed mss_error
  | PostPlanIs MSSPlannerOutcome | IssuedAndVerified

record MSSResult =
  xr_Proven :: bool
  xr_Stage :: ExecutionStage
  xr_PlannerOutcome :: "MSSPlannerOutcome option"
  xr_Reasons :: "ensure_reason list"
  xr_ObservedSpecHash :: "SpecHash option"

text \<open>Errors of a call that did not start; a dereference of a missing specification ends it too.\<close>

datatype ensure_error = NoRunner | NoSnapshot | RevalidationFailed mss_error | EnsurePanic

record 's Ensurer =
  en_Run :: "(string list \<Rightarrow> 's step) option"
  en_Snapshot :: "('s \<Rightarrow> (string + Firewall) \<times> 's) option"
  en_CurrentHost :: "('s \<Rightarrow> (string + string) \<times> 's) option"
  en_ExpectedHost :: string

definition canonical_host :: "string \<Rightarrow> (machineid_error, string) result" where
  "canonical_host v =
     (if HasPrefix v HostIdentityPrefix
      then (case Normalize (TrimPrefix v HostIdentityPrefix) of Inl e \<Rightarrow> Inl e | Inr i \<Rightarrow> Inr (HostIdentityPrefix @ i))
      else HostIdentity v)"

definition VerifyHostBinding :: "string \<Rightarrow> string \<Rightarrow> ensure_reason option" where
  "VerifyHostBinding expected current =
     (case canonical_host expected of Inl e \<Rightarrow> Some (HostMalformed e)
      | Inr want \<Rightarrow> (case canonical_host current of Inl e \<Rightarrow> Some (HostMalformed e)
      | Inr got \<Rightarrow> if want \<noteq> got then Some HostMismatch else None))"

definition stopped :: "ExecutionStage \<Rightarrow> MSSPlannerOutcome option \<Rightarrow> ensure_reason list \<Rightarrow> MSSResult" where
  "stopped st out why = \<lparr>xr_Proven = False, xr_Stage = st, xr_PlannerOutcome = out, xr_Reasons = why, xr_ObservedSpecHash = None\<rparr>"

text \<open>Leg 2, the host gate: the reason of a denial.\<close>

definition host_gate :: "'s Ensurer \<Rightarrow> 's \<Rightarrow> ensure_reason option \<times> 's" where
  "host_gate e s =
     (case en_CurrentHost e of None \<Rightarrow> (Some HostUnavailable, s)
      | Some read \<Rightarrow>
          if TrimSpace (en_ExpectedHost e) = '''' then (Some HostNotBound, s)
          else (case read s of
              (Inl err, s1) \<Rightarrow> (Some (HostReadFailed err), s1)
            | (Inr current, s1) \<Rightarrow> (VerifyHostBinding (en_ExpectedHost e) current, s1)))"

text \<open>Leg 3, the gate before the command on one snapshot: a stop, or the planner's decision to create.\<close>

definition pre_gate :: "(Spec \<Rightarrow> SpecHash) \<Rightarrow> MSSActionSpec \<Rightarrow> string + Firewall \<Rightarrow> (ensure_error + MSSResult) + MSSPlannerOutcome" where
  "pre_gate digest action snap =
     (let unknown = (\<lambda>why. Inl (Inr (stopped StagePreObservation (Some PlannerUnknown) [why]))) in
      case snap of Inl err \<Rightarrow> unknown (PreObservationFailed err)
      | Inr fw \<Rightarrow>
     (case ObserveMSSRule fw (mas_Identity action) of Inl err \<Rightarrow> unknown (PreObservationRefused err)
      | Inr ob \<Rightarrow>
     (case ObserveChainSuitability fw (mas_Spec action) of
        Inl NilDereference \<Rightarrow> Inl (Inl EnsurePanic)
      | Inl err \<Rightarrow> unknown (PreChainRefused err)
      | Inr chain \<Rightarrow>
     (case PlanMSSAction digest action ob chain of Inl err \<Rightarrow> unknown (PrePlanFailed err)
      | Inr dec \<Rightarrow>
          if mpd_Outcome dec \<noteq> PlannerCreateMSSRule
          then Inl (Inr (stopped StagePreObservation (Some (mpd_Outcome dec)) (NotProvenAbsent # map Planner (mpd_Reasons dec))))
          else Inr (mpd_Outcome dec)))))"

text \<open>Leg 5, the verification after the command on a second snapshot.\<close>

definition post_check :: "(Spec \<Rightarrow> SpecHash) \<Rightarrow> MSSActionSpec \<Rightarrow> MSSPlannerOutcome \<Rightarrow> string + Firewall \<Rightarrow> ensure_error + MSSResult" where
  "post_check digest action out snap =
     (let refused = (\<lambda>why. Inr (stopped StagePostObservation (Some out) [why])) in
      case snap of Inl err \<Rightarrow> refused (PostObservationFailed err)
      | Inr fw \<Rightarrow>
     (case ObserveMSSRule fw (mas_Identity action) of Inl err \<Rightarrow> refused (PostObservationRefused err)
      | Inr ob \<Rightarrow>
     (case (ob_Status ob, ob_Spec ob) of
        (MSSPresent, Some spec) \<Rightarrow>
          (case SpecFingerprint digest spec of Inl err \<Rightarrow> refused (PostFingerprintFailed err)
           | Inr h \<Rightarrow>
               if h \<noteq> mas_SpecHash action
               then Inr ((stopped StagePostObservation (Some out) [PostHashMismatch])\<lparr>xr_ObservedSpecHash := Some h\<rparr>)
               else (case ObserveChainSuitability fw (mas_Spec action) of
                 Inl NilDereference \<Rightarrow> Inl EnsurePanic
               | Inl err \<Rightarrow> refused (PostChainRefused err)
               | Inr chain \<Rightarrow>
                   (case PlanMSSAction digest action ob chain of Inl err \<Rightarrow> refused (PostPlanFailed err)
                    | Inr dec \<Rightarrow>
                        if mpd_Outcome dec \<noteq> PlannerNoAction then refused (PostPlanIs (mpd_Outcome dec))
                        else Inr \<lparr>xr_Proven = True, xr_Stage = StageDone, xr_PlannerOutcome = Some out,
                               xr_Reasons = [IssuedAndVerified], xr_ObservedSpecHash = Some h\<rparr>)))
      | _ \<Rightarrow> refused (PostNotPresent (ob_Status ob)))))"

definition Ensure :: "(Spec \<Rightarrow> SpecHash) \<Rightarrow> 's Ensurer \<Rightarrow> MSSActionSpec \<Rightarrow> 's \<Rightarrow> (ensure_error, MSSResult) result \<times> 's" where
  "Ensure digest e action s =
     (case en_Run e of None \<Rightarrow> (Inl NoRunner, s)
      | Some run \<Rightarrow>
     (case en_Snapshot e of None \<Rightarrow> (Inl NoSnapshot, s)
      | Some look \<Rightarrow>
     (case BuildMSSAction digest action of Inl err \<Rightarrow> (Inl (RevalidationFailed err), s)
      | Inr _ \<Rightarrow>
     (case host_gate e s of
        (Some why, s1) \<Rightarrow> (Inr (stopped StageHostGate None [why]), s1)
      | (None, s1) \<Rightarrow>
     (case look s1 of (snap, s2) \<Rightarrow>
     (case pre_gate digest action snap of
        Inl r \<Rightarrow> (r, s2)
      | Inr out \<Rightarrow>
     (case InsertCommand digest action of
        Inl err \<Rightarrow> (Inr (stopped StagePreObservation (Some out) [DerivationFailed err]), s2)
      | Inr argv \<Rightarrow>
     (case run argv s2 of
        (Some err, s3) \<Rightarrow> (Inr (stopped StageCommand (Some out) [CommandFailed err]), s3)
      | (None, s3) \<Rightarrow> (case look s3 of (post, s4) \<Rightarrow> (post_check digest action out post, s4))))))))))"


subsection \<open>The adapter (adapter.go)\<close>

record 's Adapter =
  ad_Ensurer :: "'s Ensurer option"
  ad_HasJournal :: bool
  ad_HasContext :: bool
  ad_Now :: "'s \<Rightarrow> time"

text \<open>The fields an execution changes, and the world of the adapter: the machine, the journal and its own state.\<close>

record AdapterState =
  as_txID :: string
  as_txLocked :: bool
  as_txBroken :: bool
  as_actions :: "(string \<rightharpoonup> Action) option"
  as_results :: "string \<rightharpoonup> MSSResult"

record 's AWorld =
  aw_Machine :: 's
  aw_Journal :: JStore
  aw_State :: AdapterState

definition BindTransaction :: "string \<Rightarrow> AdapterState \<Rightarrow> AdapterState" where
  "BindTransaction tx st =
     (if as_txLocked st \<and> as_txID st \<noteq> tx then st\<lparr>as_txBroken := True\<rparr> else st\<lparr>as_txID := tx, as_txLocked := True\<rparr>)"

definition BindActions :: "(string \<rightharpoonup> Action) \<Rightarrow> AdapterState \<Rightarrow> AdapterState" where
  "BindActions actions st = st\<lparr>as_actions := Some actions\<rparr>"

definition transactionGuard :: "AdapterState \<Rightarrow> string option" where
  "transactionGuard st =
     (if as_txBroken st then Some ''transaction context was rebound to a different transaction mid-flight''
      else if as_txID st = '''' then Some ''no transaction context bound'' else None)"

definition boundAction :: "(Spec \<Rightarrow> SpecHash) \<Rightarrow> AdapterState \<Rightarrow> string \<Rightarrow> string \<Rightarrow> ActionKind option \<Rightarrow> (string, MSSActionSpec) result" where
  "boundAction digest st aid resource kind =
     (if kind \<noteq> None \<and> kind \<noteq> Some (ActionOther '''') \<and> kind \<noteq> Some ActionMSSRule then Inl ''wrong kind of the call''
      else case as_actions st of None \<Rightarrow> Inl ''no action registry configured''
      | Some actions \<Rightarrow>
     (case actions aid of None \<Rightarrow> Inl ''no such action in the bound registry''
      | Some act \<Rightarrow>
          if a_Kind act \<noteq> ActionMSSRule then Inl ''wrong kind of the action''
          else case a_Spec act of None \<Rightarrow> Inl ''MSS action without a typed MSS spec''
          | Some sp \<Rightarrow>
         (case asp_MSS sp of None \<Rightarrow> Inl ''MSS action without a typed MSS spec''
          | Some mss \<Rightarrow>
              if a_Resource act \<noteq> resource then Inl ''bound at another resource''
              else case ValidateMSSActionSpec digest act of Some _ \<Rightarrow> Inl ''failed MSS revalidation'' | None \<Rightarrow> Inr mss)))"

definition ad_Backup :: "(Spec \<Rightarrow> SpecHash) \<Rightarrow> string \<Rightarrow> string \<Rightarrow> 's AWorld step" where
  "ad_Backup digest aid resource w =
     (case transactionGuard (aw_State w) of Some e \<Rightarrow> (Some e, w)
      | None \<Rightarrow> (case boundAction digest (aw_State w) aid resource None of Inl e \<Rightarrow> (Some e, w) | Inr _ \<Rightarrow> (None, w)))"

text \<open>The durable record of the observed hash, whatever it turned out to be, before the verdict.\<close>

definition record_observed :: "'s Adapter \<Rightarrow> string \<Rightarrow> string \<Rightarrow> SpecHash option \<Rightarrow> 's AWorld step" where
  "record_observed ad aid resource observed w =
     (case observed of None \<Rightarrow> (None, w)
      | Some h \<Rightarrow>
          if SpecHash_IsZero h then (None, w)
          else (case RecordObservedSpecHash (ad_Now ad (aw_Machine w)) (as_txID (aw_State w)) aid resource h (aw_Journal w) of
              (Inl _, j) \<Rightarrow> (Some ''durable postcondition recording failed after the mutation attempt'', w\<lparr>aw_Journal := j\<rparr>)
            | (Inr _, j) \<Rightarrow> (None, w\<lparr>aw_Journal := j\<rparr>)))"

definition ad_Apply :: "(Spec \<Rightarrow> SpecHash) \<Rightarrow> 's Adapter \<Rightarrow> string \<Rightarrow> string \<Rightarrow> ActionKind \<Rightarrow> 's AWorld step" where
  "ad_Apply digest ad aid resource kind w =
     (case transactionGuard (aw_State w) of Some e \<Rightarrow> (Some e, w)
      | None \<Rightarrow>
      if \<not> ad_HasJournal ad then (Some ''no J4 writer configured'', w)
      else case ad_Ensurer ad of None \<Rightarrow> (Some ''no bounded executor configured'', w)
      | Some e \<Rightarrow>
      if \<not> ad_HasContext ad then (Some ''no execution context configured'', w)
      else case boundAction digest (aw_State w) aid resource (Some kind) of Inl err \<Rightarrow> (Some err, w)
      | Inr mss \<Rightarrow>
     (case Ensure digest e mss (aw_Machine w) of
        (Inl _, m) \<Rightarrow> (Some ''mss ensure'', w\<lparr>aw_Machine := m\<rparr>)
      | (Inr res, m) \<Rightarrow>
          (case record_observed ad aid resource (xr_ObservedSpecHash res)
                  (w\<lparr>aw_Machine := m, aw_State := (aw_State w)\<lparr>as_results := (as_results (aw_State w))(aid \<mapsto> res)\<rparr>\<rparr>) of
             (Some err, w1) \<Rightarrow> (Some err, w1)
           | (None, w1) \<Rightarrow> (if \<not> xr_Proven res then (Some ''mss ensure did not prove the postcondition'', w1) else (None, w1)))))"

definition ad_Validate :: "(Spec \<Rightarrow> SpecHash) \<Rightarrow> 's Adapter \<Rightarrow> string \<Rightarrow> string \<Rightarrow> 's AWorld step" where
  "ad_Validate digest ad aid resource w =
     (if \<not> ad_HasJournal ad then (Some ''no J4 writer configured'', w)
      else case boundAction digest (aw_State w) aid resource None of Inl e \<Rightarrow> (Some e, w)
      | Inr mss \<Rightarrow>
     (case as_results (aw_State w) aid of None \<Rightarrow> (Some ''no execution result for the action'', w)
      | Some res \<Rightarrow>
          if \<not> xr_Proven res then (Some ''MSS execution was not proven'', w)
          else case xr_ObservedSpecHash res of None \<Rightarrow> (Some ''no observed postcondition hash'', w)
          | Some h \<Rightarrow>
              if SpecHash_IsZero h then (Some ''no observed postcondition hash'', w)
              else if h \<noteq> mas_SpecHash mss then (Some ''observed postcondition differs from the intended'', w)
              else (None, w)))"

definition ad_Rollback :: "string \<Rightarrow> string \<Rightarrow> 's AWorld step" where
  "ad_Rollback aid resource w = (Some ''rollback is not authorized for MSS actions'', w)"

definition mss_executor :: "(Spec \<Rightarrow> SpecHash) \<Rightarrow> 's Adapter \<Rightarrow> 's AWorld Executor" where
  "mss_executor digest ad = \<lparr>ex_Backup = ad_Backup digest, ex_Apply = ad_Apply digest ad, ex_Validate = ad_Validate digest ad,
     ex_Rollback = ad_Rollback\<rparr>"

subsection \<open>What an attempt does to the machine\<close>

text \<open>The two boundaries that observe.\<close>

definition read_steps :: "'s Ensurer \<Rightarrow> ('s \<times> 's) set" where
  "read_steps e = {(s, s'). (\<exists>read r. en_CurrentHost e = Some read \<and> read s = (r, s')) \<or>
     (\<exists>look r. en_Snapshot e = Some look \<and> look s = (r, s'))}"

lemma host_gate_reads: "host_gate e s = (r, s') \<Longrightarrow> (s, s') \<in> (read_steps e)\<^sup>*"
  by (auto simp: host_gate_def read_steps_def split: option.splits if_splits prod.splits sum.splits)

lemma host_gate_None:
  "host_gate e s = (None, s') \<Longrightarrow> \<exists>read current. en_CurrentHost e = Some read \<and> read s = (Inr current, s') \<and>
     VerifyHostBinding (en_ExpectedHost e) current = None"
  by (auto simp: host_gate_def split: option.splits if_splits prod.splits sum.splits)

lemma PlanMSSAction_create:
  "PlanMSSAction digest rule ob chain = Inr dec \<Longrightarrow> mpd_Outcome dec = PlannerCreateMSSRule \<Longrightarrow>
     ob_Identity ob = mas_Identity rule \<and> ob_Status ob = MSSAbsent \<and> co_Status chain = SuitabilityProven"
  by (auto simp: PlanMSSAction_def ClassifyLiveState_def Let_def
      split: sum.splits LiveCollision.splits ChainSuitability.splits if_splits MSSObservationStatus.splits option.splits)

lemma pre_gate_Inr:
  assumes "pre_gate digest action snap = Inr out"
  shows "out = PlannerCreateMSSRule \<and> (\<exists>fw ob chain. snap = Inr fw \<and> ObserveMSSRule fw (mas_Identity action) = Inr ob \<and>
     ob_Status ob = MSSAbsent \<and> ObserveChainSuitability fw (mas_Spec action) = Inr chain \<and> co_Status chain = SuitabilityProven)"
  using assms PlanMSSAction_create
  by (auto simp: pre_gate_def Let_def split: sum.splits chain_error.splits if_splits)

lemma pre_gate_Inl:
  "pre_gate digest action snap = Inl (Inr res) \<Longrightarrow> \<not> xr_Proven res \<and> xr_Stage res = StagePreObservation \<and> xr_ObservedSpecHash res = None"
  by (auto simp: pre_gate_def Let_def stopped_def split: sum.splits chain_error.splits if_splits)

lemma post_check_proven:
  assumes "post_check digest action out snap = Inr res" and "xr_Proven res"
  shows "\<exists>fw ob spec. snap = Inr fw \<and> ObserveMSSRule fw (mas_Identity action) = Inr ob \<and> ob_Status ob = MSSPresent \<and>
     ob_Spec ob = Some spec \<and> digest (mssSpecPayload spec) = mas_SpecHash action \<and> xr_ObservedSpecHash res = Some (mas_SpecHash action) \<and>
     xr_Stage res = StageDone"
  using assms
  by (auto simp: post_check_def Let_def stopped_def SpecFingerprint_def
      split: sum.splits chain_error.splits if_splits MSSObservationStatus.splits option.splits)

text \<open>An attempt before its command: everything up to the decision to create.\<close>

definition cleared :: "(Spec \<Rightarrow> SpecHash) \<Rightarrow> 's Ensurer \<Rightarrow> MSSActionSpec \<Rightarrow> 's \<Rightarrow> 's \<Rightarrow> bool" where
  "cleared digest e action s s2 \<longleftrightarrow>
     (\<exists>read current s1 look fw ob chain. en_CurrentHost e = Some read \<and> read s = (Inr current, s1) \<and>
        VerifyHostBinding (en_ExpectedHost e) current = None \<and> en_Snapshot e = Some look \<and> look s1 = (Inr fw, s2) \<and>
        ObserveMSSRule fw (mas_Identity action) = Inr ob \<and> ob_Status ob = MSSAbsent \<and>
        ObserveChainSuitability fw (mas_Spec action) = Inr chain \<and> co_Status chain = SuitabilityProven)"

definition unproven_before :: "(ensure_error, MSSResult) result \<Rightarrow> bool" where
  "unproven_before r \<longleftrightarrow> (case r of Inl _ \<Rightarrow> True
     | Inr res \<Rightarrow> \<not> xr_Proven res \<and> xr_Stage res \<in> {StageHostGate, StagePreObservation} \<and> xr_ObservedSpecHash res = None)"

lemma Ensure_cases:
  assumes "Ensure digest e action s = (r, s')"
  obtains (reads) "(s, s') \<in> (read_steps e)\<^sup>*" "unproven_before r"
    | (command) run argv s2 err where "en_Run e = Some run" "cleared digest e action s s2" "InsertCommand digest action = Inr argv"
        "run argv s2 = (Some err, s')" "r = Inr (stopped StageCommand (Some PlannerCreateMSSRule) [CommandFailed err])"
    | (checked) run argv s2 s3 look post where "en_Run e = Some run" "cleared digest e action s s2"
        "InsertCommand digest action = Inr argv" "run argv s2 = (None, s3)" "en_Snapshot e = Some look"
        "look s3 = (post, s')" "r = post_check digest action PlannerCreateMSSRule post"
proof (cases "en_Run e = None \<or> en_Snapshot e = None \<or> isl (BuildMSSAction digest action)")
  case True
  then show thesis
    using assms by (intro reads) (auto simp: Ensure_def unproven_before_def isl_def split: option.splits sum.splits)
next
  case False
  then obtain run look v where ok: "en_Run e = Some run" "en_Snapshot e = Some look" "BuildMSSAction digest action = Inr v"
    by (cases "BuildMSSAction digest action") auto
  obtain h s1 where h: "host_gate e s = (h, s1)" by fastforce
  note reads1 = host_gate_reads [OF h]
  show thesis
  proof (cases h)
    case (Some why)
    with assms ok h have "s' = s1" "r = Inr (stopped StageHostGate None [why])" by (simp_all add: Ensure_def)
    with reads1 show thesis by (intro reads) (simp_all add: unproven_before_def stopped_def)
  next
    case None
    obtain snap s2 where snap: "look s1 = (snap, s2)" by fastforce
    then have "(s1, s2) \<in> read_steps e" using ok(2) by (auto simp: read_steps_def)
    with reads1 have reads2: "(s, s2) \<in> (read_steps e)\<^sup>*" by simp
    show thesis
    proof (cases "pre_gate digest action snap")
      case (Inl r1)
      with assms ok h None snap have "s' = s2" "r = r1" by (simp_all add: Ensure_def)
      with reads2 Inl show thesis
        by (intro reads) (auto simp: unproven_before_def dest: pre_gate_Inl split: sum.splits)
    next
      case (Inr out)
      from pre_gate_Inr [OF Inr] have out: "out = PlannerCreateMSSRule" by blast
      have cleared: "cleared digest e action s s2"
        using host_gate_None [OF h [unfolded None]] pre_gate_Inr [OF Inr] ok(2) snap unfolding cleared_def by blast
      obtain argv where argv: "InsertCommand digest action = Inr argv" using ok(3) by (simp add: InsertCommand_def)
      obtain err s3 where run: "run argv s2 = (err, s3)" by fastforce
      show thesis
      proof (cases err)
        case (Some why)
        with assms ok h None snap Inr argv run out have "s' = s3" "r = Inr (stopped StageCommand (Some PlannerCreateMSSRule) [CommandFailed why])"
          by (simp_all add: Ensure_def)
        with ok(1) cleared argv run Some show thesis by (intro command [of run s2 argv why]) simp_all
      next
        case none: None
        obtain post s4 where post: "look s3 = (post, s4)" by fastforce
        with assms ok h None snap Inr argv run out none have "s' = s4" "r = post_check digest action PlannerCreateMSSRule post"
          by (simp_all add: Ensure_def)
        with ok cleared argv run none post show thesis by (intro checked [of run s2 argv s3 look post]) simp_all
      qed
    qed
  qed
qed

text \<open>
  C38. The bounded executor touches the machine with one command at most. For every machine and all boundaries, however they
  behave: an attempt either only observed, and then reports nothing proven; or it issued the insert command of the
  validated action once, after the approved host was confirmed and a snapshot showed the coordinate ABSENT and the
  chain PROVEN. It reports a proven result only if the command succeeded and a second snapshot shows the rule
  PRESENT with exactly the planned hash.
\<close>

theorem ensure_sound:
  assumes "Ensure digest e action s = (r, s')"
  shows "(s, s') \<in> (read_steps e)\<^sup>* \<and> unproven_before r \<or>
    (\<exists>run argv s2 outcome s3. en_Run e = Some run \<and> InsertCommand digest action = Inr argv \<and> cleared digest e action s s2 \<and>
       run argv s2 = (outcome, s3) \<and> (s3, s') \<in> (read_steps e)\<^sup>* \<and>
       (\<forall>res. r = Inr res \<and> xr_Proven res \<longrightarrow> outcome = None \<and> xr_Stage res = StageDone \<and>
          xr_ObservedSpecHash res = Some (mas_SpecHash action) \<and>
          (\<exists>look fw ob spec. en_Snapshot e = Some look \<and> look s3 = (Inr fw, s') \<and>
             ObserveMSSRule fw (mas_Identity action) = Inr ob \<and> ob_Status ob = MSSPresent \<and> ob_Spec ob = Some spec \<and>
             digest (mssSpecPayload spec) = mas_SpecHash action)))"
  using assms
proof (cases rule: Ensure_cases)
  case reads
  then show ?thesis by blast
next
  case (command run argv s2 err)
  then show ?thesis by (auto simp: stopped_def)
next
  case (checked run argv s2 s3 look post)
  have "(s3, s') \<in> read_steps e" using checked(5,6) by (auto simp: read_steps_def)
  then have "(s3, s') \<in> (read_steps e)\<^sup>*" by simp
  moreover have "\<forall>res. r = Inr res \<and> xr_Proven res \<longrightarrow> xr_Stage res = StageDone \<and>
          xr_ObservedSpecHash res = Some (mas_SpecHash action) \<and>
          (\<exists>look fw ob spec. en_Snapshot e = Some look \<and> look s3 = (Inr fw, s') \<and>
             ObserveMSSRule fw (mas_Identity action) = Inr ob \<and> ob_Status ob = MSSPresent \<and> ob_Spec ob = Some spec \<and>
             digest (mssSpecPayload spec) = mas_SpecHash action)"
    using post_check_proven [of digest action PlannerCreateMSSRule post] checked(5-7) by (metis (no_types, lifting))
  ultimately show ?thesis using checked(1-4) by blast
qed


subsection \<open>An honest machine\<close>

text \<open>
  A machine whose mangle table is the text of its listing: the insert command appends its rule part as a line, a
  snapshot is the parse of the listing, and the host is fixed.
\<close>

definition listing_machine :: "IPTablesRuleInventory \<Rightarrow> string \<Rightarrow> string \<Rightarrow> string Ensurer" where
  "listing_machine iv host expected =
     \<lparr>en_Run = Some (\<lambda>argv s. (None, s @ newline # JoinWith (CHR '' '') (drop 3 argv))),
      en_Snapshot = Some (\<lambda>s. (Inr (snapshot iv s), s)), en_CurrentHost = Some (\<lambda>s. (Inr host, s)), en_ExpectedHost = expected\<rparr>"

lemma listing_machine_fields:
  "en_Run (listing_machine iv host expected) = Some (\<lambda>argv s. (None, s @ newline # JoinWith (CHR '' '') (drop 3 argv)))"
  "en_Snapshot (listing_machine iv host expected) = Some (\<lambda>s. (Inr (snapshot iv s), s))"
  "en_CurrentHost (listing_machine iv host expected) = Some (\<lambda>s. (Inr host, s))"
  "en_ExpectedHost (listing_machine iv host expected) = expected"
  by (simp_all add: listing_machine_def)

lemma canonical_host_nonblank: "canonical_host v = Inr w \<Longrightarrow> TrimSpace v \<noteq> ''''"
proof (cases "HasPrefix v HostIdentityPrefix")
  case True
  then obtain u where "v = HostIdentityPrefix @ u" by (auto simp: prefix_def)
  then show ?thesis unfolding TrimSpace_nonempty by (simp add: is_space_def)
next
  case False
  assume "canonical_host v = Inr w"
  with False have "ToLower (TrimSpace v) \<noteq> ''''"
    by (auto simp: canonical_host_def HostIdentity_def Normalize_def Let_def split: if_splits sum.splits)
  then show ?thesis by (auto simp: ToLower_def)
qed

lemma parsed_rule_spec: "ir_Supported (parseIPTablesRuleSpec raw f) \<longleftrightarrow> ir_Spec (parseIPTablesRuleSpec raw f) \<noteq> None"
  by (simp add: parseIPTablesRuleSpec_def unsupported_rule_def split: sum.splits)

lemma line_rule_spec: "line_rule raw = Some (n, r) \<Longrightarrow> ir_Supported r \<longleftrightarrow> ir_Spec r \<noteq> None"
  using parsed_rule_spec by (auto simp: line_rule_def Let_def unsupported_rule_def split: if_splits)

lemma snapshot_rule_spec:
  assumes "c \<in> set (iv_Chains (fw_IPTablesMangleRules (snapshot iv listing)))" and "r \<in> set (ic_Rules c)"
  shows "ir_Supported r \<longleftrightarrow> ir_Spec r \<noteq> None"
proof -
  have "r \<in> set (rules_of (ic_Name c) (parseIPTablesRules listing))"
    using assms by (auto simp: rules_of_def snapshot_def)
  then obtain line where "r \<in> set (line_rules (ic_Name c) line)" by (auto simp: parse_listing)
  then have "line_rule line = Some (ic_Name c, r)" by (auto simp: line_rules_def split: option.splits if_splits)
  then show ?thesis by (rule line_rule_spec)
qed

text \<open>On the parse of a listing the assessment of a chain never fails.\<close>

lemma chain_assessed:
  assumes "Spec_Validate spec = None" and "ms_Table spec = ''mangle''"
  shows "\<exists>ob. ObserveChainSuitability (snapshot iv listing) spec = Inr ob"
proof (cases "ObserveChainSuitability (snapshot iv listing) spec")
  case (Inl err)
  let ?cs = "iv_Chains (fw_IPTablesMangleRules (snapshot iv listing))"
  have c: "iv_Status (fw_IPTablesMangleRules (snapshot iv listing)) = FieldStatusPresent"
    "iv_Table (fw_IPTablesMangleRules (snapshot iv listing)) = ''mangle''" by (simp_all add: snapshot_def)
  from Inl have "\<exists>target. filter (\<lambda>c. ic_Name c = ms_Chain spec) ?cs = [target] \<and>
      poisoned (ms_Chain spec) ?cs = [] \<and> list_ex (\<lambda>r. ir_Spec r = None) (ic_Rules target)"
    unfolding ObserveChainSuitability_def Let_def
    by (auto simp: assms c split: list.splits if_splits prod.splits option.splits)
  then obtain target r where t: "filter (\<lambda>c. ic_Name c = ms_Chain spec) ?cs = [target]" "poisoned (ms_Chain spec) ?cs = []"
    and r: "r \<in> set (ic_Rules target)" "ir_Spec r = None" by (auto simp: list_ex_iff)
  have "target \<in> set (filter (\<lambda>c. ic_Name c = ms_Chain spec) ?cs)" by (simp add: t(1))
  then have target: "target \<in> set ?cs" "ic_Name target = ms_Chain spec" by simp_all
  with t(2) r(1) have "ir_Supported r" by (auto simp: poisoned_def filter_empty_conv list_ex_iff)
  with snapshot_rule_spec [OF target(1) r(1)] r(2) show ?thesis by simp
qed simp

lemma classify_absent: "ob_Identity ob = mas_Identity d \<Longrightarrow> ob_Status ob = MSSAbsent \<Longrightarrow> ClassifyLiveState digest d ob = Inr CollisionNone"
  by (simp add: ClassifyLiveState_def)

lemma plan_present:
  assumes "BuildDesiredMSSRule digest inp = Inr d" and "BuildMSSAction digest d = Inr d"
    and "ob = \<lparr>ob_Status = MSSPresent, ob_Identity = mas_Identity d, ob_Spec = Some (mas_Spec d), ob_Reasons = why\<rparr>"
  shows "\<exists>dec. PlanMSSAction digest d ob chain = Inr dec \<and> mpd_Outcome dec = PlannerNoAction"
  using BuildDesired_Inr(6,7) [OF assms(1)] assms(2)
  by (simp add: PlanMSSAction_def ClassifyLiveState_def assms(3) SpecFingerprint_def Let_def)

lemma listing_attempt:
  assumes d: "BuildDesiredMSSRule digest inp = Inr d" and host: "VerifyHostBinding expected host = None"
    and ob: "ObserveMSSRule (snapshot iv s) (mas_Identity d) = Inr ob" and absent: "ob_Status ob = MSSAbsent"
    and co: "ObserveChainSuitability (snapshot iv s) (mas_Spec d) = Inr co" and proven: "co_Status co = SuitabilityProven"
  shows "\<exists>argv s' again. InsertCommand digest d = Inr argv \<and> s' = s @ newline # JoinWith (CHR '' '') (drop 3 argv) \<and>
    Ensure digest (listing_machine iv host expected) d s = (Inr \<lparr>xr_Proven = True, xr_Stage = StageDone,
      xr_PlannerOutcome = Some PlannerCreateMSSRule, xr_Reasons = [IssuedAndVerified], xr_ObservedSpecHash = Some (mas_SpecHash d)\<rparr>, s') \<and>
    Ensure digest (listing_machine iv host expected) d s' = (Inr again, s') \<and> \<not> xr_Proven again \<and>
    xr_Stage again = StagePreObservation \<and> xr_PlannerOutcome again = Some PlannerNoAction"
proof -
  let ?e = "listing_machine iv host expected"
  from inserted_rule_present [OF d ob absent] obtain argv where argv: "InsertCommand digest d = Inr argv"
    and present: "ObserveMSSRule (snapshot iv (s @ newline # JoinWith (CHR '' '') (drop 3 argv))) (mas_Identity d) =
      Inr \<lparr>ob_Status = MSSPresent, ob_Identity = mas_Identity d, ob_Spec = Some (mas_Spec d), ob_Reasons = [SingleObservation]\<rparr>" by blast
  let ?s' = "s @ newline # JoinWith (CHR '' '') (drop 3 argv)"
  note build = InsertCommand_Inr [OF argv]
  note facts = BuildDesired_Inr [OF d]
  have table: "ms_Table (mas_Spec d) = ''mangle''" by (simp add: facts(9))
  obtain post where post: "ObserveChainSuitability (snapshot iv ?s') (mas_Spec d) = Inr post"
    using chain_assessed [OF facts(7) table] by blast
  obtain dec where dec: "PlanMSSAction digest d \<lparr>ob_Status = MSSPresent, ob_Identity = mas_Identity d, ob_Spec = Some (mas_Spec d),
      ob_Reasons = [SingleObservation]\<rparr> post = Inr dec" "mpd_Outcome dec = PlannerNoAction"
    using plan_present [OF d build] by blast
  have "canonical_host expected \<noteq> Inl err" for err using host by (auto simp: VerifyHostBinding_def)
  then obtain w where "canonical_host expected = Inr w" by (cases "canonical_host expected") auto
  then have gate: "host_gate ?e t = (None, t)" for t
    using canonical_host_nonblank host by (simp add: host_gate_def listing_machine_fields)
  have "ob_Identity ob = mas_Identity d" using ObserveMSSRule_Inr [OF ob] by simp
  then have plan: "PlanMSSAction digest d ob co = Inr \<lparr>mpd_Outcome = PlannerCreateMSSRule, mpd_Action = Some d,
      mpd_Reasons = AbsenceProven # map FromChain (co_Reasons co)\<rparr>"
    using absent proven build by (simp add: PlanMSSAction_def ClassifyLiveState_def Let_def)
  have pre: "pre_gate digest d (Inr (snapshot iv s)) = Inr PlannerCreateMSSRule"
    by (simp add: pre_gate_def ob co plan)
  have check: "post_check digest d PlannerCreateMSSRule (Inr (snapshot iv ?s')) = Inr \<lparr>xr_Proven = True, xr_Stage = StageDone,
      xr_PlannerOutcome = Some PlannerCreateMSSRule, xr_Reasons = [IssuedAndVerified], xr_ObservedSpecHash = Some (mas_SpecHash d)\<rparr>"
    using facts(6,7) by (simp add: post_check_def present post dec SpecFingerprint_def)
  have first: "Ensure digest ?e d s = (Inr \<lparr>xr_Proven = True, xr_Stage = StageDone,
      xr_PlannerOutcome = Some PlannerCreateMSSRule, xr_Reasons = [IssuedAndVerified], xr_ObservedSpecHash = Some (mas_SpecHash d)\<rparr>, ?s')"
    by (simp add: Ensure_def listing_machine_fields gate build argv pre check)
  have "pre_gate digest d (Inr (snapshot iv ?s')) =
      Inl (Inr (stopped StagePreObservation (Some PlannerNoAction) (NotProvenAbsent # map Planner (mpd_Reasons dec))))"
    by (simp add: pre_gate_def present post dec)
  then have second: "Ensure digest ?e d ?s' =
      (Inr (stopped StagePreObservation (Some PlannerNoAction) (NotProvenAbsent # map Planner (mpd_Reasons dec))), ?s')"
    by (simp add: Ensure_def listing_machine_fields gate build argv)
  show ?thesis using argv first second by (intro exI conjI) (auto simp: stopped_def)
qed

text \<open>
  C39. On an honest machine the attempt reaches its end, and repeating it does nothing. For every hash function, every
  desired rule, every approved host and every listing at whose coordinate nothing stands and whose chain is PROVEN:
  the attempt ends DONE and proven with the planned hash, the listing has grown by exactly the line of the insert
  command, and a second attempt stops before its command with NO_ACTION and leaves the listing alone.
\<close>

theorem ensure_reaches_done:
  assumes "BuildDesiredMSSRule digest inp = Inr d" and "VerifyHostBinding expected host = None"
    and "ObserveMSSRule (snapshot iv s) (mas_Identity d) = Inr ob" and "ob_Status ob = MSSAbsent"
    and "ObserveChainSuitability (snapshot iv s) (mas_Spec d) = Inr co" and "co_Status co = SuitabilityProven"
  shows "\<exists>argv s' again. InsertCommand digest d = Inr argv \<and> s' = s @ newline # JoinWith (CHR '' '') (drop 3 argv) \<and>
    Ensure digest (listing_machine iv host expected) d s = (Inr \<lparr>xr_Proven = True, xr_Stage = StageDone,
      xr_PlannerOutcome = Some PlannerCreateMSSRule, xr_Reasons = [IssuedAndVerified], xr_ObservedSpecHash = Some (mas_SpecHash d)\<rparr>, s') \<and>
    Ensure digest (listing_machine iv host expected) d s' = (Inr again, s') \<and> \<not> xr_Proven again \<and>
    xr_Stage again = StagePreObservation \<and> xr_PlannerOutcome again = Some PlannerNoAction"
  using assms by (rule listing_attempt)

subsection \<open>The durable record of a postcondition\<close>

lemma updateRecord_success:
  assumes "updateRecord now rec allow s = (Inr u, s')"
  shows "jlookup s' (file_name (jr_TransactionID rec)) = Some (JRecord (rec\<lparr>jr_UpdatedAt := now\<rparr>))"
proof -
  from assms obtain s1 where "jwrite (file_name (jr_TransactionID rec)) (rec\<lparr>jr_UpdatedAt := now\<rparr>) s1 = (Inr u, s')"
    by (auto simp: updateRecord_def jbind_def jcheck_def jfail_def jret_def split: prod.splits sum.splits option.splits)
  from jwrite_ok [OF this] show ?thesis by simp
qed

text \<open>A record of the journal carries the observed hash of an action.\<close>

definition recorded :: "JStore \<Rightarrow> string \<Rightarrow> string \<Rightarrow> SpecHash \<Rightarrow> bool" where
  "recorded j tx aid h \<longleftrightarrow> (\<exists>rec a. jlookup j (file_name tx) = Some (JRecord rec) \<and> jr_TransactionID rec = tx \<and>
     a \<in> set (jr_Actions rec) \<and> jar_ID a = aid \<and> ParseSpecHashHex (jar_ObservedSpecHash a) = Inr h)"

lemma RecordObserved_recorded:
  assumes "RecordObservedSpecHash now tx aid resource h j = (Inr u, j')" and "wf_hash h"
  shows "recorded j' tx aid h"
proof -
  from assms(1) obtain all j1 where load: "loadAll j = (Inr all, j1)"
    by (auto simp: RecordObservedSpecHash_def jbind_def jfail_def split: if_splits prod.splits sum.splits)
  have parse: "ParseSpecHashHex (Hex h) = Inr h"
    using assms(2) by (simp add: ParseSpecHashHex_def parse_hex_pairs_Hex wf_hash_def)
  show ?thesis
  proof (cases "observed_target tx aid resource h all")
    case (Inl e)
    with assms(1) load show ?thesis by (auto simp: RecordObservedSpecHash_def jbind_def jfail_def split: if_splits)
  next
    case (Inr target)
    show ?thesis
    proof (cases target)
      case None
      with assms(1) load Inr have j': "j' = j1" by (auto simp: RecordObservedSpecHash_def jbind_def jret_def jfail_def split: if_splits)
      from Inr None obtain rec a where rec: "find (\<lambda>r. jr_TransactionID r = tx) all = Some rec" "with_id aid (jr_Actions rec) = [a]"
        "ParseSpecHashHex (jar_ObservedSpecHash a) = Inr h"
        by (auto simp: observed_target_def split: option.splits if_splits list.splits sum.splits)
      from rec(1) have r: "rec \<in> set all" "jr_TransactionID rec = tx" by (auto simp: find_Some_iff)
      have "a \<in> set (with_id aid (jr_Actions rec))" by (simp add: rec(2))
      then have "a \<in> set (jr_Actions rec)" "jar_ID a = aid" by (simp_all add: with_id_def)
      moreover have "jlookup j' (file_name tx) = Some (JRecord rec)"
        using loadAll_stored [OF load r(1)] quiet_after [OF quiet_loadAll load] r(2) j' by simp
      ultimately show ?thesis unfolding recorded_def using rec(3) r(2) by blast
    next
      case (Some rec)
      with assms(1) load Inr have up: "updateRecord now rec True j1 = (Inr u, j')"
        by (auto simp: RecordObservedSpecHash_def jbind_def jfail_def split: if_splits)
      from Inr Some obtain orig where o: "jr_TransactionID orig = tx"
        "rec = orig\<lparr>jr_Actions := map (\<lambda>x. if jar_ID x = aid then x\<lparr>jar_ObservedSpecHash := Hex h\<rparr> else x) (jr_Actions orig)\<rparr>"
        by (auto elim: observed_target_change)
      have "\<exists>a \<in> set (jr_Actions orig). jar_ID a = aid"
      proof -
        from Inr Some obtain orig' a where "with_id aid (jr_Actions orig') = [a]" "find (\<lambda>r. jr_TransactionID r = tx) all = Some orig'"
          "rec = orig'\<lparr>jr_Actions := map (\<lambda>x. if jar_ID x = aid then x\<lparr>jar_ObservedSpecHash := Hex h\<rparr> else x) (jr_Actions orig')\<rparr>"
          by (auto simp: observed_target_def split: option.splits if_splits list.splits sum.splits)
        then have a: "a \<in> set (with_id aid (jr_Actions orig'))" and eq: "map jar_ID (jr_Actions orig') = map jar_ID (jr_Actions rec)"
          by (simp_all add: comp_def if_distrib cong: if_cong)
        have "map jar_ID (jr_Actions rec) = map jar_ID (jr_Actions orig)" by (simp add: o(2) comp_def if_distrib cong: if_cong)
        moreover have "aid \<in> set (map jar_ID (jr_Actions orig'))" using a by (auto simp: with_id_def)
        ultimately have "aid \<in> set (map jar_ID (jr_Actions orig))" by (simp only: eq)
        then show ?thesis by auto
      qed
      then obtain a where a: "a \<in> set (jr_Actions orig)" "jar_ID a = aid" by blast
      let ?a = "a\<lparr>jar_ObservedSpecHash := Hex h\<rparr>"
      have "?a \<in> set (jr_Actions rec)" using a unfolding o(2) by (force simp: image_iff)
      then show ?thesis
        using updateRecord_success [OF up] parse a(2) o by (auto simp: recorded_def intro!: bexI [of _ ?a])
    qed
  qed
qed

text \<open>
  C40. The adapter never succeeds without the durable postcondition. For every machine, boundary, journal and pattern of
  journal faults, and every hash function with hashes of 32 bytes none of which is zero: if the apply step of an
  MSS action succeeds, the attempt was proven, the observed hash is the intended one, and the journal
  carries it for this transaction and action; the following validation then succeeds without touching anything.
\<close>

theorem adapter_success_recorded:
  assumes "ex_Apply (mss_executor digest ad) aid resource kind w = (None, w')"
    and "\<forall>sp. wf_hash (digest sp) \<and> \<not> SpecHash_IsZero (digest sp)"
  shows "\<exists>mss res. boundAction digest (aw_State w) aid resource (Some kind) = Inr mss \<and> as_results (aw_State w') aid = Some res \<and>
    xr_Proven res \<and> xr_ObservedSpecHash res = Some (mas_SpecHash mss) \<and>
    recorded (aw_Journal w') (as_txID (aw_State w)) aid (mas_SpecHash mss) \<and>
    ex_Validate (mss_executor digest ad) aid resource w' = (None, w')"
proof -
  from assms(1) obtain e mss res m where ad: "ad_HasJournal ad" "ad_Ensurer ad = Some e" "boundAction digest (aw_State w) aid resource (Some kind) = Inr mss"
    "Ensure digest e mss (aw_Machine w) = (Inr res, m)" and proven: "xr_Proven res"
    and rec: "record_observed ad aid resource (xr_ObservedSpecHash res)
       (w\<lparr>aw_Machine := m, aw_State := (aw_State w)\<lparr>as_results := (as_results (aw_State w))(aid \<mapsto> res)\<rparr>\<rparr>) = (None, w')"
    by (auto simp: mss_executor_def ad_Apply_def split: option.splits if_splits sum.splits prod.splits)
  have hash: "xr_ObservedSpecHash res = Some (mas_SpecHash mss)" and digest: "\<exists>sp. digest sp = mas_SpecHash mss"
  proof -
    have "xr_ObservedSpecHash res = Some (mas_SpecHash mss) \<and> (\<exists>sp. digest sp = mas_SpecHash mss)"
      using ad(4)
    proof (cases rule: Ensure_cases)
      case reads
      with proven show ?thesis by (simp add: unproven_before_def)
    next
      case (command run argv s2 err)
      with proven show ?thesis by (simp add: stopped_def)
    next
      case (checked run argv s2 s3 look post)
      from post_check_proven [OF checked(7) [symmetric] proven] show ?thesis by blast
    qed
    then show "xr_ObservedSpecHash res = Some (mas_SpecHash mss)" "\<exists>sp. digest sp = mas_SpecHash mss" by blast+
  qed
  then have wf: "wf_hash (mas_SpecHash mss)" "\<not> SpecHash_IsZero (mas_SpecHash mss)" using assms(2) by metis+
  from rec hash wf(2) obtain u j where r: "RecordObservedSpecHash (ad_Now ad m) (as_txID (aw_State w)) aid resource (mas_SpecHash mss) (aw_Journal w) = (Inr u, j)"
    and w': "w' = w\<lparr>aw_Machine := m, aw_State := (aw_State w)\<lparr>as_results := (as_results (aw_State w))(aid \<mapsto> res)\<rparr>, aw_Journal := j\<rparr>"
    by (auto simp: record_observed_def split: prod.splits sum.splits)
  have results: "as_results (aw_State w') aid = Some res" by (simp add: w')
  have "boundAction digest (aw_State w') aid resource None = Inr mss"
    using ad(3) by (auto simp: boundAction_def w' split: if_splits)
  then have "ex_Validate (mss_executor digest ad) aid resource w' = (None, w')"
    using ad(1) results proven hash wf(2) by (simp add: mss_executor_def ad_Validate_def)
  then show ?thesis using ad(3) results proven hash RecordObserved_recorded [OF r wf(1)] by (simp add: w')
qed

subsection \<open>A concrete attempt\<close>

definition ex_lines :: "string list" where
  "ex_lines = [JoinWith (CHR '' '') [''-P'', ''FORWARD'', ''ACCEPT''], JoinWith (CHR '' '') [''-N'', ''vpsgw_mss''],
     JoinWith (CHR '' '') [''-A'', ''FORWARD'', ''-p'', ''tcp'', ''-j'', ''vpsgw_mss'']]"

definition ex_table :: string where
  "ex_table = JoinWith newline ex_lines"

lemma plain_parse_line:
  "\<forall>w \<in> set ws. plain_word w \<Longrightarrow> ws \<noteq> [] \<Longrightarrow> parse_line (JoinWith (CHR '' '') ws) cs = parse_fields (JoinWith (CHR '' '') ws) ws cs"
  using plain_line [of ws] by (simp add: parse_line_def Let_def del: JoinWith.simps)

lemma ex_table_chains:
  "\<exists>raw. parseIPTablesRules ex_table =
     [\<lparr>ic_Name = ''FORWARD'', ic_Policy = ''ACCEPT'', ic_UserDefined = False, ic_Rules = [(ex_rule ex_jump)\<lparr>ir_Raw := raw\<rparr>]\<rparr>,
      \<lparr>ic_Name = ''vpsgw_mss'', ic_Policy = '''', ic_UserDefined = True, ic_Rules = []\<rparr>]"
proof -
  have words: "\<forall>w \<in> set [''-P'', ''FORWARD'', ''ACCEPT'']. plain_word w" "\<forall>w \<in> set [''-N'', ''vpsgw_mss'']. plain_word w"
    "\<forall>w \<in> set [''-A'', ''FORWARD'', ''-p'', ''tcp'', ''-j'', ''vpsgw_mss'']. plain_word w"
    by (simp_all add: plain_word_def is_space_def)
  define a where "a = JoinWith (CHR '' '') [''-P'', ''FORWARD'', ''ACCEPT'']"
  define b where "b = JoinWith (CHR '' '') [''-N'', ''vpsgw_mss'']"
  define c where "c = JoinWith (CHR '' '') [''-A'', ''FORWARD'', ''-p'', ''tcp'', ''-j'', ''vpsgw_mss'']"
  have split: "Split newline a = [a]" "Split newline b = [b]" "Split newline c = [c]"
    unfolding a_def b_def c_def using words [THEN plain_line(2)] by blast+
  have parse: "parse_line a = parse_fields a [''-P'', ''FORWARD'', ''ACCEPT'']" "parse_line b = parse_fields b [''-N'', ''vpsgw_mss'']"
    "parse_line c = parse_fields c [''-A'', ''FORWARD'', ''-p'', ''tcp'', ''-j'', ''vpsgw_mss'']"
    unfolding a_def b_def c_def using words [THEN plain_parse_line] by blast+
  have table: "ex_table = a @ newline # b @ newline # c" by (simp add: ex_table_def ex_lines_def a_def b_def c_def)
  have "Split newline ex_table = [a, b, c]"
    using split unfolding table Split_def by (simp add: SplitBy_append_sep)
  then show ?thesis
    by (simp add: parseIPTablesRules_def parse parse_fields_def add_rule_def parseIPTablesRuleSpec_def take_token_values
        with_value_def jump_token_def ex_rule_def ex_jump_def empty_spec_def)
qed

lemma ex_table_absent:
  "\<exists>ob. ObserveMSSRule (snapshot no_filter ex_table) (mss_identity ''vpsgw_mss'' ''muvg-mss'') = Inr ob \<and> ob_Status ob = MSSAbsent"
proof -
  let ?i = "mss_identity ''vpsgw_mss'' ''muvg-mss''"
  have i: "ri_Class ?i = ClassMSSRule" "ri_Chain ?i = ''vpsgw_mss''" by (simp_all add: mss_identity_def)
  from ex_table_chains obtain raw where chains: "parseIPTablesRules ex_table =
     [\<lparr>ic_Name = ''FORWARD'', ic_Policy = ''ACCEPT'', ic_UserDefined = False, ic_Rules = [(ex_rule ex_jump)\<lparr>ir_Raw := raw\<rparr>]\<rparr>,
      \<lparr>ic_Name = ''vpsgw_mss'', ic_Policy = '''', ic_UserDefined = True, ic_Rules = []\<rparr>]" by blast
  have "occupants (ri_Chain ?i) (ri_Tag ?i) (fw_IPTablesMangleRules (snapshot no_filter ex_table)) = []"
    by (simp add: occupants_def snapshot_def chains rules_of_def i List.map_filter_def)
  then show ?thesis
    using ObserveMSSRule_complete [OF complete_snapshot ex_identity_ok i(1)]
    by (simp add: found_specs_def found_obstacles_def List.map_filter_def)
qed

lemma ex_desired_spec:
  assumes "BuildDesiredMSSRule ex_digest ex_mss_input = Inr d"
  shows "Spec_Validate (mas_Spec d) = None" "ms_Table (mas_Spec d) = ''mangle''" "ms_Chain (mas_Spec d) = ''vpsgw_mss''"
  using BuildDesired_Inr(7,9) [OF assms] by (simp_all add: ex_mss_input_def)

lemma ex_table_proven:
  assumes "BuildDesiredMSSRule ex_digest ex_mss_input = Inr d"
  shows "\<exists>co. ObserveChainSuitability (snapshot no_filter ex_table) (mas_Spec d) = Inr co \<and> co_Status co = SuitabilityProven"
proof -
  from ex_table_chains obtain raw where chains: "parseIPTablesRules ex_table =
     [\<lparr>ic_Name = ''FORWARD'', ic_Policy = ''ACCEPT'', ic_UserDefined = False, ic_Rules = [(ex_rule ex_jump)\<lparr>ir_Raw := raw\<rparr>]\<rparr>,
      \<lparr>ic_Name = ''vpsgw_mss'', ic_Policy = '''', ic_UserDefined = True, ic_Rules = []\<rparr>]" by blast
  note spec = BuildDesired_Inr(9) [OF assms]
  have out: "in_EgressInterface ex_mss_input \<noteq> ''''" by (simp add: ex_mss_input_def)
  show ?thesis
    unfolding ObserveChainSuitability_def ex_desired_spec [OF assms]
    by (simp add: snapshot_def chains ex_chain_defs) (simp add: spec)
qed
lemma ex_attempt:
  assumes "BuildDesiredMSSRule ex_digest ex_mss_input = Inr d" and "mas_Identity d = mss_identity ''vpsgw_mss'' ''muvg-mss''"
  obtains ob co where "ObserveMSSRule (snapshot no_filter ex_table) (mas_Identity d) = Inr ob" "ob_Status ob = MSSAbsent"
    "ObserveChainSuitability (snapshot no_filter ex_table) (mas_Spec d) = Inr co" "co_Status co = SuitabilityProven"
  using ex_table_absent ex_table_proven [OF assms(1)] unfolding assms(2) by blast

lemma ex_host_bound: "VerifyHostBinding ex_host ex_host = None"
  by code_simp

theorem ensure_reaches_done_witness:
  "\<exists>d r s'. BuildDesiredMSSRule ex_digest ex_mss_input = Inr d \<and>
     Ensure ex_digest (listing_machine no_filter ex_host ex_host) d ex_table = (Inr r, s') \<and> xr_Stage r = StageDone"
proof -
  from ex_desired obtain d where d: "BuildDesiredMSSRule ex_digest ex_mss_input = Inr d" "mas_Identity d = mss_identity ''vpsgw_mss'' ''muvg-mss''"
    by blast
  from ex_attempt [OF d] obtain ob co where ob: "ObserveMSSRule (snapshot no_filter ex_table) (mas_Identity d) = Inr ob" "ob_Status ob = MSSAbsent"
    and co: "ObserveChainSuitability (snapshot no_filter ex_table) (mas_Spec d) = Inr co" "co_Status co = SuitabilityProven" by blast
  from ensure_reaches_done [OF d(1) ex_host_bound ob co] d(1) show ?thesis by (auto intro!: exI [of _ d])
qed

theorem ensure_sound_witness:
  "\<exists>d r s' s2. BuildDesiredMSSRule ex_digest ex_mss_input = Inr d \<and>
     Ensure ex_digest (listing_machine no_filter ex_host ex_host) d ex_table = (Inr r, s') \<and> xr_Proven r \<and>
     cleared ex_digest (listing_machine no_filter ex_host ex_host) d ex_table s2"
proof -
  from ex_desired obtain d where d: "BuildDesiredMSSRule ex_digest ex_mss_input = Inr d" "mas_Identity d = mss_identity ''vpsgw_mss'' ''muvg-mss''"
    by blast
  from ex_attempt [OF d] obtain ob co where ob: "ObserveMSSRule (snapshot no_filter ex_table) (mas_Identity d) = Inr ob" "ob_Status ob = MSSAbsent"
    and co: "ObserveChainSuitability (snapshot no_filter ex_table) (mas_Spec d) = Inr co" "co_Status co = SuitabilityProven" by blast
  from listing_attempt [OF d(1) ex_host_bound ob co] obtain r s' where
    run: "Ensure ex_digest (listing_machine no_filter ex_host ex_host) d ex_table = (Inr r, s')" and proven: "xr_Proven r" by auto
  from ensure_sound [OF run] proven have "\<exists>s2. cleared ex_digest (listing_machine no_filter ex_host ex_host) d ex_table s2"
    unfolding unproven_before_def by auto
  with d(1) run proven show ?thesis by blast
qed

definition ex_mss_action :: "MSSActionSpec \<Rightarrow> Action" where
  "ex_mss_action d = \<lparr>a_ID = ''a1'', a_Resource = '''', a_Kind = ActionMSSRule, a_Ownership = Owned, a_Why = '''',
     a_Dependencies = [], a_Risk = RiskLow, a_Validation = '''', a_Rollback = '''',
     a_Spec = Some \<lparr>asp_File = None, asp_Service = None, asp_SSH = None, asp_MSS = Some d\<rparr>\<rparr>"

definition ex_world :: "MSSActionSpec \<Rightarrow> string AWorld" where
  "ex_world d = \<lparr>aw_Machine = ex_table, aw_Journal = jex_store (jex_record '''' False), aw_State =
     BindActions [''a1'' \<mapsto> ex_mss_action d] (BindTransaction ''tx-1''
       \<lparr>as_txID = '''', as_txLocked = False, as_txBroken = False, as_actions = None, as_results = Map.empty\<rparr>)\<rparr>"

definition ex_adapter :: "string Adapter" where
  "ex_adapter = \<lparr>ad_Ensurer = Some (listing_machine no_filter ex_host ex_host), ad_HasJournal = True, ad_HasContext = True, ad_Now = (\<lambda>_. 9)\<rparr>"

lemma ex_digest_good: "\<forall>sp. wf_hash (ex_digest sp) \<and> \<not> SpecHash_IsZero (ex_digest sp)"
proof -
  have "wf_hash (replicate 32 1) \<and> \<not> SpecHash_IsZero (replicate 32 1)" by code_simp
  then show ?thesis by (simp add: ex_digest_def)
qed

theorem adapter_success_recorded_witness:
  "\<exists>d w'. BuildDesiredMSSRule ex_digest ex_mss_input = Inr d \<and>
     ex_Apply (mss_executor ex_digest ex_adapter) ''a1'' '''' ActionMSSRule (ex_world d) = (None, w') \<and>
     recorded (aw_Journal w') ''tx-1'' ''a1'' (mas_SpecHash d)"
proof -
  from ex_desired obtain d where d: "BuildDesiredMSSRule ex_digest ex_mss_input = Inr d" "mas_Identity d = mss_identity ''vpsgw_mss'' ''muvg-mss''"
    by blast
  from ex_attempt [OF d] obtain ob co where ob: "ObserveMSSRule (snapshot no_filter ex_table) (mas_Identity d) = Inr ob" "ob_Status ob = MSSAbsent"
    and co: "ObserveChainSuitability (snapshot no_filter ex_table) (mas_Spec d) = Inr co" "co_Status co = SuitabilityProven" by blast
  from listing_attempt [OF d(1) ex_host_bound ob co] obtain r argv s' where argv: "InsertCommand ex_digest d = Inr argv"
    and run: "Ensure ex_digest (listing_machine no_filter ex_host ex_host) d ex_table = (Inr r, s')" and r: "xr_Proven r"
      "xr_ObservedSpecHash r = Some (mas_SpecHash d)" by auto
  have bound: "boundAction ex_digest (aw_State (ex_world d)) ''a1'' '''' (Some ActionMSSRule) = Inr d"
    using InsertCommand_Inr [OF argv]
    by (simp add: boundAction_def ex_world_def BindActions_def BindTransaction_def ex_mss_action_def ValidateMSSActionSpec_def)
  have hash: "mas_SpecHash d = replicate 32 1" using BuildDesired_Inr(6) [OF d(1)] by (simp add: ex_digest_def)
  have good: "\<not> SpecHash_IsZero (mas_SpecHash d)" using ex_digest_good by (simp add: hash ex_digest_def)
  have "Hex (mas_SpecHash d) \<noteq> ''''" using arg_cong [where f = length, OF hash] by (metis length_0_conv length_Hex length_replicate mult_eq_0_iff zero_neq_numeral)
  from ex_RecordObserved_run [OF good this]
  have "\<exists>w'. ex_Apply (mss_executor ex_digest ex_adapter) ''a1'' '''' ActionMSSRule (ex_world d) = (None, w')"
    using bound run r good
    by (simp add: mss_executor_def ad_Apply_def ex_adapter_def transactionGuard_def record_observed_def ex_world_def BindActions_def
        BindTransaction_def)
  then obtain w' where w': "ex_Apply (mss_executor ex_digest ex_adapter) ''a1'' '''' ActionMSSRule (ex_world d) = (None, w')" by blast
  from adapter_success_recorded [OF w' ex_digest_good] bound
  have "recorded (aw_Journal w') (as_txID (aw_State (ex_world d))) ''a1'' (mas_SpecHash d)" by auto
  then have "recorded (aw_Journal w') ''tx-1'' ''a1'' (mas_SpecHash d)" by (simp add: ex_world_def BindActions_def BindTransaction_def)
  with d(1) w' show ?thesis by blast
qed

end
