(* ===== verification/Lock.thy ===== *)
theory Lock
  imports Prelude
begin

text \<open>
  The lifecycle lock (\<open>internal/lock\<close>): \<open>Acquire\<close> and \<open>Release\<close> with both platforms' \<open>acquireFile\<close>, as the system calls they
  make on one path, and the interleavings of any number of contenders. A contender is one attempt to take the
  lock, so a process that tries twice is two of them. What is written into the file is not modelled.
\<close>

subsection \<open>The file, its locks and the contenders\<close>

datatype platform = Unix | OtherSystem

text \<open>Where a contender stands between two system calls; the file it has open is an inode number.\<close>

datatype lock_pc = Idle | Opened nat | Held nat | Unlocked nat | Closed | Released | Denied | Dead

record LockWorld =
  lw_path :: "nat option"
  lw_flock :: "nat \<Rightarrow> nat option"
  lw_next :: nat
  lw_pc :: "nat \<Rightarrow> lock_pc"

definition free_world :: LockWorld where
  "free_world = \<lparr>lw_path = None, lw_flock = (\<lambda>_. None), lw_next = 0, lw_pc = (\<lambda>_. Idle)\<rparr>"

definition goto_pc :: "nat \<Rightarrow> lock_pc \<Rightarrow> LockWorld \<Rightarrow> LockWorld" where
  "goto_pc c p w = w\<lparr>lw_pc := (lw_pc w)(c := p)\<rparr>"

definition create_file :: "LockWorld \<Rightarrow> LockWorld" where
  "create_file w = w\<lparr>lw_path := Some (lw_next w), lw_next := Suc (lw_next w)\<rparr>"

definition drop_flock :: "nat \<Rightarrow> nat \<Rightarrow> LockWorld \<Rightarrow> LockWorld" where
  "drop_flock c i w = (if lw_flock w i = Some c then w\<lparr>lw_flock := (lw_flock w)(i := None)\<rparr> else w)"

subsection \<open>System calls\<close>

text \<open>Each has a flag for a failure of its own; on Unix the file is opened or created, elsewhere created exclusively.\<close>

definition sys_open :: "bool \<Rightarrow> nat \<Rightarrow> LockWorld \<Rightarrow> LockWorld" where
  "sys_open ok c w =
     (if \<not> ok then goto_pc c Denied w
      else case lw_path w of Some i \<Rightarrow> goto_pc c (Opened i) w | None \<Rightarrow> goto_pc c (Opened (lw_next w)) (create_file w))"

definition sys_open_excl :: "bool \<Rightarrow> nat \<Rightarrow> LockWorld \<Rightarrow> LockWorld" where
  "sys_open_excl ok c w =
     (if ok \<and> lw_path w = None then goto_pc c (Held (lw_next w)) (create_file w) else goto_pc c Denied w)"

text \<open>The non-blocking \<open>flock\<close>; when it fails the file is closed again.\<close>

definition sys_flock :: "bool \<Rightarrow> nat \<Rightarrow> LockWorld \<Rightarrow> LockWorld" where
  "sys_flock ok c w =
     (case lw_pc w c of
        Opened i \<Rightarrow> (if ok \<and> lw_flock w i = None
          then goto_pc c (Held i) (w\<lparr>lw_flock := (lw_flock w)(i := Some c)\<rparr>) else goto_pc c Denied w)
      | _ \<Rightarrow> w)"

definition acquireFile :: "platform \<Rightarrow> bool \<Rightarrow> bool \<Rightarrow> nat \<Rightarrow> LockWorld \<Rightarrow> LockWorld" where
  "acquireFile pf ok_open ok_flock c w =
     (case pf of Unix \<Rightarrow> sys_flock ok_flock c (sys_open ok_open c w) | OtherSystem \<Rightarrow> sys_open_excl ok_open c w)"

definition releaseFile :: "platform \<Rightarrow> bool \<Rightarrow> nat \<Rightarrow> LockWorld \<Rightarrow> LockWorld" where
  "releaseFile pf ok c w =
     (case lw_pc w c of Held i \<Rightarrow> goto_pc c (Unlocked i) (if pf = Unix \<and> ok then drop_flock c i w else w) | _ \<Rightarrow> w)"

text \<open>Closing the file gives up its lock in any case.\<close>

definition sys_close :: "nat \<Rightarrow> LockWorld \<Rightarrow> LockWorld" where
  "sys_close c w = (case lw_pc w c of Unlocked i \<Rightarrow> goto_pc c Closed (drop_flock c i w) | _ \<Rightarrow> w)"

definition sys_remove :: "bool \<Rightarrow> nat \<Rightarrow> LockWorld \<Rightarrow> LockWorld" where
  "sys_remove ok c w =
     (case lw_pc w c of Closed \<Rightarrow> goto_pc c Released (if ok then w\<lparr>lw_path := None\<rparr> else w) | _ \<Rightarrow> w)"

text \<open>The end of the process: the kernel gives up the locks of its files.\<close>

definition crash :: "nat \<Rightarrow> LockWorld \<Rightarrow> LockWorld" where
  "crash c w = goto_pc c Dead (w\<lparr>lw_flock := (\<lambda>i. if lw_flock w i = Some c then None else lw_flock w i)\<rparr>)"

subsection \<open>The two calls\<close>

datatype lock_error = LockPathEmpty | LockDirectory | LockIsHeld | LockNotHeld | UnlockFailed | RemoveFailed | CloseFailed

definition holds :: "LockWorld \<Rightarrow> nat \<Rightarrow> bool" where
  "holds w c \<longleftrightarrow> (case lw_pc w c of Held _ \<Rightarrow> True | _ \<Rightarrow> False)"

definition Acquire :: "platform \<Rightarrow> string \<Rightarrow> bool \<Rightarrow> bool \<Rightarrow> bool \<Rightarrow> nat \<Rightarrow> LockWorld \<Rightarrow> (lock_error + unit) \<times> LockWorld" where
  "Acquire pf path ok_dir ok_open ok_flock c w =
     (if path = '''' then (Inl LockPathEmpty, w)
      else if \<not> ok_dir then (Inl LockDirectory, w)
      else let w1 = acquireFile pf ok_open ok_flock c w in (if holds w1 c then Inr () else Inl LockIsHeld, w1))"

text \<open>All three calls are made whatever happens; the first failure is reported, a missing file is not one.\<close>

definition Release :: "platform \<Rightarrow> bool \<Rightarrow> bool \<Rightarrow> bool \<Rightarrow> nat \<Rightarrow> LockWorld \<Rightarrow> lock_error option \<times> LockWorld" where
  "Release pf ok_unlock ok_close ok_remove c w =
     (if \<not> holds w c then (Some LockNotHeld, w)
      else
        (let w1 = sys_close c (releaseFile pf ok_unlock c w);
             err = (if pf = Unix \<and> \<not> ok_unlock then Some UnlockFailed else None);
             err1 = (if \<not> ok_remove \<and> lw_path w1 \<noteq> None \<and> err = None then Some RemoveFailed else err);
             err2 = (if err1 = None \<and> \<not> ok_close then Some CloseFailed else err1) in
         (err2, sys_remove ok_remove c w1)))"

subsection \<open>Interleavings\<close>

inductive lock_step :: "platform \<Rightarrow> nat \<Rightarrow> LockWorld \<Rightarrow> LockWorld \<Rightarrow> bool" for pf c where
  opens: "pf = Unix \<Longrightarrow> lw_pc w c = Idle \<Longrightarrow> lock_step pf c w (sys_open ok c w)"
| creates: "pf = OtherSystem \<Longrightarrow> lw_pc w c = Idle \<Longrightarrow> lock_step pf c w (sys_open_excl ok c w)"
| flocks: "pf = Unix \<Longrightarrow> lw_pc w c = Opened i \<Longrightarrow> lock_step pf c w (sys_flock ok c w)"
| unlocks: "lw_pc w c = Held i \<Longrightarrow> lock_step pf c w (releaseFile pf ok c w)"
| closes: "lw_pc w c = Unlocked i \<Longrightarrow> lock_step pf c w (sys_close c w)"
| removes: "lw_pc w c = Closed \<Longrightarrow> lock_step pf c w (sys_remove ok c w)"
| dies: "lw_pc w c \<notin> {Released, Denied} \<Longrightarrow> lock_step pf c w (crash c w)"

text \<open>A contender that has the file open, before or after it got the lock.\<close>

definition engaged :: "LockWorld \<Rightarrow> nat \<Rightarrow> bool" where
  "engaged w c \<longleftrightarrow> (case lw_pc w c of Opened _ \<Rightarrow> True | Held _ \<Rightarrow> True | _ \<Rightarrow> False)"

definition removes_contended :: "nat \<Rightarrow> LockWorld \<Rightarrow> LockWorld \<Rightarrow> bool" where
  "removes_contended c w w' \<longleftrightarrow> lw_pc w c = Closed \<and> lw_pc w' c = Released \<and> (\<exists>d. engaged w d)"

definition unix_step :: "LockWorld \<Rightarrow> LockWorld \<Rightarrow> bool" where
  "unix_step w w' \<longleftrightarrow> (\<exists>c. lock_step Unix c w w' \<and> \<not> removes_contended c w w')"

definition other_step :: "LockWorld \<Rightarrow> LockWorld \<Rightarrow> bool" where
  "other_step w w' \<longleftrightarrow> (\<exists>c. lock_step OtherSystem c w w')"

text \<open>A protocol that excludes: an invariant of its steps under which at most one contender holds.\<close>

locale exclusive_protocol =
  fixes step :: "'w \<Rightarrow> 'w \<Rightarrow> bool" and start :: 'w and inv :: "'w \<Rightarrow> bool" and owns :: "'w \<Rightarrow> 'c \<Rightarrow> bool"
  assumes inv_start: "inv start"
    and inv_step: "inv w \<Longrightarrow> step w w' \<Longrightarrow> inv w'"
    and inv_owns: "inv w \<Longrightarrow> owns w c \<Longrightarrow> owns w d \<Longrightarrow> c = d"
begin

lemma reachable_inv: "step\<^sup>*\<^sup>* start w \<Longrightarrow> inv w"
  by (induction rule: rtranclp_induct) (auto intro: inv_start inv_step)

lemma reachable_exclusive: "step\<^sup>*\<^sup>* start w \<Longrightarrow> owns w c \<Longrightarrow> owns w d \<Longrightarrow> c = d"
  by (rule inv_owns [OF reachable_inv])

end

subsection \<open>The advisory lock\<close>

definition unix_inv :: "LockWorld \<Rightarrow> bool" where
  "unix_inv w \<longleftrightarrow> (\<forall>c i. lw_pc w c = Held i \<longrightarrow> lw_flock w i = Some c \<and> lw_path w = Some i) \<and>
     (\<forall>c i. lw_pc w c = Opened i \<longrightarrow> lw_path w = Some i)"

lemmas lock_calls = sys_open_def sys_open_excl_def sys_flock_def releaseFile_def sys_close_def sys_remove_def crash_def goto_pc_def
  create_file_def drop_flock_def

lemma unix_invI:
  assumes "\<And>d i. lw_pc w d = Held i \<Longrightarrow> lw_flock w i = Some d \<and> lw_path w = Some i"
    and "\<And>d i. lw_pc w d = Opened i \<Longrightarrow> lw_path w = Some i"
  shows "unix_inv w"
  using assms by (simp add: unix_inv_def)

lemma unix_invD:
  "unix_inv w \<Longrightarrow> lw_pc w d = Held i \<Longrightarrow> lw_flock w i = Some d \<and> lw_path w = Some i"
  "unix_inv w \<Longrightarrow> lw_pc w d = Opened i \<Longrightarrow> lw_path w = Some i"
  by (simp_all add: unix_inv_def)

lemma pc_goto: "lw_pc (goto_pc c p w) d = (if d = c then p else lw_pc w d)"
  "lw_path (goto_pc c p w) = lw_path w" "lw_flock (goto_pc c p w) = lw_flock w"
  by (simp_all add: goto_pc_def)

lemma pc_drop: "lw_pc (drop_flock c i w) = lw_pc w" "lw_path (drop_flock c i w) = lw_path w"
  "lw_flock (drop_flock c i w) j = (if j = i \<and> lw_flock w i = Some c then None else lw_flock w j)"
  by (simp_all add: drop_flock_def)

lemma unix_inv_step:
  assumes inv: "unix_inv w" and step: "unix_step w w'"
  shows "unix_inv w'"
proof -
  note facts = unix_invD [OF inv]
  from step obtain c where s: "lock_step Unix c w w'" and calm: "\<not> removes_contended c w w'" by (auto simp: unix_step_def)
  from s show ?thesis
  proof cases
    case (opens ok)
    consider "w' = goto_pc c Denied w" | i where "lw_path w = Some i" "w' = goto_pc c (Opened i) w"
      | "lw_path w = None" "w' = goto_pc c (Opened (lw_next w)) (create_file w)"
      using opens(1) by (auto simp: sys_open_def split: if_splits option.splits)
    then show ?thesis
    proof cases
      case 3
      then have "lw_pc w d \<noteq> Held i" "lw_pc w d \<noteq> Opened i" for d i using facts by fastforce+
      with 3 show ?thesis by (intro unix_invI) (simp_all add: pc_goto create_file_def split: if_splits)
    qed (rule unix_invI; simp add: pc_goto facts split: if_splits)+
  next
    case (flocks i ok)
    consider "w' = goto_pc c Denied w" | "lw_flock w i = None" "w' = goto_pc c (Held i) (w\<lparr>lw_flock := (lw_flock w)(i := Some c)\<rparr>)"
      using flocks by (auto simp: sys_flock_def split: if_splits)
    then show ?thesis
    proof cases
      case 2
      have path: "lw_path w = Some i" by (rule facts(2) [of c]) (rule flocks)
      have "lw_pc w d \<noteq> Held j" for d j using 2 path facts(1) [of d j] by auto
      moreover have "lw_pc w d = Opened j \<Longrightarrow> j = i" for d j using path facts(2) [of d j] by simp
      ultimately show ?thesis using 2 path by (intro unix_invI) (auto simp: pc_goto split: if_splits)
    qed (rule unix_invI; simp add: pc_goto facts split: if_splits)
  next
    case (unlocks i ok)
    have lone: "d = c" if "lw_pc w d = Held j" for d j
      using facts(1) [OF that] facts(1) [OF unlocks(2)] by simp
    have "lw_pc w' d = (if d = c then Unlocked i else lw_pc w d)" "lw_path w' = lw_path w" for d
      using unlocks by (simp_all add: releaseFile_def pc_goto pc_drop)
    with facts lone show ?thesis by (intro unix_invI) (auto split: if_splits)
  next
    case (closes i)
    with facts show ?thesis by (intro unix_invI) (auto simp: sys_close_def pc_goto pc_drop split: if_splits)
  next
    case (removes ok)
    with calm have "\<not> engaged w d" for d by (auto simp: removes_contended_def sys_remove_def pc_goto)
    then have "lw_pc w d \<noteq> Held i" "lw_pc w d \<noteq> Opened i" for d i by (force simp: engaged_def split: lock_pc.splits)+
    with removes show ?thesis by (intro unix_invI) (simp_all add: sys_remove_def pc_goto split: if_splits)
  next
    case dies
    with facts show ?thesis by (intro unix_invI) (auto simp: crash_def pc_goto split: if_splits)
  qed simp_all
qed

lemma unix_inv_start: "unix_inv free_world"
  by (simp add: unix_inv_def free_world_def)

lemma holds_iff: "holds w c \<longleftrightarrow> (\<exists>i. lw_pc w c = Held i)"
  by (simp add: holds_def split: lock_pc.splits)

lemma unix_inv_holds: "unix_inv w \<Longrightarrow> holds w c \<Longrightarrow> holds w d \<Longrightarrow> c = d"
  using unix_invD(1) unfolding holds_iff by (metis option.inject)

interpretation advisory: exclusive_protocol unix_step free_world unix_inv holds
  by unfold_locales (fact unix_inv_start, fact unix_inv_step, fact unix_inv_holds)

subsection \<open>The exclusive file\<close>

text \<open>A contender between the creation of the file and its removal.\<close>

definition active :: "LockWorld \<Rightarrow> nat \<Rightarrow> bool" where
  "active w c \<longleftrightarrow> lw_pc w c \<in> range Held \<union> range Unlocked \<union> {Closed}"

definition other_inv :: "LockWorld \<Rightarrow> bool" where
  "other_inv w \<longleftrightarrow> (\<forall>c. active w c \<longrightarrow> lw_path w \<noteq> None) \<and> (\<forall>c d. active w c \<and> active w d \<longrightarrow> c = d)"

text \<open>A step after the creation keeps the contender active, or ends it.\<close>

lemma other_inv_keep:
  assumes "other_inv w" and "active w c" and "\<And>d. d \<noteq> c \<Longrightarrow> lw_pc w' d = lw_pc w d" and "active w' c \<Longrightarrow> lw_path w' = lw_path w"
  shows "other_inv w'"
proof -
  have "d = c" if "active w' d" for d
  proof (rule ccontr)
    assume "d \<noteq> c"
    with assms(3) that have "active w d" by (simp add: active_def)
    with assms(1,2) \<open>d \<noteq> c\<close> show False by (simp add: other_inv_def)
  qed
  moreover have "lw_path w \<noteq> None" using assms(1,2) by (auto simp: other_inv_def)
  ultimately show ?thesis using assms(4) by (auto simp: other_inv_def)
qed

lemma other_inv_idle:
  assumes "other_inv w" and "\<not> active w' c" and "\<And>d. d \<noteq> c \<Longrightarrow> lw_pc w' d = lw_pc w d" and "lw_path w' = lw_path w"
  shows "other_inv w'"
proof -
  have "active w d \<and> d \<noteq> c" if "active w' d" for d
    using assms(2) assms(3) [of d] that by (cases "d = c") (simp_all add: active_def)
  with assms(1,4) show ?thesis by (fastforce simp: other_inv_def)
qed

lemma other_inv_step:
  assumes inv: "other_inv w" and step: "other_step w w'"
  shows "other_inv w'"
proof -
  from step obtain c where s: "lock_step OtherSystem c w w'" by (auto simp: other_step_def)
  from s show ?thesis
  proof cases
    case (creates ok)
    show ?thesis
    proof (cases "ok \<and> lw_path w = None")
      case True
      with inv have "\<not> active w d" for d by (auto simp: other_inv_def)
      then have "active w' d \<longleftrightarrow> d = c" for d using creates True by (simp add: sys_open_excl_def create_file_def pc_goto active_def)
      moreover have "lw_path w' \<noteq> None" using creates True by (simp add: sys_open_excl_def create_file_def pc_goto)
      ultimately show ?thesis by (simp add: other_inv_def)
    next
      case False
      then have w': "w' = goto_pc c Denied w" using creates by (auto simp: sys_open_excl_def)
      show ?thesis by (rule other_inv_idle [OF inv, of _ c]) (auto simp: w' pc_goto active_def)
    qed
  next
    case (unlocks i ok)
    show ?thesis by (rule other_inv_keep [OF inv, of c]) (use unlocks in \<open>simp_all add: releaseFile_def pc_goto active_def\<close>)
  next
    case (closes i)
    show ?thesis by (rule other_inv_keep [OF inv, of c]) (use closes in \<open>simp_all add: sys_close_def pc_goto pc_drop active_def\<close>)
  next
    case (removes ok)
    show ?thesis by (rule other_inv_keep [OF inv, of c]) (use removes in \<open>auto simp: sys_remove_def pc_goto active_def\<close>)
  next
    case dies
    show ?thesis by (rule other_inv_idle [OF inv, of _ c]) (use dies in \<open>auto simp: crash_def pc_goto active_def\<close>)
  qed simp_all
qed

lemma other_inv_start: "other_inv free_world"
  by (auto simp: other_inv_def active_def free_world_def)

lemma other_inv_holds: "other_inv w \<Longrightarrow> holds w c \<Longrightarrow> holds w d \<Longrightarrow> c = d"
  by (auto simp: other_inv_def active_def holds_iff)

interpretation created: exclusive_protocol other_step free_world other_inv holds
  by unfold_locales (fact other_inv_start, fact other_inv_step, fact other_inv_holds)

text \<open>
  C0. The lifecycle lock excludes, as far as it does. For any number of contenders, every interleaving of their system
  calls, every failure of a call and every crash: with the exclusive file at most one contender holds the lock; with
  the advisory lock this is so in every run in which no contender removes the file while another has it
  open.
\<close>

theorem lock_exclusive:
  assumes "pf = Unix \<and> unix_step\<^sup>*\<^sup>* free_world w \<or> pf = OtherSystem \<and> other_step\<^sup>*\<^sup>* free_world w"
    and "holds w c" and "holds w d"
  shows "c = d"
  using assms advisory.reachable_exclusive created.reachable_exclusive by blast


text \<open>The calls are sequences of these steps.\<close>

lemma Acquire_steps:
  assumes "lw_pc w c = Idle"
  shows "(lock_step pf c)\<^sup>*\<^sup>* w (snd (Acquire pf path ok_dir ok_open ok_flock c w))"
proof (cases pf)
  case Unix
  have one: "lock_step pf c w (sys_open ok_open c w)" using Unix assms by (rule lock_step.opens)
  have "(lock_step pf c)\<^sup>*\<^sup>* w (sys_flock ok_flock c (sys_open ok_open c w))"
  proof (cases "\<exists>i. lw_pc (sys_open ok_open c w) c = Opened i")
    case True
    then obtain i where "lw_pc (sys_open ok_open c w) c = Opened i" by blast
    with Unix one show ?thesis by (meson lock_step.flocks r_into_rtranclp rtranclp.rtrancl_into_rtrancl)
  next
    case False
    then have "sys_flock ok_flock c (sys_open ok_open c w) = sys_open ok_open c w" by (simp add: sys_flock_def split: lock_pc.splits)
    with one show ?thesis by auto
  qed
  then show ?thesis using Unix by (simp add: Acquire_def acquireFile_def Let_def)
next
  case OtherSystem
  then have "lock_step pf c w (sys_open_excl ok_open c w)" using assms by (rule lock_step.creates)
  then show ?thesis using OtherSystem by (auto simp: Acquire_def acquireFile_def Let_def)
qed

lemma Release_steps: "(lock_step pf c)\<^sup>*\<^sup>* w (snd (Release pf ok_unlock ok_close ok_remove c w))"
proof (cases "holds w c")
  case True
  then obtain i where h: "lw_pc w c = Held i" by (auto simp: holds_iff)
  let ?w1 = "releaseFile pf ok_unlock c w" let ?w2 = "sys_close c ?w1"
  have pc: "lw_pc ?w1 c = Unlocked i" by (simp add: releaseFile_def h pc_goto)
  then have "lw_pc ?w2 c = Closed" by (simp add: sys_close_def pc_goto)
  then have "lock_step pf c ?w2 (sys_remove ok_remove c ?w2)" by (rule lock_step.removes)
  moreover have "lock_step pf c ?w1 ?w2" using pc by (rule lock_step.closes)
  moreover have "lock_step pf c w ?w1" using h by (rule lock_step.unlocks)
  ultimately have "(lock_step pf c)\<^sup>*\<^sup>* w (sys_remove ok_remove c ?w2)" by (meson r_into_rtranclp rtranclp.rtrancl_into_rtrancl)
  then show ?thesis using True by (simp add: Release_def Let_def)
qed (simp add: Release_def)

text \<open>
  One after the other: a free lock is taken, while it is held every other attempt is refused and changes nothing of
  the file, and after the release the file is gone and the lock can be taken again.
\<close>

lemma lock_roundtrip:
  assumes idle: "lw_pc w c = Idle" "lw_pc w d = Idle" "c \<noteq> d" and path: "path \<noteq> ''''" and free: "lw_path w = None"
    and fresh: "lw_flock w (lw_next w) = None" "lw_flock w (Suc (lw_next w)) = None"
  shows "\<exists>w1 w2. Acquire pf path True True True c w = (Inr (), w1) \<and>
    Acquire pf path True True True d w1 = (Inl LockIsHeld, goto_pc d Denied w1) \<and>
    Release pf True True True c w1 = (None, w2) \<and> lw_path w2 = None \<and> fst (Acquire pf path True True True d w2) = Inr ()"
  using assms
  by (cases pf) (simp_all add: Acquire_def acquireFile_def sys_open_def sys_open_excl_def sys_flock_def create_file_def pc_goto Let_def
      holds_iff Release_def releaseFile_def sys_close_def sys_remove_def pc_drop goto_pc_def drop_flock_def)

text \<open>A crash of the holder frees the advisory lock; the exclusive file stays and refuses everyone.\<close>

lemma crash_frees:
  assumes "lw_pc w c = Held i" and "lw_flock w i = Some c" and "lw_path w = Some i" and "lw_pc w d = Idle" and "c \<noteq> d" and "path \<noteq> ''''"
  shows "fst (Acquire Unix path True True True d (crash c w)) = Inr ()"
    and "fst (Acquire OtherSystem path True True True d (crash c w)) = Inl LockIsHeld"
  using assms
  by (simp_all add: Acquire_def acquireFile_def sys_open_def sys_open_excl_def sys_flock_def pc_goto Let_def holds_iff crash_def goto_pc_def)

text \<open>
  \<open>Release\<close> gives up the advisory lock before it removes the file. A second contender that opened the file before and takes
  the lock in between keeps the lock of a file that is then removed; a third creates a new file and
  takes its lock too.
\<close>

definition ex_two_holders :: LockWorld where
  "ex_two_holders =
     sys_flock True 2 (sys_open True 2 (sys_remove True 0 (sys_close 0 (sys_flock True 1 (releaseFile Unix True 0
       (sys_open True 1 (sys_flock True 0 (sys_open True 0 free_world))))))))"

definition any_unix_step :: "LockWorld \<Rightarrow> LockWorld \<Rightarrow> bool" where
  "any_unix_step w w' \<longleftrightarrow> (\<exists>c. lock_step Unix c w w')"

lemma any_stepI: "lock_step Unix c w w' \<Longrightarrow> any_unix_step w w'"
  by (auto simp: any_unix_step_def)

lemma release_breaks_exclusion:
  "any_unix_step\<^sup>*\<^sup>* free_world ex_two_holders \<and> holds ex_two_holders 1 \<and> holds ex_two_holders 2"
proof -
  let ?r = any_unix_step
  note calls = lock_calls free_world_def
  define w1 where "w1 = sys_open True 0 free_world"
  define w2 where "w2 = sys_flock True 0 w1"
  define w3 where "w3 = sys_open True 1 w2"
  define w4 where "w4 = releaseFile Unix True 0 w3"
  define w5 where "w5 = sys_flock True 1 w4"
  define w6 where "w6 = sys_close 0 w5"
  define w7 where "w7 = sys_remove True 0 w6"
  define w8 where "w8 = sys_open True 2 w7"
  note defs = w1_def w2_def w3_def w4_def w5_def w6_def w7_def w8_def
  have w: "ex_two_holders = sys_flock True 2 w8" by (simp add: ex_two_holders_def defs)
  have "?r free_world w1" unfolding w1_def by (rule any_stepI [of 0], rule lock_step.opens) (simp_all add: free_world_def)
  moreover have "?r w1 w2" unfolding w2_def by (rule any_stepI [of 0], rule lock_step.flocks [where i = 0]) (simp_all add: w1_def calls)
  moreover have "?r w2 w3" unfolding w3_def by (rule any_stepI [of 1], rule lock_step.opens) (simp_all add: w2_def w1_def calls)
  moreover have "?r w3 w4" unfolding w4_def by (rule any_stepI [of 0], rule lock_step.unlocks [where i = 0]) (simp add: w3_def w2_def w1_def calls)
  moreover have "?r w4 w5" unfolding w5_def by (rule any_stepI [of 1], rule lock_step.flocks [where i = 0]) (simp_all add: w4_def w3_def w2_def w1_def calls)
  moreover have "?r w5 w6" unfolding w6_def by (rule any_stepI [of 0], rule lock_step.closes [where i = 0]) (simp add: w5_def w4_def w3_def w2_def w1_def calls)
  moreover have "?r w6 w7" unfolding w7_def by (rule any_stepI [of 0], rule lock_step.removes) (simp add: w6_def w5_def w4_def w3_def w2_def w1_def calls)
  moreover have "?r w7 w8" unfolding w8_def by (rule any_stepI [of 2], rule lock_step.opens) (simp_all add: w7_def w6_def w5_def w4_def w3_def w2_def w1_def calls)
  moreover have "?r w8 ex_two_holders"
    unfolding w by (rule any_stepI [of 2], rule lock_step.flocks [where i = 1]) (simp_all add: w8_def w7_def w6_def w5_def w4_def w3_def w2_def w1_def calls)
  ultimately have "?r\<^sup>*\<^sup>* free_world ex_two_holders" by (meson r_into_rtranclp rtranclp.rtrancl_into_rtrancl)
  moreover have "holds ex_two_holders 1 \<and> holds ex_two_holders 2" by (simp add: ex_two_holders_def holds_iff calls)
  ultimately show ?thesis by blast
qed

theorem lock_exclusive_witness:
  "\<exists>w. (\<exists>c. holds w c) \<and> unix_step\<^sup>*\<^sup>* free_world w \<and> (\<nexists>c d. holds w c \<and> holds w d \<and> c \<noteq> d)"
proof -
  let ?w1 = "sys_open True 0 free_world" and ?w2 = "sys_flock True 0 (sys_open True 0 free_world)"
  note calls = lock_calls free_world_def
  have "lock_step Unix 0 free_world ?w1" by (rule lock_step.opens) (simp_all add: free_world_def)
  then have "unix_step free_world ?w1" unfolding unix_step_def removes_contended_def by (intro exI [of _ 0]) (simp add: free_world_def)
  moreover have "lock_step Unix 0 ?w1 ?w2" by (rule lock_step.flocks [where i = 0]) (simp_all add: calls)
  then have "unix_step ?w1 ?w2" unfolding unix_step_def removes_contended_def by (intro exI [of _ 0]) (simp add: calls)
  ultimately have run: "unix_step\<^sup>*\<^sup>* free_world ?w2" by (meson r_into_rtranclp rtranclp.rtrancl_into_rtrancl)
  moreover have "holds ?w2 0" by (simp add: holds_iff calls)
  ultimately show ?thesis using lock_exclusive [of Unix ?w2] by blast
qed

end
