(* ===== verification/AWG_Pools.thy ===== *)
theory AWG_Pools
  imports Netip Text Prelude
begin

text \<open>
  The candidate and source-pool predicates over the Docker inventory (\<open>awgspec/awgspec.go\<close>): which container looks like an
  AmneziaWG endpoint, which IPv4 pools the Docker networks carry, and how a pool relates to the networks of the
  host. \<open>sort.Slice\<close> is a stable sort here, so candidates with equal keys keep their order.
\<close>

subsection \<open>The inventory\<close>

record PublishedPort =
  pp_HostAddress :: string
  pp_HostPort :: int
  pp_ContainerPort :: int
  pp_Protocol :: string

record Container =
  dc_ID :: string
  dc_Name :: string
  dc_Image :: string
  dc_State :: string
  dc_Ports :: "string list"
  dc_PublishedPorts :: "PublishedPort list"

record DockerNetwork =
  dn_ID :: string
  dn_Name :: string
  dn_Subnet :: string

record Docker =
  dk_Containers :: "Container list"
  dk_Networks :: "DockerNetwork list"

datatype AWGVerdict = AwgProven | AwgNoCandidate | AwgAmbiguous | AwgUnsuitable | AwgUnknown | AwgOther string

datatype awg_gap =
    GapContainerNetworkAttachment | GapContainerObservedAddress | GapRouteGetProducer | GapHostVisibleSourceUnverified
  | GapDockerNATUnverified | GapSnapshotIdentityContract

subsection \<open>Candidates\<close>

record CandidatePolicy =
  cp_ImagePatterns :: "string list"
  cp_ExpectedUDPPort :: int

record UDPPortEvidence =
  ue_HostAddress :: string
  ue_HostPort :: int
  ue_ContainerPort :: int

record Candidate =
  cd_ContainerID :: string
  cd_ContainerName :: string
  cd_Image :: string
  cd_PublishedUDP :: "UDPPortEvidence list"

datatype candidate_reason =
    NoImagePattern | NotRunningContainer string | UDPUndecidable string | UDPContradicted string
  | OnePasses | SeveralPass | EveryContradicted | EvidenceUndecidable | NoImageMatches

record CandidateEvaluation =
  ce_Verdict :: AWGVerdict
  ce_Candidates :: "Candidate list"
  ce_Reasons :: "candidate_reason list"
  ce_MissingFacts :: "awg_gap list"
  ce_Ambiguities :: "(string \<times> string) list"

definition imageMatches :: "string \<Rightarrow> string list \<Rightarrow> bool" where
  "imageMatches img patterns \<longleftrightarrow> list_ex (\<lambda>p. p \<noteq> '''' \<and> string_contains (ToLower img) (ToLower p)) patterns"

definition udp_evidence :: "PublishedPort \<Rightarrow> UDPPortEvidence" where
  "udp_evidence p = \<lparr>ue_HostAddress = pp_HostAddress p, ue_HostPort = pp_HostPort p, ue_ContainerPort = pp_ContainerPort p\<rparr>"

definition publishedUDPEvidence :: "Container \<Rightarrow> UDPPortEvidence list \<times> bool" where
  "publishedUDPEvidence c =
     (if dc_PublishedPorts c = [] then (if dc_Ports c = [] then ([], True) else ([], False))
      else (map udp_evidence (filter (\<lambda>p. pp_Protocol p = ''udp'') (dc_PublishedPorts c)), True))"

definition udpExpectationMet :: "UDPPortEvidence list \<Rightarrow> int \<Rightarrow> bool" where
  "udpExpectationMet udp port \<longleftrightarrow> (if port \<le> 0 then udp \<noteq> [] else list_ex (\<lambda>p. ue_HostPort p = port) udp)"

definition udpEvidenceOf :: "Container \<Rightarrow> UDPPortEvidence list" where
  "udpEvidenceOf c = sort_key ue_HostPort (fst (publishedUDPEvidence c))"

definition candidate_of :: "Container \<Rightarrow> Candidate" where
  "candidate_of c = \<lparr>cd_ContainerID = dc_ID c, cd_ContainerName = dc_Name c, cd_Image = dc_Image c, cd_PublishedUDP = udpEvidenceOf c\<rparr>"

text \<open>What one iteration of the loop makes of a container, and the reason it notes.\<close>

datatype candidate_leg = Excluded | NotRunning | Undecidable | Contradicted | Passing

definition candidate_leg_of :: "CandidatePolicy \<Rightarrow> Container \<Rightarrow> candidate_leg" where
  "candidate_leg_of policy c =
     (if \<not> imageMatches (dc_Image c) (cp_ImagePatterns policy) then Excluded
      else if dc_State c \<noteq> ''running'' then NotRunning
      else case publishedUDPEvidence c of (udp, definitive) \<Rightarrow>
        if \<not> definitive then Undecidable
        else if \<not> udpExpectationMet udp (cp_ExpectedUDPPort policy) then Contradicted else Passing)"

definition leg_reason :: "CandidatePolicy \<Rightarrow> Container \<Rightarrow> candidate_reason option" where
  "leg_reason policy c =
     (case candidate_leg_of policy c of NotRunning \<Rightarrow> Some (NotRunningContainer (dc_ID c)) | Undecidable \<Rightarrow> Some (UDPUndecidable (dc_ID c))
      | Contradicted \<Rightarrow> Some (UDPContradicted (dc_ID c)) | _ \<Rightarrow> None)"

definition EvaluateCandidate :: "Docker \<Rightarrow> CandidatePolicy \<Rightarrow> CandidateEvaluation" where
  "EvaluateCandidate docker policy =
     (let gaps = [GapContainerNetworkAttachment, GapContainerObservedAddress, GapHostVisibleSourceUnverified, GapDockerNATUnverified];
          out = (\<lambda>v cs rs amb. \<lparr>ce_Verdict = v, ce_Candidates = sort_key cd_ContainerID cs, ce_Reasons = rs, ce_MissingFacts = gaps,
                   ce_Ambiguities = amb\<rparr>);
          legs = (\<lambda>l. filter (\<lambda>c. candidate_leg_of policy c = l) (dk_Containers docker));
          why = List.map_filter (leg_reason policy) (dk_Containers docker) in
      if cp_ImagePatterns policy = [] then out AwgUnknown [] [NoImagePattern] []
      else case legs Passing of
        [c] \<Rightarrow> out AwgProven [candidate_of c] (why @ [OnePasses]) []
      | c # d # cs \<Rightarrow> out AwgAmbiguous (map candidate_of (legs Passing)) (why @ [SeveralPass])
                        (map (\<lambda>p. (dc_ID p, dc_Image p)) (legs Passing))
      | [] \<Rightarrow>
          if legs Contradicted \<noteq> [] then out AwgUnsuitable [] (why @ [EveryContradicted]) []
          else if legs Undecidable \<noteq> [] then out AwgUnknown [] (why @ [EvidenceUndecidable]) []
          else out AwgNoCandidate [] (why @ [NoImageMatches]) [])"

subsection \<open>Pools\<close>

type_synonym prefix4 = "addr4 \<times> nat"

definition prefix_text :: "prefix4 \<Rightarrow> string" where
  "prefix_text p = Prefix4_String (fst p) (snd p)"

definition in_net :: "prefix4 \<Rightarrow> addr4 \<Rightarrow> bool" where
  "in_net p x \<longleftrightarrow> in_prefix (fst p) (snd p) x"

text \<open>\<open>netip.ParsePrefix\<close> together with the test for an IPv4 prefix without host bits.\<close>

definition canonical_prefix :: "string \<Rightarrow> prefix4 option" where
  "canonical_prefix s = (case ParsePrefix4 s of None \<Rightarrow> None | Some (a, n) \<Rightarrow> if Masked4 a n \<noteq> a then None else Some (a, n))"

text \<open>\<open>Prefix.Overlaps\<close>: the addresses agree in the bits of the shorter prefix.\<close>

definition Overlaps :: "prefix4 \<Rightarrow> prefix4 \<Rightarrow> bool" where
  "Overlaps p q \<longleftrightarrow> in_prefix (fst p) (min (snd p) (snd q)) (fst q)"

datatype OverlapKind = OverlapExact | OverlapContains | OverlapContained | OverlapPartial | OverlapNone | OverlapIndeterminable

definition classifyOverlap :: "prefix4 \<Rightarrow> prefix4 \<Rightarrow> OverlapKind \<times> bool" where
  "classifyOverlap pool host =
     (if \<not> Overlaps pool host then (OverlapNone, False)
      else if pool = host then (OverlapExact, True)
      else if snd pool < snd host \<and> in_net pool (fst host) then (OverlapContains, True)
      else if snd host < snd pool \<and> in_net host (fst pool) then (OverlapContained, True)
      else (OverlapPartial, True))"

definition overlap_rank :: "OverlapKind \<Rightarrow> nat" where
  "overlap_rank k = (case k of OverlapExact \<Rightarrow> 4 | OverlapContains \<Rightarrow> 3 | OverlapContained \<Rightarrow> 3 | OverlapPartial \<Rightarrow> 2 | _ \<Rightarrow> 0)"

definition better :: "OverlapKind \<Rightarrow> OverlapKind \<Rightarrow> bool" where
  "better a b \<longleftrightarrow> b = OverlapNone \<or> b = OverlapIndeterminable \<or> overlap_rank b < overlap_rank a"

record HostNetworks =
  hn_Prefixes :: "string list"
  hn_Complete :: bool

record PoolOverlap =
  po_Network :: "string list"
  po_Pool :: string
  po_Kind :: OverlapKind
  po_HostPeer :: string

datatype pool_reason =
    DuplicatePool string "string list" | PoolsOverlap string string | PoolOverlapsHost string OverlapKind string
  | HostInventoryIncomplete | NoUsablePool | SinglePoolUnproven | SeveralPools nat

datatype pool_ambiguity = MalformedSubnet string string | MalformedHostPrefix string

record SourcePoolEvaluation =
  sp_Verdict :: AWGVerdict
  sp_Pools :: "string list"
  sp_Overlaps :: "PoolOverlap list"
  sp_Reasons :: "pool_reason list"
  sp_MissingFacts :: "awg_gap list"
  sp_Ambiguities :: "pool_ambiguity list"

text \<open>The pool of a network with its name; a network without a subnet has none.\<close>

definition pool_entry :: "DockerNetwork \<Rightarrow> (pool_ambiguity + prefix4 \<times> string) option" where
  "pool_entry n =
     (if dn_Subnet n = '''' then None
      else case canonical_prefix (dn_Subnet n) of
        None \<Rightarrow> Some (Inl (MalformedSubnet (dn_Name n) (dn_Subnet n))) | Some p \<Rightarrow> Some (Inr (p, dn_Name n)))"

definition pool_entries :: "DockerNetwork list \<Rightarrow> (prefix4 \<times> string) list" where
  "pool_entries ns = List.map_filter (\<lambda>n. case pool_entry n of Some (Inr e) \<Rightarrow> Some e | _ \<Rightarrow> None) ns"

definition pool_names :: "prefix4 \<Rightarrow> (prefix4 \<times> string) list \<Rightarrow> string list" where
  "pool_names p es = map snd (filter (\<lambda>e. fst e = p) es)"

text \<open>The loop over the entries with what it has seen: the pools in their order, and the duplicates.\<close>

fun collect_pools :: "(prefix4 \<times> string) list \<Rightarrow> (prefix4 \<times> string) list \<Rightarrow> prefix4 list \<times> pool_reason list" where
  "collect_pools seen [] = ([], [])"
| "collect_pools seen (e # es) =
     (case collect_pools (seen @ [e]) es of (pools, rs) \<Rightarrow>
        if fst e \<in> fst ` set seen then (pools, DuplicatePool (prefix_text (fst e)) (pool_names (fst e) (seen @ [e])) # rs)
        else (fst e # pools, rs))"

fun pair_overlaps :: "prefix4 list \<Rightarrow> pool_reason list" where
  "pair_overlaps [] = []"
| "pair_overlaps (p # ps) = map (\<lambda>q. PoolsOverlap (prefix_text p) (prefix_text q)) (filter (Overlaps p) ps) @ pair_overlaps ps"

text \<open>The loop over the prefixes of the host, with the best overlap so far; a malformed prefix is skipped.\<close>

definition host_step :: "prefix4 \<Rightarrow> string \<Rightarrow> OverlapKind \<times> string \<Rightarrow> OverlapKind \<times> string" where
  "host_step pool h best =
     (case canonical_prefix h of None \<Rightarrow> best
      | Some hp \<Rightarrow> (case classifyOverlap pool hp of (kind, involves) \<Rightarrow>
          if involves \<and> better kind (fst best) then (kind, h) else best))"

definition host_overlap :: "prefix4 \<Rightarrow> string list \<Rightarrow> OverlapKind \<times> string" where
  "host_overlap pool hs = fold (host_step pool) hs (OverlapNone, '''')"

definition capped :: "bool \<Rightarrow> OverlapKind \<Rightarrow> OverlapKind" where
  "capped complete k = (if \<not> complete \<and> k = OverlapNone then OverlapIndeterminable else k)"

definition pool_overlap :: "HostNetworks \<Rightarrow> (prefix4 \<times> string) list \<Rightarrow> prefix4 \<Rightarrow> PoolOverlap" where
  "pool_overlap host es p = (case host_overlap p (hn_Prefixes host) of (kind, peer) \<Rightarrow>
     \<lparr>po_Network = pool_names p es, po_Pool = prefix_text p, po_Kind = capped (hn_Complete host) kind, po_HostPeer = peer\<rparr>)"

definition pool_ambiguities :: "DockerNetwork list \<Rightarrow> prefix4 list \<Rightarrow> string list \<Rightarrow> pool_ambiguity list" where
  "pool_ambiguities ns pools hs =
     List.map_filter (\<lambda>n. case pool_entry n of Some (Inl a) \<Rightarrow> Some a | _ \<Rightarrow> None) ns @
     concat (map (\<lambda>_. map MalformedHostPrefix (filter (\<lambda>h. canonical_prefix h = None) hs)) pools)"

text \<open>The verdict and its reason: a duplicate or an overlap decides, otherwise the number of pools does.\<close>

definition pool_verdict :: "bool \<Rightarrow> nat \<Rightarrow> AWGVerdict \<times> pool_reason list" where
  "pool_verdict clash n =
     (if clash then (AwgAmbiguous, []) else if n = 0 then (AwgUnsuitable, [NoUsablePool])
      else if n = 1 then (AwgUnknown, [SinglePoolUnproven]) else (AwgAmbiguous, [SeveralPools n]))"

definition host_reason :: "HostNetworks \<Rightarrow> prefix4 \<Rightarrow> pool_reason option" where
  "host_reason host p = (case host_overlap p (hn_Prefixes host) of (kind, peer) \<Rightarrow>
     if kind \<noteq> OverlapNone then Some (PoolOverlapsHost (prefix_text p) kind peer) else None)"

definition EvaluateSourcePool :: "Docker \<Rightarrow> HostNetworks \<Rightarrow> SourcePoolEvaluation" where
  "EvaluateSourcePool docker host =
     (let es = pool_entries (dk_Networks docker);
          pools = fst (collect_pools [] es);
          dups = snd (collect_pools [] es);
          pairs = pair_overlaps pools;
          verdict = pool_verdict (dups @ pairs \<noteq> []) (length pools) in
      \<lparr>sp_Verdict = fst verdict, sp_Pools = sort (map (prefix_text \<circ> fst) es), sp_Overlaps = map (pool_overlap host es) pools,
       sp_Reasons = dups @ pairs @ List.map_filter (host_reason host) pools @
         (if hn_Complete host then [] else [HostInventoryIncomplete]) @ snd verdict,
       sp_MissingFacts = [GapContainerNetworkAttachment, GapContainerObservedAddress, GapRouteGetProducer,
         GapHostVisibleSourceUnverified, GapDockerNATUnverified],
       sp_Ambiguities = pool_ambiguities (dk_Networks docker) pools (hn_Prefixes host)\<rparr>)"

subsection \<open>Overlap is a common address\<close>

lemma canonical_prefix_Some:
  "canonical_prefix s = Some p \<Longrightarrow> snd p \<le> 32 \<and> s = prefix_text p \<and> Masked4 (fst p) (snd p) = fst p"
  using ParsePrefix4_Some [of s "fst p" "snd p"]
  by (auto simp: canonical_prefix_def prefix_text_def split: option.splits if_splits)

lemma canonical_prefix_text: "snd p \<le> 32 \<Longrightarrow> Masked4 (fst p) (snd p) = fst p \<Longrightarrow> canonical_prefix (prefix_text p) = Some p"
  by (cases p) (simp add: canonical_prefix_def prefix_text_def ParsePrefix4_String)

lemma in_prefix_sym: "in_prefix a n b = in_prefix b n a"
  by (auto simp: in_prefix_def)

lemma Overlaps_sym: "Overlaps p q = Overlaps q p"
  by (simp add: Overlaps_def min.commute in_prefix_sym)

lemma Overlaps_iff:
  assumes "snd p \<le> 32" and "snd q \<le> 32"
  shows "Overlaps p q \<longleftrightarrow> (\<exists>x. in_net p x \<and> in_net q x)"
proof -
  have one: "in_prefix (fst p) (snd p) (fst q) \<longleftrightarrow> (\<exists>x. in_net p x \<and> in_net q x)" if "snd p \<le> snd q" "snd q \<le> 32" for p q
  proof
    assume "in_prefix (fst p) (snd p) (fst q)"
    then show "\<exists>x. in_net p x \<and> in_net q x" unfolding in_net_def by (intro exI [of _ "fst q"]) simp
  next
    assume "\<exists>x. in_net p x \<and> in_net q x"
    then obtain x where "in_prefix (fst p) (snd p) x" "in_prefix (fst q) (snd q) x" by (auto simp: in_net_def)
    with in_prefix_trans [OF that, of "fst q" x "fst p"] show "in_prefix (fst p) (snd p) (fst q)" by simp
  qed
  show ?thesis
  proof (cases "snd p \<le> snd q")
    case True
    with one [OF True assms(2)] show ?thesis by (simp add: Overlaps_def)
  next
    case False
    then have "snd q \<le> snd p" by simp
    with one [OF this assms(1)] show ?thesis by (auto simp: Overlaps_def min_def in_prefix_sym)
  qed
qed

lemma canonical_equal:
  assumes "in_prefix a n b" and "Masked4 a n = a" and "Masked4 b n = b"
  shows "a = b"
  using assms by (simp add: in_prefix_def Masked4_def)

lemma Overlaps_canonical_partial:
  assumes "canonical_prefix s = Some p" and "canonical_prefix t = Some q"
  shows "fst (classifyOverlap p q) \<noteq> OverlapPartial"
proof -
  have "p = q" if "Overlaps p q" "snd p = snd q"
    using that canonical_equal [of "fst p" "snd p" "fst q"] canonical_prefix_Some [OF assms(1)] canonical_prefix_Some [OF assms(2)]
    by (simp add: Overlaps_def prod_eq_iff)
  then show ?thesis by (auto simp: classifyOverlap_def Overlaps_def in_net_def min_def in_prefix_sym)
qed

lemma classifyOverlap_None: "classifyOverlap p q = (k, False) \<longleftrightarrow> k = OverlapNone \<and> \<not> Overlaps p q"
  by (auto simp: classifyOverlap_def)

lemma classify_involves: "snd (classifyOverlap p q) \<longleftrightarrow> Overlaps p q"
  by (simp add: classifyOverlap_def)

lemma host_step_kind:
  "fst (host_step pool h best) = OverlapNone \<longleftrightarrow>
     fst best = OverlapNone \<and> (\<forall>hp. canonical_prefix h = Some hp \<longrightarrow> \<not> Overlaps pool hp)"
proof (cases "canonical_prefix h")
  case (Some hp)
  have "fst (classifyOverlap pool hp) = OverlapNone \<longleftrightarrow> \<not> Overlaps pool hp" by (simp add: classifyOverlap_def)
  then show ?thesis
    using Some classify_involves [of pool hp] by (cases best) (auto simp: host_step_def better_def split: prod.splits)
qed (simp add: host_step_def)

lemma host_fold_kind:
  "fst (fold (host_step pool) hs best) = OverlapNone \<longleftrightarrow>
     fst best = OverlapNone \<and> (\<forall>h \<in> set hs. \<forall>hp. canonical_prefix h = Some hp \<longrightarrow> \<not> Overlaps pool hp)"
  by (induction hs arbitrary: best) (auto simp: host_step_kind)

lemma host_step_seen: "fst best \<noteq> OverlapIndeterminable \<Longrightarrow> fst (host_step pool h best) \<noteq> OverlapIndeterminable"
  by (auto simp: host_step_def classifyOverlap_def split: option.splits prod.splits if_splits)

lemma host_fold_seen: "fst best \<noteq> OverlapIndeterminable \<Longrightarrow> fst (fold (host_step pool) hs best) \<noteq> OverlapIndeterminable"
  by (induction hs arbitrary: best) (simp_all add: host_step_seen)

text \<open>The pools of an inventory: every canonical subnet, each once.\<close>

lemma diff_insert_seen: "(if x \<in> B then A - insert x B else insert x (A - insert x B)) = insert x A - B"
  by auto

lemma collect_pools_set: "set (fst (collect_pools seen es)) = fst ` set es - fst ` set seen"
proof (induction seen es rule: collect_pools.induct)
  case (2 seen e es)
  obtain ps rs where r: "collect_pools (seen @ [e]) es = (ps, rs)" by fastforce
  with 2 have ps: "set ps = fst ` set es - insert (fst e) (fst ` set seen)" by simp
  have "set (fst (collect_pools seen (e # es))) = (if fst e \<in> fst ` set seen then set ps else insert (fst e) (set ps))"
    by (simp add: r)
  also have "\<dots> = insert (fst e) (fst ` set es) - fst ` set seen" unfolding ps by (rule diff_insert_seen)
  finally show ?case by simp
qed simp

lemma collect_pools_distinct: "distinct (fst (collect_pools seen es))"
proof (induction seen es rule: collect_pools.induct)
  case (2 seen e es)
  obtain ps rs where r: "collect_pools (seen @ [e]) es = (ps, rs)" by fastforce
  with 2 collect_pools_set [of "seen @ [e]" es] show ?case by simp
qed simp

lemma pool_entries_set:
  "e \<in> set (pool_entries ns) \<longleftrightarrow> (\<exists>n \<in> set ns. dn_Subnet n \<noteq> '''' \<and> canonical_prefix (dn_Subnet n) = Some (fst e) \<and> dn_Name n = snd e)"
proof -
  have "(case pool_entry n of Some (Inr x) \<Rightarrow> Some x | _ \<Rightarrow> None) = Some e \<longleftrightarrow>
      dn_Subnet n \<noteq> '''' \<and> canonical_prefix (dn_Subnet n) = Some (fst e) \<and> dn_Name n = snd e" for n
    by (cases "canonical_prefix (dn_Subnet n)") (auto simp: pool_entry_def)
  then show ?thesis by (simp add: pool_entries_def set_map_filter)
qed

lemma evaluated_overlaps:
  "sp_Overlaps (EvaluateSourcePool docker host) =
     map (pool_overlap host (pool_entries (dk_Networks docker))) (fst (collect_pools [] (pool_entries (dk_Networks docker))))"
  by (simp add: EvaluateSourcePool_def Let_def)

lemma prefix_text_inj:
  assumes "snd p \<le> 32" and "snd q \<le> 32" and "prefix_text p = prefix_text q"
  shows "p = q"
proof -
  have "ParsePrefix4 (prefix_text p) = Some p" "ParsePrefix4 (prefix_text q) = Some q"
    using assms(1,2) by (simp_all add: prefix_text_def ParsePrefix4_String)
  then show ?thesis using assms(3) by (metis option.inject)
qed

text \<open>
  What the overlap column says: NONE stands for a pool that shares no address with any well-formed network of an
  inventory attested complete.
\<close>

lemma overlap_none:
  assumes "o1 \<in> set (sp_Overlaps (EvaluateSourcePool docker host))" and "po_Kind o1 = OverlapNone" and "po_Pool o1 = prefix_text pool"
    and "snd pool \<le> 32"
  shows "hn_Complete host \<and> (\<forall>h \<in> set (hn_Prefixes host). \<forall>hp. canonical_prefix h = Some hp \<longrightarrow> \<not> (\<exists>x. in_net pool x \<and> in_net hp x))"
proof -
  from assms(1) obtain p where p: "p \<in> set (fst (collect_pools [] (pool_entries (dk_Networks docker))))"
    and o1: "o1 = pool_overlap host (pool_entries (dk_Networks docker)) p" by (auto simp: evaluated_overlaps)
  from p obtain e where "e \<in> set (pool_entries (dk_Networks docker))" "fst e = p" by (auto simp: collect_pools_set)
  then obtain n :: DockerNetwork where "canonical_prefix (dn_Subnet n) = Some p" unfolding pool_entries_set by blast
  then have len: "snd p \<le> 32" using canonical_prefix_Some by blast
  obtain kind peer where k: "host_overlap p (hn_Prefixes host) = (kind, peer)" by fastforce
  have "prefix_text p = prefix_text pool" using assms(3) by (simp add: o1 pool_overlap_def k)
  then have same: "p = pool" by (rule prefix_text_inj [OF len assms(4)])
  have "capped (hn_Complete host) kind = OverlapNone" using assms(2) by (simp add: o1 pool_overlap_def k)
  then have c: "hn_Complete host" "kind = OverlapNone" by (auto simp: capped_def split: if_splits)
  from c(2) have apart: "\<forall>h \<in> set (hn_Prefixes host). \<forall>hp. canonical_prefix h = Some hp \<longrightarrow> \<not> Overlaps p hp"
    using host_fold_kind [of p "hn_Prefixes host" "(OverlapNone, '''')"] k by (simp add: host_overlap_def)
  have "\<not> (\<exists>x. in_net pool x \<and> in_net hp x)" if "h \<in> set (hn_Prefixes host)" "canonical_prefix h = Some hp" for h hp
  proof -
    have "\<not> Overlaps p hp" using apart that by blast
    then show ?thesis using Overlaps_iff [OF len, of hp] canonical_prefix_Some [OF that(2)] unfolding same by blast
  qed
  with c(1) show ?thesis by blast
qed

text \<open>
  The comment of \<open>PoolOverlap\<close> promises an indeterminable kind on malformed prefixes. A network of the host that is
  written with its host bits, as an address of an interface is, is skipped: the pool that contains it is
  classified as not overlapping a complete inventory.
\<close>

lemma malformed_host_skipped:
  assumes "canonical_prefix h = None"
  shows "fst (host_overlap pool [h]) = OverlapNone"
  using assms by (simp add: host_overlap_def host_step_def)

text \<open>The comment of the list of pools says deduplicated; a pool carried by two networks is listed twice.\<close>

lemma pools_repeated:
  assumes "canonical_prefix s = Some p" and "s \<noteq> ''''"
  shows "sp_Pools (EvaluateSourcePool \<lparr>dk_Containers = [], dk_Networks = [\<lparr>dn_ID = ''a'', dn_Name = ''a'', dn_Subnet = s\<rparr>,
    \<lparr>dn_ID = ''b'', dn_Name = ''b'', dn_Subnet = s\<rparr>]\<rparr> host) = [prefix_text p, prefix_text p]"
  using assms by (simp add: EvaluateSourcePool_def pool_entries_def pool_entry_def List.map_filter_def Let_def)

end
