(* ===== verification/Spec2Isabelle.thy ===== *)
theory Spec2Isabelle
  imports Prelude Paths Identity Ownership_Evidence Corroboration Ownership MSS_Spec State_Model
    State_Plan Apply_Engine File_Executor Text Executors Netip Capability Journal Recovery State_Store Pipeline
    Approval Evidence Orchestrate Lifecycle Reconstruct Leak Sysctl Sysctl_Policy
    IPTables_Rules MSS_Observe MSS_Chain MSS_Execute Lock AWG_Pools
begin

text \<open>
  A verification development for vps-gateway-bootstrap: the control program of a VPN gateway host.

  The program discovers a machine, compares it with a desired state, plans typed actions, and after a signed or
  explicit confirmation applies them as one journaled transaction that can be rolled back. What it manages it
  must own, and ownership is a claim about history that has to be corroborated by the journal.

  \<^bold>\<open>The parts and where they are modelled.\<close>

  \<^item> \<open>Prelude\<close>, \<open>Text\<close>, \<open>Paths\<close>, \<open>Netip\<close>: the parts of Go's standard library the sources use: decimal numbers and
    prefixes, splitting and joining, \<open>path/filepath\<close>, \<open>net/netip\<close> for IPv4.
  \<^item> \<open>Identity\<close> (\<open>internal/identity\<close>, \<open>machineid\<close>, \<open>ownership\<close>): machine ids, resource identities, unit names, the
    hexadecimal codec of specification hashes.
  \<^item> \<open>Ownership_Evidence\<close>, \<open>Corroboration\<close>, \<open>Ownership\<close> (\<open>internal/ownership\<close>): claims, transaction facts,
    \<open>Corroborate\<close>, the verdict derivation and the admission of operations.
  \<^item> \<open>State_Model\<close>, \<open>State_Plan\<close>, \<open>MSS_Spec\<close> (\<open>internal/state\<close>, \<open>internal/mssspec\<close>): the model of a machine, \<open>BuildDiff\<close>,
    \<open>BuildPlan\<close>, the typed contract of actions and the preflight; the typed MSS specification.
  \<^item> \<open>State_Store\<close> (\<open>state/evidence.go\<close>, \<open>state/persist.go\<close>): the state document, its strict parser, the guarded save.
  \<^item> \<open>Apply_Engine\<close> (\<open>apply/engine.go\<close>): the transaction engine over an arbitrary executor; the locale
    \<open>reversible_executor\<close> is its contract with an executor that can undo.
  \<^item> \<open>File_Executor\<close> (\<open>apply/file_executor.go\<close>, \<open>backup_manifest.go\<close>, \<open>stage1_policy.go\<close>, \<open>fsatomic\<close>): files with backups over
    a file system that may fail at every call; it interprets \<open>reversible_executor\<close>.
  \<^item> \<open>Executors\<close> (\<open>apply/registry.go\<close>, \<open>service_executor.go\<close>, \<open>ssh_executor.go\<close>, \<open>ssh_finalize_executor.go\<close>): dispatch by
    kind, services under the compiled unit policy, the staged SSH port migration; the locale \<open>confined_executor\<close>
    bounds what an executor can do to a machine.
  \<^item> \<open>Capability\<close> (\<open>internal/capability\<close>): capability strings and sets, derivation from typed actions, the exact grant check.
  \<^item> \<open>Journal\<close>, \<open>Recovery\<close> (\<open>internal/journal\<close>, \<open>internal/recovery\<close>): durable transaction records over a directory with
    faults, and the classification of a history after a crash.
  \<^item> \<open>Approval\<close> (\<open>internal/approval\<close>): signed approvals of both versions and the trust anchor file.
  \<^item> \<open>Pipeline\<close> (\<open>internal/pipeline\<close>, \<open>internal/validate\<close>): from a discovery result to plan and preflight; the machine gate.
  \<^item> \<open>Evidence\<close> (\<open>orchestrate/evidence.go\<close>): the claims a completed transaction mints.
  \<^item> \<open>Orchestrate\<close>, \<open>Lifecycle\<close> (\<open>orchestrate/orchestrate.go\<close>): \<open>Prepare\<close> and \<open>Execute\<close>, which compose all of the above;
    \<open>Lifecycle\<close> proves what a run guarantees and interprets \<open>confined_executor\<close> for executors lifted to the world.
  \<^item> \<open>Reconstruct\<close> (\<open>orchestrate/evidence_reconstruct.go\<close>, \<open>evidence_recover.go\<close>): the claims the journal alone
    supports, their order and conflicts, and the recovery that persists them under the lifecycle lock.
  \<^item> \<open>Leak\<close> (\<open>internal/leak\<close>): the evaluator of routing inventories, against a reference semantics of policy routing.
  \<^item> \<open>Sysctl\<close>, \<open>Sysctl_Policy\<close> (\<open>internal/sysctl\<close>): runtime reads, the parser and precedence of the configuration files, the
    evaluation of a policy, against what applying the effective files leaves in the kernel.

  \<^bold>\<open>How the code is read.\<close> Structs are records with the field names prefixed, enumerations are datatypes with the
  source's constructors, errors are values of \<open>'e + 'a\<close> or an optional error text. Code with effects passes its
  state explicitly: an arbitrary machine \<open>'s\<close> for the engine, \<open>FS\<close> for files, \<open>JStore\<close> for the journal, \<open>SStore\<close> for
  the state file, \<open>OWorld\<close> for a whole run. The stores carry a list of faults, one entry consumed by each operation, so
  a theorem about every store is a theorem about every pattern of failures, including a write that fails after its
  rename. Loops are structural recursions over the data, except the glob matcher, which has a measure; no
  definition needs fuel.

  \<^bold>\<open>What is shown.\<close> Planning: a plan contains only typed actions on owned resources, covers the whole diff, and is empty on a
  converged machine. Applying: the engine keeps the backup, apply, validate protocol, ends APPLIED exactly for clean
  runs, and with the file executor leaves no change outside the actions it reports. Authority: grants match the derived
  capabilities exactly, approvals bind fingerprint, purpose and host. History: journal records keep their provenance, a
  verified claim rests on a stored completed record, the classification of a history does not depend on its order.
  Composition: a blocked run changes nothing, an unblocked run has passed every gate with a durable record, a persisted
  run has its terminal proof first, and a failed rollback stops every later mutation. Reconstruction of claims from the
  journal is minting again, idempotent, and never replaces a persisted claim by an older one. Observation: a SAFE leak
  assessment refines policy routing on a walkable inventory, and a SATISFIED sysctl policy holds on both planes.

  \<^bold>\<open>Parameters.\<close> SHA-256, Ed25519, the reflective JSON codec of whole structs, time formatting, the commands of the machine, the
  management probe and the lock are arguments of the definitions; what is assumed of them stands in the statements.

  \<^bold>\<open>Not modelled.\<close> The collectors and parsers of discovery, the live observers, the diagnosis and rendering packages, the linters, the
  MUVG configuration parser, the command line, and the packages without a production consumer (firewall and
  route specifications, AmneziaWG topology, the MSS executor).
\<close>

end
